(* ===== verification/Env_Prelude.thy ===== *)
theory Env_Prelude
  imports Main "HOL-Library.AList" "HOL-Library.Sublist" "HOL-Library.Multiset"
    "HOL-Library.Char_ord" "HOL-Library.List_Lexorder"
begin

section \<open>Prelude: Go strings, maps, errors and counters\<close>

text \<open>
  What the components of Envelope share: the fragment of Go's \<open>strings\<close> package they call,
  Go maps as association lists, Go errors as values of a datatype that keeps the \<open>Unwrap\<close>
  chain, and the process counters of \<open>internal/metrics\<close>.
  A Go \<open>string\<close> and a \<open>[]byte\<close> are both a HOL \<open>string\<close>, one character per byte; case folding
  and white space are ASCII.
  A \<open>time.Time\<close> is the number of nanoseconds since the Unix epoch and a \<open>time.Duration\<close> a
  number of nanoseconds.
\<close>

type_synonym time = int
type_synonym duration = int
type_synonym bytes = string
type_synonym 'v gomap = "(string \<times> 'v) list"

named_theorems env_simps \<open>equations that open the operations of a component\<close>
named_theorems env_inv \<open>preservation of a component's invariant\<close>

subsection \<open>The fragment of the strings package\<close>

text \<open>\<open>strings.Cut\<close>: around the first occurrence of the separator.\<close>

fun go_cut :: "string \<Rightarrow> string \<Rightarrow> string \<times> string \<times> bool" where
  "go_cut sep [] = (if sep = [] then ([], [], True) else ([], [], False))"
| "go_cut sep (c # cs) =
     (if prefix sep (c # cs) then ([], drop (length sep) (c # cs), True)
      else (case go_cut sep cs of (a, b, f) \<Rightarrow> (c # a, b, f)))"

definition has_prefix :: "string \<Rightarrow> string \<Rightarrow> bool" where
  "has_prefix s p \<longleftrightarrow> prefix p s"

definition trim_prefix :: "string \<Rightarrow> string \<Rightarrow> string" where
  "trim_prefix s p = (if prefix p s then drop (length p) s else s)"

definition trim_suffix :: "string \<Rightarrow> string \<Rightarrow> string" where
  "trim_suffix s p = (if suffix p s then take (length s - length p) s else s)"

definition is_space :: "char \<Rightarrow> bool" where
  "is_space c \<longleftrightarrow> of_char c \<in> {9 :: nat, 10, 11, 12, 13, 32}"

definition trim_space :: "string \<Rightarrow> string" where
  "trim_space s = rev (dropWhile is_space (rev (dropWhile is_space s)))"

definition lower_char :: "char \<Rightarrow> char" where
  "lower_char c = (let n = of_char c :: nat in
     if 65 \<le> n \<and> n \<le> 90 then char_of (n + 32) else c)"

definition to_lower :: "string \<Rightarrow> string" where
  "to_lower s = map lower_char s"

definition upper_char :: "char \<Rightarrow> char" where
  "upper_char c = (let n = of_char c :: nat in
     if 97 \<le> n \<and> n \<le> 122 then char_of (n - 32) else c)"

definition to_upper :: "string \<Rightarrow> string" where
  "to_upper s = map upper_char s"

text \<open>\<open>strings.ReplaceAll\<close> with a one-byte pattern and a one-byte replacement.\<close>

definition replace_all :: "char \<Rightarrow> char \<Rightarrow> string \<Rightarrow> string" where
  "replace_all old new s = map (\<lambda>c. if c = old then new else c) s"

text \<open>\<open>strings.Split\<close> and \<open>strings.Join\<close>, the separator of \<open>Split\<close> being one byte.\<close>

fun go_split :: "char \<Rightarrow> string \<Rightarrow> string list" where
  "go_split c [] = [[]]"
| "go_split c (x # xs) =
     (if x = c then [] # go_split c xs
      else (case go_split c xs of [] \<Rightarrow> [[x]] | w # ws \<Rightarrow> (x # w) # ws))"

fun go_join :: "string \<Rightarrow> string list \<Rightarrow> string" where
  "go_join sep [] = []"
| "go_join sep [w] = w"
| "go_join sep (w # ws) = w @ sep @ go_join sep ws"

fun nat_digits :: "nat \<Rightarrow> string" where
  "nat_digits n = (if n < 10 then [char_of (48 + n)]
     else nat_digits (n div 10) @ [char_of (48 + n mod 10)])"

declare nat_digits.simps [simp del]

definition itoa :: "int \<Rightarrow> string" where
  "itoa i = (if i < 0 then CHR ''-'' # nat_digits (nat (- i)) else nat_digits (nat i))"

text \<open>The verb \<open>%q\<close>: double quotes, with the quote, the backslash and control bytes escaped.\<close>

definition hex_digit :: "nat \<Rightarrow> char" where
  "hex_digit n = (if n < 10 then char_of (48 + n) else char_of (87 + n))"

definition quote_char :: "char \<Rightarrow> string" where
  "quote_char c = (let n = of_char c :: nat in
     if c = CHR 0x22 \<or> c = CHR 0x5C then [CHR 0x5C, c]
     else if n = 7 then [CHR 0x5C, CHR ''a'']
     else if n = 8 then [CHR 0x5C, CHR ''b'']
     else if n = 12 then [CHR 0x5C, CHR ''f'']
     else if n = 10 then [CHR 0x5C, CHR ''n'']
     else if n = 13 then [CHR 0x5C, CHR ''r'']
     else if n = 9 then [CHR 0x5C, CHR ''t'']
     else if n = 11 then [CHR 0x5C, CHR ''v'']
     else if n < 32 \<or> n = 127 then [CHR 0x5C, CHR ''x'', hex_digit (n div 16), hex_digit (n mod 16)]
     else [c])"

definition go_quote :: "string \<Rightarrow> string" where
  "go_quote s = [CHR 0x22] @ concat (map quote_char s) @ [CHR 0x22]"

definition crlf :: string where
  "crlf = [CHR 0x0D, CHR 0x0A]"

subsection \<open>Errors\<close>

text \<open>
  A Go error is the chain of values \<open>errors.As\<close> and \<open>errors.Is\<close> walk. \<open>ErrNew\<close> is an
  \<open>errors.New\<close> or a \<open>fmt.Errorf\<close> without \<open>%w\<close>, \<open>ErrWrap m e\<close> a \<open>fmt.Errorf\<close> whose text ends in
  \<open>: %w\<close>, \<open>ErrSentinel\<close> one of the package variables \<open>ErrNotFound\<close>, \<open>ErrSMTP\<close> a go-smtp
  \<open>*SMTPError\<close>, \<open>ErrDNS\<close> a \<open>*net.DNSError\<close> with its \<open>IsNotFound\<close> field and its text,
  \<open>ErrDelivery\<close> the deliverer's own \<open>*deliveryError\<close>, \<open>ErrCtx\<close> a cancelled context,
  \<open>ErrPg\<close> a \<open>*pgconn.PgError\<close> with its SQLSTATE code.
\<close>

datatype smtp_error = SMTPError (se_code: int) (se_enhanced: "int list") (se_message: string)

datatype gerr =
    ErrNew string
  | ErrWrap string gerr
  | ErrSentinel string
  | ErrSMTP smtp_error
  | ErrDNS bool string
  | ErrDelivery gerr bool
  | ErrCtx string
  | ErrPg string string

text \<open>
  What the code calls of go-smtp's \<open>SMTPError\<close>: \<open>Temporary()\<close> and \<open>Error()\<close>. The package is not
  part of the repository, so both are fields of an argument.
\<close>

record gosmtp_lib =
  smtp_temporary :: "smtp_error \<Rightarrow> bool"
  smtp_error_text :: "smtp_error \<Rightarrow> string"

primrec err_text :: "gosmtp_lib \<Rightarrow> gerr \<Rightarrow> string" where
  "err_text lib (ErrNew m) = m"
| "err_text lib (ErrWrap m e) = m @ '': '' @ err_text lib e"
| "err_text lib (ErrSentinel m) = m"
| "err_text lib (ErrSMTP s) = smtp_error_text lib s"
| "err_text lib (ErrDNS nf m) = m"
| "err_text lib (ErrDelivery e p) = err_text lib e"
| "err_text lib (ErrCtx m) = m"
| "err_text lib (ErrPg c m) = m"

primrec errors_is :: "string \<Rightarrow> gerr \<Rightarrow> bool" where
  "errors_is s (ErrNew m) = False"
| "errors_is s (ErrWrap m e) = errors_is s e"
| "errors_is s (ErrSentinel m) = (m = s)"
| "errors_is s (ErrSMTP x) = False"
| "errors_is s (ErrDNS nf m) = False"
| "errors_is s (ErrDelivery e p) = errors_is s e"
| "errors_is s (ErrCtx m) = False"
| "errors_is s (ErrPg c m) = False"

primrec as_smtp :: "gerr \<Rightarrow> smtp_error option" where
  "as_smtp (ErrNew m) = None"
| "as_smtp (ErrWrap m e) = as_smtp e"
| "as_smtp (ErrSentinel m) = None"
| "as_smtp (ErrSMTP s) = Some s"
| "as_smtp (ErrDNS nf m) = None"
| "as_smtp (ErrDelivery e p) = as_smtp e"
| "as_smtp (ErrCtx m) = None"
| "as_smtp (ErrPg c m) = None"

primrec as_dns_not_found :: "gerr \<Rightarrow> bool option" where
  "as_dns_not_found (ErrNew m) = None"
| "as_dns_not_found (ErrWrap m e) = as_dns_not_found e"
| "as_dns_not_found (ErrSentinel m) = None"
| "as_dns_not_found (ErrSMTP s) = None"
| "as_dns_not_found (ErrDNS nf m) = Some nf"
| "as_dns_not_found (ErrDelivery e p) = as_dns_not_found e"
| "as_dns_not_found (ErrCtx m) = None"
| "as_dns_not_found (ErrPg c m) = None"

primrec as_delivery :: "gerr \<Rightarrow> bool option" where
  "as_delivery (ErrNew m) = None"
| "as_delivery (ErrWrap m e) = as_delivery e"
| "as_delivery (ErrSentinel m) = None"
| "as_delivery (ErrSMTP s) = None"
| "as_delivery (ErrDNS nf m) = None"
| "as_delivery (ErrDelivery e p) = Some p"
| "as_delivery (ErrCtx m) = None"
| "as_delivery (ErrPg c m) = None"

primrec as_pg_code :: "gerr \<Rightarrow> string option" where
  "as_pg_code (ErrNew m) = None"
| "as_pg_code (ErrWrap m e) = as_pg_code e"
| "as_pg_code (ErrSentinel m) = None"
| "as_pg_code (ErrSMTP s) = None"
| "as_pg_code (ErrDNS nf m) = None"
| "as_pg_code (ErrDelivery e p) = as_pg_code e"
| "as_pg_code (ErrCtx m) = None"
| "as_pg_code (ErrPg c m) = Some c"

subsection \<open>Lemmas on strings\<close>

lemma go_cut_found:
  "go_cut sep s = (a, b, True) \<Longrightarrow> s = a @ sep @ b"
  by (induction sep s arbitrary: a rule: go_cut.induct)
    (auto split: if_splits prod.splits simp: prefix_def)

lemma go_cut_not_found:
  "go_cut sep s = (a, b, False) \<Longrightarrow> a = s \<and> b = [] \<and> \<not> sublist sep s"
  by (induction sep s arbitrary: a rule: go_cut.induct)
    (auto split: if_splits prod.splits simp: sublist_Cons_right)

lemma go_cut_char_first:
  "go_cut [c] s = (a, b, f) \<Longrightarrow> c \<notin> set a"
  by (induction "[c]" s arbitrary: a rule: go_cut.induct)
    (auto split: if_splits prod.splits simp: prefix_Cons)

lemma go_cut_char_append [simp]:
  "c \<notin> set a \<Longrightarrow> go_cut [c] (a @ c # b) = (a, b, True)"
  by (induction a) (auto simp: prefix_Cons)

lemma go_cut_char_absent:
  "c \<notin> set s \<Longrightarrow> go_cut [c] s = (s, [], False)"
  by (induction s) (auto simp: prefix_Cons)

lemma go_split_nonempty [simp]: "go_split c s \<noteq> []"
  by (induction s) (auto split: list.splits)

lemma go_split_absent: "c \<notin> set s \<Longrightarrow> go_split c s = [s]"
  by (induction s) auto

lemma go_split_append:
  "c \<notin> set w \<Longrightarrow> go_split c (w @ c # s) = w # go_split c s"
  by (induction w) auto

lemma go_split_join:
  "ws \<noteq> [] \<Longrightarrow> (\<forall>w \<in> set ws. c \<notin> set w) \<Longrightarrow> go_split c (go_join [c] ws) = ws"
  by (induction "[c]" ws rule: go_join.induct) (auto simp: go_split_absent go_split_append)

lemma go_join_split: "go_join [c] (go_split c s) = s"
proof (induction s)
  case (Cons x xs)
  then show ?case
    by (cases "go_split c xs"; cases "tl (go_split c xs)") (auto split: list.splits)
qed simp

lemma replace_all_absent: "old \<noteq> new \<Longrightarrow> old \<notin> set (replace_all old new s)"
  by (auto simp: replace_all_def)

lemma replace_all_other:
  "c \<noteq> new \<Longrightarrow> c \<in> set (replace_all old new s) \<longleftrightarrow> c \<in> set s \<and> c \<noteq> old"
  by (auto simp: replace_all_def)

lemma replace_all_length [simp]: "length (replace_all old new s) = length s"
  by (simp add: replace_all_def)

subsection \<open>Lemmas on Go maps\<close>

lemma map_of_update [simp]: "map_of (AList.update k v m) = (map_of m)(k \<mapsto> v)"
  by (rule update_conv')

lemma map_of_delete [simp]: "map_of (AList.delete k m) = (map_of m)(k := None)"
  by (rule delete_conv')

lemma in_set_map_of: "distinct (map fst m) \<Longrightarrow> (k, v) \<in> set m \<longleftrightarrow> map_of m k = Some v"
  by simp

lemma distinct_keys_update [simp]:
  "distinct (map fst m) \<Longrightarrow> distinct (map fst (AList.update k v m))"
  by (rule distinct_update)

lemma distinct_keys_delete [simp]:
  "distinct (map fst m) \<Longrightarrow> distinct (map fst (AList.delete k m))"
  by (rule distinct_delete)

lemma set_delete_keys [simp]: "set (AList.delete k m) = {p \<in> set m. fst p \<noteq> k}"
  by (auto simp: AList.delete_eq)

lemma set_update_keys:
  "distinct (map fst m) \<Longrightarrow> set (AList.update k v m) = insert (k, v) {p \<in> set m. fst p \<noteq> k}"
  by (induction m) (auto simp: image_iff)

lemma length_update:
  "length (AList.update k v m) = (if map_of m k = None then Suc (length m) else length m)"
  by (induction m) auto

lemma length_delete_distinct:
  "distinct (map fst m) \<Longrightarrow> map_of m k = Some v \<Longrightarrow> length m = Suc (length (AList.delete k m))"
proof (induction m)
  case (Cons p m)
  have "AList.delete k m = m" if "k \<notin> fst ` set m"
    using that by (simp add: delete_idem)
  with Cons show ?case by (cases p) (auto split: if_splits)
qed simp

text \<open>Reading a \<open>map[string]bool\<close>: an absent key reads false.\<close>

definition gomap_bool :: "bool gomap \<Rightarrow> string \<Rightarrow> bool" where
  "gomap_bool m k = (map_of m k = Some True)"

lemma gomap_bool_update [simp]: "gomap_bool (AList.update k v m) x = (if x = k then v else gomap_bool m x)"
  by (simp add: gomap_bool_def)

lemma gomap_bool_delete [simp]: "gomap_bool (AList.delete k m) x = (x \<noteq> k \<and> gomap_bool m x)"
  by (simp add: gomap_bool_def)

lemma gomap_bool_empty [simp]: "\<not> gomap_bool [] x"
  by (simp add: gomap_bool_def)

subsection \<open>Ranging over a map\<close>

text \<open>
  A \<open>for k, v := range m\<close> visits the entries in an order the runtime chooses anew each time.
  The choice is a number: \<open>map_range n m\<close> visits the entry at \<open>n mod length m\<close> first and spends
  the rest of \<open>n\<close> on the others. Every number gives a permutation (\<open>map_range_mset\<close>), and every
  permutation comes from some number (\<open>map_range_complete\<close>), so a theorem for all numbers is a
  theorem for all iteration orders.
\<close>

function map_range :: "nat \<Rightarrow> 'a list \<Rightarrow> 'a list" where
  "map_range n [] = []"
| "map_range n (x # xs) =
     (let ys = x # xs; i = n mod length ys
      in ys ! i # map_range (n div length ys) (take i ys @ drop (Suc i) ys))"
  by pat_completeness auto
termination
  by (relation "measure (length \<circ> snd)") (auto simp: less_Suc_eq_le)

lemma mset_remove_nth:
  assumes "i < length ys"
  shows "mset (ys ! i # (take i ys @ drop (Suc i) ys)) = mset ys"
  by (metis assms id_take_nth_drop mset.simps(2) mset_append union_mset_add_mset_right)

lemma map_range_mset [simp]: "mset (map_range n xs) = mset xs"
proof (induction n xs rule: map_range.induct)
  case (2 n x xs)
  define ys where "ys = x # xs"
  define i where "i = n mod length ys"
  have "i < length ys" by (simp add: i_def ys_def)
  then show ?case using 2[of ys i] mset_remove_nth[of i ys] by (simp add: i_def ys_def Let_def)
qed simp

lemma map_range_set [simp]: "set (map_range n xs) = set xs"
  by (metis map_range_mset mset_eq_setD)

lemma map_range_length [simp]: "length (map_range n xs) = length xs"
  by (metis map_range_mset mset_eq_length)

lemma map_range_distinct [simp]: "distinct (map_range n xs) = distinct xs"
  by (metis map_range_mset mset_eq_imp_distinct_iff)

lemma map_range_rec:
  "xs \<noteq> [] \<Longrightarrow> map_range n xs = xs ! (n mod length xs) #
     map_range (n div length xs) (take (n mod length xs) xs @ drop (Suc (n mod length xs)) xs)"
  by (cases xs) (simp_all only: map_range.simps Let_def)

lemma map_range_complete: "mset ys = mset xs \<Longrightarrow> \<exists>n. map_range n xs = ys"
proof (induction ys arbitrary: xs)
  case (Cons y ys)
  then have "y \<in> set xs" by (metis list.set_intros(1) mset_eq_setD)
  then obtain i where i: "i < length xs" "xs ! i = y" by (auto simp: in_set_conv_nth)
  have "add_mset y (mset ys) = add_mset y (mset (take i xs @ drop (Suc i) xs))"
    using mset_remove_nth[OF i(1)] Cons.prems i(2) by simp
  then have "mset ys = mset (take i xs @ drop (Suc i) xs)" by simp
  then obtain n where n: "map_range n (take i xs @ drop (Suc i) xs) = ys"
    using Cons.IH by metis
  have "map_range (n * length xs + i) xs = y # ys"
    using i n by (subst map_range_rec) (auto simp: div_add1_eq)
  then show ?case by blast
qed simp

end
