(* ===== verification/Backoff.thy ===== *)
theory Backoff
  imports Env_Prelude
begin

section \<open>Retry delays: internal/queue/backoff.go\<close>

text \<open>
  \<open>FullJitter\<close> computes in \<open>float64\<close> and converts back to \<open>int64\<close>, so the model keeps both
  roundings: \<open>float64_of_int\<close> rounds an \<open>int64\<close> to 53 significant bits, ties to even;
  multiplying by a power of two is exact until it overflows to an infinity; a product of zero
  and an infinite power is NaN. Every value that occurs is an integer, an infinity or NaN.
  \<open>Int63n\<close> panics on an argument that is not positive; converting a NaN or a value out of the
  range of \<open>int64\<close> gives the least \<open>int64\<close>, as on amd64. A panic is \<open>None\<close>.
\<close>

fun bit_length :: "nat \<Rightarrow> nat" where
  "bit_length n = (if n = 0 then 0 else Suc (bit_length (n div 2)))"

declare bit_length.simps [simp del]

definition round_half_even :: "nat \<Rightarrow> nat \<Rightarrow> nat" where
  "round_half_even k n =
     (let q = n div 2 ^ k; r = n mod 2 ^ k
      in (if 2 ^ k < 2 * r \<or> 2 ^ k = 2 * r \<and> odd q then Suc q else q) * 2 ^ k)"

definition float64_of_nat :: "nat \<Rightarrow> nat" where
  "float64_of_nat n = round_half_even (bit_length n - 53) n"

definition float64_of_int :: "int \<Rightarrow> int" where
  "float64_of_int i = (if i < 0 then - int (float64_of_nat (nat (- i))) else int (float64_of_nat (nat i)))"

datatype float64 = Fin int | PosInf | NegInf | NaN

definition mul_pow2 :: "int \<Rightarrow> nat \<Rightarrow> float64" where
  "mul_pow2 x n =
     (if 1024 \<le> n then (if x = 0 then NaN else if 0 < x then PosInf else NegInf)
      else let y = x * 2 ^ n in
        if 2 ^ 1024 \<le> y then PosInf else if y \<le> - (2 ^ 1024) then NegInf else Fin y)"

fun float_gt_int :: "float64 \<Rightarrow> int \<Rightarrow> bool" where
  "float_gt_int (Fin x) y = (x > y)"
| "float_gt_int PosInf y = True"
| "float_gt_int NegInf y = False"
| "float_gt_int NaN y = False"

fun float_le_zero :: "float64 \<Rightarrow> bool" where
  "float_le_zero (Fin x) = (x \<le> 0)"
| "float_le_zero PosInf = False"
| "float_le_zero NegInf = True"
| "float_le_zero NaN = False"

fun int64_of_float :: "float64 \<Rightarrow> int" where
  "int64_of_float (Fin x) = (if - (2 ^ 63) \<le> x \<and> x < 2 ^ 63 then x else - (2 ^ 63))"
| "int64_of_float _ = - (2 ^ 63)"

definition Int63n :: "(int \<Rightarrow> int) \<Rightarrow> int \<Rightarrow> int option" where
  "Int63n r n = (if n \<le> 0 then None else Some (r n))"

definition FullJitter :: "int \<Rightarrow> duration \<Rightarrow> duration \<Rightarrow> (int \<Rightarrow> int) \<Rightarrow> duration option" where
  "FullJitter attempt base maxDelay r =
     (let attempt = (if attempt < 0 then 0 else attempt);
          upper = mul_pow2 (float64_of_int base) (nat attempt);
          upper = (if float_gt_int upper (float64_of_int maxDelay) \<or> upper = PosInf
                   then Fin (float64_of_int maxDelay) else upper)
      in if float_le_zero upper then Some 0 else Int63n r (int64_of_float upper))"

text \<open>What \<open>math/rand\<close> promises of \<open>Int63n\<close>.\<close>

definition rand_ok :: "(int \<Rightarrow> int) \<Rightarrow> bool" where
  "rand_ok r \<longleftrightarrow> (\<forall>n > 0. 0 \<le> r n \<and> r n < n)"

subsection \<open>Rounding\<close>

lemma bit_length_bounds: "0 < n \<Longrightarrow> 2 ^ (bit_length n - 1) \<le> n \<and> n < 2 ^ bit_length n"
proof (induction n rule: bit_length.induct)
  case (1 n)
  show ?case
  proof (cases "n div 2 = 0")
    case True
    with 1 have "n = 1" by simp
    then show ?thesis by (simp add: bit_length.simps)
  next
    case False
    then have "2 ^ (bit_length (n div 2) - 1) \<le> n div 2" "n div 2 < 2 ^ bit_length (n div 2)"
      using 1 by auto
    moreover have "0 < bit_length (n div 2)" using False by (subst bit_length.simps) simp
    then obtain k where "bit_length (n div 2) = Suc k" by (auto simp: gr0_conv_Suc)
    moreover have "bit_length n = Suc (bit_length (n div 2))" using 1 by (subst bit_length.simps) simp
    ultimately show ?thesis by auto
  qed
qed

lemma bit_length_le: "n < 2 ^ k \<Longrightarrow> bit_length n \<le> k"
proof (cases "n = 0")
  case False
  assume "n < 2 ^ k"
  with False bit_length_bounds[of n] have "(2::nat) ^ (bit_length n - 1) < 2 ^ k" by linarith
  then show ?thesis by (simp add: power_strict_increasing_iff)
qed (simp add: bit_length.simps)

lemma float64_of_nat_exact: "n < 2 ^ 53 \<Longrightarrow> float64_of_nat n = n"
  using bit_length_le[of n 53] by (simp add: float64_of_nat_def round_half_even_def Let_def)

lemma float64_of_int_exact: "\<bar>i\<bar> < 2 ^ 53 \<Longrightarrow> float64_of_int i = i"
  by (auto simp: float64_of_int_def float64_of_nat_exact nat_less_iff)

lemma round_half_even_near:
  "2 * \<bar>int (round_half_even k n) - int n\<bar> \<le> 2 ^ k"
proof -
  define q r where "q = n div 2 ^ k" and "r = n mod 2 ^ k"
  have n: "n = q * 2 ^ k + r" unfolding q_def r_def by (rule div_mult_mod_eq [symmetric])
  have r: "r < 2 ^ k" by (simp add: r_def)
  show ?thesis
  proof (cases "2 ^ k < 2 * r \<or> 2 ^ k = 2 * r \<and> odd q")
    case True
    then have "int (round_half_even k n) = int n + (2 ^ k - int r)"
      by (simp add: round_half_even_def Let_def flip: q_def r_def) (simp add: n algebra_simps)
    moreover have "2 ^ k \<le> 2 * int r" using True by (metis nat_less_le of_nat_le_iff of_nat_mult
        of_nat_numeral of_nat_power le_refl)
    moreover have "int r < 2 ^ k" using r by (metis of_nat_less_iff of_nat_numeral of_nat_power)
    ultimately show ?thesis by simp
  next
    case False
    then have "int (round_half_even k n) = int n - int r"
      by (auto simp: round_half_even_def Let_def simp flip: q_def r_def) (simp_all add: n)
    moreover have "2 * int r \<le> 2 ^ k"
      using False by (metis linorder_not_less of_nat_le_iff of_nat_mult of_nat_numeral of_nat_power)
    ultimately show ?thesis by simp
  qed
qed

lemma float64_of_nat_pos: "0 < n \<Longrightarrow> 0 < float64_of_nat n"
proof (cases "n < 2 ^ 53")
  case False
  define k where "k = bit_length n - 53"
  assume n: "0 < n"
  have "2 ^ (bit_length n - 1) \<le> n" using bit_length_bounds n by blast
  moreover have "(2::nat) ^ k \<le> 2 ^ (bit_length n - 1)" by (simp add: k_def power_increasing)
  ultimately have "(2::nat) ^ k \<le> n" by linarith
  then have "0 < n div 2 ^ k" by (simp add: div_greater_zero_iff)
  then show ?thesis by (simp add: float64_of_nat_def round_half_even_def Let_def flip: k_def)
qed (simp add: float64_of_nat_exact)

text \<open>Below \<open>2 ^ 63 - 512\<close> the rounding of an \<open>int64\<close> stays inside \<open>int64\<close>.\<close>

lemma float64_of_nat_int64:
  assumes "n < 2 ^ 63 - 512"
  shows "float64_of_nat n < 2 ^ 63"
proof -
  define k where "k = bit_length n - 53"
  have "n < 2 ^ 63" using assms by linarith
  then have "k \<le> 10" using bit_length_le[of n 63] by (simp add: k_def)
  then have "(2::int) ^ k \<le> 2 ^ 10" by (rule power_increasing) simp
  moreover have "2 * \<bar>int (float64_of_nat n) - int n\<bar> \<le> 2 ^ k"
    using round_half_even_near[of k n] by (simp add: float64_of_nat_def k_def)
  ultimately have "int (float64_of_nat n) \<le> int n + 512" by (simp add: abs_if split: if_splits)
  then have "int (float64_of_nat n) < 2 ^ 63" using assms by simp
  then show ?thesis by simp
qed

subsection \<open>The delay\<close>

lemma mul_pow2_cases:
  assumes "0 < x"
  shows "mul_pow2 x n = PosInf \<or> mul_pow2 x n = Fin (x * 2 ^ n)"
proof -
  have "0 < x * 2 ^ n" using assms by simp
  moreover have "(0::int) < 2 ^ 1024" by (rule zero_less_power) simp
  ultimately have "\<not> x * 2 ^ n \<le> - (2 ^ 1024)" by linarith
  then show ?thesis using assms by (simp add: mul_pow2_def Let_def)
qed

lemma mul_pow2_inf:
  assumes "mul_pow2 x n = PosInf" "0 < x"
  shows "2 ^ 1024 \<le> x * 2 ^ n"
proof (cases "1024 \<le> n")
  case True
  then have "(2::int) ^ 1024 \<le> 2 ^ n" by (rule power_increasing) simp
  also have "\<dots> \<le> x * 2 ^ n" using assms(2) by simp
  finally show ?thesis .
qed (use assms in \<open>auto simp: mul_pow2_def Let_def split: if_splits\<close>)

lemma int64_lt_overflow: "(x::int) < 2 ^ 64 \<Longrightarrow> 2 ^ 1024 \<le> y \<Longrightarrow> x < y"
  using power_increasing[of 64 1024 "2::int"] by linarith

text \<open>The upper bound of the draw, in one line.\<close>

lemma FullJitter_eq:
  fixes base maxDelay attempt :: int
  assumes "0 < base" "0 < maxDelay" "maxDelay < 2 ^ 63 - 512"
  defines "u \<equiv> min (float64_of_int maxDelay) (float64_of_int base * 2 ^ nat attempt)"
  shows "FullJitter attempt base maxDelay r = Some (r u)" "0 < u" "u < 2 ^ 63"
proof -
  have b: "0 < float64_of_int base" using assms float64_of_nat_pos[of "nat base"]
    by (simp add: float64_of_int_def)
  have m: "0 < float64_of_int maxDelay" using assms float64_of_nat_pos[of "nat maxDelay"]
    by (simp add: float64_of_int_def)
  have m63: "float64_of_int maxDelay < 2 ^ 63"
    using assms float64_of_nat_int64[of "nat maxDelay"]
    by (simp add: float64_of_int_def nat_less_iff)
  show u: "0 < u" "u < 2 ^ 63" using b m m63 by (auto simp: u_def)
  have nat: "nat (if attempt < 0 then 0 else attempt) = nat attempt" by simp
  have "(if float_gt_int (mul_pow2 (float64_of_int base) (nat attempt)) (float64_of_int maxDelay)
      \<or> mul_pow2 (float64_of_int base) (nat attempt) = PosInf
      then Fin (float64_of_int maxDelay) else mul_pow2 (float64_of_int base) (nat attempt)) = Fin u"
  proof (cases "mul_pow2 (float64_of_int base) (nat attempt) = PosInf")
    case True
    then show ?thesis
      using mul_pow2_inf[OF True b] int64_lt_overflow[of "float64_of_int maxDelay"] m63
      by (simp add: u_def)
  next
    case False
    then show ?thesis using mul_pow2_cases[OF b, of "nat attempt"] by (auto simp: u_def min_def)
  qed
  then show "FullJitter attempt base maxDelay r = Some (r u)"
    unfolding FullJitter_def nat Let_def using u by (simp add: Int63n_def)
qed

text \<open>Every delay Envelope configures is below \<open>2 ^ 53\<close> ns (104 days): there the bound is exact.\<close>

lemma FullJitter_exact:
  assumes "0 < base" "base < 2 ^ 53" "0 < maxDelay" "maxDelay < 2 ^ 53" "rand_ok r"
  shows "\<exists>d. FullJitter attempt base maxDelay r = Some d
    \<and> 0 \<le> d \<and> d < maxDelay \<and> d < base * 2 ^ nat attempt"
proof -
  have "maxDelay < 2 ^ 63 - 512" using assms by simp
  note eq = FullJitter_eq(1)[OF assms(1,3) this, of attempt r]
  have e: "float64_of_int maxDelay = maxDelay" "float64_of_int base = base"
    using assms by (auto intro!: float64_of_int_exact)
  let ?u = "min maxDelay (base * 2 ^ nat attempt)"
  have "0 < ?u" using assms by simp
  with \<open>rand_ok r\<close> have "0 \<le> r ?u" "r ?u < ?u" unfolding rand_ok_def by blast+
  then show ?thesis using eq unfolding e by simp
qed

lemma FullJitter_nonpos_max:
  assumes "maxDelay \<le> 0" "0 < base"
  shows "FullJitter attempt base maxDelay r = Some 0"
proof -
  have b: "0 < float64_of_int base" using assms float64_of_nat_pos[of "nat base"]
    by (simp add: float64_of_int_def)
  have "float64_of_int maxDelay \<le> 0" using assms
    by (simp add: float64_of_int_def float64_of_nat_exact)
  moreover have "0 < float64_of_int base * 2 ^ nat attempt" using b by simp
  ultimately have "float64_of_int maxDelay < float64_of_int base * 2 ^ nat attempt" by linarith
  then show ?thesis using mul_pow2_cases[OF b, of "nat attempt"] \<open>float64_of_int maxDelay \<le> 0\<close>
    unfolding FullJitter_def Let_def by auto
qed

text \<open>
  For every attempt number, however large, \<open>FullJitter\<close> returns without a panic and its delay
  lies in \<open>[0, min(cap, base * 2 ^ attempt))\<close>, a negative attempt counting as zero, whenever base
  and cap are positive and below \<open>2 ^ 53\<close> ns; on the whole range of a positive \<open>Duration\<close> below
  \<open>2 ^ 63 - 512\<close> it still returns a delay that is not negative and below the rounded cap.
\<close>

theorem FullJitter_bounds:
  assumes "0 < base" "0 < maxDelay" "rand_ok r"
  shows "(base < 2 ^ 53 \<and> maxDelay < 2 ^ 53 \<longrightarrow>
      (\<exists>d. FullJitter attempt base maxDelay r = Some d
        \<and> 0 \<le> d \<and> d < maxDelay \<and> d < base * 2 ^ nat attempt))
    \<and> (maxDelay < 2 ^ 63 - 512 \<longrightarrow>
      (\<exists>d. FullJitter attempt base maxDelay r = Some d \<and> 0 \<le> d \<and> d < float64_of_int maxDelay))"
proof (intro conjI impI)
  show "\<exists>d. FullJitter attempt base maxDelay r = Some d
      \<and> 0 \<le> d \<and> d < maxDelay \<and> d < base * 2 ^ nat attempt" if "base < 2 ^ 53 \<and> maxDelay < 2 ^ 53"
    using FullJitter_exact assms that by blast
next
  assume m: "maxDelay < 2 ^ 63 - 512"
  let ?u = "min (float64_of_int maxDelay) (float64_of_int base * 2 ^ nat attempt)"
  have "0 < ?u" by (rule FullJitter_eq(2)[OF assms(1,2) m])
  then have "0 \<le> r ?u" "r ?u < ?u" using assms(3) unfolding rand_ok_def by blast+
  then show "\<exists>d. FullJitter attempt base maxDelay r = Some d \<and> 0 \<le> d \<and> d < float64_of_int maxDelay"
    using FullJitter_eq(1)[OF assms(1,2) m, of attempt r] by simp
qed

theorem FullJitter_bounds_witness:
  "\<exists>d. FullJitter 3 1000000000 3600000000000 (\<lambda>n. n - 1) = Some d \<and> 0 \<le> d \<and> d < 8000000000"
  using FullJitter_bounds[of 1000000000 3600000000000 "\<lambda>n. n - 1" 3]
  by (auto simp: rand_ok_def)

end
