(* ===== verification/Claim_Queue.thy ===== *)
theory Claim_Queue
  imports Env_Prelude
begin

section \<open>Claim queues: the contract of queue.Backend and webhook.EventQueue\<close>

text \<open>
  The contract of \<open>queue.Backend\<close> and of \<open>webhook.EventQueue\<close> is one contract over the type of
  the jobs: the locales \<open>job_claims\<close> and \<open>claim_queue\<close> state it over the record \<open>queue_ops\<close> of the operations,
  with the pending jobs and the claims of a state as what a client may observe.
  \<open>queue_step\<close> is the system of workers that share a queue; the locale proves that two workers
  never hold the same job.
  \<open>queue.MemoryBackend\<close> and \<open>webhook.MemoryEventQueue\<close> are the same code over two job types and
  with two error texts: \<open>memory_queue\<close> and the \<open>mem_\<close> operations are that code, and the locale
  \<open>keyed_jobs\<close> shows that it meets the contract for every job type. The theories \<open>Job_Queue\<close> and
  \<open>Webhook_Queue\<close> instantiate both.
\<close>

subsection \<open>The operations of a queue\<close>

text \<open>
  \<open>ctx\<close> is \<open>ctx.Err()\<close>, \<open>now\<close> is \<open>time.Now()\<close>, \<open>seed\<close> the iteration order of the call. An
  operation returns its error, if any, and the state. The cause of a \<open>Fail\<close> is the text of the
  Go error, \<open>None\<close> for nil.
\<close>

record ('j, 's) queue_ops =
  q_Enqueue :: "gerr option \<Rightarrow> 'j \<Rightarrow> 's \<Rightarrow> gerr option \<times> 's"
  q_Dequeue :: "gerr option \<Rightarrow> time \<Rightarrow> nat \<Rightarrow> 's \<Rightarrow> (gerr + 'j option) \<times> 's"
  q_Complete :: "gerr option \<Rightarrow> string \<Rightarrow> 's \<Rightarrow> gerr option \<times> 's"
  q_Fail :: "gerr option \<Rightarrow> string \<Rightarrow> string option \<Rightarrow> time \<Rightarrow> 's \<Rightarrow> gerr option \<times> 's"

text \<open>
  The system of workers over one queue: anyone may enqueue at any time, an idle worker may
  dequeue, a worker that holds a job completes or fails it and is idle again, whether or not the
  call succeeded, and a worker may go away without doing either.
\<close>

inductive queue_step ::
  "('j, 's) queue_ops \<Rightarrow> ('j \<Rightarrow> string) \<Rightarrow> 's \<times> (nat \<Rightarrow> 'j option) \<Rightarrow> 's \<times> (nat \<Rightarrow> 'j option) \<Rightarrow> bool"
  for ops jid where
  step_enqueue: "q_Enqueue ops ctx j s = (e, s') \<Longrightarrow> queue_step ops jid (s, held) (s', held)"
| step_dequeue: "held w = None \<Longrightarrow> q_Dequeue ops ctx now seed s = (Inr (Some j), s') \<Longrightarrow>
    queue_step ops jid (s, held) (s', held(w := Some j))"
| step_dequeue_idle: "held w = None \<Longrightarrow> q_Dequeue ops ctx now seed s = (Inr None, s') \<Longrightarrow>
    queue_step ops jid (s, held) (s', held)"
| step_dequeue_error: "held w = None \<Longrightarrow> q_Dequeue ops ctx now seed s = (Inl e, s') \<Longrightarrow>
    queue_step ops jid (s, held) (s', held)"
| step_complete: "held w = Some j \<Longrightarrow> q_Complete ops ctx (jid j) s = (e, s') \<Longrightarrow>
    queue_step ops jid (s, held) (s', held(w := None))"
| step_fail: "held w = Some j \<Longrightarrow> q_Fail ops ctx (jid j) cause next s = (e, s') \<Longrightarrow>
    queue_step ops jid (s, held) (s', held(w := None))"
| step_drop: "held w = Some j \<Longrightarrow> queue_step ops jid (s, held) (s, held(w := None))"

inductive queue_reachable ::
  "('j, 's) queue_ops \<Rightarrow> ('j \<Rightarrow> string) \<Rightarrow> 's \<Rightarrow> 's \<times> (nat \<Rightarrow> 'j option) \<Rightarrow> bool"
  for ops jid init where
  reach_init: "queue_reachable ops jid init (init, \<lambda>_. None)"
| reach_step: "queue_reachable ops jid init c \<Longrightarrow> queue_step ops jid c c' \<Longrightarrow>
    queue_reachable ops jid init c'"

inductive_cases queue_stepE: "queue_step ops jid (s, held) c'"

lemmas queue_step_cases = queue_stepE
  [consumes 1, case_names enqueue dequeue dequeue_idle dequeue_error complete fail drop]

text \<open>
  The same system with the discipline Envelope's two consumers keep: producers enqueue under
  fresh IDs with a zero attempt count, and a worker fails a job only while another attempt is
  left; otherwise it completes it.
\<close>

inductive retry_step ::
  "('j, 's) queue_ops \<Rightarrow> ('j \<Rightarrow> string) \<Rightarrow> ('j \<Rightarrow> int) \<Rightarrow> int \<Rightarrow> ('s \<Rightarrow> string \<Rightarrow> 'j option)
    \<Rightarrow> 's \<times> (nat \<Rightarrow> 'j option) \<Rightarrow> 's \<times> (nat \<Rightarrow> 'j option) \<Rightarrow> bool"
  for ops jid att maxAttempts pending where
  retry_enqueue: "att j = 0 \<Longrightarrow> pending s (jid j) = None \<Longrightarrow> q_Enqueue ops ctx j s = (e, s') \<Longrightarrow>
    retry_step ops jid att maxAttempts pending (s, held) (s', held)"
| retry_dequeue: "held w = None \<Longrightarrow> q_Dequeue ops ctx now seed s = (Inr (Some j), s') \<Longrightarrow>
    retry_step ops jid att maxAttempts pending (s, held) (s', held(w := Some j))"
| retry_complete: "held w = Some j \<Longrightarrow> q_Complete ops ctx (jid j) s = (e, s') \<Longrightarrow>
    retry_step ops jid att maxAttempts pending (s, held) (s', held(w := None))"
| retry_fail: "held w = Some j \<Longrightarrow> att j + 1 < maxAttempts \<Longrightarrow>
    q_Fail ops ctx (jid j) cause next s = (e, s') \<Longrightarrow>
    retry_step ops jid att maxAttempts pending (s, held) (s', held(w := None))"
| retry_drop: "held w = Some j \<Longrightarrow>
    retry_step ops jid att maxAttempts pending (s, held) (s, held(w := None))"

inductive retry_reachable ::
  "('j, 's) queue_ops \<Rightarrow> ('j \<Rightarrow> string) \<Rightarrow> ('j \<Rightarrow> int) \<Rightarrow> int \<Rightarrow> ('s \<Rightarrow> string \<Rightarrow> 'j option)
    \<Rightarrow> 's \<Rightarrow> 's \<times> (nat \<Rightarrow> 'j option) \<Rightarrow> bool"
  for ops jid att maxAttempts pending init where
  retry_init: "retry_reachable ops jid att maxAttempts pending init (init, \<lambda>_. None)"
| retry_next: "retry_reachable ops jid att maxAttempts pending init c \<Longrightarrow>
    retry_step ops jid att maxAttempts pending c c' \<Longrightarrow>
    retry_reachable ops jid att maxAttempts pending init c'"

inductive_cases retry_stepE: "retry_step ops jid att maxAttempts pending (s, held) c'"

lemmas retry_step_cases = retry_stepE [consumes 1, case_names enqueue dequeue complete fail drop]

subsection \<open>The contract\<close>

text \<open>
  \<open>job_claims\<close> is what both kinds of queue promise, whatever call may fail: \<open>stored j\<close> is what the
  queue keeps of a job it is given (a database column is coarser than a \<open>time.Time\<close>).
  \<open>claim_queue\<close> adds what only the in-memory queues promise: they keep the job as it is, and with
  a live context they fail only on an empty or an unknown ID.
\<close>

locale job_claims =
  fixes ops :: "('j, 's) queue_ops"
    and init :: 's
    and jid :: "'j \<Rightarrow> string"
    and due :: "'j \<Rightarrow> time"
    and retry :: "'j \<Rightarrow> string option \<Rightarrow> time \<Rightarrow> 'j"
    and stored :: "'j \<Rightarrow> 'j"
    and pending :: "'s \<Rightarrow> string \<Rightarrow> 'j option"
    and claims :: "'s \<Rightarrow> string \<Rightarrow> bool"
    and inv :: "'s \<Rightarrow> bool"
  assumes init_inv: "inv init"
    and init_empty: "pending init k = None" "\<not> claims init k"
    and inv_key: "inv s \<Longrightarrow> pending s k = Some j \<Longrightarrow> jid j = k"
    and inv_claim: "inv s \<Longrightarrow> claims s k \<Longrightarrow> pending s k \<noteq> None"
    and retry_id: "jid (retry j c t) = jid j"
    and stored_id: "jid (stored j) = jid j"
    and enq_ok: "inv s \<Longrightarrow> q_Enqueue ops ctx j s = (None, s') \<Longrightarrow>
      inv s' \<and> pending s' = (pending s)(jid j \<mapsto> stored j) \<and> claims s' = claims s"
    and enq_err: "q_Enqueue ops ctx j s = (Some e, s') \<Longrightarrow> s' = s"
    and deq_some: "inv s \<Longrightarrow> q_Dequeue ops ctx now seed s = (Inr (Some j), s') \<Longrightarrow>
      inv s' \<and> pending s (jid j) = Some j \<and> \<not> claims s (jid j) \<and> due j \<le> now
      \<and> (\<forall>k j'. pending s k = Some j' \<and> \<not> claims s k \<and> due j' \<le> now \<longrightarrow> due j \<le> due j')
      \<and> pending s' = pending s \<and> claims s' = (claims s)(jid j := True)"
    and deq_none: "inv s \<Longrightarrow> q_Dequeue ops ctx now seed s = (Inr None, s') \<Longrightarrow>
      s' = s \<and> (\<forall>k j. pending s k = Some j \<longrightarrow> claims s k \<or> now < due j)"
    and deq_err: "q_Dequeue ops ctx now seed s = (Inl e, s') \<Longrightarrow> s' = s"
    and comp_ok: "inv s \<Longrightarrow> q_Complete ops ctx k s = (None, s') \<Longrightarrow>
      inv s' \<and> pending s' = (pending s)(k := None) \<and> claims s' = (claims s)(k := False)"
    and comp_err: "inv s \<Longrightarrow> q_Complete ops ctx k s = (Some e, s') \<Longrightarrow> s' = s"
    and fail_ok: "inv s \<Longrightarrow> q_Fail ops ctx k cause next s = (None, s') \<Longrightarrow>
      inv s' \<and> (\<exists>j. pending s k = Some j
        \<and> pending s' = (pending s)(k \<mapsto> stored (retry j cause next))) \<and> claims s' = (claims s)(k := False)"
    and fail_err: "inv s \<Longrightarrow> q_Fail ops ctx k cause next s = (Some e, s') \<Longrightarrow> s' = s"
begin

text \<open>The invariant of the worker system.\<close>

definition excl :: "'s \<times> (nat \<Rightarrow> 'j option) \<Rightarrow> bool" where
  "excl c \<longleftrightarrow> inv (fst c)
     \<and> (\<forall>w j. snd c w = Some j \<longrightarrow> claims (fst c) (jid j))
     \<and> (\<forall>w w' j j'. snd c w = Some j \<and> snd c w' = Some j' \<and> jid j = jid j' \<longrightarrow> w = w')"

lemma excl_init: "excl (init, \<lambda>_. None)"
  by (simp add: excl_def init_inv)

text \<open>Releasing the claim of a job keeps the invariant when its holder lets go of it.\<close>

lemma excl_release:
  assumes "excl (s, held)" "held w = Some j" "inv s'"
    "claims s' = (claims s)(jid j := False) \<or> s' = s"
  shows "excl (s', held(w := None))"
proof -
  have "jid j' \<noteq> jid j" if "held w' = Some j'" "w' \<noteq> w" for w' j'
    using assms(1,2) that unfolding excl_def by (metis fst_conv snd_conv)
  then show ?thesis using assms unfolding excl_def by (auto split: if_splits)
qed

lemma excl_step:
  assumes "queue_step ops jid (s, held) c'" "excl (s, held)"
  shows "excl c'"
  using assms(1)
proof (cases rule: queue_step_cases)
  case (enqueue ctx j e s')
  then show ?thesis
    using assms(2) enq_ok[of s ctx j s'] enq_err[of ctx j s _ s'] unfolding excl_def
    by (cases e) auto
next
  case (dequeue w ctx now seed j s')
  have "inv s" using assms(2) by (simp add: excl_def)
  from deq_some[OF this dequeue(3)]
  have d: "inv s'" "\<not> claims s (jid j)" "claims s' = (claims s)(jid j := True)" by auto
  then have "jid j' \<noteq> jid j" if "held w' = Some j'" for w' j'
    using assms(2) that unfolding excl_def by (metis fst_conv snd_conv)
  then show ?thesis using assms(2) d dequeue(1) unfolding excl_def
    by (auto split: if_splits)
next
  case (dequeue_idle w ctx now seed s')
  then show ?thesis using assms(2) deq_none[of s ctx now seed s'] by (simp add: excl_def)
next
  case (dequeue_error w ctx now seed e s')
  then show ?thesis using assms(2) deq_err by blast
next
  case (complete w j ctx e s')
  have "inv s' \<and> (claims s' = (claims s)(jid j := False) \<or> s' = s)"
    using assms(2) complete(3) comp_ok[of s ctx "jid j" s'] comp_err[of s ctx "jid j"]
    by (cases e) (auto simp: excl_def)
  then show ?thesis using excl_release[OF assms(2) complete(2)] complete(1) by blast
next
  case (fail w j ctx cause "next" e s')
  have "inv s' \<and> (claims s' = (claims s)(jid j := False) \<or> s' = s)"
    using assms(2) fail(3) fail_ok[of s ctx "jid j" cause "next" s']
      fail_err[of s ctx "jid j" cause "next"]
    by (cases e) (auto simp: excl_def)
  then show ?thesis using excl_release[OF assms(2) fail(2)] fail(1) by blast
next
  case (drop w j)
  then show ?thesis using excl_release[OF assms(2), of w j s] assms(2) by (auto simp: excl_def)
qed

lemma excl_reachable: "queue_reachable ops jid init c \<Longrightarrow> excl c"
  by (induction rule: queue_reachable.induct) (auto simp: excl_init intro: excl_step)

lemma no_shared_job:
  assumes "queue_reachable ops jid init (s, held)" "held w = Some j" "held w' = Some j'" "w \<noteq> w'"
  shows "jid j \<noteq> jid j'"
  using excl_reachable[OF assms(1)] assms(2-4) unfolding excl_def by fastforce

lemma held_pending:
  assumes "queue_reachable ops jid init (s, held)" "held w = Some j"
  shows "\<exists>j'. pending s (jid j) = Some j' \<and> jid j' = jid j"
proof -
  have "inv s" "claims s (jid j)" using excl_reachable[OF assms(1)] assms(2) by (auto simp: excl_def)
  then show ?thesis using inv_claim inv_key by fastforce
qed

text \<open>
  Under the retry discipline the copy of a job a worker holds is the stored one, and the stored
  attempt counts stay in range, for a count \<open>att\<close> that \<open>Fail\<close> increments.
\<close>

definition att_ok :: "('j \<Rightarrow> int) \<Rightarrow> int \<Rightarrow> 'j \<Rightarrow> bool" where
  "att_ok att M j \<longleftrightarrow> 0 \<le> att j \<and> (att j < M \<or> att j = 0)"

definition retry_ok :: "('j \<Rightarrow> int) \<Rightarrow> int \<Rightarrow> 's \<times> (nat \<Rightarrow> 'j option) \<Rightarrow> bool" where
  "retry_ok att M c \<longleftrightarrow> excl c \<and> (\<forall>w j. snd c w = Some j \<longrightarrow> pending (fst c) (jid j) = Some j)
     \<and> (\<forall>k j. pending (fst c) k = Some j \<longrightarrow> att_ok att M j)"

lemma retry_queue_step:
  "retry_step ops jid att M pending c c' \<Longrightarrow> queue_step ops jid c c'"
  by (induction rule: retry_step.induct) (auto intro: queue_step.intros)

lemma retry_ok_release:
  assumes "retry_ok att M (s, held)" "held w = Some j" "excl (s', held(w := None))"
    "pending s' = pending s \<or> (\<exists>x. pending s' = (pending s)(jid j := x)
       \<and> (\<forall>j'. x = Some j' \<longrightarrow> att_ok att M j'))"
  shows "retry_ok att M (s', held(w := None))"
proof -
  have "jid j' \<noteq> jid j" if "held w' = Some j'" "w' \<noteq> w" for w' j'
    using assms(1,2) that unfolding retry_ok_def excl_def by (metis fst_conv snd_conv)
  moreover have "att_ok att M j'" if "pending s' k = Some j'" for k j'
    using assms(1,4) that unfolding retry_ok_def by (auto split: if_splits)
  ultimately show ?thesis using assms unfolding retry_ok_def by (auto split: if_splits)
qed

lemma retry_ok_step:
  assumes "retry_step ops jid att M pending (s, held) c'" "retry_ok att M (s, held)"
    and att: "\<And>j c t. att (retry j c t) = att j + 1"
    and ats: "\<And>j. att (stored j) = att j"
  shows "retry_ok att M c'"
proof -
  have x: "excl c'" using retry_queue_step[OF assms(1)] assms(2) excl_step by (auto simp: retry_ok_def)
  have i: "inv s" using assms(2) by (simp add: retry_ok_def excl_def)
  from assms(1) show ?thesis
  proof (cases rule: retry_step_cases)
    case (enqueue j ctx e s')
    have "pending s' = pending s \<or> pending s' = (pending s)(jid j \<mapsto> stored j)"
      using enq_ok[OF i, of ctx j s'] enq_err[of ctx j s _ s'] enqueue(4) by (cases e) auto
    moreover have "att_ok att M (stored j)" using enqueue(2) ats by (simp add: att_ok_def)
    moreover have "jid j' \<noteq> jid j" if "held w = Some j'" for w j'
      using assms(2) enqueue(3) that unfolding retry_ok_def by (metis fst_conv snd_conv option.distinct(1))
    ultimately show ?thesis using assms(2) x enqueue(1) by (auto simp: retry_ok_def split: if_splits)
  next
    case (dequeue w ctx now seed j s')
    then show ?thesis using assms(2) x deq_some[OF i dequeue(3)] by (auto simp: retry_ok_def)
  next
    case (complete w j ctx e s')
    have "pending s' = pending s \<or> pending s' = (pending s)(jid j := None)"
      using comp_ok[OF i, of ctx "jid j" s'] comp_err[OF i, of ctx "jid j" _ s'] complete(3)
      by (cases e) auto
    then show ?thesis using retry_ok_release[OF assms(2) complete(2)] x complete(1) by auto
  next
    case (fail w j ctx cause "next" e s')
    have p: "pending s (jid j) = Some j" using assms(2) fail(2) by (simp add: retry_ok_def)
    then have "att_ok att M j" using assms(2) unfolding retry_ok_def by (metis fst_conv)
    then have "att_ok att M (stored (retry j cause next))" using fail(3) att ats by (simp add: att_ok_def)
    with p have "pending s (jid j) = Some j" "att_ok att M (stored (retry j cause next))" by auto
    moreover have "pending s' = pending s \<or> (\<exists>j'. pending s (jid j) = Some j'
        \<and> pending s' = (pending s)(jid j \<mapsto> stored (retry j' cause next)))"
      using fail_ok[OF i, of ctx "jid j" cause "next" s'] fail_err[OF i, of ctx "jid j" cause "next" _ s']
        fail(4) by (cases e) auto
    ultimately show ?thesis using retry_ok_release[OF assms(2) fail(2)] x fail(1) by auto
  next
    case (drop w j)
    then show ?thesis using retry_ok_release[OF assms(2) drop(2), of s] x by simp
  qed
qed

lemma stored_retry_ok_reachable:
  assumes "\<And>j c t. att (retry j c t) = att j + 1" "\<And>j. att (stored j) = att j"
  shows "retry_reachable ops jid att M pending init c \<Longrightarrow> retry_ok att M c"
proof (induction rule: retry_reachable.induct)
  case retry_init
  show ?case by (simp add: retry_ok_def excl_init init_empty)
next
  case (retry_next c c')
  then show ?case using retry_ok_step[OF _ _ assms] by (cases c) blast
qed

end

locale claim_queue = job_claims ops init jid due retry "\<lambda>j. j" pending claims inv
  for ops :: "('j, 's) queue_ops" and init jid due retry pending claims inv +
  assumes retry_due: "due (retry j c t) = t"
    and enq_accepts: "jid j \<noteq> [] \<Longrightarrow> fst (q_Enqueue ops None j s) = None"
    and deq_accepts: "q_Dequeue ops None now seed s \<noteq> (Inl e, s')"
    and comp_accepts: "pending s k \<noteq> None \<Longrightarrow> fst (q_Complete ops None k s) = None"
    and fail_accepts: "pending s k \<noteq> None \<Longrightarrow> fst (q_Fail ops None k cause next s) = None"
begin

lemma retry_ok_reachable:
  assumes "\<And>j c t. att (retry j c t) = att j + 1"
  shows "retry_reachable ops jid att M pending init c \<Longrightarrow> retry_ok att M c"
  by (rule stored_retry_ok_reachable[OF assms refl])

text \<open>Without cancellation a due job is always handed out.\<close>

lemma deq_progress:
  assumes "inv s" "pending s k = Some j" "\<not> claims s k" "due j \<le> now"
  shows "\<exists>j' s'. q_Dequeue ops None now seed s = (Inr (Some j'), s')"
proof -
  obtain r s' where d: "q_Dequeue ops None now seed s = (r, s')" by fastforce
  show ?thesis
  proof (cases r)
    case (Inl e)
    then show ?thesis using d deq_accepts by metis
  next
    case (Inr o')
    then show ?thesis using d deq_none[OF assms(1)] assms(2-4) by (cases o') fastforce+
  qed
qed

text \<open>A job that fails is not handed out again before the time \<open>Fail\<close> set.\<close>

lemma fail_postpones:
  assumes "inv s" "q_Fail ops ctx k cause next s = (None, s')"
    "q_Dequeue ops ctx' now seed s' = (Inr (Some j), s'')" "now < next"
  shows "jid j \<noteq> k"
proof
  assume "jid j = k"
  from fail_ok[OF assms(1,2)] obtain j0 where "inv s'" "pending s' k = Some (retry j0 cause next)"
    by auto
  with deq_some[OF \<open>inv s'\<close> assms(3)] \<open>jid j = k\<close> have "next \<le> now" by (auto simp: retry_due)
  with assms(4) show False by simp
qed

end

subsection \<open>The in-memory queue\<close>

record 'j memory_queue =
  mq_jobs :: "'j gomap"
  mq_claimed :: "bool gomap"

definition mem_new :: "'j memory_queue" where
  "mem_new = \<lparr>mq_jobs = [], mq_claimed = []\<rparr>"

definition mem_Enqueue :: "('j \<Rightarrow> string) \<Rightarrow> string \<Rightarrow> gerr option \<Rightarrow> 'j \<Rightarrow> 'j memory_queue
    \<Rightarrow> gerr option \<times> 'j memory_queue" where
  "mem_Enqueue jid required ctx job m =
     (if ctx \<noteq> None then (ctx, m)
      else if jid job = [] then (Some (ErrNew required), m)
      else (None, m\<lparr>mq_jobs := AList.update (jid job) job (mq_jobs m)\<rparr>))"

fun dequeue_scan :: "('j \<Rightarrow> time) \<Rightarrow> bool gomap \<Rightarrow> time \<Rightarrow> (string \<times> 'j) list \<Rightarrow> 'j option \<Rightarrow> 'j option" where
  "dequeue_scan due claimed now [] best = best"
| "dequeue_scan due claimed now ((k, job) # rest) best =
     (if gomap_bool claimed k then dequeue_scan due claimed now rest best
      else if due job > now then dequeue_scan due claimed now rest best
      else if (case best of None \<Rightarrow> True | Some b \<Rightarrow> due job < due b)
        then dequeue_scan due claimed now rest (Some job)
      else dequeue_scan due claimed now rest best)"

definition mem_Dequeue :: "('j \<Rightarrow> string) \<Rightarrow> ('j \<Rightarrow> time) \<Rightarrow> gerr option \<Rightarrow> time \<Rightarrow> nat \<Rightarrow> 'j memory_queue
    \<Rightarrow> (gerr + 'j option) \<times> 'j memory_queue" where
  "mem_Dequeue jid due ctx now seed m =
     (case ctx of Some e \<Rightarrow> (Inl e, m)
      | None \<Rightarrow> (case dequeue_scan due (mq_claimed m) now (map_range seed (mq_jobs m)) None of
          None \<Rightarrow> (Inr None, m)
        | Some best \<Rightarrow>
            (Inr (Some best), m\<lparr>mq_claimed := AList.update (jid best) True (mq_claimed m)\<rparr>)))"

definition mem_Complete :: "string \<Rightarrow> gerr option \<Rightarrow> string \<Rightarrow> 'j memory_queue
    \<Rightarrow> gerr option \<times> 'j memory_queue" where
  "mem_Complete what ctx ident m =
     (if ctx \<noteq> None then (ctx, m)
      else if map_of (mq_jobs m) ident = None
        then (Some (ErrNew (what @ '' '' @ go_quote ident @ '' not found'')), m)
      else (None, m\<lparr>mq_jobs := AList.delete ident (mq_jobs m),
                     mq_claimed := AList.delete ident (mq_claimed m)\<rparr>))"

definition mem_Fail :: "('j \<Rightarrow> string option \<Rightarrow> time \<Rightarrow> 'j) \<Rightarrow> string \<Rightarrow> gerr option \<Rightarrow> string
    \<Rightarrow> string option \<Rightarrow> time \<Rightarrow> 'j memory_queue \<Rightarrow> gerr option \<times> 'j memory_queue" where
  "mem_Fail retry what ctx ident cause nextAttemptAt m =
     (if ctx \<noteq> None then (ctx, m)
      else case map_of (mq_jobs m) ident of
        None \<Rightarrow> (Some (ErrNew (what @ '' '' @ go_quote ident @ '' not found'')), m)
      | Some job \<Rightarrow> (None, m\<lparr>mq_jobs := AList.update ident (retry job cause nextAttemptAt) (mq_jobs m),
                             mq_claimed := AList.delete ident (mq_claimed m)\<rparr>))"

definition mem_ops :: "('j \<Rightarrow> string) \<Rightarrow> ('j \<Rightarrow> time) \<Rightarrow> ('j \<Rightarrow> string option \<Rightarrow> time \<Rightarrow> 'j)
    \<Rightarrow> string \<Rightarrow> string \<Rightarrow> ('j, 'j memory_queue) queue_ops" where
  "mem_ops jid due retry required what =
     \<lparr>q_Enqueue = mem_Enqueue jid required, q_Dequeue = mem_Dequeue jid due,
      q_Complete = mem_Complete what, q_Fail = mem_Fail retry what\<rparr>"

text \<open>
  The invariant: the map is keyed by the ID of its jobs and never by the empty string, and only a
  job of the map is claimed.
\<close>

definition mq_inv :: "('j \<Rightarrow> string) \<Rightarrow> 'j memory_queue \<Rightarrow> bool" where
  "mq_inv jid m \<longleftrightarrow> distinct (map fst (mq_jobs m)) \<and> (\<forall>(k, j) \<in> set (mq_jobs m). jid j = k \<and> k \<noteq> [])
     \<and> (\<forall>k. gomap_bool (mq_claimed m) k \<longrightarrow> map_of (mq_jobs m) k \<noteq> None)"

definition mq_pending :: "'j memory_queue \<Rightarrow> string \<Rightarrow> 'j option" where
  "mq_pending m k = map_of (mq_jobs m) k"

definition mq_claims :: "'j memory_queue \<Rightarrow> string \<Rightarrow> bool" where
  "mq_claims m k = gomap_bool (mq_claimed m) k"

subsection \<open>The scan of Dequeue\<close>

lemma dequeue_scan_some:
  "dequeue_scan due cl now xs best = Some j \<Longrightarrow>
     (best = Some j \<or> (\<exists>k. (k, j) \<in> set xs \<and> \<not> gomap_bool cl k \<and> due j \<le> now))
     \<and> (\<forall>b. best = Some b \<longrightarrow> due j \<le> due b)
     \<and> (\<forall>(k, j') \<in> set xs. \<not> gomap_bool cl k \<and> due j' \<le> now
          \<longrightarrow> due j \<le> due j')"
proof (induction due cl now xs best rule: dequeue_scan.induct)
  case (2 due cl now k x xs best)
  then show ?case by (cases best) (auto split: if_splits)
qed auto

lemma dequeue_scan_none:
  "dequeue_scan due cl now xs best = None \<Longrightarrow>
     best = None \<and> (\<forall>(k, j) \<in> set xs. gomap_bool cl k \<or> now < due j)"
  by (induction due cl now xs best rule: dequeue_scan.induct) (auto split: if_splits option.splits)

lemmas mq_view = mq_pending_def mq_claims_def

lemma mq_inv_mem_new [env_inv]: "mq_inv jid mem_new"
  by (simp add: mq_inv_def mem_new_def)

lemma mq_inv_entry:
  "mq_inv jid m \<Longrightarrow> (k, j) \<in> set (mq_jobs m) \<longleftrightarrow> map_of (mq_jobs m) k = Some j"
  by (simp add: mq_inv_def)

lemma mq_inv_ID: "mq_inv jid m \<Longrightarrow> map_of (mq_jobs m) k = Some j \<Longrightarrow> jid j = k \<and> k \<noteq> []"
  by (fastforce simp: mq_inv_def dest: map_of_SomeD)

lemma mq_inv_update:
  assumes "mq_inv jid m" "jid j = k" "k \<noteq> []"
    "\<And>x. gomap_bool cl x \<Longrightarrow> gomap_bool (mq_claimed m) x"
  shows "mq_inv jid \<lparr>mq_jobs = AList.update k j (mq_jobs m), mq_claimed = cl\<rparr>"
  using assms by (auto simp: mq_inv_def set_update_keys)

lemma mq_inv_Enqueue [env_inv]: "mq_inv jid m \<Longrightarrow> mq_inv jid (snd (mem_Enqueue jid r ctx j m))"
  using mq_inv_update[of jid m j "jid j" "mq_claimed m"]
  by (cases m) (auto simp: mem_Enqueue_def)

lemma mq_inv_Complete [env_inv]: "mq_inv jid m \<Longrightarrow> mq_inv jid (snd (mem_Complete w ctx k m))"
  by (auto simp: mem_Complete_def mq_inv_def)

lemma mq_inv_Fail [env_inv]:
  assumes "mq_inv jid m" "\<And>j c t. jid (retry j c t) = jid j"
  shows "mq_inv jid (snd (mem_Fail retry w ctx k cause t m))"
proof (cases "map_of (mq_jobs m) k")
  case (Some j)
  then have "mq_inv jid \<lparr>mq_jobs = AList.update k (retry j cause t) (mq_jobs m),
      mq_claimed = AList.delete k (mq_claimed m)\<rparr>"
    using mq_inv_ID[OF assms(1) Some] assms(2) by (intro mq_inv_update[OF assms(1)]) auto
  with Some assms show ?thesis by (cases m) (auto simp: mem_Fail_def)
qed (use assms in \<open>auto simp: mem_Fail_def\<close>)

lemma mem_Dequeue_some:
  assumes "mq_inv jid m" "mem_Dequeue jid due ctx now seed m = (Inr (Some j), m')"
  shows "mq_inv jid m'" "mq_pending m (jid j) = Some j" "\<not> mq_claims m (jid j)"
    "due j \<le> now"
    "\<And>k j'. mq_pending m k = Some j' \<Longrightarrow> \<not> mq_claims m k \<Longrightarrow> due j' \<le> now \<Longrightarrow>
       due j \<le> due j'"
    "m' = m\<lparr>mq_claimed := AList.update (jid j) True (mq_claimed m)\<rparr>"
proof -
  have scan: "dequeue_scan due (mq_claimed m) now (map_range seed (mq_jobs m)) None = Some j"
    and m': "m' = m\<lparr>mq_claimed := AList.update (jid j) True (mq_claimed m)\<rparr>"
    using assms(2) by (auto simp: mem_Dequeue_def split: option.splits)
  from dequeue_scan_some[OF scan] obtain k where k: "(k, j) \<in> set (mq_jobs m)"
    "\<not> gomap_bool (mq_claimed m) k" and now: "due j \<le> now"
    and least: "\<forall>(k, j') \<in> set (mq_jobs m). \<not> gomap_bool (mq_claimed m) k
      \<and> due j' \<le> now \<longrightarrow> due j \<le> due j'"
    by auto
  have e: "map_of (mq_jobs m) k = Some j" using k(1) mq_inv_entry[OF assms(1)] by simp
  then have "jid j = k" using mq_inv_ID[OF assms(1)] by simp
  with e show "mq_pending m (jid j) = Some j" "\<not> mq_claims m (jid j)"
    using k(2) by (simp_all add: mq_view)
  show "due j \<le> now" "m' = m\<lparr>mq_claimed := AList.update (jid j) True (mq_claimed m)\<rparr>"
    by (fact now) (fact m')
  show "mq_inv jid m'" using assms(1) e \<open>jid j = k\<close> by (auto simp: m' mq_inv_def)
  show "due j \<le> due j'"
    if "mq_pending m k = Some j'" "\<not> mq_claims m k" "due j' \<le> now" for k j'
    using that least assms(1) mq_inv_entry by (fastforce simp: mq_view)
qed

lemma mem_Dequeue_none:
  assumes "mq_inv jid m" "mem_Dequeue jid due ctx now seed m = (Inr None, m')"
  shows "m' = m \<and> (\<forall>k j. mq_pending m k = Some j \<longrightarrow> mq_claims m k \<or> now < due j)"
proof -
  have "dequeue_scan due (mq_claimed m) now (map_range seed (mq_jobs m)) None = None" "m' = m"
    using assms(2) by (auto simp: mem_Dequeue_def split: option.splits)
  with dequeue_scan_none[OF this(1)] show ?thesis
    using mq_inv_entry[OF assms(1)] by (fastforce simp: mq_view)
qed

locale keyed_jobs =
  fixes jid :: "'j \<Rightarrow> string"
    and due :: "'j \<Rightarrow> time"
    and retry :: "'j \<Rightarrow> string option \<Rightarrow> time \<Rightarrow> 'j"
    and required what :: string
  assumes retry_keeps_id: "jid (retry j c t) = jid j"
    and retry_sets_due: "due (retry j c t) = t"

sublocale keyed_jobs \<subseteq> cq: claim_queue "mem_ops jid due retry required what" mem_new jid due retry
  mq_pending mq_claims "mq_inv jid"
proof (unfold_locales, goal_cases)
  case 1 show ?case by (rule mq_inv_mem_new)
next
  case 2 show ?case by (simp add: mem_new_def mq_view)
next
  case 3 show ?case by (simp add: mem_new_def mq_view)
next
  case (4 s k j) then show ?case by (simp add: mq_view mq_inv_ID)
next
  case (5 s k) then show ?case unfolding mq_view mq_inv_def by blast
next
  case 6 show ?case by (rule retry_keeps_id)
next
  case 7 show ?case by (rule refl)
next
  case (8 s ctx j s')
  then show ?case using mq_inv_Enqueue[of jid s required ctx j]
    by (auto simp: mem_ops_def mem_Enqueue_def mq_view fun_eq_iff split: if_splits)
next
  case (9 ctx j s e s')
  then show ?case by (auto simp: mem_ops_def mem_Enqueue_def split: if_splits)
next
  case (10 s ctx now seed j s')
  from 10(2) have "mem_Dequeue jid due ctx now seed s = (Inr (Some j), s')" by (simp add: mem_ops_def)
  note d = mem_Dequeue_some[OF 10(1) this]
  show ?case using d by (auto simp: fun_eq_iff mq_view)
next
  case (11 s ctx now seed s')
  then show ?case using mem_Dequeue_none by (simp add: mem_ops_def)
next
  case (12 ctx now seed s e s')
  then show ?case by (auto simp: mem_ops_def mem_Dequeue_def split: option.splits)
next
  case (13 s ctx k s')
  then show ?case using mq_inv_Complete[of jid s what ctx k]
    by (auto simp: mem_ops_def mem_Complete_def mq_view fun_eq_iff split: if_splits)
next
  case (14 s ctx k e s')
  then show ?case by (auto simp: mem_ops_def mem_Complete_def split: if_splits)
next
  case (15 s ctx k cause nxt s')
  then show ?case using mq_inv_Fail[of jid s retry what ctx k cause nxt] retry_keeps_id
    by (auto simp: mem_ops_def mem_Fail_def mq_view fun_eq_iff split: if_splits option.splits)
next
  case (16 s ctx k cause nxt e s')
  then show ?case by (auto simp: mem_ops_def mem_Fail_def split: if_splits option.splits)
next
  case 17 show ?case by (rule retry_sets_due)
next
  case (18 j s) then show ?case by (simp add: mem_ops_def mem_Enqueue_def)
next
  case (19 now seed s e s') show ?case by (auto simp: mem_ops_def mem_Dequeue_def split: option.splits)
next
  case (20 s k) then show ?case by (auto simp: mem_ops_def mem_Complete_def mq_view)
next
  case (21 s k cause nxt) then show ?case by (auto simp: mem_ops_def mem_Fail_def mq_view)
qed


context keyed_jobs
begin

lemma mem_Dequeue_spec:
  assumes "mq_inv jid m"
  shows "case mem_Dequeue jid due None now seed m of
      (Inl e, m') \<Rightarrow> False
    | (Inr None, m') \<Rightarrow> m' = m \<and> (\<forall>k j. mq_pending m k = Some j \<longrightarrow> mq_claims m k \<or> now < due j)
    | (Inr (Some j), m') \<Rightarrow> mq_inv jid m' \<and> mq_pending m (jid j) = Some j \<and> \<not> mq_claims m (jid j)
        \<and> due j \<le> now
        \<and> (\<forall>k j'. mq_pending m k = Some j' \<and> \<not> mq_claims m k \<and> due j' \<le> now \<longrightarrow> due j \<le> due j')
        \<and> mq_jobs m' = mq_jobs m \<and> mq_claims m' = (mq_claims m)(jid j := True)"
proof -
  obtain r m' where d: "mem_Dequeue jid due None now seed m = (r, m')" by fastforce
  show ?thesis
  proof (cases r)
    case (Inl e)
    then show ?thesis using d by (auto simp: mem_Dequeue_def split: option.splits)
  next
    case (Inr r')
    show ?thesis
    proof (cases r')
      case None
      then show ?thesis using d Inr mem_Dequeue_none[OF assms] by simp
    next
      case (Some j)
      then have "mem_Dequeue jid due None now seed m = (Inr (Some j), m')" using d Inr by simp
      from mem_Dequeue_some[OF assms this] show ?thesis
        using d Inr Some by (auto simp: fun_eq_iff mq_view)
    qed
  qed
qed

lemma mem_Fail_spec:
  assumes "mq_inv jid m" "mq_pending m k = Some j"
  shows "\<exists>m'. mem_Fail retry what None k cause next m = (None, m') \<and> mq_inv jid m'
      \<and> mq_pending m' = (mq_pending m)(k \<mapsto> retry j cause next)
      \<and> mq_claims m' = (mq_claims m)(k := False) \<and> length (mq_jobs m') = length (mq_jobs m)
      \<and> (\<forall>now seed j' m''. now < next \<and> mem_Dequeue jid due None now seed m' = (Inr (Some j'), m'')
           \<longrightarrow> jid j' \<noteq> k)"
proof -
  obtain m' where f: "mem_Fail retry what None k cause next m = (None, m')"
    using assms by (auto simp: mem_Fail_def mq_view)
  then have f': "q_Fail (mem_ops jid due retry required what) None k cause next m = (None, m')"
    by (simp add: mem_ops_def)
  have "length (mq_jobs m') = length (mq_jobs m)"
    using f assms(2) by (auto simp: mem_Fail_def mq_view length_update)
  moreover have "jid j' \<noteq> k" if "now < next" "mem_Dequeue jid due None now seed m' = (Inr (Some j'), m'')"
    for now seed j' m''
    using cq.fail_postpones[OF assms(1) f', of None now seed j' m''] that by (simp add: mem_ops_def)
  ultimately show ?thesis using cq.fail_ok[OF assms(1) f'] f assms(2) by auto
qed

end

end
