(* ===== verification/Job_Queue.thy ===== *)
theory Job_Queue
  imports Claim_Queue
begin

section \<open>Outbound job queue: internal/queue\<close>

text \<open>
  \<open>queue.Job\<close> and \<open>queue.MemoryBackend\<close>: the in-memory claim queue at the type of outbound jobs,
  with the contract of \<open>Claim_Queue\<close> interpreted on it.
\<close>

subsection \<open>Job and MemoryBackend\<close>

record job =
  job_ID :: string
  job_Vhost :: string
  job_From :: string
  job_To :: string
  job_BodyRef :: string
  job_Attempts :: int
  job_NextAttemptAt :: time
  job_LastError :: string
  job_CorrelationID :: string

type_synonym memory_backend = "job memory_queue"

definition NewMemoryBackend :: memory_backend where
  "NewMemoryBackend = mem_new"

definition MemoryBackend_Enqueue :: "gerr option \<Rightarrow> job \<Rightarrow> memory_backend \<Rightarrow> gerr option \<times> memory_backend" where
  "MemoryBackend_Enqueue = mem_Enqueue job_ID ''queue: job ID is required''"

definition MemoryBackend_Dequeue :: "gerr option \<Rightarrow> time \<Rightarrow> nat \<Rightarrow> memory_backend
    \<Rightarrow> (gerr + job option) \<times> memory_backend" where
  "MemoryBackend_Dequeue = mem_Dequeue job_ID job_NextAttemptAt"

definition MemoryBackend_Empty :: "memory_backend \<Rightarrow> bool" where
  "MemoryBackend_Empty m \<longleftrightarrow> length (mq_jobs m) = 0"

definition MemoryBackend_Count :: "gerr option \<Rightarrow> memory_backend \<Rightarrow> gerr + nat" where
  "MemoryBackend_Count ctx m = (case ctx of Some e \<Rightarrow> Inl e | None \<Rightarrow> Inr (length (mq_jobs m)))"

definition MemoryBackend_Complete :: "gerr option \<Rightarrow> string \<Rightarrow> memory_backend \<Rightarrow> gerr option \<times> memory_backend" where
  "MemoryBackend_Complete = mem_Complete ''queue: job''"

definition job_retry :: "job \<Rightarrow> string option \<Rightarrow> time \<Rightarrow> job" where
  "job_retry job cause next =
     (let job = job\<lparr>job_Attempts := job_Attempts job + 1, job_NextAttemptAt := next\<rparr>
      in case cause of None \<Rightarrow> job | Some e \<Rightarrow> job\<lparr>job_LastError := e\<rparr>)"

definition MemoryBackend_Fail :: "gerr option \<Rightarrow> string \<Rightarrow> string option \<Rightarrow> time \<Rightarrow> memory_backend
    \<Rightarrow> gerr option \<times> memory_backend" where
  "MemoryBackend_Fail = mem_Fail job_retry ''queue: job''"

definition MemoryBackend_ops :: "(job, memory_backend) queue_ops" where
  "MemoryBackend_ops = \<lparr>q_Enqueue = MemoryBackend_Enqueue, q_Dequeue = MemoryBackend_Dequeue,
     q_Complete = MemoryBackend_Complete, q_Fail = MemoryBackend_Fail\<rparr>"

lemmas MemoryBackend_defs = MemoryBackend_Enqueue_def MemoryBackend_Dequeue_def
  MemoryBackend_Complete_def MemoryBackend_Fail_def NewMemoryBackend_def

lemma job_retry_simps [simp]:
  "job_ID (job_retry j c t) = job_ID j"
  "job_NextAttemptAt (job_retry j c t) = t"
  "job_Attempts (job_retry j c t) = job_Attempts j + 1"
  "job_Vhost (job_retry j c t) = job_Vhost j"
  "job_From (job_retry j c t) = job_From j"
  "job_To (job_retry j c t) = job_To j"
  "job_BodyRef (job_retry j c t) = job_BodyRef j"
  by (simp_all add: job_retry_def Let_def split: option.splits)

lemma MemoryBackend_ops_mem:
  "MemoryBackend_ops =
     mem_ops job_ID job_NextAttemptAt job_retry ''queue: job ID is required'' ''queue: job''"
  by (simp add: MemoryBackend_ops_def mem_ops_def MemoryBackend_defs)

interpretation mb: keyed_jobs job_ID job_NextAttemptAt job_retry
  "''queue: job ID is required''" "''queue: job''"
  by unfold_locales simp_all

interpretation mb: claim_queue MemoryBackend_ops NewMemoryBackend job_ID job_NextAttemptAt job_retry
  mq_pending mq_claims "mq_inv job_ID"
  unfolding MemoryBackend_ops_mem NewMemoryBackend_def by (rule mb.cq.claim_queue_axioms)

text \<open>The number of jobs \<open>Count\<close> reports, per operation.\<close>

lemma Count_Enqueue:
  "job_ID j \<noteq> [] \<Longrightarrow> MemoryBackend_Count None (snd (MemoryBackend_Enqueue None j m)) =
     Inr (if mq_pending m (job_ID j) = None then Suc (length (mq_jobs m)) else length (mq_jobs m))"
  by (simp add: MemoryBackend_Count_def MemoryBackend_Enqueue_def mem_Enqueue_def length_update mq_view)

lemma Count_Complete:
  "mq_inv job_ID m \<Longrightarrow> mq_pending m k = Some j \<Longrightarrow>
     MemoryBackend_Count None (snd (MemoryBackend_Complete None k m)) = Inr (length (mq_jobs m) - 1)"
  using length_delete_distinct[of "mq_jobs m" k j]
  by (auto simp: MemoryBackend_Count_def MemoryBackend_Complete_def mem_Complete_def mq_view mq_inv_def)

lemma Count_Fail:
  "MemoryBackend_Count None (snd (MemoryBackend_Fail None k c t m)) = MemoryBackend_Count None m"
  by (auto simp: MemoryBackend_Count_def MemoryBackend_Fail_def mem_Fail_def length_update split: option.splits)

lemma Count_Dequeue: "MemoryBackend_Count None (snd (MemoryBackend_Dequeue None now seed m)) = MemoryBackend_Count None m"
  by (auto simp: MemoryBackend_Count_def MemoryBackend_Dequeue_def mem_Dequeue_def split: option.splits)

subsection \<open>Properties\<close>

definition demo_job :: "string \<Rightarrow> time \<Rightarrow> job" where
  "demo_job i t = \<lparr>job_ID = i, job_Vhost = ''a.test'', job_From = ''u@a.test'', job_To = ''v@b.test'',
     job_BodyRef = ''r'', job_Attempts = 0, job_NextAttemptAt = t, job_LastError = [],
     job_CorrelationID = ''c''\<rparr>"

text \<open>
  C1: Workers that share a \<open>MemoryBackend\<close> never hold the same job: in every state that
  enqueues, dequeues, completions and failures reach, in any order, with any clock, any map
  iteration order and any cancelled call, two workers that hold jobs hold jobs with different
  IDs, and the job of each is still stored and marked as claimed.
\<close>

theorem MemoryBackend_exclusive:
  assumes "queue_reachable MemoryBackend_ops job_ID NewMemoryBackend (m, held)"
    and "held w = Some j" and "held w' = Some j'" and "w \<noteq> w'"
  shows "job_ID j \<noteq> job_ID j' \<and> mq_pending m (job_ID j) \<noteq> None \<and> mq_claims m (job_ID j)"
proof -
  have "mb.excl (m, held)" by (rule mb.excl_reachable[OF assms(1)])
  then have "mq_claims m (job_ID j)" using assms(2) by (simp add: mb.excl_def)
  then show ?thesis using mb.no_shared_job[OF assms] mb.held_pending[OF assms(1,2)] by auto
qed

definition demo_two :: memory_backend where
  "demo_two = \<lparr>mq_jobs = [(''a'', demo_job ''a'' 5), (''b'', demo_job ''b'' 3)],
     mq_claimed = [(''b'', True), (''a'', True)]\<rparr>"

lemma demo_two_reachable:
  "queue_reachable MemoryBackend_ops job_ID NewMemoryBackend
     (demo_two, ((\<lambda>_. None)(0 := Some (demo_job ''b'' 3)))(1 := Some (demo_job ''a'' 5)))"
proof -
  let ?a = "demo_job ''a'' 5" and ?b = "demo_job ''b'' 3"
  let ?m1 = "\<lparr>mq_jobs = [(''a'', ?a)], mq_claimed = []\<rparr>"
  let ?m2 = "\<lparr>mq_jobs = [(''a'', ?a), (''b'', ?b)], mq_claimed = []\<rparr>"
  let ?m3 = "\<lparr>mq_jobs = [(''a'', ?a), (''b'', ?b)], mq_claimed = [(''b'', True)]\<rparr>"
  let ?R = "queue_reachable MemoryBackend_ops job_ID NewMemoryBackend"
  have 1: "?R (?m1, \<lambda>_. None)"
    by (rule reach_step[OF reach_init], rule step_enqueue[of _ None ?a _ None])
      (simp add: MemoryBackend_ops_def MemoryBackend_Enqueue_def mem_Enqueue_def demo_job_def NewMemoryBackend_def mem_new_def)
  have 2: "?R (?m2, \<lambda>_. None)"
    by (rule reach_step[OF 1], rule step_enqueue[of _ None ?b _ None])
      (simp add: MemoryBackend_ops_def MemoryBackend_Enqueue_def mem_Enqueue_def demo_job_def)
  have 3: "?R (?m3, (\<lambda>_. None)(0 := Some ?b))"
    by (rule reach_step[OF 2], rule step_dequeue[of _ 0 _ None 9 0])
      (simp_all add: MemoryBackend_ops_def MemoryBackend_Dequeue_def mem_Dequeue_def demo_job_def Let_def)
  show ?thesis
    by (rule reach_step[OF 3], rule step_dequeue[of _ 1 _ None 9 0])
      (simp_all add: MemoryBackend_ops_def MemoryBackend_Dequeue_def mem_Dequeue_def demo_job_def Let_def demo_two_def gomap_bool_def)
qed

theorem MemoryBackend_exclusive_witness:
  "queue_reachable MemoryBackend_ops job_ID NewMemoryBackend
     (demo_two, ((\<lambda>_. None)(0 := Some (demo_job ''b'' 3)))(1 := Some (demo_job ''a'' 5)))
   \<and> job_ID (demo_job ''b'' 3) \<noteq> job_ID (demo_job ''a'' 5)"
  using MemoryBackend_exclusive[OF demo_two_reachable, of 0 "demo_job ''b'' 3" 1 "demo_job ''a'' 5"]
    demo_two_reachable by simp

text \<open>
  C9: \<open>MemoryBackend.Dequeue\<close> implements the contract of \<open>Backend.Dequeue\<close>: with a live context
  it returns no job exactly when every stored job is claimed or not yet due, and otherwise it
  returns a stored, unclaimed job that is due and that no other such job precedes; it claims that
  job and changes nothing else. This holds for every map iteration order.
\<close>

theorem MemoryBackend_Dequeue_earliest:
  assumes "mq_inv job_ID m"
  shows "case MemoryBackend_Dequeue None now seed m of
      (Inl e, m') \<Rightarrow> False
    | (Inr None, m') \<Rightarrow> m' = m \<and> (\<forall>k j. mq_pending m k = Some j \<longrightarrow> mq_claims m k \<or> now < job_NextAttemptAt j)
    | (Inr (Some j), m') \<Rightarrow> mq_inv job_ID m' \<and> mq_pending m (job_ID j) = Some j \<and> \<not> mq_claims m (job_ID j)
        \<and> job_NextAttemptAt j \<le> now
        \<and> (\<forall>k j'. mq_pending m k = Some j' \<and> \<not> mq_claims m k \<and> job_NextAttemptAt j' \<le> now
             \<longrightarrow> job_NextAttemptAt j \<le> job_NextAttemptAt j')
        \<and> mq_jobs m' = mq_jobs m \<and> mq_claims m' = (mq_claims m)(job_ID j := True)"
  unfolding MemoryBackend_Dequeue_def by (rule mb.mem_Dequeue_spec[OF assms])

theorem MemoryBackend_Dequeue_earliest_witness:
  "mq_inv job_ID (demo_two\<lparr>mq_claimed := []\<rparr>) \<and>
   fst (MemoryBackend_Dequeue None 9 1 (demo_two\<lparr>mq_claimed := []\<rparr>)) = Inr (Some (demo_job ''b'' 3))"
proof -
  have "mq_inv job_ID (demo_two\<lparr>mq_claimed := []\<rparr>)"
    by (simp add: mq_inv_def demo_two_def demo_job_def)
  from MemoryBackend_Dequeue_earliest[OF this, of 9 1] this show ?thesis
    by (simp add: MemoryBackend_Dequeue_def mem_Dequeue_def demo_two_def demo_job_def Let_def)
qed

text \<open>
  \<open>MemoryBackend.Fail\<close> on a stored job succeeds, releases the claim, counts one more attempt,
  keeps the envelope of the job and its place in the queue, and no \<open>Dequeue\<close> before the new
  \<open>NextAttemptAt\<close> returns that job; on an unknown ID, or with a cancelled context, it reports an
  error and changes nothing.
\<close>

theorem MemoryBackend_Fail_reschedules:
  assumes "mq_inv job_ID m"
  shows "(mq_pending m k = Some j \<longrightarrow> (\<exists>m'. MemoryBackend_Fail None k cause next m = (None, m') \<and> mq_inv job_ID m'
      \<and> mq_pending m' = (mq_pending m)(k \<mapsto> job_retry j cause next)
      \<and> mq_claims m' = (mq_claims m)(k := False) \<and> MemoryBackend_Count None m' = MemoryBackend_Count None m
      \<and> (\<forall>now seed j' m''. now < next \<and> MemoryBackend_Dequeue None now seed m' = (Inr (Some j'), m'') \<longrightarrow> job_ID j' \<noteq> k)))
    \<and> (mq_pending m k = None \<or> ctx \<noteq> None \<longrightarrow> (\<exists>e. MemoryBackend_Fail ctx k cause next m = (Some e, m)))"
  using mb.mem_Fail_spec[OF assms, of k j cause "next"]
  by (auto simp: MemoryBackend_defs MemoryBackend_Count_def mem_Fail_def mq_view)

theorem MemoryBackend_Fail_reschedules_witness:
  "mq_inv job_ID demo_two \<and> (\<exists>m'. MemoryBackend_Fail None ''a'' None 20 demo_two = (None, m')
      \<and> mq_pending m' ''a'' = Some (demo_job ''a'' 20 \<lparr>job_Attempts := 1\<rparr>))"
proof -
  have i: "mq_inv job_ID demo_two" by (auto simp: mq_inv_def demo_two_def demo_job_def gomap_bool_def split: if_splits)
  have "mq_pending demo_two ''a'' = Some (demo_job ''a'' 5)" by (simp add: demo_two_def mq_view)
  with MemoryBackend_Fail_reschedules[OF i, of "''a''" "demo_job ''a'' 5" None 20 None] i show ?thesis
    by (auto simp: job_retry_def demo_job_def)
qed

end
