(* ===== verification/Webhook_Queue.thy ===== *)
theory Webhook_Queue
  imports Claim_Queue
begin

section \<open>Webhook delivery queue: internal/webhook/delivery.go, memory_queue.go\<close>

text \<open>
  \<open>webhook.DeliveryJob\<close> and \<open>webhook.MemoryEventQueue\<close>: the in-memory claim queue at the type of
  webhook deliveries, with the contract of \<open>Claim_Queue\<close> interpreted on it.
\<close>

record delivery_job =
  dj_ID :: string
  dj_Vhost :: string
  dj_SubscriptionID :: string
  dj_URL :: string
  dj_Secret :: string
  dj_EventID :: string
  dj_EventType :: string
  dj_Payload :: bytes
  dj_Attempts :: int
  dj_NextAttemptAt :: time
  dj_LastError :: string
  dj_CorrelationID :: string

type_synonym memory_event_queue = "delivery_job memory_queue"

definition NewMemoryEventQueue :: memory_event_queue where
  "NewMemoryEventQueue = mem_new"

definition MemoryEventQueue_Enqueue ::
  "gerr option \<Rightarrow> delivery_job \<Rightarrow> memory_event_queue \<Rightarrow> gerr option \<times> memory_event_queue" where
  "MemoryEventQueue_Enqueue = mem_Enqueue dj_ID ''webhook: delivery job ID is required''"

definition MemoryEventQueue_Dequeue ::
  "gerr option \<Rightarrow> time \<Rightarrow> nat \<Rightarrow> memory_event_queue \<Rightarrow> (gerr + delivery_job option) \<times> memory_event_queue" where
  "MemoryEventQueue_Dequeue = mem_Dequeue dj_ID dj_NextAttemptAt"

definition MemoryEventQueue_Complete ::
  "gerr option \<Rightarrow> string \<Rightarrow> memory_event_queue \<Rightarrow> gerr option \<times> memory_event_queue" where
  "MemoryEventQueue_Complete = mem_Complete ''webhook: delivery job''"

definition MemoryEventQueue_Empty :: "memory_event_queue \<Rightarrow> bool" where
  "MemoryEventQueue_Empty m \<longleftrightarrow> length (mq_jobs m) = 0"

definition dj_retry :: "delivery_job \<Rightarrow> string option \<Rightarrow> time \<Rightarrow> delivery_job" where
  "dj_retry job cause next =
     (let job = job\<lparr>dj_Attempts := dj_Attempts job + 1, dj_NextAttemptAt := next\<rparr>
      in case cause of None \<Rightarrow> job | Some e \<Rightarrow> job\<lparr>dj_LastError := e\<rparr>)"

definition MemoryEventQueue_Fail ::
  "gerr option \<Rightarrow> string \<Rightarrow> string option \<Rightarrow> time \<Rightarrow> memory_event_queue \<Rightarrow> gerr option \<times> memory_event_queue" where
  "MemoryEventQueue_Fail = mem_Fail dj_retry ''webhook: delivery job''"

definition MemoryEventQueue_ops :: "(delivery_job, memory_event_queue) queue_ops" where
  "MemoryEventQueue_ops = \<lparr>q_Enqueue = MemoryEventQueue_Enqueue, q_Dequeue = MemoryEventQueue_Dequeue,
     q_Complete = MemoryEventQueue_Complete, q_Fail = MemoryEventQueue_Fail\<rparr>"

lemmas MemoryEventQueue_defs = MemoryEventQueue_Enqueue_def MemoryEventQueue_Dequeue_def
  MemoryEventQueue_Complete_def MemoryEventQueue_Fail_def NewMemoryEventQueue_def

lemma dj_retry_simps [simp]:
  "dj_ID (dj_retry j c t) = dj_ID j"
  "dj_NextAttemptAt (dj_retry j c t) = t"
  "dj_Attempts (dj_retry j c t) = dj_Attempts j + 1"
  "dj_SubscriptionID (dj_retry j c t) = dj_SubscriptionID j"
  "dj_Payload (dj_retry j c t) = dj_Payload j"
  by (simp_all add: dj_retry_def Let_def split: option.splits)

lemma MemoryEventQueue_ops_mem:
  "MemoryEventQueue_ops = mem_ops dj_ID dj_NextAttemptAt dj_retry
     ''webhook: delivery job ID is required'' ''webhook: delivery job''"
  by (simp add: MemoryEventQueue_ops_def mem_ops_def MemoryEventQueue_defs)

interpretation meq: keyed_jobs dj_ID dj_NextAttemptAt dj_retry
  "''webhook: delivery job ID is required''" "''webhook: delivery job''"
  by unfold_locales simp_all

interpretation meq: claim_queue MemoryEventQueue_ops NewMemoryEventQueue dj_ID dj_NextAttemptAt dj_retry
  mq_pending mq_claims "mq_inv dj_ID"
  unfolding MemoryEventQueue_ops_mem NewMemoryEventQueue_def by (rule meq.cq.claim_queue_axioms)

end
