(* ===== verification/Paging.thy ===== *)
theory Paging
  imports Env_Prelude
begin

section \<open>Cursor pagination\<close>

text \<open>
  Every listing of Envelope is paged the same way: the caller passes the key of the last row it
  has seen, and an empty cursor asks for the first page. The locale \<open>pager\<close> is that contract,
  and \<open>walk_pages\<close> the client of it: it asks for the next page while the last one was full, as
  the API's \<open>nextCursor\<close> and the retention sweep do. Inside the locale the walk is shown to
  return the whole listing, once, in order. \<open>page_after\<close> and \<open>page_from\<close> are the two ways the
  in-memory stores slice a listing.
\<close>

fun walk_pages :: "(string \<Rightarrow> 'a list) \<Rightarrow> ('a \<Rightarrow> string) \<Rightarrow> nat \<Rightarrow> nat \<Rightarrow> string \<Rightarrow> 'a list" where
  "walk_pages page key lim 0 cursor = []"
| "walk_pages page key lim (Suc n) cursor =
     (let p = page cursor
      in if length p < lim then p else p @ walk_pages page key lim n (key (last p)))"

text \<open>The slice \<open>all[start:end]\<close> with \<open>end := min(start + n, len(all))\<close>.\<close>

definition slice_from :: "nat \<Rightarrow> nat \<Rightarrow> 'a list \<Rightarrow> 'a list" where
  "slice_from start n all =
     (let stop = (if start + n > length all then length all else start + n)
      in take (stop - start) (drop start all))"

text \<open>The first row with a greater key, and the row after the one with that key.\<close>

definition page_after :: "('a \<Rightarrow> string) \<Rightarrow> string \<Rightarrow> nat \<Rightarrow> 'a list \<Rightarrow> 'a list" where
  "page_after key cursor n all =
     (let start = (if cursor = [] then 0 else length (takeWhile (\<lambda>x. \<not> key x > cursor) all))
      in slice_from start n all)"

definition page_from :: "('a \<Rightarrow> string) \<Rightarrow> string \<Rightarrow> nat \<Rightarrow> 'a list \<Rightarrow> 'a list" where
  "page_from key cursor n all =
     (let i = length (takeWhile (\<lambda>x. key x \<noteq> cursor) all);
          start = (if cursor = [] then 0 else if i < length all then i + 1 else length all)
      in slice_from start n all)"

locale pager =
  fixes ok :: "'i \<Rightarrow> bool"
    and full :: "'i \<Rightarrow> 'a list"
    and page :: "'i \<Rightarrow> nat \<Rightarrow> string \<Rightarrow> 'a list"
    and key :: "'a \<Rightarrow> string"
  assumes first_page: "ok i \<Longrightarrow> page i n [] = take n (full i)"
    and next_page: "ok i \<Longrightarrow> m < length (full i) \<Longrightarrow>
      page i n (key (full i ! m)) = take n (drop (Suc m) (full i))"
begin

lemma walk_rest:
  assumes "ok i" "0 < n" "0 < m" "m \<le> length (full i)" "length (full i) - m < fuel * n"
  shows "walk_pages (page i n) key n fuel (key (full i ! (m - 1))) = drop m (full i)"
  using assms(3-5)
proof (induction fuel arbitrary: m)
  case (Suc fuel)
  have p: "page i n (key (full i ! (m - 1))) = take n (drop m (full i))"
    using next_page[OF assms(1), of "m - 1" n] Suc.prems by simp
  show ?case
  proof (cases "length (full i) - m < n")
    case True
    then show ?thesis using p by (simp add: Let_def)
  next
    case False
    let ?p = "take n (drop m (full i))"
    have "?p \<noteq> []" using False assms(2) by auto
    then have "last ?p = full i ! (m + n - 1)"
      using False assms(2) by (simp add: last_conv_nth)
    moreover have "walk_pages (page i n) key n fuel (key (full i ! (m + n - 1))) = drop (m + n) (full i)"
      using Suc.IH[of "m + n"] Suc.prems False assms(2) by simp
    ultimately show ?thesis
      using False p by (simp add: Let_def) (metis add.commute append_take_drop_id drop_drop)
  qed
qed simp

lemma walk_all:
  assumes "ok i" "0 < n" "length (full i) < fuel * n"
  shows "walk_pages (page i n) key n fuel [] = full i"
proof (cases fuel)
  case (Suc f)
  show ?thesis
  proof (cases "length (full i) < n")
    case True
    then show ?thesis by (simp add: Suc first_page[OF assms(1)] Let_def)
  next
    case False
    let ?p = "take n (full i)"
    have "?p \<noteq> []" using False assms(2) by auto
    then have "last ?p = full i ! (n - 1)" using False assms(2) by (simp add: last_conv_nth)
    moreover have "walk_pages (page i n) key n f (key (full i ! (n - 1))) = drop n (full i)"
      using walk_rest[OF assms(1,2), of n f] assms(2,3) False Suc by simp
    ultimately show ?thesis using False by (simp add: Suc first_page[OF assms(1)] Let_def)
  qed
qed (use assms in simp)

lemma full_walk:
  assumes "ok i" "0 < n" "length (full i) < fuel"
  shows "walk_pages (page i n) key n fuel [] = full i"
proof (rule walk_all[OF assms(1,2)])
  have "fuel * 1 \<le> fuel * n" using assms(2) by (intro mult_le_mono2) simp
  then show "length (full i) < fuel * n" using assms(3) by linarith
qed

end

lemma slice_from_take: "slice_from m n xs = take n (drop m xs)"
  by (cases "m + n > length xs") (auto simp: slice_from_def Let_def)

lemma takeWhile_le_sorted:
  fixes key :: "'a \<Rightarrow> 'b::linorder"
  assumes "sorted_wrt (<) (map key xs)" "m < length xs"
  shows "length (takeWhile (\<lambda>x. \<not> key x > key (xs ! m)) xs) = Suc m"
proof -
  have le: "key (xs ! j) \<le> key (xs ! m)" if "j \<le> m" for j
    using assms that by (cases "j = m") (auto simp: sorted_wrt_iff_nth_less le_less)
  have gt: "key (xs ! j) > key (xs ! m)" if "m < j" "j < length xs" for j
    using assms that by (auto simp: sorted_wrt_iff_nth_less)
  have "takeWhile (\<lambda>x. \<not> key x > key (xs ! m)) xs = take (Suc m) xs"
  proof (rule takeWhile_eq_take_P_nth)
    show "\<not> key (xs ! j) > key (xs ! m)" if "j < Suc m" "j < length xs" for j
      using le[of j] that by (simp add: not_less)
    show "\<not> \<not> key (xs ! Suc m) > key (xs ! m)" if "Suc m < length xs"
      using gt[of "Suc m"] that by simp
  qed
  then show ?thesis using assms(2) by simp
qed

lemma page_after_first: "page_after key [] n xs = take n xs"
  by (simp add: page_after_def slice_from_take)

lemma page_after_next:
  assumes "sorted_wrt (<) (map key xs)" "m < length xs" "key (xs ! m) \<noteq> []"
  shows "page_after key (key (xs ! m)) n xs = take n (drop (Suc m) xs)"
  using takeWhile_le_sorted[OF assms(1,2)] assms(3)
  by (simp add: page_after_def slice_from_take Let_def)

lemma page_from_first: "page_from key [] n xs = take n xs"
  by (simp add: page_from_def slice_from_take Let_def)

lemma page_from_next:
  assumes "distinct (map key xs)" "m < length xs" "key (xs ! m) \<noteq> []"
  shows "page_from key (key (xs ! m)) n xs = take n (drop (Suc m) xs)"
proof -
  have "takeWhile (\<lambda>x. key x \<noteq> key (xs ! m)) xs = take m xs"
  proof (rule takeWhile_eq_take_P_nth)
    show "key (xs ! j) \<noteq> key (xs ! m)" if "j < m" "j < length xs" for j
      using assms(1,2) that by (auto simp: distinct_conv_nth)
  qed simp
  then show ?thesis using assms(2,3) by (simp add: page_from_def slice_from_take Let_def)
qed


text \<open>A listing that filters and sorts by a key that is unique among the rows.\<close>

lemma distinct_map_sort_filter:
  "distinct (map f xs) \<Longrightarrow> distinct (map f (sort_key g (filter P xs)))"
  by (auto simp: distinct_map intro: inj_on_subset)

lemma strict_sort_filter:
  fixes f :: "'a \<Rightarrow> 'b::linorder"
  assumes "distinct (map f xs)"
  shows "sorted_wrt (<) (map f (sort_key f (filter P xs)))"
  using distinct_map_sort_filter[OF assms, of f P] by (simp add: strict_sorted_iff)

lemma sort_filter_range:
  assumes "inj_on f (set xs)"
  shows "sort_key f (filter P (map_range n xs)) = sort_key f (filter P xs)"
proof (rule sort_key_inj_key_eq)
  show "mset (filter P (map_range n xs)) = mset (sort_key f (filter P xs))" by (simp add: mset_filter)
  show "inj_on f (set (filter P (map_range n xs)))" using assms by (rule inj_on_subset) auto
qed simp

end
