(* ===== verification/Webhook.thy ===== *)
theory Webhook
  imports Webhook_Queue Paging Backoff
begin

section \<open>Webhooks: internal/webhook\<close>

text \<open>
  Subscriptions, delivery attempts and the dispatcher. \<open>webhook_store\<close> is the \<open>Store\<close> interface
  as a record of operations, \<open>MemoryStore\<close> its in-memory implementation; the dispatcher is
  written over any store and any claim queue. The HTTP client, HMAC-SHA256 and
  \<open>encoding/json\<close> are arguments. \<open>uuid\<close> is the sequence of the UUIDs the process draws.
\<close>

subsection \<open>Events and signatures\<close>

definition EventMessageReceived :: string where "EventMessageReceived = ''message.received''"
definition EventMessageQueued :: string where "EventMessageQueued = ''message.queued''"
definition EventMessageDelivered :: string where "EventMessageDelivered = ''message.delivered''"
definition EventMessageBounced :: string where "EventMessageBounced = ''message.bounced''"
definition EventMessageDeferred :: string where "EventMessageDeferred = ''message.deferred''"
definition EventMessageComplained :: string where "EventMessageComplained = ''message.complained''"

record webhook_envelope =
  we_ID :: string
  we_Type :: string
  we_Vhost :: string
  we_CreatedAt :: time
  we_Data :: bytes

definition NewEventPayload :: "('d \<Rightarrow> gerr + bytes) \<Rightarrow> (webhook_envelope \<Rightarrow> gerr + bytes) \<Rightarrow> time
    \<Rightarrow> string \<Rightarrow> string \<Rightarrow> string \<Rightarrow> 'd \<Rightarrow> gerr + bytes" where
  "NewEventPayload marshal_data marshal_env now eventID eventType vhost data =
     (case marshal_data data of
        Inl e \<Rightarrow> Inl (ErrWrap ''webhook: marshal event data'' e)
      | Inr raw \<Rightarrow>
          (case marshal_env \<lparr>we_ID = eventID, we_Type = eventType, we_Vhost = vhost,
                             we_CreatedAt = now, we_Data = raw\<rparr> of
             Inl e \<Rightarrow> Inl (ErrWrap ''webhook: marshal event envelope'' e)
           | Inr body \<Rightarrow> Inr body))"

definition hex_encode :: "bytes \<Rightarrow> string" where
  "hex_encode bs = concat (map (\<lambda>c. let n = of_char c :: nat in [hex_digit (n div 16), hex_digit (n mod 16)]) bs)"

definition Sign :: "(string \<Rightarrow> bytes \<Rightarrow> bytes) \<Rightarrow> string \<Rightarrow> bytes \<Rightarrow> string" where
  "Sign hmac secret body = ''sha256='' @ hex_encode (hmac secret body)"

definition Verify :: "(string \<Rightarrow> bytes \<Rightarrow> bytes) \<Rightarrow> string \<Rightarrow> bytes \<Rightarrow> string \<Rightarrow> bool" where
  "Verify hmac secret body sig = (Sign hmac secret body = sig)"

subsection \<open>The store\<close>

record subscription =
  sub_ID :: string
  sub_Vhost :: string
  sub_URL :: string
  sub_Secret :: string
  sub_EventTypes :: "string list"
  sub_Disabled :: bool

record delivery_attempt =
  da_ID :: string
  da_Vhost :: string
  da_SubscriptionID :: string
  da_EventID :: string
  da_Attempt :: int
  da_StatusCode :: int
  da_Error :: string
  da_AttemptedAt :: time
  da_Payload :: bytes
  da_EventType :: string

definition webhook_ErrNotFound :: gerr where
  "webhook_ErrNotFound = ErrSentinel ''webhook: not found''"

record 's webhook_store =
  w_CreateSubscription :: "gerr option \<Rightarrow> subscription \<Rightarrow> 's \<Rightarrow> gerr option \<times> 's"
  w_ListSubscriptions :: "gerr option \<Rightarrow> nat \<Rightarrow> string \<Rightarrow> 's \<Rightarrow> gerr + subscription list"
  w_ListSubscriptionsPage :: "gerr option \<Rightarrow> nat \<Rightarrow> string \<Rightarrow> string \<Rightarrow> int \<Rightarrow> 's \<Rightarrow> gerr + subscription list"
  w_DisableSubscription :: "gerr option \<Rightarrow> string \<Rightarrow> string \<Rightarrow> 's \<Rightarrow> gerr option \<times> 's"
  w_RecordAttempt :: "gerr option \<Rightarrow> string \<Rightarrow> delivery_attempt \<Rightarrow> 's \<Rightarrow> gerr option \<times> 's"
  w_ListAttempts :: "gerr option \<Rightarrow> string \<Rightarrow> string \<Rightarrow> 's \<Rightarrow> gerr + delivery_attempt list"
  w_ListAttemptsPage :: "gerr option \<Rightarrow> string \<Rightarrow> string \<Rightarrow> string \<Rightarrow> int \<Rightarrow> 's \<Rightarrow> gerr + delivery_attempt list"

record memory_store =
  ms_subscriptions :: "subscription gomap"
  ms_attempts :: "delivery_attempt list gomap"

definition NewMemoryStore :: memory_store where
  "NewMemoryStore = \<lparr>ms_subscriptions = [], ms_attempts = []\<rparr>"

definition pageLimit :: "int \<Rightarrow> nat" where
  "pageLimit limit = (if limit \<le> 0 then 100 else if limit > 500 then 500 else nat limit)"

definition MemoryStore_CreateSubscription ::
  "gerr option \<Rightarrow> subscription \<Rightarrow> memory_store \<Rightarrow> gerr option \<times> memory_store" where
  "MemoryStore_CreateSubscription ctx sub m =
     (if ctx \<noteq> None then (ctx, m)
      else if sub_ID sub = [] then (Some (ErrNew ''webhook: subscription ID is required''), m)
      else (None, m\<lparr>ms_subscriptions := AList.update (sub_ID sub) sub (ms_subscriptions m)\<rparr>))"

definition MemoryStore_ListSubscriptions ::
  "gerr option \<Rightarrow> nat \<Rightarrow> string \<Rightarrow> memory_store \<Rightarrow> gerr + subscription list" where
  "MemoryStore_ListSubscriptions ctx seed vhost m =
     (case ctx of Some e \<Rightarrow> Inl e
      | None \<Rightarrow> Inr (sort_key sub_ID
          (filter (\<lambda>sub. sub_Vhost sub = vhost) (map snd (map_range seed (ms_subscriptions m))))))"

definition MemoryStore_ListSubscriptionsPage ::
  "gerr option \<Rightarrow> nat \<Rightarrow> string \<Rightarrow> string \<Rightarrow> int \<Rightarrow> memory_store \<Rightarrow> gerr + subscription list" where
  "MemoryStore_ListSubscriptionsPage ctx seed vhost cursor limit m =
     (case MemoryStore_ListSubscriptions ctx seed vhost m of
        Inl e \<Rightarrow> Inl e
      | Inr all \<Rightarrow> Inr (page_after sub_ID cursor (pageLimit limit) all))"

definition MemoryStore_DisableSubscription ::
  "gerr option \<Rightarrow> string \<Rightarrow> string \<Rightarrow> memory_store \<Rightarrow> gerr option \<times> memory_store" where
  "MemoryStore_DisableSubscription ctx vhost ident m =
     (if ctx \<noteq> None then (ctx, m)
      else case map_of (ms_subscriptions m) ident of
        None \<Rightarrow> (Some (ErrWrap (''webhook: subscription '' @ go_quote ident) webhook_ErrNotFound), m)
      | Some sub \<Rightarrow>
          if sub_Vhost sub \<noteq> vhost
          then (Some (ErrWrap (''webhook: subscription '' @ go_quote ident) webhook_ErrNotFound), m)
          else (None, m\<lparr>ms_subscriptions :=
                  AList.update ident (sub\<lparr>sub_Disabled := True\<rparr>) (ms_subscriptions m)\<rparr>))"

text \<open>\<open>m.attempts[id]\<close>, nil when absent.\<close>

definition attempts_of :: "memory_store \<Rightarrow> string \<Rightarrow> delivery_attempt list" where
  "attempts_of m k = (case map_of (ms_attempts m) k of None \<Rightarrow> [] | Some xs \<Rightarrow> xs)"

definition MemoryStore_RecordAttempt ::
  "gerr option \<Rightarrow> string \<Rightarrow> delivery_attempt \<Rightarrow> memory_store \<Rightarrow> gerr option \<times> memory_store" where
  "MemoryStore_RecordAttempt ctx newID attempt m =
     (if ctx \<noteq> None then (ctx, m)
      else if da_SubscriptionID attempt = []
        then (Some (ErrNew ''webhook: attempt subscription ID is required''), m)
      else
        (let attempt = (case map_of (ms_subscriptions m) (da_SubscriptionID attempt) of
               None \<Rightarrow> attempt | Some sub \<Rightarrow> attempt\<lparr>da_Vhost := sub_Vhost sub\<rparr>);
             attempt = attempt\<lparr>da_ID := newID\<rparr>
         in (None, m\<lparr>ms_attempts := AList.update (da_SubscriptionID attempt)
               (attempts_of m (da_SubscriptionID attempt) @ [attempt]) (ms_attempts m)\<rparr>)))"

definition MemoryStore_ListAttempts ::
  "gerr option \<Rightarrow> string \<Rightarrow> string \<Rightarrow> memory_store \<Rightarrow> gerr + delivery_attempt list" where
  "MemoryStore_ListAttempts ctx vhost subscriptionID m =
     (case ctx of Some e \<Rightarrow> Inl e
      | None \<Rightarrow> (case map_of (ms_subscriptions m) subscriptionID of
          None \<Rightarrow> Inr []
        | Some sub \<Rightarrow> if sub_Vhost sub \<noteq> vhost then Inr [] else Inr (attempts_of m subscriptionID)))"

definition MemoryStore_ListAttemptsPage ::
  "gerr option \<Rightarrow> string \<Rightarrow> string \<Rightarrow> string \<Rightarrow> int \<Rightarrow> memory_store \<Rightarrow> gerr + delivery_attempt list" where
  "MemoryStore_ListAttemptsPage ctx vhost subscriptionID cursor limit m =
     (case MemoryStore_ListAttempts ctx vhost subscriptionID m of
        Inl e \<Rightarrow> Inl e
      | Inr all \<Rightarrow> Inr (page_from da_ID cursor (pageLimit limit) all))"

definition MemoryStore_ops :: "memory_store webhook_store" where
  "MemoryStore_ops = \<lparr>w_CreateSubscription = MemoryStore_CreateSubscription,
     w_ListSubscriptions = MemoryStore_ListSubscriptions,
     w_ListSubscriptionsPage = MemoryStore_ListSubscriptionsPage,
     w_DisableSubscription = MemoryStore_DisableSubscription,
     w_RecordAttempt = MemoryStore_RecordAttempt,
     w_ListAttempts = MemoryStore_ListAttempts,
     w_ListAttemptsPage = MemoryStore_ListAttemptsPage\<rparr>"

text \<open>The comma-joined column of the durable store.\<close>

definition encodeEventTypes :: "string list \<Rightarrow> string" where
  "encodeEventTypes types = go_join '','' types"

definition decodeEventTypes :: "string \<Rightarrow> string list" where
  "decodeEventTypes s = (if s = [] then [] else go_split (CHR '','') s)"

subsection \<open>The dispatcher\<close>

definition DefaultBackoffBase :: duration where "DefaultBackoffBase = 30 * 10 ^ 9"
definition DefaultBackoffMax :: duration where "DefaultBackoffMax = 30 * 60 * 10 ^ 9"
definition DefaultMaxAttempts :: int where "DefaultMaxAttempts = 8"

record dispatcher =
  d_BackoffBase :: duration
  d_BackoffMax :: duration
  d_MaxAttempts :: int
  d_PollInterval :: duration

definition NewDispatcher :: dispatcher where
  "NewDispatcher = \<lparr>d_BackoffBase = DefaultBackoffBase, d_BackoffMax = DefaultBackoffMax,
     d_MaxAttempts = DefaultMaxAttempts, d_PollInterval = 10 ^ 9\<rparr>"

definition matchesEventType :: "subscription \<Rightarrow> string \<Rightarrow> bool" where
  "matchesEventType sub eventType =
     (if length (sub_EventTypes sub) = 0 then True else eventType \<in> set (sub_EventTypes sub))"

definition event_job :: "string \<Rightarrow> subscription \<Rightarrow> string \<Rightarrow> string \<Rightarrow> string \<Rightarrow> bytes \<Rightarrow> time \<Rightarrow> string
    \<Rightarrow> delivery_job" where
  "event_job newID sub vhost eventID eventType payload now correlationID =
     \<lparr>dj_ID = newID, dj_Vhost = vhost, dj_SubscriptionID = sub_ID sub, dj_URL = sub_URL sub,
      dj_Secret = sub_Secret sub, dj_EventID = eventID, dj_EventType = eventType,
      dj_Payload = payload, dj_Attempts = 0, dj_NextAttemptAt = now, dj_LastError = [],
      dj_CorrelationID = correlationID\<rparr>"

text \<open>The loop of \<open>Enqueue\<close>; \<open>n\<close> counts the UUIDs drawn.\<close>

fun enqueue_subs :: "(delivery_job, 'q) queue_ops \<Rightarrow> (nat \<Rightarrow> string) \<Rightarrow> gerr option
    \<Rightarrow> (string \<Rightarrow> subscription \<Rightarrow> delivery_job) \<Rightarrow> string \<Rightarrow> subscription list \<Rightarrow> 'q \<times> nat
    \<Rightarrow> gerr option \<times> 'q \<times> nat" where
  "enqueue_subs ops uuid ctx mk eventType [] (q, n) = (None, q, n)"
| "enqueue_subs ops uuid ctx mk eventType (sub # subs) (q, n) =
     (if sub_Disabled sub \<or> \<not> matchesEventType sub eventType
      then enqueue_subs ops uuid ctx mk eventType subs (q, n)
      else (case q_Enqueue ops ctx (mk (uuid n) sub) q of
          (Some e, q') \<Rightarrow>
            (Some (ErrWrap (''webhook: enqueue '' @ eventType @ '' for subscription ''
               @ go_quote (sub_ID sub)) e), q', Suc n)
        | (None, q') \<Rightarrow> enqueue_subs ops uuid ctx mk eventType subs (q', Suc n)))"

definition Dispatcher_Enqueue :: "'s webhook_store \<Rightarrow> (delivery_job, 'q) queue_ops \<Rightarrow> (nat \<Rightarrow> string)
    \<Rightarrow> gerr option \<Rightarrow> string \<Rightarrow> time \<Rightarrow> nat \<Rightarrow> string \<Rightarrow> string \<Rightarrow> bytes \<Rightarrow> 's \<Rightarrow> 'q \<times> nat
    \<Rightarrow> gerr option \<times> 'q \<times> nat" where
  "Dispatcher_Enqueue store ops uuid ctx correlationID now seed vhost eventType payload st qn =
     (case qn of (q, n) \<Rightarrow>
      (case w_ListSubscriptions store ctx seed vhost st of
         Inl e \<Rightarrow> (Some (ErrWrap (''webhook: enqueue '' @ eventType @ '' for vhost '' @ go_quote vhost) e), q, n)
       | Inr subs \<Rightarrow>
           enqueue_subs ops uuid ctx
             (\<lambda>newID sub. event_job newID sub vhost (uuid n) eventType payload now correlationID)
             eventType subs (q, Suc n)))"

definition Dispatcher_Redrive :: "'s webhook_store \<Rightarrow> (delivery_job, 'q) queue_ops \<Rightarrow> (nat \<Rightarrow> string)
    \<Rightarrow> gerr option \<Rightarrow> string \<Rightarrow> time \<Rightarrow> nat \<Rightarrow> string \<Rightarrow> string \<Rightarrow> string \<Rightarrow> 's \<Rightarrow> 'q \<times> nat
    \<Rightarrow> gerr option \<times> 'q \<times> nat" where
  "Dispatcher_Redrive store ops uuid ctx correlationID now seed vhost subscriptionID eventID st qn =
     (case qn of (q, n) \<Rightarrow>
      (case w_ListSubscriptions store ctx seed vhost st of
         Inl e \<Rightarrow> (Some (ErrWrap ''webhook: redrive: list subscriptions'' e), q, n)
       | Inr subs \<Rightarrow>
      (case find (\<lambda>s. sub_ID s = subscriptionID) subs of
         None \<Rightarrow> (Some (ErrWrap (''webhook: redrive: subscription '' @ go_quote subscriptionID)
                    webhook_ErrNotFound), q, n)
       | Some sub \<Rightarrow>
      if sub_Disabled sub
      then (Some (ErrNew (''webhook: redrive: subscription '' @ go_quote subscriptionID @ '' is disabled'')), q, n)
      else
      (case w_ListAttempts store ctx vhost subscriptionID st of
         Inl e \<Rightarrow> (Some (ErrWrap ''webhook: redrive: list attempts'' e), q, n)
       | Inr attempts \<Rightarrow>
      (case find (\<lambda>a. da_EventID a = eventID) (rev attempts) of
         None \<Rightarrow> (Some (ErrWrap (''webhook: redrive: event '' @ go_quote eventID
                    @ '' was never attempted against subscription '' @ go_quote subscriptionID)
                    webhook_ErrNotFound), q, n)
       | Some l \<Rightarrow>
      (case q_Enqueue ops ctx (event_job (uuid n) sub vhost eventID (da_EventType l) (da_Payload l)
              now correlationID) q of
         (Some e, q') \<Rightarrow> (Some (ErrWrap ''webhook: redrive: enqueue'' e), q', Suc n)
       | (None, q') \<Rightarrow> (None, q', Suc n)))))))"

record http_request =
  hr_URL :: string
  hr_Body :: bytes
  hr_Header :: "(string \<times> string) list"

text \<open>
  \<open>send\<close>: \<open>new_request url\<close> is the error of \<open>http.NewRequestWithContext\<close>, if any, and
  \<open>client_do\<close> the outcome of \<open>Client.Do\<close>, an error or a status code.
\<close>

definition Dispatcher_send :: "(string \<Rightarrow> bytes \<Rightarrow> bytes) \<Rightarrow> (string \<Rightarrow> gerr option)
    \<Rightarrow> (http_request \<Rightarrow> gerr + int) \<Rightarrow> delivery_job \<Rightarrow> int \<times> gerr option" where
  "Dispatcher_send hmac new_request client_do job =
     (case new_request (dj_URL job) of
        Some e \<Rightarrow> (0, Some (ErrWrap ''webhook: build request'' e))
      | None \<Rightarrow>
          (case client_do \<lparr>hr_URL = dj_URL job, hr_Body = dj_Payload job,
                hr_Header = [(''Content-Type'', ''application/json''),
                  (''X-Envelope-Signature'', Sign hmac (dj_Secret job) (dj_Payload job)),
                  (''X-Envelope-Event'', dj_EventType job)]\<rparr> of
             Inl e \<Rightarrow> (0, Some (ErrWrap ''webhook: request failed'' e))
           | Inr status \<Rightarrow>
               if status < 200 \<or> status \<ge> 300
               then (status, Some (ErrNew (''webhook: endpoint returned status '' @ itoa status)))
               else (status, None)))"

definition Dispatcher_nextBackoff :: "dispatcher \<Rightarrow> (int \<Rightarrow> int) \<Rightarrow> int \<Rightarrow> duration option" where
  "Dispatcher_nextBackoff d r attempt = FullJitter attempt (d_BackoffBase d) (d_BackoffMax d) r"

text \<open>
  \<open>deliverOne\<close>, given what \<open>send\<close> returned: the store, the queue and the counter
  \<open>WebhookDeliveryFailuresTotal\<close> after it. \<open>None\<close> is a panic of the backoff.
\<close>

definition deliverOne :: "'s webhook_store \<Rightarrow> (delivery_job, 'q) queue_ops \<Rightarrow> gosmtp_lib \<Rightarrow> dispatcher
    \<Rightarrow> (int \<Rightarrow> int) \<Rightarrow> gerr option \<Rightarrow> string \<Rightarrow> time \<Rightarrow> time \<Rightarrow> int \<times> gerr option \<Rightarrow> delivery_job
    \<Rightarrow> 's \<times> 'q \<times> nat \<Rightarrow> ('s \<times> 'q \<times> nat) option" where
  "deliverOne store ops lib d r ctx newID now1 now2 sent job state =
     (case state of (st, q, failures) \<Rightarrow>
      (case sent of (statusCode, sendErr) \<Rightarrow>
       let attempt = \<lparr>da_ID = [], da_Vhost = dj_Vhost job, da_SubscriptionID = dj_SubscriptionID job,
             da_EventID = dj_EventID job, da_Attempt = dj_Attempts job + 1, da_StatusCode = statusCode,
             da_Error = (case sendErr of None \<Rightarrow> [] | Some e \<Rightarrow> err_text lib e),
             da_AttemptedAt = now1, da_Payload = dj_Payload job, da_EventType = dj_EventType job\<rparr>;
           failures' = (if sendErr = None then failures else Suc failures);
           st' = snd (w_RecordAttempt store ctx newID attempt st)
       in case sendErr of
            None \<Rightarrow> Some (st', snd (q_Complete ops ctx (dj_ID job) q), failures')
          | Some e \<Rightarrow>
              if dj_Attempts job + 1 \<ge> d_MaxAttempts d
              then Some (st', snd (q_Complete ops ctx (dj_ID job) q), failures')
              else (case Dispatcher_nextBackoff d r (dj_Attempts job) of
                  None \<Rightarrow> None
                | Some delay \<Rightarrow>
                    Some (st', snd (q_Fail ops ctx (dj_ID job) (Some (err_text lib e)) (now2 + delay) q),
                          failures'))))"

text \<open>
  One turn of the loop of \<open>Run\<close>: \<open>done1\<close> is the poll of \<open>ctx.Done()\<close> before the dequeue,
  \<open>done2\<close> the one after it, \<open>ctx\<close> what the queue sees.
\<close>

datatype 'j run_action = RunReturn | RunSleep | RunSpawn 'j

definition Dispatcher_poll :: "(delivery_job, 'q) queue_ops \<Rightarrow> bool \<Rightarrow> bool \<Rightarrow> gerr option \<Rightarrow> time \<Rightarrow> nat
    \<Rightarrow> 'q \<Rightarrow> delivery_job run_action \<times> 'q" where
  "Dispatcher_poll ops done1 done2 ctx now seed q =
     (if done1 then (RunReturn, q)
      else case q_Dequeue ops ctx now seed q of
        (Inl e, q') \<Rightarrow> (if done2 then RunReturn else RunSleep, q')
      | (Inr None, q') \<Rightarrow> (if done2 then RunReturn else RunSleep, q')
      | (Inr (Some job), q') \<Rightarrow> (RunSpawn job, q'))"

text \<open>
  The running dispatcher: events are enqueued under fresh UUIDs, the loop spawns a goroutine per
  dequeued job, and each goroutine runs \<open>deliverOne\<close> on its job with whatever \<open>send\<close> returned.
\<close>

inductive dispatch_step :: "'s webhook_store \<Rightarrow> (delivery_job, 'q) queue_ops \<Rightarrow> gosmtp_lib \<Rightarrow> dispatcher
    \<Rightarrow> ('q \<Rightarrow> string \<Rightarrow> delivery_job option)
    \<Rightarrow> ('s \<times> 'q \<times> nat) \<times> (nat \<Rightarrow> delivery_job option) \<Rightarrow> ('s \<times> 'q \<times> nat) \<times> (nat \<Rightarrow> delivery_job option) \<Rightarrow> bool"
  for store ops lib d pending where
  dispatch_event: "pending q newID = None \<Longrightarrow>
    q_Enqueue ops ctx (event_job newID sub vhost eventID eventType payload now corr) q = (e, q') \<Longrightarrow>
    dispatch_step store ops lib d pending ((st, q, f), held) ((st, q', f), held)"
| dispatch_spawn: "held g = None \<Longrightarrow> Dispatcher_poll ops False dn ctx now seed q = (RunSpawn j, q') \<Longrightarrow>
    dispatch_step store ops lib d pending ((st, q, f), held) ((st, q', f), held(g := Some j))"
| dispatch_deliver: "held g = Some j \<Longrightarrow>
    deliverOne store ops lib d r ctx newID now1 now2 sent j (st, q, f) = Some (st', q', f') \<Longrightarrow>
    dispatch_step store ops lib d pending ((st, q, f), held) ((st', q', f'), held(g := None))"

inductive dispatch_reachable :: "'s webhook_store \<Rightarrow> (delivery_job, 'q) queue_ops \<Rightarrow> gosmtp_lib \<Rightarrow> dispatcher
    \<Rightarrow> ('q \<Rightarrow> string \<Rightarrow> delivery_job option) \<Rightarrow> 's \<Rightarrow> 'q
    \<Rightarrow> ('s \<times> 'q \<times> nat) \<times> (nat \<Rightarrow> delivery_job option) \<Rightarrow> bool"
  for store ops lib d pending st0 q0 where
  dispatch_init: "dispatch_reachable store ops lib d pending st0 q0 ((st0, q0, 0), \<lambda>_. None)"
| dispatch_next: "dispatch_reachable store ops lib d pending st0 q0 c \<Longrightarrow>
    dispatch_step store ops lib d pending c c' \<Longrightarrow> dispatch_reachable store ops lib d pending st0 q0 c'"

subsection \<open>The dispatcher as a client of a claim queue\<close>

definition event_wanted :: "string \<Rightarrow> subscription \<Rightarrow> bool" where
  "event_wanted eventType sub \<longleftrightarrow> \<not> sub_Disabled sub \<and> matchesEventType sub eventType"

lemma enqueue_subs_skip:
  "\<not> event_wanted eventType s \<Longrightarrow>
   enqueue_subs ops uuid ctx mk eventType (s # subs) (q, n) = enqueue_subs ops uuid ctx mk eventType subs (q, n)"
  by (simp add: event_wanted_def)

lemma enqueue_subs_take:
  "event_wanted eventType s \<Longrightarrow> q_Enqueue ops ctx (mk (uuid n) s) q = (None, q') \<Longrightarrow>
   enqueue_subs ops uuid ctx mk eventType (s # subs) (q, n) = enqueue_subs ops uuid ctx mk eventType subs (q', Suc n)"
  by (simp add: event_wanted_def)

declare enqueue_subs.simps(2) [simp del]

lemma deliverOne_cases:
  assumes "deliverOne store ops lib d r ctx newID now1 now2 sent j (st, q, f) = Some (st', q', f')"
  shows "(snd sent = None \<or> dj_Attempts j + 1 \<ge> d_MaxAttempts d) \<and> q' = snd (q_Complete ops ctx (dj_ID j) q)
    \<or> dj_Attempts j + 1 < d_MaxAttempts d \<and> (\<exists>e delay. snd sent = Some e
        \<and> Dispatcher_nextBackoff d r (dj_Attempts j) = Some delay
        \<and> q' = snd (q_Fail ops ctx (dj_ID j) (Some (err_text lib e)) (now2 + delay) q))"
  using assms by (auto simp: deliverOne_def Let_def split: prod.splits option.splits if_splits)

locale event_queue = claim_queue ops init dj_ID dj_NextAttemptAt dj_retry pending claims inv
  for ops :: "(delivery_job, 'q) queue_ops" and init pending claims inv
begin

lemma enqueue_subs_spec:
  assumes "inv q" "inj uuid" "\<And>i. uuid i \<noteq> []" "\<And>u s. dj_ID (mk u s) = u"
  shows "\<exists>q'. enqueue_subs ops uuid None mk eventType subs (q, n)
        = (None, q', n + length (filter (event_wanted eventType) subs))
      \<and> inv q' \<and> claims q' = claims q
      \<and> (\<forall>i < length (filter (event_wanted eventType) subs).
           pending q' (uuid (n + i)) = Some (mk (uuid (n + i)) (filter (event_wanted eventType) subs ! i)))
      \<and> (\<forall>k. (\<forall>i < length (filter (event_wanted eventType) subs). k \<noteq> uuid (n + i)) \<longrightarrow>
           pending q' k = pending q k)"
  using assms(1)
proof (induction subs arbitrary: q n)
  case (Cons s subs)
  show ?case
  proof (cases "event_wanted eventType s")
    case True
    let ?ts = "filter (event_wanted eventType) subs"
    obtain q1 where q1: "q_Enqueue ops None (mk (uuid n) s) q = (None, q1)"
      using enq_accepts[of "mk (uuid n) s" q] assms(3,4) by (metis prod.collapse)
    from enq_ok[OF Cons.prems q1] assms(4)
    have p1: "inv q1" "pending q1 = (pending q)(uuid n \<mapsto> mk (uuid n) s)" "claims q1 = claims q" by auto
    from Cons.IH[OF p1(1), of "Suc n"] obtain q' where q':
      "enqueue_subs ops uuid None mk eventType subs (q1, Suc n) = (None, q', Suc n + length ?ts)"
      "inv q'" "claims q' = claims q1"
      "\<And>i. i < length ?ts \<Longrightarrow> pending q' (uuid (Suc n + i)) = Some (mk (uuid (Suc n + i)) (?ts ! i))"
      "\<And>k. (\<forall>i < length ?ts. k \<noteq> uuid (Suc n + i)) \<Longrightarrow> pending q' k = pending q1 k"
      by auto
    have n: "pending q' (uuid n) = Some (mk (uuid n) s)"
      using q'(5)[of "uuid n"] p1(2) assms(2) by (simp add: inj_eq)
    have "pending q' (uuid (n + i)) = Some (mk (uuid (n + i)) ((s # ?ts) ! i))"
      if "i < Suc (length ?ts)" for i
      using that n q'(4)[of "i - 1"] by (cases i) auto
    moreover have "pending q' k = pending q k" if "\<forall>i < Suc (length ?ts). k \<noteq> uuid (n + i)" for k
    proof -
      have "k \<noteq> uuid n" using that by (metis add_0_right zero_less_Suc)
      moreover have "\<forall>i < length ?ts. k \<noteq> uuid (Suc n + i)" using that by auto
      ultimately show ?thesis using q'(5)[of k] p1(2) by simp
    qed
    ultimately show ?thesis
      using True q'(1-3) p1(3) 
        enqueue_subs_take[of eventType s ops None mk uuid n q q1 subs, OF True q1] by auto
  next
    case False
    then show ?thesis using Cons.IH[OF Cons.prems, of n] by (simp add: enqueue_subs_skip)
  qed
qed simp

lemma dispatch_retry_step:
  assumes "dispatch_step store ops lib d pending ((st, q, f), held) ((st', q', f'), held')"
  shows "retry_step ops dj_ID dj_Attempts (d_MaxAttempts d) pending (q, held) (q', held')"
  using assms
proof (cases rule: dispatch_step.cases)
  case (dispatch_event newID ctx sub vhost eventID eventType payload now corr e)
  then show ?thesis
    by (auto intro!: retry_enqueue[of dj_Attempts "event_job newID sub vhost eventID eventType payload now corr"]
        simp: event_job_def)
next
  case (dispatch_spawn g dn ctx now seed j)
  then show ?thesis
    by (auto intro!: retry_dequeue simp: Dispatcher_poll_def split: prod.splits sum.splits option.splits if_splits)
next
  case (dispatch_deliver g j r ctx newID now1 now2 sent)
  from deliverOne_cases[OF dispatch_deliver(3)] show ?thesis
    using dispatch_deliver(1,2) by (metis prod.collapse retry_complete retry_fail)
qed

lemma dispatch_retry_reachable:
  "dispatch_reachable store ops lib d pending st0 init c \<Longrightarrow>
   retry_reachable ops dj_ID dj_Attempts (d_MaxAttempts d) pending init (fst (snd (fst c)), snd c)"
proof (induction rule: dispatch_reachable.induct)
  case dispatch_init
  show ?case by (simp add: retry_init)
next
  case (dispatch_next c c')
  obtain st q f held st' q' f' held' where "c = ((st, q, f), held)" "c' = ((st', q', f'), held')"
    by (metis prod.collapse)
  with dispatch_next show ?case using retry_next[OF _ dispatch_retry_step] by fastforce
qed

end

interpretation evq: event_queue MemoryEventQueue_ops NewMemoryEventQueue mq_pending mq_claims "mq_inv dj_ID"
  by unfold_locales

subsection \<open>The in-memory store\<close>

definition ms_inv :: "memory_store \<Rightarrow> bool" where
  "ms_inv m \<longleftrightarrow> distinct (map fst (ms_subscriptions m))
     \<and> (\<forall>(k, sub) \<in> set (ms_subscriptions m). sub_ID sub = k \<and> k \<noteq> [])"

definition subs_of :: "memory_store \<Rightarrow> string \<Rightarrow> subscription list" where
  "subs_of m vhost = sort_key sub_ID (filter (\<lambda>sub. sub_Vhost sub = vhost) (map snd (ms_subscriptions m)))"

lemma ms_inv_New [env_inv]: "ms_inv NewMemoryStore"
  by (simp add: ms_inv_def NewMemoryStore_def)

lemma ms_inv_Create [env_inv]: "ms_inv m \<Longrightarrow> ms_inv (snd (MemoryStore_CreateSubscription ctx sub m))"
  by (auto simp: MemoryStore_CreateSubscription_def ms_inv_def set_update_keys)

lemma ms_inv_Record [env_inv]: "ms_inv m \<Longrightarrow> ms_inv (snd (MemoryStore_RecordAttempt ctx u a m))"
  by (auto simp: MemoryStore_RecordAttempt_def ms_inv_def Let_def)

lemma ms_inv_Disable [env_inv]: "ms_inv m \<Longrightarrow> ms_inv (snd (MemoryStore_DisableSubscription ctx v k m))"
  by (auto simp: MemoryStore_DisableSubscription_def ms_inv_def set_update_keys
      dest: map_of_SomeD split: option.splits)

lemma ms_inv_ids: "ms_inv m \<Longrightarrow> map sub_ID (map snd (ms_subscriptions m)) = map fst (ms_subscriptions m)"
  by (auto simp: ms_inv_def)

lemma ms_inv_inj: "ms_inv m \<Longrightarrow> inj_on sub_ID (snd ` set (ms_subscriptions m))"
  using ms_inv_ids[of m] by (metis distinct_map list.set_map ms_inv_def)

lemma ms_inv_lookup:
  assumes "ms_inv m" "(k, s) \<in> set (ms_subscriptions m)"
  shows "map_of (ms_subscriptions m) (sub_ID s) = Some s"
  using assms by (auto simp: ms_inv_def)

text \<open>The listing does not depend on the order the map is ranged over.\<close>

lemma ListSubscriptions_eq:
  assumes "ms_inv m"
  shows "MemoryStore_ListSubscriptions None seed vhost m = Inr (subs_of m vhost)"
proof -
  let ?f = "filter (\<lambda>sub. sub_Vhost sub = vhost)"
  have "mset (?f (map snd (map_range seed (ms_subscriptions m)))) = mset (?f (map snd (ms_subscriptions m)))"
    by (simp add: mset_filter)
  moreover have "inj_on sub_ID (set (?f (map snd (map_range seed (ms_subscriptions m)))))"
    using ms_inv_inj[OF assms] by (rule inj_on_subset) auto
  ultimately have "sort_key sub_ID (?f (map snd (map_range seed (ms_subscriptions m)))) = subs_of m vhost"
    unfolding subs_of_def by (intro sort_key_inj_key_eq) auto
  then show ?thesis by (simp add: MemoryStore_ListSubscriptions_def)
qed

lemma set_subs_of: "set (subs_of m vhost) = {sub \<in> snd ` set (ms_subscriptions m). sub_Vhost sub = vhost}"
  by (auto simp: subs_of_def)

lemma subs_of_strict:
  assumes "ms_inv m"
  shows "sorted_wrt (<) (map sub_ID (subs_of m vhost))" "\<And>s. s \<in> set (subs_of m vhost) \<Longrightarrow> sub_ID s \<noteq> []"
proof -
  have "distinct (map sub_ID (map snd (ms_subscriptions m)))"
    unfolding ms_inv_ids[OF assms] using assms by (simp add: ms_inv_def)
  then show "sorted_wrt (<) (map sub_ID (subs_of m vhost))"
    unfolding subs_of_def by (rule strict_sort_filter)
  show "sub_ID s \<noteq> []" if "s \<in> set (subs_of m vhost)" for s
    using assms that by (auto simp: set_subs_of ms_inv_def)
qed

interpretation subp: pager "\<lambda>(m, vhost). ms_inv m" "\<lambda>(m, vhost). subs_of m vhost"
  "\<lambda>(m, vhost) n cursor. page_after sub_ID cursor n (subs_of m vhost)" sub_ID
proof (unfold_locales, goal_cases)
  case (1 i n)
  then show ?case by (auto simp: page_after_first)
next
  case (2 i k n)
  then show ?case by (auto intro!: page_after_next simp: subs_of_strict dest: subs_of_strict(2)[OF _ nth_mem])
qed

lemma ListSubscriptionsPage_eq:
  "ms_inv m \<Longrightarrow> MemoryStore_ListSubscriptionsPage None seed vhost cursor limit m
     = Inr (page_after sub_ID cursor (pageLimit limit) (subs_of m vhost))"
  by (simp add: MemoryStore_ListSubscriptionsPage_def ListSubscriptions_eq)

lemma pageLimit_pos: "0 < pageLimit limit" "pageLimit limit \<le> 500"
  by (auto simp: pageLimit_def)

text \<open>The attempts of a subscription have distinct IDs when the UUIDs drawn are.\<close>

definition attempts_ok :: "memory_store \<Rightarrow> bool" where
  "attempts_ok m \<longleftrightarrow> (\<forall>k. distinct (map da_ID (attempts_of m k)) \<and> (\<forall>a \<in> set (attempts_of m k). da_ID a \<noteq> []))"

lemma attempts_of_Record:
  assumes "da_SubscriptionID a \<noteq> []"
  shows "attempts_of (snd (MemoryStore_RecordAttempt None u a m)) k =
    (if k = da_SubscriptionID a
     then attempts_of m k @ [(case map_of (ms_subscriptions m) k of
        None \<Rightarrow> a | Some sub \<Rightarrow> a\<lparr>da_Vhost := sub_Vhost sub\<rparr>)\<lparr>da_ID := u\<rparr>]
     else attempts_of m k)"
  using assms by (auto simp: MemoryStore_RecordAttempt_def attempts_of_def Let_def split: option.splits)

lemma attempts_ok_Record:
  assumes "attempts_ok m" "u \<noteq> []" "\<And>k a. a \<in> set (attempts_of m k) \<Longrightarrow> da_ID a \<noteq> u"
  shows "attempts_ok (snd (MemoryStore_RecordAttempt None u a m))"
proof (cases "da_SubscriptionID a = []")
  case False
  then show ?thesis using assms by (auto simp: attempts_ok_def attempts_of_Record split: option.splits)
qed (use assms in \<open>simp add: MemoryStore_RecordAttempt_def\<close>)

interpretation attp: pager "\<lambda>(m, k). attempts_ok m" "\<lambda>(m, k). attempts_of m k"
  "\<lambda>(m, k) n cursor. page_from da_ID cursor n (attempts_of m k)" da_ID
proof (unfold_locales, goal_cases)
  case (1 i n)
  then show ?case by (auto simp: page_from_first)
next
  case (2 i k n)
  then have "da_ID (attempts_of (fst i) (snd i) ! k) \<noteq> []" by (auto simp: attempts_ok_def dest: nth_mem)
  with 2 show ?case by (auto intro!: page_from_next simp: attempts_ok_def)
qed

lemma Verify_Sign: "Verify hmac secret body (Sign hmac secret body)"
  by (simp add: Verify_def)

lemma decode_encode_EventTypes:
  assumes "\<forall>t \<in> set ts. t \<noteq> [] \<and> CHR '','' \<notin> set t"
  shows "decodeEventTypes (encodeEventTypes ts) = ts"
proof (cases ts)
  case (Cons t ts')
  then have "go_join '','' ts \<noteq> []" using assms by (cases ts') auto
  then show ?thesis
    using assms Cons go_split_join[of ts "CHR '',''"]
    by (simp add: decodeEventTypes_def encodeEventTypes_def)
qed (simp add: decodeEventTypes_def encodeEventTypes_def)

subsection \<open>Properties\<close>

text \<open>The subscriptions an event of a vhost goes to.\<close>

definition event_targets :: "memory_store \<Rightarrow> string \<Rightarrow> string \<Rightarrow> subscription list" where
  "event_targets m vhost eventType = filter (event_wanted eventType) (subs_of m vhost)"

definition demo_sub :: "string \<Rightarrow> string \<Rightarrow> string list \<Rightarrow> bool \<Rightarrow> subscription" where
  "demo_sub i v ts dis = \<lparr>sub_ID = i, sub_Vhost = v, sub_URL = ''http://h/'', sub_Secret = ''s'',
     sub_EventTypes = ts, sub_Disabled = dis\<rparr>"

definition demo_store :: memory_store where
  "demo_store = \<lparr>ms_subscriptions = [(''s2'', demo_sub ''s2'' ''a.test'' [] False),
      (''s1'', demo_sub ''s1'' ''a.test'' [''message.received''] False),
      (''s3'', demo_sub ''s3'' ''b.test'' [] False)], ms_attempts = []\<rparr>"

definition demo_uuid :: "nat \<Rightarrow> string" where
  "demo_uuid n = replicate (Suc n) (CHR ''u'')"

lemma demo_uuid_ok: "inj demo_uuid" "demo_uuid i \<noteq> []"
  by (auto simp: demo_uuid_def inj_def)

lemma demo_store_inv: "ms_inv demo_store"
  by (simp add: ms_inv_def demo_store_def demo_sub_def)

text \<open>
  C21: \<open>Dispatcher.Enqueue\<close> fans an event out exactly once per subscription that wants it: with a
  live context, fresh UUIDs and the in-memory store and queue it succeeds; the subscriptions of
  the vhost that are enabled and match the event type, each once, in the order of their IDs, get
  a new job each, under the UUIDs drawn for them, carrying the event, the URL and the secret of
  the subscription and zero attempts; every other job and every claim is as before.
\<close>

theorem Dispatcher_Enqueue_fanout:
  assumes "ms_inv st" "mq_inv dj_ID q" "inj uuid" "\<forall>i. uuid i \<noteq> []"
  shows "\<exists>q'. Dispatcher_Enqueue MemoryStore_ops MemoryEventQueue_ops uuid None corr now seed vhost
        eventType payload st (q, n) = (None, q', Suc n + length (event_targets st vhost eventType))
    \<and> mq_inv dj_ID q' \<and> mq_claims q' = mq_claims q
    \<and> distinct (map sub_ID (event_targets st vhost eventType))
    \<and> set (event_targets st vhost eventType) = {sub \<in> snd ` set (ms_subscriptions st).
         sub_Vhost sub = vhost \<and> \<not> sub_Disabled sub \<and> matchesEventType sub eventType}
    \<and> (\<forall>i < length (event_targets st vhost eventType). mq_pending q' (uuid (Suc n + i)) =
         Some (event_job (uuid (Suc n + i)) (event_targets st vhost eventType ! i) vhost (uuid n)
                 eventType payload now corr))
    \<and> (\<forall>k. (\<forall>i < length (event_targets st vhost eventType). k \<noteq> uuid (Suc n + i)) \<longrightarrow>
         mq_pending q' k = mq_pending q k)"
proof -
  let ?mk = "\<lambda>u s. event_job u s vhost (uuid n) eventType payload now corr"
  have "sorted_wrt (<) (map sub_ID (event_targets st vhost eventType))"
    using subs_of_strict(1)[OF assms(1), of vhost]
    by (simp add: event_targets_def sorted_wrt_map sorted_wrt_filter)
  then have "distinct (map sub_ID (event_targets st vhost eventType))"
    by (simp add: strict_sorted_iff)
  moreover have "set (event_targets st vhost eventType) = {sub \<in> snd ` set (ms_subscriptions st).
      sub_Vhost sub = vhost \<and> \<not> sub_Disabled sub \<and> matchesEventType sub eventType}"
    by (auto simp: event_targets_def set_subs_of event_wanted_def)
  moreover have "Dispatcher_Enqueue MemoryStore_ops MemoryEventQueue_ops uuid None corr now seed vhost
      eventType payload st (q, n)
    = enqueue_subs MemoryEventQueue_ops uuid None ?mk eventType (subs_of st vhost) (q, Suc n)"
    using ListSubscriptions_eq[OF assms(1)] by (simp add: Dispatcher_Enqueue_def MemoryStore_ops_def)
  ultimately show ?thesis
    using evq.enqueue_subs_spec[OF assms(2,3), of ?mk eventType "subs_of st vhost" "Suc n"] assms(4)
    by (simp add: event_job_def flip: event_targets_def)
qed

theorem Dispatcher_Enqueue_fanout_witness:
  "\<exists>q'. Dispatcher_Enqueue MemoryStore_ops MemoryEventQueue_ops demo_uuid None ''c'' 7 0 ''a.test''
      ''message.bounced'' ''{}'' demo_store (NewMemoryEventQueue, 0) = (None, q', 2)
    \<and> mq_pending q' ''uu'' = Some (event_job ''uu'' (demo_sub ''s2'' ''a.test'' [] False) ''a.test''
        ''u'' ''message.bounced'' ''{}'' 7 ''c'')"
proof -
  have t: "event_targets demo_store ''a.test'' ''message.bounced'' = [demo_sub ''s2'' ''a.test'' [] False]"
    by (simp add: event_targets_def subs_of_def demo_store_def demo_sub_def event_wanted_def
        matchesEventType_def)
  have "\<exists>q'. Dispatcher_Enqueue MemoryStore_ops MemoryEventQueue_ops demo_uuid None ''c'' 7 0 ''a.test''
      ''message.bounced'' ''{}'' demo_store (NewMemoryEventQueue, 0) = (None, q', Suc 0 + 1)
    \<and> mq_pending q' (demo_uuid (Suc 0 + 0)) = Some (event_job (demo_uuid (Suc 0 + 0))
        (demo_sub ''s2'' ''a.test'' [] False) ''a.test'' (demo_uuid 0) ''message.bounced'' ''{}'' 7 ''c'')"
    using Dispatcher_Enqueue_fanout[OF demo_store_inv meq.init_inv demo_uuid_ok(1), of "''c''" 7 0 "''a.test''"
        "''message.bounced''" "''{}''" 0] demo_uuid_ok(2)
    unfolding t by fastforce
  then show ?thesis by (simp add: demo_uuid_def numeral_2_eq_2)
qed

text \<open>
  C24: \<open>deliverOne\<close> on a stored job, with the default backoff or any positive one below
  \<open>2 ^ 53\<close> ns, never panics; it appends exactly one attempt to the history of the subscription,
  numbered one above the attempts of the job, with the payload a later \<open>Redrive\<close> needs; the job
  stays queued if and only if the endpoint failed and attempts are left, and then it has one more
  attempt, is unclaimed, and is due within \<open>BackoffMax\<close>; in every other case it leaves the queue;
  no other job is touched.
\<close>

theorem deliverOne_outcome:
  assumes "mq_inv dj_ID q" "mq_pending q (dj_ID j) = Some j" "dj_SubscriptionID j \<noteq> []"
    "0 < d_BackoffBase d" "d_BackoffBase d < 2 ^ 53" "0 < d_BackoffMax d" "d_BackoffMax d < 2 ^ 53" "rand_ok r"
  shows "\<exists>st' q' f'. deliverOne MemoryStore_ops MemoryEventQueue_ops lib d r None newID now1 now2 sent j (st, q, f)
        = Some (st', q', f')
    \<and> mq_inv dj_ID q'
    \<and> (\<exists>a. attempts_of st' (dj_SubscriptionID j) = attempts_of st (dj_SubscriptionID j) @ [a]
         \<and> da_ID a = newID \<and> da_Attempt a = dj_Attempts j + 1 \<and> da_StatusCode a = fst sent
         \<and> da_EventID a = dj_EventID j \<and> da_EventType a = dj_EventType j \<and> da_Payload a = dj_Payload j)
    \<and> f' = (if snd sent = None then f else Suc f)
    \<and> (\<forall>k. k \<noteq> dj_ID j \<longrightarrow> mq_pending q' k = mq_pending q k \<and> mq_claims q' k = mq_claims q k)
    \<and> \<not> mq_claims q' (dj_ID j)
    \<and> (if snd sent \<noteq> None \<and> dj_Attempts j + 1 < d_MaxAttempts d
       then \<exists>j'. mq_pending q' (dj_ID j) = Some j' \<and> dj_Attempts j' = dj_Attempts j + 1
              \<and> dj_Payload j' = dj_Payload j
              \<and> now2 \<le> dj_NextAttemptAt j' \<and> dj_NextAttemptAt j' < now2 + d_BackoffMax d
       else mq_pending q' (dj_ID j) = None)"
proof -
  obtain code err where sent: "sent = (code, err)" by fastforce
  obtain delay where delay: "FullJitter (dj_Attempts j) (d_BackoffBase d) (d_BackoffMax d) r = Some delay"
    "0 \<le> delay" "delay < d_BackoffMax d"
    using FullJitter_exact assms(4-8) by blast
  have c: "mem_Complete ''webhook: delivery job'' None (dj_ID j) q = (None, snd (mem_Complete ''webhook: delivery job'' None (dj_ID j) q))"
    using assms(2) by (simp add: mem_Complete_def mq_view)
  have cq: "q_Complete MemoryEventQueue_ops None (dj_ID j) q = (None, snd (mem_Complete ''webhook: delivery job'' None (dj_ID j) q))"
    using c by (simp add: MemoryEventQueue_ops_def MemoryEventQueue_Complete_def)
  have fq: "\<And>e t. q_Fail MemoryEventQueue_ops None (dj_ID j) e t q = (None, snd (mem_Fail dj_retry ''webhook: delivery job'' None (dj_ID j) e t q))"
    using assms(2) by (simp add: MemoryEventQueue_ops_def MemoryEventQueue_Fail_def mem_Fail_def mq_view)
  note fin = meq.comp_ok[OF assms(1) cq] and again = meq.fail_ok[OF assms(1) fq]
  show ?thesis
  proof (cases err)
    case None
    then show ?thesis using cq fin assms(3)
      by (simp add: sent deliverOne_def MemoryStore_ops_def attempts_of_Record Let_def split: option.splits)
  next
    case (Some e)
    show ?thesis
    proof (cases "dj_Attempts j + 1 < d_MaxAttempts d")
      case True
      with Some show ?thesis using fq again[of "Some (err_text lib e)" "now2 + delay"] assms(2,3) delay
        by (auto simp: sent deliverOne_def MemoryStore_ops_def attempts_of_Record Dispatcher_nextBackoff_def
            Let_def split: option.splits)
    next
      case False
      with Some show ?thesis using cq fin assms(3)
        by (simp add: sent deliverOne_def MemoryStore_ops_def attempts_of_Record Let_def split: option.splits)
    qed
  qed
qed

definition demo_dj :: delivery_job where
  "demo_dj = event_job ''j1'' (demo_sub ''s2'' ''a.test'' [] False) ''a.test'' ''e'' ''message.bounced'' ''{}'' 7 ''c''"

definition demo_dq :: memory_event_queue where
  "demo_dq = \<lparr>mq_jobs = [(''j1'', demo_dj)], mq_claimed = [(''j1'', True)]\<rparr>"

theorem deliverOne_outcome_witness:
  "\<exists>st' q' f'. deliverOne MemoryStore_ops MemoryEventQueue_ops undefined NewDispatcher (\<lambda>n. 0) None
      ''a1'' 9 10 (500, Some (ErrNew ''x'')) demo_dj (demo_store, demo_dq, 0) = Some (st', q', f')
    \<and> f' = 1 \<and> (\<exists>j'. mq_pending q' ''j1'' = Some j' \<and> dj_Attempts j' = 1)"
proof -
  have p: "mq_inv dj_ID demo_dq" "mq_pending demo_dq (dj_ID demo_dj) = Some demo_dj"
    "dj_SubscriptionID demo_dj \<noteq> []" "0 < d_BackoffBase NewDispatcher" "d_BackoffBase NewDispatcher < 2 ^ 53"
    "0 < d_BackoffMax NewDispatcher" "d_BackoffMax NewDispatcher < 2 ^ 53" "rand_ok (\<lambda>n. 0)"
    by (auto simp: mq_inv_def demo_dq_def demo_dj_def event_job_def demo_sub_def mq_view gomap_bool_def
        NewDispatcher_def DefaultBackoffBase_def DefaultBackoffMax_def rand_ok_def split: if_splits)
  show ?thesis
    using deliverOne_outcome[OF p, of undefined "''a1''" 9 10 "(500, Some (ErrNew ''x''))" demo_store 0]
    by (auto simp: demo_dj_def event_job_def NewDispatcher_def DefaultMaxAttempts_def)
qed

text \<open>
  C27: Whatever the endpoints answer, and however the goroutines of \<open>Run\<close> interleave with each
  other and with new events, no webhook delivery is retried for ever: in every reachable state of
  the dispatcher over the in-memory queue each queued delivery has made fewer than
  \<open>MaxAttempts\<close> attempts (or none), no two goroutines have the same delivery, and the copy a
  goroutine works on is the stored one.
\<close>

theorem Dispatcher_retries_bounded:
  assumes "dispatch_reachable MemoryStore_ops MemoryEventQueue_ops lib d mq_pending st0
      NewMemoryEventQueue ((st, q, f), held)"
  shows "(\<forall>k j. mq_pending q k = Some j \<longrightarrow> 0 \<le> dj_Attempts j \<and> (dj_Attempts j < d_MaxAttempts d \<or> dj_Attempts j = 0))
    \<and> (\<forall>g j. held g = Some j \<longrightarrow> mq_pending q (dj_ID j) = Some j)
    \<and> (\<forall>g g' j j'. held g = Some j \<and> held g' = Some j' \<and> dj_ID j = dj_ID j' \<longrightarrow> g = g')"
proof -
  have "retry_reachable MemoryEventQueue_ops dj_ID dj_Attempts (d_MaxAttempts d) mq_pending
      NewMemoryEventQueue (q, held)"
    using evq.dispatch_retry_reachable[OF assms] by simp
  from meq.retry_ok_reachable[OF _ this] show ?thesis
    by (simp add: meq.retry_ok_def meq.att_ok_def meq.excl_def)
qed

theorem Dispatcher_retries_bounded_witness:
  "dispatch_reachable MemoryStore_ops MemoryEventQueue_ops undefined NewDispatcher mq_pending demo_store
      NewMemoryEventQueue ((demo_store, demo_dq, 0), (\<lambda>_. None)(0 := Some demo_dj))
   \<and> dj_Attempts demo_dj < 8"
proof -
  let ?R = "dispatch_reachable MemoryStore_ops MemoryEventQueue_ops undefined NewDispatcher mq_pending
    demo_store NewMemoryEventQueue"
  have 1: "?R ((demo_store, \<lparr>mq_jobs = [(''j1'', demo_dj)], mq_claimed = []\<rparr>, 0), \<lambda>_. None)"
    by (rule dispatch_next[OF dispatch_init], rule dispatch_event[of _ _ "''j1''" _ None
          "demo_sub ''s2'' ''a.test'' [] False" "''a.test''" "''e''" "''message.bounced''" "''{}''" 7 "''c''" None])
      (simp_all add: MemoryEventQueue_ops_def MemoryEventQueue_defs mem_Enqueue_def mem_new_def
        demo_dj_def event_job_def mq_view)
  have 2: "?R ((demo_store, demo_dq, 0), (\<lambda>_. None)(0 := Some demo_dj))"
    by (rule dispatch_next[OF 1], rule dispatch_spawn[of _ 0 _ False None 9 0])
      (simp_all add: MemoryEventQueue_ops_def MemoryEventQueue_defs mem_Dequeue_def Dispatcher_poll_def
        demo_dq_def demo_dj_def event_job_def Let_def)
  from 2 Dispatcher_retries_bounded[OF 2] show ?thesis
    by (simp add: NewDispatcher_def DefaultMaxAttempts_def) (metis fun_upd_same zero_less_numeral)
qed

text \<open>
  Tenant isolation of the webhook store: a caller that names a vhost which does not own a
  subscription cannot disable it, sees no attempt of it, on any page, cannot redrive it, and never
  finds it in a listing; the refusals are not-found errors and nothing changes.
\<close>

theorem webhook_tenant_isolation:
  assumes "ms_inv m" "\<forall>sub. map_of (ms_subscriptions m) k = Some sub \<longrightarrow> sub_Vhost sub \<noteq> vhost"
  shows "(\<exists>e. MemoryStore_DisableSubscription None vhost k m = (Some e, m) \<and> errors_is ''webhook: not found'' e)
    \<and> MemoryStore_ListAttempts None vhost k m = Inr []
    \<and> MemoryStore_ListAttemptsPage None vhost k cursor limit m = Inr []
    \<and> (\<exists>subs. MemoryStore_ListSubscriptions None seed vhost m = Inr subs \<and> k \<notin> sub_ID ` set subs)
    \<and> (\<exists>e. Dispatcher_Redrive MemoryStore_ops ops uuid None corr now seed vhost k eventID m (q, n)
          = (Some e, q, n) \<and> errors_is ''webhook: not found'' e)"
proof -
  have k: "k \<notin> sub_ID ` set (subs_of m vhost)"
    using assms(2) ms_inv_lookup[OF assms(1)] by (auto simp: set_subs_of)
  have "find (\<lambda>s. sub_ID s = k) (subs_of m vhost) = None"
    using k by (auto simp: find_None_iff)
  then have "Dispatcher_Redrive MemoryStore_ops ops uuid None corr now seed vhost k eventID m (q, n)
      = (Some (ErrWrap (''webhook: redrive: subscription '' @ go_quote k) webhook_ErrNotFound), q, n)"
    using ListSubscriptions_eq[OF assms(1)] by (simp add: Dispatcher_Redrive_def MemoryStore_ops_def)
  moreover have a: "MemoryStore_ListAttempts None vhost k m = Inr []"
    using assms(2) by (auto simp: MemoryStore_ListAttempts_def split: option.splits)
  moreover have "MemoryStore_ListAttemptsPage None vhost k cursor limit m = Inr []"
    using a by (simp add: MemoryStore_ListAttemptsPage_def page_from_def slice_from_take)
  moreover have "MemoryStore_DisableSubscription None vhost k m =
      (Some (ErrWrap (''webhook: subscription '' @ go_quote k) webhook_ErrNotFound), m)"
    using assms(2) by (auto simp: MemoryStore_DisableSubscription_def split: option.splits)
  ultimately show ?thesis using k ListSubscriptions_eq[OF assms(1)] by (simp add: webhook_ErrNotFound_def)
qed

theorem webhook_tenant_isolation_witness:
  "MemoryStore_ListAttempts None ''b.test'' ''s2'' demo_store = Inr []
   \<and> snd (MemoryStore_DisableSubscription None ''b.test'' ''s2'' demo_store) = demo_store"
proof -
  have "\<forall>sub. map_of (ms_subscriptions demo_store) ''s2'' = Some sub \<longrightarrow> sub_Vhost sub \<noteq> ''b.test''"
    by (simp add: demo_store_def demo_sub_def)
  from webhook_tenant_isolation[OF demo_store_inv this, of "[]" 0 0 MemoryEventQueue_ops demo_uuid "[]" 0 "[]"
      NewMemoryEventQueue 0]
  show ?thesis by (elim conjE exE) simp
qed

text \<open>
  Paging loses and repeats nothing: whatever page size the caller asks for, following the
  cursors of \<open>ListSubscriptionsPage\<close> and of \<open>ListAttemptsPage\<close> from the empty one, while pages
  are full, yields the whole listing of the vhost, respectively the whole history of the
  subscription, in order, within one page per row and one more.
\<close>

theorem webhook_pages_complete:
  assumes "ms_inv m" "attempts_ok m" "length (subs_of m vhost) < fuel" "length (attempts_of m k) < fuel"
  shows "walk_pages (\<lambda>cursor. case MemoryStore_ListSubscriptionsPage None seed vhost cursor limit m of
             Inl e \<Rightarrow> [] | Inr p \<Rightarrow> p) sub_ID (pageLimit limit) fuel [] = subs_of m vhost
    \<and> (\<forall>sub. map_of (ms_subscriptions m) k = Some sub \<and> sub_Vhost sub = vhost \<longrightarrow>
        walk_pages (\<lambda>cursor. case MemoryStore_ListAttemptsPage None vhost k cursor limit m of
             Inl e \<Rightarrow> [] | Inr p \<Rightarrow> p) da_ID (pageLimit limit) fuel [] = attempts_of m k)"
  using subp.full_walk[of "(m, vhost)" "pageLimit limit" fuel] attp.full_walk[of "(m, k)" "pageLimit limit" fuel]
    assms pageLimit_pos(1)[of limit]
  by (simp add: ListSubscriptionsPage_eq MemoryStore_ListAttemptsPage_def MemoryStore_ListAttempts_def)

theorem webhook_pages_complete_witness:
  "walk_pages (\<lambda>cursor. case MemoryStore_ListSubscriptionsPage None 0 ''a.test'' cursor 1 demo_store of
      Inl e \<Rightarrow> [] | Inr p \<Rightarrow> p) sub_ID 1 3 [] =
    [demo_sub ''s1'' ''a.test'' [''message.received''] False, demo_sub ''s2'' ''a.test'' [] False]"
proof -
  have l: "subs_of demo_store ''a.test'' =
      [demo_sub ''s1'' ''a.test'' [''message.received''] False, demo_sub ''s2'' ''a.test'' [] False]"
    by (simp add: subs_of_def demo_store_def demo_sub_def)
  have "attempts_ok demo_store" "attempts_of demo_store ''s1'' = []"
    by (simp_all add: attempts_ok_def attempts_of_def demo_store_def)
  with webhook_pages_complete[OF demo_store_inv, of "''a.test''" 3 "''s1''" 0 1] l show ?thesis
    by (simp add: pageLimit_def)
qed

text \<open>
  \<open>Redrive\<close> of an event that was attempted against an enabled subscription of the vhost
  enqueues exactly one new job under a fresh UUID, with zero attempts, the current URL and secret
  of the subscription, and the type and payload of the latest attempt of that event.
\<close>

theorem Redrive_requeues_latest:
  assumes "ms_inv st" "mq_inv dj_ID q" "\<forall>i. uuid i \<noteq> []"
    "map_of (ms_subscriptions st) k = Some sub" "sub_Vhost sub = vhost" "\<not> sub_Disabled sub"
    "attempts_of st k = before @ a # after" "da_EventID a = eventID" "\<forall>b \<in> set after. da_EventID b \<noteq> eventID"
  shows "\<exists>q'. Dispatcher_Redrive MemoryStore_ops MemoryEventQueue_ops uuid None corr now seed vhost k eventID st (q, n)
        = (None, q', Suc n)
    \<and> mq_inv dj_ID q' \<and> mq_claims q' = mq_claims q
    \<and> mq_pending q' = (mq_pending q)(uuid n \<mapsto> \<lparr>dj_ID = uuid n, dj_Vhost = vhost, dj_SubscriptionID = k,
         dj_URL = sub_URL sub, dj_Secret = sub_Secret sub, dj_EventID = eventID,
         dj_EventType = da_EventType a, dj_Payload = da_Payload a, dj_Attempts = 0,
         dj_NextAttemptAt = now, dj_LastError = [], dj_CorrelationID = corr\<rparr>)"
proof -
  have id: "sub_ID sub = k" using assms(1,4) by (fastforce simp: ms_inv_def dest: map_of_SomeD)
  have sub: "sub \<in> set (subs_of st vhost)"
    using assms(4,5) by (force simp: set_subs_of dest: map_of_SomeD)
  have inj: "s = sub" if "s \<in> set (subs_of st vhost)" "sub_ID s = k" for s
    using ms_inv_inj[OF assms(1)] that sub id by (auto simp: set_subs_of dest: inj_onD)
  have "find (\<lambda>s. sub_ID s = k) (subs_of st vhost) = Some sub"
  proof (cases "find (\<lambda>s. sub_ID s = k) (subs_of st vhost)")
    case None
    then show ?thesis using sub id by (auto simp: find_None_iff)
  next
    case (Some s)
    then have "s \<in> set (subs_of st vhost)" "sub_ID s = k" by (auto simp: find_Some_iff)
    then show ?thesis using Some inj by simp
  qed
  moreover have "find (\<lambda>a. da_EventID a = eventID) (rev (attempts_of st k)) = Some a"
  proof -
    have "find (\<lambda>a. da_EventID a = eventID) (rev after @ a # rev before) = Some a"
      if "\<forall>b \<in> set after. da_EventID b \<noteq> eventID" for after
      using that assms(8) by (induction after rule: rev_induct) auto
    then show ?thesis using assms(7,9) by simp
  qed
  moreover obtain q' where q': "q_Enqueue MemoryEventQueue_ops None (event_job (uuid n) sub vhost eventID
      (da_EventType a) (da_Payload a) now corr) q = (None, q')"
    using meq.enq_accepts[of "event_job (uuid n) sub vhost eventID (da_EventType a) (da_Payload a) now corr" q]
      assms(3) by (simp add: event_job_def) (metis prod.collapse)
  moreover have "MemoryStore_ListAttempts None vhost k st = Inr (attempts_of st k)"
    using assms(4,5) by (simp add: MemoryStore_ListAttempts_def)
  ultimately show ?thesis
    using ListSubscriptions_eq[OF assms(1)] meq.enq_ok[OF assms(2) q'] assms(6) id
    by (simp add: Dispatcher_Redrive_def MemoryStore_ops_def event_job_def)
qed

definition demo_attempt :: "string \<Rightarrow> bytes \<Rightarrow> delivery_attempt" where
  "demo_attempt e p = \<lparr>da_ID = ''x'', da_Vhost = ''a.test'', da_SubscriptionID = ''s2'', da_EventID = e,
     da_Attempt = 1, da_StatusCode = 500, da_Error = ''boom'', da_AttemptedAt = 1, da_Payload = p,
     da_EventType = ''message.bounced''\<rparr>"

theorem Redrive_requeues_latest_witness:
  "\<exists>q'. Dispatcher_Redrive MemoryStore_ops MemoryEventQueue_ops demo_uuid None ''c'' 9 0 ''a.test'' ''s2'' ''e''
      (demo_store\<lparr>ms_attempts := [(''s2'', [demo_attempt ''e'' ''old'', demo_attempt ''e'' ''new''])]\<rparr>)
      (NewMemoryEventQueue, 0) = (None, q', 1)
    \<and> map_option dj_Payload (mq_pending q' ''u'') = Some ''new''"
proof -
  let ?st = "demo_store\<lparr>ms_attempts := [(''s2'', [demo_attempt ''e'' ''old'', demo_attempt ''e'' ''new''])]\<rparr>"
  have p: "ms_inv ?st" "map_of (ms_subscriptions ?st) ''s2'' = Some (demo_sub ''s2'' ''a.test'' [] False)"
    "sub_Vhost (demo_sub ''s2'' ''a.test'' [] False) = ''a.test''"
    "\<not> sub_Disabled (demo_sub ''s2'' ''a.test'' [] False)"
    "attempts_of ?st ''s2'' = [demo_attempt ''e'' ''old''] @ demo_attempt ''e'' ''new'' # []"
    "da_EventID (demo_attempt ''e'' ''new'') = ''e''"
    by (simp_all add: ms_inv_def demo_store_def demo_sub_def attempts_of_def demo_attempt_def)
  from Redrive_requeues_latest[OF p(1) meq.init_inv _ p(2-6), of demo_uuid "''c''" 9 0 0]
  show ?thesis using demo_uuid_ok(2) by (auto simp: demo_uuid_def demo_attempt_def)
qed

end
