(* ===== verification/Directory.thy ===== *)
theory Directory
  imports Complex_Main Env_Prelude
begin

section \<open>Directory: internal/directory and internal/directory/memory\<close>

text \<open>
  Accounts, vhosts, mailboxes, the address syntax, the \<open>Directory\<close> interface as a record of
  operations (with its contract as the locale \<open>directory_contract\<close>), and the in-memory
  directory. A private key is the text of its PEM encoding.
\<close>

record account =
  acc_ID :: string
  acc_Name :: string
  acc_CreatedAt :: time

record vhost =
  vh_ID :: string
  vh_AccountID :: string
  vh_Domain :: string
  vh_Active :: bool
  vh_DKIMSelector :: string
  vh_DKIMKey :: "string option"
  vh_MaxMessageBytes :: int
  vh_DailyQuota :: int
  vh_SpamRejectThreshold :: real
  vh_SpamQuarantineThreshold :: real
  vh_RetentionDays :: int

record vhost_policy =
  vp_MaxMessageBytes :: int
  vp_DailyQuota :: int
  vp_SpamRejectThreshold :: real
  vp_SpamQuarantineThreshold :: real
  vp_RetentionDays :: int

record mailbox =
  mbx_ID :: string
  mbx_VhostID :: string
  mbx_LocalPart :: string
  mbx_PasswordHash :: string

definition directory_ErrNotFound :: gerr where
  "directory_ErrNotFound = ErrSentinel ''directory: not found''"

definition DefaultDKIMSelector :: string where
  "DefaultDKIMSelector = ''envelope''"

definition zero_vhost :: vhost where
  "zero_vhost = \<lparr>vh_ID = [], vh_AccountID = [], vh_Domain = [], vh_Active = False, vh_DKIMSelector = [],
     vh_DKIMKey = None, vh_MaxMessageBytes = 0, vh_DailyQuota = 0, vh_SpamRejectThreshold = 0,
     vh_SpamQuarantineThreshold = 0, vh_RetentionDays = 0\<rparr>"

text \<open>\<open>None\<close> is \<open>ok = false\<close>.\<close>

definition ParseAddress :: "string \<Rightarrow> (string \<times> string) option" where
  "ParseAddress addr = (case go_cut ''@'' addr of
     (local_part, domain, found) \<Rightarrow>
       if \<not> found \<or> local_part = [] \<or> domain = [] then None else Some (local_part, domain))"

definition MailboxPath :: "string \<Rightarrow> string \<Rightarrow> string" where
  "MailboxPath localPart folder = localPart @ ''/'' @ folder"

subsection \<open>The interface\<close>

record 'd directory_ops =
  dir_Vhost :: "string \<Rightarrow> 'd \<Rightarrow> vhost option"
  dir_VhostActive :: "string \<Rightarrow> 'd \<Rightarrow> bool"
  dir_Authenticate :: "string \<Rightarrow> string \<Rightarrow> string \<Rightarrow> 'd \<Rightarrow> bool"

text \<open>What every implementation promises: a vhost is active when it is registered as active.\<close>

locale directory_contract =
  fixes ops :: "'d directory_ops"
  assumes active_iff: "dir_VhostActive ops domain d \<longleftrightarrow>
    (\<exists>v. dir_Vhost ops domain d = Some v \<and> vh_Active v)"
begin

lemma unregistered_inactive: "dir_Vhost ops domain d = None \<Longrightarrow> \<not> dir_VhostActive ops domain d"
  by (simp add: active_iff)

end

subsection \<open>The in-memory directory\<close>

record mem_account =
  ma_vhost :: string
  ma_localPart :: string
  ma_password :: string

record memory_directory =
  md_vhosts :: "vhost gomap"
  md_accounts :: "mem_account gomap"

definition memory_New :: memory_directory where
  "memory_New = \<lparr>md_vhosts = [], md_accounts = []\<rparr>"

text \<open>\<open>key\<close> is the outcome of \<open>rsa.GenerateKey\<close>.\<close>

definition memory_AddVhost :: "gerr + string \<Rightarrow> string \<Rightarrow> memory_directory \<Rightarrow> (gerr + vhost) \<times> memory_directory" where
  "memory_AddVhost key domain d =
     (case key of
        Inl e \<Rightarrow> (Inl (ErrWrap (''memory: generate DKIM key for '' @ go_quote domain) e), d)
      | Inr k \<Rightarrow>
          let v = zero_vhost\<lparr>vh_Domain := domain, vh_Active := True,
                    vh_DKIMSelector := DefaultDKIMSelector, vh_DKIMKey := Some k\<rparr>
          in (Inr v, d\<lparr>md_vhosts := AList.update domain v (md_vhosts d)\<rparr>))"

definition memory_Vhost :: "string \<Rightarrow> memory_directory \<Rightarrow> vhost option" where
  "memory_Vhost domain d = map_of (md_vhosts d) domain"

definition memory_VhostActive :: "string \<Rightarrow> memory_directory \<Rightarrow> bool" where
  "memory_VhostActive domain d = (case memory_Vhost domain d of None \<Rightarrow> False | Some v \<Rightarrow> vh_Active v)"

definition accountKey :: "string \<Rightarrow> string \<Rightarrow> string" where
  "accountKey vhost localPart = localPart @ ''@'' @ vhost"

definition memory_AddAccount :: "string \<Rightarrow> string \<Rightarrow> string \<Rightarrow> memory_directory \<Rightarrow> gerr option \<times> memory_directory" where
  "memory_AddAccount vhost localPart password d =
     (if map_of (md_vhosts d) vhost = None
      then (Some (ErrNew (''memory: vhost '' @ go_quote vhost @ '' not registered'')), d)
      else (None, d\<lparr>md_accounts := AList.update (accountKey vhost localPart)
              \<lparr>ma_vhost = vhost, ma_localPart = localPart, ma_password = password\<rparr> (md_accounts d)\<rparr>))"

definition memory_Authenticate :: "string \<Rightarrow> string \<Rightarrow> string \<Rightarrow> memory_directory \<Rightarrow> bool" where
  "memory_Authenticate vhost localPart password d =
     (case map_of (md_accounts d) (accountKey vhost localPart) of
        None \<Rightarrow> False | Some acct \<Rightarrow> ma_password acct = password)"

definition memory_directory_ops :: "memory_directory directory_ops" where
  "memory_directory_ops = \<lparr>dir_Vhost = memory_Vhost, dir_VhostActive = memory_VhostActive,
     dir_Authenticate = memory_Authenticate\<rparr>"

interpretation mdir: directory_contract memory_directory_ops
  by unfold_locales (simp add: memory_directory_ops_def memory_VhostActive_def split: option.splits)

subsection \<open>Lemmas\<close>

lemma ParseAddress_Some:
  "ParseAddress a = Some (l, d) \<longleftrightarrow> a = l @ ''@'' @ d \<and> CHR ''@'' \<notin> set l \<and> l \<noteq> [] \<and> d \<noteq> []"
proof
  assume "ParseAddress a = Some (l, d)"
  then have "go_cut ''@'' a = (l, d, True)" "l \<noteq> []" "d \<noteq> []"
    by (auto simp: ParseAddress_def split: prod.splits if_splits)
  then show "a = l @ ''@'' @ d \<and> CHR ''@'' \<notin> set l \<and> l \<noteq> [] \<and> d \<noteq> []"
    using go_cut_found[of "''@''" a l d] go_cut_char_first[of "CHR ''@''" a l d True] by simp
next
  assume "a = l @ ''@'' @ d \<and> CHR ''@'' \<notin> set l \<and> l \<noteq> [] \<and> d \<noteq> []"
  then show "ParseAddress a = Some (l, d)" by (simp add: ParseAddress_def)
qed

lemma ParseAddress_None: "CHR ''@'' \<notin> set a \<Longrightarrow> ParseAddress a = None"
  by (simp add: ParseAddress_def go_cut_char_absent)

lemma accountKey_ParseAddress:
  "CHR ''@'' \<notin> set l \<Longrightarrow> l \<noteq> [] \<Longrightarrow> v \<noteq> [] \<Longrightarrow> ParseAddress (accountKey v l) = Some (l, v)"
  by (simp add: ParseAddress_Some accountKey_def)

lemma accountKey_inj:
  "CHR ''@'' \<notin> set l \<Longrightarrow> CHR ''@'' \<notin> set l' \<Longrightarrow> accountKey v l = accountKey v' l' \<Longrightarrow> v = v' \<and> l = l'"
  unfolding accountKey_def by (metis append_Cons append_Nil go_cut_char_append prod.inject)

lemma Authenticate_AddAccount:
  assumes "map_of (md_vhosts d) v \<noteq> None" "CHR ''@'' \<notin> set l" "CHR ''@'' \<notin> set l'"
  shows "memory_Authenticate v' l' p' (snd (memory_AddAccount v l p d)) \<longleftrightarrow>
    (if v' = v \<and> l' = l then p' = p else memory_Authenticate v' l' p' d)"
  using assms accountKey_inj[of l' l v' v]
  by (auto simp: memory_AddAccount_def memory_Authenticate_def split: option.splits)

subsection \<open>Properties\<close>

text \<open>
  \<open>ParseAddress\<close> accepts exactly the strings with a nonempty local part before the first
  \<open>@\<close> and a nonempty rest, and returns those two parts; joining them gives the address back, so
  the account key of the in-memory directory is unambiguous for every address it accepts.
\<close>

theorem ParseAddress_correct:
  "(\<forall>l d. ParseAddress a = Some (l, d) \<longleftrightarrow> a = l @ ''@'' @ d \<and> CHR ''@'' \<notin> set l \<and> l \<noteq> [] \<and> d \<noteq> [])
   \<and> (\<forall>l d. ParseAddress a = Some (l, d) \<longrightarrow> accountKey d l = a)
   \<and> (\<forall>b l d. ParseAddress a = Some (l, d) \<and> ParseAddress b = Some (l, d) \<longrightarrow> a = b)"
  by (auto simp: ParseAddress_Some accountKey_def)

theorem ParseAddress_correct_witness:
  "ParseAddress ''alice@example.com'' = Some (''alice'', ''example.com'') \<and> ParseAddress ''alice'' = None"
proof -
  have "ParseAddress ''alice@example.com'' = Some (''alice'', ''example.com'')"
    using ParseAddress_correct[of "''alice@example.com''"] by simp
  then show ?thesis by (simp add: ParseAddress_None)
qed

end
