(* ===== verification/Storage.thy ===== *)
theory Storage
  imports Env_Prelude
begin

section \<open>Storage contract: internal/storage/store.go\<close>

text \<open>
  The \<open>Store\<close> interface as a record of operations over a state. \<open>seed\<close> is the iteration order
  a listing may depend on. A body is the bytes its reader yields.
\<close>

definition FlagSeen :: string where "FlagSeen = [CHR 0x5C] @ ''Seen''"
definition FlagAnswered :: string where "FlagAnswered = [CHR 0x5C] @ ''Answered''"
definition FlagFlagged :: string where "FlagFlagged = [CHR 0x5C] @ ''Flagged''"
definition FlagDeleted :: string where "FlagDeleted = [CHR 0x5C] @ ''Deleted''"
definition FlagDraft :: string where "FlagDraft = [CHR 0x5C] @ ''Draft''"

definition OutboxMailbox :: string where "OutboxMailbox = ''Outbox''"

record message_ref =
  ref_Vhost :: string
  ref_Mailbox :: string
  ref_Key :: string

record message_meta =
  meta_Ref :: message_ref
  meta_Size :: int
  meta_Flags :: "string list"
  meta_CreatedAt :: time

record 's store_ops =
  s_Write :: "gerr option \<Rightarrow> string \<Rightarrow> string \<Rightarrow> bytes \<Rightarrow> 's \<Rightarrow> (gerr + message_ref) \<times> 's"
  s_Read :: "gerr option \<Rightarrow> message_ref \<Rightarrow> 's \<Rightarrow> gerr + bytes"
  s_List :: "gerr option \<Rightarrow> nat \<Rightarrow> string \<Rightarrow> string \<Rightarrow> 's \<Rightarrow> gerr + message_meta list"
  s_ListVhost :: "gerr option \<Rightarrow> nat \<Rightarrow> string \<Rightarrow> 's \<Rightarrow> gerr + message_meta list"
  s_UpdateFlags :: "gerr option \<Rightarrow> message_ref \<Rightarrow> string list \<Rightarrow> 's \<Rightarrow> gerr option \<times> 's"
  s_Delete :: "gerr option \<Rightarrow> message_ref \<Rightarrow> 's \<Rightarrow> gerr option \<times> 's"

definition zero_ref :: message_ref where
  "zero_ref = \<lparr>ref_Vhost = [], ref_Mailbox = [], ref_Key = []\<rparr>"

subsection \<open>The contract a client of a store relies on\<close>

text \<open>
  \<open>holds st ref b\<close>: the message at \<open>ref\<close> is on record with body \<open>b\<close>. \<open>room\<close> bounds the number of
  further writes for which the store can name its messages apart.
\<close>

locale message_store =
  fixes ops :: "'s store_ops" and inv :: "'s \<Rightarrow> bool" and holds :: "'s \<Rightarrow> message_ref \<Rightarrow> bytes \<Rightarrow> bool"
    and room :: "'s \<Rightarrow> nat"
  assumes read_holds: "holds st ref b \<Longrightarrow> s_Read ops None ref st = Inr b"
    and write_ok: "inv st \<Longrightarrow> 0 < room st \<Longrightarrow> s_Write ops ctx v m body st = (Inr ref, st')
      \<Longrightarrow> holds st' ref body \<and> ref_Vhost ref = v \<and> ref_Mailbox ref = m"
    and write_keeps: "inv st \<Longrightarrow> 0 < room st \<Longrightarrow> s_Write ops ctx v m body st = (r, st')
      \<Longrightarrow> inv st' \<and> room st \<le> Suc (room st') \<and> (\<forall>ref b. holds st ref b \<longrightarrow> holds st' ref b)"

text \<open>The specification of a delivery to several mailboxes: one write each, up to the first failure.\<close>

fun write_all :: "'s store_ops \<Rightarrow> bytes \<Rightarrow> (string \<times> string) list \<Rightarrow> 's \<Rightarrow> message_ref list \<times> gerr option \<times> 's" where
  "write_all ops body [] st = ([], None, st)"
| "write_all ops body ((v, m) # ts) st =
     (case s_Write ops None v m body st of
        (Inl e, st') \<Rightarrow> ([], Some e, st')
      | (Inr ref, st') \<Rightarrow> (case write_all ops body ts st' of (refs, e, st'') \<Rightarrow> (ref # refs, e, st'')))"

text \<open>The messages a list of references stands for: at these targets, with this body.\<close>

definition at_targets :: "('s \<Rightarrow> message_ref \<Rightarrow> bytes \<Rightarrow> bool) \<Rightarrow> 's \<Rightarrow> bytes \<Rightarrow> (string \<times> string) list
    \<Rightarrow> message_ref list \<Rightarrow> bool" where
  "at_targets holds st body ts refs \<longleftrightarrow>
     list_all2 (\<lambda>(v, m) ref. ref_Vhost ref = v \<and> ref_Mailbox ref = m \<and> holds st ref body) ts refs"

context message_store
begin

lemma write_all_keeps:
  "inv st \<Longrightarrow> length ts \<le> room st \<Longrightarrow> write_all ops body ts st = (refs, e, st')
   \<Longrightarrow> inv st' \<and> (\<forall>ref b. holds st ref b \<longrightarrow> holds st' ref b)
      \<and> room st \<le> room st' + length ts
      \<and> at_targets holds st' body (take (length refs) ts) refs \<and> (e = None \<longrightarrow> length refs = length ts)"
proof (induction ts arbitrary: st refs)
  case (Cons t ts)
  obtain v m where t: "t = (v, m)" by fastforce
  obtain r s1 where w: "s_Write ops None v m body st = (r, s1)" by fastforce
  have k: "inv s1" "room st \<le> Suc (room s1)" "\<forall>ref b. holds st ref b \<longrightarrow> holds s1 ref b"
    using write_keeps[OF Cons.prems(1) _ w] Cons.prems(2) by auto
  show ?case
  proof (cases r)
    case (Inl x)
    then show ?thesis using Cons.prems(3) w k t by (auto simp: at_targets_def)
  next
    case (Inr ref)
    then have h: "holds s1 ref body" "ref_Vhost ref = v" "ref_Mailbox ref = m"
      using write_ok[OF Cons.prems(1) _ w[unfolded Inr]] Cons.prems(2) by auto
    obtain refs' where a: "write_all ops body ts s1 = (refs', e, st')" "refs = ref # refs'"
      using Cons.prems(3) w Inr t by (auto split: prod.splits)
    from Cons.IH[OF k(1) _ a(1)] k(2) Cons.prems(2) k(3) h t a(2) show ?thesis
      by (auto simp: at_targets_def)
  qed
qed (simp add: at_targets_def)

lemma at_targets_read:
  "at_targets holds st body ts refs \<Longrightarrow> ref \<in> set refs \<Longrightarrow> s_Read ops None ref st = Inr body"
  by (auto simp: at_targets_def in_set_conv_nth list_all2_conv_all_nth case_prod_beta intro: read_holds)

end

text \<open>What a listing promises: references into the mailbox that was asked for.\<close>

locale listing_store =
  fixes ops :: "'s store_ops"
  assumes list_refs: "s_List ops ctx seed v m st = Inr ms \<Longrightarrow> x \<in> set ms
    \<Longrightarrow> ref_Vhost (meta_Ref x) = v \<and> ref_Mailbox (meta_Ref x) = m"

end
