(* ===== verification/Maildir.thy ===== *)
theory Maildir
  imports Storage
begin

section \<open>Maildir backend: internal/storage/maildir\<close>

text \<open>
  The backend over a model of the file system it uses: directories and files by cleaned absolute
  path (a list of components), a file having its bytes and its modification time.
  \<open>path_join\<close> is \<open>filepath.Join\<close> on an absolute first element, with the lexical cleaning of empty
  components, \<open>.\<close> and \<open>..\<close>. Every system call a method makes can fail: \<open>io_faults\<close> holds the
  error it returns, if any.
\<close>

subsection \<open>The file system\<close>

type_synonym path = "string list"

fun push_component :: "string \<Rightarrow> path \<Rightarrow> path" where
  "push_component c stack =
     (if c = [] \<or> c = ''.'' then stack else if c = ''..'' then tl stack else c # stack)"

definition path_join :: "path \<Rightarrow> string list \<Rightarrow> path" where
  "path_join p elems = rev (fold push_component (concat (map (go_split (CHR ''/'')) elems)) (rev p))"

record fs =
  fs_dirs :: "path list"
  fs_files :: "(path \<times> bytes \<times> time) list"

definition os_ErrNotExist :: gerr where
  "os_ErrNotExist = ErrSentinel ''file does not exist''"

definition fs_exists :: "fs \<Rightarrow> path \<Rightarrow> bool" where
  "fs_exists f p \<longleftrightarrow> p \<in> set (fs_dirs f) \<or> map_of (fs_files f) p \<noteq> None"

definition fs_MkdirAll :: "path \<Rightarrow> fs \<Rightarrow> gerr option \<times> fs" where
  "fs_MkdirAll p f =
     (if \<exists>q \<in> set (prefixes p). map_of (fs_files f) q \<noteq> None then (Some (ErrNew ''not a directory''), f)
      else (None, f\<lparr>fs_dirs := fs_dirs f @ filter (\<lambda>q. q \<notin> set (fs_dirs f)) (prefixes p)\<rparr>))"

definition fs_CreateExcl :: "path \<Rightarrow> time \<Rightarrow> fs \<Rightarrow> gerr option \<times> fs" where
  "fs_CreateExcl p now f =
     (if fs_exists f p then (Some (ErrNew ''file exists''), f)
      else if butlast p \<notin> set (fs_dirs f) then (Some os_ErrNotExist, f)
      else (None, f\<lparr>fs_files := AList.update p ([], now) (fs_files f)\<rparr>))"

definition fs_Remove :: "path \<Rightarrow> fs \<Rightarrow> gerr option \<times> fs" where
  "fs_Remove p f =
     (if map_of (fs_files f) p \<noteq> None then (None, f\<lparr>fs_files := AList.delete p (fs_files f)\<rparr>)
      else if p \<notin> set (fs_dirs f) then (Some os_ErrNotExist, f)
      else if \<exists>q \<in> set (fs_dirs f @ map fst (fs_files f)). strict_prefix p q
        then (Some (ErrNew ''directory not empty''), f)
      else (None, f\<lparr>fs_dirs := removeAll p (fs_dirs f)\<rparr>))"

text \<open>Renaming a file replaces the target; renaming a directory moves what is below it.\<close>

definition move_path :: "path \<Rightarrow> path \<Rightarrow> path \<Rightarrow> path" where
  "move_path p q x = (if prefix p x then q @ drop (length p) x else x)"

definition fs_Rename :: "path \<Rightarrow> path \<Rightarrow> fs \<Rightarrow> gerr option \<times> fs" where
  "fs_Rename p q f =
     (case map_of (fs_files f) p of
        Some x \<Rightarrow>
          if q \<in> set (fs_dirs f) then (Some (ErrNew ''file exists''), f)
          else if butlast q \<notin> set (fs_dirs f) then (Some os_ErrNotExist, f)
          else (None, f\<lparr>fs_files := AList.update q x (AList.delete p (fs_files f))\<rparr>)
      | None \<Rightarrow>
          if p \<notin> set (fs_dirs f) then (Some os_ErrNotExist, f)
          else if fs_exists f q then (Some (ErrNew ''file exists''), f)
          else if prefix p q then (Some (ErrNew ''invalid argument''), f)
          else if butlast q \<notin> set (fs_dirs f) then (Some os_ErrNotExist, f)
          else (None, \<lparr>fs_dirs = map (move_path p q) (fs_dirs f),
                       fs_files = map (\<lambda>(x, c). (move_path p q x, c)) (fs_files f)\<rparr>))"

text \<open>\<open>os.ReadDir\<close>: the names of the entries, sorted, each with whether it is a directory.\<close>

definition fs_ReadDir :: "path \<Rightarrow> fs \<Rightarrow> gerr + (string \<times> bool) list" where
  "fs_ReadDir p f =
     (if p \<notin> set (fs_dirs f) then Inl os_ErrNotExist
      else Inr (map (\<lambda>n. (n, p @ [n] \<in> set (fs_dirs f)))
        (sort (remdups (map last (filter (\<lambda>q. q \<noteq> [] \<and> butlast q = p) (fs_dirs f @ map fst (fs_files f))))))))"

record io_faults =
  io_mkdir :: "gerr option"
  io_open :: "gerr option"
  io_copy :: "gerr option"
  io_sync :: "gerr option"
  io_close :: "gerr option"
  io_rename :: "gerr option"
  io_readdir :: "gerr option"
  io_info :: "gerr option"
  io_remove :: "gerr option"

definition no_faults :: io_faults where
  "no_faults = \<lparr>io_mkdir = None, io_open = None, io_copy = None, io_sync = None, io_close = None,
     io_rename = None, io_readdir = None, io_info = None, io_remove = None\<rparr>"

definition or_fault :: "gerr option \<Rightarrow> gerr option \<times> fs \<Rightarrow> fs \<Rightarrow> gerr option \<times> fs" where
  "or_fault fault r f = (case fault of Some e \<Rightarrow> (Some e, f) | None \<Rightarrow> r)"

subsection \<open>The backend\<close>

record maildir =
  md_base :: path
  md_fs :: fs
  md_seq :: nat
  md_pid :: int
  md_host :: string
  md_clock :: time
  md_faults :: io_faults

definition dirNew :: string where "dirNew = ''new''"
definition dirCur :: string where "dirCur = ''cur''"
definition dirTmp :: string where "dirTmp = ''tmp''"
definition infoSep :: string where "infoSep = '':2,''"

definition maildirFlagLetters :: "char gomap" where
  "maildirFlagLetters = [(FlagDraft, CHR ''D''), (FlagFlagged, CHR ''F''), (FlagAnswered, CHR ''R''),
     (FlagSeen, CHR ''S''), (FlagDeleted, CHR ''T'')]"

definition letterToFlag :: "char \<rightharpoonup> string" where
  "letterToFlag = map_of (map (\<lambda>(flag, letter). (letter, flag)) maildirFlagLetters)"

definition encodeFlags :: "string list \<Rightarrow> string" where
  "encodeFlags flags = sort (List.map_filter (map_of maildirFlagLetters) flags)"

definition decodeFlags :: "string \<Rightarrow> string list" where
  "decodeFlags info = (if info = [] then [] else List.map_filter letterToFlag info)"

definition mailboxDir :: "maildir \<Rightarrow> string \<Rightarrow> string \<Rightarrow> path" where
  "mailboxDir b vhost mbox = path_join (md_base b) [vhost, mbox]"

fun mkdirs :: "maildir \<Rightarrow> path \<Rightarrow> string list \<Rightarrow> fs \<Rightarrow> gerr option \<times> fs" where
  "mkdirs b dir [] f = (None, f)"
| "mkdirs b dir (sub # subs) f =
     (case or_fault (io_mkdir (md_faults b)) (fs_MkdirAll (path_join dir [sub]) f) f of
        (Some e, f') \<Rightarrow> (Some (ErrWrap (''maildir: create '' @ concat (map ((#) (CHR ''/'')) dir) @ ''/'' @ sub) e), f')
      | (None, f') \<Rightarrow> mkdirs b dir subs f')"

definition ensureMailboxDirs :: "maildir \<Rightarrow> string \<Rightarrow> string \<Rightarrow> (gerr + path) \<times> fs" where
  "ensureMailboxDirs b vhost mbox =
     (let dir = mailboxDir b vhost mbox
      in case mkdirs b dir [dirNew, dirCur, dirTmp] (md_fs b) of
           (Some e, f) \<Rightarrow> (Inl e, f) | (None, f) \<Rightarrow> (Inr dir, f))"

definition uniqueName :: "maildir \<Rightarrow> string \<times> maildir" where
  "uniqueName b =
     (let n = (md_seq b + 1) mod 2 ^ 64
      in (itoa (md_clock b) @ ''.'' @ itoa (md_pid b) @ ''_'' @ nat_digits n @ ''.'' @ md_host b,
          b\<lparr>md_seq := n\<rparr>))"

text \<open>\<open>os.Remove(tmpPath)\<close> on an error path, its own error ignored.\<close>

definition cleanup :: "io_faults \<Rightarrow> path \<Rightarrow> fs \<Rightarrow> fs" where
  "cleanup flt p f = snd (or_fault (io_remove flt) (fs_Remove p f) f)"

definition Maildir_Write :: "gerr option \<Rightarrow> string \<Rightarrow> string \<Rightarrow> bytes \<Rightarrow> maildir
    \<Rightarrow> (gerr + message_ref) \<times> maildir" where
  "Maildir_Write ctx vhost mbox body b =
     (if ctx \<noteq> None then (Inl (the ctx), b)
      else case ensureMailboxDirs b vhost mbox of
        (Inl e, f) \<Rightarrow> (Inl e, b\<lparr>md_fs := f\<rparr>)
      | (Inr dir, f0) \<Rightarrow>
        (case uniqueName b of (name, b1) \<Rightarrow>
         let tmpPath = path_join dir [dirTmp, name]; flt = md_faults b in
         case or_fault (io_open flt) (fs_CreateExcl tmpPath (md_clock b) f0) f0 of
           (Some e, f1) \<Rightarrow> (Inl (ErrWrap ''maildir: create tmp file'' e), b1\<lparr>md_fs := f1\<rparr>)
         | (None, f1) \<Rightarrow>
         case io_copy flt of
           Some e \<Rightarrow> (Inl (ErrWrap ''maildir: write tmp file'' e), b1\<lparr>md_fs := cleanup flt tmpPath f1\<rparr>)
         | None \<Rightarrow>
         let f2 = f1\<lparr>fs_files := AList.update tmpPath (body, md_clock b) (fs_files f1)\<rparr> in
         case io_sync flt of
           Some e \<Rightarrow> (Inl (ErrWrap ''maildir: sync tmp file'' e), b1\<lparr>md_fs := cleanup flt tmpPath f2\<rparr>)
         | None \<Rightarrow>
         case io_close flt of
           Some e \<Rightarrow> (Inl (ErrWrap ''maildir: close tmp file'' e), b1\<lparr>md_fs := cleanup flt tmpPath f2\<rparr>)
         | None \<Rightarrow>
         let newPath = path_join dir [dirNew, name] in
         case or_fault (io_rename flt) (fs_Rename tmpPath newPath f2) f2 of
           (Some e, f3) \<Rightarrow> (Inl (ErrWrap ''maildir: deliver to new'' e), b1\<lparr>md_fs := cleanup flt tmpPath f3\<rparr>)
         | (None, f3) \<Rightarrow>
             (Inr \<lparr>ref_Vhost = vhost, ref_Mailbox = mbox, ref_Key = name\<rparr>, b1\<lparr>md_fs := f3\<rparr>)))"

text \<open>The scan of \<open>cur/\<close> in \<open>locate\<close>; the result has the path, the flags and \<open>inNew\<close>.\<close>

fun locate_cur :: "path \<Rightarrow> string \<Rightarrow> (string \<times> bool) list \<Rightarrow> (path \<times> string list \<times> bool) option" where
  "locate_cur dir key [] = None"
| "locate_cur dir key ((n, d) # es) =
     (case go_cut infoSep n of (base, info, hasInfo) \<Rightarrow>
        if base \<noteq> key then locate_cur dir key es
        else Some (path_join dir [dirCur, n], if hasInfo then decodeFlags info else [], False))"

definition message_not_found :: "string \<Rightarrow> gerr" where
  "message_not_found key = ErrWrap (''maildir: message '' @ go_quote key @ '' not found'') os_ErrNotExist"

definition is_not_exist :: "gerr \<Rightarrow> bool" where
  "is_not_exist e = errors_is ''file does not exist'' e"

definition read_dir :: "maildir \<Rightarrow> path \<Rightarrow> gerr + (string \<times> bool) list" where
  "read_dir b p = (case io_readdir (md_faults b) of Some e \<Rightarrow> Inl e | None \<Rightarrow> fs_ReadDir p (md_fs b))"

definition locate :: "maildir \<Rightarrow> message_ref \<Rightarrow> gerr + path \<times> string list \<times> bool" where
  "locate b ref =
     (let dir = mailboxDir b (ref_Vhost ref) (ref_Mailbox ref);
          newPath = path_join dir [dirNew, ref_Key ref]
      in if fs_exists (md_fs b) newPath then Inr (newPath, [], True)
         else case read_dir b (path_join dir [dirCur]) of
             Inl e \<Rightarrow> if is_not_exist e then Inl (message_not_found (ref_Key ref))
                      else Inl (ErrWrap ''maildir: read cur'' e)
           | Inr entries \<Rightarrow>
               (case locate_cur dir (ref_Key ref) entries of
                  Some r \<Rightarrow> Inr r | None \<Rightarrow> Inl (message_not_found (ref_Key ref))))"

text \<open>\<open>os.Open\<close> succeeds on a directory too; reading it then fails.\<close>

definition Maildir_Read :: "gerr option \<Rightarrow> message_ref \<Rightarrow> maildir \<Rightarrow> gerr + bytes" where
  "Maildir_Read ctx ref b =
     (case ctx of Some e \<Rightarrow> Inl e
      | None \<Rightarrow> (case locate b ref of
          Inl e \<Rightarrow> Inl e
        | Inr (path, _, _) \<Rightarrow>
            (case map_of (fs_files (md_fs b)) path of
               Some (bs, _) \<Rightarrow> Inr bs
             | None \<Rightarrow> Inl (if path \<in> set (fs_dirs (md_fs b)) then ErrNew ''is a directory'' else os_ErrNotExist))))"

fun list_entries :: "maildir \<Rightarrow> string \<Rightarrow> string \<Rightarrow> path \<Rightarrow> bool \<Rightarrow> (string \<times> bool) list
    \<Rightarrow> gerr + message_meta list" where
  "list_entries b vhost mbox p isNew [] = Inr []"
| "list_entries b vhost mbox p isNew ((n, d) # es) =
     (if d then list_entries b vhost mbox p isNew es
      else case io_info (md_faults b) of
        Some e \<Rightarrow> Inl (ErrWrap (''maildir: stat '' @ n) e)
      | None \<Rightarrow>
        (case map_of (fs_files (md_fs b)) (path_join p [n]) of
           None \<Rightarrow> Inl (ErrWrap (''maildir: stat '' @ n) os_ErrNotExist)
         | Some (bs, mtime) \<Rightarrow>
           let (key, flags) = (if isNew then (n, [])
                 else case go_cut infoSep n of (base, sfx, hasInfo) \<Rightarrow>
                        (base, if hasInfo then decodeFlags sfx else [])) in
           (case list_entries b vhost mbox p isNew es of
              Inl e \<Rightarrow> Inl e
            | Inr out \<Rightarrow> Inr (\<lparr>meta_Ref = \<lparr>ref_Vhost = vhost, ref_Mailbox = mbox, ref_Key = key\<rparr>,
                meta_Size = int (length bs), meta_Flags = flags, meta_CreatedAt = mtime\<rparr> # out))))"

fun list_subs :: "maildir \<Rightarrow> string \<Rightarrow> string \<Rightarrow> path \<Rightarrow> (string \<times> bool) list \<Rightarrow> gerr + message_meta list" where
  "list_subs b vhost mbox dir [] = Inr []"
| "list_subs b vhost mbox dir ((sub, isNew) # subs) =
     (case read_dir b (path_join dir [sub]) of
        Inl e \<Rightarrow> if is_not_exist e then list_subs b vhost mbox dir subs
                 else Inl (ErrWrap (''maildir: read '' @ sub) e)
      | Inr entries \<Rightarrow>
          (case list_entries b vhost mbox (path_join dir [sub]) isNew entries of
             Inl e \<Rightarrow> Inl e
           | Inr out1 \<Rightarrow> (case list_subs b vhost mbox dir subs of
               Inl e \<Rightarrow> Inl e | Inr out2 \<Rightarrow> Inr (out1 @ out2))))"

definition Maildir_List :: "gerr option \<Rightarrow> nat \<Rightarrow> string \<Rightarrow> string \<Rightarrow> maildir \<Rightarrow> gerr + message_meta list" where
  "Maildir_List ctx seed vhost mbox b =
     (case ctx of Some e \<Rightarrow> Inl e
      | None \<Rightarrow> list_subs b vhost mbox (mailboxDir b vhost mbox)
                  (map_range seed [(dirNew, True), (dirCur, False)]))"

text \<open>
  The walk of \<open>ListVhost\<close>: pre-order, siblings by name, which is the lexicographic order of the
  paths; a directory called \<open>new\<close> is reported and not entered.
\<close>

definition walk_new :: "path \<Rightarrow> fs \<Rightarrow> path list" where
  "walk_new vhostDir f =
     sort (remdups (filter (\<lambda>p. prefix vhostDir p \<and> p \<noteq> [] \<and> last p = dirNew
        \<and> (\<forall>q \<in> set (prefixes p). strict_prefix q p \<and> prefix vhostDir q \<longrightarrow> q = [] \<or> last q \<noteq> dirNew))
       (fs_dirs f)))"

definition rel_mailbox :: "path \<Rightarrow> path \<Rightarrow> string" where
  "rel_mailbox vhostDir p =
     (let m = butlast p in
      if length m < length vhostDir then ''..''
      else if m = vhostDir then ''.'' else go_join ''/'' (drop (length vhostDir) m))"

fun list_mailboxes :: "maildir \<Rightarrow> nat \<Rightarrow> string \<Rightarrow> string list \<Rightarrow> gerr + message_meta list" where
  "list_mailboxes b seed vhost [] = Inr []"
| "list_mailboxes b seed vhost (m # ms) =
     (case Maildir_List None seed vhost m b of
        Inl e \<Rightarrow> Inl e
      | Inr out1 \<Rightarrow> (case list_mailboxes b seed vhost ms of Inl e \<Rightarrow> Inl e | Inr out2 \<Rightarrow> Inr (out1 @ out2)))"

definition Maildir_ListVhost :: "gerr option \<Rightarrow> nat \<Rightarrow> string \<Rightarrow> maildir \<Rightarrow> gerr + message_meta list" where
  "Maildir_ListVhost ctx seed vhost b =
     (case ctx of Some e \<Rightarrow> Inl e
      | None \<Rightarrow>
        let vhostDir = path_join (md_base b) [vhost] in
        if \<not> fs_exists (md_fs b) vhostDir then Inr []
        else list_mailboxes b seed vhost (map (rel_mailbox vhostDir) (walk_new vhostDir (md_fs b))))"

definition Maildir_UpdateFlags :: "gerr option \<Rightarrow> message_ref \<Rightarrow> string list \<Rightarrow> maildir
    \<Rightarrow> gerr option \<times> maildir" where
  "Maildir_UpdateFlags ctx ref flags b =
     (if ctx \<noteq> None then (ctx, b)
      else case locate b ref of
        Inl e \<Rightarrow> (Some e, b)
      | Inr (path, _, _) \<Rightarrow>
        let dir = mailboxDir b (ref_Vhost ref) (ref_Mailbox ref);
            newName = ref_Key ref @ infoSep @ encodeFlags flags;
            newPath = path_join dir [dirCur, newName]
        in if path = newPath then (None, b)
           else case or_fault (io_rename (md_faults b)) (fs_Rename path newPath (md_fs b)) (md_fs b) of
               (Some e, f) \<Rightarrow> (Some (ErrWrap ''maildir: update flags'' e), b\<lparr>md_fs := f\<rparr>)
             | (None, f) \<Rightarrow> (None, b\<lparr>md_fs := f\<rparr>))"

definition Maildir_Delete :: "gerr option \<Rightarrow> message_ref \<Rightarrow> maildir \<Rightarrow> gerr option \<times> maildir" where
  "Maildir_Delete ctx ref b =
     (if ctx \<noteq> None then (ctx, b)
      else case locate b ref of
        Inl e \<Rightarrow> (Some e, b)
      | Inr (path, _, _) \<Rightarrow>
        (case or_fault (io_remove (md_faults b)) (fs_Remove path (md_fs b)) (md_fs b) of
           (Some e, f) \<Rightarrow> (Some (ErrWrap ''maildir: delete'' e), b\<lparr>md_fs := f\<rparr>)
         | (None, f) \<Rightarrow> (None, b\<lparr>md_fs := f\<rparr>)))"

definition Maildir_ops :: "maildir store_ops" where
  "Maildir_ops = \<lparr>s_Write = Maildir_Write, s_Read = Maildir_Read, s_List = Maildir_List,
     s_ListVhost = Maildir_ListVhost, s_UpdateFlags = Maildir_UpdateFlags, s_Delete = Maildir_Delete\<rparr>"

subsection \<open>Paths\<close>

definition plain :: "string \<Rightarrow> bool" where
  "plain c \<longleftrightarrow> c \<noteq> [] \<and> c \<noteq> ''.'' \<and> c \<noteq> ''..'' \<and> CHR ''/'' \<notin> set c"

lemma fold_push_plain:
  "\<forall>c \<in> set cs. plain c \<Longrightarrow> fold push_component (concat (map (go_split (CHR ''/'')) cs)) st = rev cs @ st"
  by (induction cs arbitrary: st) (auto simp: plain_def go_split_absent)

lemma path_join_plain [simp]: "\<forall>c \<in> set cs. plain c \<Longrightarrow> path_join p cs = p @ cs"
  by (simp add: path_join_def fold_push_plain)

lemma plain_subdirs [simp]: "plain dirNew" "plain dirCur" "plain dirTmp"
  by (simp_all add: plain_def dirNew_def dirCur_def dirTmp_def)

lemma subdirs_distinct [simp]:
  "dirNew \<noteq> dirCur" "dirNew \<noteq> dirTmp" "dirCur \<noteq> dirTmp" "dirCur \<noteq> dirNew" "dirTmp \<noteq> dirNew" "dirTmp \<noteq> dirCur"
  by (simp_all add: dirNew_def dirCur_def dirTmp_def)

lemma mailboxDir_plain:
  "plain vhost \<Longrightarrow> \<forall>c \<in> set (go_split (CHR ''/'') mbox). plain c \<Longrightarrow>
   mailboxDir b vhost mbox = md_base b @ vhost # go_split (CHR ''/'') mbox"
proof -
  assume v: "plain vhost" and m: "\<forall>c \<in> set (go_split (CHR ''/'') mbox). plain c"
  have "fold push_component (go_split (CHR ''/'') mbox) st = rev (go_split (CHR ''/'') mbox) @ st" for st
  proof -
    have "fold push_component cs st = rev cs @ st" if "\<forall>c \<in> set cs. plain c" for cs st
      using that by (induction cs arbitrary: st) (auto simp: plain_def)
    then show ?thesis using m by blast
  qed
  moreover have "go_split (CHR ''/'') vhost = [vhost]" using v by (simp add: plain_def go_split_absent)
  ultimately show ?thesis using v by (simp add: mailboxDir_def path_join_def plain_def)
qed

lemma digits_no_sep:
  "c \<in> set (nat_digits n) \<Longrightarrow> 48 \<le> (of_char c :: nat) \<and> (of_char c :: nat) \<le> 57"
proof (induction n rule: nat_digits.induct)
  case (1 n)
  have d: "48 \<le> (of_char (char_of (48 + k mod 10) :: char) :: nat)
      \<and> (of_char (char_of (48 + k mod 10) :: char) :: nat) \<le> 57" for k :: nat
  proof -
    have "48 + k mod 10 < (256 :: nat)" by (rule order_le_less_trans[of _ "48 + 9"]) simp_all
    then have "(of_char (char_of (48 + k mod 10) :: char) :: nat) = 48 + k mod 10"
      by (simp only: of_char_of take_bit_eq_mod) simp
    then show ?thesis by simp
  qed
  show ?case
  proof (cases "n < 10")
    case True
    then show ?thesis using "1.prems" d[of n] by (subst (asm) nat_digits.simps) simp
  next
    case False
    with "1.prems" have "c \<in> set (nat_digits (n div 10)) \<or> c = char_of (48 + n mod 10)"
      by (subst (asm) nat_digits.simps) auto
    then show ?thesis using "1.IH"[OF False] d[of n] by auto
  qed
qed

lemma itoa_no_sep: "CHR ''/'' \<notin> set (itoa i)" "CHR '':'' \<notin> set (itoa i)"
  using digits_no_sep[of "CHR ''/''"] digits_no_sep[of "CHR '':''"] by (auto simp: itoa_def)

lemma nat_digits_no_sep: "CHR ''/'' \<notin> set (nat_digits i)" "CHR '':'' \<notin> set (nat_digits i)"
  using digits_no_sep[of "CHR ''/''"] digits_no_sep[of "CHR '':''"] by auto

lemma plain_uniqueName: "CHR ''/'' \<notin> set (md_host b) \<Longrightarrow> plain (fst (uniqueName b))"
proof -
  assume "CHR ''/'' \<notin> set (md_host b)"
  then have "CHR ''/'' \<notin> set (fst (uniqueName b))"
    using itoa_no_sep nat_digits_no_sep by (auto simp: uniqueName_def Let_def)
  moreover have "CHR ''_'' \<in> set (fst (uniqueName b))" by (simp add: uniqueName_def Let_def)
  then have "fst (uniqueName b) \<notin> {[], ''.'', ''..''}" by auto
  ultimately show ?thesis by (simp add: plain_def)
qed

subsection \<open>Flags\<close>

lemma map_filter_mset_cong: "mset xs = mset ys \<Longrightarrow> mset (List.map_filter f xs) = mset (List.map_filter f ys)"
  by (simp add: List.map_filter_def mset_map mset_filter)

lemma letterToFlag_letters: "map_of maildirFlagLetters f = Some c \<Longrightarrow> letterToFlag c = Some f"
  by (auto simp: maildirFlagLetters_def letterToFlag_def split: if_splits)

lemma decode_letters:
  "List.map_filter letterToFlag (List.map_filter (map_of maildirFlagLetters) fs)
     = filter (\<lambda>f. map_of maildirFlagLetters f \<noteq> None) fs"
  by (induction fs) (auto simp: List.map_filter_def letterToFlag_letters split: option.splits)

lemma decode_encode_mset:
  "mset (decodeFlags (encodeFlags fs)) = mset (filter (\<lambda>f. map_of maildirFlagLetters f \<noteq> None) fs)"
proof -
  have "mset (decodeFlags (encodeFlags fs)) = mset (List.map_filter letterToFlag (encodeFlags fs))"
    by (simp add: decodeFlags_def List.map_filter_def)
  also have "\<dots> = mset (List.map_filter letterToFlag (List.map_filter (map_of maildirFlagLetters) fs))"
    by (rule map_filter_mset_cong) (simp add: encodeFlags_def)
  finally show ?thesis by (simp add: decode_letters)
qed

subsection \<open>Write\<close>

lemma fs_MkdirAll_files: "fs_files (snd (fs_MkdirAll p f)) = fs_files f"
  by (simp add: fs_MkdirAll_def)

lemma mkdirs_files: "mkdirs b dir subs f = (e, f') \<Longrightarrow> fs_files f' = fs_files f"
proof (induction subs arbitrary: f)
  case (Cons sub subs)
  obtain e1 f1 where 1: "or_fault (io_mkdir (md_faults b)) (fs_MkdirAll (path_join dir [sub]) f) f = (e1, f1)"
    by fastforce
  then have "fs_files f1 = fs_files f"
    using fs_MkdirAll_files[of "path_join dir [sub]" f] by (auto simp: or_fault_def split: option.splits)
  with Cons 1 show ?case by (auto split: option.splits)
qed simp

text \<open>Creating directories succeeds where no file is in the way, and adds only the ones named.\<close>

lemma mkdirs_ok:
  assumes "io_mkdir (md_faults b) = None" "\<forall>sub \<in> set subs. plain sub"
    "\<forall>sub \<in> set subs. \<forall>q \<in> set (prefixes (dir @ [sub])). map_of (fs_files f) q = None"
  shows "\<exists>f'. mkdirs b dir subs f = (None, f') \<and> fs_files f' = fs_files f
    \<and> set (fs_dirs f') = set (fs_dirs f) \<union> (\<Union>sub \<in> set subs. set (prefixes (dir @ [sub])))"
  using assms(2,3)
proof (induction subs arbitrary: f)
  case (Cons sub subs)
  let ?f1 = "f\<lparr>fs_dirs := fs_dirs f @ filter (\<lambda>q. q \<notin> set (fs_dirs f)) (prefixes (dir @ [sub]))\<rparr>"
  have 1: "fs_MkdirAll (path_join dir [sub]) f = (None, ?f1)"
    using Cons.prems by (auto simp: fs_MkdirAll_def)
  have "\<forall>s \<in> set subs. \<forall>q \<in> set (prefixes (dir @ [s])). map_of (fs_files ?f1) q = None"
    using Cons.prems by simp
  from Cons.IH[OF _ this] Cons.prems(1) obtain f' where
    "mkdirs b dir subs ?f1 = (None, f')" "fs_files f' = fs_files f"
    "set (fs_dirs f') = set (fs_dirs ?f1) \<union> (\<Union>s \<in> set subs. set (prefixes (dir @ [s])))" by auto
  with 1 assms(1) show ?case by (auto simp: or_fault_def)
qed simp

lemma cleanup_files:
  assumes "p \<noteq> tmp"
  shows "map_of (fs_files (cleanup flt tmp f)) p = map_of (fs_files f) p"
  using assms by (auto simp: cleanup_def or_fault_def fs_Remove_def split: option.splits)

lemma fs_CreateExcl_files:
  "fs_CreateExcl t now f = (e, f') \<Longrightarrow> p \<noteq> t \<Longrightarrow> map_of (fs_files f') p = map_of (fs_files f) p"
  by (auto simp: fs_CreateExcl_def split: if_splits)

lemma fs_Rename_err: "fs_Rename p q f = (Some e, f') \<Longrightarrow> f' = f"
  by (auto simp: fs_Rename_def split: option.splits if_splits)

text \<open>Whatever fails, a write that returns an error has touched no file but its temporary one.\<close>

lemma Write_error_files:
  assumes "Maildir_Write ctx vhost mbox body b = (Inl e, b')"
    and "p \<noteq> path_join (mailboxDir b vhost mbox) [dirTmp, fst (uniqueName b)]"
  shows "map_of (fs_files (md_fs b')) p = map_of (fs_files (md_fs b)) p"
proof (cases "ctx = None")
  case True
  obtain name b1 where u: "uniqueName b = (name, b1)" by fastforce
  obtain r f0 where m: "mkdirs b (mailboxDir b vhost mbox) [dirNew, dirCur, dirTmp] (md_fs b) = (r, f0)" by fastforce
  have f0: "fs_files f0 = fs_files (md_fs b)" by (rule mkdirs_files[OF m])
  let ?t = "path_join (mailboxDir b vhost mbox) [dirTmp, name]"
  let ?n = "path_join (mailboxDir b vhost mbox) [dirNew, name]"
  obtain e1 f1 where c: "or_fault (io_open (md_faults b)) (fs_CreateExcl ?t (md_clock b) f0) f0 = (e1, f1)" by fastforce
  have p: "p \<noteq> ?t" using assms(2) u by simp
  then have f1: "map_of (fs_files f1) p = map_of (fs_files f0) p"
    using c fs_CreateExcl_files[of ?t "md_clock b" f0] by (auto simp: or_fault_def split: option.splits)
  let ?f2 = "f1\<lparr>fs_files := AList.update ?t (body, md_clock b) (fs_files f1)\<rparr>"
  have f2: "map_of (fs_files ?f2) p = map_of (fs_files (md_fs b)) p" using f1 f0 p by simp
  obtain e3 f3 where rn: "or_fault (io_rename (md_faults b)) (fs_Rename ?t ?n ?f2) ?f2 = (e3, f3)" by fastforce
  have "f3 = ?f2" if "e3 \<noteq> None"
    using rn that fs_Rename_err[of ?t ?n ?f2] by (auto simp: or_fault_def split: option.splits)
  then show ?thesis
    using assms(1) True m u c f0 f1 f2 rn cleanup_files[OF p]
    by (auto simp: Maildir_Write_def ensureMailboxDirs_def Let_def split: option.splits)
next
  case False
  then show ?thesis using assms(1) by (simp add: Maildir_Write_def)
qed

lemma Write_ok:
  fixes vhost mbox and b :: maildir
  defines "dir \<equiv> mailboxDir b vhost mbox" and "name \<equiv> fst (uniqueName b)"
  assumes "md_faults b = no_faults" "CHR ''/'' \<notin> set (md_host b)"
    and clear: "\<forall>sub \<in> {dirNew, dirCur, dirTmp}. \<forall>q \<in> set (prefixes (dir @ [sub])). map_of (fs_files (md_fs b)) q = None"
    and fresh: "\<not> fs_exists (md_fs b) (dir @ [dirTmp, name])" "\<not> fs_exists (md_fs b) (dir @ [dirNew, name])"
  shows "\<exists>b'. Maildir_Write None vhost mbox body b
        = (Inr \<lparr>ref_Vhost = vhost, ref_Mailbox = mbox, ref_Key = name\<rparr>, b')
    \<and> md_base b' = md_base b \<and> md_faults b' = md_faults b
    \<and> (\<forall>p. map_of (fs_files (md_fs b')) p =
         (if p = dir @ [dirNew, name] then Some (body, md_clock b) else map_of (fs_files (md_fs b)) p))"
proof -
  obtain f0 where f0: "mkdirs b dir [dirNew, dirCur, dirTmp] (md_fs b) = (None, f0)"
    "fs_files f0 = fs_files (md_fs b)"
    "set (fs_dirs f0) = set (fs_dirs (md_fs b)) \<union> (\<Union>sub \<in> {dirNew, dirCur, dirTmp}. set (prefixes (dir @ [sub])))"
    using mkdirs_ok[of b "[dirNew, dirCur, dirTmp]" dir "md_fs b"] assms(3) clear by (auto simp: no_faults_def)
  have plain: "plain name" using assms(4) plain_uniqueName by (simp add: name_def)
  have notdir: "dir @ [s, name] \<notin> set (fs_dirs f0)" if "dir @ [s, name] \<notin> set (fs_dirs (md_fs b))" for s
    using f0(3) that by (auto simp: prefix_def)
  have dirs: "dir @ [dirTmp] \<in> set (fs_dirs f0)" "dir @ [dirNew] \<in> set (fs_dirs f0)" using f0(3) by auto
  have t: "map_of (fs_files (md_fs b)) (dir @ [dirTmp, name]) = None"
    "dir @ [dirTmp, name] \<notin> set (fs_dirs f0)" "dir @ [dirNew, name] \<notin> set (fs_dirs f0)"
    using fresh notdir unfolding fs_exists_def by blast+
  obtain b1 where u: "uniqueName b = (name, b1)" "md_base b1 = md_base b" "md_faults b1 = md_faults b"
    by (simp add: uniqueName_def name_def Let_def)
  let ?f1 = "f0\<lparr>fs_files := AList.update (dir @ [dirTmp, name]) ([], md_clock b) (fs_files f0)\<rparr>"
  let ?f2 = "?f1\<lparr>fs_files := AList.update (dir @ [dirTmp, name]) (body, md_clock b) (fs_files ?f1)\<rparr>"
  let ?f3 = "?f2\<lparr>fs_files := AList.update (dir @ [dirNew, name]) (body, md_clock b)
    (AList.delete (dir @ [dirTmp, name]) (fs_files ?f2))\<rparr>"
  have c: "fs_CreateExcl (dir @ [dirTmp, name]) (md_clock b) f0 = (None, ?f1)"
    using t dirs f0(2) by (simp add: fs_CreateExcl_def fs_exists_def butlast_append)
  have r: "fs_Rename (dir @ [dirTmp, name]) (dir @ [dirNew, name]) ?f2 = (None, ?f3)"
    using t dirs by (simp add: fs_Rename_def butlast_append)
  have "Maildir_Write None vhost mbox body b
      = (Inr \<lparr>ref_Vhost = vhost, ref_Mailbox = mbox, ref_Key = name\<rparr>, b1\<lparr>md_fs := ?f3\<rparr>)"
    using f0(1) u(1) c r plain assms(3)
    by (simp add: Maildir_Write_def ensureMailboxDirs_def or_fault_def no_faults_def Let_def flip: dir_def)
  moreover have "map_of (fs_files ?f3) p = (if p = dir @ [dirNew, name] then Some (body, md_clock b)
      else map_of (fs_files (md_fs b)) p)" for p
    using f0(2) t(1) by auto
  ultimately show ?thesis using u by auto
qed

subsection \<open>Lookup\<close>

lemma go_cut_infoSep: "CHR '':'' \<notin> set k \<Longrightarrow> go_cut infoSep (k @ infoSep @ r) = (k, r, True)"
  by (induction k) (auto simp: infoSep_def prefix_Cons)

lemma go_cut_infoSep_none: "CHR '':'' \<notin> set k \<Longrightarrow> go_cut infoSep k = (k, [], False)"
  by (induction k) (auto simp: infoSep_def prefix_Cons)

lemma last_children: "last ` {q \<in> S. q \<noteq> [] \<and> butlast q = p} = {n. p @ [n] \<in> S}"
proof (intro equalityI subsetI)
  fix n assume "n \<in> {n. p @ [n] \<in> S}"
  then show "n \<in> last ` {q \<in> S. q \<noteq> [] \<and> butlast q = p}" by (intro image_eqI[of _ _ "p @ [n]"]) auto
next
  fix n assume "n \<in> last ` {q \<in> S. q \<noteq> [] \<and> butlast q = p}"
  then obtain q where "q \<in> S" "q \<noteq> []" "butlast q = p" "n = last q" by auto
  then show "n \<in> {n. p @ [n] \<in> S}" by (metis append_butlast_last_id mem_Collect_eq)
qed

lemma fs_exists_set: "fs_exists f p \<longleftrightarrow> p \<in> set (fs_dirs f @ map fst (fs_files f))"
  by (simp add: fs_exists_def map_of_eq_None_iff)

lemma set_ReadDir:
  assumes "fs_ReadDir p f = Inr es"
  shows "fst ` set es = {n. fs_exists f (p @ [n])}"
proof -
  let ?xs = "fs_dirs f @ map fst (fs_files f)"
  have "es = map (\<lambda>n. (n, p @ [n] \<in> set (fs_dirs f)))
      (sort (remdups (map last (filter (\<lambda>q. q \<noteq> [] \<and> butlast q = p) ?xs))))"
    using assms by (auto simp: fs_ReadDir_def split: if_splits)
  then have "fst ` set es = set (map last (filter (\<lambda>q. q \<noteq> [] \<and> butlast q = p) ?xs))"
    by (simp only: set_map set_sort set_remdups image_image fst_conv image_ident)
  also have "\<dots> = last ` {q \<in> set ?xs. q \<noteq> [] \<and> butlast q = p}" by (simp only: set_map set_filter)
  finally show ?thesis by (simp only: last_children fs_exists_set)
qed

definition base_of :: "string \<Rightarrow> string" where
  "base_of n = fst (go_cut infoSep n)"

lemma locate_cur_unique:
  assumes "n \<in> fst ` set es" "base_of n = key" "\<forall>n' \<in> fst ` set es. base_of n' = key \<longrightarrow> n' = n"
  shows "locate_cur dir key es = Some (path_join dir [dirCur, n],
    if snd (snd (go_cut infoSep n)) then decodeFlags (fst (snd (go_cut infoSep n))) else [], False)"
  using assms
proof (induction es)
  case (Cons e es)
  obtain m d where e: "e = (m, d)" by fastforce
  show ?case
  proof (cases "base_of m = key")
    case True
    then have "m = n" using Cons.prems(3) e by simp
    then show ?thesis using True e by (auto simp: base_of_def split: prod.splits)
  next
    case False
    then have "n \<in> fst ` set es" using Cons.prems(1,2) e by auto
    then show ?thesis using False e Cons.IH Cons.prems by (auto simp: base_of_def split: prod.splits)
  qed
qed simp

lemma locate_cur_none:
  "\<forall>n \<in> fst ` set es. base_of n \<noteq> key \<Longrightarrow> locate_cur dir key es = None"
  by (induction dir key es rule: locate_cur.induct) (auto simp: base_of_def split: prod.splits)

text \<open>
  A message is filed under a key when exactly one file of \<open>new/\<close> or \<open>cur/\<close> carries it: in \<open>new/\<close>
  the file named by the key, in \<open>cur/\<close> the one file whose name before the info suffix is the key.
\<close>

definition filed_new :: "maildir \<Rightarrow> path \<Rightarrow> string \<Rightarrow> bytes \<Rightarrow> time \<Rightarrow> bool" where
  "filed_new b dir key body t \<longleftrightarrow> map_of (fs_files (md_fs b)) (dir @ [dirNew, key]) = Some (body, t)
     \<and> (\<forall>n. fs_exists (md_fs b) (dir @ [dirCur, n]) \<longrightarrow> base_of n \<noteq> key)
     \<and> dir @ [dirCur] \<in> set (fs_dirs (md_fs b))"

definition filed_cur :: "maildir \<Rightarrow> path \<Rightarrow> string \<Rightarrow> string \<Rightarrow> bytes \<Rightarrow> time \<Rightarrow> bool" where
  "filed_cur b dir key info body t \<longleftrightarrow> \<not> fs_exists (md_fs b) (dir @ [dirNew, key])
     \<and> map_of (fs_files (md_fs b)) (dir @ [dirCur, key @ infoSep @ info]) = Some (body, t)
     \<and> (\<forall>n. fs_exists (md_fs b) (dir @ [dirCur, n]) \<longrightarrow> base_of n = key \<longrightarrow> n = key @ infoSep @ info)
     \<and> dir @ [dirCur] \<in> set (fs_dirs (md_fs b))"

definition key_ok :: "string \<Rightarrow> bool" where
  "key_ok k \<longleftrightarrow> plain k \<and> CHR '':'' \<notin> set k"

lemma letters_in: "c \<in> set (encodeFlags fs) \<Longrightarrow> c \<in> snd ` set maildirFlagLetters"
proof -
  assume "c \<in> set (encodeFlags fs)"
  then obtain f where "map_of maildirFlagLetters f = Some c"
    by (auto simp: encodeFlags_def List.map_filter_def)
  then show ?thesis by (force dest: map_of_SomeD)
qed

lemma letters_no_slash: "CHR ''/'' \<notin> set (encodeFlags fs)"
  using letters_in[of "CHR ''/''" fs] by (auto simp: maildirFlagLetters_def)

lemma plain_info: "key_ok k \<Longrightarrow> CHR ''/'' \<notin> set info \<Longrightarrow> plain (k @ infoSep @ info)"
proof -
  assume k: "key_ok k" "CHR ''/'' \<notin> set info"
  have "3 \<le> length (k @ infoSep @ info)" by (simp add: infoSep_def)
  then have "k @ infoSep @ info \<noteq> []" "k @ infoSep @ info \<noteq> ''.''" "k @ infoSep @ info \<noteq> ''..''"
    by fastforce+
  moreover have "CHR ''/'' \<notin> set (k @ infoSep @ info)" using k by (auto simp: key_ok_def plain_def infoSep_def)
  ultimately show ?thesis by (simp only: plain_def simp_thms not_False_eq_True)
qed

lemma base_of_info: "key_ok k \<Longrightarrow> base_of (k @ infoSep @ info) = k"
  by (simp add: base_of_def key_ok_def go_cut_infoSep)

lemma locate_filed_new:
  assumes "dir = mailboxDir b (ref_Vhost ref) (ref_Mailbox ref)" "key_ok (ref_Key ref)"
    "filed_new b dir (ref_Key ref) body t"
  shows "locate b ref = Inr (dir @ [dirNew, ref_Key ref], [], True)"
  using assms by (simp add: locate_def filed_new_def fs_exists_def key_ok_def Let_def)

lemma locate_filed_cur:
  assumes "dir = mailboxDir b (ref_Vhost ref) (ref_Mailbox ref)" "key_ok (ref_Key ref)"
    "filed_cur b dir (ref_Key ref) info body t" "md_faults b = no_faults" "CHR ''/'' \<notin> set info"
  shows "locate b ref = Inr (dir @ [dirCur, ref_Key ref @ infoSep @ info], decodeFlags info, False)"
proof -
  let ?n = "ref_Key ref @ infoSep @ info"
  obtain es where es: "fs_ReadDir (dir @ [dirCur]) (md_fs b) = Inr es"
    using assms(3) by (simp add: fs_ReadDir_def filed_cur_def)
  note set_ReadDir[OF es]
  then have "?n \<in> fst ` set es" "\<forall>n' \<in> fst ` set es. base_of n' = ref_Key ref \<longrightarrow> n' = ?n"
    using assms(3) by (auto simp: filed_cur_def fs_exists_def)
  from locate_cur_unique[OF this(1) base_of_info[OF assms(2)] this(2), of dir]
  have "locate_cur dir (ref_Key ref) es = Some (dir @ [dirCur, ?n], decodeFlags info, False)"
    using plain_info[OF assms(2,5)] assms(2) by (simp add: go_cut_infoSep key_ok_def)
  then show ?thesis
    using assms es by (simp add: locate_def read_dir_def no_faults_def filed_cur_def key_ok_def Let_def)
qed

lemma Read_located:
  "locate b ref = Inr (p, fl, nw) \<Longrightarrow> map_of (fs_files (md_fs b)) p = Some (body, t) \<Longrightarrow>
   Maildir_Read None ref b = Inr body"
  by (simp add: Maildir_Read_def)

text \<open>The file of a message moves to \<open>cur/\<close> under its new name, and nothing else changes.\<close>

lemma UpdateFlags_moves:
  fixes b :: maildir and ref :: message_ref and flags :: "string list"
  defines "dir \<equiv> mailboxDir b (ref_Vhost ref) (ref_Mailbox ref)"
    and "n \<equiv> ref_Key ref @ infoSep @ encodeFlags flags"
  assumes loc: "locate b ref = Inr (p, fl, nw)" and stored: "map_of (fs_files (md_fs b)) p = Some (body, t)"
    and quiet: "md_faults b = no_faults" and key: "key_ok (ref_Key ref)"
    and cur: "dir @ [dirCur] \<in> set (fs_dirs (md_fs b))" "dir @ [dirCur, n] \<notin> set (fs_dirs (md_fs b))"
  shows "\<exists>b'. Maildir_UpdateFlags None ref flags b = (None, b') \<and> md_base b' = md_base b \<and> md_faults b' = md_faults b
    \<and> fs_dirs (md_fs b') = fs_dirs (md_fs b)
    \<and> (\<forall>q. map_of (fs_files (md_fs b')) q = (if q = dir @ [dirCur, n] then Some (body, t)
          else if q = p then None else map_of (fs_files (md_fs b)) q))"
proof -
  have n: "path_join dir [dirCur, n] = dir @ [dirCur, n]"
    using plain_info[OF key letters_no_slash] by (simp add: n_def)
  show ?thesis
  proof (cases "p = dir @ [dirCur, n]")
    case True
    then show ?thesis using loc stored n
      by (auto simp: Maildir_UpdateFlags_def Let_def simp flip: dir_def n_def)
  next
    case False
    let ?f = "(md_fs b)\<lparr>fs_files := AList.update (dir @ [dirCur, n]) (body, t) (AList.delete p (fs_files (md_fs b)))\<rparr>"
    have "fs_Rename p (dir @ [dirCur, n]) (md_fs b) = (None, ?f)"
      using stored cur by (simp add: fs_Rename_def butlast_append)
    then have "Maildir_UpdateFlags None ref flags b = (None, b\<lparr>md_fs := ?f\<rparr>)"
      using loc n False quiet
      by (simp add: Maildir_UpdateFlags_def or_fault_def no_faults_def Let_def flip: dir_def n_def)
    then show ?thesis by auto
  qed
qed

lemma UpdateFlags_filed:
  fixes b :: maildir and ref :: message_ref and flags :: "string list"
  defines "dir \<equiv> mailboxDir b (ref_Vhost ref) (ref_Mailbox ref)"
  assumes filed: "filed_new b dir (ref_Key ref) body t \<or>
      (\<exists>info. CHR ''/'' \<notin> set info \<and> filed_cur b dir (ref_Key ref) info body t)"
    and quiet: "md_faults b = no_faults" and key: "key_ok (ref_Key ref)"
    and nodir: "\<forall>s n. dir @ [s, n] \<notin> set (fs_dirs (md_fs b))"
  shows "\<exists>b'. Maildir_UpdateFlags None ref flags b = (None, b') \<and> md_base b' = md_base b \<and> md_faults b' = md_faults b
    \<and> filed_cur b' dir (ref_Key ref) (encodeFlags flags) body t"
proof -
  let ?n = "ref_Key ref @ infoSep @ encodeFlags flags"
  obtain p fl nw where loc: "locate b ref = Inr (p, fl, nw)" and stored: "map_of (fs_files (md_fs b)) p = Some (body, t)"
    and p: "p = dir @ [dirNew, ref_Key ref] \<and> (\<forall>n. fs_exists (md_fs b) (dir @ [dirCur, n]) \<longrightarrow> base_of n \<noteq> ref_Key ref)
      \<or> \<not> fs_exists (md_fs b) (dir @ [dirNew, ref_Key ref])
        \<and> (\<exists>i. p = dir @ [dirCur, i] \<and> (\<forall>n. fs_exists (md_fs b) (dir @ [dirCur, n]) \<longrightarrow> base_of n = ref_Key ref \<longrightarrow> n = i))"
    using filed
  proof
    assume "filed_new b dir (ref_Key ref) body t"
    with locate_filed_new[OF _ key this] show ?thesis by (auto simp: dir_def filed_new_def intro: that)
  next
    assume "\<exists>info. CHR ''/'' \<notin> set info \<and> filed_cur b dir (ref_Key ref) info body t"
    then obtain info where i: "CHR ''/'' \<notin> set info" "filed_cur b dir (ref_Key ref) info body t" by blast
    from locate_filed_cur[OF _ key i(2) quiet i(1)] i(2) show ?thesis
      by (intro that[of "dir @ [dirCur, ref_Key ref @ infoSep @ info]" "decodeFlags info" False])
        (auto simp: dir_def filed_cur_def)
  qed
  have cur: "dir @ [dirCur] \<in> set (fs_dirs (md_fs b))" using filed by (auto simp: filed_new_def filed_cur_def)
  obtain b' where b': "Maildir_UpdateFlags None ref flags b = (None, b')" "md_base b' = md_base b"
    "md_faults b' = md_faults b" "fs_dirs (md_fs b') = fs_dirs (md_fs b)"
    "\<And>q. map_of (fs_files (md_fs b')) q = (if q = dir @ [dirCur, ?n] then Some (body, t)
          else if q = p then None else map_of (fs_files (md_fs b)) q)"
    using UpdateFlags_moves[OF loc stored quiet key, of flags, folded dir_def, OF cur] nodir by blast
  have ex: "fs_exists (md_fs b') (dir @ [s, n]) \<longleftrightarrow> s = dirCur \<and> n = ?n
      \<or> dir @ [s, n] \<noteq> p \<and> fs_exists (md_fs b) (dir @ [s, n])" for s n
    using nodir by (auto simp: fs_exists_def b'(4,5))
  have "filed_cur b' dir (ref_Key ref) (encodeFlags flags) body t"
    unfolding filed_cur_def using p ex cur b'(4,5) by auto
  then show ?thesis using b' by blast
qed

subsection \<open>Properties\<close>

definition demo_md :: maildir where
  "demo_md = \<lparr>md_base = [''var'', ''mail''], md_fs = \<lparr>fs_dirs = [[], [''var''], [''var'', ''mail'']], fs_files = []\<rparr>,
     md_seq = 0, md_pid = 7, md_host = ''h'', md_clock = 42, md_faults = no_faults\<rparr>"

text \<open>
  A maildir write delivers: when no system call fails, no file blocks the mailbox directories
  and the generated name is new, \<open>Write\<close> succeeds, a \<open>Read\<close> of the returned reference gives the
  body back, the only file that appears is the one in \<open>new/\<close>, stamped with the time of the write,
  and every other file, in every mailbox of every vhost, is as before; the temporary file is gone.
\<close>

theorem Maildir_Write_delivers:
  assumes "md_faults b = no_faults" "CHR ''/'' \<notin> set (md_host b)"
    "\<forall>sub \<in> {dirNew, dirCur, dirTmp}. \<forall>q \<in> set (prefixes (mailboxDir b vhost mbox @ [sub])).
       map_of (fs_files (md_fs b)) q = None"
    "\<not> fs_exists (md_fs b) (mailboxDir b vhost mbox @ [dirTmp, fst (uniqueName b)])"
    "\<not> fs_exists (md_fs b) (mailboxDir b vhost mbox @ [dirNew, fst (uniqueName b)])"
  shows "\<exists>ref b'. Maildir_Write None vhost mbox body b = (Inr ref, b')
    \<and> ref_Vhost ref = vhost \<and> ref_Mailbox ref = mbox \<and> Maildir_Read None ref b' = Inr body
    \<and> (\<forall>p. map_of (fs_files (md_fs b')) p =
         (if p = mailboxDir b vhost mbox @ [dirNew, ref_Key ref] then Some (body, md_clock b)
          else map_of (fs_files (md_fs b)) p))"
proof -
  let ?ref = "\<lparr>ref_Vhost = vhost, ref_Mailbox = mbox, ref_Key = fst (uniqueName b)\<rparr>"
  obtain b' where b': "Maildir_Write None vhost mbox body b = (Inr ?ref, b')" "md_base b' = md_base b"
    "\<And>p. map_of (fs_files (md_fs b')) p = (if p = mailboxDir b vhost mbox @ [dirNew, fst (uniqueName b)]
        then Some (body, md_clock b) else map_of (fs_files (md_fs b)) p)"
    using Write_ok[OF assms(1,2), of vhost mbox body] assms(3-5) by blast
  have d: "mailboxDir b' vhost mbox = mailboxDir b vhost mbox" using b'(2) by (simp add: mailboxDir_def)
  have "locate b' ?ref = Inr (mailboxDir b vhost mbox @ [dirNew, fst (uniqueName b)], [], True)"
    using plain_uniqueName[OF assms(2)] b'(3) by (simp add: locate_def d fs_exists_def Let_def)
  from Read_located[OF this] b' show ?thesis by auto
qed

theorem Maildir_Write_delivers_witness:
  "\<exists>ref b'. Maildir_Write None ''a.test'' ''alice/INBOX'' ''hello'' demo_md = (Inr ref, b')
     \<and> Maildir_Read None ref b' = Inr ''hello''"
proof -
  have h: "md_faults demo_md = no_faults" "CHR ''/'' \<notin> set (md_host demo_md)" "fs_files (md_fs demo_md) = []"
    "set (fs_dirs (md_fs demo_md)) = {[], [''var''], [''var'', ''mail'']}" "length (md_base demo_md) = 2"
    by (simp_all add: demo_md_def)
  have m: "mailboxDir demo_md ''a.test'' ''alice/INBOX'' = [''var'', ''mail'', ''a.test'', ''alice'', ''INBOX'']"
    by (simp add: mailboxDir_def path_join_def demo_md_def)
  show ?thesis
    using Maildir_Write_delivers[OF h(1,2), of "''a.test''" "''alice/INBOX''" "''hello''"] h
    by (auto simp: m fs_exists_def)
qed

text \<open>
  C35: A failed maildir write leaves nothing a reader can see: whichever system call fails, the
  clean-up included, and in every state, if \<open>Write\<close> returns an error then every file except its own
  temporary one under \<open>tmp/\<close> has the contents it had before.
\<close>

theorem Maildir_Write_atomic:
  assumes "Maildir_Write ctx vhost mbox body b = (Inl e, b')"
  shows "\<forall>p. p \<noteq> path_join (mailboxDir b vhost mbox) [dirTmp, fst (uniqueName b)] \<longrightarrow>
    map_of (fs_files (md_fs b')) p = map_of (fs_files (md_fs b)) p"
  using Write_error_files[OF assms] by blast

theorem Maildir_Write_atomic_witness:
  "\<exists>e b'. Maildir_Write None ''v'' ''m'' ''x'' (demo_md\<lparr>md_faults := no_faults\<lparr>io_sync := Some (ErrNew ''EIO'')\<rparr>\<rparr>) = (Inl e, b')
     \<and> map_of (fs_files (md_fs b')) [''var'', ''mail'', ''v'', ''m'', ''new'', ''k''] = None"
proof -
  let ?b = "demo_md\<lparr>md_faults := no_faults\<lparr>io_sync := Some (ErrNew ''EIO'')\<rparr>\<rparr>"
  let ?n = "fst (uniqueName ?b)"
  have m: "mailboxDir ?b ''v'' ''m'' = [''var'', ''mail'', ''v'', ''m'']"
    by (simp add: mailboxDir_def path_join_def demo_md_def)
  have p: "plain ?n" by (rule plain_uniqueName) (simp add: demo_md_def)
  obtain f0 where f0: "mkdirs ?b [''var'', ''mail'', ''v'', ''m''] [dirNew, dirCur, dirTmp] (md_fs ?b) = (None, f0)"
    using mkdirs_ok[of ?b "[dirNew, dirCur, dirTmp]" "[''var'', ''mail'', ''v'', ''m'']" "md_fs ?b"]
    by (auto simp: demo_md_def no_faults_def)
  obtain r b' where w: "Maildir_Write None ''v'' ''m'' ''x'' ?b = (r, b')" by fastforce
  have "isl r" using w f0 m
    by (cases "uniqueName ?b")
      (auto simp: Maildir_Write_def ensureMailboxDirs_def no_faults_def Let_def split: prod.splits option.splits)
  then obtain e where "r = Inl e" by (auto simp: isl_def)
  moreover have "path_join [''var'', ''mail'', ''v'', ''m''] [dirTmp, ?n] \<noteq> [''var'', ''mail'', ''v'', ''m'', ''new'', ''k'']"
    using p by (simp add: dirTmp_def plain_def path_join_def go_split_absent)
  ultimately show ?thesis using w Maildir_Write_atomic[of None "''v''" "''m''" "''x''" ?b e b'] m
    by (auto simp: demo_md_def)
qed

text \<open>
  Flags survive: after \<open>UpdateFlags\<close> on a filed message, whether it was still in \<open>new/\<close> or
  already in \<open>cur/\<close>, the call has succeeded, the message is filed exactly once, in \<open>cur/\<close>, with the
  same body and delivery time; a lookup reports each of the five IMAP flags exactly as often as
  the caller gave it, and drops every flag maildir has no letter for.
\<close>

theorem Maildir_UpdateFlags_roundtrip:
  assumes "filed_new b (mailboxDir b (ref_Vhost ref) (ref_Mailbox ref)) (ref_Key ref) body t
      \<or> (\<exists>info. CHR ''/'' \<notin> set info
           \<and> filed_cur b (mailboxDir b (ref_Vhost ref) (ref_Mailbox ref)) (ref_Key ref) info body t)"
    "md_faults b = no_faults" "key_ok (ref_Key ref)"
    "\<forall>s n. mailboxDir b (ref_Vhost ref) (ref_Mailbox ref) @ [s, n] \<notin> set (fs_dirs (md_fs b))"
  shows "\<exists>b' p fl. Maildir_UpdateFlags None ref flags b = (None, b')
    \<and> filed_cur b' (mailboxDir b (ref_Vhost ref) (ref_Mailbox ref)) (ref_Key ref) (encodeFlags flags) body t
    \<and> locate b' ref = Inr (p, fl, False) \<and> Maildir_Read None ref b' = Inr body
    \<and> mset fl = filter_mset (\<lambda>f. f \<in> {FlagSeen, FlagAnswered, FlagFlagged, FlagDeleted, FlagDraft}) (mset flags)"
proof -
  obtain b' where b': "Maildir_UpdateFlags None ref flags b = (None, b')" "md_base b' = md_base b"
    "md_faults b' = md_faults b"
    "filed_cur b' (mailboxDir b (ref_Vhost ref) (ref_Mailbox ref)) (ref_Key ref) (encodeFlags flags) body t"
    using UpdateFlags_filed[OF assms] by blast
  have d: "mailboxDir b (ref_Vhost ref) (ref_Mailbox ref) = mailboxDir b' (ref_Vhost ref) (ref_Mailbox ref)"
    using b'(2) by (simp add: mailboxDir_def)
  have loc: "locate b' ref = Inr (mailboxDir b (ref_Vhost ref) (ref_Mailbox ref)
      @ [dirCur, ref_Key ref @ infoSep @ encodeFlags flags], decodeFlags (encodeFlags flags), False)"
    using locate_filed_cur[OF d assms(3) b'(4)] b'(3) assms(2) letters_no_slash by simp
  have "Maildir_Read None ref b' = Inr body" using Read_located[OF loc] b'(4) by (auto simp: filed_cur_def)
  moreover have "(\<lambda>f. map_of maildirFlagLetters f \<noteq> None)
      = (\<lambda>f. f \<in> {FlagSeen, FlagAnswered, FlagFlagged, FlagDeleted, FlagDraft})"
    by (auto simp: maildirFlagLetters_def)
  then have "mset (decodeFlags (encodeFlags flags))
      = filter_mset (\<lambda>f. f \<in> {FlagSeen, FlagAnswered, FlagFlagged, FlagDeleted, FlagDraft}) (mset flags)"
    by (simp only: decode_encode_mset mset_filter)
  ultimately show ?thesis using b'(1,4) loc by blast
qed

definition demo_md2 :: maildir where
  "demo_md2 = demo_md\<lparr>md_fs := \<lparr>fs_dirs = [[''var'', ''mail'', ''v'', ''m'', ''cur'']],
     fs_files = [([''var'', ''mail'', ''v'', ''m'', ''new'', ''k''], (''hi'', 3))]\<rparr>\<rparr>"

theorem Maildir_UpdateFlags_roundtrip_witness:
  "\<exists>b'. Maildir_UpdateFlags None \<lparr>ref_Vhost = ''v'', ref_Mailbox = ''m'', ref_Key = ''k''\<rparr> [FlagSeen] demo_md2 = (None, b')
     \<and> Maildir_Read None \<lparr>ref_Vhost = ''v'', ref_Mailbox = ''m'', ref_Key = ''k''\<rparr> b' = Inr ''hi''"
proof -
  let ?r = "\<lparr>ref_Vhost = ''v'', ref_Mailbox = ''m'', ref_Key = ''k''\<rparr>"
  have m: "mailboxDir demo_md2 ''v'' ''m'' = [''var'', ''mail'', ''v'', ''m'']"
    by (simp add: mailboxDir_def path_join_def demo_md_def demo_md2_def)
  have "filed_new demo_md2 (mailboxDir demo_md2 (ref_Vhost ?r) (ref_Mailbox ?r)) (ref_Key ?r) ''hi'' 3"
    by (simp add: filed_new_def m fs_exists_def) (simp add: demo_md2_def dirNew_def dirCur_def)
  moreover have "md_faults demo_md2 = no_faults" "key_ok (ref_Key ?r)"
    by (simp_all add: demo_md2_def demo_md_def key_ok_def plain_def)
  moreover have "\<forall>s n. mailboxDir demo_md2 (ref_Vhost ?r) (ref_Mailbox ?r) @ [s, n] \<notin> set (fs_dirs (md_fs demo_md2))"
    by (simp add: m) (simp add: demo_md2_def)
  ultimately show ?thesis using Maildir_UpdateFlags_roundtrip[of demo_md2 ?r "''hi''" 3 "[FlagSeen]"] by blast
qed

text \<open>
  A local part can leave its vhost: for a vhost with an ordinary name, the maildir directory
  of the mailbox of a local part \<open>../other/user\<close> in that vhost is the directory of \<open>user\<close> in the
  vhost \<open>other\<close>, because \<open>mailboxDir\<close> joins the caller's strings and cleans the result.
\<close>

theorem mailboxDir_escapes_vhost:
  assumes "plain vhost"
  shows "mailboxDir b vhost (''../'' @ other @ ''/'' @ user @ ''/'' @ folder)
    = mailboxDir b other (user @ ''/'' @ folder)"
proof -
  have s: "go_split (CHR ''/'') (x @ CHR ''/'' # y) = go_split (CHR ''/'') x @ go_split (CHR ''/'') y" for x y
  proof (induction x)
    case (Cons c x)
    then show ?case by (cases "go_split (CHR ''/'') x") auto
  qed simp
  have "go_split (CHR ''/'') vhost = [vhost]" using assms by (simp add: plain_def go_split_absent)
  then show ?thesis using assms by (simp add: mailboxDir_def path_join_def plain_def s)
qed

theorem mailboxDir_escapes_vhost_witness:
  "mailboxDir demo_md ''a.test'' (''../'' @ ''b.test'' @ ''/'' @ ''bob'' @ ''/'' @ ''INBOX'')
     = mailboxDir demo_md ''b.test'' (''bob'' @ ''/'' @ ''INBOX'')"
  by (rule mailboxDir_escapes_vhost) (simp add: plain_def)

end
