(* ===== verification/Maildir_Store.thy ===== *)
theory Maildir_Store
  imports Maildir
begin

section \<open>The maildir backend keeps the contract of a store\<close>

text \<open>
  The names \<open>uniqueName\<close> draws are distinct as long as the 64-bit sequence number of the process
  does not wrap, so writes never overwrite a delivered message, and \<open>Maildir_ops\<close> is a
  \<open>message_store\<close>.
\<close>

subsection \<open>Decimal numerals are injective\<close>

fun digits_value :: "string \<Rightarrow> nat" where
  "digits_value s = foldl (\<lambda>n c. 10 * n + (of_char c - 48)) 0 s"

lemma of_char_digit: "k < 10 \<Longrightarrow> (of_char (char_of (48 + k) :: char) :: nat) = 48 + k"
  by (simp add: take_bit_eq_mod)

lemma digits_value_nat_digits: "digits_value (nat_digits n) = n"
proof (induction n rule: nat_digits.induct)
  case (1 n)
  then show ?case
    by (cases "n < 10") (simp_all add: nat_digits.simps[of n] of_char_digit del: of_char_of)
qed

lemma nat_digits_inj: "nat_digits m = nat_digits n \<Longrightarrow> m = n"
  by (metis digits_value_nat_digits)

subsection \<open>Generated names\<close>

definition name_of :: "time \<Rightarrow> int \<Rightarrow> nat \<Rightarrow> string \<Rightarrow> string" where
  "name_of t pid n host = itoa t @ ''.'' @ itoa pid @ ''_'' @ nat_digits n @ ''.'' @ host"

lemma uniqueName_name:
  "fst (uniqueName b) = name_of (md_clock b) (md_pid b) ((md_seq b + 1) mod 2 ^ 64) (md_host b)"
  by (simp add: uniqueName_def name_of_def Let_def)

lemma itoa_no_dot: "CHR ''.'' \<notin> set (itoa i)" "CHR ''_'' \<notin> set (itoa i)"
  using digits_no_sep[of "CHR ''.''"] digits_no_sep[of "CHR ''_''"] by (auto simp: itoa_def)

lemma name_of_inj:
  assumes "name_of t pid n host = name_of t' pid n' host"
  shows "n = n'"
proof -
  have "snd (go_cut ''.'' (name_of t pid n host)) = snd (go_cut ''.'' (name_of t' pid n' host))"
    using assms by simp
  then have "nat_digits n @ ''.'' @ host = nat_digits n' @ ''.'' @ host"
    by (simp add: name_of_def itoa_no_dot)
  then show ?thesis using nat_digits_inj by simp
qed

subsection \<open>What a write does to the files\<close>

lemma Write_ok_files:
  assumes "Maildir_Write ctx vhost mbox body b = (Inr ref, b')"
  defines "dir \<equiv> mailboxDir b vhost mbox" and "name \<equiv> fst (uniqueName b)"
  shows "ref = \<lparr>ref_Vhost = vhost, ref_Mailbox = mbox, ref_Key = name\<rparr>"
    and "\<forall>p. map_of (fs_files (md_fs b')) p = (if p = path_join dir [dirNew, name] then Some (body, md_clock b)
      else if p = path_join dir [dirTmp, name] then None else map_of (fs_files (md_fs b)) p)"
proof -
  have c: "ctx = None" using assms(1) by (cases ctx) (auto simp: Maildir_Write_def)
  obtain b1 where u: "uniqueName b = (name, b1)" unfolding name_def by (metis prod.collapse)
  obtain r f0 where m: "mkdirs b dir [dirNew, dirCur, dirTmp] (md_fs b) = (r, f0)" by fastforce
  have f0: "fs_files f0 = fs_files (md_fs b)" by (rule mkdirs_files[OF m])
  show "ref = \<lparr>ref_Vhost = vhost, ref_Mailbox = mbox, ref_Key = name\<rparr>"
    and "\<forall>p. map_of (fs_files (md_fs b')) p = (if p = path_join dir [dirNew, name] then Some (body, md_clock b)
      else if p = path_join dir [dirTmp, name] then None else map_of (fs_files (md_fs b)) p)"
    using assms(1) u m f0 c
    by (auto simp: Maildir_Write_def ensureMailboxDirs_def Let_def or_fault_def fs_CreateExcl_def fs_Rename_def
        simp flip: dir_def split: option.splits if_splits)
qed

lemma Write_fields:
  assumes "Maildir_Write ctx vhost mbox body b = (r, b')"
  shows "md_base b' = md_base b \<and> md_pid b' = md_pid b \<and> md_host b' = md_host b
    \<and> (md_seq b' = md_seq b \<and> fs_files (md_fs b') = fs_files (md_fs b) \<or> md_seq b' = (md_seq b + 1) mod 2 ^ 64)"
proof (cases "ctx = None")
  case True
  obtain r0 f0 where m: "mkdirs b (mailboxDir b vhost mbox) [dirNew, dirCur, dirTmp] (md_fs b) = (r0, f0)" by fastforce
  have f0: "fs_files f0 = fs_files (md_fs b)" by (rule mkdirs_files[OF m])
  obtain name b1 where u: "uniqueName b = (name, b1)" by fastforce
  let ?t = "path_join (mailboxDir b vhost mbox) [dirTmp, name]"
  obtain e1 f1 where c: "or_fault (io_open (md_faults b)) (fs_CreateExcl ?t (md_clock b) f0) f0 = (e1, f1)" by fastforce
  let ?f2 = "f1\<lparr>fs_files := AList.update ?t (body, md_clock b) (fs_files f1)\<rparr>"
  obtain e3 f3 where rn: "or_fault (io_rename (md_faults b))
      (fs_Rename ?t (path_join (mailboxDir b vhost mbox) [dirNew, name]) ?f2) ?f2 = (e3, f3)" by fastforce
  have "r0 \<noteq> None \<and> b' = b\<lparr>md_fs := f0\<rparr> \<or> (\<exists>f. b' = b1\<lparr>md_fs := f\<rparr>)"
    using assms True m u c rn
    by (auto simp: Maildir_Write_def ensureMailboxDirs_def Let_def split: option.splits)
  then show ?thesis using u f0 by (auto simp: uniqueName_def Let_def)
qed (use assms in \<open>auto simp: Maildir_Write_def\<close>)

subsection \<open>The contract\<close>

definition maildir_inv :: "maildir \<Rightarrow> bool" where
  "maildir_inv b \<longleftrightarrow> CHR ''/'' \<notin> set (md_host b) \<and> md_seq b < 2 ^ 64
     \<and> (\<forall>p t n. map_of (fs_files (md_fs b)) p \<noteq> None \<longrightarrow> p \<noteq> [] \<longrightarrow> last p = name_of t (md_pid b) n (md_host b)
          \<longrightarrow> n \<le> md_seq b)"

definition maildir_holds :: "maildir \<Rightarrow> message_ref \<Rightarrow> bytes \<Rightarrow> bool" where
  "maildir_holds b ref body \<longleftrightarrow> plain (ref_Key ref)
     \<and> (\<exists>t. map_of (fs_files (md_fs b)) (mailboxDir b (ref_Vhost ref) (ref_Mailbox ref) @ [dirNew, ref_Key ref]) = Some (body, t))"

definition maildir_room :: "maildir \<Rightarrow> nat" where
  "maildir_room b = 2 ^ 64 - 1 - md_seq b"

lemma maildir_read: "maildir_holds b ref body \<Longrightarrow> Maildir_Read None ref b = Inr body"
  by (auto simp: maildir_holds_def locate_def fs_exists_def Let_def intro!: Read_located)

lemma maildir_write_files:
  assumes inv: "maildir_inv b" and w: "Maildir_Write ctx vhost mbox body b = (r, b')"
    and p: "p \<noteq> mailboxDir b vhost mbox @ [dirTmp, fst (uniqueName b)]"
    "p \<noteq> mailboxDir b vhost mbox @ [dirNew, fst (uniqueName b)]"
  shows "map_of (fs_files (md_fs b')) p = map_of (fs_files (md_fs b)) p"
proof -
  have plain: "plain (fst (uniqueName b))" using inv plain_uniqueName by (simp add: maildir_inv_def)
  show ?thesis
  proof (cases r)
    case (Inl e)
    then show ?thesis using Write_error_files[OF w[unfolded Inl]] p(1) plain by simp
  next
    case (Inr ref)
    then show ?thesis using Write_ok_files(2)[OF w[unfolded Inr]] p plain by simp
  qed
qed

lemma maildir_write_inv:
  assumes inv: "maildir_inv b" and room: "0 < maildir_room b" and w: "Maildir_Write ctx vhost mbox body b = (r, b')"
  shows "maildir_inv b' \<and> maildir_room b \<le> Suc (maildir_room b')"
proof -
  note f = Write_fields[OF w]
  have seq: "(md_seq b + 1) mod 2 ^ 64 = Suc (md_seq b)" using room by (simp add: maildir_room_def)
  have "n \<le> md_seq b'" if p: "map_of (fs_files (md_fs b')) p \<noteq> None" "p \<noteq> []"
    "last p = name_of t (md_pid b) n (md_host b)" for p t n
  proof (cases "map_of (fs_files (md_fs b)) p = None")
    case False
    then have "n \<le> md_seq b" using inv p by (auto simp: maildir_inv_def)
    then show ?thesis using f seq by auto
  next
    case True
    then have "md_seq b' = Suc (md_seq b)" using f p(1) seq by auto
    moreover have "last p = fst (uniqueName b)"
      using maildir_write_files[OF inv w, of p] True p(1) by fastforce
    ultimately show ?thesis
      using p(3) name_of_inj[of t "md_pid b" n "md_host b" "md_clock b" "Suc (md_seq b)"] seq
      by (simp add: uniqueName_name)
  qed
  then show ?thesis using inv f seq room by (auto simp: maildir_inv_def maildir_room_def)
qed

interpretation mds: message_store Maildir_ops maildir_inv maildir_holds maildir_room
proof
  fix st ref b
  show "maildir_holds st ref b \<Longrightarrow> s_Read Maildir_ops None ref st = Inr b"
    by (simp add: Maildir_ops_def maildir_read)
next
  fix st ctx v m body ref st'
  assume h: "maildir_inv st" "s_Write Maildir_ops ctx v m body st = (Inr ref, st')"
  then have w: "Maildir_Write ctx v m body st = (Inr ref, st')" by (simp add: Maildir_ops_def)
  have "plain (fst (uniqueName st))" using h(1) plain_uniqueName by (simp add: maildir_inv_def)
  then show "maildir_holds st' ref body \<and> ref_Vhost ref = v \<and> ref_Mailbox ref = m"
    using Write_ok_files[OF w] Write_fields[OF w] by (simp add: maildir_holds_def mailboxDir_def)
next
  fix st ctx v m body r st'
  assume h: "maildir_inv st" "0 < maildir_room st" "s_Write Maildir_ops ctx v m body st = (r, st')"
  then have w: "Maildir_Write ctx v m body st = (r, st')" by (simp add: Maildir_ops_def)
  have "maildir_holds st' ref b" if hb: "maildir_holds st ref b" for ref b
  proof -
    let ?p = "mailboxDir st (ref_Vhost ref) (ref_Mailbox ref) @ [dirNew, ref_Key ref]"
    obtain t where t: "map_of (fs_files (md_fs st)) ?p = Some (b, t)" using hb by (auto simp: maildir_holds_def)
    have "ref_Key ref \<noteq> fst (uniqueName st)"
    proof
      assume "ref_Key ref = fst (uniqueName st)"
      then have "(md_seq st + 1) mod 2 ^ 64 \<le> md_seq st"
        using h(1) t unfolding maildir_inv_def uniqueName_name by fastforce
      then show False using h(2) by (simp add: maildir_room_def)
    qed
    then have "map_of (fs_files (md_fs st')) ?p = Some (b, t)" using maildir_write_files[OF h(1) w, of ?p] t by auto
    then show ?thesis using hb Write_fields[OF w] by (auto simp: maildir_holds_def mailboxDir_def)
  qed
  then show "maildir_inv st' \<and> maildir_room st \<le> Suc (maildir_room st')
      \<and> (\<forall>ref b. maildir_holds st ref b \<longrightarrow> maildir_holds st' ref b)"
    using maildir_write_inv[OF h(1,2) w] by blast
qed

lemma list_entries_refs:
  "list_entries b v m p isNew es = Inr out \<Longrightarrow> x \<in> set out \<Longrightarrow> ref_Vhost (meta_Ref x) = v \<and> ref_Mailbox (meta_Ref x) = m"
proof (induction es arbitrary: out)
  case (Cons e es)
  then show ?case by (cases e) (fastforce simp: Let_def split: if_splits option.splits sum.splits prod.splits)
qed simp

lemma list_subs_refs:
  "list_subs b v m dir subs = Inr out \<Longrightarrow> x \<in> set out \<Longrightarrow> ref_Vhost (meta_Ref x) = v \<and> ref_Mailbox (meta_Ref x) = m"
proof (induction subs arbitrary: out)
  case (Cons e es)
  then show ?case by (cases e) (auto split: if_splits sum.splits dest: list_entries_refs)
qed simp

interpretation mdl: listing_store Maildir_ops
  by unfold_locales (auto simp: Maildir_ops_def Maildir_List_def split: option.splits dest: list_subs_refs)

end
