(* ===== verification/Deliverer.thy ===== *)
theory Deliverer
  imports Job_Queue Webhook Directory Storage
begin

section \<open>Outbound delivery: internal/deliverer\<close>

text \<open>
  The deliverer: error classification, MX lookup, the SMTP transaction with one host, the walk
  over the hosts, the bounce, \<open>handle\<close>, the per-domain semaphores and the running system of
  \<open>Run\<close>. The resolver, the network (what each step of the SMTP conversation with a host returns)
  and go-smtp are arguments; \<open>deliver_env\<close> collects them with the clock and the random draws of
  one call.
\<close>

subsection \<open>classify.go\<close>

definition permanentErr :: "gerr \<Rightarrow> gerr" where "permanentErr err = ErrDelivery err True"
definition temporaryErr :: "gerr \<Rightarrow> gerr" where "temporaryErr err = ErrDelivery err False"

definition isPermanent :: "gosmtp_lib \<Rightarrow> gerr \<Rightarrow> bool" where
  "isPermanent lib err =
     (case as_delivery err of
        Some permanent \<Rightarrow> permanent
      | None \<Rightarrow> (case as_smtp err of
          Some smtpErr \<Rightarrow> \<not> smtp_temporary lib smtpErr
        | None \<Rightarrow> False))"

definition classifySMTPErr :: "gosmtp_lib \<Rightarrow> string \<Rightarrow> gerr \<Rightarrow> gerr" where
  "classifySMTPErr lib stage err =
     (case as_smtp err of
        Some smtpErr \<Rightarrow>
          let wrapped = ErrWrap (''deliverer: '' @ stage) (ErrSMTP smtpErr)
          in if smtp_temporary lib smtpErr then temporaryErr wrapped else permanentErr wrapped
      | None \<Rightarrow> temporaryErr (ErrWrap (''deliverer: '' @ stage) err))"

definition isNotFoundDNSError :: "gerr \<Rightarrow> bool" where
  "isNotFoundDNSError err = (case as_dns_not_found err of Some notFound \<Rightarrow> notFound | None \<Rightarrow> False)"

subsection \<open>Configuration\<close>

record deliver_config =
  dc_Domain :: string
  dc_Port :: int
  dc_BackoffBase :: duration
  dc_BackoffMax :: duration
  dc_MaxAttempts :: int
  dc_PerDomainConcurrency :: int
  dc_PollInterval :: duration
  dc_DialTimeout :: duration
  dc_QueueDepthSampleInterval :: duration

definition withDefaults :: "deliver_config \<Rightarrow> deliver_config" where
  "withDefaults c =
     (let c = (if dc_BackoffBase c \<le> 0 then c\<lparr>dc_BackoffBase := 30 * 10 ^ 9\<rparr> else c);
          c = (if dc_BackoffMax c \<le> 0 then c\<lparr>dc_BackoffMax := 30 * 60 * 10 ^ 9\<rparr> else c);
          c = (if dc_MaxAttempts c \<le> 0 then c\<lparr>dc_MaxAttempts := 8\<rparr> else c);
          c = (if dc_PerDomainConcurrency c \<le> 0 then c\<lparr>dc_PerDomainConcurrency := 5\<rparr> else c);
          c = (if dc_Port c \<le> 0 then c\<lparr>dc_Port := 25\<rparr> else c);
          c = (if dc_PollInterval c \<le> 0 then c\<lparr>dc_PollInterval := 10 ^ 9\<rparr> else c);
          c = (if dc_DialTimeout c \<le> 0 then c\<lparr>dc_DialTimeout := 30 * 10 ^ 9\<rparr> else c);
          c = (if dc_QueueDepthSampleInterval c \<le> 0 then c\<lparr>dc_QueueDepthSampleInterval := 15 * 10 ^ 9\<rparr> else c)
      in c)"

subsection \<open>send.go\<close>

record mx =
  mx_Host :: string
  mx_Pref :: nat

text \<open>
  \<open>lookupMX\<close>: \<open>sort.Slice\<close> is not stable, so records of equal preference may come out in any
  order; \<open>seed\<close> is that order.
\<close>

definition lookupMX :: "(string \<Rightarrow> gerr + mx list) \<Rightarrow> nat \<Rightarrow> string \<Rightarrow> gerr + mx list" where
  "lookupMX resolver seed domain =
     (case resolver domain of
        Inl err \<Rightarrow>
          if isNotFoundDNSError err
          then Inl (permanentErr (ErrWrap (''deliverer: no MX records for '' @ go_quote domain) err))
          else Inl (temporaryErr (ErrWrap (''deliverer: MX lookup for '' @ go_quote domain @ '' failed'') err))
      | Inr mxs \<Rightarrow>
          if length mxs = 0
          then Inl (permanentErr (ErrNew (''deliverer: no MX records for '' @ go_quote domain)))
          else Inr (sort_key mx_Pref (map_range seed mxs)))"

text \<open>What the network and the remote MTA answer, step by step, in one conversation.\<close>

record host_outcome =
  ho_dial :: "gerr option"
  ho_starttls :: "gerr option"
  ho_redial :: "gerr option"
  ho_hello :: "gerr option"
  ho_mail :: "gerr option"
  ho_rcpt :: "gerr option"
  ho_data :: "gerr option"
  ho_write :: "gerr option"
  ho_close :: "gerr option"

datatype smtp_cmd = Dial string | StartTLS string | Hello string | MailFrom string | RcptTo string
  | DataCmd | Body bytes | EndData | Quit

definition JoinHostPort :: "string \<Rightarrow> int \<Rightarrow> string" where
  "JoinHostPort host port =
     (if CHR '':'' \<in> set host \<or> CHR ''%'' \<in> set host then ''['' @ host @ '']:'' @ itoa port
      else host @ '':'' @ itoa port)"

definition dial :: "host_outcome \<Rightarrow> string \<Rightarrow> string \<Rightarrow> gerr option \<times> smtp_cmd list" where
  "dial o' addr host =
     (case ho_dial o' of
        Some e \<Rightarrow> (Some e, [Dial addr])
      | None \<Rightarrow>
          (case ho_starttls o' of
             None \<Rightarrow> (None, [Dial addr, StartTLS host])
           | Some e \<Rightarrow> (ho_redial o', [Dial addr, StartTLS host, Dial addr])))"

definition sendToHost :: "gosmtp_lib \<Rightarrow> deliver_config \<Rightarrow> (string \<Rightarrow> host_outcome) \<Rightarrow> job \<Rightarrow> bytes \<Rightarrow> string
    \<Rightarrow> gerr option \<times> smtp_cmd list" where
  "sendToHost lib cfg net job body host =
     (let addr = JoinHostPort (trim_suffix host ''.'') (dc_Port cfg); o' = net host in
      case dial o' addr host of
        (Some e, t) \<Rightarrow> (Some (temporaryErr (ErrWrap (''deliverer: connect to '' @ addr) e)), t)
      | (None, t) \<Rightarrow>
      case ho_hello o' of
        Some e \<Rightarrow> (Some (classifySMTPErr lib ''HELO'' e), t @ [Hello (dc_Domain cfg)])
      | None \<Rightarrow>
      case ho_mail o' of
        Some e \<Rightarrow> (Some (classifySMTPErr lib ''MAIL FROM'' e), t @ [Hello (dc_Domain cfg), MailFrom (job_From job)])
      | None \<Rightarrow>
      case ho_rcpt o' of
        Some e \<Rightarrow> (Some (classifySMTPErr lib ''RCPT TO'' e),
            t @ [Hello (dc_Domain cfg), MailFrom (job_From job), RcptTo (job_To job)])
      | None \<Rightarrow>
      let t = t @ [Hello (dc_Domain cfg), MailFrom (job_From job), RcptTo (job_To job), DataCmd] in
      case ho_data o' of
        Some e \<Rightarrow> (Some (classifySMTPErr lib ''DATA'' e), t)
      | None \<Rightarrow>
      case ho_write o' of
        Some e \<Rightarrow> (Some (temporaryErr (ErrWrap ''deliverer: write message body'' e)), t @ [EndData])
      | None \<Rightarrow>
      case ho_close o' of
        Some e \<Rightarrow> (Some (classifySMTPErr lib ''DATA'' e), t @ [Body body, EndData])
      | None \<Rightarrow> (None, t @ [Body body, EndData, Quit]))"

text \<open>The loop of \<open>send\<close>; the result has the hosts tried, with the commands sent to each.\<close>

fun send_loop :: "gosmtp_lib \<Rightarrow> deliver_config \<Rightarrow> (string \<Rightarrow> host_outcome) \<Rightarrow> job \<Rightarrow> bytes \<Rightarrow> mx list
    \<Rightarrow> gerr option \<Rightarrow> gerr option \<times> (string \<times> smtp_cmd list) list" where
  "send_loop lib cfg net job body [] lastErr = (lastErr, [])"
| "send_loop lib cfg net job body (m # mxs) lastErr =
     (case sendToHost lib cfg net job body (mx_Host m) of
        (None, t) \<Rightarrow> (None, [(mx_Host m, t)])
      | (Some err, t) \<Rightarrow>
          if isPermanent lib err then (Some err, [(mx_Host m, t)])
          else (case send_loop lib cfg net job body mxs (Some err) of
                  (r, ts) \<Rightarrow> (r, (mx_Host m, t) # ts)))"

definition send :: "gosmtp_lib \<Rightarrow> deliver_config \<Rightarrow> (string \<Rightarrow> host_outcome) \<Rightarrow> job \<Rightarrow> bytes \<Rightarrow> mx list
    \<Rightarrow> gerr option \<times> (string \<times> smtp_cmd list) list" where
  "send lib cfg net job body mxs = send_loop lib cfg net job body mxs None"

subsection \<open>bounce.go\<close>

definition sanitizeHeaderValue :: "string \<Rightarrow> string" where
  "sanitizeHeaderValue s = replace_all (CHR 0x0A) (CHR '' '') (replace_all (CHR 0x0D) (CHR '' '') s)"

text \<open>\<open>mime/multipart.Writer\<close>: \<open>SetBoundary\<close> and the bytes of a part and of \<open>Close\<close>.\<close>

definition valid_boundary :: "string \<Rightarrow> bool" where
  "valid_boundary b \<longleftrightarrow> 1 \<le> length b \<and> length b \<le> 70
     \<and> (\<forall>c \<in> set b. let n = of_char c :: nat in 48 \<le> n \<and> n \<le> 57 \<or> 65 \<le> n \<and> n \<le> 90 \<or> 97 \<le> n \<and> n \<le> 122
          \<or> n \<in> {39, 40, 41, 43, 95, 44, 45, 46, 47, 58, 61, 63} \<or> n = 32)
     \<and> last b \<noteq> CHR '' ''"

definition multipart_part :: "bool \<Rightarrow> string \<Rightarrow> string \<Rightarrow> string \<Rightarrow> string" where
  "multipart_part is_first boundary contentType body =
     (if is_first then [] else crlf) @ ''--'' @ boundary @ crlf
       @ ''Content-Type: '' @ contentType @ crlf @ crlf @ body"

definition multipart_close :: "string \<Rightarrow> string" where
  "multipart_close boundary = crlf @ ''--'' @ boundary @ ''--'' @ crlf"

definition dsn_head :: "string \<Rightarrow> string \<Rightarrow> string \<Rightarrow> job \<Rightarrow> string \<Rightarrow> string" where
  "dsn_head boundary uuid2 date job mtaDomain =
     ''From: Mail Delivery System <postmaster@'' @ mtaDomain @ ''>'' @ crlf
     @ ''To: '' @ job_From job @ crlf
     @ ''Subject: Undelivered Mail Returned to Sender'' @ crlf
     @ ''Message-Id: <'' @ uuid2 @ ''@'' @ mtaDomain @ ''>'' @ crlf
     @ ''Date: '' @ date @ crlf
     @ ''MIME-Version: 1.0'' @ crlf
     @ ''Content-Type: multipart/report; report-type=delivery-status; boundary='' @ go_quote boundary @ crlf
     @ crlf"

definition dsn_explanation :: "job \<Rightarrow> string \<Rightarrow> string" where
  "dsn_explanation job diag =
     ''This is an automatically generated Delivery Status Notification.'' @ crlf @ crlf
     @ ''Delivery to the following recipient failed permanently:'' @ crlf @ crlf
     @ ''    '' @ job_To job @ crlf @ crlf
     @ ''Technical details:'' @ crlf @ diag @ crlf"

definition dsn_status :: "job \<Rightarrow> string \<Rightarrow> string \<Rightarrow> string" where
  "dsn_status job mtaDomain diag =
     ''Reporting-MTA: dns;'' @ mtaDomain @ crlf @ crlf
     @ ''Final-Recipient: rfc822;'' @ job_To job @ crlf
     @ ''Action: failed'' @ crlf
     @ ''Status: 5.0.0'' @ crlf
     @ ''Diagnostic-Code: smtp;'' @ diag @ crlf"

definition buildDSN :: "gosmtp_lib \<Rightarrow> string \<Rightarrow> string \<Rightarrow> string \<Rightarrow> job \<Rightarrow> string \<Rightarrow> gerr \<Rightarrow> gerr + bytes" where
  "buildDSN lib uuid1 uuid2 date job mtaDomain cause =
     (let boundary = ''DSN_'' @ uuid1;
          diag = sanitizeHeaderValue (err_text lib cause)
      in if \<not> valid_boundary boundary
         then Inl (ErrWrap ''deliverer: set DSN boundary'' (ErrNew ''mime: invalid boundary''))
         else Inr (dsn_head boundary uuid2 date job mtaDomain
           @ multipart_part True boundary ''text/plain; charset=utf-8'' (dsn_explanation job diag)
           @ multipart_part False boundary ''message/delivery-status'' (dsn_status job mtaDomain diag)
           @ multipart_part False boundary ''message/rfc822-headers''
               (''From: '' @ job_From job @ crlf @ ''To: '' @ job_To job @ crlf)
           @ multipart_close boundary))"

subsection \<open>deliverer.go\<close>

definition destinationDomain :: "string \<Rightarrow> string" where
  "destinationDomain rcpt = (case ParseAddress rcpt of None \<Rightarrow> rcpt | Some (_, domain) \<Rightarrow> domain)"

datatype event_data =
    DeliveredData string string
  | BouncedData string string int string
  | DeferredData string string int string time

text \<open>
  What one call of \<open>handle\<close> sees of the outside: the context, go-smtp, the resolver, the network,
  the random source, the clock, the UUIDs and the date of a DSN, the JSON encoders, and the
  webhook enqueuer (\<open>None\<close> for nil).
\<close>

record 'h deliver_env =
  de_ctx :: "gerr option"
  de_lib :: gosmtp_lib
  de_resolver :: "string \<Rightarrow> gerr + mx list"
  de_seed :: nat
  de_net :: "string \<Rightarrow> host_outcome"
  de_rand :: "int \<Rightarrow> int"
  de_now :: time
  de_uuid_boundary :: string
  de_uuid_msgid :: string
  de_uuid_event :: string
  de_date :: string
  de_marshal_data :: "event_data \<Rightarrow> gerr + bytes"
  de_marshal_env :: "webhook_envelope \<Rightarrow> gerr + bytes"
  de_webhooks :: "(gerr option \<Rightarrow> string \<Rightarrow> string \<Rightarrow> bytes \<Rightarrow> 'h \<Rightarrow> gerr option \<times> 'h) option"

record ('q, 's, 'h) deliver_state =
  ds_queue :: 'q
  ds_store :: 's
  ds_hooks :: 'h
  ds_bounces :: nat

definition Deliverer_attempt :: "'s store_ops \<Rightarrow> deliver_config \<Rightarrow> 'h deliver_env \<Rightarrow> job \<Rightarrow> 's
    \<Rightarrow> gerr option \<times> (string \<times> smtp_cmd list) list" where
  "Deliverer_attempt store cfg env job st =
     (let domain = destinationDomain (job_To job) in
      if domain = job_To job
      then (Some (permanentErr (ErrNew (''deliverer: malformed recipient address '' @ go_quote (job_To job)))), [])
      else case lookupMX (de_resolver env) (de_seed env) domain of
        Inl err \<Rightarrow> (Some err, [])
      | Inr mxs \<Rightarrow>
      case s_Read store (de_ctx env)
             \<lparr>ref_Vhost = job_Vhost job, ref_Mailbox = OutboxMailbox, ref_Key = job_BodyRef job\<rparr> st of
        Inl err \<Rightarrow> (Some (temporaryErr (ErrWrap ''deliverer: read staged body'' err)), [])
      | Inr body \<Rightarrow> send (de_lib env) cfg (de_net env) job body mxs)"

definition Deliverer_nextBackoff :: "deliver_config \<Rightarrow> (int \<Rightarrow> int) \<Rightarrow> int \<Rightarrow> duration option" where
  "Deliverer_nextBackoff cfg r attempt = FullJitter attempt (dc_BackoffBase cfg) (dc_BackoffMax cfg) r"

definition Deliverer_fire :: "'h deliver_env \<Rightarrow> job \<Rightarrow> string \<Rightarrow> event_data \<Rightarrow> 'h \<Rightarrow> 'h" where
  "Deliverer_fire env job eventType data h =
     (case de_webhooks env of
        None \<Rightarrow> h
      | Some enqueue \<Rightarrow>
          (case NewEventPayload (de_marshal_data env) (de_marshal_env env) (de_now env)
                  (de_uuid_event env) eventType (job_Vhost job) data of
             Inl e \<Rightarrow> h
           | Inr payload \<Rightarrow> snd (enqueue (de_ctx env) (job_Vhost job) eventType payload h)))"

definition fireDelivered :: "'h deliver_env \<Rightarrow> job \<Rightarrow> 'h \<Rightarrow> 'h" where
  "fireDelivered env job = Deliverer_fire env job EventMessageDelivered (DeliveredData (job_From job) (job_To job))"

definition fireBounced :: "'h deliver_env \<Rightarrow> job \<Rightarrow> gerr \<Rightarrow> 'h \<Rightarrow> 'h" where
  "fireBounced env job cause = Deliverer_fire env job EventMessageBounced
     (BouncedData (job_From job) (job_To job) (job_Attempts job + 1) (err_text (de_lib env) cause))"

definition fireDeferred :: "'h deliver_env \<Rightarrow> job \<Rightarrow> gerr \<Rightarrow> time \<Rightarrow> 'h \<Rightarrow> 'h" where
  "fireDeferred env job cause next = Deliverer_fire env job EventMessageDeferred
     (DeferredData (job_From job) (job_To job) (job_Attempts job + 1) (err_text (de_lib env) cause) next)"

definition deliverBounce :: "'d directory_ops \<Rightarrow> 'd \<Rightarrow> 's store_ops \<Rightarrow> deliver_config \<Rightarrow> 'h deliver_env \<Rightarrow> job
    \<Rightarrow> gerr \<Rightarrow> 's \<Rightarrow> 's" where
  "deliverBounce dirops dir store cfg env job cause st =
     (case ParseAddress (job_From job) of
        None \<Rightarrow> st
      | Some (local_part, domain) \<Rightarrow>
          if \<not> dir_VhostActive dirops domain dir then st
          else (case buildDSN (de_lib env) (de_uuid_boundary env) (de_uuid_msgid env) (de_date env) job
                       (dc_Domain cfg) cause of
             Inl e \<Rightarrow> st
           | Inr dsn \<Rightarrow> snd (s_Write store (de_ctx env) domain (MailboxPath local_part ''INBOX'') dsn st)))"

definition handle :: "(job, 'q) queue_ops \<Rightarrow> 'd directory_ops \<Rightarrow> 'd \<Rightarrow> 's store_ops \<Rightarrow> deliver_config
    \<Rightarrow> 'h deliver_env \<Rightarrow> job \<Rightarrow> ('q, 's, 'h) deliver_state \<Rightarrow> ('q, 's, 'h) deliver_state option" where
  "handle ops dirops dir store cfg env job d =
     (case fst (Deliverer_attempt store cfg env job (ds_store d)) of
        None \<Rightarrow>
          Some (d\<lparr>ds_queue := snd (q_Complete ops (de_ctx env) (job_ID job) (ds_queue d)),
                  ds_hooks := fireDelivered env job (ds_hooks d)\<rparr>)
      | Some err \<Rightarrow>
          if isPermanent (de_lib env) err then
            Some (d\<lparr>ds_bounces := Suc (ds_bounces d),
                    ds_queue := snd (q_Complete ops (de_ctx env) (job_ID job) (ds_queue d)),
                    ds_store := deliverBounce dirops dir store cfg env job err (ds_store d),
                    ds_hooks := fireBounced env job err (ds_hooks d)\<rparr>)
          else if job_Attempts job + 1 \<ge> dc_MaxAttempts cfg then
            let exhausted = ErrWrap (''exhausted '' @ itoa (dc_MaxAttempts cfg)
                  @ '' delivery attempts, last error'') err
            in Some (d\<lparr>ds_bounces := Suc (ds_bounces d),
                    ds_queue := snd (q_Complete ops (de_ctx env) (job_ID job) (ds_queue d)),
                    ds_store := deliverBounce dirops dir store cfg env job exhausted (ds_store d),
                    ds_hooks := fireBounced env job exhausted (ds_hooks d)\<rparr>)
          else
            (case Deliverer_nextBackoff cfg (de_rand env) (job_Attempts job) of
               None \<Rightarrow> None
             | Some delay \<Rightarrow>
                 let next = de_now env + delay
                 in Some (d\<lparr>ds_queue := snd (q_Fail ops (de_ctx env) (job_ID job)
                              (Some (err_text (de_lib env) err)) next (ds_queue d)),
                            ds_hooks := fireDeferred env job err next (ds_hooks d)\<rparr>)))"

text \<open>\<open>refresh\<close> of \<open>sampleQueueDepth\<close>: the gauge after one tick.\<close>

definition sampleQueueDepth :: "('q \<Rightarrow> gerr + nat) \<Rightarrow> 'q \<Rightarrow> nat \<Rightarrow> nat" where
  "sampleQueueDepth count_jobs q gauge = (case count_jobs q of Inl e \<Rightarrow> gauge | Inr n \<Rightarrow> n)"

subsection \<open>semaphore.go and Run\<close>

text \<open>
  The semaphore of a domain is a buffered channel; its state is how many slots are taken. A
  domain without a channel reads zero, as a fresh channel does.
\<close>

record domain_semaphores =
  sem_taken :: "string \<Rightarrow> nat"
  sem_limit :: int

definition newDomainSemaphores :: "int \<Rightarrow> domain_semaphores" where
  "newDomainSemaphores limit = \<lparr>sem_taken = (\<lambda>_. 0), sem_limit = (if limit \<le> 0 then 1 else limit)\<rparr>"

text \<open>The send into the channel; \<open>None\<close> when it has to wait.\<close>

definition acquire :: "string \<Rightarrow> domain_semaphores \<Rightarrow> domain_semaphores option" where
  "acquire domain s =
     (if int (sem_taken s domain) < sem_limit s
      then Some (s\<lparr>sem_taken := (sem_taken s)(domain := Suc (sem_taken s domain))\<rparr>) else None)"

definition release :: "string \<Rightarrow> domain_semaphores \<Rightarrow> domain_semaphores" where
  "release domain s = s\<lparr>sem_taken := (sem_taken s)(domain := sem_taken s domain - 1)\<rparr>"

text \<open>
  A goroutine of \<open>Run\<close>: not started or ended, waiting for a slot with its job, or inside
  \<open>handle\<close>. One that waits may end because the context is cancelled; its job stays claimed.
\<close>

datatype goroutine = GIdle | GWait job | GSend job

record ('q, 's, 'h) run_state =
  rs_state :: "('q, 's, 'h) deliver_state"
  rs_sem :: domain_semaphores
  rs_go :: "nat \<Rightarrow> goroutine"

inductive run_step :: "(job, 'q) queue_ops \<Rightarrow> 'd directory_ops \<Rightarrow> 'd \<Rightarrow> 's store_ops \<Rightarrow> deliver_config
    \<Rightarrow> ('q \<Rightarrow> string \<Rightarrow> job option) \<Rightarrow> ('q, 's, 'h) run_state \<Rightarrow> ('q, 's, 'h) run_state \<Rightarrow> bool"
  for ops dirops dir store cfg pending where
  run_enqueue: "job_Attempts j = 0 \<Longrightarrow> pending (ds_queue (rs_state r)) (job_ID j) = None \<Longrightarrow>
    q_Enqueue ops ctx j (ds_queue (rs_state r)) = (e, q') \<Longrightarrow>
    run_step ops dirops dir store cfg pending r (r\<lparr>rs_state := (rs_state r)\<lparr>ds_queue := q'\<rparr>\<rparr>)"
| run_spawn: "rs_go r g = GIdle \<Longrightarrow>
    q_Dequeue ops ctx now seed (ds_queue (rs_state r)) = (Inr (Some j), q') \<Longrightarrow>
    run_step ops dirops dir store cfg pending r
      (r\<lparr>rs_state := (rs_state r)\<lparr>ds_queue := q'\<rparr>, rs_go := (rs_go r)(g := GWait j)\<rparr>)"
| run_acquire: "rs_go r g = GWait j \<Longrightarrow> acquire (destinationDomain (job_To j)) (rs_sem r) = Some s' \<Longrightarrow>
    run_step ops dirops dir store cfg pending r (r\<lparr>rs_sem := s', rs_go := (rs_go r)(g := GSend j)\<rparr>)"
| run_abandon: "rs_go r g = GWait j \<Longrightarrow>
    run_step ops dirops dir store cfg pending r (r\<lparr>rs_go := (rs_go r)(g := GIdle)\<rparr>)"
| run_handle: "rs_go r g = GSend j \<Longrightarrow>
    handle ops dirops dir store cfg env j (rs_state r) = Some d' \<Longrightarrow>
    run_step ops dirops dir store cfg pending r
      (r\<lparr>rs_state := d', rs_sem := release (destinationDomain (job_To j)) (rs_sem r),
         rs_go := (rs_go r)(g := GIdle)\<rparr>)"

inductive run_reachable :: "(job, 'q) queue_ops \<Rightarrow> 'd directory_ops \<Rightarrow> 'd \<Rightarrow> 's store_ops \<Rightarrow> deliver_config
    \<Rightarrow> ('q \<Rightarrow> string \<Rightarrow> job option) \<Rightarrow> ('q, 's, 'h) deliver_state \<Rightarrow> ('q, 's, 'h) run_state \<Rightarrow> bool"
  for ops dirops dir store cfg pending d0 where
  run_init: "run_reachable ops dirops dir store cfg pending d0
    \<lparr>rs_state = d0, rs_sem = newDomainSemaphores (dc_PerDomainConcurrency cfg), rs_go = (\<lambda>_. GIdle)\<rparr>"
| run_next: "run_reachable ops dirops dir store cfg pending d0 r \<Longrightarrow>
    run_step ops dirops dir store cfg pending r r' \<Longrightarrow>
    run_reachable ops dirops dir store cfg pending d0 r'"

subsection \<open>The deliverer as a client of a claim queue\<close>

lemma handle_queue:
  assumes "handle ops dirops dir store cfg env j d = Some d'"
  shows "ds_queue d' = snd (q_Complete ops (de_ctx env) (job_ID j) (ds_queue d))
    \<or> job_Attempts j + 1 < dc_MaxAttempts cfg
      \<and> (\<exists>cause next. ds_queue d' = snd (q_Fail ops (de_ctx env) (job_ID j) cause next (ds_queue d)))"
  using assms by (auto simp: handle_def Let_def split: option.splits if_splits) metis

definition held_of :: "(nat \<Rightarrow> goroutine) \<Rightarrow> nat \<Rightarrow> job option" where
  "held_of go g = (case go g of GIdle \<Rightarrow> None | GWait j \<Rightarrow> Some j | GSend j \<Rightarrow> Some j)"

lemma held_of_upd [simp]:
  "held_of (go(g := GIdle)) = (held_of go)(g := None)"
  "held_of (go(g := GWait j)) = (held_of go)(g := Some j)"
  "held_of (go(g := GSend j)) = (held_of go)(g := Some j)"
  by (auto simp: held_of_def)

locale outbound_queue = claim_queue ops init job_ID job_NextAttemptAt job_retry pending claims inv
  for ops :: "(job, 'q) queue_ops" and init pending claims inv
begin

lemma run_retry_step:
  assumes "run_step ops dirops dir store cfg pending r r'"
  shows "retry_step ops job_ID job_Attempts (dc_MaxAttempts cfg) pending
      (ds_queue (rs_state r), held_of (rs_go r)) (ds_queue (rs_state r'), held_of (rs_go r'))
    \<or> (ds_queue (rs_state r'), held_of (rs_go r')) = (ds_queue (rs_state r), held_of (rs_go r))"
  using assms
proof (cases rule: run_step.cases)
  case (run_enqueue j ctx e q')
  then show ?thesis by (auto intro: retry_enqueue)
next
  case (run_spawn g ctx now seed j q')
  then show ?thesis by (auto intro!: disjI1 retry_dequeue simp: held_of_def)
next
  case (run_acquire g j s')
  then show ?thesis by (auto simp: held_of_def fun_eq_iff)
next
  case (run_abandon g j)
  then have "held_of (rs_go r) g = Some j" by (simp add: held_of_def)
  then show ?thesis unfolding run_abandon(1) by (auto intro!: disjI1 retry_drop)
next
  case (run_handle g j env d')
  have h: "held_of (rs_go r) g = Some j" using run_handle(2) by (simp add: held_of_def)
  from handle_queue[OF run_handle(3)]
  have "retry_step ops job_ID job_Attempts (dc_MaxAttempts cfg) pending
      (ds_queue (rs_state r), held_of (rs_go r)) (ds_queue d', (held_of (rs_go r))(g := None))"
    by (metis h prod.collapse retry_complete retry_fail)
  then show ?thesis using run_handle(1) by simp
qed

lemma run_retry_reachable:
  assumes "run_reachable ops dirops dir store cfg pending d0 r" "ds_queue d0 = init"
  shows "retry_reachable ops job_ID job_Attempts (dc_MaxAttempts cfg) pending init
    (ds_queue (rs_state r), held_of (rs_go r))"
  using assms(1)
proof (induction rule: run_reachable.induct)
  case run_init
  have "held_of (\<lambda>_. GIdle) = (\<lambda>_. None)" by (auto simp: held_of_def)
  then show ?case using assms(2) by (simp add: retry_init)
next
  case (run_next r r')
  from run_retry_step[OF run_next(2)] show ?case
  proof
    assume "retry_step ops job_ID job_Attempts (dc_MaxAttempts cfg) pending
      (ds_queue (rs_state r), held_of (rs_go r)) (ds_queue (rs_state r'), held_of (rs_go r'))"
    then show ?thesis by (rule retry_next[OF run_next.IH])
  next
    assume "(ds_queue (rs_state r'), held_of (rs_go r')) = (ds_queue (rs_state r), held_of (rs_go r))"
    then show ?thesis using run_next.IH by simp
  qed
qed

end

interpretation obq: outbound_queue MemoryBackend_ops NewMemoryBackend mq_pending mq_claims "mq_inv job_ID"
  by unfold_locales

subsection \<open>Semaphores\<close>

definition senders :: "(nat \<Rightarrow> goroutine) \<Rightarrow> string \<Rightarrow> nat set" where
  "senders go d = {g. \<exists>j. go g = GSend j \<and> destinationDomain (job_To j) = d}"

definition sem_bound :: "deliver_config \<Rightarrow> int" where
  "sem_bound cfg = (if dc_PerDomainConcurrency cfg \<le> 0 then 1 else dc_PerDomainConcurrency cfg)"

definition sem_inv :: "deliver_config \<Rightarrow> ('q, 's, 'h) run_state \<Rightarrow> bool" where
  "sem_inv cfg r \<longleftrightarrow> finite {g. rs_go r g \<noteq> GIdle}
     \<and> sem_limit (rs_sem r) = sem_bound cfg
     \<and> (\<forall>d. sem_taken (rs_sem r) d = card (senders (rs_go r) d))
     \<and> (\<forall>d. int (card (senders (rs_go r) d)) \<le> sem_bound cfg)"

lemma finite_busy: "finite {g. go g \<noteq> GIdle} \<Longrightarrow> finite {g. (go(k := x)) g \<noteq> GIdle}"
  by (rule finite_subset[of _ "insert k {g. go g \<noteq> GIdle}"]) auto

lemma finite_senders: "finite {g. go g \<noteq> GIdle} \<Longrightarrow> finite (senders go d)"
  by (rule finite_subset[of _ "{g. go g \<noteq> GIdle}"]) (auto simp: senders_def)

lemma senders_enter:
  assumes "finite {g. go g \<noteq> GIdle}" "go g = GWait j"
  shows "card (senders (go(g := GSend j)) d) =
    card (senders go d) + (if d = destinationDomain (job_To j) then 1 else 0)"
proof -
  have "senders (go(g := GSend j)) d = (if d = destinationDomain (job_To j) then insert g (senders go d) else senders go d)"
    "g \<notin> senders go d" using assms(2) by (auto simp: senders_def)
  then show ?thesis using finite_senders[OF assms(1), of d] by (cases "d = destinationDomain (job_To j)") simp_all
qed

lemma senders_leave:
  assumes "finite {g. go g \<noteq> GIdle}" "go g = GSend j"
  shows "card (senders (go(g := GIdle)) d) =
    card (senders go d) - (if d = destinationDomain (job_To j) then 1 else 0)"
proof -
  have "senders (go(g := GIdle)) d = (if d = destinationDomain (job_To j) then senders go d - {g} else senders go d)"
    "d = destinationDomain (job_To j) \<Longrightarrow> g \<in> senders go d" using assms(2) by (auto simp: senders_def)
  then show ?thesis using finite_senders[OF assms(1)] by (simp add: card_Diff_singleton)
qed

lemma senders_same:
  assumes "\<And>j. go g \<noteq> GSend j" "\<And>j. x \<noteq> GSend j"
  shows "senders (go(g := x)) d = senders go d"
  using assms by (auto simp: senders_def)

lemma sem_inv_step:
  assumes "run_step ops dirops dir store cfg pending r r'" "sem_inv cfg r"
  shows "sem_inv cfg r'"
  using assms(1)
proof (cases rule: run_step.cases)
  case (run_enqueue j ctx e q')
  then show ?thesis using assms(2) by (simp add: sem_inv_def)
next
  case (run_spawn g ctx now seed j q')
  then show ?thesis using assms(2) finite_busy[of "rs_go r" g "GWait j"]
    by (simp add: sem_inv_def senders_same)
next
  case (run_acquire g j s')
  from run_acquire(3) have s': "int (sem_taken (rs_sem r) (destinationDomain (job_To j))) < sem_limit (rs_sem r)"
    "s' = (rs_sem r)\<lparr>sem_taken := (sem_taken (rs_sem r))(destinationDomain (job_To j)
       := Suc (sem_taken (rs_sem r) (destinationDomain (job_To j))))\<rparr>"
    by (auto simp: acquire_def split: if_splits)
  have "finite {g. rs_go r g \<noteq> GIdle}" using assms(2) by (simp add: sem_inv_def)
  note fin = this
  have "int (card (senders ((rs_go r)(g := GSend j)) d)) \<le> sem_bound cfg" for d
    using assms(2) s'(1) by (auto simp: sem_inv_def senders_enter[OF fin run_acquire(2)])
  then show ?thesis using assms(2) s'(2) run_acquire(1) senders_enter[OF fin run_acquire(2)]
      finite_busy[OF fin, of g "GSend j"] by (auto simp: sem_inv_def)
next
  case (run_abandon g j)
  then show ?thesis using assms(2) finite_busy[of "rs_go r" g GIdle]
    by (simp add: sem_inv_def senders_same)
next
  case (run_handle g j env d')
  have fin: "finite {g. rs_go r g \<noteq> GIdle}" using assms(2) by (simp add: sem_inv_def)
  have "int (card (senders ((rs_go r)(g := GIdle)) d)) \<le> sem_bound cfg" for d
  proof -
    have "int (card (senders (rs_go r) d)) \<le> sem_bound cfg" using assms(2) by (simp add: sem_inv_def)
    then show ?thesis unfolding senders_leave[OF fin run_handle(2)] by linarith
  qed
  then show ?thesis using assms(2) run_handle(1) senders_leave[OF fin run_handle(2)] finite_busy[OF fin, of g GIdle]
    by (auto simp: sem_inv_def release_def)
qed

lemma sem_inv_reachable: "run_reachable ops dirops dir store cfg pending d0 r \<Longrightarrow> sem_inv cfg r"
proof (induction rule: run_reachable.induct)
  case run_init
  show ?case by (simp add: sem_inv_def sem_bound_def newDomainSemaphores_def senders_def)
next
  case (run_next r r')
  show ?case by (rule sem_inv_step[OF run_next(2) run_next.IH])
qed

subsection \<open>The walk over the hosts\<close>

definition host_result :: "gosmtp_lib \<Rightarrow> deliver_config \<Rightarrow> (string \<Rightarrow> host_outcome) \<Rightarrow> job \<Rightarrow> bytes \<Rightarrow> mx \<Rightarrow> gerr option" where
  "host_result lib cfg net job body m = fst (sendToHost lib cfg net job body (mx_Host m))"

text \<open>A host is passed over when it failed in a way another host may not.\<close>

definition passed_over :: "gosmtp_lib \<Rightarrow> deliver_config \<Rightarrow> (string \<Rightarrow> host_outcome) \<Rightarrow> job \<Rightarrow> bytes \<Rightarrow> mx \<Rightarrow> bool" where
  "passed_over lib cfg net job body m \<longleftrightarrow>
     (\<exists>e. host_result lib cfg net job body m = Some e \<and> \<not> isPermanent lib e)"

definition hosts_tried :: "gosmtp_lib \<Rightarrow> deliver_config \<Rightarrow> (string \<Rightarrow> host_outcome) \<Rightarrow> job \<Rightarrow> bytes \<Rightarrow> mx list \<Rightarrow> mx list" where
  "hosts_tried lib cfg net job body mxs =
     takeWhile (passed_over lib cfg net job body) mxs @ take 1 (dropWhile (passed_over lib cfg net job body) mxs)"

lemma send_loop_tried:
  "map fst (snd (send_loop lib cfg net job body mxs le)) = map mx_Host (hosts_tried lib cfg net job body mxs)"
proof (induction mxs arbitrary: le)
  case (Cons m mxs)
  obtain r t where s: "sendToHost lib cfg net job body (mx_Host m) = (r, t)" by fastforce
  show ?case
  proof (cases "passed_over lib cfg net job body m")
    case True
    then obtain e where "r = Some e" "\<not> isPermanent lib e" by (auto simp: passed_over_def host_result_def s)
    then show ?thesis using s True Cons.IH[of r] by (auto simp: hosts_tried_def split: prod.splits)
  next
    case False
    then show ?thesis using s
      by (auto simp: hosts_tried_def passed_over_def host_result_def split: option.splits)
  qed
qed (simp add: hosts_tried_def)

lemma send_loop_result:
  "fst (send_loop lib cfg net job body mxs le) =
     (if mxs = [] then le else host_result lib cfg net job body (last (hosts_tried lib cfg net job body mxs)))"
proof (induction mxs arbitrary: le)
  case (Cons m mxs)
  obtain r t where s: "sendToHost lib cfg net job body (mx_Host m) = (r, t)" by fastforce
  show ?case
  proof (cases "passed_over lib cfg net job body m")
    case True
    then obtain e where "r = Some e" "\<not> isPermanent lib e" by (auto simp: passed_over_def host_result_def s)
    moreover have "hosts_tried lib cfg net job body mxs \<noteq> [] \<longleftrightarrow> mxs \<noteq> []"
      by (cases mxs) (auto simp: hosts_tried_def)
    ultimately show ?thesis using s True Cons.IH[of r]
      by (auto simp: hosts_tried_def host_result_def split: prod.splits)
  next
    case False
    then show ?thesis using s
      by (auto simp: hosts_tried_def passed_over_def host_result_def split: option.splits)
  qed
qed simp

lemma hosts_tried_prefix: "prefix (hosts_tried lib cfg net job body mxs) mxs"
  unfolding hosts_tried_def
  by (metis append_take_drop_id prefix_def same_append_eq takeWhile_dropWhile_id append.assoc)

lemma hosts_tried_before:
  "m \<in> set (butlast (hosts_tried lib cfg net job body mxs)) \<Longrightarrow> passed_over lib cfg net job body m"
  by (cases "dropWhile (passed_over lib cfg net job body) mxs")
    (auto simp: hosts_tried_def butlast_append dest: in_set_butlastD set_takeWhileD split: if_splits)

lemma hosts_tried_all:
  "passed_over lib cfg net job body (last (hosts_tried lib cfg net job body mxs)) \<Longrightarrow> mxs \<noteq> [] \<Longrightarrow>
   hosts_tried lib cfg net job body mxs = mxs"
proof (cases "dropWhile (passed_over lib cfg net job body) mxs")
  case Nil
  then have "takeWhile (passed_over lib cfg net job body) mxs = mxs"
    by (metis append_Nil2 takeWhile_dropWhile_id)
  then show ?thesis unfolding hosts_tried_def Nil by (simp only: take_Nil append_Nil2)
next
  case (Cons m ms)
  then have "\<not> passed_over lib cfg net job body m" by (metis hd_dropWhile list.distinct(1) list.sel(1))
  moreover assume "passed_over lib cfg net job body (last (hosts_tried lib cfg net job body mxs))"
  ultimately show ?thesis using Cons by (simp add: hosts_tried_def)
qed

text \<open>The commands of an accepted transaction, in order.\<close>

lemma sendToHost_accepted:
  assumes "sendToHost lib cfg net job body host = (None, t)"
  shows "\<exists>t0. t = t0 @ [Hello (dc_Domain cfg), MailFrom (job_From job), RcptTo (job_To job), DataCmd,
      Body body, EndData, Quit]"
    "ho_close (net host) = None"
  using assms by (auto simp: sendToHost_def Let_def split: prod.splits option.splits)

text \<open>Only an SMTP reply can make the failure of a host permanent.\<close>

lemma isPermanent_classify:
  "isPermanent lib (classifySMTPErr lib stage e) \<longleftrightarrow>
     (\<exists>s. as_smtp e = Some s \<and> \<not> smtp_temporary lib s)"
  by (auto simp: isPermanent_def classifySMTPErr_def temporaryErr_def permanentErr_def Let_def split: option.splits)

subsection \<open>Properties\<close>

text \<open>
  \<open>send\<close> tries the hosts in the order given, never more than needed: the hosts contacted are a
  nonempty prefix of the list, all but the last of them failed temporarily, and the result is that
  of the last one contacted; it returns success exactly when that host accepted the message, and if
  it returns a temporary error then every host was tried.
\<close>

theorem send_tries_hosts_in_order:
  assumes "mxs \<noteq> []"
  shows "prefix (hosts_tried lib cfg net job body mxs) mxs \<and> hosts_tried lib cfg net job body mxs \<noteq> []
    \<and> map fst (snd (send lib cfg net job body mxs)) = map mx_Host (hosts_tried lib cfg net job body mxs)
    \<and> (\<forall>m \<in> set (butlast (hosts_tried lib cfg net job body mxs)).
         \<exists>e. fst (sendToHost lib cfg net job body (mx_Host m)) = Some e \<and> \<not> isPermanent lib e)
    \<and> fst (send lib cfg net job body mxs)
        = fst (sendToHost lib cfg net job body (mx_Host (last (hosts_tried lib cfg net job body mxs))))
    \<and> (\<forall>e. fst (send lib cfg net job body mxs) = Some e \<and> \<not> isPermanent lib e \<longrightarrow>
         hosts_tried lib cfg net job body mxs = mxs)"
proof (intro conjI)
  let ?h = "hosts_tried lib cfg net job body mxs"
  show "prefix ?h mxs" by (rule hosts_tried_prefix)
  show "?h \<noteq> []" using assms by (cases mxs) (auto simp: hosts_tried_def)
  show "map fst (snd (send lib cfg net job body mxs)) = map mx_Host ?h"
    by (simp add: send_def send_loop_tried)
  show "\<forall>m \<in> set (butlast ?h). \<exists>e. fst (sendToHost lib cfg net job body (mx_Host m)) = Some e \<and> \<not> isPermanent lib e"
    using hosts_tried_before by (fastforce simp: passed_over_def host_result_def)
  show r: "fst (send lib cfg net job body mxs) = fst (sendToHost lib cfg net job body (mx_Host (last ?h)))"
    using assms by (simp add: send_def send_loop_result host_result_def)
  show "\<forall>e. fst (send lib cfg net job body mxs) = Some e \<and> \<not> isPermanent lib e \<longrightarrow> ?h = mxs"
    using hosts_tried_all[OF _ assms] r by (auto simp: passed_over_def host_result_def)
qed

definition demo_lib :: gosmtp_lib where
  "demo_lib = \<lparr>smtp_temporary = (\<lambda>s. 400 \<le> se_code s \<and> se_code s < 500), smtp_error_text = se_message\<rparr>"

definition demo_up :: host_outcome where
  "demo_up = \<lparr>ho_dial = None, ho_starttls = None, ho_redial = None, ho_hello = None, ho_mail = None,
     ho_rcpt = None, ho_data = None, ho_write = None, ho_close = None\<rparr>"

definition demo_net :: "string \<Rightarrow> host_outcome" where
  "demo_net h = (if h = ''mx1.'' then demo_up\<lparr>ho_dial := Some (ErrNew ''refused'')\<rparr> else demo_up)"

definition demo_cfg :: deliver_config where
  "demo_cfg = withDefaults \<lparr>dc_Domain = ''mta.test'', dc_Port = 0, dc_BackoffBase = 0, dc_BackoffMax = 0,
     dc_MaxAttempts = 0, dc_PerDomainConcurrency = 0, dc_PollInterval = 0, dc_DialTimeout = 0,
     dc_QueueDepthSampleInterval = 0\<rparr>"

theorem send_tries_hosts_in_order_witness:
  "map fst (snd (send demo_lib demo_cfg demo_net (demo_job ''a'' 1) ''x''
      [\<lparr>mx_Host = ''mx1.'', mx_Pref = 5\<rparr>, \<lparr>mx_Host = ''mx2.'', mx_Pref = 10\<rparr>, \<lparr>mx_Host = ''mx3.'', mx_Pref = 20\<rparr>]))
     = [''mx1.'', ''mx2.'']"
proof -
  let ?ms = "[\<lparr>mx_Host = ''mx1.'', mx_Pref = 5\<rparr>, \<lparr>mx_Host = ''mx2.'', mx_Pref = 10\<rparr>, \<lparr>mx_Host = ''mx3.'', mx_Pref = 20\<rparr>]"
  have "hosts_tried demo_lib demo_cfg demo_net (demo_job ''a'' 1) ''x'' ?ms = take 2 ?ms"
    by (simp add: hosts_tried_def passed_over_def host_result_def sendToHost_def dial_def demo_net_def demo_up_def
        temporaryErr_def isPermanent_def Let_def)
  then show ?thesis
    using send_tries_hosts_in_order[of ?ms demo_lib demo_cfg demo_net "demo_job ''a'' 1" "''x''"] by simp
qed

text \<open>
  C15: \<open>handle\<close> on a stored job, for every outcome of the attempt: it never panics; a delivered job and
  a bounced one leave the queue, a job that failed temporarily with attempts left stays, unclaimed,
  with one more attempt and due within \<open>BackoffMax\<close>; a job bounces exactly when the failure is
  permanent or the attempts are used up, and only then the bounce counter moves or anything is
  written to the store; no other job is touched.
\<close>

theorem handle_outcome:
  assumes "mq_inv job_ID (ds_queue d)" "mq_pending (ds_queue d) (job_ID j) = Some j" "de_ctx env = None"
    "0 < dc_BackoffBase cfg" "dc_BackoffBase cfg < 2 ^ 53" "0 < dc_BackoffMax cfg" "dc_BackoffMax cfg < 2 ^ 53"
    "rand_ok (de_rand env)"
  shows "\<exists>d'. handle MemoryBackend_ops dirops dir store cfg env j d = Some d'
    \<and> mq_inv job_ID (ds_queue d') \<and> \<not> mq_claims (ds_queue d') (job_ID j)
    \<and> (\<forall>k. k \<noteq> job_ID j \<longrightarrow> mq_pending (ds_queue d') k = mq_pending (ds_queue d) k
          \<and> mq_claims (ds_queue d') k = mq_claims (ds_queue d) k)
    \<and> (case fst (Deliverer_attempt store cfg env j (ds_store d)) of
         None \<Rightarrow> mq_pending (ds_queue d') (job_ID j) = None \<and> ds_store d' = ds_store d \<and> ds_bounces d' = ds_bounces d
           \<and> ds_hooks d' = fireDelivered env j (ds_hooks d)
       | Some e \<Rightarrow>
           if isPermanent (de_lib env) e \<or> job_Attempts j + 1 \<ge> dc_MaxAttempts cfg
           then mq_pending (ds_queue d') (job_ID j) = None \<and> ds_bounces d' = Suc (ds_bounces d)
             \<and> (\<exists>cause. ds_store d' = deliverBounce dirops dir store cfg env j cause (ds_store d)
                  \<and> ds_hooks d' = fireBounced env j cause (ds_hooks d))
           else ds_store d' = ds_store d \<and> ds_bounces d' = ds_bounces d
             \<and> (\<exists>j'. mq_pending (ds_queue d') (job_ID j) = Some j' \<and> job_Attempts j' = job_Attempts j + 1
                  \<and> job_To j' = job_To j \<and> job_From j' = job_From j \<and> job_BodyRef j' = job_BodyRef j
                  \<and> de_now env \<le> job_NextAttemptAt j' \<and> job_NextAttemptAt j' < de_now env + dc_BackoffMax cfg))"
proof -
  obtain delay where delay: "FullJitter (job_Attempts j) (dc_BackoffBase cfg) (dc_BackoffMax cfg) (de_rand env) = Some delay"
    "0 \<le> delay" "delay < dc_BackoffMax cfg"
    using FullJitter_exact assms(4-8) by blast
  have cq: "q_Complete MemoryBackend_ops None (job_ID j) (ds_queue d)
      = (None, snd (mem_Complete ''queue: job'' None (job_ID j) (ds_queue d)))"
    using assms(2) by (simp add: MemoryBackend_ops_def MemoryBackend_defs mem_Complete_def mq_view)
  have fq: "\<And>e t. q_Fail MemoryBackend_ops None (job_ID j) e t (ds_queue d)
      = (None, snd (mem_Fail job_retry ''queue: job'' None (job_ID j) e t (ds_queue d)))"
    using assms(2) by (simp add: MemoryBackend_ops_def MemoryBackend_defs mem_Fail_def mq_view)
  note fin = mb.comp_ok[OF assms(1) cq] and again = mb.fail_ok[OF assms(1) fq]
  show ?thesis
  proof (cases "fst (Deliverer_attempt store cfg env j (ds_store d))")
    case None
    then show ?thesis using cq fin assms(3) by (auto simp: handle_def)
  next
    case (Some e)
    show ?thesis
    proof (cases "isPermanent (de_lib env) e \<or> job_Attempts j + 1 \<ge> dc_MaxAttempts cfg")
      case True
      with Some show ?thesis using cq fin assms(3) by (auto simp: handle_def Let_def)
    next
      case False
      with Some show ?thesis
        using fq again[of "Some (err_text (de_lib env) e)" "de_now env + delay"] assms(2,3) delay
        by (auto simp: handle_def Deliverer_nextBackoff_def Let_def)
    qed
  qed
qed

definition demo_env :: "unit deliver_env" where
  "demo_env = \<lparr>de_ctx = None, de_lib = demo_lib, de_resolver = (\<lambda>d. Inr [\<lparr>mx_Host = ''mx1.'', mx_Pref = 5\<rparr>]),
     de_seed = 0, de_net = demo_net, de_rand = (\<lambda>n. 0), de_now = 100, de_uuid_boundary = ''b'',
     de_uuid_msgid = ''m'', de_uuid_event = ''e'', de_date = ''d'', de_marshal_data = (\<lambda>_. Inr []),
     de_marshal_env = (\<lambda>_. Inr []), de_webhooks = None\<rparr>"

definition demo_store_ops :: "(message_ref \<times> bytes) list store_ops" where
  "demo_store_ops = \<lparr>s_Write = (\<lambda>ctx v m b s. (Inr \<lparr>ref_Vhost = v, ref_Mailbox = m, ref_Key = ''k''\<rparr>,
       (\<lparr>ref_Vhost = v, ref_Mailbox = m, ref_Key = ''k''\<rparr>, b) # s)),
     s_Read = (\<lambda>ctx r s. case map_of s r of Some b \<Rightarrow> Inr b | None \<Rightarrow> Inl (ErrNew ''none'')),
     s_List = (\<lambda>ctx n v m s. Inr []), s_ListVhost = (\<lambda>ctx n v s. Inr []),
     s_UpdateFlags = (\<lambda>ctx r f s. (None, s)), s_Delete = (\<lambda>ctx r s. (None, s))\<rparr>"

definition demo_ds :: "(memory_backend, (message_ref \<times> bytes) list, unit) deliver_state" where
  "demo_ds = \<lparr>ds_queue = demo_two, ds_store = [(\<lparr>ref_Vhost = ''a.test'', ref_Mailbox = ''Outbox'', ref_Key = ''r''\<rparr>, ''body'')],
     ds_hooks = (), ds_bounces = 0\<rparr>"

lemma demo_two_inv: "mq_inv job_ID demo_two"
  by (auto simp: mq_inv_def demo_two_def demo_job_def gomap_bool_def split: if_splits)

theorem handle_outcome_witness:
  "\<exists>d'. handle MemoryBackend_ops memory_directory_ops memory_New demo_store_ops demo_cfg demo_env (demo_job ''a'' 5) demo_ds = Some d'
     \<and> ds_bounces d' = 0 \<and> (\<exists>j'. mq_pending (ds_queue d') ''a'' = Some j' \<and> job_Attempts j' = 1)"
proof -
  let ?j = "demo_job ''a'' 5"
  have p: "mq_inv job_ID (ds_queue demo_ds)" "mq_pending (ds_queue demo_ds) (job_ID ?j) = Some ?j"
    "de_ctx demo_env = None" "0 < dc_BackoffBase demo_cfg" "dc_BackoffBase demo_cfg < 2 ^ 53"
    "0 < dc_BackoffMax demo_cfg" "dc_BackoffMax demo_cfg < 2 ^ 53" "rand_ok (de_rand demo_env)"
    using demo_two_inv by (simp_all add: demo_ds_def demo_two_def demo_job_def mq_view demo_env_def demo_cfg_def
        withDefaults_def rand_ok_def)
  have m: "map_range 0 [x] = [x]" for x :: mx by (simp add: Let_def)
  have e: "fst (Deliverer_attempt demo_store_ops demo_cfg demo_env ?j (ds_store demo_ds))
      = Some (temporaryErr (ErrWrap (''deliverer: connect to '' @ JoinHostPort (trim_suffix ''mx1.'' ''.'') (dc_Port demo_cfg)) (ErrNew ''refused'')))"
    by (simp add: Deliverer_attempt_def destinationDomain_def ParseAddress_def demo_job_def lookupMX_def demo_env_def
        m demo_store_ops_def demo_ds_def OutboxMailbox_def send_def sendToHost_def dial_def demo_net_def demo_up_def
        temporaryErr_def isPermanent_def Let_def prefix_Cons)
  show ?thesis
    using handle_outcome[OF p, of memory_directory_ops memory_New demo_store_ops] unfolding e
    by (auto simp: temporaryErr_def isPermanent_def demo_job_def demo_cfg_def withDefaults_def demo_ds_def)
qed

text \<open>
  C19: The running deliverer keeps its promises in every interleaving of its goroutines over the
  in-memory queue, cancelled calls included: never more than \<open>PerDomainConcurrency\<close> transactions to
  one destination domain at a time, no two goroutines with the same job, and every queued job with
  fewer than \<open>MaxAttempts\<close> attempts behind it (or none), so that no job is retried for ever.
\<close>

theorem Deliverer_Run_safe:
  assumes "run_reachable MemoryBackend_ops dirops dir store cfg mq_pending d0 r" "ds_queue d0 = NewMemoryBackend"
  shows "(\<forall>dom. int (card {g. \<exists>j. rs_go r g = GSend j \<and> destinationDomain (job_To j) = dom})
            \<le> max 1 (dc_PerDomainConcurrency cfg))
    \<and> (\<forall>g g' j j'. rs_go r g \<in> {GWait j, GSend j} \<and> rs_go r g' \<in> {GWait j', GSend j'} \<and> job_ID j = job_ID j'
          \<longrightarrow> g = g')
    \<and> (\<forall>k j. mq_pending (ds_queue (rs_state r)) k = Some j \<longrightarrow>
          0 \<le> job_Attempts j \<and> (job_Attempts j < dc_MaxAttempts cfg \<or> job_Attempts j = 0))"
proof (intro conjI)
  have "sem_inv cfg r" by (rule sem_inv_reachable[OF assms(1)])
  then show "\<forall>dom. int (card {g. \<exists>j. rs_go r g = GSend j \<and> destinationDomain (job_To j) = dom})
      \<le> max 1 (dc_PerDomainConcurrency cfg)"
    by (auto simp: sem_inv_def sem_bound_def senders_def split: if_splits)
  have "retry_reachable MemoryBackend_ops job_ID job_Attempts (dc_MaxAttempts cfg) mq_pending
      NewMemoryBackend (ds_queue (rs_state r), held_of (rs_go r))"
    by (rule obq.run_retry_reachable[OF assms])
  then have ok: "mb.retry_ok job_Attempts (dc_MaxAttempts cfg) (ds_queue (rs_state r), held_of (rs_go r))"
    by (rule mb.retry_ok_reachable[rotated]) simp
  show "\<forall>k j. mq_pending (ds_queue (rs_state r)) k = Some j \<longrightarrow>
      0 \<le> job_Attempts j \<and> (job_Attempts j < dc_MaxAttempts cfg \<or> job_Attempts j = 0)"
    using ok by (simp add: mb.retry_ok_def mb.att_ok_def)
  have x: "\<forall>w w' j j'. held_of (rs_go r) w = Some j \<and> held_of (rs_go r) w' = Some j' \<and> job_ID j = job_ID j' \<longrightarrow> w = w'"
    using ok by (simp add: mb.retry_ok_def mb.excl_def)
  have h: "held_of (rs_go r) g = Some j" if "rs_go r g \<in> {GWait j, GSend j}" for g j
    using that by (auto simp: held_of_def)
  show "\<forall>g g' j j'. rs_go r g \<in> {GWait j, GSend j} \<and> rs_go r g' \<in> {GWait j', GSend j'} \<and> job_ID j = job_ID j' \<longrightarrow> g = g'"
    using x h by blast
qed

theorem Deliverer_Run_safe_witness:
  "\<exists>r. run_reachable MemoryBackend_ops memory_directory_ops memory_New demo_store_ops demo_cfg mq_pending
       (demo_ds\<lparr>ds_queue := NewMemoryBackend\<rparr>) r
     \<and> rs_go r 0 = GSend (demo_job ''a'' 5)
     \<and> int (card {g. \<exists>j. rs_go r g = GSend j \<and> destinationDomain (job_To j) = ''b.test''}) \<le> 5"
proof -
  let ?d0 = "demo_ds\<lparr>ds_queue := NewMemoryBackend\<rparr>" and ?j = "demo_job ''a'' 5"
  let ?R = "run_reachable MemoryBackend_ops memory_directory_ops memory_New demo_store_ops demo_cfg mq_pending ?d0"
  let ?r0 = "\<lparr>rs_state = ?d0, rs_sem = newDomainSemaphores (dc_PerDomainConcurrency demo_cfg), rs_go = (\<lambda>_. GIdle)\<rparr>"
  let ?q1 = "\<lparr>mq_jobs = [(''a'', ?j)], mq_claimed = []\<rparr>" and ?q2 = "\<lparr>mq_jobs = [(''a'', ?j)], mq_claimed = [(''a'', True)]\<rparr>"
  let ?r1 = "?r0\<lparr>rs_state := (rs_state ?r0)\<lparr>ds_queue := ?q1\<rparr>\<rparr>"
  let ?r2 = "?r1\<lparr>rs_state := (rs_state ?r1)\<lparr>ds_queue := ?q2\<rparr>, rs_go := (rs_go ?r1)(0 := GWait ?j)\<rparr>"
  have "?R ?r1"
    by (rule run_next[OF run_init], rule run_enqueue[of ?j _ ?r0 _ None None])
      (simp_all add: demo_job_def MemoryBackend_ops_def MemoryBackend_defs mem_Enqueue_def mem_new_def mq_view)
  then have r2: "?R ?r2"
    by (rule run_next, intro run_spawn[of ?r1 0 _ None 9 0])
      (simp_all add: demo_job_def MemoryBackend_ops_def MemoryBackend_defs mem_Dequeue_def Let_def)
  obtain s' where acq: "acquire (destinationDomain (job_To ?j)) (rs_sem ?r2) = Some s'"
    by (simp add: acquire_def newDomainSemaphores_def demo_cfg_def withDefaults_def)
  let ?r3 = "?r2\<lparr>rs_sem := s', rs_go := (rs_go ?r2)(0 := GSend ?j)\<rparr>"
  have r3: "?R ?r3"
    by (rule run_next[OF r2], rule run_acquire[OF _ acq]) simp
  have "max 1 (dc_PerDomainConcurrency demo_cfg) = 5" by (simp add: demo_cfg_def withDefaults_def)
  moreover have "ds_queue ?d0 = NewMemoryBackend" by simp
  note Deliverer_Run_safe[OF r3 this, THEN conjunct1, THEN spec, of "''b.test''"]
  ultimately have "int (card {g. \<exists>j. rs_go ?r3 g = GSend j \<and> destinationDomain (job_To j) = ''b.test''}) \<le> 5"
    by argo
  moreover have "rs_go ?r3 0 = GSend ?j" by simp
  ultimately show ?thesis using r3 by blast
qed

lemma sanitize_no_newline:
  "CHR 0x0D \<notin> set (sanitizeHeaderValue s)" "CHR 0x0A \<notin> set (sanitizeHeaderValue s)"
  by (auto simp: sanitizeHeaderValue_def replace_all_def)

lemma buildDSN_diagnostic:
  assumes "buildDSN lib u1 u2 date j mta cause = Inr dsn"
  shows "sublist (''Diagnostic-Code: smtp;'' @ sanitizeHeaderValue (err_text lib cause) @ crlf) dsn"
proof -
  let ?d = "''Diagnostic-Code: smtp;'' @ sanitizeHeaderValue (err_text lib cause) @ crlf"
  let ?s = "dsn_status j mta (sanitizeHeaderValue (err_text lib cause))"
  let ?p = "multipart_part False (''DSN_'' @ u1) ''message/delivery-status'' ?s"
  have "suffix ?d ?s" unfolding dsn_status_def by (intro suffix_appendI suffix_order.refl)
  moreover have "suffix ?s ?p" unfolding multipart_part_def by (intro suffix_appendI suffix_order.refl)
  ultimately have "sublist ?d ?p" by (meson suffix_imp_sublist suffix_order.trans)
  moreover have "dsn = (dsn_head (''DSN_'' @ u1) u2 date j mta @ multipart_part True (''DSN_'' @ u1)
      ''text/plain; charset=utf-8'' (dsn_explanation j (sanitizeHeaderValue (err_text lib cause)))) @ ?p
      @ (multipart_part False (''DSN_'' @ u1) ''message/rfc822-headers''
          (''From: '' @ job_From j @ crlf @ ''To: '' @ job_To j @ crlf) @ multipart_close (''DSN_'' @ u1))"
    using assms by (auto simp: buildDSN_def Let_def split: if_splits)
  then have "sublist ?p dsn" by (simp only: sublist_appendI)
  ultimately show ?thesis by (rule sublist_order.order.trans)
qed

text \<open>
  A bounce goes to a hosted sender only: \<open>deliverBounce\<close> either leaves the store alone or makes
  exactly one write, into the INBOX of the sender's local part in the sender's own domain, and it
  writes exactly when the sender address is well formed, its domain is an active vhost and the DSN
  can be built; the diagnostic line of the DSN carries the error text on one line, whatever the
  remote server replied.
\<close>

theorem deliverBounce_local_sender_only:
  "(case ParseAddress (job_From j) of
      None \<Rightarrow> deliverBounce dirops dir store cfg env j cause st = st
    | Some (l, domain) \<Rightarrow>
        (\<not> dir_VhostActive dirops domain dir \<longrightarrow> deliverBounce dirops dir store cfg env j cause st = st)
        \<and> (\<forall>dsn. dir_VhostActive dirops domain dir
             \<and> buildDSN (de_lib env) (de_uuid_boundary env) (de_uuid_msgid env) (de_date env) j (dc_Domain cfg) cause = Inr dsn
             \<longrightarrow> deliverBounce dirops dir store cfg env j cause st
                   = snd (s_Write store (de_ctx env) domain (l @ ''/INBOX'') dsn st)
                 \<and> (\<exists>diag. sublist (''Diagnostic-Code: smtp;'' @ diag @ crlf) dsn
                      \<and> length diag = length (err_text (de_lib env) cause)
                      \<and> CHR 0x0D \<notin> set diag \<and> CHR 0x0A \<notin> set diag)))
   \<and> (valid_boundary (''DSN_'' @ de_uuid_boundary env) \<longrightarrow>
        (\<exists>dsn. buildDSN (de_lib env) (de_uuid_boundary env) (de_uuid_msgid env) (de_date env) j (dc_Domain cfg) cause = Inr dsn))"
proof (rule conjI)
  have len: "length (sanitizeHeaderValue s) = length s" for s by (simp add: sanitizeHeaderValue_def)
  show "case ParseAddress (job_From j) of
      None \<Rightarrow> deliverBounce dirops dir store cfg env j cause st = st
    | Some (l, domain) \<Rightarrow>
        (\<not> dir_VhostActive dirops domain dir \<longrightarrow> deliverBounce dirops dir store cfg env j cause st = st)
        \<and> (\<forall>dsn. dir_VhostActive dirops domain dir
             \<and> buildDSN (de_lib env) (de_uuid_boundary env) (de_uuid_msgid env) (de_date env) j (dc_Domain cfg) cause = Inr dsn
             \<longrightarrow> deliverBounce dirops dir store cfg env j cause st
                   = snd (s_Write store (de_ctx env) domain (l @ ''/INBOX'') dsn st)
                 \<and> (\<exists>diag. sublist (''Diagnostic-Code: smtp;'' @ diag @ crlf) dsn
                      \<and> length diag = length (err_text (de_lib env) cause)
                      \<and> CHR 0x0D \<notin> set diag \<and> CHR 0x0A \<notin> set diag))"
  proof (cases "ParseAddress (job_From j)")
    case None
    then show ?thesis by (simp add: deliverBounce_def)
  next
    case (Some ld)
    obtain l domain where ld: "ld = (l, domain)" by fastforce
    have "\<exists>diag. sublist (''Diagnostic-Code: smtp;'' @ diag @ crlf) dsn
        \<and> length diag = length (err_text (de_lib env) cause) \<and> CHR 0x0D \<notin> set diag \<and> CHR 0x0A \<notin> set diag"
      if "buildDSN (de_lib env) (de_uuid_boundary env) (de_uuid_msgid env) (de_date env) j (dc_Domain cfg) cause = Inr dsn" for dsn
      using buildDSN_diagnostic[OF that] sanitize_no_newline len by blast
    then show ?thesis using Some ld by (simp add: deliverBounce_def MailboxPath_def)
  qed
  show "valid_boundary (''DSN_'' @ de_uuid_boundary env) \<longrightarrow>
      (\<exists>dsn. buildDSN (de_lib env) (de_uuid_boundary env) (de_uuid_msgid env) (de_date env) j (dc_Domain cfg) cause = Inr dsn)"
    by (simp add: buildDSN_def Let_def)
qed

theorem deliverBounce_local_sender_only_witness:
  "deliverBounce memory_directory_ops memory_New demo_store_ops demo_cfg demo_env (demo_job ''a'' 5) (ErrNew ''x'') [] = []"
proof -
  have "ParseAddress (job_From (demo_job ''a'' 5)) = Some (''u'', ''a.test'')"
    by (simp add: ParseAddress_def demo_job_def prefix_Cons)
  then show ?thesis
    using deliverBounce_local_sender_only[where j = "demo_job ''a'' 5" and dirops = memory_directory_ops
        and dir = memory_New and store = demo_store_ops and cfg = demo_cfg and env = demo_env
        and cause = "ErrNew ''x''" and st = "[]"]
    by (simp add: memory_directory_ops_def memory_VhostActive_def memory_Vhost_def memory_New_def)
qed

end
