(* ===== verification/Filter_Pipeline.thy ===== *)
theory Filter_Pipeline
  imports Complex_Main Env_Prelude
begin

section \<open>Inbound filtering: internal/filter\<close>

text \<open>
  The accept/quarantine/reject pipeline. The SPF, DKIM and DMARC libraries, the public suffix list,
  the message parser of the standard library and the HTTP exchange with rspamd are arguments;
  everything the package does with their answers is defined here.
\<close>

datatype verdict = Accept | Quarantine | Reject

datatype spf_result = SPFNone | SPFNeutral | SPFPass | SPFFail | SPFSoftFail | SPFTempError | SPFPermError

datatype dmarc_policy = PolicyNone | PolicyQuarantine | PolicyReject
datatype alignment_mode = AlignmentStrict | AlignmentRelaxed | AlignmentUnset

record dmarc_record =
  dm_Policy :: dmarc_policy
  dm_SPFAlignment :: alignment_mode
  dm_DKIMAlignment :: alignment_mode

record dkim_result =
  dk_Domain :: string
  dk_Valid :: bool

record filter_result =
  fr_Verdict :: verdict
  fr_Reason :: string
  fr_SPF :: spf_result
  fr_DKIM :: "dkim_result list"
  fr_DMARC :: "dmarc_record option"
  fr_Aligned :: bool
  fr_SpamScore :: real
  fr_FailedOpen :: bool

record filter_input =
  in_Body :: bytes
  in_MailFrom :: string
  in_RcptTo :: "string list"
  in_ClientIP :: "string option"
  in_HeloDomain :: string
  in_RejectThreshold :: real
  in_QuarantineThreshold :: real

subsection \<open>dkim.go, dmarc.go and rspamd\<close>

text \<open>\<open>VerifyDKIM\<close>: the library yields an error or a domain and an error per signature.\<close>

definition VerifyDKIM :: "(bytes \<Rightarrow> gerr + (string \<times> gerr option) list) \<Rightarrow> bytes \<Rightarrow> gerr + dkim_result list" where
  "VerifyDKIM dkim_verify r =
     (case dkim_verify r of
        Inl e \<Rightarrow> Inl e
      | Inr verifications \<Rightarrow> Inr (map (\<lambda>(d, e). \<lparr>dk_Domain = d, dk_Valid = (e = None)\<rparr>) verifications))"

definition dmarc_ErrNoPolicy :: string where
  "dmarc_ErrNoPolicy = ''dmarc: no policy found for domain''"

definition LookupDMARC :: "(string \<Rightarrow> gerr + dmarc_record) \<Rightarrow> string \<Rightarrow> gerr + dmarc_record option" where
  "LookupDMARC dmarc_lookup fromDomain =
     (case dmarc_lookup fromDomain of
        Inl e \<Rightarrow> if errors_is dmarc_ErrNoPolicy e then Inr None else Inl e
      | Inr r \<Rightarrow> Inr (Some r))"

definition Aligned :: "(string \<Rightarrow> gerr + string) \<Rightarrow> string \<Rightarrow> string \<Rightarrow> alignment_mode \<Rightarrow> bool" where
  "Aligned etld1 authDomain fromDomain mode =
     (let authDomain = to_lower authDomain; fromDomain = to_lower fromDomain in
      if authDomain = fromDomain then True
      else if mode = AlignmentStrict then False
      else case (etld1 authDomain, etld1 fromDomain) of
             (Inr authOrg, Inr fromOrg) \<Rightarrow> authOrg = fromOrg
           | _ \<Rightarrow> False)"

record rspamd_verdict =
  rv_Action :: string
  rv_Score :: real
  rv_RequiredScore :: real
  rv_Symbols :: "real gomap"

record rspamd_request =
  rq_URL :: string
  rq_From :: "string option"
  rq_Rcpt :: "string list"
  rq_Body :: bytes

text \<open>
  \<open>Client.Check\<close>: \<open>new_request\<close> is the error of building the request, \<open>http_do\<close> the exchange (a
  status code and a body), \<open>decode\<close> the JSON decoder.
\<close>

definition rspamd_Check :: "(string \<Rightarrow> gerr option) \<Rightarrow> (rspamd_request \<Rightarrow> gerr + int \<times> bytes)
    \<Rightarrow> (bytes \<Rightarrow> gerr + rspamd_verdict) \<Rightarrow> string \<Rightarrow> string \<Rightarrow> string list \<Rightarrow> bytes \<Rightarrow> gerr + rspamd_verdict" where
  "rspamd_Check new_request http_do decode baseURL from rcpts body =
     (case new_request (baseURL @ ''/checkv2'') of
        Some e \<Rightarrow> Inl (ErrWrap ''rspamd: build request'' e)
      | None \<Rightarrow>
      (case http_do \<lparr>rq_URL = baseURL @ ''/checkv2'', rq_From = (if from \<noteq> [] then Some from else None),
                     rq_Rcpt = rcpts, rq_Body = body\<rparr> of
         Inl e \<Rightarrow> Inl (ErrWrap ''rspamd: request failed'' e)
       | Inr (status, resp) \<Rightarrow>
           if status \<noteq> 200 then Inl (ErrNew (''rspamd: unexpected status '' @ itoa status))
           else (case decode resp of
                   Inl e \<Rightarrow> Inl (ErrWrap ''rspamd: decode response'' e)
                 | Inr v \<Rightarrow> Inr v)))"

subsection \<open>verdict.go\<close>

definition domainOf :: "string \<Rightarrow> string" where
  "domainOf addr = (case go_cut ''@'' addr of (_, domain, ok) \<Rightarrow> if \<not> ok then [] else domain)"

definition senderDomain :: "string \<Rightarrow> string \<Rightarrow> string" where
  "senderDomain mailFrom heloDomain = (let d = domainOf mailFrom in if d \<noteq> [] then d else heloDomain)"

text \<open>\<open>from_header\<close> is \<open>mail.ReadMessage\<close> and \<open>Get("From")\<close>, \<open>parse_addr\<close> is \<open>mail.ParseAddress\<close>.\<close>

definition fromHeaderDomain :: "(bytes \<Rightarrow> gerr + string) \<Rightarrow> (string \<Rightarrow> gerr + string) \<Rightarrow> bytes \<Rightarrow> string" where
  "fromHeaderDomain from_header parse_addr body =
     (case from_header body of
        Inl e \<Rightarrow> []
      | Inr h \<Rightarrow> (case parse_addr h of Inl e \<Rightarrow> [] | Inr addr \<Rightarrow> domainOf addr))"

definition decide :: "dmarc_record option \<Rightarrow> bool \<Rightarrow> real \<Rightarrow> bool \<Rightarrow> real \<Rightarrow> real \<Rightarrow> verdict \<times> string" where
  "decide record aligned spamScore failedOpen rejectThreshold quarantineThreshold =
     (if \<not> failedOpen \<and> rejectThreshold > 0 \<and> spamScore \<ge> rejectThreshold
      then (Reject, ''spam score at or above reject threshold'')
      else if (case record of Some r \<Rightarrow> \<not> aligned \<and> dm_Policy r = PolicyReject | None \<Rightarrow> False)
      then (Reject, ''DMARC policy=reject and message is not aligned'')
      else if failedOpen then (Quarantine, ''rspamd unavailable; failing open to quarantine (FR-2.6)'')
      else if quarantineThreshold > 0 \<and> spamScore \<ge> quarantineThreshold
      then (Quarantine, ''spam score at or above quarantine threshold'')
      else if (case record of Some r \<Rightarrow> \<not> aligned \<and> dm_Policy r = PolicyQuarantine | None \<Rightarrow> False)
      then (Quarantine, ''DMARC policy=quarantine and message is not aligned'')
      else (Accept, ''passed all checks''))"

record filter_libs =
  fl_spf :: "string option \<Rightarrow> string \<Rightarrow> string \<Rightarrow> spf_result \<times> gerr option"
  fl_dkim :: "bytes \<Rightarrow> gerr + (string \<times> gerr option) list"
  fl_dmarc :: "string \<Rightarrow> gerr + dmarc_record"
  fl_etld1 :: "string \<Rightarrow> gerr + string"
  fl_from_header :: "bytes \<Rightarrow> gerr + string"
  fl_parse_addr :: "string \<Rightarrow> gerr + string"
  fl_rspamd :: "string \<Rightarrow> string list \<Rightarrow> bytes \<Rightarrow> gerr + rspamd_verdict"

definition dmarc_aligned :: "filter_libs \<Rightarrow> filter_input \<Rightarrow> spf_result \<Rightarrow> dkim_result list \<Rightarrow> string \<Rightarrow> dmarc_record \<Rightarrow> bool" where
  "dmarc_aligned L inp spf dkims fromDomain r =
     (let aligned = (if spf = SPFPass
            then Aligned (fl_etld1 L) (senderDomain (in_MailFrom inp) (in_HeloDomain inp)) fromDomain (dm_SPFAlignment r)
            else False)
      in if aligned then True
         else list_ex (\<lambda>d. dk_Valid d \<and> Aligned (fl_etld1 L) (dk_Domain d) fromDomain (dm_DKIMAlignment r)) dkims)"

text \<open>\<open>Evaluate\<close>, with the counter \<open>SpamScorerUnavailableTotal\<close>.\<close>

definition Evaluate :: "filter_libs \<Rightarrow> filter_input \<Rightarrow> nat \<Rightarrow> filter_result \<times> nat" where
  "Evaluate L inp unavailable =
     (let spf = fst (fl_spf L (in_ClientIP inp) (in_HeloDomain inp) (in_MailFrom inp));
          dkims = (case VerifyDKIM (fl_dkim L) (in_Body inp) of Inl e \<Rightarrow> [] | Inr ds \<Rightarrow> ds);
          fromDomain = fromHeaderDomain (fl_from_header L) (fl_parse_addr L) (in_Body inp);
          record = (if fromDomain \<noteq> [] then (case LookupDMARC (fl_dmarc L) fromDomain of
                      Inr r \<Rightarrow> r | Inl e \<Rightarrow> None) else None);
          aligned = (case record of None \<Rightarrow> False | Some r \<Rightarrow> dmarc_aligned L inp spf dkims fromDomain r);
          (spamScore, failedOpen, unavailable) =
            (case fl_rspamd L (in_MailFrom inp) (in_RcptTo inp) (in_Body inp) of
               Inl e \<Rightarrow> (0, True, Suc unavailable) | Inr rv \<Rightarrow> (rv_Score rv, False, unavailable));
          (v, reason) = decide record aligned spamScore failedOpen (in_RejectThreshold inp) (in_QuarantineThreshold inp)
      in (\<lparr>fr_Verdict = v, fr_Reason = reason, fr_SPF = spf, fr_DKIM = dkims, fr_DMARC = record,
           fr_Aligned = aligned, fr_SpamScore = spamScore, fr_FailedOpen = failedOpen\<rparr>, unavailable))"

subsection \<open>What DMARC asks\<close>

text \<open>
  The specification, in terms of the answers of the libraries alone: the domain of an address is
  what follows its first \<open>@\<close>; a policy applies when the From header has such a domain and a record
  is published for it; a message is authentic for the domain when SPF passed for the envelope
  sender's domain (the HELO name for a sender without one) or a DKIM signature verified, and the
  domain that passed is the From domain, or has the same organisational domain unless the record
  demands strict alignment.
\<close>

definition after_at :: "string \<Rightarrow> string \<Rightarrow> bool" where
  "after_at addr d \<longleftrightarrow> d \<noteq> [] \<and> (\<exists>lp. addr = lp @ ''@'' @ d \<and> CHR ''@'' \<notin> set lp)"

definition policy_record :: "filter_libs \<Rightarrow> filter_input \<Rightarrow> string \<Rightarrow> dmarc_record \<Rightarrow> bool" where
  "policy_record L inp d r \<longleftrightarrow> (\<exists>h addr. fl_from_header L (in_Body inp) = Inr h \<and> fl_parse_addr L h = Inr addr
     \<and> after_at addr d \<and> fl_dmarc L d = Inr r)"

definition domains_align :: "(string \<Rightarrow> gerr + string) \<Rightarrow> alignment_mode \<Rightarrow> string \<Rightarrow> string \<Rightarrow> bool" where
  "domains_align etld1 mode a b \<longleftrightarrow> to_lower a = to_lower b
     \<or> mode \<noteq> AlignmentStrict \<and> (\<exists>org. etld1 (to_lower a) = Inr org \<and> etld1 (to_lower b) = Inr org)"

definition authentic :: "filter_libs \<Rightarrow> filter_input \<Rightarrow> string \<Rightarrow> dmarc_record \<Rightarrow> bool" where
  "authentic L inp d r \<longleftrightarrow>
     (fst (fl_spf L (in_ClientIP inp) (in_HeloDomain inp) (in_MailFrom inp)) = SPFPass
       \<and> (\<exists>s. (after_at (in_MailFrom inp) s \<or> (\<nexists>x. after_at (in_MailFrom inp) x) \<and> s = in_HeloDomain inp)
            \<and> domains_align (fl_etld1 L) (dm_SPFAlignment r) s d))
     \<or> (\<exists>sigs s. fl_dkim L (in_Body inp) = Inr sigs \<and> (s, None) \<in> set sigs
            \<and> domains_align (fl_etld1 L) (dm_DKIMAlignment r) s d)"

definition policy_fails :: "filter_libs \<Rightarrow> filter_input \<Rightarrow> dmarc_policy \<Rightarrow> bool" where
  "policy_fails L inp p \<longleftrightarrow> (\<exists>d r. policy_record L inp d r \<and> \<not> authentic L inp d r \<and> dm_Policy r = p)"

subsection \<open>Lemmas\<close>

lemma domainOf_after_at: "d \<noteq> [] \<Longrightarrow> domainOf addr = d \<longleftrightarrow> after_at addr d"
proof -
  assume d: "d \<noteq> []"
  obtain a b f where c: "go_cut ''@'' addr = (a, b, f)" by (metis prod_cases3)
  show ?thesis
  proof
    assume "domainOf addr = d"
    then have "go_cut ''@'' addr = (a, d, True)" using c d by (auto simp: domainOf_def split: if_splits)
    then show "after_at addr d" using d go_cut_found go_cut_char_first unfolding after_at_def by blast
  next
    assume "after_at addr d"
    then obtain lp where "addr = lp @ CHR ''@'' # d" "CHR ''@'' \<notin> set lp" by (auto simp: after_at_def)
    then show "domainOf addr = d" by (simp add: domainOf_def)
  qed
qed

lemma senderDomain_identity:
  "s = senderDomain mf helo \<longleftrightarrow> after_at mf s \<or> (\<nexists>x. after_at mf x) \<and> s = helo"
proof (cases "domainOf mf = []")
  case True
  then have "\<not> after_at mf x" for x using domainOf_after_at[of x mf] by (auto simp: after_at_def)
  then show ?thesis using True by (simp add: senderDomain_def)
next
  case False
  then have "after_at mf x \<longleftrightarrow> x = domainOf mf" for x using domainOf_after_at[of x mf] by (auto simp: after_at_def)
  then show ?thesis using False by (auto simp: senderDomain_def)
qed

lemma Aligned_domains: "Aligned etld1 a b mode = domains_align etld1 mode a b"
  by (auto simp: Aligned_def domains_align_def Let_def split: sum.splits)

lemma policy_record_iff:
  "policy_record L inp d r \<longleftrightarrow> d \<noteq> [] \<and> fromHeaderDomain (fl_from_header L) (fl_parse_addr L) (in_Body inp) = d \<and> fl_dmarc L d = Inr r"
  using domainOf_after_at[of d] by (auto simp: policy_record_def fromHeaderDomain_def after_at_def split: sum.splits)

lemma dmarc_aligned_authentic:
  "dmarc_aligned L inp (fst (fl_spf L (in_ClientIP inp) (in_HeloDomain inp) (in_MailFrom inp)))
     (case VerifyDKIM (fl_dkim L) (in_Body inp) of Inl e \<Rightarrow> [] | Inr ds \<Rightarrow> ds) d r = authentic L inp d r"
proof -
  have "list_ex (\<lambda>x. dk_Valid x \<and> Aligned (fl_etld1 L) (dk_Domain x) d m)
      (case VerifyDKIM (fl_dkim L) (in_Body inp) of Inl e \<Rightarrow> [] | Inr ds \<Rightarrow> ds)
    \<longleftrightarrow> (\<exists>sigs s. fl_dkim L (in_Body inp) = Inr sigs \<and> (s, None) \<in> set sigs \<and> domains_align (fl_etld1 L) m s d)" for m
    by (force simp: VerifyDKIM_def list_ex_iff Aligned_domains split: sum.splits)
  then show ?thesis unfolding dmarc_aligned_def authentic_def Let_def Aligned_domains senderDomain_identity[symmetric]
    by auto
qed

text \<open>The fields of the result.\<close>

lemma Evaluate_DMARC: "fr_DMARC (fst (Evaluate L inp u)) = Some r \<longleftrightarrow> (\<exists>d. policy_record L inp d r)"
  by (auto simp: Evaluate_def policy_record_iff LookupDMARC_def Let_def split: prod.splits sum.splits if_splits)

lemma Evaluate_Aligned: "fr_Aligned (fst (Evaluate L inp u)) \<longleftrightarrow> (\<exists>d r. policy_record L inp d r \<and> authentic L inp d r)"
proof -
  let ?d = "fromHeaderDomain (fl_from_header L) (fl_parse_addr L) (in_Body inp)"
  have "fr_Aligned (fst (Evaluate L inp u)) \<longleftrightarrow> (\<exists>r. fr_DMARC (fst (Evaluate L inp u)) = Some r \<and> authentic L inp ?d r)"
    by (simp add: Evaluate_def Let_def dmarc_aligned_authentic split: prod.splits option.splits)
  then show ?thesis unfolding Evaluate_DMARC by (auto simp: policy_record_iff)
qed

lemma Evaluate_score:
  "fr_FailedOpen (fst (Evaluate L inp u)) \<longleftrightarrow> (\<exists>e. fl_rspamd L (in_MailFrom inp) (in_RcptTo inp) (in_Body inp) = Inl e)"
  "fl_rspamd L (in_MailFrom inp) (in_RcptTo inp) (in_Body inp) = Inr rv \<Longrightarrow> fr_SpamScore (fst (Evaluate L inp u)) = rv_Score rv"
  "snd (Evaluate L inp u) = (if \<exists>e. fl_rspamd L (in_MailFrom inp) (in_RcptTo inp) (in_Body inp) = Inl e then Suc u else u)"
  by (auto simp: Evaluate_def Let_def split: prod.splits sum.splits)

definition dmarc_fails :: "dmarc_record option \<Rightarrow> bool \<Rightarrow> dmarc_policy \<Rightarrow> bool" where
  "dmarc_fails record aligned p \<longleftrightarrow> (\<exists>r. record = Some r \<and> \<not> aligned \<and> dm_Policy r = p)"

lemma decide_reject_iff:
  "fst (decide record aligned score fo rt qt) = Reject \<longleftrightarrow>
     (\<not> fo \<and> 0 < rt \<and> rt \<le> score) \<or> dmarc_fails record aligned PolicyReject"
  by (auto simp: decide_def dmarc_fails_def split: option.splits)

lemma decide_accept_iff:
  "fst (decide record aligned score fo rt qt) = Accept \<longleftrightarrow>
     \<not> fo \<and> (0 < rt \<longrightarrow> score < rt) \<and> (0 < qt \<longrightarrow> score < qt)
     \<and> \<not> dmarc_fails record aligned PolicyReject \<and> \<not> dmarc_fails record aligned PolicyQuarantine"
  by (auto simp: decide_def dmarc_fails_def split: option.splits)

lemma Evaluate_fails:
  "dmarc_fails (fr_DMARC (fst (Evaluate L inp u))) (fr_Aligned (fst (Evaluate L inp u))) p \<longleftrightarrow> policy_fails L inp p"
  unfolding dmarc_fails_def Evaluate_DMARC Evaluate_Aligned policy_fails_def by (auto simp: policy_record_iff)

lemma Evaluate_verdict:
  "fr_Verdict (fst (Evaluate L inp u)) = fst (decide (fr_DMARC (fst (Evaluate L inp u)))
     (fr_Aligned (fst (Evaluate L inp u))) (fr_SpamScore (fst (Evaluate L inp u)))
     (fr_FailedOpen (fst (Evaluate L inp u))) (in_RejectThreshold inp) (in_QuarantineThreshold inp))"
  by (simp add: Evaluate_def Let_def split: prod.splits sum.splits)

subsection \<open>Properties\<close>


definition demo_filter :: filter_libs where
  "demo_filter = \<lparr>fl_spf = (\<lambda>ip h f. (SPFFail, None)), fl_dkim = (\<lambda>b. Inr []),
     fl_dmarc = (\<lambda>d. Inl (ErrSentinel dmarc_ErrNoPolicy)), fl_etld1 = (\<lambda>d. Inr d),
     fl_from_header = (\<lambda>b. Inr ''a@b.test''), fl_parse_addr = (\<lambda>h. Inr h),
     fl_rspamd = (\<lambda>f r b. Inl (ErrNew ''refused''))\<rparr>"

definition demo_input :: filter_input where
  "demo_input = \<lparr>in_Body = ''x'', in_MailFrom = ''a@b.test'', in_RcptTo = [''c@d.test''], in_ClientIP = None,
     in_HeloDomain = ''b.test'', in_RejectThreshold = 15, in_QuarantineThreshold = 6\<rparr>"

definition demo_dmarc :: filter_libs where
  "demo_dmarc = demo_filter\<lparr>fl_dkim := (\<lambda>b. Inr [(''b.test'', Some (ErrNew ''body hash'')), (''m.b.test'', None)]),
     fl_dmarc := (\<lambda>d. Inr \<lparr>dm_Policy = PolicyReject, dm_SPFAlignment = AlignmentRelaxed, dm_DKIMAlignment = AlignmentStrict\<rparr>)\<rparr>"


end
