(* ===== verification/Float64.thy ===== *)
theory Float64
  imports Complex_Main
begin

section \<open>The arithmetic of float64\<close>

text \<open>
  Go's \<open>float64\<close> is IEEE 754 binary64: an operation computes its exact result and rounds it to the
  nearest number \<open>m * 2 ^ k\<close> with at most 53 bits of \<open>m\<close> and \<open>k \<ge> -1074\<close>, to the even \<open>m\<close> of two at
  the same distance. \<open>float64 x\<close> is that rounding of the real number \<open>x\<close>. The largest exponent is
  left out (no overflow to an infinity), and so are the signed zero and the NaNs.
\<close>

definition round_even :: "real \<Rightarrow> int" where
  "round_even x = (let n = \<lfloor>x\<rfloor>; d = x - of_int n in
     if d < 1 / 2 \<or> d = 1 / 2 \<and> even n then n else n + 1)"

definition float64_exp :: "real \<Rightarrow> int" where
  "float64_exp x = max (\<lfloor>log 2 \<bar>x\<bar>\<rfloor> - 52) (-1074)"

definition float64 :: "real \<Rightarrow> real" where
  "float64 x = (if x = 0 then 0
     else of_int (round_even (x / 2 powi float64_exp x)) * 2 powi float64_exp x)"

text \<open>The numbers of the format.\<close>

definition is_float64 :: "real \<Rightarrow> bool" where
  "is_float64 x \<longleftrightarrow> (\<exists>(m::int) k. x = of_int m * 2 powi k \<and> \<bar>m\<bar> \<le> 2 ^ 53 \<and> -1074 \<le> k)"

subsection \<open>Rounding to an integer\<close>

lemma round_even_error: "\<bar>of_int (round_even x) - x\<bar> \<le> 1 / 2"
  unfolding round_even_def Let_def by (auto; linarith)

lemma round_even_of_int [simp]: "round_even (of_int n) = n"
  by (simp add: round_even_def)

lemma round_even_nonneg: "0 \<le> x \<Longrightarrow> 0 \<le> round_even x"
  by (auto simp: round_even_def Let_def)

lemma round_even_nonpos: "x \<le> 0 \<Longrightarrow> round_even x \<le> 0"
proof (cases "x = 0")
  case False
  assume "x \<le> 0"
  then have "\<lfloor>x\<rfloor> \<le> -1" using False by linarith
  then show ?thesis by (auto simp: round_even_def Let_def)
qed (simp add: round_even_def)

lemma round_even_bound: "\<bar>x\<bar> < of_int n \<Longrightarrow> \<bar>round_even x\<bar> \<le> n"
  unfolding round_even_def Let_def by (auto; linarith)

subsection \<open>The exponent\<close>

lemma float64_exp_upper: "x \<noteq> 0 \<Longrightarrow> \<bar>x\<bar> < 2 powi (float64_exp x + 53)"
proof -
  assume x: "x \<noteq> 0"
  have "log 2 \<bar>x\<bar> < of_int (float64_exp x + 53)" unfolding float64_exp_def by linarith
  then have "\<bar>x\<bar> < 2 powr of_int (float64_exp x + 53)" using x by (simp add: log_less_iff)
  then show ?thesis using powr_real_of_int'[of 2 "float64_exp x + 53"] by simp
qed

lemma float64_exp_lower:
  assumes "x \<noteq> 0" "-1074 < float64_exp x"
  shows "2 powi (float64_exp x + 52) \<le> \<bar>x\<bar>"
proof -
  have "of_int (float64_exp x + 52) \<le> log 2 \<bar>x\<bar>" using assms(2) unfolding float64_exp_def by linarith
  then have "2 powr of_int (float64_exp x + 52) \<le> \<bar>x\<bar>" using assms(1) by (simp add: le_log_iff)
  then show ?thesis using powr_real_of_int'[of 2 "float64_exp x + 52"] by simp
qed

lemma float64_exp_le:
  assumes "x \<noteq> 0" "\<bar>x\<bar> < 2 powi (k + 53)" "-1074 \<le> k"
  shows "float64_exp x \<le> k"
proof -
  have "\<bar>x\<bar> < 2 powr of_int (k + 53)" using assms(2) powr_real_of_int'[of 2 "k + 53"] by simp
  then have "log 2 \<bar>x\<bar> < of_int (k + 53)" using assms(1) by (simp add: log_less_iff)
  then have "\<lfloor>log 2 \<bar>x\<bar>\<rfloor> < k + 53" by linarith
  then show ?thesis using assms(3) by (simp add: float64_exp_def)
qed

subsection \<open>The rounding\<close>

lemma float64_0 [simp]: "float64 0 = 0" by (simp add: float64_def)

lemma float64_nonneg: "0 \<le> x \<Longrightarrow> 0 \<le> float64 x"
  by (auto simp: float64_def intro!: mult_nonneg_nonneg round_even_nonneg)

lemma float64_nonpos: "x \<le> 0 \<Longrightarrow> float64 x \<le> 0"
  by (auto simp: float64_def intro!: mult_nonpos_nonneg round_even_nonpos divide_nonpos_nonneg)

text \<open>Half a unit in the last place.\<close>

lemma float64_error_exp: "\<bar>float64 x - x\<bar> \<le> 2 powi (float64_exp x) / 2"
proof (cases "x = 0")
  case False
  let ?u = "2 powi float64_exp x :: real"
  have "\<bar>float64 x - x\<bar> = \<bar>of_int (round_even (x / ?u)) - x / ?u\<bar> * ?u"
    using False abs_mult[of "of_int (round_even (x / ?u)) - x / ?u" ?u] by (simp add: float64_def left_diff_distrib)
  also have "\<dots> \<le> 1 / 2 * ?u" by (rule mult_right_mono[OF round_even_error]) simp
  finally show ?thesis by simp
qed simp

lemma float64_error: "\<bar>float64 x - x\<bar> \<le> \<bar>x\<bar> * 2 powi (-53) + 2 powi (-1075)"
proof (cases "x = 0")
  case False
  note e = float64_error_exp[of x]
  show ?thesis
  proof (cases "float64_exp x = -1074")
    case True
    then have "\<bar>float64 x - x\<bar> \<le> 2 powi (-1075)" using e by (simp add: power_int_minus field_simps)
    then show ?thesis by (smt (verit) mult_nonneg_nonneg zero_le_power_int)
  next
    case k: False
    then have "-1074 < float64_exp x" by (simp add: float64_exp_def)
    from float64_exp_lower[OF False this]
    have "2 powi (float64_exp x + 52) * 2 powi (-53) \<le> \<bar>x\<bar> * 2 powi (-53)" by (intro mult_right_mono) simp_all
    moreover have "2 powi (float64_exp x + 52) * 2 powi (-53) = (2 powi float64_exp x / 2 :: real)"
      by (simp add: power_int_add power_int_minus)
    ultimately show ?thesis using e by (smt (verit) zero_le_power_int)
  qed
qed simp

text \<open>Away from the subnormal numbers the error is relative.\<close>

lemma float64_relative:
  assumes "2 powi (-1021) \<le> \<bar>x\<bar>"
  shows "\<bar>float64 x - x\<bar> \<le> \<bar>x\<bar> * 2 powi (-53)"
proof -
  have x: "x \<noteq> 0" using assms by (auto simp: not_le)
  have "of_int (-1021) \<le> log 2 \<bar>x\<bar>"
    using assms powr_real_of_int'[of 2 "-1021"] x by (simp add: le_log_iff)
  then have "-1021 \<le> \<lfloor>log 2 \<bar>x\<bar>\<rfloor>" by linarith
  then have "-1074 < float64_exp x" unfolding float64_exp_def by linarith
  from float64_exp_lower[OF x this]
  have "2 powi (float64_exp x + 52) * 2 powi (-53) \<le> \<bar>x\<bar> * 2 powi (-53)" by (intro mult_right_mono) simp_all
  moreover have "2 powi (float64_exp x + 52) * 2 powi (-53) = (2 powi float64_exp x / 2 :: real)"
    by (simp add: power_int_add power_int_minus)
  ultimately show ?thesis using float64_error_exp[of x] by linarith
qed

text \<open>The result is a number of the format, and such numbers are not changed.\<close>

lemma float64_is_float64: "is_float64 (float64 x)"
proof (cases "x = 0")
  case False
  let ?k = "float64_exp x"
  have "\<bar>x / 2 powi ?k\<bar> < of_int (2 ^ 53)"
    using float64_exp_upper[OF False] by (simp add: power_int_add field_simps)
  from round_even_bound[OF this]
  show ?thesis using False unfolding is_float64_def float64_def
    by (intro exI[of _ "round_even (x / 2 powi ?k)"] exI[of _ ?k]) (simp add: float64_exp_def)
qed (auto simp: is_float64_def intro: exI[of _ 0])

lemma float64_id:
  assumes "is_float64 x"
  shows "float64 x = x"
proof (cases "x = 0")
  case x: False
  obtain m :: int and k where m: "x = of_int m * 2 powi k" "\<bar>m\<bar> \<le> 2 ^ 53" "-1074 \<le> k"
    using assms by (auto simp: is_float64_def)
  have "\<exists>n::int. x / 2 powi float64_exp x = of_int n"
  proof (cases "\<bar>m\<bar> = 2 ^ 53")
    case True
    then have "\<bar>x\<bar> = 2 powi (k + 53)" using m(1) by (simp add: abs_mult power_int_add flip: of_int_abs)
    then have "\<bar>x\<bar> = 2 powr of_int (k + 53)" using powr_real_of_int'[of 2 "k + 53"] by simp
    then have "float64_exp x = k + 1" using m(3) by (simp add: float64_exp_def)
    moreover have "even \<bar>m\<bar>" by (simp add: True)
    then have "m = 2 * (m div 2)" by simp
    then have "(of_int m :: real) = 2 * of_int (m div 2)" by (metis of_int_mult of_int_numeral)
    ultimately have "x / 2 powi float64_exp x = of_int (m div 2)" using m(1) by (simp add: power_int_add)
    then show ?thesis by blast
  next
    case False
    then have "\<bar>m\<bar> < 2 ^ 53" using m(2) by simp
    then have "\<bar>of_int m\<bar> < (2 ^ 53 :: real)" by (metis of_int_abs of_int_less_iff of_int_numeral of_int_power)
    then have "\<bar>x\<bar> < 2 powi (k + 53)" using m(1) by (simp add: abs_mult power_int_add)
    then have k: "float64_exp x \<le> k" using float64_exp_le x m(3) by blast
    have "x / 2 powi float64_exp x = of_int m * 2 powi (k - float64_exp x)" using m(1) by (simp add: power_int_diff)
    also have "\<dots> = of_int (m * 2 ^ nat (k - float64_exp x))" using k by (simp add: power_int_def)
    finally show ?thesis by blast
  qed
  then obtain n :: int where n: "x / 2 powi float64_exp x = of_int n" by blast
  then have "float64 x = of_int n * 2 powi float64_exp x" using x by (simp add: float64_def)
  also have "\<dots> = x" unfolding n[symmetric] by simp
  finally show ?thesis .
qed simp

lemma float64_of_int: "\<bar>n\<bar> \<le> 2 ^ 53 \<Longrightarrow> is_float64 (of_int n)"
  unfolding is_float64_def by (intro exI[of _ n] exI[of _ 0]) simp

lemma float64_idem [simp]: "float64 (float64 x) = float64 x"
  by (rule float64_id[OF float64_is_float64])

text \<open>Taking one away is exact up to \<open>2 ^ 53\<close>, and is lost from \<open>2 ^ 54\<close> on.\<close>

lemma is_float64_minus_1:
  assumes "is_float64 x" "1 \<le> x" "x \<le> 2 ^ 53"
  shows "is_float64 (x - 1)"
proof -
  obtain m :: int and k where m: "x = of_int m * 2 powi k" "\<bar>m\<bar> \<le> 2 ^ 53" "-1074 \<le> k"
    using assms(1) by (auto simp: is_float64_def)
  show ?thesis
  proof (cases "0 \<le> k")
    case True
    then have "x = of_int (m * 2 ^ nat k)" using m(1) by (simp add: power_int_def)
    then have x: "x - 1 = of_int (m * 2 ^ nat k - 1)" by simp
    then have "of_int \<bar>m * 2 ^ nat k - 1\<bar> \<le> (of_int (2 ^ 53) :: real)" using assms(2,3) by simp
    then have "\<bar>m * 2 ^ nat k - 1\<bar> \<le> 2 ^ 53" by (simp only: of_int_le_iff)
    from float64_of_int[OF this] x show ?thesis by simp
  next
    case False
    then have p: "(2 ^ nat (- k) :: real) * 2 powi k = 1" by (simp add: power_int_def field_simps)
    then have x: "x - 1 = of_int (m - 2 ^ nat (- k)) * 2 powi k" using m(1) by (simp add: left_diff_distrib)
    have "0 \<le> of_int (m - 2 ^ nat (- k)) * (2 powi k :: real)" using x assms(2) by simp
    then have "(0::real) \<le> of_int (m - 2 ^ nat (- k))" by (simp add: zero_le_mult_iff del: of_int_diff) (metis not_less zero_less_numeral zero_less_power_int)
    then have "0 \<le> m - 2 ^ nat (- k)" by (simp only: of_int_0_le_iff)
    then have "\<bar>m - 2 ^ nat (- k)\<bar> \<le> 2 ^ 53" using m(2) zero_less_power[of "2::int" "nat (- k)"] by linarith
    then show ?thesis unfolding is_float64_def using x m(3) by blast
  qed
qed

lemma float64_minus_1: "is_float64 x \<Longrightarrow> 1 \<le> x \<Longrightarrow> x \<le> 2 ^ 53 \<Longrightarrow> float64 (x - 1) = x - 1"
  by (intro float64_id is_float64_minus_1)

text \<open>Bounds from above and below, for the numbers that are not negative.\<close>

lemma powi_m53: "x * 2 powi (-53) = (x / 2 ^ 53 :: real)"
  by (simp add: power_int_minus)

lemma float64_le: "0 \<le> x \<Longrightarrow> float64 x \<le> x + x / 2 ^ 53 + 2 powi (-1075)"
  using float64_error[of x] powi_m53 by (auto simp only: abs_of_nonneg abs_le_iff)

lemma float64_near:
  assumes "x = 0 \<or> 1 / 2 ^ 60 \<le> x"
  shows "float64 x \<le> x * (1 + 1 / 2 ^ 53)" "x * (1 - 1 / 2 ^ 53) \<le> float64 x"
proof -
  have "\<bar>float64 x - x\<bar> \<le> x / 2 ^ 53"
  proof (cases "x = 0")
    case False
    have "2 powi (-1021) \<le> (2 powi (-60) :: real)" by (rule power_int_increasing) simp_all
    then have "2 powi (-1021) \<le> \<bar>x\<bar>" using assms False by (simp add: power_int_minus field_simps)
    from float64_relative[OF this] show ?thesis using assms by (auto simp: power_int_minus field_simps)
  qed simp
  then have "float64 x \<le> x + x / 2 ^ 53" "x - x / 2 ^ 53 \<le> float64 x" by linarith+
  then show "float64 x \<le> x * (1 + 1 / 2 ^ 53)" "x * (1 - 1 / 2 ^ 53) \<le> float64 x"
    by (simp_all add: field_simps)
qed

lemma float64_decrement_lost: "float64 (2 ^ 54 - 1) = 2 ^ 54"
proof -
  have "\<lfloor>log 2 \<bar>2 ^ 54 - 1 :: real\<bar>\<rfloor> = 53"
    by (simp add: floor_eq_iff le_log_iff log_less_iff powr_numeral)
  then have "float64_exp (2 ^ 54 - 1) = 1" by (simp add: float64_exp_def)
  then show ?thesis by (simp add: float64_def round_even_def Let_def)
qed

end
