(* ===== verification/Ratelimit.thy ===== *)
theory Ratelimit
  imports Float64 Env_Prelude "HOL-Library.Signed_Division"
begin

section \<open>Rate limiting: internal/ratelimit/tokenbucket.go\<close>

text \<open>
  The token bucket. Its arithmetic is \<open>float64\<close>: every operation is followed by \<open>rnd\<close>, the
  rounding of the machine. The bound on admissions is proved for \<open>rnd = float64\<close>, the rounding of
  IEEE 754 without fused multiply-add; \<open>exact\<close>, the identity, serves where a run is evaluated. The
  interface the sessions use, \<open>RateLimiter\<close>, is the record \<open>limiter_ops\<close>.
\<close>

record token_bucket =
  tb_capacity :: real
  tb_tokens :: real
  tb_refillRate :: real
  tb_last :: time

definition NewTokenBucket :: "real \<Rightarrow> real \<Rightarrow> time \<Rightarrow> token_bucket" where
  "NewTokenBucket capacity refillPerSecond now =
     \<lparr>tb_capacity = capacity, tb_tokens = capacity, tb_refillRate = refillPerSecond, tb_last = now\<rparr>"

text \<open>
  \<open>Duration.Seconds\<close>: the whole seconds plus the rest, each a \<open>float64\<close>. \<open>seconds\<close> is the exact
  length of a duration, in which the properties count.
\<close>

definition Duration_Seconds :: "(real \<Rightarrow> real) \<Rightarrow> duration \<Rightarrow> real" where
  "Duration_Seconds rnd d = rnd (of_int (d sdiv 10 ^ 9) + rnd (of_int (d smod 10 ^ 9) / 10 ^ 9))"

definition seconds :: "duration \<Rightarrow> real" where
  "seconds d = of_int d / 10 ^ 9"

definition refill :: "(real \<Rightarrow> real) \<Rightarrow> time \<Rightarrow> token_bucket \<Rightarrow> token_bucket" where
  "refill rnd now b =
     (let elapsed = Duration_Seconds rnd (now - tb_last b) in
      if elapsed \<le> 0 then b
      else
        let tokens = rnd (tb_tokens b + rnd (elapsed * tb_refillRate b));
            tokens = (if tokens > tb_capacity b then tb_capacity b else tokens)
        in b\<lparr>tb_last := now, tb_tokens := tokens\<rparr>)"

definition TokenBucket_Allow :: "(real \<Rightarrow> real) \<Rightarrow> time \<Rightarrow> token_bucket \<Rightarrow> bool \<times> token_bucket" where
  "TokenBucket_Allow rnd now b =
     (let b = refill rnd now b in
      if tb_tokens b < 1 then (False, b)
      else (True, b\<lparr>tb_tokens := rnd (tb_tokens b - 1)\<rparr>))"

definition exact :: "real \<Rightarrow> real" where
  "exact x = x"

text \<open>The interface: one \<open>Allow\<close> per key, at a time; an error or the answer.\<close>

record 'l limiter_ops =
  l_Allow :: "time \<Rightarrow> string \<Rightarrow> real \<Rightarrow> real \<Rightarrow> 'l \<Rightarrow> (gerr + bool) \<times> 'l"

text \<open>A run of calls at the given times: the answers and the bucket after them.\<close>

fun allow_run :: "(real \<Rightarrow> real) \<Rightarrow> time list \<Rightarrow> token_bucket \<Rightarrow> bool list \<times> token_bucket" where
  "allow_run rnd [] b = ([], b)"
| "allow_run rnd (t # ts) b =
     (case TokenBucket_Allow rnd t b of (a, b') \<Rightarrow>
        case allow_run rnd ts b' of (as, b'') \<Rightarrow> (a # as, b''))"

subsection \<open>The duration in seconds\<close>

lemma Duration_Seconds_exact: "Duration_Seconds exact d = seconds d"
proof -
  have "(of_int (d sdiv 10 ^ 9 * 10 ^ 9 + d smod 10 ^ 9) :: real) = of_int d"
    by (simp only: sdiv_mult_smod_eq)
  then show ?thesis by (simp add: Duration_Seconds_def exact_def seconds_def field_simps)
qed

lemma Duration_Seconds_nonpos: "d \<le> 0 \<Longrightarrow> Duration_Seconds float64 d \<le> 0"
proof -
  assume d: "d \<le> 0"
  have "d sdiv 10 ^ 9 \<le> 0" "d smod 10 ^ 9 \<le> 0"
    using d pos_imp_zdiv_nonneg_iff[of "10 ^ 9" "- d"]
    by (simp_all add: signed_divide_int_def signed_modulo_int_def sgn_if)
  then show ?thesis unfolding Duration_Seconds_def
    by (intro float64_nonpos add_nonpos_nonpos divide_nonpos_nonneg) simp_all
qed

lemma Duration_Seconds_le:
  assumes "0 < d"
  shows "Duration_Seconds float64 d \<le> seconds d * (1 + 1 / 2 ^ 53) ^ 2" "0 < Duration_Seconds float64 d"
proof -
  define q r where "q = d div 10 ^ 9" and "r = d mod 10 ^ 9"
  let ?a = "of_int r / 10 ^ 9 :: real" and ?e = "1 / 2 ^ 53 :: real"
  have qr: "0 \<le> q" "0 \<le> r" "d = q * 10 ^ 9 + r" using assms by (simp_all add: q_def r_def)
  have s: "seconds d = of_int q + ?a" using qr(3) by (simp add: seconds_def field_simps)
  have D: "Duration_Seconds float64 d = float64 (of_int q + float64 ?a)"
    using assms by (simp add: Duration_Seconds_def signed_divide_int_def signed_modulo_int_def q_def r_def)
  have a: "?a = 0 \<or> 1 / 2 ^ 60 \<le> ?a" using qr(2) by (cases "r = 0") (simp_all add: field_simps)
  note n = float64_near[OF a]
  have b: "1 / 2 ^ 60 \<le> of_int q + float64 ?a"
  proof (cases "q = 0")
    case True
    then have "1 \<le> r" using qr assms by simp
    then have "1 / 10 ^ 9 \<le> ?a" by (simp add: field_simps)
    then show ?thesis using n(2) True by (simp add: field_simps)
  next
    case False
    then have "1 \<le> (of_int q :: real)" using qr(1) by simp
    moreover have "0 \<le> float64 ?a" using qr(2) by (intro float64_nonneg) simp
    ultimately show ?thesis by (simp add: field_simps)
  qed
  have "0 < (of_int q + float64 ?a) * (1 - ?e)" using b by simp
  also have "\<dots> \<le> Duration_Seconds float64 d" unfolding D using b by (intro float64_near(2)) simp
  finally show "0 < Duration_Seconds float64 d" .
  have "Duration_Seconds float64 d \<le> (of_int q + float64 ?a) * (1 + ?e)"
    unfolding D using b by (intro float64_near(1)) simp
  also have "\<dots> \<le> (of_int q + ?a) * (1 + ?e) * (1 + ?e)"
  proof (rule mult_right_mono)
    show "of_int q + float64 ?a \<le> (of_int q + ?a) * (1 + ?e)" using n(1) qr(1) by (simp add: field_simps)
  qed simp
  finally show "Duration_Seconds float64 d \<le> seconds d * (1 + ?e) ^ 2" by (simp add: s power2_eq_square mult.assoc)
qed

subsection \<open>One refill\<close>

text \<open>
  What a refill over \<open>d\<close> nanoseconds makes of \<open>t\<close> tokens, cut at the capacity \<open>c\<close>: a number of the
  format between zero and \<open>c\<close>, and at most the tokens earned, with the rounding of the product in
  proportion to it and that of the sum in proportion to \<open>c\<close>.
\<close>

lemma refill_tokens_le:
  assumes "0 \<le> t" "1 \<le> c" "0 \<le> rate" "0 < d"
  defines "x \<equiv> float64 (t + float64 (Duration_Seconds float64 d * rate))"
  shows "min c x \<le> t + (1 + 1 / 2 ^ 51) * (rate * seconds d) + c / 2 ^ 52"
proof -
  let ?e = "1 / 2 ^ 53 :: real" and ?h = "2 powi (-1075) :: real"
  define p where "p = float64 (Duration_Seconds float64 d * rate)"
  have s: "0 \<le> seconds d" using assms(4) by (simp add: seconds_def)
  have h: "2 * ?h \<le> c / 2 ^ 53"
  proof -
    have "?h \<le> 2 powi (-54)" by (rule power_int_increasing) simp_all
    then show ?thesis using assms(2) by (simp add: power_int_minus)
  qed
  have e: "0 \<le> Duration_Seconds float64 d * rate" using assms(3) Duration_Seconds_le(2)[OF assms(4)] by simp
  have p0: "0 \<le> p" unfolding p_def by (rule float64_nonneg[OF e])
  have "p \<le> Duration_Seconds float64 d * rate * (1 + ?e) + ?h"
    using float64_le[OF e] by (simp only: p_def distrib_left times_divide_eq_right mult_1_right)
  moreover have "Duration_Seconds float64 d * rate * (1 + ?e) \<le> (1 + 1 / 2 ^ 51) * (rate * seconds d)"
  proof -
    have "Duration_Seconds float64 d * rate * (1 + ?e) \<le> seconds d * (1 + ?e) ^ 2 * rate * (1 + ?e)"
      using Duration_Seconds_le(1)[OF assms(4)] assms(3) by (intro mult_right_mono) simp_all
    also have "\<dots> = (1 + ?e) ^ 3 * (rate * seconds d)" by (simp only: power2_eq_square power3_eq_cube ac_simps)
    also have "\<dots> \<le> (1 + 1 / 2 ^ 51) * (rate * seconds d)"
      using assms(3) s by (intro mult_right_mono) (simp_all add: power3_eq_cube)
    finally show ?thesis .
  qed
  ultimately have p: "p \<le> (1 + 1 / 2 ^ 51) * (rate * seconds d) + ?h"
    by linarith
  have "min c x \<le> t + p + c / 2 ^ 53 + ?h"
  proof (cases "t + p \<le> c")
    case True
    have "x \<le> t + p + (t + p) / 2 ^ 53 + ?h" using float64_le[of "t + p"] assms(1) p0 by (simp add: x_def p_def)
    moreover have "(t + p) / 2 ^ 53 \<le> c / 2 ^ 53" using True by (intro divide_right_mono) simp_all
    ultimately show ?thesis by linarith
  next
    case False
    have "0 \<le> c / 2 ^ 53" "0 \<le> ?h" using assms(2) by simp_all
    then show ?thesis using False by linarith
  qed
  then show ?thesis using p h by (simp add: field_simps)
qed

definition bucket_inv :: "token_bucket \<Rightarrow> bool" where
  "bucket_inv b \<longleftrightarrow> 0 \<le> tb_tokens b \<and> tb_tokens b \<le> tb_capacity b \<and> 0 \<le> tb_refillRate b
     \<and> is_float64 (tb_tokens b) \<and> is_float64 (tb_capacity b) \<and> tb_capacity b \<le> 2 ^ 53"

lemma refill_float64:
  fixes now :: time
  assumes "bucket_inv b"
  defines "b' \<equiv> refill float64 now b"
  shows "bucket_inv b'" "tb_last b' = max (tb_last b) now"
    "tb_capacity b' = tb_capacity b" "tb_refillRate b' = tb_refillRate b"
    "1 \<le> tb_capacity b \<Longrightarrow> tb_tokens b' \<le> tb_tokens b
       + (1 + 1 / 2 ^ 51) * (tb_refillRate b * seconds (tb_last b' - tb_last b)) + tb_capacity b / 2 ^ 52"
proof -
  let ?d = "now - tb_last b"
  let ?D = "Duration_Seconds float64 ?d"
  let ?x = "float64 (tb_tokens b + float64 (?D * tb_refillRate b))"
  have inv: "0 \<le> tb_tokens b" "tb_tokens b \<le> tb_capacity b" "0 \<le> tb_refillRate b" "is_float64 (tb_tokens b)"
    "is_float64 (tb_capacity b)" "tb_capacity b \<le> 2 ^ 53" using assms(1) by (simp_all add: bucket_inv_def)
  have "bucket_inv b' \<and> tb_last b' = max (tb_last b) now \<and> tb_capacity b' = tb_capacity b
    \<and> tb_refillRate b' = tb_refillRate b \<and> (1 \<le> tb_capacity b \<longrightarrow> tb_tokens b' \<le> tb_tokens b
       + (1 + 1 / 2 ^ 51) * (tb_refillRate b * seconds (tb_last b' - tb_last b)) + tb_capacity b / 2 ^ 52)"
  proof (cases "?D \<le> 0")
    case True
    then have b': "b' = b" by (simp add: b'_def refill_def)
    have "now \<le> tb_last b" using True Duration_Seconds_le(2)[of ?d] by linarith
    then show ?thesis using assms(1) inv(1) by (simp add: b' seconds_def)
  next
    case False
    then have d: "0 < ?d" using Duration_Seconds_nonpos[of ?d] by linarith
    have b': "b' = b\<lparr>tb_last := now, tb_tokens := min (tb_capacity b) ?x\<rparr>"
      using False by (simp add: b'_def refill_def Let_def min_def)
    have "0 \<le> ?x" using inv False by (intro float64_nonneg add_nonneg_nonneg mult_nonneg_nonneg) simp_all
    moreover have "is_float64 (min (tb_capacity b) ?x)" using inv(5) float64_is_float64 by (simp add: min_def)
    ultimately have "bucket_inv b'" using inv by (simp add: b' bucket_inv_def)
    then show ?thesis using d refill_tokens_le[OF inv(1) _ inv(3) d, of "tb_capacity b"] by (simp add: b')
  qed
  then show "bucket_inv b'" "tb_last b' = max (tb_last b) now"
    "tb_capacity b' = tb_capacity b" "tb_refillRate b' = tb_refillRate b"
    "1 \<le> tb_capacity b \<Longrightarrow> tb_tokens b' \<le> tb_tokens b
       + (1 + 1 / 2 ^ 51) * (tb_refillRate b * seconds (tb_last b' - tb_last b)) + tb_capacity b / 2 ^ 52"
    by blast+
qed

subsection \<open>Admissions\<close>

definition admitted :: "bool list \<Rightarrow> nat" where
  "admitted as = length (filter id as)"

lemma admitted_simps [simp]: "admitted [] = 0" "admitted (a # as) = (if a then 1 else 0) + admitted as"
  by (simp_all add: admitted_def)

text \<open>One call: the token taken is taken exactly, since a bucket within the bound holds its tokens exactly.\<close>

lemma Allow_float64:
  assumes "TokenBucket_Allow float64 now b = (a, b')" "bucket_inv b"
  shows "bucket_inv b'" "tb_last b' = max (tb_last b) now" "tb_capacity b' = tb_capacity b"
    "tb_refillRate b' = tb_refillRate b" "tb_tokens b' + (if a then 1 else 0) \<le> tb_capacity b"
    "1 \<le> tb_capacity b \<Longrightarrow> tb_tokens b' + (if a then 1 else 0) \<le> tb_tokens b
       + (1 + 1 / 2 ^ 51) * (tb_refillRate b * seconds (tb_last b' - tb_last b)) + tb_capacity b / 2 ^ 52"
proof -
  let ?b = "refill float64 now b"
  note f = refill_float64[OF assms(2), of now]
  have inv: "tb_tokens ?b \<le> tb_capacity b" "tb_capacity b \<le> 2 ^ 53" "is_float64 (tb_tokens ?b)"
    using f(1,3) by (simp_all add: bucket_inv_def)
  have cases: "a = (1 \<le> tb_tokens ?b)" "b' = ?b\<lparr>tb_tokens := tb_tokens ?b - (if a then 1 else 0)\<rparr>"
    using assms(1) float64_minus_1[OF inv(3)] inv(1,2)
    by (auto simp: TokenBucket_Allow_def Let_def split: if_splits)
  show "bucket_inv b'" using f(1,3) cases is_float64_minus_1[OF inv(3)] inv by (auto simp: bucket_inv_def)
  show "tb_tokens b' + (if a then 1 else 0) \<le> tb_capacity b" using cases(2) inv(1) by simp
  show "tb_last b' = max (tb_last b) now" "tb_capacity b' = tb_capacity b"
    "tb_refillRate b' = tb_refillRate b" using f(2-4) cases(2) by simp_all
  show "1 \<le> tb_capacity b \<Longrightarrow> tb_tokens b' + (if a then 1 else 0) \<le> tb_tokens b
       + (1 + 1 / 2 ^ 51) * (tb_refillRate b * seconds (tb_last b' - tb_last b)) + tb_capacity b / 2 ^ 52"
    using f(5) cases(2) by simp
qed

lemma seconds_add: "seconds (a - c) = seconds (a - b) + seconds (b - c)"
  by (simp add: seconds_def diff_divide_distrib)

text \<open>A run keeps the invariant, and its clock is the latest time seen.\<close>

lemma allow_run_keeps:
  assumes "allow_run float64 ts b = (as, b')" "bucket_inv b"
  shows "bucket_inv b' \<and> tb_last b' = fold max ts (tb_last b) \<and> tb_capacity b' = tb_capacity b
    \<and> tb_refillRate b' = tb_refillRate b \<and> length as = length ts \<and> (tb_capacity b < 1 \<longrightarrow> admitted as = 0)"
  using assms
proof (induction ts arbitrary: b as)
  case (Cons t ts)
  obtain a b1 where 1: "TokenBucket_Allow float64 t b = (a, b1)" by fastforce
  obtain as' where 2: "allow_run float64 ts b1 = (as', b')" "as = a # as'"
    using Cons.prems(1) 1 by (auto split: prod.splits)
  note f = Allow_float64[OF 1 Cons.prems(2)]
  have "0 \<le> tb_tokens b1" using f(1) by (simp add: bucket_inv_def)
  then show ?case using Cons.IH[OF 2(1) f(1)] f(2-5) 2(2) by (cases a) (auto simp: max.commute)
qed simp

lemma allow_run_float64:
  assumes "allow_run float64 ts b = (as, b')" "bucket_inv b" "1 \<le> tb_capacity b"
  shows "tb_tokens b' + admitted as \<le> tb_tokens b
       + (1 + 1 / 2 ^ 51) * (tb_refillRate b * seconds (tb_last b' - tb_last b)) + length ts * (tb_capacity b / 2 ^ 52)"
  using assms
proof (induction ts arbitrary: b as)
  case (Cons t ts)
  obtain a b1 where 1: "TokenBucket_Allow float64 t b = (a, b1)" by fastforce
  obtain as' where 2: "allow_run float64 ts b1 = (as', b')" "as = a # as'"
    using Cons.prems(1) 1 by (auto split: prod.splits)
  note f = Allow_float64[OF 1 Cons.prems(2)]
  note ih = Cons.IH[OF 2(1) f(1), unfolded f(3,4), OF Cons.prems(3)]
  show ?case using ih f(6)[OF Cons.prems(3)] seconds_add[of "tb_last b'" "tb_last b" "tb_last b1"]
    by (cases a) (simp_all add: 2(2) algebra_simps add_divide_distrib)
qed (simp add: seconds_def)

lemma allow_run_append:
  "allow_run rnd (ts @ us) b = (fst (allow_run rnd ts b) @ fst (allow_run rnd us (snd (allow_run rnd ts b))),
     snd (allow_run rnd us (snd (allow_run rnd ts b))))"
  by (induction ts arbitrary: b) (auto split: prod.splits)

text \<open>A window of calls, from a bucket in any state within the invariant.\<close>

lemma allow_run_window:
  assumes "allow_run float64 (t # ts) b = (as, b')" "bucket_inv b"
  shows "admitted as \<le> tb_capacity b + (1 + 1 / 2 ^ 51) * (tb_refillRate b * seconds (tb_last b' - max (tb_last b) t))
    + length ts * (tb_capacity b / 2 ^ 52)"
proof -
  obtain a b1 where 1: "TokenBucket_Allow float64 t b = (a, b1)" by fastforce
  obtain as' where 2: "allow_run float64 ts b1 = (as', b')" "as = a # as'"
    using assms(1) 1 by (auto split: prod.splits)
  note f = Allow_float64[OF 1 assms(2)]
  note k = allow_run_keeps[OF 2(1) f(1)] allow_run_keeps[OF assms]
  have inv: "0 \<le> tb_tokens b'" "0 \<le> tb_capacity b" "0 \<le> tb_refillRate b" using k(1) assms(2) by (auto simp: bucket_inv_def)
  show ?thesis
  proof (cases "1 \<le> tb_capacity b")
    case True
    then show ?thesis using allow_run_float64[OF 2(1) f(1)] f(2-5) inv(1) by (cases a) (simp_all add: 2(2))
  next
    case False
    have "tb_last b1 \<le> fold max ts (tb_last b1)" by (induction ts rule: rev_induct) (auto simp: max_def)
    then have "0 \<le> seconds (tb_last b' - max (tb_last b) t)" using k(1) f(2) by (simp add: seconds_def)
    then have "0 \<le> (1 + 1 / 2 ^ 51) * (tb_refillRate b * seconds (tb_last b' - max (tb_last b) t))" using inv(3) by simp
    moreover have "0 \<le> length ts * (tb_capacity b / 2 ^ 52)" using inv(2) by simp
    ultimately show ?thesis using False k(2) inv(2) by simp
  qed
qed

subsection \<open>Properties\<close>

text \<open>
  C32: The limit holds in the \<open>float64\<close> arithmetic of the code, in every window. Take a bucket that
  starts full, with a capacity that is a \<open>float64\<close> from zero to \<open>2 ^ 53\<close> and a refill rate that is not
  negative, any calls \<open>ts\<close> at any times (in any order), and then a window of calls that begins with
  one at \<open>t\<close>. The window admits at most \<open>capacity\<close> requests plus \<open>refillPerSecond\<close> for every second
  by which the latest time seen grew during it. The roundings can add to that a \<open>2 ^ -51\<close>th part of
  the refill and a \<open>2 ^ -52\<close>th part of the capacity for every call after the first, and no more.
\<close>

theorem TokenBucket_rate_bound:
  assumes "float64 capacity = capacity" "0 \<le> capacity" "capacity \<le> 2 ^ 53" "0 \<le> rate"
  shows "real (admitted (drop (length ts) (fst (allow_run float64 (ts @ t # us) (NewTokenBucket capacity rate t0)))))
    \<le> capacity + (1 + 1 / 2 ^ 51) * (rate * seconds (fold max (ts @ t # us) t0 - fold max (ts @ [t]) t0))
      + length us * (capacity / 2 ^ 52)"
proof -
  let ?b = "NewTokenBucket capacity rate t0"
  obtain as1 b1 where r1: "allow_run float64 ts ?b = (as1, b1)" by fastforce
  obtain as2 b2 where r2: "allow_run float64 (t # us) b1 = (as2, b2)" by fastforce
  have i: "bucket_inv ?b" using assms float64_is_float64[of capacity] by (simp add: bucket_inv_def NewTokenBucket_def)
  note k = allow_run_keeps[OF r1 i]
  note w = allow_run_window[OF r2] allow_run_keeps[OF r2]
  have "drop (length ts) (fst (allow_run float64 (ts @ t # us) ?b)) = as2"
    using k allow_run_append[of float64 ts "t # us" ?b] r1 r2 by simp
  then show ?thesis using w k by (simp add: NewTokenBucket_def max.commute)
qed

theorem TokenBucket_rate_bound_witness:
  "real (admitted (drop 1 (fst (allow_run float64 [1, 1000000001, 3, 4] (NewTokenBucket 2 5 0))))) \<le> 2 + 2 * (2 / 2 ^ 52)"
  using TokenBucket_rate_bound[of 2 5 "[1]" 1000000001 "[3, 4]" 0] float64_id[OF float64_of_int[of 2]]
  by (simp add: seconds_def)

text \<open>
  The bound on the capacity is needed: in a bucket of \<open>2 ^ 54\<close> tokens that is never refilled the
  token taken is lost in the rounding, and every call is admitted.
\<close>

theorem TokenBucket_large_unlimited:
  "fst (allow_run float64 ts (NewTokenBucket (2 ^ 54) 0 t0)) = replicate (length ts) True"
proof -
  have id: "float64 (2 ^ 54) = 2 ^ 54" using float64_decrement_lost float64_idem by metis
  have step: "\<exists>b'. TokenBucket_Allow float64 t b = (True, b') \<and> tb_tokens b' = 2 ^ 54 \<and> tb_refillRate b' = 0 \<and> tb_capacity b' = 2 ^ 54"
    if "tb_tokens b = 2 ^ 54" "tb_refillRate b = 0" "tb_capacity b = 2 ^ 54" for t b
    using that id float64_decrement_lost by (simp add: TokenBucket_Allow_def refill_def Let_def)
  have "fst (allow_run float64 ts b) = replicate (length ts) True"
    if "tb_tokens b = 2 ^ 54" "tb_refillRate b = 0" "tb_capacity b = 2 ^ 54" for b
    using that
  proof (induction ts arbitrary: b)
    case (Cons t ts)
    obtain b' where b': "TokenBucket_Allow float64 t b = (True, b')" "tb_tokens b' = 2 ^ 54" "tb_refillRate b' = 0" "tb_capacity b' = 2 ^ 54"
      using step[OF Cons.prems] by blast
    from Cons.IH[OF b'(2-4)] show ?case by (cases "allow_run float64 ts b'") (simp add: b'(1))
  qed simp
  then show ?thesis by (simp add: NewTokenBucket_def)
qed

end
