(* ===== verification/Smtp_Inbound.thy ===== *)
theory Smtp_Inbound
  imports Filter_Pipeline Ratelimit Directory Maildir_Store Webhook
begin

section \<open>Inbound SMTP session: internal/platform/smtp/inbound.go\<close>

text \<open>
  The session go-smtp drives: \<open>Mail\<close>, \<open>Rcpt\<close>, \<open>Data\<close> and \<open>Reset\<close>, over any directory, store, rate
  limiter and webhook enqueuer. The context of a session is \<open>context.Background()\<close>, which is never
  cancelled. An IP address is its text. An SMTP reply is the \<open>ErrSMTP\<close> of its code, enhanced code
  and text.
\<close>

record inbound_config =
  ic_MaxMessageBytes :: int
  ic_RateLimitIPCapacity :: real
  ic_RateLimitIPRefillPerSecond :: real
  ic_RateLimitSenderCapacity :: real
  ic_RateLimitSenderRefillPerSecond :: real

record inbound_session =
  is_clientIP :: "string option"
  is_heloDomain :: string
  is_from :: string
  is_rcpts :: "string list"
  is_vhosts :: "vhost list"
  is_correlationID :: string

definition defaultMaxMessageBytes :: int where
  "defaultMaxMessageBytes = 25 * 2 ^ 20"

definition inbound_NewSession :: "string option \<Rightarrow> string \<Rightarrow> inbound_session" where
  "inbound_NewSession ip helo = \<lparr>is_clientIP = ip, is_heloDomain = helo, is_from = [], is_rcpts = [],
     is_vhosts = [], is_correlationID = []\<rparr>"

definition inbound_Reset :: "inbound_session \<Rightarrow> inbound_session" where
  "inbound_Reset s = s\<lparr>is_from := [], is_rcpts := [], is_vhosts := [], is_correlationID := []\<rparr>"

definition tempRateLimitError :: "string \<Rightarrow> gerr" where
  "tempRateLimitError dimension =
     ErrSMTP (SMTPError 450 [4, 7, 1] (''rate limit exceeded for '' @ dimension @ '', try again later''))"

definition checkRateLimit :: "'l limiter_ops option \<Rightarrow> inbound_config \<Rightarrow> time \<Rightarrow> inbound_session \<Rightarrow> string \<Rightarrow> 'l
    \<Rightarrow> gerr option \<times> 'l" where
  "checkRateLimit limiter cfg now s from l =
     (case limiter of None \<Rightarrow> (None, l)
      | Some ops \<Rightarrow>
        let (refused_ip, l1) =
              (case is_clientIP s of
                 Some ip \<Rightarrow>
                   if ic_RateLimitIPCapacity cfg > 0
                   then (case l_Allow ops now (''ip:'' @ ip) (ic_RateLimitIPCapacity cfg) (ic_RateLimitIPRefillPerSecond cfg) l of
                           (r, l') \<Rightarrow> (r = Inr False, l'))
                   else (False, l)
               | None \<Rightarrow> (False, l))
        in if refused_ip then (Some (tempRateLimitError ''source IP''), l1)
           else
             let (refused_sender, l2) =
                   (if from \<noteq> [] \<and> ic_RateLimitSenderCapacity cfg > 0
                    then (case l_Allow ops now (''sender:'' @ from) (ic_RateLimitSenderCapacity cfg)
                                 (ic_RateLimitSenderRefillPerSecond cfg) l1 of
                            (r, l') \<Rightarrow> (r = Inr False, l'))
                    else (False, l1))
             in if refused_sender then (Some (tempRateLimitError ''envelope sender''), l2) else (None, l2))"

definition inbound_Mail :: "'l limiter_ops option \<Rightarrow> inbound_config \<Rightarrow> time \<Rightarrow> string \<Rightarrow> string
    \<Rightarrow> inbound_session \<times> 'l \<Rightarrow> gerr option \<times> inbound_session \<times> 'l" where
  "inbound_Mail limiter cfg now newID from sl =
     (case sl of (s, l) \<Rightarrow>
      let s = s\<lparr>is_correlationID := newID\<rparr> in
      case checkRateLimit limiter cfg now s from l of
        (Some e, l') \<Rightarrow> (Some e, s, l')
      | (None, l') \<Rightarrow> (None, s\<lparr>is_from := from\<rparr>, l'))"

definition inbound_Rcpt :: "'d directory_ops \<Rightarrow> 'd \<Rightarrow> string \<Rightarrow> inbound_session \<Rightarrow> gerr option \<times> inbound_session" where
  "inbound_Rcpt dirops dir to s =
     (case ParseAddress to of
        None \<Rightarrow> (Some (ErrSMTP (SMTPError 501 [5, 1, 3] ''malformed recipient address'')), s)
      | Some (_, domain) \<Rightarrow>
          (case dir_Vhost dirops domain dir of
             None \<Rightarrow> (Some (ErrSMTP (SMTPError 550 [5, 1, 1] ''no such domain here'')), s)
           | Some v \<Rightarrow>
               if \<not> vh_Active v then (Some (ErrSMTP (SMTPError 550 [5, 1, 1] ''no such domain here'')), s)
               else (None, s\<lparr>is_rcpts := is_rcpts s @ [to], is_vhosts := is_vhosts s @ [v]\<rparr>)))"

definition minPositive :: "real \<Rightarrow> real \<Rightarrow> real" where
  "minPositive current candidate =
     (if candidate \<le> 0 then current
      else if current \<le> 0 \<or> candidate < current then candidate else current)"

definition effectiveThresholds :: "inbound_session \<Rightarrow> real \<times> real" where
  "effectiveThresholds s =
     foldl (\<lambda>(rj, qt) v. (minPositive rj (vh_SpamRejectThreshold v), minPositive qt (vh_SpamQuarantineThreshold v)))
       (0, 0) (is_vhosts s)"

definition effectiveMaxBytes :: "inbound_config \<Rightarrow> inbound_session \<Rightarrow> int" where
  "effectiveMaxBytes cfg s =
     (let limit = (if ic_MaxMessageBytes cfg \<le> 0 then defaultMaxMessageBytes else ic_MaxMessageBytes cfg)
      in foldl (\<lambda>limit v. if vh_MaxMessageBytes v > 0 \<and> vh_MaxMessageBytes v < limit
                          then vh_MaxMessageBytes v else limit) limit (is_vhosts s))"

definition readBounded :: "gerr + bytes \<Rightarrow> int \<Rightarrow> gerr + bytes" where
  "readBounded r limit =
     (case r of Inl e \<Rightarrow> Inl e
      | Inr body \<Rightarrow>
          if int (length body) > limit
          then Inl (ErrSMTP (SMTPError 552 [5, 3, 4] ''message exceeds maximum size''))
          else Inr body)"

fun store_loop :: "'s store_ops \<Rightarrow> bytes \<Rightarrow> string \<Rightarrow> (string \<times> vhost) list \<Rightarrow> 's \<Rightarrow> gerr option \<times> 's" where
  "store_loop store body folder [] st = (None, st)"
| "store_loop store body folder ((rcpt, v) # rest) st =
     (case ParseAddress rcpt of
        None \<Rightarrow> store_loop store body folder rest st
      | Some (local_part, _) \<Rightarrow>
          (case s_Write store None (vh_Domain v) (MailboxPath local_part folder) body st of
             (Inl e, st') \<Rightarrow> (Some (ErrSMTP (SMTPError 451 [4, 3, 0] ''temporary storage failure'')), st')
           | (Inr ref, st') \<Rightarrow> store_loop store body folder rest st'))"

definition inbound_store :: "'s store_ops \<Rightarrow> bytes \<Rightarrow> string \<Rightarrow> inbound_session \<Rightarrow> 's \<Rightarrow> gerr option \<times> 's" where
  "inbound_store store body folder s st = store_loop store body folder (zip (is_rcpts s) (is_vhosts s)) st"

text \<open>The grouping of \<open>fireReceived\<close>: the recipients by vhost and the vhosts in order of appearance.\<close>

fun group_rcpts :: "(string \<times> vhost) list \<Rightarrow> string list gomap \<times> string list \<Rightarrow> string list gomap \<times> string list" where
  "group_rcpts [] acc = acc"
| "group_rcpts ((rcpt, v) # rest) (byVhost, order) =
     group_rcpts rest
       (AList.update (vh_Domain v) ((case map_of byVhost (vh_Domain v) of None \<Rightarrow> [] | Some rs \<Rightarrow> rs) @ [rcpt]) byVhost,
        if map_of byVhost (vh_Domain v) = None then order @ [vh_Domain v] else order)"

definition received_groups :: "inbound_session \<Rightarrow> (string \<times> string list) list" where
  "received_groups s =
     (case group_rcpts (zip (is_rcpts s) (is_vhosts s)) ([], []) of
        (byVhost, order) \<Rightarrow> map (\<lambda>d. (d, case map_of byVhost d of None \<Rightarrow> [] | Some rs \<Rightarrow> rs)) order)"

datatype received_data = ReceivedData string "string list" bool

type_synonym 'h enqueuer = "gerr option \<Rightarrow> string \<Rightarrow> string \<Rightarrow> bytes \<Rightarrow> 'h \<Rightarrow> gerr option \<times> 'h"

text \<open>\<open>payload_of\<close> is \<open>NewEventPayload\<close> with its encoders, clock and UUIDs.\<close>

fun fire_groups :: "'h enqueuer \<Rightarrow> (string \<Rightarrow> received_data \<Rightarrow> gerr + bytes) \<Rightarrow> string \<Rightarrow> bool
    \<Rightarrow> (string \<times> string list) list \<Rightarrow> 'h \<Rightarrow> 'h" where
  "fire_groups enqueue payload_of from quarantined [] h = h"
| "fire_groups enqueue payload_of from quarantined ((d, rs) # gs) h =
     (case payload_of d (ReceivedData from rs quarantined) of
        Inl e \<Rightarrow> fire_groups enqueue payload_of from quarantined gs h
      | Inr payload \<Rightarrow>
          fire_groups enqueue payload_of from quarantined gs (snd (enqueue None d EventMessageReceived payload h)))"

definition fireReceived :: "'h enqueuer option \<Rightarrow> (string \<Rightarrow> received_data \<Rightarrow> gerr + bytes) \<Rightarrow> bool
    \<Rightarrow> inbound_session \<Rightarrow> 'h \<Rightarrow> 'h" where
  "fireReceived webhooks payload_of quarantined s h =
     (case webhooks of None \<Rightarrow> h
      | Some enqueue \<Rightarrow> fire_groups enqueue payload_of (is_from s) quarantined (received_groups s) h)"

record ('s, 'h) inbound_state =
  ist_store :: 's
  ist_hooks :: 'h
  ist_received_accept :: nat
  ist_received_quarantine :: nat
  ist_scorer_unavailable :: nat

definition inbound_filter_input :: "inbound_session \<Rightarrow> bytes \<Rightarrow> filter_input" where
  "inbound_filter_input s body =
     (case effectiveThresholds s of (rejectThreshold, quarantineThreshold) \<Rightarrow>
       \<lparr>in_Body = body, in_MailFrom = is_from s, in_RcptTo = is_rcpts s, in_ClientIP = is_clientIP s,
        in_HeloDomain = is_heloDomain s, in_RejectThreshold = rejectThreshold,
        in_QuarantineThreshold = quarantineThreshold\<rparr>)"

definition inbound_Data :: "filter_libs \<Rightarrow> 's store_ops \<Rightarrow> 'h enqueuer option
    \<Rightarrow> (string \<Rightarrow> received_data \<Rightarrow> gerr + bytes) \<Rightarrow> inbound_config \<Rightarrow> gerr + bytes \<Rightarrow> inbound_session
    \<Rightarrow> ('s, 'h) inbound_state \<Rightarrow> gerr option \<times> ('s, 'h) inbound_state" where
  "inbound_Data L store webhooks payload_of cfg r s st =
     (case readBounded r (effectiveMaxBytes cfg s) of
        Inl e \<Rightarrow> (Some e, st)
      | Inr body \<Rightarrow>
        (case Evaluate L (inbound_filter_input s body) (ist_scorer_unavailable st) of (res, un) \<Rightarrow>
         let st = st\<lparr>ist_scorer_unavailable := un\<rparr> in
         case fr_Verdict res of
           Reject \<Rightarrow> (Some (ErrSMTP (SMTPError 550 [5, 7, 1] (''message rejected: '' @ fr_Reason res))), st)
         | Quarantine \<Rightarrow>
             (case inbound_store store body ''Quarantine'' s (ist_store st) of
                (Some e, x) \<Rightarrow> (Some e, st\<lparr>ist_store := x\<rparr>)
              | (None, x) \<Rightarrow> (None, st\<lparr>ist_store := x, ist_received_quarantine := Suc (ist_received_quarantine st),
                    ist_hooks := fireReceived webhooks payload_of True s (ist_hooks st)\<rparr>))
         | Accept \<Rightarrow>
             (case inbound_store store body ''INBOX'' s (ist_store st) of
                (Some e, x) \<Rightarrow> (Some e, st\<lparr>ist_store := x\<rparr>)
              | (None, x) \<Rightarrow> (None, st\<lparr>ist_store := x, ist_received_accept := Suc (ist_received_accept st),
                    ist_hooks := fireReceived webhooks payload_of False s (ist_hooks st)\<rparr>))))"

text \<open>
  A connection: the client's commands in whatever order, each run by the session's handler. \<open>env\<close>
  has what the server was booted with. The directory may change between commands, so \<open>RCPT\<close>
  carries the state it reads; \<open>MAIL\<close> carries the clock and the fresh correlation ID.
\<close>

record ('l, 'd, 's, 'h) inbound_env =
  ie_cfg :: inbound_config
  ie_RateLimiter :: "'l limiter_ops option"
  ie_Directory :: "'d directory_ops"
  ie_Filter :: filter_libs
  ie_Store :: "'s store_ops"
  ie_Webhooks :: "'h enqueuer option"
  ie_payload :: "string \<Rightarrow> received_data \<Rightarrow> gerr + bytes"

record ('l, 's, 'h) inbound_conn =
  cn_session :: inbound_session
  cn_limiter :: 'l
  cn_state :: "('s, 'h) inbound_state"

datatype 'd inbound_cmd = CmdMail time string string | CmdRcpt 'd string | CmdData "gerr + bytes" | CmdReset

fun inbound_cmd_step :: "('l, 'd, 's, 'h) inbound_env \<Rightarrow> 'd inbound_cmd \<Rightarrow> ('l, 's, 'h) inbound_conn
    \<Rightarrow> gerr option \<times> ('l, 's, 'h) inbound_conn" where
  "inbound_cmd_step env (CmdMail now newID from) k =
     (case inbound_Mail (ie_RateLimiter env) (ie_cfg env) now newID from (cn_session k, cn_limiter k) of
        (e, s, l) \<Rightarrow> (e, k\<lparr>cn_session := s, cn_limiter := l\<rparr>))"
| "inbound_cmd_step env (CmdRcpt d to) k =
     (case inbound_Rcpt (ie_Directory env) d to (cn_session k) of (e, s) \<Rightarrow> (e, k\<lparr>cn_session := s\<rparr>))"
| "inbound_cmd_step env (CmdData r) k =
     (case inbound_Data (ie_Filter env) (ie_Store env) (ie_Webhooks env) (ie_payload env) (ie_cfg env) r (cn_session k) (cn_state k) of
        (e, st) \<Rightarrow> (e, k\<lparr>cn_state := st\<rparr>))"
| "inbound_cmd_step env CmdReset k = (None, k\<lparr>cn_session := inbound_Reset (cn_session k)\<rparr>)"

definition inbound_run :: "('l, 'd, 's, 'h) inbound_env \<Rightarrow> 'd inbound_cmd list \<Rightarrow> ('l, 's, 'h) inbound_conn
    \<Rightarrow> ('l, 's, 'h) inbound_conn" where
  "inbound_run env cmds k = foldl (\<lambda>k c. snd (inbound_cmd_step env c k)) k cmds"

subsection \<open>Specification\<close>

text \<open>The mailboxes a message goes to, in the order of the recipients.\<close>

definition store_targets :: "string \<Rightarrow> inbound_session \<Rightarrow> (string \<times> string) list" where
  "store_targets folder s = List.map_filter (\<lambda>(rcpt, v). case ParseAddress rcpt of None \<Rightarrow> None
     | Some (l, _) \<Rightarrow> Some (vh_Domain v, MailboxPath l folder)) (zip (is_rcpts s) (is_vhosts s))"

text \<open>A recipient the session took: parsed, with a vhost the directory had as active at its \<open>RCPT\<close>.\<close>

definition taken :: "'d directory_ops \<Rightarrow> 'd inbound_cmd set \<Rightarrow> string \<Rightarrow> vhost \<Rightarrow> bool" where
  "taken dirops cmds rcpt v \<longleftrightarrow> (\<exists>d l domain. CmdRcpt d rcpt \<in> cmds \<and> ParseAddress rcpt = Some (l, domain)
     \<and> dir_Vhost dirops domain d = Some v \<and> vh_Active v)"

subsection \<open>Lemmas\<close>

lemma map_filter_simps_pair: "List.map_filter f (x # xs) = (case f x of None \<Rightarrow> List.map_filter f xs | Some y \<Rightarrow> y # List.map_filter f xs)"
  by (simp add: List.map_filter_def split: option.splits)

lemma store_loop_write_all:
  "store_loop store body folder z st =
     (case write_all store body (List.map_filter (\<lambda>(rcpt, v). case ParseAddress rcpt of None \<Rightarrow> None
        | Some (l, _) \<Rightarrow> Some (vh_Domain v, MailboxPath l folder)) z) st of
      (refs, e, st') \<Rightarrow> (map_option (\<lambda>_. ErrSMTP (SMTPError 451 [4, 3, 0] ''temporary storage failure'')) e, st'))"
  by (induction store body folder z st rule: store_loop.induct)
    (auto simp: map_filter_simps_pair split: option.splits prod.splits sum.splits)

lemma inbound_store_targets:
  "inbound_store store body folder s st =
     (case write_all store body (store_targets folder s) st of
      (refs, e, st') \<Rightarrow> (map_option (\<lambda>_. ErrSMTP (SMTPError 451 [4, 3, 0] ''temporary storage failure'')) e, st'))"
  by (simp add: inbound_store_def store_targets_def store_loop_write_all)

lemma inbound_Mail_session:
  "inbound_Mail limiter cfg now i from (s, l) = (e, s', l') \<Longrightarrow> is_rcpts s' = is_rcpts s \<and> is_vhosts s' = is_vhosts s"
  by (auto simp: inbound_Mail_def Let_def split: prod.splits option.splits)

lemma taken_mono: "taken dirops A r v \<Longrightarrow> A \<subseteq> B \<Longrightarrow> taken dirops B r v"
  by (auto simp: taken_def)

lemma inbound_step_taken:
  assumes "list_all2 (taken (ie_Directory env) A) (is_rcpts (cn_session k)) (is_vhosts (cn_session k))" "c \<in> A"
  shows "list_all2 (taken (ie_Directory env) A) (is_rcpts (cn_session (snd (inbound_cmd_step env c k))))
    (is_vhosts (cn_session (snd (inbound_cmd_step env c k))))"
proof (cases c)
  case (CmdMail now i sender)
  then show ?thesis using assms by (auto split: prod.splits dest!: inbound_Mail_session)
next
  case (CmdRcpt d to)
  then show ?thesis using assms
    by (auto simp: inbound_Rcpt_def taken_def intro!: list_all2_appendI split: prod.splits option.splits)
qed (use assms in \<open>auto simp: inbound_Reset_def split: prod.splits\<close>)

lemma inbound_run_taken:
  assumes "list_all2 (taken (ie_Directory env) A) (is_rcpts (cn_session k)) (is_vhosts (cn_session k))" "set cmds \<subseteq> A"
  shows "list_all2 (taken (ie_Directory env) A) (is_rcpts (cn_session (inbound_run env cmds k)))
    (is_vhosts (cn_session (inbound_run env cmds k)))"
  using assms
proof (induction cmds arbitrary: k)
  case (Cons c cmds)
  have "list_all2 (taken (ie_Directory env) A) (is_rcpts (cn_session (snd (inbound_cmd_step env c k))))
    (is_vhosts (cn_session (snd (inbound_cmd_step env c k))))"
    using Cons.prems by (intro inbound_step_taken) auto
  from Cons.IH[OF this] Cons.prems(2) show ?case by (simp add: inbound_run_def)
qed (simp add: inbound_run_def)

text \<open>\<open>Data\<close> by its outcomes; the body the session accepted and the verdict on it.\<close>

definition inbound_verdict :: "filter_libs \<Rightarrow> inbound_session \<Rightarrow> bytes \<Rightarrow> verdict" where
  "inbound_verdict L s body = fr_Verdict (fst (Evaluate L (inbound_filter_input s body) 0))"

definition verdict_folder :: "verdict \<Rightarrow> string" where
  "verdict_folder v = (if v = Quarantine then ''Quarantine'' else ''INBOX'')"

lemma Evaluate_counter: "fst (Evaluate L inp u) = fst (Evaluate L inp 0)"
  by (auto simp: Evaluate_def Let_def split: sum.splits prod.splits)

lemma inbound_Data_cases:
  assumes "inbound_Data L store webhooks payload_of cfg r s st = (e, st')"
  shows "(\<exists>x. readBounded r (effectiveMaxBytes cfg s) = Inl x \<and> e = Some x \<and> st' = st)
    \<or> (\<exists>body. readBounded r (effectiveMaxBytes cfg s) = Inr body \<and> inbound_verdict L s body = Reject
         \<and> e \<noteq> None \<and> ist_store st' = ist_store st \<and> ist_hooks st' = ist_hooks st)
    \<or> (\<exists>body refs x. readBounded r (effectiveMaxBytes cfg s) = Inr body \<and> inbound_verdict L s body \<noteq> Reject
         \<and> write_all store body (store_targets (verdict_folder (inbound_verdict L s body)) s) (ist_store st)
            = (refs, x, ist_store st')
         \<and> (e = None \<longleftrightarrow> x = None)
         \<and> ist_hooks st' = (if x = None then fireReceived webhooks payload_of (inbound_verdict L s body = Quarantine) s (ist_hooks st)
              else ist_hooks st))"
proof (cases "readBounded r (effectiveMaxBytes cfg s)")
  case (Inl x)
  then show ?thesis using assms by (simp add: inbound_Data_def)
next
  case (Inr body)
  obtain res un where ev: "Evaluate L (inbound_filter_input s body) (ist_scorer_unavailable st) = (res, un)" by fastforce
  then have v: "inbound_verdict L s body = fr_Verdict res"
    using Evaluate_counter[of L "inbound_filter_input s body" "ist_scorer_unavailable st"] by (simp add: inbound_verdict_def)
  obtain refs x w where wr: "write_all store body (store_targets (verdict_folder (fr_Verdict res)) s) (ist_store st) = (refs, x, w)"
    by (metis prod_cases3)
  show ?thesis using assms Inr ev wr
    by (cases "fr_Verdict res"; cases x)
      (auto simp: v inbound_Data_def verdict_folder_def Let_def inbound_store_targets)
qed

text \<open>The limits that apply to a transaction are the strictest of its vhosts'.\<close>

definition positives :: "('v \<Rightarrow> 'a::linordered_idom) \<Rightarrow> 'v list \<Rightarrow> 'a set" where
  "positives f vs = {x \<in> f ` set vs. 0 < x}"

lemma finite_positives [simp]: "finite (positives f vs)"
  by (simp add: positives_def)

lemma positives_Cons [simp]: "positives f (v # vs) = (if 0 < f v then insert (f v) (positives f vs) else positives f vs)"
  by (auto simp: positives_def)

lemma positives_Nil [simp]: "positives f [] = {}"
  by (simp add: positives_def)

lemma foldl_minPositive:
  assumes "0 \<le> c"
  shows "foldl (\<lambda>c v. minPositive c (f v)) c vs =
    (let P = (if 0 < c then insert c (positives f vs) else positives f vs) in if P = {} then 0 else Min P)"
  using assms
proof (induction vs arbitrary: c)
  case (Cons v vs)
  have "0 \<le> minPositive c (f v)" using Cons.prems by (simp add: minPositive_def)
  note IH = Cons.IH[OF this]
  show ?case
  proof (cases "0 < f v")
    case False
    then show ?thesis using IH by (simp add: minPositive_def)
  next
    case True
    then have "minPositive c (f v) = (if 0 < c then min c (f v) else f v)"
      using Cons.prems by (simp add: minPositive_def min_def)
    then show ?thesis using IH True
      by (cases "positives f vs = {}") (auto simp: Let_def insert_commute min.assoc min.commute)
  qed
qed (simp add: Let_def)

lemma effectiveThresholds_fold:
  "effectiveThresholds s = (foldl (\<lambda>c v. minPositive c (vh_SpamRejectThreshold v)) 0 (is_vhosts s),
     foldl (\<lambda>c v. minPositive c (vh_SpamQuarantineThreshold v)) 0 (is_vhosts s))"
proof -
  have "foldl (\<lambda>(a, b) v. (minPositive a (f v), minPositive b (g v))) (a, b) vs
      = (foldl (\<lambda>c v. minPositive c (f v)) a vs, foldl (\<lambda>c v. minPositive c (g v)) b vs)" for f g a b and vs :: "vhost list"
    by (induction vs arbitrary: a b) auto
  then show ?thesis by (simp add: effectiveThresholds_def)
qed

lemma foldl_max_bytes:
  fixes f :: "'v \<Rightarrow> int"
  shows "foldl (\<lambda>c v. if 0 < f v \<and> f v < c then f v else c) c vs = Min (insert c (positives f vs))"
proof (induction vs arbitrary: c)
  case (Cons v vs)
  show ?case
    using Cons.IH by (cases "positives f vs = {}") (auto simp: min_def insert_commute)
qed simp

text \<open>Grouping by vhost.\<close>

definition rcpts_of :: "string \<Rightarrow> (string \<times> vhost) list \<Rightarrow> string list" where
  "rcpts_of d z = map fst (filter (\<lambda>(r, v). vh_Domain v = d) z)"

lemma rcpts_of_Nil [simp]: "rcpts_of d [] = []"
  by (simp add: rcpts_of_def)

lemma rcpts_of_Cons [simp]: "rcpts_of d ((r, v) # z) = (if vh_Domain v = d then r # rcpts_of d z else rcpts_of d z)"
  by (simp add: rcpts_of_def)

lemma group_rcpts_spec:
  assumes "group_rcpts z (m, order) = (m', order')" "distinct order" "set order = dom (map_of m)"
  shows "distinct order' \<and> set order' = set order \<union> (vh_Domain \<circ> snd) ` set z
    \<and> (\<forall>d \<in> set order'. map_of m' d = Some ((case map_of m d of None \<Rightarrow> [] | Some rs \<Rightarrow> rs) @ rcpts_of d z))"
  using assms
proof (induction z arbitrary: m order)
  case (Cons p z)
  obtain r v where p: "p = (r, v)" by fastforce
  let ?d = "vh_Domain v"
  let ?m = "AList.update ?d ((case map_of m ?d of None \<Rightarrow> [] | Some rs \<Rightarrow> rs) @ [r]) m"
  let ?o = "if map_of m ?d = None then order @ [?d] else order"
  have g: "group_rcpts z (?m, ?o) = (m', order')" using Cons.prems(1) p by simp
  have o: "distinct ?o" "set ?o = dom (map_of ?m)" using Cons.prems(2,3) by (auto simp: domIff)
  have set_o: "set ?o = insert ?d (set order)" using Cons.prems(3) by auto
  have m: "(case map_of ?m d of None \<Rightarrow> [] | Some rs \<Rightarrow> rs) @ rcpts_of d z
      = (case map_of m d of None \<Rightarrow> [] | Some rs \<Rightarrow> rs) @ rcpts_of d (p # z)" for d
    using p by simp
  show ?case using Cons.IH[OF g o] unfolding m set_o using p by auto
qed (auto simp: dom_def split: option.splits)

lemma received_groups_spec:
  "\<exists>order. distinct order \<and> set order = (vh_Domain \<circ> snd) ` set (zip (is_rcpts s) (is_vhosts s))
    \<and> received_groups s = map (\<lambda>d. (d, rcpts_of d (zip (is_rcpts s) (is_vhosts s)))) order"
proof -
  obtain m order where g: "group_rcpts (zip (is_rcpts s) (is_vhosts s)) ([], []) = (m, order)" by fastforce
  from group_rcpts_spec[OF g] show ?thesis
    by (intro exI[of _ order]) (simp add: received_groups_def g)
qed

lemma store_targets_all:
  assumes "list_all2 (taken dirops A) (is_rcpts s) (is_vhosts s)"
  shows "store_targets folder s = map (\<lambda>(r, v). (vh_Domain v, MailboxPath (fst (the (ParseAddress r))) folder))
    (zip (is_rcpts s) (is_vhosts s))"
proof -
  have "List.map_filter (\<lambda>(rcpt, v). case ParseAddress rcpt of None \<Rightarrow> None
       | Some (l, _) \<Rightarrow> Some (vh_Domain v, MailboxPath l folder)) (zip rs vs)
     = map (\<lambda>(r, v). (vh_Domain v, MailboxPath (fst (the (ParseAddress r))) folder)) (zip rs vs)"
    if "list_all2 (taken dirops A) rs vs" for rs vs
    using that by (induction rule: list_all2_induct) (auto simp: map_filter_simps_pair taken_def)
  then show ?thesis using assms by (simp add: store_targets_def)
qed

lemma inbound_run_parallel:
  assumes "cn_session k = inbound_NewSession ip helo"
  shows "list_all2 (taken (ie_Directory env) (set cmds)) (is_rcpts (cn_session (inbound_run env cmds k)))
    (is_vhosts (cn_session (inbound_run env cmds k)))"
  using assms by (intro inbound_run_taken) (simp_all add: inbound_NewSession_def)

lemma taken_nth:
  "list_all2 (taken dirops A) rs vs \<Longrightarrow> i < length rs \<Longrightarrow> taken dirops A (rs ! i) (vs ! i)"
  by (rule list_all2_nthD)

text \<open>The store after \<open>Data\<close>, over any store that keeps the contract.\<close>

context message_store
begin

lemma inbound_Data_durable:
  assumes data: "inbound_Data L ops webhooks payload_of cfg r s st = (None, st')"
    and ok: "inv (ist_store st)" "length (is_rcpts s) \<le> room (ist_store st)"
    and par: "list_all2 (taken dirops A) (is_rcpts s) (is_vhosts s)"
  shows "\<exists>body refs. readBounded r (effectiveMaxBytes cfg s) = Inr body \<and> inbound_verdict L s body \<noteq> Reject
    \<and> length refs = length (is_rcpts s)
    \<and> (\<forall>i < length (is_rcpts s). ref_Vhost (refs ! i) = vh_Domain (is_vhosts s ! i)
         \<and> ref_Mailbox (refs ! i) = MailboxPath (fst (the (ParseAddress (is_rcpts s ! i)))) (verdict_folder (inbound_verdict L s body))
         \<and> s_Read ops None (refs ! i) (ist_store st') = Inr body)
    \<and> (\<forall>ref b. holds (ist_store st) ref b \<longrightarrow> holds (ist_store st') ref b)"
proof -
  obtain body refs where b: "readBounded r (effectiveMaxBytes cfg s) = Inr body" "inbound_verdict L s body \<noteq> Reject"
    "write_all ops body (store_targets (verdict_folder (inbound_verdict L s body)) s) (ist_store st) = (refs, None, ist_store st')"
    using inbound_Data_cases[OF data] by auto
  have len: "length (is_vhosts s) = length (is_rcpts s)" using par by (simp add: list_all2_lengthD)
  note ts = store_targets_all[OF par, of "verdict_folder (inbound_verdict L s body)"]
  from write_all_keeps[OF ok(1) _ b(3)] ok(2) ts len
  have w: "at_targets holds (ist_store st') body (take (length refs) (store_targets (verdict_folder (inbound_verdict L s body)) s)) refs"
    "length refs = length (is_rcpts s)" "\<forall>ref b. holds (ist_store st) ref b \<longrightarrow> holds (ist_store st') ref b"
    by auto
  then show ?thesis using b(1,2) len
    by (intro exI[of _ body] exI[of _ refs])
      (auto simp: ts at_targets_def list_all2_conv_all_nth intro: read_holds)
qed

end

subsection \<open>Properties\<close>

text \<open>
  C4: The inbound server never relays. Whatever commands a client sends, in whatever order, and
  however the directory changes between them, a \<open>DATA\<close> leaves the store as it was or runs it through
  one write per recipient, in order and up to the first failure, each into the mailbox of an address
  named by a \<open>RCPT\<close> of this connection whose domain the directory had as a registered, active vhost
  at that moment. Every other reply stores nothing and fires no event.
\<close>

theorem inbound_never_relays:
  fixes env :: "('l, 'd, 's, 'h) inbound_env" and k0 :: "('l, 's, 'h) inbound_conn"
  assumes "cn_session k0 = inbound_NewSession ip helo" and "inbound_cmd_step env c (inbound_run env cmds k0) = (e, k')"
  shows "(ist_store (cn_state k') = ist_store (cn_state (inbound_run env cmds k0))
        \<and> ist_hooks (cn_state k') = ist_hooks (cn_state (inbound_run env cmds k0)))
    \<or> (\<exists>r body ts refs x. c = CmdData r \<and> r = Inr body
        \<and> write_all (ie_Store env) body ts (ist_store (cn_state (inbound_run env cmds k0))) = (refs, x, ist_store (cn_state k'))
        \<and> (e = None \<longleftrightarrow> x = None)
        \<and> (\<forall>(v, mbox) \<in> set ts. \<exists>d rcpt l domain vh. CmdRcpt d rcpt \<in> set cmds \<and> ParseAddress rcpt = Some (l, domain)
             \<and> dir_Vhost (ie_Directory env) domain d = Some vh \<and> vh_Active vh
             \<and> v = vh_Domain vh \<and> mbox \<in> {MailboxPath l ''INBOX'', MailboxPath l ''Quarantine''}))"
proof (cases c)
  case (CmdData r)
  let ?k = "inbound_run env cmds k0"
  let ?s = "cn_session ?k"
  note par = inbound_run_parallel[OF assms(1), of env cmds]
  obtain st' where d: "inbound_Data (ie_Filter env) (ie_Store env) (ie_Webhooks env) (ie_payload env) (ie_cfg env) r ?s (cn_state ?k)
      = (e, st')" "cn_state k' = st'"
    using assms(2) CmdData by (auto split: prod.splits)
  have t: "\<forall>(v, mbox) \<in> set (store_targets (verdict_folder w) ?s). \<exists>d rcpt l domain vh. CmdRcpt d rcpt \<in> set cmds
      \<and> ParseAddress rcpt = Some (l, domain) \<and> dir_Vhost (ie_Directory env) domain d = Some vh \<and> vh_Active vh
      \<and> v = vh_Domain vh \<and> mbox \<in> {MailboxPath l ''INBOX'', MailboxPath l ''Quarantine''}" for w
    using par by (fastforce simp: store_targets_all[OF par] set_zip list_all2_conv_all_nth taken_def verdict_folder_def)
  have body: "r = Inr b" if "readBounded r n = Inr b" for b n
    using that by (auto simp: readBounded_def split: sum.splits if_splits)
  show ?thesis
  proof (cases "ist_store st' = ist_store (cn_state ?k) \<and> ist_hooks st' = ist_hooks (cn_state ?k)")
    case False
    then obtain b refs x where b: "readBounded r (effectiveMaxBytes (ie_cfg env) ?s) = Inr b" "e = None \<longleftrightarrow> x = None"
      "write_all (ie_Store env) b (store_targets (verdict_folder (inbound_verdict (ie_Filter env) ?s b)) ?s)
         (ist_store (cn_state ?k)) = (refs, x, ist_store st')"
      using inbound_Data_cases[OF d(1)] by blast
    show ?thesis
      by (rule disjI2, intro exI conjI) (use CmdData d(2) body[OF b(1)] b(2,3) t in simp_all)
  qed (use d(2) in simp)
qed (use assms(2) in \<open>auto split: prod.splits\<close>)

definition demo_vhost :: vhost where
  "demo_vhost = zero_vhost\<lparr>vh_Domain := ''d.test'', vh_Active := True\<rparr>"

definition demo_dir :: memory_directory where
  "demo_dir = \<lparr>md_vhosts = [(''d.test'', demo_vhost)], md_accounts = []\<rparr>"

definition demo_inbound_cfg :: inbound_config where
  "demo_inbound_cfg = \<lparr>ic_MaxMessageBytes = 1000, ic_RateLimitIPCapacity = 0, ic_RateLimitIPRefillPerSecond = 0,
     ic_RateLimitSenderCapacity = 0, ic_RateLimitSenderRefillPerSecond = 0\<rparr>"

definition demo_inbound :: "(unit, memory_directory, maildir, nat) inbound_env" where
  "demo_inbound = \<lparr>ie_cfg = demo_inbound_cfg, ie_RateLimiter = None, ie_Directory = memory_directory_ops,
     ie_Filter = demo_filter, ie_Store = Maildir_ops, ie_Webhooks = Some (\<lambda>ctx d e p n. (None, Suc n)),
     ie_payload = (\<lambda>d x. Inr [])\<rparr>"

definition demo_conn :: "(unit, maildir, nat) inbound_conn" where
  "demo_conn = \<lparr>cn_session = inbound_NewSession None ''b.test'', cn_limiter = (),
     cn_state = \<lparr>ist_store = demo_md, ist_hooks = 0, ist_received_accept = 0, ist_received_quarantine = 0,
       ist_scorer_unavailable = 0\<rparr>\<rparr>"

definition demo_cmds :: "memory_directory inbound_cmd list" where
  "demo_cmds = [CmdRcpt demo_dir ''c@d.test'', CmdRcpt demo_dir ''x@evil.test'']"

theorem inbound_never_relays_witness:
  "\<exists>e k'. inbound_cmd_step demo_inbound (CmdData (Inr ''hello'')) (inbound_run demo_inbound demo_cmds demo_conn) = (e, k')
   \<and> (ist_store (cn_state k') = ist_store (cn_state (inbound_run demo_inbound demo_cmds demo_conn))
     \<or> (\<exists>body ts refs x. write_all (ie_Store demo_inbound) body ts
            (ist_store (cn_state (inbound_run demo_inbound demo_cmds demo_conn))) = (refs, x, ist_store (cn_state k'))
         \<and> (\<forall>(v, mbox) \<in> set ts. v = ''d.test'')))"
proof -
  have s: "cn_session demo_conn = inbound_NewSession None ''b.test''" by (simp add: demo_conn_def)
  obtain e k' where e: "inbound_cmd_step demo_inbound (CmdData (Inr ''hello'')) (inbound_run demo_inbound demo_cmds demo_conn) = (e, k')"
    by fastforce
  have d: "v = ''d.test''" if "CmdRcpt d rcpt \<in> set demo_cmds" "dir_Vhost (ie_Directory demo_inbound) domain d = Some vh"
    "v = vh_Domain vh" for d rcpt domain vh v
    using that by (auto simp: demo_cmds_def demo_inbound_def memory_directory_ops_def memory_Vhost_def demo_dir_def demo_vhost_def
        split: if_splits)
  from inbound_never_relays[OF s e] show ?thesis
  proof
    assume "\<exists>r body ts refs x. CmdData (Inr ''hello'') = CmdData r \<and> r = Inr body
        \<and> write_all (ie_Store demo_inbound) body ts (ist_store (cn_state (inbound_run demo_inbound demo_cmds demo_conn)))
            = (refs, x, ist_store (cn_state k')) \<and> (e = None \<longleftrightarrow> x = None)
        \<and> (\<forall>(v, mbox) \<in> set ts. \<exists>d rcpt l domain vh. CmdRcpt d rcpt \<in> set demo_cmds \<and> ParseAddress rcpt = Some (l, domain)
             \<and> dir_Vhost (ie_Directory demo_inbound) domain d = Some vh \<and> vh_Active vh
             \<and> v = vh_Domain vh \<and> mbox \<in> {MailboxPath l ''INBOX'', MailboxPath l ''Quarantine''})"
    then obtain body ts refs x where w: "write_all (ie_Store demo_inbound) body ts
        (ist_store (cn_state (inbound_run demo_inbound demo_cmds demo_conn))) = (refs, x, ist_store (cn_state k'))"
      and t: "\<forall>(v, mbox) \<in> set ts. \<exists>d rcpt domain vh. CmdRcpt d rcpt \<in> set demo_cmds
         \<and> dir_Vhost (ie_Directory demo_inbound) domain d = Some vh \<and> v = vh_Domain vh"
      by (elim exE conjE) (rule that, assumption, fastforce)
    have "\<forall>(v, mbox) \<in> set ts. v = ''d.test''"
    proof clarify
      fix v mbox assume "(v, mbox) \<in> set ts"
      with t obtain d rcpt domain vh where "CmdRcpt d rcpt \<in> set demo_cmds"
        "dir_Vhost (ie_Directory demo_inbound) domain d = Some vh" "v = vh_Domain vh" by blast
      then show "v = ''d.test''" by (rule d)
    qed
    with w e show ?thesis by blast
  qed (use e in blast)
qed

text \<open>
  C5: Acceptance is durable: when \<open>DATA\<close> answers success on a maildir store, the body was within the
  strictest size limit and not rejected, and for every recipient in order there is a message in
  that recipient's own mailbox of its vhost, in \<open>Quarantine\<close> exactly when the filter quarantined it
  and in \<open>INBOX\<close> otherwise, whose bytes read back are the body; every message delivered before
  is still there.
\<close>

theorem inbound_accepts_durably:
  fixes env :: "('l, 'd, maildir, 'h) inbound_env" and k0 :: "('l, maildir, 'h) inbound_conn"
  assumes "cn_session k0 = inbound_NewSession ip helo" "ie_Store env = Maildir_ops" "k = inbound_run env cmds k0"
    "inbound_cmd_step env (CmdData r) k = (None, k')"
    "maildir_inv (ist_store (cn_state k))" "length (is_rcpts (cn_session k)) \<le> maildir_room (ist_store (cn_state k))"
  shows "\<exists>body refs. r = Inr body \<and> int (length body) \<le> effectiveMaxBytes (ie_cfg env) (cn_session k)
    \<and> inbound_verdict (ie_Filter env) (cn_session k) body \<noteq> Reject
    \<and> length refs = length (is_rcpts (cn_session k)) \<and> length (is_vhosts (cn_session k)) = length (is_rcpts (cn_session k))
    \<and> (\<forall>i < length (is_rcpts (cn_session k)). \<exists>l domain. ParseAddress (is_rcpts (cn_session k) ! i) = Some (l, domain)
         \<and> ref_Vhost (refs ! i) = vh_Domain (is_vhosts (cn_session k) ! i)
         \<and> ref_Mailbox (refs ! i) = MailboxPath l
             (if inbound_verdict (ie_Filter env) (cn_session k) body = Quarantine then ''Quarantine'' else ''INBOX'')
         \<and> Maildir_Read None (refs ! i) (ist_store (cn_state k')) = Inr body)
    \<and> (\<forall>ref b. maildir_holds (ist_store (cn_state k)) ref b \<longrightarrow> Maildir_Read None ref (ist_store (cn_state k')) = Inr b)"
proof -
  note par = inbound_run_parallel[OF assms(1), of env cmds, folded assms(3)]
  have d: "inbound_Data (ie_Filter env) Maildir_ops (ie_Webhooks env) (ie_payload env) (ie_cfg env) r (cn_session k) (cn_state k)
      = (None, cn_state k')"
    using assms(2,4) by (auto split: prod.splits)
  have rb: "r = Inr b \<and> int (length b) \<le> n" if "readBounded r n = Inr b" for b n
    using that by (auto simp: readBounded_def split: sum.splits if_splits)
  let ?f = "\<lambda>body. verdict_folder (inbound_verdict (ie_Filter env) (cn_session k) body)"
  obtain body refs where b: "readBounded r (effectiveMaxBytes (ie_cfg env) (cn_session k)) = Inr body"
    "inbound_verdict (ie_Filter env) (cn_session k) body \<noteq> Reject" "length refs = length (is_rcpts (cn_session k))"
    "\<forall>i < length (is_rcpts (cn_session k)). ref_Vhost (refs ! i) = vh_Domain (is_vhosts (cn_session k) ! i)
       \<and> ref_Mailbox (refs ! i) = MailboxPath (fst (the (ParseAddress (is_rcpts (cn_session k) ! i)))) (?f body)
       \<and> s_Read Maildir_ops None (refs ! i) (ist_store (cn_state k')) = Inr body"
    "\<forall>ref b. maildir_holds (ist_store (cn_state k)) ref b \<longrightarrow> maildir_holds (ist_store (cn_state k')) ref b"
    using mds.inbound_Data_durable[OF d assms(5,6) par] by blast
  have "\<exists>l domain. ParseAddress (is_rcpts (cn_session k) ! i) = Some (l, domain)
      \<and> ref_Vhost (refs ! i) = vh_Domain (is_vhosts (cn_session k) ! i) \<and> ref_Mailbox (refs ! i) = MailboxPath l (?f body)
      \<and> Maildir_Read None (refs ! i) (ist_store (cn_state k')) = Inr body" if i: "i < length (is_rcpts (cn_session k))" for i
  proof -
    obtain l domain where "ParseAddress (is_rcpts (cn_session k) ! i) = Some (l, domain)"
      using taken_nth[OF par i] by (auto simp: taken_def)
    then show ?thesis using b(4) i by (simp add: Maildir_ops_def)
  qed
  then show ?thesis
    using b(2,3,5) rb[OF b(1)] list_all2_lengthD[OF par] maildir_read unfolding verdict_folder_def
    by (intro exI[of _ body] exI[of _ refs]) simp
qed

theorem inbound_accepts_durably_witness:
  "\<exists>k' refs. inbound_cmd_step demo_inbound (CmdData (Inr ''hello'')) (inbound_run demo_inbound demo_cmds demo_conn) = (None, k')
     \<and> length refs = 1 \<and> ref_Mailbox (refs ! 0) = ''c/Quarantine''
     \<and> Maildir_Read None (refs ! 0) (ist_store (cn_state k')) = Inr ''hello''"
proof -
  define k where "k = inbound_run demo_inbound demo_cmds demo_conn"
  have p: "ParseAddress ''c@d.test'' = Some (''c'', ''d.test'')" "ParseAddress ''x@evil.test'' = Some (''x'', ''evil.test'')"
    by (simp_all add: ParseAddress_Some)
  have s: "is_rcpts (cn_session k) = [''c@d.test'']" "is_vhosts (cn_session k) = [demo_vhost]" "cn_state k = cn_state demo_conn"
    by (simp_all add: k_def inbound_run_def demo_cmds_def inbound_Rcpt_def p demo_inbound_def memory_directory_ops_def memory_Vhost_def
        demo_dir_def demo_vhost_def demo_conn_def inbound_NewSession_def)
  have v: "inbound_verdict (ie_Filter demo_inbound) (cn_session k) ''hello'' = Quarantine"
    by (simp add: inbound_verdict_def demo_inbound_def Evaluate_def demo_filter_def LookupDMARC_def decide_def Let_def
        split: prod.splits)
  have st: "ist_store (cn_state k) = demo_md" unfolding s(3) by (simp add: demo_conn_def)
  have inv: "maildir_inv demo_md" "length (is_rcpts (cn_session k)) \<le> maildir_room demo_md"
    by (simp_all add: maildir_inv_def maildir_room_def demo_md_def s)
  have m: "mailboxDir demo_md ''d.test'' ''c/Quarantine'' = [''var'', ''mail'', ''d.test'', ''c'', ''Quarantine'']"
    by (simp add: mailboxDir_def path_join_def demo_md_def)
  obtain b' where w: "Maildir_Write None ''d.test'' ''c/Quarantine'' ''hello'' demo_md
      = (Inr \<lparr>ref_Vhost = ''d.test'', ref_Mailbox = ''c/Quarantine'', ref_Key = fst (uniqueName demo_md)\<rparr>, b')"
    using Write_ok[of demo_md "''d.test''" "''c/Quarantine''" "''hello''"] unfolding m
    by (auto simp: demo_md_def fs_exists_def)
  obtain e k' where e: "inbound_cmd_step demo_inbound (CmdData (Inr ''hello'')) k = (e, k')" by fastforce
  have "e = None"
  proof -
    have r: "readBounded (Inr ''hello'') (effectiveMaxBytes (ie_cfg demo_inbound) (cn_session k)) = Inr ''hello''"
      by (simp add: readBounded_def effectiveMaxBytes_def s demo_vhost_def zero_vhost_def demo_inbound_def demo_inbound_cfg_def)
    have t: "store_targets (verdict_folder Quarantine) (cn_session k) = [(''d.test'', ''c/Quarantine'')]"
      by (simp add: store_targets_def s map_filter_simps_pair p verdict_folder_def MailboxPath_def demo_vhost_def)
    have "inbound_Data (ie_Filter demo_inbound) (ie_Store demo_inbound) (ie_Webhooks demo_inbound) (ie_payload demo_inbound)
      (ie_cfg demo_inbound) (Inr ''hello'') (cn_session k) (cn_state k) = (e, cn_state k')"
      using e by (auto split: prod.splits)
    from inbound_Data_cases[OF this] show ?thesis using r v t w st by (auto simp: demo_inbound_def Maildir_ops_def)
  qed
  have c: "cn_session demo_conn = inbound_NewSession None ''b.test''" "ie_Store demo_inbound = Maildir_ops"
    by (simp_all add: demo_conn_def demo_inbound_def)
  obtain refs where "length refs = 1" "ref_Mailbox (refs ! 0) = ''c/Quarantine''"
    "Maildir_Read None (refs ! 0) (ist_store (cn_state k')) = Inr ''hello''"
    using inbound_accepts_durably[OF c k_def e[unfolded \<open>e = None\<close>]] inv st v p(1)
    by (auto simp: s MailboxPath_def)
  then show ?thesis using e \<open>e = None\<close> k_def by blast
qed

text \<open>
  The strictest recipient governs: the spam thresholds of a transaction are the least positive
  ones of its vhosts (0, which disables the check, only when no vhost sets one), and the size limit
  is the least of the server's own (or the default of 25 MiB) and every positive vhost limit.
\<close>

theorem effective_limits_strictest:
  "(let R = positives vh_SpamRejectThreshold (is_vhosts s); Q = positives vh_SpamQuarantineThreshold (is_vhosts s)
    in effectiveThresholds s = (if R = {} then 0 else Min R, if Q = {} then 0 else Min Q))
   \<and> effectiveMaxBytes cfg s =
       Min (insert (if ic_MaxMessageBytes cfg \<le> 0 then 25 * 1024 * 1024 else ic_MaxMessageBytes cfg)
              (positives vh_MaxMessageBytes (is_vhosts s)))"
  by (simp add: effectiveThresholds_fold foldl_minPositive effectiveMaxBytes_def foldl_max_bytes
      defaultMaxMessageBytes_def Let_def)

text \<open>
  A transaction fires one \<open>message.received\<close> event per distinct vhost of its recipients, and the
  event of a vhost names exactly the recipients of that vhost, in order: no tenant learns the
  addresses of another.
\<close>

theorem fireReceived_one_event_per_vhost:
  "\<exists>order. distinct order \<and> set order = (vh_Domain \<circ> snd) ` set (zip (is_rcpts s) (is_vhosts s))
    \<and> fireReceived (Some enqueue) payload_of quarantined s h =
      fold (\<lambda>d h. case payload_of d (ReceivedData (is_from s)
                 (map fst (filter (\<lambda>(r, v). vh_Domain v = d) (zip (is_rcpts s) (is_vhosts s)))) quarantined) of
               Inl e \<Rightarrow> h
             | Inr payload \<Rightarrow> snd (enqueue None d EventMessageReceived payload h)) order h"
proof -
  obtain order where o: "distinct order" "set order = (vh_Domain \<circ> snd) ` set (zip (is_rcpts s) (is_vhosts s))"
    "received_groups s = map (\<lambda>d. (d, rcpts_of d (zip (is_rcpts s) (is_vhosts s)))) order"
    using received_groups_spec by blast
  have "fire_groups enqueue payload_of from quarantined (map (\<lambda>d. (d, f d)) ds) h =
      fold (\<lambda>d h. case payload_of d (ReceivedData from (f d) quarantined) of Inl e \<Rightarrow> h
             | Inr payload \<Rightarrow> snd (enqueue None d EventMessageReceived payload h)) ds h" for "from" f ds h
    by (induction ds arbitrary: h) (simp_all split: sum.splits)
  then show ?thesis using o by (intro exI[of _ order]) (simp add: fireReceived_def rcpts_of_def)
qed

end
