(* ===== verification/Smtp_Submission.thy ===== *)
theory Smtp_Submission
  imports Smtp_Inbound Job_Queue
begin

section \<open>Authenticated submission: internal/platform/smtp/submission.go\<close>

text \<open>
  The submission session: SASL PLAIN against the directory, \<open>Mail\<close>, \<open>Rcpt\<close>, \<open>Data\<close> (quota, DKIM
  signature, one staged body and one job per recipient, the \<open>message.queued\<close> event) and \<open>Reset\<close>,
  over any directory, store, queue and limiter. \<open>dkim.Sign\<close> is an argument; go-sasl's PLAIN
  server calls the authenticator with the username and password the client sent.
\<close>

record submission_session =
  ss_authLocal :: string
  ss_authVhost :: string
  ss_from :: string
  ss_rcpts :: "string list"
  ss_correlationID :: string

definition submission_NewSession :: submission_session where
  "submission_NewSession = \<lparr>ss_authLocal = [], ss_authVhost = [], ss_from = [], ss_rcpts = [], ss_correlationID = []\<rparr>"

definition AuthMechanisms :: "string list" where
  "AuthMechanisms = [''PLAIN'']"

definition ErrAuthFailed :: gerr where
  "ErrAuthFailed = ErrSentinel ''gosmtp.ErrAuthFailed''"

definition plain_authenticator :: "'d directory_ops \<Rightarrow> 'd \<Rightarrow> string \<Rightarrow> string \<Rightarrow> submission_session
    \<Rightarrow> gerr option \<times> submission_session" where
  "plain_authenticator dirops d username password s =
     (case ParseAddress username of
        None \<Rightarrow> (Some (ErrNew ''smtp: username must be an email address''), s)
      | Some (local_part, vhost) \<Rightarrow>
          if \<not> dir_Authenticate dirops vhost local_part password d then (Some ErrAuthFailed, s)
          else (None, s\<lparr>ss_authLocal := local_part, ss_authVhost := vhost\<rparr>))"

definition submission_Auth :: "'d directory_ops \<Rightarrow> 'd \<Rightarrow> string \<Rightarrow> string \<Rightarrow> string \<Rightarrow> submission_session
    \<Rightarrow> gerr option \<times> submission_session" where
  "submission_Auth dirops d mech username password s =
     (if mech \<noteq> ''PLAIN'' then (Some (ErrNew ''smtp: unsupported auth mechanism''), s)
      else plain_authenticator dirops d username password s)"

definition submission_Reset :: "submission_session \<Rightarrow> submission_session" where
  "submission_Reset s = s\<lparr>ss_from := [], ss_rcpts := [], ss_correlationID := []\<rparr>"

definition submission_Mail :: "string \<Rightarrow> string \<Rightarrow> submission_session \<Rightarrow> gerr option \<times> submission_session" where
  "submission_Mail newID from s =
     (if ss_authLocal s = [] then (Some (ErrSMTP (SMTPError 530 [5, 7, 0] ''authentication required'')), s)
      else (None, s\<lparr>ss_correlationID := newID, ss_from := from\<rparr>))"

definition submission_Rcpt :: "string \<Rightarrow> submission_session \<Rightarrow> gerr option \<times> submission_session" where
  "submission_Rcpt to s = (None, s\<lparr>ss_rcpts := ss_rcpts s @ [to]\<rparr>)"

definition secondsPerDay :: real where
  "secondsPerDay = 24 * 60 * 60"

definition checkQuota :: "'l limiter_ops option \<Rightarrow> time \<Rightarrow> vhost \<Rightarrow> 'l \<Rightarrow> gerr option \<times> 'l" where
  "checkQuota quota now v l =
     (case quota of
        None \<Rightarrow> (None, l)
      | Some ops \<Rightarrow>
          if vh_DailyQuota v \<le> 0 then (None, l)
          else (case l_Allow ops now (''quota:'' @ vh_ID v) (of_int (vh_DailyQuota v))
                       (of_int (vh_DailyQuota v) / secondsPerDay) l of
                  (Inl e, l') \<Rightarrow> (None, l')
                | (Inr allowed, l') \<Rightarrow>
                    if allowed then (None, l')
                    else (Some (ErrSMTP (SMTPError 452 [4, 7, 1]
                           ''daily sending quota exceeded for this vhost, try again later'')), l')))"

datatype queued_data = QueuedData string "string list"

definition fireQueued :: "'h enqueuer option \<Rightarrow> (string \<Rightarrow> queued_data \<Rightarrow> gerr + bytes) \<Rightarrow> submission_session \<Rightarrow> 'h \<Rightarrow> 'h" where
  "fireQueued webhooks payload_of s h =
     (case webhooks of None \<Rightarrow> h
      | Some enqueue \<Rightarrow>
          (case payload_of (ss_authVhost s) (QueuedData (ss_from s) (ss_rcpts s)) of
             Inl e \<Rightarrow> h
           | Inr payload \<Rightarrow> snd (enqueue None (ss_authVhost s) EventMessageQueued payload h)))"

text \<open>The body of the loop draws a fresh ID and reads the clock; \<open>draws i\<close> is the pair of the \<open>i\<close>-th round.\<close>

definition submitted_job :: "submission_session \<Rightarrow> string \<Rightarrow> message_ref \<Rightarrow> string \<Rightarrow> time \<Rightarrow> job" where
  "submitted_job s rcpt ref newID now =
     \<lparr>job_ID = newID, job_Vhost = ss_authVhost s, job_From = ss_from s, job_To = rcpt, job_BodyRef = ref_Key ref,
      job_Attempts = 0, job_NextAttemptAt = now, job_LastError = [], job_CorrelationID = ss_correlationID s\<rparr>"

fun submit_loop :: "'s store_ops \<Rightarrow> (job, 'q) queue_ops \<Rightarrow> submission_session \<Rightarrow> bytes \<Rightarrow> (string \<times> string \<times> time) list
    \<Rightarrow> 's \<times> 'q \<Rightarrow> gerr option \<times> 's \<times> 'q" where
  "submit_loop store queue s signed [] (st, q) = (None, st, q)"
| "submit_loop store queue s signed ((rcpt, newID, now) # rest) (st, q) =
     (case s_Write store None (ss_authVhost s) OutboxMailbox signed st of
        (Inl e, st') \<Rightarrow> (Some (ErrSMTP (SMTPError 451 [] ''temporary storage failure'')), st', q)
      | (Inr ref, st') \<Rightarrow>
          (case q_Enqueue queue None (submitted_job s rcpt ref newID now) q of
             (Some e, q') \<Rightarrow> (Some (ErrSMTP (SMTPError 451 [] ''queue unavailable'')), st', q')
           | (None, q') \<Rightarrow> submit_loop store queue s signed rest (st', q')))"

record ('l, 'd, 's, 'q, 'h) submission_env =
  se_Directory :: "'d directory_ops"
  se_Store :: "'s store_ops"
  se_Queue :: "(job, 'q) queue_ops"
  se_Quota :: "'l limiter_ops option"
  se_Webhooks :: "'h enqueuer option"
  se_payload :: "string \<Rightarrow> queued_data \<Rightarrow> gerr + bytes"
  se_sign :: "string \<Rightarrow> string \<Rightarrow> string \<Rightarrow> bytes \<Rightarrow> gerr + bytes"

record ('l, 's, 'q, 'h) submission_state =
  sst_quota :: 'l
  sst_store :: 's
  sst_queue :: 'q
  sst_hooks :: 'h

definition submission_Data :: "('l, 'd, 's, 'q, 'h) submission_env \<Rightarrow> 'd \<Rightarrow> time \<Rightarrow> (nat \<Rightarrow> string \<times> time) \<Rightarrow> gerr + bytes
    \<Rightarrow> submission_session \<Rightarrow> ('l, 's, 'q, 'h) submission_state \<Rightarrow> gerr option \<times> ('l, 's, 'q, 'h) submission_state" where
  "submission_Data env d now draws r s st =
     (case r of Inl e \<Rightarrow> (Some e, st) | Inr body \<Rightarrow>
      case dir_Vhost (se_Directory env) (ss_authVhost s) d of
        None \<Rightarrow> (Some (ErrSMTP (SMTPError 451 [] ''no DKIM key configured for sending vhost'')), st)
      | Some v \<Rightarrow>
      case vh_DKIMKey v of
        None \<Rightarrow> (Some (ErrSMTP (SMTPError 451 [] ''no DKIM key configured for sending vhost'')), st)
      | Some key \<Rightarrow>
      case checkQuota (se_Quota env) now v (sst_quota st) of
        (Some e, l) \<Rightarrow> (Some e, st\<lparr>sst_quota := l\<rparr>)
      | (None, l) \<Rightarrow>
      case se_sign env (vh_Domain v) (vh_DKIMSelector v) key body of
        Inl e \<Rightarrow> (Some (ErrSMTP (SMTPError 451 [] ''DKIM signing failed'')), st\<lparr>sst_quota := l\<rparr>)
      | Inr signed \<Rightarrow>
      case submit_loop (se_Store env) (se_Queue env) s signed (zip (ss_rcpts s) (map draws [0..<length (ss_rcpts s)])) (sst_store st, sst_queue st) of
        (Some e, x, q) \<Rightarrow> (Some e, st\<lparr>sst_quota := l, sst_store := x, sst_queue := q\<rparr>)
      | (None, x, q) \<Rightarrow> (None, st\<lparr>sst_quota := l, sst_store := x, sst_queue := q,
            sst_hooks := fireQueued (se_Webhooks env) (se_payload env) s (sst_hooks st)\<rparr>))"

text \<open>A connection: the client's commands in any order. Each carries the directory it reads.\<close>

datatype 'd submission_cmd =
    SubAuth 'd string string string
  | SubMail string string
  | SubRcpt string
  | SubData 'd time "nat \<Rightarrow> string \<times> time" "gerr + bytes"
  | SubReset

record ('l, 's, 'q, 'h) submission_conn =
  sn_session :: submission_session
  sn_state :: "('l, 's, 'q, 'h) submission_state"

fun submission_cmd_step :: "('l, 'd, 's, 'q, 'h) submission_env \<Rightarrow> 'd submission_cmd \<Rightarrow> ('l, 's, 'q, 'h) submission_conn
    \<Rightarrow> gerr option \<times> ('l, 's, 'q, 'h) submission_conn" where
  "submission_cmd_step env (SubAuth d mech username password) k =
     (case submission_Auth (se_Directory env) d mech username password (sn_session k) of (e, s) \<Rightarrow> (e, k\<lparr>sn_session := s\<rparr>))"
| "submission_cmd_step env (SubMail newID from) k =
     (case submission_Mail newID from (sn_session k) of (e, s) \<Rightarrow> (e, k\<lparr>sn_session := s\<rparr>))"
| "submission_cmd_step env (SubRcpt to) k =
     (case submission_Rcpt to (sn_session k) of (e, s) \<Rightarrow> (e, k\<lparr>sn_session := s\<rparr>))"
| "submission_cmd_step env (SubData d now draws r) k =
     (case submission_Data env d now draws r (sn_session k) (sn_state k) of (e, st) \<Rightarrow> (e, k\<lparr>sn_state := st\<rparr>))"
| "submission_cmd_step env SubReset k = (None, k\<lparr>sn_session := submission_Reset (sn_session k)\<rparr>)"

definition submission_run :: "('l, 'd, 's, 'q, 'h) submission_env \<Rightarrow> 'd submission_cmd list
    \<Rightarrow> ('l, 's, 'q, 'h) submission_conn \<Rightarrow> ('l, 's, 'q, 'h) submission_conn" where
  "submission_run env cmds k = foldl (\<lambda>k c. snd (submission_cmd_step env c k)) k cmds"

subsection \<open>Authentication\<close>

text \<open>The identity of the session comes from a successful \<open>AUTH PLAIN\<close> of the connection.\<close>

definition authenticated :: "'d directory_ops \<Rightarrow> 'd submission_cmd set \<Rightarrow> string \<Rightarrow> string \<Rightarrow> bool" where
  "authenticated dirops A l v \<longleftrightarrow> (\<exists>d username password. SubAuth d ''PLAIN'' username password \<in> A
     \<and> ParseAddress username = Some (l, v) \<and> dir_Authenticate dirops v l password d)"

definition auth_inv :: "'d directory_ops \<Rightarrow> 'd submission_cmd set \<Rightarrow> submission_session \<Rightarrow> bool" where
  "auth_inv dirops A s \<longleftrightarrow> (ss_authLocal s = [] \<and> ss_authVhost s = [] \<or> authenticated dirops A (ss_authLocal s) (ss_authVhost s))
     \<and> (ss_authLocal s = [] \<longrightarrow> ss_from s = [] \<and> ss_correlationID s = [])"

lemma auth_inv_step:
  assumes "auth_inv (se_Directory env) A (sn_session k)" "c \<in> A"
  shows "auth_inv (se_Directory env) A (sn_session (snd (submission_cmd_step env c k)))"
  using assms
  by (cases c)
    (auto simp: auth_inv_def authenticated_def submission_Auth_def plain_authenticator_def submission_Mail_def
      submission_Rcpt_def submission_Reset_def ParseAddress_Some split: prod.splits option.splits)

lemma auth_inv_run:
  "auth_inv (se_Directory env) A (sn_session k) \<Longrightarrow> set cmds \<subseteq> A \<Longrightarrow>
   auth_inv (se_Directory env) A (sn_session (submission_run env cmds k))"
proof (induction cmds arbitrary: k)
  case (Cons c cmds)
  have "auth_inv (se_Directory env) A (sn_session (snd (submission_cmd_step env c k)))"
    using Cons.prems by (intro auth_inv_step) auto
  from Cons.IH[OF this] Cons.prems(2) show ?case by (simp add: submission_run_def)
qed (simp add: submission_run_def)

lemma auth_inv_new: "auth_inv dirops A submission_NewSession"
  by (simp add: auth_inv_def submission_NewSession_def)

subsection \<open>The loop over the recipients\<close>

text \<open>The reference under which the deliverer looks for the body of a job.\<close>

definition job_ref :: "job \<Rightarrow> message_ref" where
  "job_ref j = \<lparr>ref_Vhost = job_Vhost j, ref_Mailbox = OutboxMailbox, ref_Key = job_BodyRef j\<rparr>"

text \<open>Both providers of the submission path: a store and a queue that keep their contracts.\<close>

locale submission_path =
  st: message_store sops sinv holds room +
  qu: claim_queue qops init job_ID job_NextAttemptAt job_retry pending claims qinv
  for sops :: "'s store_ops" and sinv holds room
    and qops :: "(job, 'q) queue_ops" and init pending claims qinv
begin

definition staged :: "submission_session \<Rightarrow> bytes \<Rightarrow> 's \<Rightarrow> 'q \<Rightarrow> string \<times> string \<times> time \<Rightarrow> bool" where
  "staged s signed st q z \<longleftrightarrow> (\<exists>ref. pending q (fst (snd z)) = Some (submitted_job s (fst z) ref (fst (snd z)) (snd (snd z)))
     \<and> holds st (job_ref (submitted_job s (fst z) ref (fst (snd z)) (snd (snd z)))) signed)"

lemma staged_mono:
  assumes "staged s signed st q z" "\<forall>ref b. holds st ref b \<longrightarrow> holds st' ref b" "pending q' (fst (snd z)) = pending q (fst (snd z))"
  shows "staged s signed st' q' z"
  using assms by (auto simp: staged_def)

lemma submit_loop_spec:
  assumes "submit_loop sops qops s signed zs (st, q) = (e, st', q')" "sinv st" "length zs \<le> room st" "qinv q"
    "distinct (map (fst \<circ> snd) zs)"
  shows "\<exists>n \<le> length zs. (e = None \<longleftrightarrow> n = length zs) \<and> (\<forall>z \<in> set (take n zs). staged s signed st' q' z)
    \<and> (\<forall>k. k \<notin> set (map (fst \<circ> snd) (take n zs)) \<longrightarrow> pending q' k = pending q k)
    \<and> claims q' = claims q \<and> qinv q' \<and> sinv st' \<and> (\<forall>ref b. holds st ref b \<longrightarrow> holds st' ref b)"
  using assms
proof (induction zs arbitrary: st q)
  case (Cons z zs)
  obtain rcpt i now where z: "z = (rcpt, i, now)" by (metis prod_cases3)
  obtain r s1 where w: "s_Write sops None (ss_authVhost s) OutboxMailbox signed st = (r, s1)" by fastforce
  have keep: "sinv s1" "room st \<le> Suc (room s1)" "\<forall>ref b. holds st ref b \<longrightarrow> holds s1 ref b"
    using st.write_keeps[OF Cons.prems(2) _ w] Cons.prems(3) by auto
  show ?case
  proof (cases r)
    case (Inl x)
    then show ?thesis using Cons.prems z w keep by (intro exI[of _ 0]) auto
  next
    case (Inr ref)
    let ?j = "submitted_job s rcpt ref i now"
    have h: "holds s1 (job_ref ?j) signed"
      using st.write_ok[OF Cons.prems(2) _ w[unfolded Inr]] Cons.prems(3)
      by (cases ref) (auto simp: job_ref_def submitted_job_def)
    obtain x q1 where eq: "q_Enqueue qops None ?j q = (x, q1)" by fastforce
    show ?thesis
    proof (cases x)
      case (Some y)
      then have "q1 = q" using qu.enq_err eq by simp
      then show ?thesis using Cons.prems z w Inr eq Some keep by (intro exI[of _ 0]) auto
    next
      case None
      have en: "qinv q1" "pending q1 = (pending q)(i \<mapsto> ?j)" "claims q1 = claims q"
        using qu.enq_ok[OF Cons.prems(4) eq[unfolded None]] by (auto simp: submitted_job_def)
      have l: "submit_loop sops qops s signed zs (s1, q1) = (e, st', q')" using Cons.prems(1) z w Inr eq None by simp
      obtain n where n: "n \<le> length zs" "e = None \<longleftrightarrow> n = length zs" "\<forall>z \<in> set (take n zs). staged s signed st' q' z"
        "\<forall>k. k \<notin> set (map (fst \<circ> snd) (take n zs)) \<longrightarrow> pending q' k = pending q1 k"
        "claims q' = claims q1" "qinv q'" "sinv st'" "\<forall>ref b. holds s1 ref b \<longrightarrow> holds st' ref b"
        using Cons.IH[OF l keep(1) _ en(1)] keep(2) Cons.prems(3,5) by auto
      have fresh: "i \<notin> set (map (fst \<circ> snd) (take n zs))" using Cons.prems(5) z by (auto dest: in_set_takeD)
      have "staged s signed s1 q1 z" using en h z by (auto simp: staged_def)
      then have "staged s signed st' q' z" by (rule staged_mono) (use n(4,8) fresh z in auto)
      then show ?thesis using n en keep(3) z by (intro exI[of _ "Suc n"]) auto
    qed
  qed
qed auto

text \<open>The same by index, for the recipients \<open>rs\<close> and the draws of each round.\<close>

lemma submit_loop_indexed:
  assumes "submit_loop sops qops s signed (zip rs (map draws [0..<length rs])) (st, q) = (e, st', q')"
    "sinv st" "length rs \<le> room st" "qinv q" "distinct (map (fst \<circ> draws) [0..<length rs])"
  shows "\<exists>n \<le> length rs. (e = None \<longleftrightarrow> n = length rs)
    \<and> (\<forall>i < n. \<exists>ref. pending q' (fst (draws i)) = Some (submitted_job s (rs ! i) ref (fst (draws i)) (snd (draws i)))
         \<and> holds st' (job_ref (submitted_job s (rs ! i) ref (fst (draws i)) (snd (draws i)))) signed)
    \<and> (\<forall>k. k \<notin> (fst \<circ> draws) ` {..<n} \<longrightarrow> pending q' k = pending q k)
    \<and> claims q' = claims q \<and> (\<forall>ref b. holds st ref b \<longrightarrow> holds st' ref b)"
proof -
  let ?zs = "zip rs (map draws [0..<length rs])"
  have ids: "map (fst \<circ> snd) ?zs = map (fst \<circ> draws) [0..<length rs]" by (rule nth_equalityI) simp_all
  obtain n where n: "n \<le> length ?zs" "e = None \<longleftrightarrow> n = length ?zs" "\<forall>z \<in> set (take n ?zs). staged s signed st' q' z"
    "\<forall>k. k \<notin> set (map (fst \<circ> snd) (take n ?zs)) \<longrightarrow> pending q' k = pending q k"
    "claims q' = claims q" "\<forall>ref b. holds st ref b \<longrightarrow> holds st' ref b"
    using submit_loop_spec[OF assms(1,2) _ assms(4)] assms(3,5) ids by auto
  have set_ids: "set (map (fst \<circ> snd) (take n ?zs)) = (fst \<circ> draws) ` {..<n}"
    unfolding take_map[symmetric] ids using n(1) by (auto simp: take_map)
  have "staged s signed st' q' (rs ! i, draws i)" if "i < n" for i
  proof -
    have "(rs ! i, draws i) \<in> set (take n ?zs)" using that n(1) by (auto simp: in_set_conv_nth intro!: exI[of _ i])
    with n(3) show ?thesis by blast
  qed
  then show ?thesis using n set_ids by (intro exI[of _ n]) (auto simp: staged_def)
qed

end

interpretation mdq: submission_path Maildir_ops maildir_inv maildir_holds maildir_room
  MemoryBackend_ops NewMemoryBackend mq_pending mq_claims "mq_inv job_ID"
  by unfold_locales

lemma submission_Data_cases:
  assumes "submission_Data env d now draws r s st = (e, st')"
  shows "(e \<noteq> None \<and> sst_store st' = sst_store st \<and> sst_queue st' = sst_queue st \<and> sst_hooks st' = sst_hooks st)
    \<or> (\<exists>body v key signed. r = Inr body \<and> dir_Vhost (se_Directory env) (ss_authVhost s) d = Some v \<and> vh_DKIMKey v = Some key
         \<and> fst (checkQuota (se_Quota env) now v (sst_quota st)) = None
         \<and> se_sign env (vh_Domain v) (vh_DKIMSelector v) key body = Inr signed
         \<and> submit_loop (se_Store env) (se_Queue env) s signed (zip (ss_rcpts s) (map draws [0..<length (ss_rcpts s)]))
             (sst_store st, sst_queue st) = (e, sst_store st', sst_queue st')
         \<and> sst_hooks st' = (if e = None then fireQueued (se_Webhooks env) (se_payload env) s (sst_hooks st) else sst_hooks st))"
proof (cases "\<exists>body v key. r = Inr body \<and> dir_Vhost (se_Directory env) (ss_authVhost s) d = Some v \<and> vh_DKIMKey v = Some key")
  case True
  then obtain body v key where h: "r = Inr body" "dir_Vhost (se_Directory env) (ss_authVhost s) d = Some v" "vh_DKIMKey v = Some key"
    by blast
  obtain x l where qt: "checkQuota (se_Quota env) now v (sst_quota st) = (x, l)" by fastforce
  show ?thesis
  proof (cases "x = None \<and> (\<exists>signed. se_sign env (vh_Domain v) (vh_DKIMSelector v) key body = Inr signed)")
    case True
    then obtain signed where sg: "x = None" "se_sign env (vh_Domain v) (vh_DKIMSelector v) key body = Inr signed" by blast
    obtain y a b where "submit_loop (se_Store env) (se_Queue env) s signed (zip (ss_rcpts s) (map draws [0..<length (ss_rcpts s)]))
             (sst_store st, sst_queue st) = (y, a, b)" by (metis prod_cases3)
    with assms h qt sg show ?thesis by (cases y) (auto simp: submission_Data_def)
  qed (use assms h qt in \<open>auto simp: submission_Data_def split: sum.splits option.splits\<close>)
qed (use assms in \<open>auto simp: submission_Data_def split: sum.splits option.splits\<close>)

subsection \<open>Properties\<close>

text \<open>
  C8: Nothing is submitted without authentication. Whatever a client sends, in whatever order, a
  command that stages a body, queues a job or fires an event is a \<open>DATA\<close> of a connection in which
  an \<open>AUTH PLAIN\<close> named the session's local part and vhost with a password the directory accepted
  (given that no vhost has the empty name), and \<open>MAIL\<close> succeeds only then too. An unsupported
  mechanism never authenticates.
\<close>

theorem submission_requires_auth:
  fixes env :: "('l, 'd, 's, 'q, 'h) submission_env" and k0 :: "('l, 's, 'q, 'h) submission_conn"
  assumes "sn_session k0 = submission_NewSession" "k = submission_run env cmds k0" "submission_cmd_step env c k = (e, k')"
    and "\<forall>d now draws r. c = SubData d now draws r \<longrightarrow> dir_Vhost (se_Directory env) [] d = None"
  shows "((sst_store (sn_state k'), sst_queue (sn_state k'), sst_hooks (sn_state k'))
           \<noteq> (sst_store (sn_state k), sst_queue (sn_state k), sst_hooks (sn_state k))
          \<or> (\<exists>newID sender. c = SubMail newID sender \<and> e = None))
    \<longrightarrow> (\<exists>d username password. SubAuth d ''PLAIN'' username password \<in> set cmds
          \<and> ParseAddress username = Some (ss_authLocal (sn_session k), ss_authVhost (sn_session k))
          \<and> dir_Authenticate (se_Directory env) (ss_authVhost (sn_session k)) (ss_authLocal (sn_session k)) password d)"
proof -
  have inv: "auth_inv (se_Directory env) (set cmds) (sn_session k)"
    unfolding assms(2) using assms(1) auth_inv_new by (intro auth_inv_run) simp_all
  have data: "ss_authVhost (sn_session k) \<noteq> []" if c: "c = SubData d now draws r" and ch:
    "(sst_store (sn_state k'), sst_queue (sn_state k'), sst_hooks (sn_state k'))
           \<noteq> (sst_store (sn_state k), sst_queue (sn_state k), sst_hooks (sn_state k))" for d now draws r
  proof
    assume "ss_authVhost (sn_session k) = []"
    then have "dir_Vhost (se_Directory env) (ss_authVhost (sn_session k)) d = None" using assms(4) c by simp
    moreover obtain st' where "submission_Data env d now draws r (sn_session k) (sn_state k) = (e, st')" "sn_state k' = st'"
      using assms(3) c by (auto split: prod.splits)
    ultimately show False using submission_Data_cases[of env d now draws r "sn_session k" "sn_state k" e st'] ch by simp
  qed
  have mail: "ss_authLocal (sn_session k) \<noteq> []" if "c = SubMail newID sender" "e = None" for newID sender
    using assms(3) that by (auto simp: submission_Mail_def split: prod.splits if_splits)
  have "sn_state k' = sn_state k" if "\<forall>d now draws r. c \<noteq> SubData d now draws r"
    using assms(3) that by (cases c) (auto split: prod.splits)
  then show ?thesis using inv data mail unfolding auth_inv_def authenticated_def by metis
qed

definition demo_sub_dir :: memory_directory where
  "demo_sub_dir = \<lparr>md_vhosts = [(''d.test'', demo_vhost\<lparr>vh_DKIMKey := Some ''pem''\<rparr>)],
     md_accounts = [(''u@d.test'', \<lparr>ma_vhost = ''d.test'', ma_localPart = ''u'', ma_password = ''pw''\<rparr>)]\<rparr>"

definition demo_submission :: "(unit, memory_directory, maildir, memory_backend, nat) submission_env" where
  "demo_submission = \<lparr>se_Directory = memory_directory_ops, se_Store = Maildir_ops, se_Queue = MemoryBackend_ops,
     se_Quota = None, se_Webhooks = None, se_payload = (\<lambda>d x. Inr []), se_sign = (\<lambda>d sel key b. Inr (''sig'' @ b))\<rparr>"

definition demo_sub_state :: "(unit, maildir, memory_backend, nat) submission_state" where
  "demo_sub_state = \<lparr>sst_quota = (), sst_store = demo_md, sst_queue = NewMemoryBackend, sst_hooks = 0\<rparr>"

definition demo_sub_conn :: "(unit, maildir, memory_backend, nat) submission_conn" where
  "demo_sub_conn = \<lparr>sn_session = submission_NewSession, sn_state = demo_sub_state\<rparr>"

theorem submission_requires_auth_witness:
  "\<exists>k'. submission_cmd_step demo_submission (SubMail ''i'' ''u@d.test'')
          (submission_run demo_submission [SubAuth demo_sub_dir ''PLAIN'' ''u@d.test'' ''pw''] demo_sub_conn) = (None, k')
     \<and> (\<exists>d username password. SubAuth d ''PLAIN'' username password \<in> set [SubAuth demo_sub_dir ''PLAIN'' ''u@d.test'' ''pw'']
          \<and> dir_Authenticate (se_Directory demo_submission) ''d.test'' ''u'' password d)"
proof -
  define k where "k = submission_run demo_submission [SubAuth demo_sub_dir ''PLAIN'' ''u@d.test'' ''pw''] demo_sub_conn"
  have p: "ParseAddress ''u@d.test'' = Some (''u'', ''d.test'')" by (simp add: ParseAddress_Some)
  have s: "ss_authLocal (sn_session k) = ''u''" "ss_authVhost (sn_session k) = ''d.test''"
    by (simp_all add: k_def submission_run_def submission_Auth_def plain_authenticator_def p demo_submission_def
        memory_directory_ops_def memory_Authenticate_def demo_sub_dir_def accountKey_def demo_sub_conn_def)
  obtain e k' where e: "submission_cmd_step demo_submission (SubMail ''i'' ''u@d.test'') k = (e, k')" by fastforce
  then have "e = None" using s by (simp add: submission_Mail_def split: prod.splits)
  moreover have "sn_session demo_sub_conn = submission_NewSession" by (simp add: demo_sub_conn_def)
  ultimately show ?thesis using submission_requires_auth[OF _ k_def e] e s unfolding k_def[symmetric] by auto
qed

text \<open>
  C7: A submission queues what it acknowledged: on a maildir store and the in-memory queue, with
  distinct job IDs, a \<open>DATA\<close> has handled some first \<open>n\<close> of the recipients, all of them exactly when
  it answers success, in which case the body was signed with the DKIM key of the authenticated
  vhost. For each handled recipient the queue holds a fresh job, due at once, from the sender to
  that recipient under the authenticated vhost, and the signed body reads back from the outbox
  under the reference the deliverer will use. No other job is touched or claimed, and no stored
  message is lost.
\<close>

theorem submission_queues_acknowledged:
  fixes env :: "('l, 'd, maildir, memory_backend, 'h) submission_env"
  assumes "se_Store env = Maildir_ops" "se_Queue env = MemoryBackend_ops"
    and "submission_Data env d now draws r s st = (e, st')"
    and "maildir_inv (sst_store st)" "length (ss_rcpts s) \<le> maildir_room (sst_store st)" "mq_inv job_ID (sst_queue st)"
    and "distinct (map (fst \<circ> draws) [0..<length (ss_rcpts s)])"
  shows "\<exists>n signed. n \<le> length (ss_rcpts s)
    \<and> (e = None \<longrightarrow> n = length (ss_rcpts s) \<and> (\<exists>body v key. r = Inr body \<and> vh_DKIMKey v = Some key
         \<and> dir_Vhost (se_Directory env) (ss_authVhost s) d = Some v
         \<and> se_sign env (vh_Domain v) (vh_DKIMSelector v) key body = Inr signed))
    \<and> (\<forall>i < n. \<exists>j. mq_pending (sst_queue st') (fst (draws i)) = Some j \<and> job_To j = ss_rcpts s ! i \<and> job_From j = ss_from s
         \<and> job_Vhost j = ss_authVhost s \<and> job_Attempts j = 0 \<and> job_NextAttemptAt j = snd (draws i)
         \<and> Maildir_Read None \<lparr>ref_Vhost = job_Vhost j, ref_Mailbox = OutboxMailbox, ref_Key = job_BodyRef j\<rparr> (sst_store st') = Inr signed)
    \<and> (\<forall>k. k \<notin> (fst \<circ> draws) ` {..<n} \<longrightarrow> mq_pending (sst_queue st') k = mq_pending (sst_queue st) k)
    \<and> mq_claims (sst_queue st') = mq_claims (sst_queue st)
    \<and> (\<forall>ref b. maildir_holds (sst_store st) ref b \<longrightarrow> Maildir_Read None ref (sst_store st') = Inr b)"
  using submission_Data_cases[OF assms(3)]
proof (elim disjE exE conjE)
  assume "e \<noteq> None" "sst_store st' = sst_store st" "sst_queue st' = sst_queue st"
  then show ?thesis using maildir_read by (intro exI[of _ 0] exI[of _ "[]"]) auto
next
  fix body v key signed
  assume v: "r = Inr body" "dir_Vhost (se_Directory env) (ss_authVhost s) d = Some v" "vh_DKIMKey v = Some key"
    "se_sign env (vh_Domain v) (vh_DKIMSelector v) key body = Inr signed"
    and l: "submit_loop (se_Store env) (se_Queue env) s signed (zip (ss_rcpts s) (map draws [0..<length (ss_rcpts s)]))
      (sst_store st, sst_queue st) = (e, sst_store st', sst_queue st')"
  obtain n where n: "n \<le> length (ss_rcpts s)" "e = None \<longleftrightarrow> n = length (ss_rcpts s)"
    "\<forall>i < n. \<exists>ref. mq_pending (sst_queue st') (fst (draws i)) = Some (submitted_job s (ss_rcpts s ! i) ref (fst (draws i)) (snd (draws i)))
         \<and> maildir_holds (sst_store st') (job_ref (submitted_job s (ss_rcpts s ! i) ref (fst (draws i)) (snd (draws i)))) signed"
    "\<forall>k. k \<notin> (fst \<circ> draws) ` {..<n} \<longrightarrow> mq_pending (sst_queue st') k = mq_pending (sst_queue st) k"
    "mq_claims (sst_queue st') = mq_claims (sst_queue st)"
    "\<forall>ref b. maildir_holds (sst_store st) ref b \<longrightarrow> maildir_holds (sst_store st') ref b"
    using mdq.submit_loop_indexed[OF l[unfolded assms(1,2)] assms(4-7)] by blast
  have "\<exists>j. mq_pending (sst_queue st') (fst (draws i)) = Some j \<and> job_To j = ss_rcpts s ! i \<and> job_From j = ss_from s
      \<and> job_Vhost j = ss_authVhost s \<and> job_Attempts j = 0 \<and> job_NextAttemptAt j = snd (draws i)
      \<and> Maildir_Read None \<lparr>ref_Vhost = job_Vhost j, ref_Mailbox = OutboxMailbox, ref_Key = job_BodyRef j\<rparr> (sst_store st') = Inr signed"
    if "i < n" for i
    using n(3) that by (fastforce simp: submitted_job_def job_ref_def dest: maildir_read)
  then show ?thesis using n v maildir_read by (intro exI[of _ n] exI[of _ signed]) auto
qed

definition demo_sub_session :: submission_session where
  "demo_sub_session = \<lparr>ss_authLocal = ''u'', ss_authVhost = ''d.test'', ss_from = ''u@d.test'',
     ss_rcpts = [''v@b.test''], ss_correlationID = ''i''\<rparr>"

theorem submission_queues_acknowledged_witness:
  "\<exists>st' j. submission_Data demo_submission demo_sub_dir 5 (\<lambda>i. (''j'', 5)) (Inr ''hi'') demo_sub_session demo_sub_state = (None, st')
     \<and> mq_pending (sst_queue st') ''j'' = Some j \<and> job_To j = ''v@b.test'' \<and> job_Vhost j = ''d.test''
     \<and> Maildir_Read None \<lparr>ref_Vhost = job_Vhost j, ref_Mailbox = OutboxMailbox, ref_Key = job_BodyRef j\<rparr> (sst_store st') = Inr ''sighi''"
proof -
  let ?ref = "\<lparr>ref_Vhost = ''d.test'', ref_Mailbox = OutboxMailbox, ref_Key = fst (uniqueName demo_md)\<rparr>"
  have m: "mailboxDir demo_md ''d.test'' OutboxMailbox = [''var'', ''mail'', ''d.test'', ''Outbox'']"
    by (simp add: mailboxDir_def path_join_def demo_md_def OutboxMailbox_def)
  obtain b' where w: "Maildir_Write None ''d.test'' OutboxMailbox ''sighi'' demo_md = (Inr ?ref, b')"
    using Write_ok[of demo_md "''d.test''" OutboxMailbox "''sighi''"] unfolding m by (auto simp: demo_md_def fs_exists_def)
  obtain e st' where d: "submission_Data demo_submission demo_sub_dir 5 (\<lambda>i. (''j'', 5)) (Inr ''hi'') demo_sub_session demo_sub_state
      = (e, st')" by fastforce
  have v: "dir_Vhost (se_Directory demo_submission) ''d.test'' demo_sub_dir = Some (demo_vhost\<lparr>vh_DKIMKey := Some ''pem''\<rparr>)"
    by (simp add: demo_submission_def memory_directory_ops_def memory_Vhost_def demo_sub_dir_def)
  have e: "e = None" using d w v
    by (auto simp: submission_Data_def demo_submission_def checkQuota_def demo_sub_session_def demo_sub_state_def Maildir_ops_def
        MemoryBackend_ops_def MemoryBackend_Enqueue_def mem_Enqueue_def submitted_job_def)
  have h: "se_Store demo_submission = Maildir_ops" "se_Queue demo_submission = MemoryBackend_ops"
    "maildir_inv (sst_store demo_sub_state)" "length (ss_rcpts demo_sub_session) \<le> maildir_room (sst_store demo_sub_state)"
    "mq_inv job_ID (sst_queue demo_sub_state)" "distinct (map (fst \<circ> (\<lambda>i. (''j'', 5 :: time))) [0..<length (ss_rcpts demo_sub_session)])"
    by (simp_all add: demo_submission_def demo_sub_state_def maildir_inv_def maildir_room_def demo_md_def demo_sub_session_def
        mb.init_inv)
  obtain j where "mq_pending (sst_queue st') ''j'' = Some j" "job_To j = ''v@b.test''" "job_Vhost j = ''d.test''"
    "Maildir_Read None \<lparr>ref_Vhost = job_Vhost j, ref_Mailbox = OutboxMailbox, ref_Key = job_BodyRef j\<rparr> (sst_store st') = Inr ''sighi''"
    using submission_queues_acknowledged[OF h(1,2) d[unfolded e] h(3-6)]
    by (auto simp: demo_sub_session_def demo_submission_def)
  with d e show ?thesis by blast
qed

end
