(* ===== verification/Sql_Table.thy ===== *)
theory Sql_Table
  imports Env_Prelude
begin

section \<open>The database: what the code relies on of gorm and Postgres\<close>

text \<open>
  The durable stores of Envelope run on gorm and Postgres, which are not part of the repository:
  a table is an argument of every definition that uses it, the record \<open>sql_ops\<close> of the gorm calls
  the code makes. A \<open>Where\<close> clause is a predicate on rows, the values of an \<open>Update\<close> or \<open>Updates\<close>
  a function on rows, an \<open>Order\<close> clause a list of columns.
  The locale \<open>sql_table\<close> states what the code relies on: \<open>look t k\<close> is the live row with primary
  key \<open>k\<close>; a statement that succeeds has its SQL effect on the live rows and one that reports an
  error has none; a statement may always fail. \<open>filled\<close> says what the entity hooks fill in on a
  \<open>Create\<close> (the ID when it is empty, the time stamps), \<open>conflict\<close> is the unique index of the table,
  and \<open>norm\<close> what its column types keep of a row (a \<open>timestamptz\<close> has microseconds).
  Deletion is soft in Envelope's tables: a deleted row is not live, but may keep its key taken.
  Text columns compare as bytes. An error stands for a statement the server did not apply: a
  connection lost between a commit and its acknowledgement is outside the model.
\<close>

datatype 'r order_key =
    IntAsc "'r \<Rightarrow> int"
  | IntDesc "'r \<Rightarrow> int"
  | TextAsc "'r \<Rightarrow> string"
  | TextDesc "'r \<Rightarrow> string"

fun order_le :: "'r order_key list \<Rightarrow> 'r \<Rightarrow> 'r \<Rightarrow> bool" where
  "order_le [] a b = True"
| "order_le (IntAsc f # ks) a b = (f a < f b \<or> (f a = f b \<and> order_le ks a b))"
| "order_le (IntDesc f # ks) a b = (f b < f a \<or> (f a = f b \<and> order_le ks a b))"
| "order_le (TextAsc f # ks) a b = (f a < f b \<or> (f a = f b \<and> order_le ks a b))"
| "order_le (TextDesc f # ks) a b = (f b < f a \<or> (f a = f b \<and> order_le ks a b))"

record ('r, 't) sql_ops =
  t_Create :: "gerr option \<Rightarrow> 'r \<Rightarrow> 't \<Rightarrow> (gerr + 'r) \<times> 't"
  t_Find :: "gerr option \<Rightarrow> ('r \<Rightarrow> bool) \<Rightarrow> 'r order_key list \<Rightarrow> nat option \<Rightarrow> 't \<Rightarrow> gerr + 'r list"
  t_Updates :: "gerr option \<Rightarrow> ('r \<Rightarrow> bool) \<Rightarrow> ('r \<Rightarrow> 'r) \<Rightarrow> 't \<Rightarrow> (gerr + nat) \<times> 't"
  t_Delete :: "gerr option \<Rightarrow> ('r \<Rightarrow> bool) \<Rightarrow> 't \<Rightarrow> (gerr + nat) \<times> 't"
  t_Count :: "gerr option \<Rightarrow> ('r \<Rightarrow> bool) \<Rightarrow> 't \<Rightarrow> gerr + nat"
  t_Begin :: "gerr option \<Rightarrow> 't \<Rightarrow> gerr option"
  t_Commit :: "gerr option \<Rightarrow> 't \<Rightarrow> gerr option"

definition gorm_ErrRecordNotFound :: gerr where
  "gorm_ErrRecordNotFound = ErrSentinel ''record not found''"

text \<open>\<open>First\<close>: the first row by the given order, then by primary key.\<close>

definition sql_First :: "('r, 't) sql_ops \<Rightarrow> ('r \<Rightarrow> string) \<Rightarrow> gerr option \<Rightarrow> ('r \<Rightarrow> bool)
    \<Rightarrow> 'r order_key list \<Rightarrow> 't \<Rightarrow> gerr + 'r" where
  "sql_First ops rid ctx P ks t =
     (case t_Find ops ctx P (ks @ [TextAsc rid]) (Some 1) t of
        Inl e \<Rightarrow> Inl e
      | Inr [] \<Rightarrow> Inl gorm_ErrRecordNotFound
      | Inr (r # _) \<Rightarrow> Inr r)"

text \<open>
  \<open>db.Transaction(f)\<close>: an error of \<open>f\<close> or of the commit rolls back what \<open>f\<close> did.
\<close>

definition transaction :: "('t \<Rightarrow> gerr option) \<Rightarrow> ('t \<Rightarrow> gerr option) \<Rightarrow> ('t \<Rightarrow> (gerr + 'a) \<times> 't)
    \<Rightarrow> 't \<Rightarrow> (gerr + 'a) \<times> 't" where
  "transaction start commit f t =
     (case start t of
        Some e \<Rightarrow> (Inl e, t)
      | None \<Rightarrow> (case f t of
          (Inl e, t') \<Rightarrow> (Inl e, t)
        | (Inr x, t') \<Rightarrow> (case commit t' of Some e \<Rightarrow> (Inl e, t) | None \<Rightarrow> (Inr x, t'))))"

lemma transaction_error: "transaction b c f t = (Inl e, t') \<Longrightarrow> t' = t"
  by (auto simp: transaction_def split: option.splits prod.splits sum.splits)

lemma transaction_ok: "transaction b c f t = (Inr x, t') \<Longrightarrow> f t = (Inr x, t')"
  by (auto simp: transaction_def split: option.splits prod.splits sum.splits)

lemma order_le_refl: "order_le ks a a"
  by (induction ks a a rule: order_le.induct) auto

lemma order_le_total: "order_le ks a b \<or> order_le ks b a"
  by (induction ks a b rule: order_le.induct) auto

lemma order_le_trans: "order_le ks a b \<Longrightarrow> order_le ks b c \<Longrightarrow> order_le ks a c"
  by (induction ks a b rule: order_le.induct) auto

lemma order_le_id: "order_le [TextAsc f] = (\<lambda>a b. f a \<le> f b)"
  by (auto simp: fun_eq_iff le_less)

text \<open>The rows a listing by primary key returns.\<close>

definition matching :: "(string \<Rightarrow> 'r option) \<Rightarrow> ('r \<Rightarrow> bool) \<Rightarrow> string set" where
  "matching m P = {k. \<exists>r. m k = Some r \<and> P r}"

definition rows_by_id :: "(string \<Rightarrow> 'r option) \<Rightarrow> ('r \<Rightarrow> bool) \<Rightarrow> 'r list" where
  "rows_by_id m P = map (the \<circ> m) (sorted_list_of_set (matching m P))"

definition limit_rows :: "nat option \<Rightarrow> 'a list \<Rightarrow> 'a list" where
  "limit_rows lim xs = (case lim of None \<Rightarrow> xs | Some n \<Rightarrow> take n xs)"

lemma limit_rows_simps [simp]: "limit_rows None xs = xs" "limit_rows (Some n) xs = take n xs"
  by (simp_all add: limit_rows_def)

locale sql_table =
  fixes ops :: "('r, 't) sql_ops"
    and ok :: "'t \<Rightarrow> bool"
    and look :: "'t \<Rightarrow> string \<Rightarrow> 'r option"
    and rid :: "'r \<Rightarrow> string"
    and filled :: "'r \<Rightarrow> 'r \<Rightarrow> bool"
    and conflict :: "'r \<Rightarrow> 'r \<Rightarrow> bool"
    and norm :: "'r \<Rightarrow> 'r"
  assumes look_id: "ok t \<Longrightarrow> look t k = Some r \<Longrightarrow> rid r = k"
    and look_finite: "ok t \<Longrightarrow> finite (dom (look t))"
    and look_unique: "ok t \<Longrightarrow> look t k = Some r \<Longrightarrow> look t k' = Some r' \<Longrightarrow> k \<noteq> k' \<Longrightarrow> \<not> conflict r r'"
    and look_norm: "ok t \<Longrightarrow> look t k = Some r \<Longrightarrow> norm r = r"
    and norm_id: "rid (norm r) = rid r"
    and norm_filled: "filled r r' \<Longrightarrow> rid r' \<noteq> [] \<and> (rid r \<noteq> [] \<longrightarrow> rid r' = rid r)"
    and create_ok: "ok t \<Longrightarrow> t_Create ops ctx r t = (Inr r', t') \<Longrightarrow>
      ok t' \<and> filled r r' \<and> look t (rid r') = None \<and> look t' = (look t)(rid r' \<mapsto> norm r')"
    and create_err: "t_Create ops ctx r t = (Inl e, t') \<Longrightarrow> t' = t"
    and find_ok: "ok t \<Longrightarrow> t_Find ops ctx P ks lim t = Inr xs \<Longrightarrow>
      \<exists>ys. distinct ys \<and> set ys = {r. look t (rid r) = Some r \<and> P r} \<and> sorted_wrt (order_le ks) ys
        \<and> xs = limit_rows lim ys"
    and find_err: "t_Find ops ctx P ks lim t = Inl e \<Longrightarrow> \<not> errors_is ''record not found'' e"
    and updates_ok: "ok t \<Longrightarrow> t_Updates ops ctx P f t = (Inr n, t') \<Longrightarrow> (\<And>r. rid (f r) = rid r) \<Longrightarrow>
      ok t' \<and> n = card (matching (look t) P) \<and> (n = 0 \<longrightarrow> t' = t)
        \<and> look t' = (\<lambda>k. map_option (\<lambda>r. if P r then norm (f r) else r) (look t k))"
    and updates_err: "t_Updates ops ctx P f t = (Inl e, t') \<Longrightarrow> t' = t"
    and delete_ok: "ok t \<Longrightarrow> t_Delete ops ctx P t = (Inr n, t') \<Longrightarrow>
      ok t' \<and> n = card (matching (look t) P) \<and> (n = 0 \<longrightarrow> t' = t)
        \<and> look t' = (\<lambda>k. case look t k of None \<Rightarrow> None | Some r \<Rightarrow> if P r then None else Some r)"
    and delete_err: "t_Delete ops ctx P t = (Inl e, t') \<Longrightarrow> t' = t"
    and count_ok: "ok t \<Longrightarrow> t_Count ops ctx P t = Inr n \<Longrightarrow> n = card (matching (look t) P)"
begin

lemma live_iff: "ok t \<Longrightarrow> look t (rid r) = Some r \<longleftrightarrow> (\<exists>k. look t k = Some r)"
  using look_id by metis

lemma matching_finite: "ok t \<Longrightarrow> finite (matching (look t) P)"
  using look_finite by (rule finite_subset[rotated]) (auto simp: matching_def dom_def)

lemma find_live:
  assumes "ok t" "t_Find ops ctx P ks lim t = Inr xs" "r \<in> set xs"
  shows "look t (rid r) = Some r \<and> P r"
proof -
  obtain ys where "set ys = {r. look t (rid r) = Some r \<and> P r}" "xs = limit_rows lim ys"
    using find_ok[OF assms(1,2)] by blast
  then show ?thesis using assms(3) by (cases lim) (auto dest: in_set_takeD)
qed

lemma find_all:
  assumes "ok t" "t_Find ops ctx P ks None t = Inr xs"
  shows "distinct xs \<and> set xs = {r. look t (rid r) = Some r \<and> P r} \<and> sorted_wrt (order_le ks) xs"
  using find_ok[OF assms] by auto

text \<open>A query for one row: nothing matches, or a least match.\<close>

lemma find_one:
  assumes "ok t" "t_Find ops ctx P ks (Some 1) t = Inr xs"
  shows "(xs = [] \<and> (\<forall>k r. look t k = Some r \<longrightarrow> \<not> P r))
    \<or> (\<exists>r. xs = [r] \<and> look t (rid r) = Some r \<and> P r
         \<and> (\<forall>k r'. look t k = Some r' \<and> P r' \<longrightarrow> order_le ks r r'))"
proof -
  obtain ys where ys: "set ys = {r. look t (rid r) = Some r \<and> P r}" "sorted_wrt (order_le ks) ys"
    "xs = take 1 ys" using find_ok[OF assms] by auto
  have mem: "r \<in> set ys" if "look t k = Some r" "P r" for k r
    using that ys(1) look_id[OF assms(1) that(1)] by auto
  show ?thesis
  proof (cases ys)
    case Nil
    then show ?thesis using ys(3) mem by fastforce
  next
    case (Cons r rs)
    then have "look t (rid r) = Some r \<and> P r" using ys(1) by auto
    moreover have "order_le ks r r'" if "look t k = Some r'" "P r'" for k r'
      using mem[OF that] Cons ys(2) order_le_refl by auto
    ultimately show ?thesis using Cons ys(3) by auto
  qed
qed

lemma First_ok:
  assumes "ok t" "sql_First ops rid ctx P ks t = Inr r"
  shows "look t (rid r) = Some r \<and> P r
    \<and> (\<forall>k r'. look t k = Some r' \<and> P r' \<longrightarrow> order_le (ks @ [TextAsc rid]) r r')"
proof -
  obtain rs where "t_Find ops ctx P (ks @ [TextAsc rid]) (Some 1) t = Inr (r # rs)"
    using assms(2) by (auto simp: sql_First_def split: sum.splits list.splits)
  from find_one[OF assms(1) this] show ?thesis by auto
qed

lemma First_none:
  assumes "ok t" "sql_First ops rid ctx P ks t = Inl e" "errors_is ''record not found'' e"
  shows "e = gorm_ErrRecordNotFound \<and> (\<forall>k r. look t k = Some r \<longrightarrow> \<not> P r)"
proof -
  have "t_Find ops ctx P (ks @ [TextAsc rid]) (Some 1) t = Inr [] \<and> e = gorm_ErrRecordNotFound"
    using assms(2,3) find_err by (auto simp: sql_First_def split: sum.splits list.splits)
  with find_one[OF assms(1)] show ?thesis by blast
qed

text \<open>Statements on one row, by primary key.\<close>

lemma matching_id:
  "ok t \<Longrightarrow> matching (look t) (\<lambda>r. rid r = k \<and> Q r) = {k'. k' = k \<and> (\<exists>r. look t k = Some r \<and> Q r)}"
  using look_id by (fastforce simp: matching_def)

lemma updates_at:
  assumes "ok t" "t_Updates ops ctx (\<lambda>r. rid r = k \<and> Q r) f t = (Inr n, t')" "\<And>r. rid (f r) = rid r"
  shows "ok t' \<and> (n = 0 \<longrightarrow> (\<forall>r. look t k = Some r \<longrightarrow> \<not> Q r) \<and> t' = t)
    \<and> (n \<noteq> 0 \<longrightarrow> (\<exists>r. look t k = Some r \<and> Q r \<and> look t' = (look t)(k \<mapsto> norm (f r))))"
proof -
  note u = updates_ok[OF assms]
  have m: "matching (look t) (\<lambda>r. rid r = k \<and> Q r) = {k'. k' = k \<and> (\<exists>r. look t k = Some r \<and> Q r)}"
    by (rule matching_id[OF assms(1)])
  show ?thesis
  proof (cases "\<exists>r. look t k = Some r \<and> Q r")
    case True
    then obtain r where r: "look t k = Some r" "Q r" by blast
    then have "look t' = (look t)(k \<mapsto> norm (f r))"
      using u look_id[OF assms(1)] by (auto simp: fun_eq_iff map_option_case split: option.splits)
    moreover have "n = 1" using u m True by auto
    ultimately show ?thesis using u r by auto
  next
    case False
    then have "n = 0" using u m by auto
    then show ?thesis using u False by auto
  qed
qed

lemma delete_at:
  assumes "ok t" "t_Delete ops ctx (\<lambda>r. rid r = k \<and> Q r) t = (Inr n, t')"
  shows "ok t' \<and> (n = 0 \<longrightarrow> (\<forall>r. look t k = Some r \<longrightarrow> \<not> Q r) \<and> t' = t)
    \<and> (n \<noteq> 0 \<longrightarrow> (\<exists>r. look t k = Some r \<and> Q r) \<and> look t' = (look t)(k := None))"
proof -
  note d = delete_ok[OF assms]
  have m: "matching (look t) (\<lambda>r. rid r = k \<and> Q r) = {k'. k' = k \<and> (\<exists>r. look t k = Some r \<and> Q r)}"
    by (rule matching_id[OF assms(1)])
  show ?thesis
  proof (cases "\<exists>r. look t k = Some r \<and> Q r")
    case True
    then have "look t' = (look t)(k := None)" "n = 1"
      using d m look_id[OF assms(1)] by (auto simp: fun_eq_iff split: option.splits)
    then show ?thesis using d True by auto
  next
    case False
    then have "n = 0" using d m by auto
    then show ?thesis using d False by auto
  qed
qed

text \<open>A listing by primary key has one possible answer.\<close>

lemma find_by_id:
  assumes "ok t" "t_Find ops ctx P [TextAsc rid] lim t = Inr xs"
  shows "xs = limit_rows lim (rows_by_id (look t) P)"
proof -
  obtain ys where ys: "distinct ys" "set ys = {r. look t (rid r) = Some r \<and> P r}"
    "sorted_wrt (order_le [TextAsc rid]) ys" "xs = limit_rows lim ys" using find_ok[OF assms] by auto
  have keys: "set (map rid ys) = matching (look t) P"
  proof (intro set_eqI iffI)
    fix k assume "k \<in> matching (look t) P"
    then obtain r where r: "look t k = Some r" "P r" by (auto simp: matching_def)
    then have "rid r = k" by (intro look_id[OF assms(1)])
    then show "k \<in> set (map rid ys)" using r ys(2) by auto
  qed (auto simp: matching_def ys(2))
  have "inj_on rid (set ys)" unfolding ys(2) by (rule inj_onI) simp
  then have "distinct (map rid ys)" using ys(1) by (simp add: distinct_map)
  moreover have "sorted (map rid ys)"
    using ys(3) unfolding order_le_id by (simp add: sorted_map)
  ultimately have "sorted_list_of_set (matching (look t) P) = map rid ys"
    using keys sorted_list_of_set.idem_if_sorted_distinct[of "map rid ys"] by simp
  then have "rows_by_id (look t) P = map (the \<circ> look t \<circ> rid) ys" by (simp add: rows_by_id_def)
  also have "\<dots> = ys" using ys(2) by (intro map_idI) auto
  finally show ?thesis using ys(4) by simp
qed

end

subsection \<open>A table in memory\<close>

text \<open>
  The laws can be met: a table kept as a list of its live rows, with the keys it has ever used,
  that fails on a cancelled context and on a unique violation.
\<close>

record 'r list_table =
  lt_rows :: "'r list"
  lt_used :: "string list"

fun insert_by :: "('r \<Rightarrow> 'r \<Rightarrow> bool) \<Rightarrow> 'r \<Rightarrow> 'r list \<Rightarrow> 'r list" where
  "insert_by le x [] = [x]"
| "insert_by le x (y # ys) = (if le x y then x # y # ys else y # insert_by le x ys)"

definition sort_rows :: "'r order_key list \<Rightarrow> 'r list \<Rightarrow> 'r list" where
  "sort_rows ks xs = foldr (insert_by (order_le ks)) xs []"

definition pg_unique_violation :: gerr where
  "pg_unique_violation = ErrPg ''23505'' ''duplicate key value violates unique constraint''"

definition lt_look :: "('r \<Rightarrow> string) \<Rightarrow> 'r list_table \<Rightarrow> string \<Rightarrow> 'r option" where
  "lt_look rid t k = find (\<lambda>r. rid r = k) (lt_rows t)"

definition lt_ok :: "('r \<Rightarrow> string) \<Rightarrow> ('r \<Rightarrow> 'r \<Rightarrow> bool) \<Rightarrow> ('r \<Rightarrow> 'r) \<Rightarrow> 'r list_table \<Rightarrow> bool" where
  "lt_ok rid conflict norm t \<longleftrightarrow> distinct (map rid (lt_rows t)) \<and> (\<forall>r \<in> set (lt_rows t). norm r = r)
     \<and> set (map rid (lt_rows t)) \<subseteq> set (lt_used t)
     \<and> (\<forall>r \<in> set (lt_rows t). \<forall>r' \<in> set (lt_rows t). rid r \<noteq> rid r' \<longrightarrow> \<not> conflict r r')"

definition lt_Create :: "('r \<Rightarrow> string) \<Rightarrow> ('r list_table \<Rightarrow> 'r \<Rightarrow> 'r) \<Rightarrow> ('r \<Rightarrow> 'r \<Rightarrow> bool) \<Rightarrow> ('r \<Rightarrow> 'r)
    \<Rightarrow> gerr option \<Rightarrow> 'r \<Rightarrow> 'r list_table \<Rightarrow> (gerr + 'r) \<times> 'r list_table" where
  "lt_Create rid fill conflict norm ctx r t =
     (case ctx of Some e \<Rightarrow> (Inl e, t)
      | None \<Rightarrow> (let r' = fill t r in
          if rid r' \<in> set (lt_used t) \<or> (\<exists>x \<in> set (lt_rows t). conflict (norm r') x \<or> conflict x (norm r'))
          then (Inl pg_unique_violation, t)
          else (Inr r', \<lparr>lt_rows = lt_rows t @ [norm r'], lt_used = rid r' # lt_used t\<rparr>)))"

definition lt_Find :: "gerr option \<Rightarrow> ('r \<Rightarrow> bool) \<Rightarrow> 'r order_key list \<Rightarrow> nat option \<Rightarrow> 'r list_table
    \<Rightarrow> gerr + 'r list" where
  "lt_Find ctx P ks lim t =
     (if ctx = None then Inr (limit_rows lim (sort_rows ks (filter P (lt_rows t))))
      else Inl (ErrCtx ''context canceled''))"

definition lt_Updates :: "('r \<Rightarrow> string) \<Rightarrow> ('r \<Rightarrow> 'r \<Rightarrow> bool) \<Rightarrow> ('r \<Rightarrow> 'r) \<Rightarrow> gerr option \<Rightarrow> ('r \<Rightarrow> bool)
    \<Rightarrow> ('r \<Rightarrow> 'r) \<Rightarrow> 'r list_table \<Rightarrow> (gerr + nat) \<times> 'r list_table" where
  "lt_Updates rid conflict norm ctx P f t =
     (case ctx of Some e \<Rightarrow> (Inl e, t)
      | None \<Rightarrow> (let t' = t\<lparr>lt_rows := map (\<lambda>r. if P r then norm (f r) else r) (lt_rows t)\<rparr> in
          if lt_ok rid conflict norm t' then (Inr (length (filter P (lt_rows t))), t')
          else (Inl pg_unique_violation, t)))"

definition lt_Delete :: "gerr option \<Rightarrow> ('r \<Rightarrow> bool) \<Rightarrow> 'r list_table \<Rightarrow> (gerr + nat) \<times> 'r list_table" where
  "lt_Delete ctx P t =
     (case ctx of Some e \<Rightarrow> (Inl e, t)
      | None \<Rightarrow> (Inr (length (filter P (lt_rows t))), t\<lparr>lt_rows := filter (\<lambda>r. \<not> P r) (lt_rows t)\<rparr>))"

definition lt_Count :: "gerr option \<Rightarrow> ('r \<Rightarrow> bool) \<Rightarrow> 'r list_table \<Rightarrow> gerr + nat" where
  "lt_Count ctx P t = (case ctx of Some e \<Rightarrow> Inl e | None \<Rightarrow> Inr (length (filter P (lt_rows t))))"

definition list_table_ops :: "('r \<Rightarrow> string) \<Rightarrow> ('r list_table \<Rightarrow> 'r \<Rightarrow> 'r) \<Rightarrow> ('r \<Rightarrow> 'r \<Rightarrow> bool) \<Rightarrow> ('r \<Rightarrow> 'r)
    \<Rightarrow> ('r, 'r list_table) sql_ops" where
  "list_table_ops rid fill conflict norm =
     \<lparr>t_Create = lt_Create rid fill conflict norm, t_Find = lt_Find,
      t_Updates = lt_Updates rid conflict norm, t_Delete = lt_Delete, t_Count = lt_Count,
      t_Begin = (\<lambda>ctx t. ctx), t_Commit = (\<lambda>ctx t. ctx)\<rparr>"

definition empty_table :: "'r list_table" where
  "empty_table = \<lparr>lt_rows = [], lt_used = []\<rparr>"

lemma insert_by_mset [simp]: "mset (insert_by le x ys) = add_mset x (mset ys)"
  by (induction ys) auto

lemma insert_by_set [simp]: "set (insert_by le x ys) = insert x (set ys)"
  by (induction ys) auto

lemma insert_by_sorted:
  "sorted_wrt (order_le ks) ys \<Longrightarrow> sorted_wrt (order_le ks) (insert_by (order_le ks) x ys)"
  using order_le_total[of ks] order_le_trans[of ks] by (induction ys) auto

lemma sort_rows_mset [simp]: "mset (sort_rows ks xs) = mset xs"
  unfolding sort_rows_def by (induction xs) auto

lemma sort_rows_sorted: "sorted_wrt (order_le ks) (sort_rows ks xs)"
  unfolding sort_rows_def by (induction xs) (auto intro: insert_by_sorted)

lemma sort_rows_set [simp]: "set (sort_rows ks xs) = set xs"
  by (metis sort_rows_mset mset_eq_setD)

lemma sort_rows_distinct [simp]: "distinct (sort_rows ks xs) = distinct xs"
  by (metis sort_rows_mset mset_eq_imp_distinct_iff)

lemma find_append: "find P (xs @ ys) = (case find P xs of None \<Rightarrow> find P ys | Some x \<Rightarrow> Some x)"
  by (induction xs) auto

lemma lt_look_mem: "lt_look rid t k = Some r \<Longrightarrow> r \<in> set (lt_rows t) \<and> rid r = k"
  by (auto simp: lt_look_def find_Some_iff)

lemma lt_look_iff:
  assumes "distinct (map rid (lt_rows t))"
  shows "lt_look rid t k = Some r \<longleftrightarrow> r \<in> set (lt_rows t) \<and> rid r = k"
proof
  assume r: "r \<in> set (lt_rows t) \<and> rid r = k"
  then obtain r' where "lt_look rid t k = Some r'"
    by (cases "lt_look rid t k") (auto simp: lt_look_def find_None_iff)
  moreover from lt_look_mem[OF this] r assms have "r' = r" by (auto simp: distinct_map dest: inj_onD)
  ultimately show "lt_look rid t k = Some r" by simp
qed (rule lt_look_mem)

lemma lt_matching:
  assumes "distinct (map rid (lt_rows t))"
  shows "card (matching (lt_look rid t) P) = length (filter P (lt_rows t))"
proof -
  have "matching (lt_look rid t) P = rid ` set (filter P (lt_rows t))"
    using lt_look_iff[OF assms] by (auto simp: matching_def)
  moreover have "inj_on rid (set (filter P (lt_rows t)))"
    using assms by (auto simp: distinct_map intro: inj_on_subset)
  ultimately show ?thesis
    using assms by (simp add: card_image distinct_card distinct_map del: set_filter)
qed

locale list_table =
  fixes rid :: "'r \<Rightarrow> string"
    and fill :: "'r list_table \<Rightarrow> 'r \<Rightarrow> 'r"
    and filled conflict :: "'r \<Rightarrow> 'r \<Rightarrow> bool"
    and norm :: "'r \<Rightarrow> 'r"
  assumes keeps_id: "rid (norm r) = rid r"
    and norm_norm: "norm (norm r) = norm r"
    and fill_filled: "filled r (fill t r)"
    and filled_id: "filled r r' \<Longrightarrow> rid r' \<noteq> [] \<and> (rid r \<noteq> [] \<longrightarrow> rid r' = rid r)"
begin

lemma lt_Create_ok:
  assumes "lt_ok rid conflict norm t" "lt_Create rid fill conflict norm ctx r t = (Inr r', t')"
  shows "lt_ok rid conflict norm t' \<and> filled r r' \<and> lt_look rid t (rid r') = None
    \<and> lt_look rid t' = (lt_look rid t)(rid r' \<mapsto> norm r')"
proof -
  have c: "r' = fill t r" "rid r' \<notin> set (lt_used t)"
    "\<forall>x \<in> set (lt_rows t). \<not> conflict (norm r') x \<and> \<not> conflict x (norm r')"
    "t' = \<lparr>lt_rows = lt_rows t @ [norm r'], lt_used = rid r' # lt_used t\<rparr>"
    using assms(2) by (auto simp: lt_Create_def Let_def split: option.splits if_splits)
  then have n: "rid r' \<notin> rid ` set (lt_rows t)" using assms(1) by (auto simp: lt_ok_def)
  then have fresh: "rid x \<noteq> rid r'" if "x \<in> set (lt_rows t)" for x using that by (metis image_eqI)
  then have "lt_look rid t (rid r') = None" by (simp add: lt_look_def find_None_iff)
  moreover have "lt_look rid t' k = ((lt_look rid t)(rid r' \<mapsto> norm r')) k" for k
    using \<open>lt_look rid t (rid r') = None\<close> c(4)
    by (auto simp: lt_look_def keeps_id find_append split: option.splits)
  ultimately show ?thesis using c n assms(1) keeps_id fill_filled norm_norm
    by (auto simp: lt_ok_def fun_eq_iff)
qed

lemma lt_Updates_ok:
  assumes "lt_ok rid conflict norm t" "lt_Updates rid conflict norm ctx P f t = (Inr n, t')"
    and "\<And>r. rid (f r) = rid r"
  shows "lt_ok rid conflict norm t' \<and> n = card (matching (lt_look rid t) P) \<and> (n = 0 \<longrightarrow> t' = t)
    \<and> lt_look rid t' = (\<lambda>k. map_option (\<lambda>r. if P r then norm (f r) else r) (lt_look rid t k))"
proof -
  let ?g = "\<lambda>r. if P r then norm (f r) else r"
  have c: "lt_ok rid conflict norm t'" "n = length (filter P (lt_rows t))" "t' = t\<lparr>lt_rows := map ?g (lt_rows t)\<rparr>"
    using assms(2) by (auto simp: lt_Updates_def Let_def split: option.splits if_splits)
  have g: "rid (?g r) = rid r" for r by (simp add: keeps_id assms(3))
  have "find (\<lambda>r. rid r = k) (map ?g xs) = map_option ?g (find (\<lambda>r. rid r = k) xs)" for k xs
    using g by (induction xs) (auto split: if_splits)
  then have "lt_look rid t' k = map_option ?g (lt_look rid t k)" for k
    using c(3) by (simp add: lt_look_def)
  moreover have "distinct (map rid (lt_rows t))" using assms(1) by (simp add: lt_ok_def)
  moreover have "map ?g (lt_rows t) = lt_rows t" if "n = 0"
    using that c(2) by (intro map_idI) (auto simp: filter_empty_conv)
  ultimately show ?thesis using c lt_matching[of rid t P] by (simp add: fun_eq_iff)
qed

lemma lt_Delete_ok:
  assumes "lt_ok rid conflict norm t" "lt_Delete ctx P t = (Inr n, t')"
  shows "lt_ok rid conflict norm t' \<and> n = card (matching (lt_look rid t) P) \<and> (n = 0 \<longrightarrow> t' = t)
    \<and> lt_look rid t' = (\<lambda>k. case lt_look rid t k of None \<Rightarrow> None | Some r \<Rightarrow> if P r then None else Some r)"
proof -
  have c: "n = length (filter P (lt_rows t))" "t' = t\<lparr>lt_rows := filter (\<lambda>r. \<not> P r) (lt_rows t)\<rparr>"
    using assms(2) by (auto simp: lt_Delete_def split: option.splits)
  have d: "distinct (map rid (lt_rows t))" using assms(1) by (simp add: lt_ok_def)
  then have d': "distinct (map rid (lt_rows t'))" using c(2) by (simp add: distinct_map_filter)
  have "lt_look rid t' k = (case lt_look rid t k of None \<Rightarrow> None | Some r \<Rightarrow> if P r then None else Some r)" for k
  proof (cases "lt_look rid t' k")
    case None
    then have "r \<notin> set (lt_rows t') \<or> rid r \<noteq> k" for r using lt_look_iff[OF d'] by (metis option.distinct(1))
    then have "P r" if "lt_look rid t k = Some r" for r
      using that lt_look_mem[OF that] c(2) by auto
    with None show ?thesis by (auto split: option.splits)
  next
    case (Some r)
    then have "r \<in> set (lt_rows t)" "\<not> P r" "rid r = k" using lt_look_mem[OF Some] c(2) by auto
    then have "lt_look rid t k = Some r" using lt_look_iff[OF d] by simp
    with Some \<open>\<not> P r\<close> show ?thesis by simp
  qed
  moreover have "filter (\<lambda>r. \<not> P r) (lt_rows t) = lt_rows t" if "n = 0"
    using that c(1) by (simp add: filter_empty_conv filter_id_conv)
  ultimately show ?thesis using c assms(1) lt_matching[OF d] d' by (auto simp: lt_ok_def)
qed

end

sublocale list_table \<subseteq> sql_table "list_table_ops rid fill conflict norm" "lt_ok rid conflict norm"
  "lt_look rid" rid filled conflict norm
proof (unfold_locales, goal_cases)
  case (1 t k r) then show ?case using lt_look_mem by fast
next
  case (2 t)
  have "dom (lt_look rid t) \<subseteq> rid ` set (lt_rows t)" by (auto dest: lt_look_mem)
  then show ?case by (rule finite_subset) simp
next
  case (3 t k r k' r') then show ?case unfolding lt_ok_def by (metis lt_look_mem)
next
  case (4 t k r) then show ?case unfolding lt_ok_def by (metis lt_look_mem)
next
  case (5 r) show ?case by (rule keeps_id)
next
  case (6 r r') then show ?case by (rule filled_id)
next
  case (7 t ctx r r' t')
  then show ?case using lt_Create_ok by (simp add: list_table_ops_def)
next
  case (8 ctx r t e t')
  then show ?case by (auto simp: list_table_ops_def lt_Create_def Let_def split: option.splits if_splits)
next
  case (9 t ctx P ks lim xs)
  then have d: "distinct (map rid (lt_rows t))" by (simp add: lt_ok_def)
  have x: "xs = limit_rows lim (sort_rows ks (filter P (lt_rows t)))"
    using 9 by (auto simp: list_table_ops_def lt_Find_def split: if_splits)
  show ?case using d lt_look_iff[OF d] x sort_rows_sorted
    by (intro exI[of _ "sort_rows ks (filter P (lt_rows t))"]) (auto simp: distinct_map)
next
  case (10 ctx P ks lim t e)
  then show ?case by (auto simp: list_table_ops_def lt_Find_def split: if_splits)
next
  case (11 t ctx P f n t')
  then show ?case using lt_Updates_ok by (simp add: list_table_ops_def)
next
  case (12 ctx P f t e t')
  then show ?case by (auto simp: list_table_ops_def lt_Updates_def Let_def split: option.splits if_splits)
next
  case (13 t ctx P n t')
  then show ?case using lt_Delete_ok by (simp add: list_table_ops_def)
next
  case (14 ctx P t e t')
  then show ?case by (auto simp: list_table_ops_def lt_Delete_def split: option.splits)
next
  case (15 t ctx P n)
  then have "n = length (filter P (lt_rows t))" "distinct (map rid (lt_rows t))"
    by (auto simp: list_table_ops_def lt_Count_def lt_ok_def split: option.splits)
  then show ?case using lt_matching[of rid t P] by simp
qed

end
