(* ===== verification/Storage_Postgres.thy ===== *)
theory Storage_Postgres
  imports Storage Sql_Table
begin

section \<open>Message store on Postgres: internal/storage/postgres\<close>

text \<open>
  The \<open>Backend\<close> over the table \<open>messages\<close>, with its body inline. \<open>vhost_store\<close> adds to the
  contract of a store what keeps tenants apart: a write or a deletion touches messages of its own
  vhost only, and a listing shows only these. The Postgres store keeps it.
\<close>

locale vhost_store =
  fixes ops :: "'s store_ops" and inv :: "'s \<Rightarrow> bool" and holds :: "'s \<Rightarrow> message_ref \<Rightarrow> bytes \<Rightarrow> bool"
  assumes write_inv: "inv st \<Longrightarrow> s_Write ops ctx v m body st = (r, st') \<Longrightarrow> inv st'"
    and write_frame: "inv st \<Longrightarrow> s_Write ops ctx v m body st = (r, st') \<Longrightarrow> ref_Vhost ref \<noteq> v
      \<Longrightarrow> holds st' ref b \<longleftrightarrow> holds st ref b"
    and delete_frame: "inv st \<Longrightarrow> s_Delete ops ctx ref st = (e, st')
      \<Longrightarrow> inv st' \<and> (\<forall>ref' b. ref' \<noteq> ref \<longrightarrow> holds st' ref' b \<longleftrightarrow> holds st ref' b)"
    and delete_gone: "inv st \<Longrightarrow> s_Delete ops ctx ref st = (None, st') \<Longrightarrow> \<not> holds st' ref b"
    and delete_failed: "inv st \<Longrightarrow> s_Delete ops ctx ref st = (Some err, st') \<Longrightarrow> st' = st"
    and list_vhost: "inv st \<Longrightarrow> s_ListVhost ops ctx seed v st = Inr ms \<Longrightarrow> x \<in> set ms \<Longrightarrow> ref_Vhost (meta_Ref x) = v"
    and list_complete: "inv st \<Longrightarrow> s_ListVhost ops ctx seed v st = Inr ms \<Longrightarrow> holds st ref b \<Longrightarrow> ref_Vhost ref = v
      \<Longrightarrow> ref \<in> meta_Ref ` set ms"

record message_row =
  msr_Id :: string
  msr_CreatedAt :: "time option"
  msr_Vhost :: string
  msr_Mailbox :: string
  msr_Body :: bytes
  msr_Size :: int
  msr_Flags :: string

definition Backend_encodeFlags :: "string list \<Rightarrow> string" where
  "Backend_encodeFlags flags = go_join '','' flags"

definition Backend_decodeFlags :: "string \<Rightarrow> string list" where
  "Backend_decodeFlags s = (if s = [] then [] else go_split (CHR '','') s)"

definition createdAt :: "message_row \<Rightarrow> time" where
  "createdAt r = (case msr_CreatedAt r of None \<Rightarrow> - 62135596800 * 10 ^ 9 | Some t \<Rightarrow> t)"

text \<open>The \<open>Where\<close> clause that names one message.\<close>

definition row_at :: "message_ref \<Rightarrow> message_row \<Rightarrow> bool" where
  "row_at ref r \<longleftrightarrow> msr_Id r = ref_Key ref \<and> msr_Vhost r = ref_Vhost ref \<and> msr_Mailbox r = ref_Mailbox ref"

definition Backend_Write :: "(message_row, 't) sql_ops \<Rightarrow> gerr option \<Rightarrow> string \<Rightarrow> string \<Rightarrow> bytes \<Rightarrow> 't
    \<Rightarrow> (gerr + message_ref) \<times> 't" where
  "Backend_Write db ctx vhost mailbox data t =
     (case t_Create db ctx \<lparr>msr_Id = [], msr_CreatedAt = None, msr_Vhost = vhost, msr_Mailbox = mailbox, msr_Body = data,
             msr_Size = int (length data), msr_Flags = []\<rparr> t of
        (Inl e, t') \<Rightarrow> (Inl (ErrWrap ''postgres: write message'' e), t')
      | (Inr row, t') \<Rightarrow> (Inr \<lparr>ref_Vhost = vhost, ref_Mailbox = mailbox, ref_Key = msr_Id row\<rparr>, t'))"

definition Backend_find :: "(message_row, 't) sql_ops \<Rightarrow> gerr option \<Rightarrow> message_ref \<Rightarrow> 't \<Rightarrow> gerr + message_row" where
  "Backend_find db ctx ref t =
     (case sql_First db msr_Id ctx (row_at ref) [] t of
        Inl e \<Rightarrow> Inl (ErrWrap (''postgres: message '' @ go_quote (ref_Key ref) @ '' not found'') e)
      | Inr row \<Rightarrow> Inr row)"

definition Backend_Read :: "(message_row, 't) sql_ops \<Rightarrow> gerr option \<Rightarrow> message_ref \<Rightarrow> 't \<Rightarrow> gerr + bytes" where
  "Backend_Read db ctx ref t = (case Backend_find db ctx ref t of Inl e \<Rightarrow> Inl e | Inr row \<Rightarrow> Inr (msr_Body row))"

definition Backend_List :: "(message_row, 't) sql_ops \<Rightarrow> gerr option \<Rightarrow> nat \<Rightarrow> string \<Rightarrow> string \<Rightarrow> 't
    \<Rightarrow> gerr + message_meta list" where
  "Backend_List db ctx seed vhost mailbox t =
     (case t_Find db ctx (\<lambda>r. msr_Vhost r = vhost \<and> msr_Mailbox r = mailbox) [IntAsc createdAt] None t of
        Inl e \<Rightarrow> Inl (ErrWrap (''postgres: list '' @ vhost @ ''/'' @ mailbox) e)
      | Inr rows \<Rightarrow> Inr (map (\<lambda>r. \<lparr>meta_Ref = \<lparr>ref_Vhost = vhost, ref_Mailbox = mailbox, ref_Key = msr_Id r\<rparr>,
          meta_Size = msr_Size r, meta_Flags = Backend_decodeFlags (msr_Flags r), meta_CreatedAt = createdAt r\<rparr>) rows))"

definition Backend_ListVhost :: "(message_row, 't) sql_ops \<Rightarrow> gerr option \<Rightarrow> nat \<Rightarrow> string \<Rightarrow> 't
    \<Rightarrow> gerr + message_meta list" where
  "Backend_ListVhost db ctx seed vhost t =
     (case t_Find db ctx (\<lambda>r. msr_Vhost r = vhost) [IntAsc createdAt] None t of
        Inl e \<Rightarrow> Inl (ErrWrap (''postgres: list vhost '' @ vhost) e)
      | Inr rows \<Rightarrow> Inr (map (\<lambda>r. \<lparr>meta_Ref = \<lparr>ref_Vhost = vhost, ref_Mailbox = msr_Mailbox r, ref_Key = msr_Id r\<rparr>,
          meta_Size = msr_Size r, meta_Flags = Backend_decodeFlags (msr_Flags r), meta_CreatedAt = createdAt r\<rparr>) rows))"

definition Backend_UpdateFlags :: "(message_row, 't) sql_ops \<Rightarrow> gerr option \<Rightarrow> message_ref \<Rightarrow> string list \<Rightarrow> 't
    \<Rightarrow> gerr option \<times> 't" where
  "Backend_UpdateFlags db ctx ref flags t =
     (case t_Updates db ctx (row_at ref) (\<lambda>r. r\<lparr>msr_Flags := Backend_encodeFlags flags\<rparr>) t of
        (Inl e, t') \<Rightarrow> (Some (ErrWrap (''postgres: update flags for '' @ go_quote (ref_Key ref)) e), t')
      | (Inr n, t') \<Rightarrow>
          (if n = 0 then Some (ErrNew (''postgres: message '' @ go_quote (ref_Key ref) @ '' not found'')) else None, t'))"

definition Backend_Delete :: "(message_row, 't) sql_ops \<Rightarrow> gerr option \<Rightarrow> message_ref \<Rightarrow> 't \<Rightarrow> gerr option \<times> 't" where
  "Backend_Delete db ctx ref t =
     (case t_Delete db ctx (row_at ref) t of
        (Inl e, t') \<Rightarrow> (Some (ErrWrap (''postgres: delete '' @ go_quote (ref_Key ref)) e), t')
      | (Inr n, t') \<Rightarrow>
          (if n = 0 then Some (ErrNew (''postgres: message '' @ go_quote (ref_Key ref) @ '' not found'')) else None, t'))"

definition Backend_ops :: "(message_row, 't) sql_ops \<Rightarrow> 't store_ops" where
  "Backend_ops db = \<lparr>s_Write = Backend_Write db, s_Read = Backend_Read db, s_List = Backend_List db,
     s_ListVhost = Backend_ListVhost db, s_UpdateFlags = Backend_UpdateFlags db, s_Delete = Backend_Delete db\<rparr>"

subsection \<open>The contract\<close>

definition message_row_filled :: "message_row \<Rightarrow> message_row \<Rightarrow> bool" where
  "message_row_filled r r' \<longleftrightarrow> msr_Id r' \<noteq> [] \<and> (msr_Id r \<noteq> [] \<longrightarrow> msr_Id r' = msr_Id r)
     \<and> (\<exists>t. r' = r\<lparr>msr_Id := msr_Id r', msr_CreatedAt := Some t\<rparr>)"

definition message_row_norm :: "message_row \<Rightarrow> message_row" where
  "message_row_norm r = r\<lparr>msr_CreatedAt := map_option (\<lambda>t. t div 1000 * 1000) (msr_CreatedAt r)\<rparr>"

lemma message_row_norm_simps [simp]:
  "msr_Id (message_row_norm r) = msr_Id r" "msr_Vhost (message_row_norm r) = msr_Vhost r"
  "msr_Mailbox (message_row_norm r) = msr_Mailbox r" "msr_Body (message_row_norm r) = msr_Body r"
  "msr_Flags (message_row_norm r) = msr_Flags r"
  by (simp_all add: message_row_norm_def)

text \<open>A statement on the row of a reference, as one by primary key.\<close>

lemma row_at_id: "row_at ref = (\<lambda>r. msr_Id r = ref_Key ref \<and> (msr_Vhost r = ref_Vhost ref \<and> msr_Mailbox r = ref_Mailbox ref))"
  by (simp add: row_at_def fun_eq_iff)

definition pg_holds :: "('t \<Rightarrow> string \<Rightarrow> message_row option) \<Rightarrow> 't \<Rightarrow> message_ref \<Rightarrow> bytes \<Rightarrow> bool" where
  "pg_holds look t ref b \<longleftrightarrow> (\<exists>r. look t (ref_Key ref) = Some r \<and> row_at ref r \<and> msr_Body r = b)"

locale message_table = sql_table db ok look msr_Id message_row_filled "\<lambda>_ _. False" message_row_norm
  for db :: "(message_row, 't) sql_ops" and ok look
begin

lemma pg_write:
  assumes "ok t" "Backend_Write db ctx v m body t = (Inr ref, t')"
  shows "ok t' \<and> ref_Vhost ref = v \<and> ref_Mailbox ref = m \<and> look t (ref_Key ref) = None
    \<and> (\<exists>r. look t' = (look t)(ref_Key ref \<mapsto> r) \<and> row_at ref r \<and> msr_Body r = body)"
proof -
  let ?r = "\<lparr>msr_Id = [], msr_CreatedAt = None, msr_Vhost = v, msr_Mailbox = m, msr_Body = body,
             msr_Size = int (length body), msr_Flags = []\<rparr>"
  obtain row where c: "t_Create db ctx ?r t = (Inr row, t')" "ref = \<lparr>ref_Vhost = v, ref_Mailbox = m, ref_Key = msr_Id row\<rparr>"
    using assms(2) by (auto simp: Backend_Write_def split: prod.splits sum.splits)
  note k = create_ok[OF assms(1) c(1)]
  obtain z where "row = ?r\<lparr>msr_Id := msr_Id row, msr_CreatedAt := Some z\<rparr>" using k by (auto simp: message_row_filled_def)
  then have "msr_Vhost row = v" "msr_Mailbox row = m" "msr_Body row = body"
    by (metis message_row.select_convs(3-5) message_row.update_convs(1,2))+
  then show ?thesis using k c(2) by (auto simp: row_at_def)
qed

lemma pg_write_err: "Backend_Write db ctx v m body t = (Inl e, t') \<Longrightarrow> t' = t"
  using create_err by (auto simp: Backend_Write_def split: prod.splits sum.splits)

lemma pg_delete:
  assumes "ok t" "Backend_Delete db ctx ref t = (e, t')"
  shows "ok t' \<and> (e \<noteq> None \<longrightarrow> t' = t)
    \<and> (e = None \<longrightarrow> (\<exists>r. look t (ref_Key ref) = Some r \<and> row_at ref r) \<and> look t' = (look t)(ref_Key ref := None))"
proof -
  obtain res t1 where "t_Delete db ctx (row_at ref) t = (res, t1)" by fastforce
  moreover from this have "t1 = t'" using assms(2) by (auto simp: Backend_Delete_def split: sum.splits)
  ultimately have d: "t_Delete db ctx (row_at ref) t = (res, t')" by simp
  show ?thesis
  proof (cases res)
    case (Inl x)
    then show ?thesis using assms d delete_err[of ctx "row_at ref" t] by (auto simp: Backend_Delete_def)
  next
    case (Inr n)
    from delete_at[OF assms(1) d[unfolded Inr row_at_id]] show ?thesis
      using assms(2) d Inr look_id[OF assms(1)] by (auto simp: Backend_Delete_def row_at_id split: if_splits)
  qed
qed

lemma pg_list_vhost:
  assumes "ok t" "Backend_ListVhost db ctx seed v t = Inr ms"
  shows "meta_Ref ` set ms = {ref. ref_Vhost ref = v \<and> (\<exists>r. look t (ref_Key ref) = Some r \<and> row_at ref r)}"
proof -
  let ?f = "\<lambda>r. \<lparr>ref_Vhost = v, ref_Mailbox = msr_Mailbox r, ref_Key = msr_Id r\<rparr>"
  obtain rows where r: "t_Find db ctx (\<lambda>r. msr_Vhost r = v) [IntAsc createdAt] None t = Inr rows" "meta_Ref ` set ms = ?f ` set rows"
    using assms(2) by (auto simp: Backend_ListVhost_def image_image split: sum.splits)
  have "set rows = {r. look t (msr_Id r) = Some r \<and> msr_Vhost r = v}" using find_all[OF assms(1) r(1)] by simp
  then have rows: "r \<in> set rows \<longleftrightarrow> look t (msr_Id r) = Some r \<and> msr_Vhost r = v" for r by blast
  show ?thesis unfolding r(2)
  proof (intro equalityI subsetI)
    fix ref assume "ref \<in> ?f ` set rows"
    then show "ref \<in> {ref. ref_Vhost ref = v \<and> (\<exists>r. look t (ref_Key ref) = Some r \<and> row_at ref r)}"
      by (auto simp: rows row_at_def)
  next
    fix ref assume "ref \<in> {ref. ref_Vhost ref = v \<and> (\<exists>r. look t (ref_Key ref) = Some r \<and> row_at ref r)}"
    then obtain r where r: "look t (ref_Key ref) = Some r" "row_at ref r" "ref_Vhost ref = v" by blast
    then have "r \<in> set rows" "ref = ?f r" by (auto simp: rows row_at_def)
    then show "ref \<in> ?f ` set rows" by blast
  qed
qed

end

sublocale message_table \<subseteq> pgs: vhost_store "Backend_ops db" ok "pg_holds look"
proof (unfold_locales, goal_cases)
  case (1 st ctx v m body r st')
  then show ?case using pg_write[of st ctx v m body] pg_write_err[of ctx v m body st] by (cases r) (auto simp: Backend_ops_def)
next
  case (2 st ctx v m body r st' ref b)
  then show ?case using pg_write[of st ctx v m body] pg_write_err[of ctx v m body st]
    by (cases r) (auto simp: Backend_ops_def pg_holds_def row_at_def split: if_splits)
next
  case (3 st ctx ref e st')
  then have d: "Backend_Delete db ctx ref st = (e, st')" by (simp add: Backend_ops_def)
  have "\<not> row_at ref' r" if "ref' \<noteq> ref" "look st (ref_Key ref) = Some r" "row_at ref r" "ref_Key ref' = ref_Key ref" for ref' r
    using that by (cases ref; cases ref') (auto simp: row_at_def)
  then show ?case using pg_delete[OF 3(1) d] by (cases e) (auto simp: pg_holds_def)
next
  case (4 st ctx ref st' b)
  then show ?case using pg_delete[OF 4(1)] by (auto simp: Backend_ops_def pg_holds_def)
next
  case (5 st ctx ref err st')
  then show ?case using pg_delete[OF 5(1)] by (auto simp: Backend_ops_def)
next
  case (6 st ctx seed v ms x)
  then have "meta_Ref x \<in> meta_Ref ` set ms" "Backend_ListVhost db ctx seed v st = Inr ms" by (simp_all add: Backend_ops_def)
  then show ?case using pg_list_vhost[OF 6(1)] by blast
next
  case (7 st ctx seed v ms ref b)
  then show ?case using pg_list_vhost[OF 7(1)] by (auto simp: Backend_ops_def pg_holds_def)
qed

sublocale message_table \<subseteq> pgl: listing_store "Backend_ops db"
  by unfold_locales (auto simp: Backend_ops_def Backend_List_def split: sum.splits)

text \<open>
  A store whose database answers every query made under a live context keeps the contract of a
  message store; \<open>cap\<close> is any number of writes.
\<close>

locale answering_table = message_table db ok look for db :: "(message_row, 't) sql_ops" and ok look +
  fixes cap :: nat
  assumes answers: "ok t \<Longrightarrow> \<exists>xs. t_Find db None P ks n t = Inr xs"
begin

lemma pg_read:
  assumes "ok t" "pg_holds look t ref b"
  shows "Backend_Read db None ref t = Inr b"
proof -
  obtain r where r: "look t (ref_Key ref) = Some r" "row_at ref r" "msr_Body r = b" using assms(2) by (auto simp: pg_holds_def)
  obtain xs where f: "t_Find db None (row_at ref) ([] @ [TextAsc msr_Id]) (Some 1) t = Inr xs" using answers[OF assms(1)] by blast
  from find_one[OF assms(1) f] r obtain r' where "xs = [r']" "look t (msr_Id r') = Some r'" "row_at ref r'" by blast
  then show ?thesis using f r by (auto simp: Backend_Read_def Backend_find_def sql_First_def row_at_def)
qed

end

sublocale answering_table \<subseteq> pgm: message_store "Backend_ops db" ok "\<lambda>t ref b. ok t \<and> pg_holds look t ref b" "\<lambda>_. cap"
proof (unfold_locales, goal_cases)
  case (1 st ref b)
  then show ?case using pg_read by (simp add: Backend_ops_def)
next
  case (2 st ctx v m body ref st')
  then show ?case using pg_write[of st ctx v m body ref st'] by (auto simp: Backend_ops_def pg_holds_def)
next
  case (3 st ctx v m body r st')
  then have w: "Backend_Write db ctx v m body st = (r, st')" by (simp add: Backend_ops_def)
  show ?case
  proof (cases r)
    case (Inl e)
    then show ?thesis using pg_write_err[of ctx v m body st] w 3(1) by auto
  next
    case (Inr ref)
    then obtain row where row: "ok st'" "look st (ref_Key ref) = None" "look st' = (look st)(ref_Key ref \<mapsto> row)"
      using pg_write[OF 3(1)] w by blast
    then have "pg_holds look st' ref' b" if "pg_holds look st ref' b" for ref' b
      using that by (auto simp: pg_holds_def)
    then show ?thesis using row(1) by simp
  qed
qed

definition message_row_fill :: "message_row list_table \<Rightarrow> message_row \<Rightarrow> message_row" where
  "message_row_fill t r = r\<lparr>msr_Id := (if msr_Id r = [] then concat (lt_used t) @ ''m'' else msr_Id r), msr_CreatedAt := Some 0\<rparr>"

interpretation mlt: list_table msr_Id message_row_fill message_row_filled "\<lambda>_ _. False" message_row_norm
proof (unfold_locales, goal_cases)
  case (3 r t) show ?case by (cases r) (simp add: message_row_filled_def message_row_fill_def)
qed (auto simp: message_row_filled_def message_row_norm_def option.map_comp comp_def)

interpretation mdb: answering_table "list_table_ops msr_Id message_row_fill (\<lambda>_ _. False) message_row_norm"
  "lt_ok msr_Id (\<lambda>_ _. False) message_row_norm" "lt_look msr_Id" cap for cap :: nat
  by unfold_locales (simp add: list_table_ops_def lt_Find_def)

end
