(* ===== verification/Imap.thy ===== *)
theory Imap
  imports Maildir_Store Storage_Postgres Directory "HOL-Library.Word"
begin

section \<open>IMAP session: internal/platform/imap/session.go\<close>

text \<open>
  The session go-imap drives. Sequence numbers and UIDs are \<open>uint32\<close>. A number set is what the
  code asks of it, \<open>Contains\<close>; the writers are arguments that may fail at each step, and what was
  written is returned. \<open>seed\<close> is the order of messages with equal keys, which \<open>sort.Slice\<close> leaves
  open. A NO response is an error with its text.
\<close>

type_synonym seqnum = "32 word"

definition allFlags :: "string list" where
  "allFlags = [FlagSeen, FlagAnswered, FlagFlagged, FlagDeleted, FlagDraft]"

definition errNotSupported :: "string \<Rightarrow> gerr" where
  "errNotSupported command = ErrNew (command @ '' not supported'')"

definition imap_ErrAuthFailed :: gerr where
  "imap_ErrAuthFailed = ErrSentinel ''imapserver.ErrAuthFailed''"

record imap_session =
  im_local :: string
  im_vhost :: string
  im_mailbox :: string
  im_view :: "message_meta list"

definition imap_new :: imap_session where
  "imap_new = \<lparr>im_local = [], im_vhost = [], im_mailbox = [], im_view = []\<rparr>"

definition imap_Login :: "'d directory_ops \<Rightarrow> 'd \<Rightarrow> string \<Rightarrow> string \<Rightarrow> imap_session \<Rightarrow> gerr option \<times> imap_session" where
  "imap_Login dirops d username password s =
     (case ParseAddress username of
        None \<Rightarrow> (Some imap_ErrAuthFailed, s)
      | Some (local_part, vhost) \<Rightarrow>
          if \<not> dir_Authenticate dirops vhost local_part password d then (Some imap_ErrAuthFailed, s)
          else (None, s\<lparr>im_local := local_part, im_vhost := vhost\<rparr>))"

datatype unsupported = Create | DeleteMailbox | Rename | Subscribe | Unsubscribe | Append | Idle | Expunge | Search | Copy | Move

fun imap_unsupported :: "unsupported \<Rightarrow> gerr" where
  "imap_unsupported Create = errNotSupported ''CREATE''"
| "imap_unsupported DeleteMailbox = errNotSupported ''DELETE''"
| "imap_unsupported Rename = errNotSupported ''RENAME''"
| "imap_unsupported Subscribe = errNotSupported ''SUBSCRIBE''"
| "imap_unsupported Unsubscribe = errNotSupported ''UNSUBSCRIBE''"
| "imap_unsupported Append = errNotSupported ''APPEND''"
| "imap_unsupported Idle = errNotSupported ''IDLE''"
| "imap_unsupported Expunge = errNotSupported ''EXPUNGE''"
| "imap_unsupported Search = errNotSupported ''SEARCH''"
| "imap_unsupported Copy = errNotSupported ''COPY''"
| "imap_unsupported Move = errNotSupported ''MOVE''"

text \<open>\<open>match\<close> is \<open>imapserver.MatchList\<close> on \<open>INBOX\<close>; the list of mailboxes written is returned.\<close>

fun imap_List :: "(string \<Rightarrow> string \<Rightarrow> bool) \<Rightarrow> string \<Rightarrow> string list \<Rightarrow> string list" where
  "imap_List match ref [] = []"
| "imap_List match ref (pattern # ps) = (if match ref pattern then [''INBOX''] else imap_List match ref ps)"

definition listMailbox :: "'s store_ops \<Rightarrow> nat \<Rightarrow> nat \<Rightarrow> string \<Rightarrow> imap_session \<Rightarrow> 's \<Rightarrow> gerr + message_meta list" where
  "listMailbox store lseed seed folder s st =
     (case s_List store None lseed (im_vhost s) (MailboxPath (im_local s) folder) st of
        Inl e \<Rightarrow> Inl e
      | Inr metas \<Rightarrow> Inr (sort_key (\<lambda>m. ref_Key (meta_Ref m)) (map_range seed metas)))"

record select_data =
  sd_Flags :: "string list"
  sd_PermanentFlags :: "string list"
  sd_NumMessages :: seqnum
  sd_UIDNext :: seqnum
  sd_UIDValidity :: seqnum

definition imap_Select :: "'s store_ops \<Rightarrow> nat \<Rightarrow> nat \<Rightarrow> string \<Rightarrow> imap_session \<Rightarrow> 's \<Rightarrow> (gerr + select_data) \<times> imap_session" where
  "imap_Select store lseed seed mbox s st =
     (case listMailbox store lseed seed mbox s st of
        Inl e \<Rightarrow> (Inl e, s)
      | Inr metas \<Rightarrow>
          (Inr \<lparr>sd_Flags = allFlags, sd_PermanentFlags = allFlags, sd_NumMessages = of_nat (length metas),
                sd_UIDNext = of_nat (length metas + 1), sd_UIDValidity = 1\<rparr>,
           s\<lparr>im_mailbox := mbox, im_view := metas\<rparr>))"

record status_data =
  st_Mailbox :: string
  st_UIDValidity :: seqnum
  st_UIDNext :: seqnum
  st_NumMessages :: "seqnum option"

definition imap_Status :: "'s store_ops \<Rightarrow> nat \<Rightarrow> nat \<Rightarrow> string \<Rightarrow> bool \<Rightarrow> imap_session \<Rightarrow> 's \<Rightarrow> gerr + status_data" where
  "imap_Status store lseed seed mbox wantNum s st =
     (case listMailbox store lseed seed mbox s st of
        Inl e \<Rightarrow> Inl e
      | Inr metas \<Rightarrow> Inr \<lparr>st_Mailbox = mbox, st_UIDValidity = 1, st_UIDNext = of_nat (length metas + 1),
          st_NumMessages = (if wantNum then Some (of_nat (length metas)) else None)\<rparr>)"

definition imap_Unselect :: "imap_session \<Rightarrow> imap_session" where
  "imap_Unselect s = s\<lparr>im_mailbox := [], im_view := []\<rparr>"

datatype num_set = SeqSet "seqnum \<Rightarrow> bool" | UIDSet "seqnum \<Rightarrow> bool" | OtherSet

fun numSetContains :: "num_set \<Rightarrow> seqnum \<Rightarrow> seqnum \<Rightarrow> bool" where
  "numSetContains (SeqSet c) seqNum uid = c seqNum"
| "numSetContains (UIDSet c) seqNum uid = c uid"
| "numSetContains OtherSet seqNum uid = False"

definition toIMAPFlags :: "string list \<Rightarrow> string list" where
  "toIMAPFlags flags = map (\<lambda>f. f) flags"

subsection \<open>Fetch\<close>

record fetch_options =
  fo_UID :: bool
  fo_Flags :: bool
  fo_RFC822Size :: bool
  fo_BodySection :: "string list"

datatype fetch_item = ItemUID seqnum | ItemFlags "string list" | ItemSize int | ItemBody string bytes

text \<open>The errors of the writers, by the index of the message and of the section.\<close>

record imap_writer =
  iw_write :: "nat \<Rightarrow> nat \<Rightarrow> gerr option"
  iw_close_section :: "nat \<Rightarrow> nat \<Rightarrow> gerr option"
  iw_close :: "nat \<Rightarrow> gerr option"

definition readBody :: "'s store_ops \<Rightarrow> message_ref \<Rightarrow> 's \<Rightarrow> gerr + bytes" where
  "readBody store ref st = s_Read store None ref st"

fun fetch_sections :: "'s store_ops \<Rightarrow> imap_writer \<Rightarrow> nat \<Rightarrow> message_ref \<Rightarrow> nat \<Rightarrow> string list \<Rightarrow> 's
    \<Rightarrow> gerr option \<times> fetch_item list" where
  "fetch_sections store w i ref j [] st = (None, [])"
| "fetch_sections store w i ref j (sec # secs) st =
     (case readBody store ref st of
        Inl e \<Rightarrow> (Some e, [])
      | Inr body \<Rightarrow>
          (case iw_write w i j of
             Some e \<Rightarrow> (Some e, [])
           | None \<Rightarrow>
               (case iw_close_section w i j of
                  Some e \<Rightarrow> (Some e, [ItemBody sec body])
                | None \<Rightarrow> (case fetch_sections store w i ref (Suc j) secs st of
                    (e, items) \<Rightarrow> (e, ItemBody sec body # items)))))"

definition fetch_head :: "fetch_options \<Rightarrow> seqnum \<Rightarrow> message_meta \<Rightarrow> fetch_item list" where
  "fetch_head opts uid meta =
     (if fo_UID opts then [ItemUID uid] else [])
     @ (if fo_Flags opts then [ItemFlags (toIMAPFlags (meta_Flags meta))] else [])
     @ (if fo_RFC822Size opts then [ItemSize (meta_Size meta)] else [])"

fun fetch_loop :: "'s store_ops \<Rightarrow> imap_writer \<Rightarrow> num_set \<Rightarrow> fetch_options \<Rightarrow> nat \<Rightarrow> message_meta list \<Rightarrow> 's
    \<Rightarrow> gerr option \<times> (seqnum \<times> fetch_item list) list" where
  "fetch_loop store w ns opts i [] st = (None, [])"
| "fetch_loop store w ns opts i (meta # metas) st =
     (let seqNum = of_nat (i + 1); uid = seqNum in
      if \<not> numSetContains ns seqNum uid then fetch_loop store w ns opts (Suc i) metas st
      else case fetch_sections store w i (meta_Ref meta) 0 (fo_BodySection opts) st of
             (Some e, items) \<Rightarrow> (Some e, [(seqNum, fetch_head opts uid meta @ items)])
           | (None, items) \<Rightarrow>
               (case iw_close w i of
                  Some e \<Rightarrow> (Some e, [(seqNum, fetch_head opts uid meta @ items)])
                | None \<Rightarrow> (case fetch_loop store w ns opts (Suc i) metas st of
                    (e, out) \<Rightarrow> (e, (seqNum, fetch_head opts uid meta @ items) # out))))"

definition imap_Fetch :: "'s store_ops \<Rightarrow> imap_writer \<Rightarrow> num_set \<Rightarrow> fetch_options \<Rightarrow> imap_session \<Rightarrow> 's
    \<Rightarrow> gerr option \<times> (seqnum \<times> fetch_item list) list" where
  "imap_Fetch store w ns opts s st = fetch_loop store w ns opts 0 (im_view s) st"

subsection \<open>Store\<close>

datatype store_op = StoreFlagsSet | StoreFlagsAdd | StoreFlagsDel

record store_flags =
  sf_Op :: store_op
  sf_Flags :: "string list"
  sf_Silent :: bool

text \<open>The set of flags is a Go map with empty values: a list without repetition, ranged over in any order.\<close>

definition applyStoreOp :: "nat \<Rightarrow> string list \<Rightarrow> store_flags \<Rightarrow> string list" where
  "applyStoreOp seed current store =
     (let flagset = foldl (\<lambda>m f. List.insert f m) [] current;
          flagset = (case sf_Op store of
             StoreFlagsSet \<Rightarrow> foldl (\<lambda>m f. List.insert f m) [] (sf_Flags store)
           | StoreFlagsAdd \<Rightarrow> foldl (\<lambda>m f. List.insert f m) flagset (sf_Flags store)
           | StoreFlagsDel \<Rightarrow> foldl (\<lambda>m f. removeAll f m) flagset (sf_Flags store))
      in sort (map_range seed flagset))"

fun imap_store_loop :: "'s store_ops \<Rightarrow> imap_writer \<Rightarrow> nat \<Rightarrow> num_set \<Rightarrow> store_flags \<Rightarrow> nat \<Rightarrow> message_meta list \<Rightarrow> 's
    \<Rightarrow> gerr option \<times> message_meta list \<times> (seqnum \<times> string list) list \<times> 's" where
  "imap_store_loop store w seed ns flags i [] st = (None, [], [], st)"
| "imap_store_loop store w seed ns flags i (meta # metas) st =
     (let seqNum = of_nat (i + 1); uid = seqNum in
      if \<not> numSetContains ns seqNum uid
      then (case imap_store_loop store w seed ns flags (Suc i) metas st of
              (e, view, out, st') \<Rightarrow> (e, meta # view, out, st'))
      else
        let newFlags = applyStoreOp seed (meta_Flags meta) flags in
        case s_UpdateFlags store None (meta_Ref meta) newFlags st of
          (Some e, st') \<Rightarrow> (Some e, meta # metas, [], st')
        | (None, st') \<Rightarrow>
            let meta = meta\<lparr>meta_Flags := newFlags\<rparr> in
            if sf_Silent flags
            then (case imap_store_loop store w seed ns flags (Suc i) metas st' of
                    (e, view, out, st'') \<Rightarrow> (e, meta # view, out, st''))
            else (case iw_close w i of
                    Some e \<Rightarrow> (Some e, meta # metas, [(seqNum, toIMAPFlags newFlags)], st')
                  | None \<Rightarrow> (case imap_store_loop store w seed ns flags (Suc i) metas st' of
                      (e, view, out, st'') \<Rightarrow> (e, meta # view, (seqNum, toIMAPFlags newFlags) # out, st''))))"

definition imap_Store :: "'s store_ops \<Rightarrow> imap_writer \<Rightarrow> nat \<Rightarrow> num_set \<Rightarrow> store_flags \<Rightarrow> imap_session \<Rightarrow> 's
    \<Rightarrow> gerr option \<times> imap_session \<times> (seqnum \<times> string list) list \<times> 's" where
  "imap_Store store w seed ns flags s st =
     (case imap_store_loop store w seed ns flags 0 (im_view s) st of
        (e, view, out, st') \<Rightarrow> (e, s\<lparr>im_view := view\<rparr>, out, st'))"

definition imap_Namespace :: "(string \<times> char) list" where
  "imap_Namespace = [([], CHR ''/'')]"

subsection \<open>A connection\<close>

datatype 'd imap_cmd =
    ImLogin 'd string string
  | ImSelect nat nat string
  | ImStatus nat nat string bool
  | ImUnselect
  | ImFetch imap_writer num_set fetch_options
  | ImStore imap_writer nat num_set store_flags
  | ImUnsupported unsupported

fun imap_cmd_step :: "'d directory_ops \<Rightarrow> 's store_ops \<Rightarrow> 'd imap_cmd \<Rightarrow> imap_session \<times> 's \<Rightarrow> imap_session \<times> 's" where
  "imap_cmd_step dirops store (ImLogin d user password) (s, st) = (snd (imap_Login dirops d user password s), st)"
| "imap_cmd_step dirops store (ImSelect lseed seed mbox) (s, st) = (snd (imap_Select store lseed seed mbox s st), st)"
| "imap_cmd_step dirops store (ImStatus lseed seed mbox n) (s, st) = (s, st)"
| "imap_cmd_step dirops store ImUnselect (s, st) = (imap_Unselect s, st)"
| "imap_cmd_step dirops store (ImFetch w ns opts) (s, st) = (s, st)"
| "imap_cmd_step dirops store (ImStore w seed ns flags) (s, st) =
     (case imap_Store store w seed ns flags s st of (_, s', _, st') \<Rightarrow> (s', st'))"
| "imap_cmd_step dirops store (ImUnsupported c) (s, st) = (s, st)"

text \<open>
  A connection: its commands one after the other, each at the store as it is then; other sessions
  and deliveries may change the store in between.
\<close>

definition imap_serve :: "'d directory_ops \<Rightarrow> 's store_ops \<Rightarrow> ('d imap_cmd \<times> 's) list \<Rightarrow> imap_session" where
  "imap_serve dirops store steps = foldl (\<lambda>s (c, st). fst (imap_cmd_step dirops store c (s, st))) imap_new steps"

text \<open>Whose mail a reference names: an identity the connection logged in as, or none at all.\<close>

definition imap_identity :: "'d directory_ops \<Rightarrow> 'd imap_cmd set \<Rightarrow> string \<Rightarrow> string \<Rightarrow> bool" where
  "imap_identity dirops A l v \<longleftrightarrow> (l = [] \<and> v = []) \<or> (\<exists>d user password. ImLogin d user password \<in> A
     \<and> ParseAddress user = Some (l, v) \<and> dir_Authenticate dirops v l password d)"

definition imap_inv :: "'d directory_ops \<Rightarrow> 'd imap_cmd set \<Rightarrow> imap_session \<Rightarrow> bool" where
  "imap_inv dirops A s \<longleftrightarrow> imap_identity dirops A (im_local s) (im_vhost s)
     \<and> (\<forall>m \<in> set (im_view s). \<exists>l folder. imap_identity dirops A l (ref_Vhost (meta_Ref m))
          \<and> ref_Mailbox (meta_Ref m) = MailboxPath l folder)"

lemma imap_store_loop_refs:
  "imap_store_loop store w seed ns flags i metas st = (e, view, out, st') \<Longrightarrow> map meta_Ref view = map meta_Ref metas"
  by (induction metas arbitrary: i st e view out st')
    (auto simp: Let_def split: if_splits prod.splits option.splits)

lemma imap_inv_refs:
  assumes "imap_inv dirops A s" "map meta_Ref view = map meta_Ref (im_view s)"
  shows "imap_inv dirops A (s\<lparr>im_view := view\<rparr>)"
proof -
  have "meta_Ref ` set view = meta_Ref ` set (im_view s)" using assms(2) by (metis list.set_map)
  then have "\<exists>m' \<in> set (im_view s). meta_Ref m' = meta_Ref m" if "m \<in> set view" for m
    using that by (metis imageE imageI)
  then show ?thesis using assms(1) unfolding imap_inv_def by (metis imap_session.select_convs(1,2,4) imap_session.surjective imap_session.update_convs(4))
qed

context listing_store
begin

lemma imap_Select_inv:
  assumes "imap_inv dirops A s"
  shows "imap_inv dirops A (snd (imap_Select ops lseed seed mbox s st))"
proof (cases "s_List ops None lseed (im_vhost s) (MailboxPath (im_local s) mbox) st")
  case (Inr metas)
  then show ?thesis using assms list_refs[OF Inr]
    by (auto simp: imap_Select_def listMailbox_def imap_inv_def)
qed (use assms in \<open>simp add: imap_Select_def listMailbox_def\<close>)

lemma imap_step_inv:
  assumes "imap_inv dirops A s" "c \<in> A" "imap_cmd_step dirops ops c (s, st) = (s', st')"
  shows "imap_inv dirops A s'"
proof (cases c)
  case (ImLogin d user password)
  then show ?thesis using assms
    by (auto simp: imap_Login_def imap_inv_def imap_identity_def split: option.splits if_splits)
next
  case (ImSelect lseed seed mbox)
  then show ?thesis using assms imap_Select_inv by auto
next
  case (ImStore w seed ns flags)
  then show ?thesis using assms imap_inv_refs[OF assms(1) imap_store_loop_refs]
    by (auto simp: imap_Store_def split: prod.splits)
qed (use assms in \<open>auto simp: imap_Unselect_def imap_inv_def\<close>)

lemma imap_serve_inv: "imap_inv dirops (fst ` set steps) (imap_serve dirops ops steps)"
proof -
  have "imap_inv dirops A (foldl (\<lambda>s (c, st). fst (imap_cmd_step dirops ops c (s, st))) s steps)"
    if "imap_inv dirops A s" "fst ` set steps \<subseteq> A" for A s
    using that
  proof (induction steps arbitrary: s)
    case (Cons x steps)
    obtain c st where x: "x = (c, st)" by fastforce
    obtain s' st' where k: "imap_cmd_step dirops ops c (s, st) = (s', st')" by fastforce
    have "imap_inv dirops A s'" using imap_step_inv[OF Cons.prems(1) _ k] Cons.prems(2) x by simp
    from Cons.IH[OF this] Cons.prems(2) show ?case using x k by simp
  qed simp
  moreover have "imap_inv dirops A imap_new" for A by (simp add: imap_inv_def imap_identity_def imap_new_def)
  ultimately show ?thesis by (simp add: imap_serve_def)
qed

end

subsection \<open>Accounts apart in the Postgres store\<close>

lemma same_mailbox_owner:
  "l @ ''/'' @ folder = l' @ ''/'' @ folder' \<Longrightarrow> CHR ''/'' \<notin> set l \<Longrightarrow> CHR ''/'' \<notin> set l' \<Longrightarrow> l = l'"
  by (induction l arbitrary: l') (auto simp: Cons_eq_append_conv append_eq_Cons_conv)

context message_table
begin

lemma pgl_listing_store: "listing_store (Backend_ops db)"
  by (rule pgl.listing_store_axioms)

lemma pg_read_row:
  assumes "ok t" "Backend_Read db ctx ref t = Inr b"
  shows "\<exists>r. look t (msr_Id r) = Some r \<and> row_at ref r \<and> msr_Body r = b"
proof -
  obtain r where "sql_First db msr_Id ctx (row_at ref) [] t = Inr r" "msr_Body r = b"
    using assms(2) by (auto simp: Backend_Read_def Backend_find_def split: sum.splits)
  then show ?thesis using First_ok[OF assms(1)] by blast
qed

lemma pg_update_frame:
  assumes "ok t" "Backend_UpdateFlags db ctx ref flags t = (e, t')" "\<not> row_at ref r"
  shows "ok t' \<and> (look t' k = Some r \<longleftrightarrow> look t k = Some r)"
proof -
  let ?f = "\<lambda>r. r\<lparr>msr_Flags := Backend_encodeFlags flags\<rparr>"
  obtain res where u: "t_Updates db ctx (row_at ref) ?f t = (res, t')"
    using assms(2) by (auto simp: Backend_UpdateFlags_def split: prod.splits sum.splits)
  show ?thesis
  proof (cases res)
    case (Inl x)
    then show ?thesis using u updates_err assms(1) by blast
  next
    case (Inr n)
    note c = updates_at[OF assms(1) u[unfolded Inr row_at_id]]
    show ?thesis
    proof (cases "n = 0")
      case False
      then obtain x where x: "look t (ref_Key ref) = Some x" "msr_Vhost x = ref_Vhost ref" "msr_Mailbox x = ref_Mailbox ref"
        "look t' = (look t)(ref_Key ref \<mapsto> message_row_norm (?f x))" "ok t'" using c by auto
      have "row_at ref x" "row_at ref (message_row_norm (?f x))" using x look_id[OF assms(1) x(1)] by (simp_all add: row_at_def)
      then show ?thesis using x assms(3) by (cases "k = ref_Key ref") auto
    qed (use c assms(1) in auto)
  qed
qed

lemma imap_store_frame:
  assumes "ok t" "imap_store_loop (Backend_ops db) w seed ns flags i metas t = (e, view, out, t')"
    "\<forall>m \<in> set metas. \<not> row_at (meta_Ref m) r"
  shows "look t' k = Some r \<longleftrightarrow> look t k = Some r"
  using assms
proof (induction metas arbitrary: i t e view out)
  case (Cons m metas)
  let ?f = "applyStoreOp seed (meta_Flags m) flags"
  obtain e1 t1 where u: "Backend_UpdateFlags db None (meta_Ref m) ?f t = (e1, t1)" by fastforce
  have f: "ok t1" "look t1 k = Some r \<longleftrightarrow> look t k = Some r"
    using pg_update_frame[OF Cons.prems(1) u, of r k] Cons.prems(3) by auto
  have n: "\<forall>m \<in> set metas. \<not> row_at (meta_Ref m) r" using Cons.prems(3) by simp
  show ?case
  proof (cases "t' = t1")
    case False
    obtain e2 view2 out2 t2 where l: "t2 = t \<or> t2 = t1" "imap_store_loop (Backend_ops db) w seed ns flags (Suc i) metas t2 = (e2, view2, out2, t')"
      using Cons.prems(2) False u by (auto simp: Backend_ops_def Let_def split: if_splits prod.splits option.splits)
    then show ?thesis using Cons.IH[OF _ l(2) n] Cons.prems(1) f by auto
  qed (use f in simp)
qed simp

end

subsection \<open>Lemmas\<close>

lemma foldl_insert: "distinct m \<Longrightarrow> distinct (foldl (\<lambda>m f. List.insert f m) m fs) \<and> set (foldl (\<lambda>m f. List.insert f m) m fs) = set m \<union> set fs"
  by (induction fs arbitrary: m) (auto simp: distinct_insert)

lemma foldl_removeAll: "distinct m \<Longrightarrow> distinct (foldl (\<lambda>m f. removeAll f m) m fs) \<and> set (foldl (\<lambda>m f. removeAll f m) m fs) = set m - set fs"
  by (induction fs arbitrary: m) (auto simp: distinct_removeAll)

definition flags_after :: "string set \<Rightarrow> store_flags \<Rightarrow> string set" where
  "flags_after cur store = (case sf_Op store of
     StoreFlagsSet \<Rightarrow> set (sf_Flags store) | StoreFlagsAdd \<Rightarrow> cur \<union> set (sf_Flags store) | StoreFlagsDel \<Rightarrow> cur - set (sf_Flags store))"

lemma applyStoreOp_set: "applyStoreOp seed current store = sorted_list_of_set (flags_after (set current) store)"
proof -
  have c: "distinct (foldl (\<lambda>m f. List.insert f m) [] current)" "set (foldl (\<lambda>m f. List.insert f m) [] current) = set current"
    using foldl_insert[of "[]" current] by auto
  have "distinct (applyStoreOp seed current store) \<and> sorted (applyStoreOp seed current store)
      \<and> set (applyStoreOp seed current store) = flags_after (set current) store"
    using c foldl_insert[OF c(1), of "sf_Flags store"] foldl_removeAll[OF c(1), of "sf_Flags store"]
      foldl_insert[of "[]" "sf_Flags store"]
    by (cases "sf_Op store") (auto simp: applyStoreOp_def flags_after_def Let_def)
  then show ?thesis by (metis sorted_list_of_set.idem_if_sorted_distinct)
qed

text \<open>The indices of the view a number set selects.\<close>

definition chosen :: "num_set \<Rightarrow> nat \<Rightarrow> bool" where
  "chosen ns i \<longleftrightarrow> numSetContains ns (of_nat (i + 1)) (of_nat (i + 1))"

lemma fetch_sections_ok:
  "fetch_sections store w i ref j secs st = (None, items) \<Longrightarrow>
   items = map (\<lambda>sec. ItemBody sec (projr (s_Read store None ref st))) secs \<and> (secs \<noteq> [] \<longrightarrow> \<not> isl (s_Read store None ref st))"
  by (induction secs arbitrary: j items) (auto simp: readBody_def split: sum.splits option.splits prod.splits)

definition fetch_answer :: "'s store_ops \<Rightarrow> fetch_options \<Rightarrow> 's \<Rightarrow> nat \<Rightarrow> message_meta \<Rightarrow> seqnum \<times> fetch_item list" where
  "fetch_answer store opts st i meta = (of_nat (i + 1), fetch_head opts (of_nat (i + 1)) meta
     @ map (\<lambda>sec. ItemBody sec (projr (s_Read store None (meta_Ref meta) st))) (fo_BodySection opts))"

lemma fetch_loop_ok:
  "fetch_loop store w ns opts i metas st = (None, out) \<Longrightarrow>
   out = map (\<lambda>(k, m). fetch_answer store opts st k m) (filter (\<lambda>(k, m). chosen ns k) (enumerate i metas))
   \<and> (\<forall>(k, m) \<in> set (enumerate i metas). chosen ns k \<longrightarrow> fo_BodySection opts \<noteq> [] \<longrightarrow> \<not> isl (s_Read store None (meta_Ref m) st))"
proof (induction metas arbitrary: i out)
  case (Cons m metas)
  show ?case
  proof (cases "chosen ns i")
    case False
    then show ?thesis using Cons by (simp add: chosen_def Let_def)
  next
    case True
    then obtain items rest where f: "fetch_sections store w i (meta_Ref m) 0 (fo_BodySection opts) st = (None, items)"
      "fetch_loop store w ns opts (Suc i) metas st = (None, rest)"
      "out = (of_nat (i + 1), fetch_head opts (of_nat (i + 1)) m @ items) # rest"
      using Cons.prems by (auto simp: chosen_def Let_def split: prod.splits option.splits)
    then show ?thesis using Cons.IH[OF f(2)] fetch_sections_ok[OF f(1)] True
      by (auto simp: fetch_answer_def)
  qed
qed simp

lemma imap_store_loop_ok:
  "imap_store_loop store w seed ns flags i metas st = (None, view, out, st') \<Longrightarrow>
   view = map (\<lambda>(k, m). if chosen ns k then m\<lparr>meta_Flags := applyStoreOp seed (meta_Flags m) flags\<rparr> else m) (enumerate i metas)
   \<and> out = (if sf_Silent flags then [] else map (\<lambda>(k, m). (of_nat (k + 1), applyStoreOp seed (meta_Flags m) flags))
        (filter (\<lambda>(k, m). chosen ns k) (enumerate i metas)))
   \<and> st' = fold (\<lambda>(k, m) st. snd (s_UpdateFlags store None (meta_Ref m) (applyStoreOp seed (meta_Flags m) flags) st))
        (filter (\<lambda>(k, m). chosen ns k) (enumerate i metas)) st"
proof (induction metas arbitrary: i view out st)
  case (Cons m metas)
  show ?case
  proof (cases "chosen ns i")
    case False
    then obtain view' where "imap_store_loop store w seed ns flags (Suc i) metas st = (None, view', out, st')" "view = m # view'"
      using Cons.prems by (auto simp: chosen_def Let_def split: prod.splits)
    then show ?thesis using Cons.IH False by auto
  next
    case True
    let ?f = "applyStoreOp seed (meta_Flags m) flags"
    obtain s1 view' out' where "s_UpdateFlags store None (meta_Ref m) ?f st = (None, s1)"
      "imap_store_loop store w seed ns flags (Suc i) metas s1 = (None, view', out', st')"
      "view = m\<lparr>meta_Flags := ?f\<rparr> # view'"
      "out = (if sf_Silent flags then out' else (of_nat (i + 1), ?f) # out')"
      using Cons.prems True by (auto simp: chosen_def Let_def toIMAPFlags_def split: prod.splits option.splits if_splits)
    then show ?thesis using Cons.IH[of "Suc i" s1 view' out'] True by auto
  qed
qed simp

text \<open>When a \<open>FETCH\<close> gets through.\<close>

lemma fetch_sections_None:
  "fst (fetch_sections store w i ref j secs st) = None \<longleftrightarrow>
   (\<forall>k < length secs. (\<exists>b. s_Read store None ref st = Inr b) \<and> iw_write w i (j + k) = None \<and> iw_close_section w i (j + k) = None)"
proof (induction secs arbitrary: j)
  case (Cons sec secs)
  show ?case unfolding All_less_Suc2 length_Cons using Cons[of "Suc j"]
    by (auto simp: readBody_def split: sum.splits option.splits prod.splits)
qed simp

lemma fetch_loop_None:
  "fst (fetch_loop store w ns opts i metas st) = None \<longleftrightarrow>
   (\<forall>k < length metas. chosen ns (i + k) \<longrightarrow> iw_close w (i + k) = None
      \<and> fst (fetch_sections store w (i + k) (meta_Ref (metas ! k)) 0 (fo_BodySection opts) st) = None)"
proof (induction metas arbitrary: i)
  case (Cons m metas)
  show ?case unfolding All_less_Suc2 length_Cons using Cons[of "Suc i"]
    by (auto simp: chosen_def Let_def split: option.splits prod.splits)
qed simp

text \<open>Every body sent is one the store holds under a reference of the view, also when it stops half-way.\<close>

lemma fetch_sections_body: "ItemBody sec b \<in> set (snd (fetch_sections store w i ref j secs st)) \<Longrightarrow> s_Read store None ref st = Inr b"
  by (induction secs arbitrary: j) (auto simp: readBody_def split: sum.splits option.splits prod.splits, metis snd_conv)

lemma fetch_loop_body:
  assumes "(n, items) \<in> set (snd (fetch_loop store w ns opts i metas st))" "ItemBody sec b \<in> set items"
  shows "\<exists>m \<in> set metas. s_Read store None (meta_Ref m) st = Inr b"
  using assms(1)
proof (induction metas arbitrary: i)
  case (Cons m metas)
  have head: "ItemBody sec b \<notin> set (fetch_head opts u m)" for u by (auto simp: fetch_head_def)
  note f = fetch_sections_body[of sec b store w i "meta_Ref m" 0 "fo_BodySection opts" st]
  obtain e its where s: "fetch_sections store w i (meta_Ref m) 0 (fo_BodySection opts) st = (e, its)" by fastforce
  show ?case
  proof (cases "(n, items) \<in> set (snd (fetch_loop store w ns opts (Suc i) metas st))")
    case True
    then show ?thesis using Cons.IH by auto
  next
    case False
    then have "items = fetch_head opts (of_nat (i + 1)) m @ its"
      using Cons.prems s by (auto simp: Let_def split: if_splits option.splits prod.splits)
    then show ?thesis using assms(2) head f s by auto
  qed
qed simp

text \<open>In a maildir, only the directory of a mailbox matters.\<close>

lemma list_entries_mailbox:
  "list_entries b v m p isNew es = map_sum id (map (\<lambda>x. x\<lparr>meta_Ref := (meta_Ref x)\<lparr>ref_Mailbox := m\<rparr>\<rparr>)) (list_entries b v m' p isNew es)"
proof (induction es)
  case (Cons e es)
  obtain n d where e: "e = (n, d)" by fastforce
  obtain base sfx info where c: "go_cut infoSep n = (base, sfx, info)" by (metis prod_cases3)
  show ?case using Cons e c
    by (cases "list_entries b v m' p isNew es") (auto simp: Let_def split: option.splits)
qed simp

lemma list_subs_mailbox:
  "list_subs b v m dir subs = map_sum id (map (\<lambda>x. x\<lparr>meta_Ref := (meta_Ref x)\<lparr>ref_Mailbox := m\<rparr>\<rparr>)) (list_subs b v m' dir subs)"
proof (induction subs)
  case (Cons e subs)
  obtain sub isNew where e: "e = (sub, isNew)" by fastforce
  show ?case
  proof (cases "read_dir b (path_join dir [sub])")
    case (Inr es)
    then show ?thesis using Cons list_entries_mailbox[of b v m "path_join dir [sub]" isNew es m'] e
      by (cases "list_entries b v m' (path_join dir [sub]) isNew es"; cases "list_subs b v m' dir subs") simp_all
  qed (use Cons e in auto)
qed simp

lemma Maildir_List_mailbox:
  assumes "mailboxDir b v m = mailboxDir b v m'"
  shows "Maildir_List ctx seed v m b =
    map_sum id (map (\<lambda>x. x\<lparr>meta_Ref := (meta_Ref x)\<lparr>ref_Mailbox := m\<rparr>\<rparr>)) (Maildir_List ctx seed v m' b)"
  using assms list_subs_mailbox[of b v m "mailboxDir b v m'" _ m'] by (simp add: Maildir_List_def split: option.splits)

lemma Maildir_Read_mailbox:
  assumes "mailboxDir b v m = mailboxDir b v m'"
  shows "Maildir_Read ctx \<lparr>ref_Vhost = v, ref_Mailbox = m, ref_Key = k\<rparr> b
    = Maildir_Read ctx \<lparr>ref_Vhost = v, ref_Mailbox = m', ref_Key = k\<rparr> b"
proof -
  have "locate b \<lparr>ref_Vhost = v, ref_Mailbox = m, ref_Key = k\<rparr> = locate b \<lparr>ref_Vhost = v, ref_Mailbox = m', ref_Key = k\<rparr>"
    using assms by (simp only: locate_def message_ref.simps)
  then show ?thesis by (simp only: Maildir_Read_def)
qed

lemma mailboxDir_dotdot:
  assumes "plain v" "plain l"
  shows "mailboxDir b v (MailboxPath l (''../'' @ rest)) = mailboxDir b v rest"
proof -
  have "go_split (CHR ''/'') (MailboxPath l (''../'' @ rest)) = [l, ''..''] @ go_split (CHR ''/'') rest"
    using assms(2) by (simp add: MailboxPath_def plain_def go_split_append go_split_absent)
  moreover have "go_split (CHR ''/'') v = [v]" using assms(1) by (simp add: plain_def go_split_absent)
  ultimately show ?thesis using assms by (simp add: mailboxDir_def path_join_def plain_def)
qed

subsection \<open>Properties\<close>

definition demo_dir2 :: memory_directory where
  "demo_dir2 = \<lparr>md_vhosts = [(''a.test'', zero_vhost\<lparr>vh_Domain := ''a.test'', vh_Active := True\<rparr>)],
     md_accounts = [(''alice@a.test'', \<lparr>ma_vhost = ''a.test'', ma_localPart = ''alice'', ma_password = ''pw''\<rparr>)]\<rparr>"

definition demo_mail :: maildir where
  "demo_mail = \<lparr>md_base = [''m''], md_fs = \<lparr>fs_dirs = [[''m''], [''m'', ''a.test''], [''m'', ''a.test'', ''bob''],
       [''m'', ''a.test'', ''bob'', ''INBOX''], [''m'', ''a.test'', ''bob'', ''INBOX'', ''new''],
       [''m'', ''a.test'', ''alice''], [''m'', ''a.test'', ''alice'', ''INBOX''], [''m'', ''a.test'', ''alice'', ''INBOX'', ''new'']],
     fs_files = [([''m'', ''a.test'', ''alice'', ''INBOX'', ''new'', ''k1''], (''hello alice'', 1)),
       ([''m'', ''a.test'', ''bob'', ''INBOX'', ''new'', ''k2''], (''hello bob'', 2))]\<rparr>,
     md_seq = 0, md_pid = 7, md_host = ''h'', md_clock = 42, md_faults = no_faults\<rparr>"

lemma demo_mail_list:
  assumes "mailboxDir demo_mail ''a.test'' mbox = [''m'', ''a.test'', who, ''INBOX'']" "(who, k, body, t) \<in> {(''alice'', ''k1'', ''hello alice'', 1), (''bob'', ''k2'', ''hello bob'', 2)}"
  shows "Maildir_List None 0 ''a.test'' mbox demo_mail = Inr [\<lparr>meta_Ref = \<lparr>ref_Vhost = ''a.test'', ref_Mailbox = mbox, ref_Key = k\<rparr>,
     meta_Size = int (length body), meta_Flags = [], meta_CreatedAt = t\<rparr>]"
  using assms
  by (auto simp: Maildir_List_def read_dir_def demo_mail_def no_faults_def fs_ReadDir_def dirNew_def dirCur_def path_join_def
      is_not_exist_def os_ErrNotExist_def)

lemma demo_mail_dir: "mailboxDir demo_mail ''a.test'' ''alice/INBOX'' = [''m'', ''a.test'', ''alice'', ''INBOX'']"
  by (simp add: mailboxDir_def path_join_def demo_mail_def)

text \<open>
  C23: An IMAP connection keeps to the accounts it logged in as, on the store of \<open>main.go\<close>. Take a
  connection over the Postgres store that has served any commands in any order, with the store
  changed in between by others at will, and the mailboxes of an account of a named vhost that no
  login accepted on this connection was for, where local parts have no slash. Its view has no
  message of them. A \<open>FETCH\<close> that follows sends only bodies of messages outside them, even when it
  stops half-way, and a \<open>STORE\<close> that follows, whether it succeeds or fails, leaves every message in
  them as it is and adds none.
\<close>

theorem imap_isolates_accounts:
  assumes "message_table db ok look" and "v \<noteq> []" "CHR ''/'' \<notin> set l"
    and "\<forall>(c, t) \<in> set steps. \<forall>d user password l' v'. c = ImLogin d user password \<and> ParseAddress user = Some (l', v')
      \<and> dir_Authenticate dirops v' l' password d \<longrightarrow> (l', v') \<noteq> (l, v) \<and> CHR ''/'' \<notin> set l'"
    and "ok t"
  defines "s \<equiv> imap_serve dirops (Backend_ops db) steps"
    and "foreign \<equiv> \<lambda>r. msr_Vhost r = v \<and> (\<exists>folder. msr_Mailbox r = l @ ''/'' @ folder)"
  shows "(\<forall>m \<in> set (im_view s). \<not> (ref_Vhost (meta_Ref m) = v \<and> (\<exists>folder. ref_Mailbox (meta_Ref m) = l @ ''/'' @ folder)))
    \<and> (\<forall>n items sec b. (n, items) \<in> set (snd (imap_Fetch (Backend_ops db) w ns opts s t)) \<and> ItemBody sec b \<in> set items
      \<longrightarrow> (\<exists>k r. look t k = Some r \<and> msr_Body r = b \<and> \<not> foreign r))
    \<and> (\<forall>e s' out t'. imap_Store (Backend_ops db) w seed ns flags s t = (e, s', out, t')
      \<longrightarrow> (\<forall>k r. foreign r \<longrightarrow> (look t' k = Some r \<longleftrightarrow> look t k = Some r)))"
proof -
  note tab = assms(1)
  have inv: "imap_inv dirops (fst ` set steps) s"
    unfolding s_def by (rule listing_store.imap_serve_inv[OF message_table.pgl_listing_store[OF tab]])
  have view: "\<forall>m \<in> set (im_view s). \<not> (ref_Vhost (meta_Ref m) = v \<and> (\<exists>folder. ref_Mailbox (meta_Ref m) = l @ ''/'' @ folder))"
  proof (intro ballI notI, elim conjE exE)
    fix m folder assume m: "m \<in> set (im_view s)" "ref_Vhost (meta_Ref m) = v" "ref_Mailbox (meta_Ref m) = l @ ''/'' @ folder"
    obtain l' folder' where i: "imap_identity dirops (fst ` set steps) l' v" "l @ ''/'' @ folder = MailboxPath l' folder'"
      using inv m unfolding imap_inv_def by metis
    obtain d user password where u: "ImLogin d user password \<in> fst ` set steps" "ParseAddress user = Some (l', v)"
      "dir_Authenticate dirops v l' password d" using i(1) assms(2) by (auto simp: imap_identity_def)
    then have "l' \<noteq> l" "CHR ''/'' \<notin> set l'" using assms(4) by fastforce+
    then show False using i(2) assms(3) same_mailbox_owner[of l folder l' folder'] by (simp add: MailboxPath_def)
  qed
  have row: "\<not> foreign r" if "m \<in> set (im_view s)" "row_at (meta_Ref m) r" for m r
    using view that by (auto simp: foreign_def row_at_def)
  have "\<exists>k r. look t k = Some r \<and> msr_Body r = b \<and> \<not> foreign r"
    if "(n, items) \<in> set (snd (imap_Fetch (Backend_ops db) w ns opts s t))" "ItemBody sec b \<in> set items" for n items sec b
  proof -
    note f = fetch_loop_body[OF that(1)[unfolded imap_Fetch_def] that(2)]
    obtain m where m: "m \<in> set (im_view s)" "Backend_Read db None (meta_Ref m) t = Inr b"
      using f by (auto simp: Backend_ops_def)
    from message_table.pg_read_row[OF tab assms(5) m(2)] row[OF m(1)] show ?thesis by blast
  qed
  moreover have "look t' k = Some r \<longleftrightarrow> look t k = Some r"
    if "imap_Store (Backend_ops db) w seed ns flags s t = (e, s', out, t')" "foreign r" for e s' out t' k r
  proof -
    note f = that(1)
    obtain view' where "imap_store_loop (Backend_ops db) w seed ns flags 0 (im_view s) t = (e, view', out, t')"
      using f by (auto simp: imap_Store_def split: prod.splits)
    from message_table.imap_store_frame[OF tab assms(5) this, of r k] row that(2) show ?thesis by blast
  qed
  ultimately show ?thesis using view by blast
qed

text \<open>
  C37: A \<open>FETCH\<close> gets through exactly when, for every message of the set, the writers take its parts
  and, where a section is asked for, the store reads its body. Then it answers exactly the messages
  of the view whose number (place in the view plus one, as sequence number or as UID) is in the
  set, in order, once each, each with exactly the items that were asked for: its number as UID, the
  flags and size of the snapshot and, for each section, the bytes the store holds.
\<close>

theorem imap_Fetch_exact:
  fixes store :: "'s store_ops"
  defines "selected \<equiv> \<lambda>ns i. case ns of SeqSet c \<Rightarrow> c (of_nat (i + 1)) | UIDSet c \<Rightarrow> c (of_nat (i + 1)) | OtherSet \<Rightarrow> False"
    and "body \<equiv> \<lambda>m st. s_Read store None (meta_Ref m) st"
  shows "(fst (imap_Fetch store w ns opts s st) = None \<longleftrightarrow>
      (\<forall>i < length (im_view s). selected ns i \<longrightarrow> iw_close w i = None
         \<and> (\<forall>j < length (fo_BodySection opts). (\<exists>b. body (im_view s ! i) st = Inr b)
              \<and> iw_write w i j = None \<and> iw_close_section w i j = None)))
    \<and> (fst (imap_Fetch store w ns opts s st) = None \<longrightarrow>
       snd (imap_Fetch store w ns opts s st) =
         map (\<lambda>i. (of_nat (i + 1),
             (if fo_UID opts then [ItemUID (of_nat (i + 1))] else [])
             @ (if fo_Flags opts then [ItemFlags (meta_Flags (im_view s ! i))] else [])
             @ (if fo_RFC822Size opts then [ItemSize (meta_Size (im_view s ! i))] else [])
             @ map (\<lambda>sec. ItemBody sec (projr (body (im_view s ! i) st))) (fo_BodySection opts)))
           (filter (selected ns) [0..<length (im_view s)]))"
proof -
  let ?v = "im_view s"
  have sel: "selected = chosen" by (simp add: selected_def chosen_def fun_eq_iff split: num_set.split)
  have e: "enumerate 0 ?v = map (\<lambda>i. (i, ?v ! i)) [0..<length ?v]"
    by (rule nth_equalityI) (simp_all add: nth_enumerate_eq)
  have "snd (imap_Fetch store w ns opts s st) = map (\<lambda>i. fetch_answer store opts st i (?v ! i)) (filter (chosen ns) [0..<length ?v])"
    if "fst (imap_Fetch store w ns opts s st) = None"
  proof -
    from that have "fetch_loop store w ns opts 0 ?v st = (None, snd (imap_Fetch store w ns opts s st))"
      by (metis imap_Fetch_def prod.collapse)
    from fetch_loop_ok[OF this, unfolded e filter_map] show ?thesis by (simp add: comp_def)
  qed
  moreover have "fst (imap_Fetch store w ns opts s st) = None \<longleftrightarrow> (\<forall>i < length ?v. chosen ns i \<longrightarrow> iw_close w i = None
      \<and> (\<forall>j < length (fo_BodySection opts). (\<exists>b. s_Read store None (meta_Ref (?v ! i)) st = Inr b)
           \<and> iw_write w i j = None \<and> iw_close_section w i j = None))"
    using fetch_loop_None[of store w ns opts 0 ?v st] by (simp add: imap_Fetch_def fetch_sections_None)
  ultimately show ?thesis unfolding sel body_def by (simp add: fetch_answer_def fetch_head_def toIMAPFlags_def)
qed

text \<open>
  A \<open>STORE\<close> that succeeds applies the requested set operation: every message of the set has, in
  the view and in the call to the store, the sorted, repetition-free list of the flags that the
  operation (replace, add or remove) gives from its flags in the snapshot; the others keep theirs,
  no message changes place or identity, and the answers (none when silent) report these flags.
\<close>

theorem imap_Store_effect:
  assumes "imap_Store store w seed ns flags s st = (None, s', out, st')"
  shows "length (im_view s') = length (im_view s)
    \<and> (\<forall>i < length (im_view s). meta_Ref (im_view s' ! i) = meta_Ref (im_view s ! i)
         \<and> meta_Flags (im_view s' ! i) = (if numSetContains ns (of_nat (i + 1)) (of_nat (i + 1))
             then sorted_list_of_set (flags_after (set (meta_Flags (im_view s ! i))) flags) else meta_Flags (im_view s ! i)))
    \<and> st' = fold (\<lambda>i st. snd (s_UpdateFlags store None (meta_Ref (im_view s ! i)) (meta_Flags (im_view s' ! i)) st))
        (filter (\<lambda>i. numSetContains ns (of_nat (i + 1)) (of_nat (i + 1))) [0..<length (im_view s)]) st
    \<and> out = (if sf_Silent flags then [] else map (\<lambda>i. (of_nat (i + 1), meta_Flags (im_view s' ! i)))
        (filter (\<lambda>i. numSetContains ns (of_nat (i + 1)) (of_nat (i + 1))) [0..<length (im_view s)]))"
proof -
  let ?v = "im_view s" and ?c = "filter (chosen ns) [0..<length (im_view s)]"
  let ?g = "\<lambda>i. applyStoreOp seed (meta_Flags (?v ! i)) flags"
  have e: "enumerate 0 ?v = map (\<lambda>i. (i, ?v ! i)) [0..<length ?v]"
    by (rule nth_equalityI) (simp_all add: nth_enumerate_eq)
  obtain view where l: "imap_store_loop store w seed ns flags 0 ?v st = (None, view, out, st')" "s' = s\<lparr>im_view := view\<rparr>"
    using assms by (auto simp: imap_Store_def split: prod.splits)
  note f = imap_store_loop_ok[OF l(1), unfolded e filter_map]
  have v: "view = map (\<lambda>i. if chosen ns i then (?v ! i)\<lparr>meta_Flags := ?g i\<rparr> else ?v ! i) [0..<length ?v]"
    and o: "out = (if sf_Silent flags then [] else map (\<lambda>i. (of_nat (i + 1), ?g i)) ?c)"
    and st: "st' = fold (\<lambda>i st. snd (s_UpdateFlags store None (meta_Ref (?v ! i)) (?g i) st)) ?c st"
    using f by (auto simp: comp_def fold_map)
  have g: "?g i = meta_Flags (view ! i)" if "i \<in> set ?c" for i using that by (auto simp: v)
  have "st' = fold (\<lambda>i st. snd (s_UpdateFlags store None (meta_Ref (?v ! i)) (meta_Flags (view ! i)) st)) ?c st"
    unfolding st by (rule fold_cong) (use g in auto)
  moreover have "out = (if sf_Silent flags then [] else map (\<lambda>i. (of_nat (i + 1), meta_Flags (view ! i))) ?c)"
    unfolding o using g by (auto intro!: map_cong)
  moreover have "length view = length ?v" "\<forall>i < length ?v. meta_Ref (view ! i) = meta_Ref (?v ! i)
      \<and> meta_Flags (view ! i) = (if chosen ns i then sorted_list_of_set (flags_after (set (meta_Flags (?v ! i))) flags)
           else meta_Flags (?v ! i))"
    by (simp_all add: v applyStoreOp_set)
  ultimately show ?thesis using l(2) unfolding chosen_def[symmetric] by simp
qed

text \<open>
  An account can read its neighbours over IMAP: with a maildir store and ordinary names, a
  session logged in as one account of a vhost that selects the mailbox \<open>../other/folder\<close> gets a
  view with every message of that folder of the account \<open>other\<close>, and the references of this view
  read that account's bodies. \<open>Select\<close> passes the client's mailbox name on, although the session
  is documented to expose only \<open>INBOX\<close>.
\<close>

theorem imap_Select_reads_neighbour:
  assumes "plain (im_vhost s)" "plain (im_local s)"
    and "Maildir_List None lseed (im_vhost s) (MailboxPath other folder) b = Inr ms" "m \<in> set ms"
  shows "\<exists>x \<in> set (im_view (snd (imap_Select Maildir_ops lseed seed (''../'' @ MailboxPath other folder) s b))).
      ref_Key (meta_Ref x) = ref_Key (meta_Ref m) \<and> meta_Flags x = meta_Flags m \<and> meta_Size x = meta_Size m
      \<and> Maildir_Read None (meta_Ref x) b
        = Maildir_Read None \<lparr>ref_Vhost = im_vhost s, ref_Mailbox = MailboxPath other folder, ref_Key = ref_Key (meta_Ref m)\<rparr> b"
proof -
  let ?own = "MailboxPath (im_local s) (''../'' @ MailboxPath other folder)" and ?his = "MailboxPath other folder"
  have d: "mailboxDir b (im_vhost s) ?own = mailboxDir b (im_vhost s) ?his"
    using mailboxDir_dotdot[OF assms(1,2)] by simp
  let ?x = "m\<lparr>meta_Ref := (meta_Ref m)\<lparr>ref_Mailbox := ?own\<rparr>\<rparr>"
  have "Maildir_List None lseed (im_vhost s) ?own b = Inr (map (\<lambda>x. x\<lparr>meta_Ref := (meta_Ref x)\<lparr>ref_Mailbox := ?own\<rparr>\<rparr>) ms)"
    using Maildir_List_mailbox[OF d] assms(3) by simp
  then have "?x \<in> set (im_view (snd (imap_Select Maildir_ops lseed seed (''../'' @ MailboxPath other folder) s b)))"
    using assms(4) by (simp add: imap_Select_def listMailbox_def Maildir_ops_def)
  moreover have "ref_Vhost (meta_Ref m) = im_vhost s"
    using mdl.list_refs[of None lseed "im_vhost s" ?his b ms m] assms(3,4) by (simp add: Maildir_ops_def)
  then have "meta_Ref ?x = \<lparr>ref_Vhost = im_vhost s, ref_Mailbox = ?own, ref_Key = ref_Key (meta_Ref m)\<rparr>"
    by (cases "meta_Ref m") simp
  ultimately show ?thesis using Maildir_Read_mailbox[OF d, of None "ref_Key (meta_Ref m)"] by (intro bexI[of _ ?x]) auto
qed

subsection \<open>Witnesses\<close>

definition demo_alice :: imap_session where
  "demo_alice = imap_new\<lparr>im_local := ''alice'', im_vhost := ''a.test''\<rparr>"

definition demo_view :: "message_meta list" where
  "demo_view = [\<lparr>meta_Ref = \<lparr>ref_Vhost = ''a.test'', ref_Mailbox = ''alice/INBOX'', ref_Key = ''k1''\<rparr>,
     meta_Size = 11, meta_Flags = [], meta_CreatedAt = 1\<rparr>]"

lemma demo_select:
  "im_view (snd (imap_Select Maildir_ops 0 0 ''INBOX'' demo_alice demo_mail)) = demo_view"
  using demo_mail_list[OF demo_mail_dir, of "''k1''" "''hello alice''" 1]
  by (simp add: imap_Select_def listMailbox_def Maildir_ops_def demo_alice_def MailboxPath_def demo_view_def)

definition demo_writer :: imap_writer where
  "demo_writer = \<lparr>iw_write = (\<lambda>i j. None), iw_close_section = (\<lambda>i j. None), iw_close = (\<lambda>i. None)\<rparr>"

definition demo_opts :: fetch_options where
  "demo_opts = \<lparr>fo_UID = True, fo_Flags = True, fo_RFC822Size = False, fo_BodySection = [''TEXT'']\<rparr>"

lemma demo_mail_read:
  "Maildir_Read None \<lparr>ref_Vhost = ''a.test'', ref_Mailbox = ''alice/INBOX'', ref_Key = ''k1''\<rparr> demo_mail = Inr ''hello alice''"
  by (simp add: Maildir_Read_def locate_def demo_mail_dir fs_exists_def path_join_def)
    (simp add: demo_mail_def dirNew_def)

theorem imap_Fetch_exact_witness:
  "imap_Fetch Maildir_ops demo_writer (SeqSet (\<lambda>n. n = 1)) demo_opts (demo_alice\<lparr>im_view := demo_view\<rparr>) demo_mail
     = (None, [(1, [ItemUID 1, ItemFlags [], ItemBody ''TEXT'' ''hello alice''])])"
proof -
  let ?f = "imap_Fetch Maildir_ops demo_writer (SeqSet (\<lambda>n. n = 1)) demo_opts (demo_alice\<lparr>im_view := demo_view\<rparr>) demo_mail"
  note f = imap_Fetch_exact[of Maildir_ops demo_writer "SeqSet (\<lambda>n. n = 1)" demo_opts "demo_alice\<lparr>im_view := demo_view\<rparr>" demo_mail]
  have "fst ?f = None" using f demo_mail_read by (simp add: demo_view_def demo_opts_def demo_writer_def Maildir_ops_def)
  with f demo_mail_read have "snd ?f = [(1, [ItemUID 1, ItemFlags [], ItemBody ''TEXT'' ''hello alice''])]"
    by (simp add: demo_view_def demo_opts_def Maildir_ops_def)
  with \<open>fst ?f = None\<close> show ?thesis by (metis prod.collapse)
qed

definition demo_messages_db :: "(message_row, message_row list_table) sql_ops" where
  "demo_messages_db = list_table_ops msr_Id message_row_fill (\<lambda>_ _. False) message_row_norm"

definition demo_messages :: "message_row list_table" where
  "demo_messages = \<lparr>lt_rows = [\<lparr>msr_Id = ''k1'', msr_CreatedAt = Some 0, msr_Vhost = ''a.test'', msr_Mailbox = ''alice/INBOX'',
       msr_Body = ''hello alice'', msr_Size = 11, msr_Flags = []\<rparr>,
     \<lparr>msr_Id = ''k2'', msr_CreatedAt = Some 0, msr_Vhost = ''a.test'', msr_Mailbox = ''bob/INBOX'',
       msr_Body = ''hello bob'', msr_Size = 9, msr_Flags = []\<rparr>], lt_used = [''k1'', ''k2'']\<rparr>"

definition demo_imap_steps :: "(memory_directory imap_cmd \<times> message_row list_table) list" where
  "demo_imap_steps = [(ImLogin demo_dir2 ''alice@a.test'' ''pw'', demo_messages), (ImSelect 0 0 ''../bob/INBOX'', demo_messages),
     (ImSelect 0 0 ''INBOX'', demo_messages)]"

theorem imap_isolates_accounts_witness:
  "length (im_view (imap_serve memory_directory_ops (Backend_ops demo_messages_db) demo_imap_steps)) = 1
   \<and> filter (\<lambda>m. ref_Vhost (meta_Ref m) = ''a.test'' \<and> ref_Mailbox (meta_Ref m) = ''bob/INBOX'')
       (im_view (imap_serve memory_directory_ops (Backend_ops demo_messages_db) demo_imap_steps)) = []"
proof -
  have a: "\<forall>(c, t) \<in> set demo_imap_steps. \<forall>d user password l' v'. c = ImLogin d user password \<and> ParseAddress user = Some (l', v')
      \<and> dir_Authenticate memory_directory_ops v' l' password d \<longrightarrow> (l', v') \<noteq> (''bob'', ''a.test'') \<and> CHR ''/'' \<notin> set l'"
    by (simp add: demo_imap_steps_def ParseAddress_def)
  have k: "lt_ok msr_Id (\<lambda>_ _. False) message_row_norm demo_messages"
    by (simp add: lt_ok_def demo_messages_def message_row_norm_def)
  have l: "imap_Login memory_directory_ops demo_dir2 ''alice@a.test'' ''pw'' imap_new = (None, demo_alice)"
    by (simp add: imap_Login_def ParseAddress_def memory_directory_ops_def memory_Authenticate_def demo_dir2_def accountKey_def
        demo_alice_def)
  have "length (im_view (imap_serve memory_directory_ops (Backend_ops demo_messages_db) demo_imap_steps)) = 1"
    by (simp add: imap_serve_def demo_imap_steps_def l imap_Select_def listMailbox_def Backend_ops_def Backend_List_def demo_alice_def
        demo_messages_db_def list_table_ops_def lt_Find_def demo_messages_def MailboxPath_def sort_rows_def limit_rows_def)
  moreover note imap_isolates_accounts[OF mdb.message_table_axioms _ _ a k, folded demo_messages_db_def]
  ultimately show ?thesis by (auto simp: filter_empty_conv)
qed

definition demo_flag_store :: "string list store_ops" where
  "demo_flag_store = \<lparr>s_Write = (\<lambda>c v m b st. (Inr zero_ref, st)), s_Read = (\<lambda>c r st. Inr []),
     s_List = (\<lambda>c n v m st. Inr []), s_ListVhost = (\<lambda>c n v st. Inr []),
     s_UpdateFlags = (\<lambda>c r flags st. (None, flags)), s_Delete = (\<lambda>c r st. (None, st))\<rparr>"

definition demo_store_flags :: store_flags where
  "demo_store_flags = \<lparr>sf_Op = StoreFlagsAdd, sf_Flags = [FlagSeen, FlagSeen], sf_Silent = False\<rparr>"

theorem imap_Store_effect_witness:
  "\<exists>s' out. imap_Store demo_flag_store demo_writer 0 (SeqSet (\<lambda>n. True)) demo_store_flags (demo_alice\<lparr>im_view := demo_view\<rparr>) []
      = (None, s', out, [FlagSeen]) \<and> meta_Flags (im_view s' ! 0) = [FlagSeen] \<and> out = [(1, [FlagSeen])]"
proof -
  obtain s' out st' where r: "imap_Store demo_flag_store demo_writer 0 (SeqSet (\<lambda>n. True)) demo_store_flags
      (demo_alice\<lparr>im_view := demo_view\<rparr>) [] = (None, s', out, st')"
    by (simp add: imap_Store_def demo_view_def demo_flag_store_def demo_writer_def demo_store_flags_def Let_def)
  have f: "flags_after (set []) demo_store_flags = {FlagSeen}" by (simp add: flags_after_def demo_store_flags_def)
  note e = imap_Store_effect[OF r]
  have "meta_Flags (im_view s' ! 0) = [FlagSeen]" using e f by (simp add: demo_view_def)
  moreover have "st' = [FlagSeen] \<and> out = [(1, [FlagSeen])]"
    using e calculation by (simp add: demo_view_def demo_flag_store_def demo_store_flags_def)
  ultimately show ?thesis using r by blast
qed

theorem imap_Select_reads_neighbour_witness:
  "\<exists>x \<in> set (im_view (snd (imap_Select Maildir_ops 0 0 (''../'' @ MailboxPath ''bob'' ''INBOX'') demo_alice demo_mail))).
     ref_Key (meta_Ref x) = ''k2''"
proof -
  let ?m = "\<lparr>meta_Ref = \<lparr>ref_Vhost = ''a.test'', ref_Mailbox = ''bob/INBOX'', ref_Key = ''k2''\<rparr>,
     meta_Size = 9, meta_Flags = [], meta_CreatedAt = 2\<rparr>"
  have "mailboxDir demo_mail ''a.test'' ''bob/INBOX'' = [''m'', ''a.test'', ''bob'', ''INBOX'']"
    by (simp add: mailboxDir_def path_join_def demo_mail_def)
  from demo_mail_list[OF this, of "''k2''" "''hello bob''" 2]
  have l: "Maildir_List None 0 (im_vhost demo_alice) (MailboxPath ''bob'' ''INBOX'') demo_mail = Inr [?m]"
    by (simp add: demo_alice_def MailboxPath_def)
  have "plain (im_vhost demo_alice)" "plain (im_local demo_alice)" by (simp_all add: demo_alice_def plain_def)
  from imap_Select_reads_neighbour[OF this l, of ?m 0] show ?thesis by auto
qed

end
