(* ===== verification/Retention.thy ===== *)
theory Retention
  imports Storage Directory Paging
begin

section \<open>Retention: internal/retention/retention.go\<close>

text \<open>
  The sweep that purges messages past their vhost's retention window. \<open>lister\<close> is the directory's
  \<open>ListVhosts\<close> and \<open>ctx\<close> the context, both by the number of the page, since either may change
  while the sweep runs; \<open>AddDays\<close> is \<open>AddDate(0, 0, n)\<close> in the process's time zone. The loop over
  the pages may run for ever, so it is a partial function: \<open>None\<close> is not returning.
\<close>

definition DefaultRetentionDays :: int where "DefaultRetentionDays = 90"
definition DefaultSweepInterval :: duration where "DefaultSweepInterval = 24 * 3600 * 10 ^ 9"
definition DefaultVhostPageSize :: int where "DefaultVhostPageSize = 100"
definition MaxVhostPageSize :: int where "MaxVhostPageSize = 500"

text \<open>The zero \<open>time.Time\<close>, the first instant of year 1.\<close>

definition zero_time :: time where "zero_time = - 62135596800 * 10 ^ 9"

record purger =
  pu_DefaultRetentionDays :: int
  pu_SweepInterval :: duration

definition defaultDays :: "purger \<Rightarrow> int" where
  "defaultDays p = (if pu_DefaultRetentionDays p > 0 then pu_DefaultRetentionDays p else DefaultRetentionDays)"

definition sweepInterval :: "purger \<Rightarrow> duration" where
  "sweepInterval p = (if pu_SweepInterval p > 0 then pu_SweepInterval p else DefaultSweepInterval)"

fun purge_loop :: "'s store_ops \<Rightarrow> gerr option \<Rightarrow> time \<Rightarrow> message_meta list \<Rightarrow> 's \<times> nat \<Rightarrow> 's \<times> nat" where
  "purge_loop store ctx cutoff [] (st, purged) = (st, purged)"
| "purge_loop store ctx cutoff (m # ms) (st, purged) =
     (if meta_CreatedAt m = zero_time \<or> meta_CreatedAt m > cutoff then purge_loop store ctx cutoff ms (st, purged)
      else case s_Delete store ctx (meta_Ref m) st of
             (Some e, st') \<Rightarrow> purge_loop store ctx cutoff ms (st', purged)
           | (None, st') \<Rightarrow> purge_loop store ctx cutoff ms (st', Suc purged))"

definition purgeVhost :: "purger \<Rightarrow> (time \<Rightarrow> int \<Rightarrow> time) \<Rightarrow> 's store_ops \<Rightarrow> gerr option \<Rightarrow> nat \<Rightarrow> time \<Rightarrow> vhost \<Rightarrow> 's \<times> nat \<Rightarrow> 's \<times> nat" where
  "purgeVhost p AddDays store ctx seed now v sp =
     (let days = (if vh_RetentionDays v \<le> 0 then defaultDays p else vh_RetentionDays v);
          cutoff = AddDays now (- days)
      in case s_ListVhost store ctx seed (vh_Domain v) (fst sp) of
           Inl e \<Rightarrow> sp
         | Inr messages \<Rightarrow> purge_loop store ctx cutoff messages sp)"

text \<open>The clock is read once per vhost: \<open>sw_now v\<close> is its value when \<open>v\<close> is purged.\<close>

record 's sweep_env =
  sw_purger :: purger
  sw_AddDays :: "time \<Rightarrow> int \<Rightarrow> time"
  sw_store :: "'s store_ops"
  sw_ctx :: "nat \<Rightarrow> gerr option"
  sw_lister :: "nat \<Rightarrow> string \<Rightarrow> int \<Rightarrow> gerr + vhost list"
  sw_seed :: nat
  sw_now :: "vhost \<Rightarrow> time"

partial_function (option) sweep_loop :: "'s sweep_env \<Rightarrow> nat \<Rightarrow> string \<Rightarrow> 's \<times> nat \<Rightarrow> ('s \<times> nat) option" where
  "sweep_loop env n cursor sp =
     (if sw_ctx env n \<noteq> None then Some sp
      else case sw_lister env n cursor DefaultVhostPageSize of
        Inl e \<Rightarrow> Some sp
      | Inr vhosts \<Rightarrow>
          let sp = fold (\<lambda>v. purgeVhost (sw_purger env) (sw_AddDays env) (sw_store env) (sw_ctx env n) (sw_seed env) (sw_now env v) v) vhosts sp
          in if int (length vhosts) < DefaultVhostPageSize then Some sp
             else sweep_loop env (Suc n) (vh_ID (last vhosts)) sp)"

definition Sweep :: "'s sweep_env \<Rightarrow> 's \<times> nat \<Rightarrow> ('s \<times> nat) option" where
  "Sweep env sp = sweep_loop env 0 [] sp"

subsection \<open>Lemmas\<close>

text \<open>What a purge of a vhost must do: delete exactly the messages at or past the cutoff with a known age.\<close>

definition expired :: "time \<Rightarrow> message_meta \<Rightarrow> bool" where
  "expired cutoff m \<longleftrightarrow> meta_CreatedAt m \<noteq> zero_time \<and> meta_CreatedAt m \<le> cutoff"

definition retention_cutoff :: "purger \<Rightarrow> (time \<Rightarrow> int \<Rightarrow> time) \<Rightarrow> time \<Rightarrow> vhost \<Rightarrow> time" where
  "retention_cutoff p AddDays now v = AddDays now (- (if vh_RetentionDays v > 0 then vh_RetentionDays v
     else if pu_DefaultRetentionDays p > 0 then pu_DefaultRetentionDays p else 90))"

definition delete_ref :: "'s store_ops \<Rightarrow> gerr option \<Rightarrow> message_ref \<Rightarrow> 's \<times> nat \<Rightarrow> 's \<times> nat" where
  "delete_ref store ctx ref sp = (case s_Delete store ctx ref (fst sp) of
     (e, st') \<Rightarrow> (st', if e = None then Suc (snd sp) else snd sp))"

lemma purge_loop_expired:
  "purge_loop store ctx cutoff ms sp = fold (delete_ref store ctx) (map meta_Ref (filter (expired cutoff) ms)) sp"
  by (induction store ctx cutoff ms sp rule: purge_loop.induct)
    (auto simp: expired_def delete_ref_def not_less split: prod.splits option.splits)

lemma purgeVhost_expired:
  "purgeVhost p AddDays store ctx seed now v sp =
     (case s_ListVhost store ctx seed (vh_Domain v) (fst sp) of Inl e \<Rightarrow> sp
      | Inr ms \<Rightarrow> fold (delete_ref store ctx) (map meta_Ref (filter (expired (retention_cutoff p AddDays now v)) ms)) sp)"
  by (simp add: purgeVhost_def retention_cutoff_def purge_loop_expired Let_def defaultDays_def DefaultRetentionDays_def
      split: sum.splits)

text \<open>
  A directory whose listing is paged as documented: the rows after the cursor, in the order of
  their IDs, at most as many as asked for.
\<close>

lemma sweep_pages:
  assumes pages: "\<And>n cursor. sw_lister env n cursor DefaultVhostPageSize = Inr (page_after vh_ID cursor 100 vs)"
    and ctx: "\<And>n. sw_ctx env n = None"
    and sorted: "sorted_wrt (<) (map vh_ID vs)" and ids: "\<forall>v \<in> set vs. vh_ID v \<noteq> []"
    and pos: "m \<le> length vs" "cursor = (if m = 0 then [] else vh_ID (vs ! (m - 1)))"
  shows "sweep_loop env n cursor sp = Some (fold (\<lambda>v. purgeVhost (sw_purger env) (sw_AddDays env) (sw_store env) None (sw_seed env) (sw_now env v) v)
    (drop m vs) sp)"
  using pos
proof (induction "length vs - m" arbitrary: m n cursor sp rule: less_induct)
  case less
  let ?f = "\<lambda>v. purgeVhost (sw_purger env) (sw_AddDays env) (sw_store env) None (sw_seed env) (sw_now env v) v"
  let ?p = "take 100 (drop m vs)"
  have p: "page_after vh_ID cursor 100 vs = ?p"
  proof (cases "m = 0")
    case False
    then show ?thesis using page_after_next[OF sorted, of "m - 1" 100] less.prems ids by simp
  qed (use less.prems in \<open>simp add: page_after_first\<close>)
  show ?case
  proof (cases "length vs - m < 100")
    case True
    then show ?thesis
      by (subst sweep_loop.simps) (simp add: ctx pages[unfolded DefaultVhostPageSize_def] p DefaultVhostPageSize_def Let_def)
  next
    case False
    let ?m = "m + 100"
    have "last ?p = vs ! (?m - 1)" using False by (subst last_conv_nth) (auto simp: add.commute)
    then have "sweep_loop env (Suc n) (vh_ID (last ?p)) (fold ?f ?p sp) = Some (fold ?f (drop ?m vs) (fold ?f ?p sp))"
      using less.hyps[of ?m "vh_ID (last ?p)" "Suc n" "fold ?f ?p sp"] False less.prems by simp
    moreover have "?p @ drop ?m vs = drop m vs"
      using append_take_drop_id[of 100 "drop m vs"] by (simp add: add.commute)
    then have "fold ?f (drop ?m vs) (fold ?f ?p sp) = fold ?f (drop m vs) sp"
      using fold_append[of ?f ?p "drop ?m vs"] by simp
    ultimately show ?thesis using False
      by (subst sweep_loop.simps) (simp add: ctx pages[unfolded DefaultVhostPageSize_def] p DefaultVhostPageSize_def Let_def)
  qed
qed

subsection \<open>Properties\<close>

text \<open>
  C36: A retention sweep always finishes and purges exactly what is due. If the directory pages its
  vhosts as documented (the rows after the cursor in ID order) and the sweep is not cancelled, it
  returns, after visiting every vhost once, in order, whatever their number; in each it asks the
  store to delete exactly the messages whose age is known and whose creation is at or before the
  vhost's own cutoff (the default window when none is set) from the clock as it is when the vhost
  is purged, and counts the deletions that succeed.
\<close>

theorem Sweep_terminates_exact:
  assumes "\<And>n cursor. sw_lister env n cursor DefaultVhostPageSize = Inr (page_after vh_ID cursor 100 vs)"
    "\<And>n. sw_ctx env n = None" "sorted_wrt (<) (map vh_ID vs)" "\<forall>v \<in> set vs. vh_ID v \<noteq> []"
  shows "Sweep env sp = Some (fold (\<lambda>v sp. case s_ListVhost (sw_store env) None (sw_seed env) (vh_Domain v) (fst sp) of
        Inl e \<Rightarrow> sp
      | Inr ms \<Rightarrow> fold (delete_ref (sw_store env) None) (map meta_Ref
          (filter (expired (retention_cutoff (sw_purger env) (sw_AddDays env) (sw_now env v) v)) ms)) sp) vs sp)"
proof -
  have "Sweep env sp = Some (fold (\<lambda>v. purgeVhost (sw_purger env) (sw_AddDays env) (sw_store env) None (sw_seed env) (sw_now env v) v) vs sp)"
    unfolding Sweep_def using sweep_pages[OF assms, of 0 "[]" 0 sp] by simp
  then show ?thesis unfolding purgeVhost_expired[abs_def] .
qed

text \<open>A store whose state is the list of references deleted so far, and one vhost with two messages.\<close>

definition demo_ref :: "string \<Rightarrow> message_ref" where
  "demo_ref k = \<lparr>ref_Vhost = ''a.test'', ref_Mailbox = ''u/INBOX'', ref_Key = k\<rparr>"

definition demo_meta :: "string \<Rightarrow> time \<Rightarrow> message_meta" where
  "demo_meta k t = \<lparr>meta_Ref = demo_ref k, meta_Size = 1, meta_Flags = [], meta_CreatedAt = t\<rparr>"

definition demo_purge_store :: "string list store_ops" where
  "demo_purge_store = \<lparr>s_Write = (\<lambda>c v m b st. (Inr zero_ref, st)), s_Read = (\<lambda>c r st. Inr []),
     s_List = (\<lambda>c n v m st. Inr []), s_ListVhost = (\<lambda>c n v st. Inr [demo_meta ''old'' 1, demo_meta ''new'' 950]),
     s_UpdateFlags = (\<lambda>c r flags st. (None, st)), s_Delete = (\<lambda>c r st. (None, ref_Key r # st))\<rparr>"

definition demo_sweep :: "string list sweep_env" where
  "demo_sweep = \<lparr>sw_purger = \<lparr>pu_DefaultRetentionDays = 0, pu_SweepInterval = 0\<rparr>, sw_AddDays = (\<lambda>t n. t + n),
     sw_store = demo_purge_store, sw_ctx = (\<lambda>n. None),
     sw_lister = (\<lambda>n cursor lim. Inr (page_after vh_ID cursor 100 [zero_vhost\<lparr>vh_ID := ''v1'', vh_Domain := ''a.test''\<rparr>])),
     sw_seed = 0, sw_now = (\<lambda>v. 1000)\<rparr>"

theorem Sweep_terminates_exact_witness:
  "Sweep demo_sweep ([], 0) = Some ([''old''], 1)"
proof -
  let ?vs = "[zero_vhost\<lparr>vh_ID := ''v1'', vh_Domain := ''a.test''\<rparr>]"
  have "Sweep demo_sweep ([], 0) = Some (fold (\<lambda>v sp. case s_ListVhost (sw_store demo_sweep) None (sw_seed demo_sweep) (vh_Domain v) (fst sp) of
        Inl e \<Rightarrow> sp
      | Inr ms \<Rightarrow> fold (delete_ref (sw_store demo_sweep) None) (map meta_Ref
          (filter (expired (retention_cutoff (sw_purger demo_sweep) (sw_AddDays demo_sweep) (sw_now demo_sweep v) v)) ms)) sp) ?vs ([], 0))"
    by (rule Sweep_terminates_exact) (simp_all add: demo_sweep_def)
  then show ?thesis
    by (simp add: demo_sweep_def demo_purge_store_def retention_cutoff_def zero_vhost_def expired_def demo_meta_def
        demo_ref_def delete_ref_def zero_time_def)
qed

end
