(* ===== verification/Postgres_Queue.thy ===== *)
theory Postgres_Queue
  imports Sql_Table Job_Queue Webhook_Queue
begin

section \<open>Durable queues: internal/queue/postgres.go, internal/webhook/postgres_queue.go\<close>

text \<open>
  \<open>queue.PostgresBackend\<close> and \<open>webhook.PostgresEventQueue\<close> are the same code over two row types and
  with two sets of error texts: \<open>row_codec\<close> holds what differs and the \<open>pgq_\<close> operations are that
  code, over any table. The locale \<open>pg_queue\<close> shows, from the laws of \<open>sql_table\<close>, that the code
  meets the contract \<open>job_claims\<close> of \<open>Claim_Queue\<close>, so that what is proved there of workers that
  share a queue holds of workers that share a database.
\<close>

subsection \<open>The code\<close>

record ('j, 'r) row_codec =
  rc_row :: "'j \<Rightarrow> 'r"
  rc_job :: "'r \<Rightarrow> 'j"
  rc_Id :: "'r \<Rightarrow> string"
  rc_Claimed :: "'r \<Rightarrow> bool"
  rc_NextAttemptAt :: "'r \<Rightarrow> time"
  rc_claim :: "'r \<Rightarrow> 'r"
  rc_updates :: "string option \<Rightarrow> time \<Rightarrow> 'r \<Rightarrow> 'r"
  rc_required :: string
  rc_enqueue :: string
  rc_dequeue :: string
  rc_complete :: string
  rc_fail :: string
  rc_what :: string

definition pgq_Enqueue :: "('j, 'r) row_codec \<Rightarrow> ('j \<Rightarrow> string) \<Rightarrow> ('r, 't) sql_ops \<Rightarrow> gerr option \<Rightarrow> 'j
    \<Rightarrow> 't \<Rightarrow> gerr option \<times> 't" where
  "pgq_Enqueue c jid db ctx job t =
     (if jid job = [] then (Some (ErrNew (rc_required c)), t)
      else case t_Create db ctx (rc_row c job) t of
        (Inl e, t') \<Rightarrow> (Some (ErrWrap (rc_enqueue c @ '' '' @ go_quote (jid job)) e), t')
      | (Inr row, t') \<Rightarrow> (None, t'))"

text \<open>
  The body of the transaction of \<open>Dequeue\<close>: the \<open>SELECT ... FOR UPDATE SKIP LOCKED\<close>, which passes
  over the rows that other open transactions have locked, and the update. A call of \<open>Dequeue\<close> on
  its own meets no lock; \<open>pg_step\<close> below interleaves the two statements of several workers.
\<close>

definition claim_select :: "('j, 'r) row_codec \<Rightarrow> ('r, 't) sql_ops \<Rightarrow> (string \<Rightarrow> bool) \<Rightarrow> gerr option
    \<Rightarrow> time \<Rightarrow> 't \<Rightarrow> gerr + 'r list" where
  "claim_select c tx locked ctx now t =
     t_Find tx ctx (\<lambda>r. \<not> rc_Claimed c r \<and> rc_NextAttemptAt c r \<le> now \<and> \<not> locked (rc_Id c r))
       [IntAsc (rc_NextAttemptAt c)] (Some 1) t"

definition claim_update :: "('j, 'r) row_codec \<Rightarrow> ('r, 't) sql_ops \<Rightarrow> gerr option \<Rightarrow> 'r \<Rightarrow> 't
    \<Rightarrow> (gerr + nat) \<times> 't" where
  "claim_update c tx ctx row t = t_Updates tx ctx (\<lambda>r. rc_Id c r = rc_Id c row) (rc_claim c) t"

definition claim_row :: "('j, 'r) row_codec \<Rightarrow> ('r, 't) sql_ops \<Rightarrow> gerr option \<Rightarrow> time \<Rightarrow> 't
    \<Rightarrow> (gerr + 'r option) \<times> 't" where
  "claim_row c tx ctx now t =
     (case claim_select c tx (\<lambda>_. False) ctx now t of
        Inl e \<Rightarrow> (Inl e, t)
      | Inr [] \<Rightarrow> (Inr None, t)
      | Inr (row # _) \<Rightarrow>
          (case claim_update c tx ctx row t of
             (Inl e, t') \<Rightarrow> (Inl e, t')
           | (Inr n, t') \<Rightarrow> (Inr (Some (rc_claim c row)), t')))"

definition pgq_Dequeue :: "('j, 'r) row_codec \<Rightarrow> ('r, 't) sql_ops \<Rightarrow> gerr option \<Rightarrow> time \<Rightarrow> nat
    \<Rightarrow> 't \<Rightarrow> (gerr + 'j option) \<times> 't" where
  "pgq_Dequeue c db ctx now seed t =
     (case transaction (t_Begin db ctx) (t_Commit db ctx) (claim_row c db ctx now) t of
        (Inl e, t') \<Rightarrow> (Inl (ErrWrap (rc_dequeue c) e), t')
      | (Inr None, t') \<Rightarrow> (Inr None, t')
      | (Inr (Some row), t') \<Rightarrow> (Inr (Some (rc_job c row)), t'))"

definition pgq_affected :: "string \<Rightarrow> string \<Rightarrow> string \<Rightarrow> (gerr + nat) \<times> 't \<Rightarrow> gerr option \<times> 't" where
  "pgq_affected verb what ident res =
     (case res of
        (Inl e, t') \<Rightarrow> (Some (ErrWrap (verb @ '' '' @ go_quote ident) e), t')
      | (Inr n, t') \<Rightarrow>
          if n = 0 then (Some (ErrNew (what @ '' '' @ go_quote ident @ '' not found'')), t') else (None, t'))"

definition pgq_Complete :: "('j, 'r) row_codec \<Rightarrow> ('r, 't) sql_ops \<Rightarrow> gerr option \<Rightarrow> string
    \<Rightarrow> 't \<Rightarrow> gerr option \<times> 't" where
  "pgq_Complete c db ctx ident t =
     pgq_affected (rc_complete c) (rc_what c) ident (t_Delete db ctx (\<lambda>r. rc_Id c r = ident) t)"

definition pgq_Fail :: "('j, 'r) row_codec \<Rightarrow> ('r, 't) sql_ops \<Rightarrow> gerr option \<Rightarrow> string
    \<Rightarrow> string option \<Rightarrow> time \<Rightarrow> 't \<Rightarrow> gerr option \<times> 't" where
  "pgq_Fail c db ctx ident cause nextAttemptAt t =
     pgq_affected (rc_fail c) (rc_what c) ident
       (t_Updates db ctx (\<lambda>r. rc_Id c r = ident) (rc_updates c cause nextAttemptAt) t)"

definition pgq_ops :: "('j, 'r) row_codec \<Rightarrow> ('j \<Rightarrow> string) \<Rightarrow> ('r, 't) sql_ops \<Rightarrow> ('j, 't) queue_ops" where
  "pgq_ops c jid db =
     \<lparr>q_Enqueue = pgq_Enqueue c jid db, q_Dequeue = pgq_Dequeue c db,
      q_Complete = pgq_Complete c db, q_Fail = pgq_Fail c db\<rparr>"

text \<open>What a client may observe of the table.\<close>

definition pgq_pending :: "('j, 'r) row_codec \<Rightarrow> ('t \<Rightarrow> string \<Rightarrow> 'r option) \<Rightarrow> 't \<Rightarrow> string \<Rightarrow> 'j option" where
  "pgq_pending c look t k = map_option (rc_job c) (look t k)"

definition pgq_claims :: "('j, 'r) row_codec \<Rightarrow> ('t \<Rightarrow> string \<Rightarrow> 'r option) \<Rightarrow> 't \<Rightarrow> string \<Rightarrow> bool" where
  "pgq_claims c look t k = (case look t k of None \<Rightarrow> False | Some r \<Rightarrow> rc_Claimed c r)"

subsection \<open>The contract\<close>

locale row_coding =
  fixes c :: "('j, 'r) row_codec"
    and jid :: "'j \<Rightarrow> string"
    and due :: "'j \<Rightarrow> time"
    and retry :: "'j \<Rightarrow> string option \<Rightarrow> time \<Rightarrow> 'j"
    and norm :: "'r \<Rightarrow> 'r"
  assumes job_row: "rc_job c (rc_row c j) = j"
    and job_id: "jid (rc_job c r) = rc_Id c r"
    and job_due: "due (rc_job c r) = rc_NextAttemptAt c r"
    and row_unclaimed: "\<not> rc_Claimed c (rc_row c j)"
    and claim_keeps: "rc_job c (rc_claim c r) = rc_job c r" "rc_Claimed c (rc_claim c r)"
    and updates_row: "rc_updates c e t r = rc_row c (retry (rc_job c r) e t)"
    and keeps_retry: "jid (retry j e t) = jid j"
    and norm_claimed: "rc_Claimed c (norm r) = rc_Claimed c r"
    and norm_claim: "norm (rc_claim c r) = rc_claim c (norm r)"
begin

lemma claim_id: "rc_Id c (rc_claim c r) = rc_Id c r"
  using claim_keeps(1) job_id by metis

lemma row_id: "rc_Id c (rc_row c j) = jid j"
  using job_row job_id by metis

lemma updates_id: "rc_Id c (rc_updates c e t r) = rc_Id c r"
  by (simp add: updates_row row_id keeps_retry job_id)

end

locale pg_queue = row_coding c jid due retry norm
  + sql_table db ok look "rc_Id c" filled conflict norm
  for c :: "('j, 'r) row_codec" and jid due retry norm
    and db :: "('r, 't) sql_ops" and ok look filled conflict +
  fixes init :: 't
  assumes new_ok: "ok init" and new_empty: "look init = Map.empty"
    and filled_given: "filled r r' \<Longrightarrow> rc_Id c r \<noteq> [] \<Longrightarrow> r' = r"
begin

lemmas view = pgq_pending_def pgq_claims_def

lemma claim_select_some:
  assumes "ok t" "claim_select c db locked ctx now t = Inr (r # rs)"
  shows "look t (rc_Id c r) = Some r \<and> \<not> rc_Claimed c r \<and> rc_NextAttemptAt c r \<le> now \<and> \<not> locked (rc_Id c r)
    \<and> (\<forall>k r'. look t k = Some r' \<and> \<not> rc_Claimed c r' \<and> rc_NextAttemptAt c r' \<le> now \<and> \<not> locked k
         \<longrightarrow> rc_NextAttemptAt c r \<le> rc_NextAttemptAt c r')"
  using find_one[OF assms(1) assms(2)[unfolded claim_select_def]] look_id[OF assms(1)]
  by (auto simp: le_less)

lemma claim_update_ok:
  assumes "ok t" "claim_update c db ctx r t = (Inr n, t')" "look t (rc_Id c r) = Some r"
  shows "ok t' \<and> look t' = (look t)(rc_Id c r \<mapsto> rc_claim c r)"
proof -
  have u: "t_Updates db ctx (\<lambda>x. rc_Id c x = rc_Id c r \<and> True) (rc_claim c) t = (Inr n, t')"
    using assms(2) by (simp add: claim_update_def)
  have "norm r = r" by (rule look_norm[OF assms(1,3)])
  then show ?thesis using updates_at[OF assms(1) u claim_id] assms(3) by (auto simp: norm_claim)
qed

lemma claim_row_some:
  assumes "ok t" "claim_row c db ctx now t = (Inr (Some row), t')"
  shows "\<exists>r. row = rc_claim c r \<and> look t (rc_Id c r) = Some r \<and> \<not> rc_Claimed c r
    \<and> rc_NextAttemptAt c r \<le> now
    \<and> (\<forall>k r'. look t k = Some r' \<and> \<not> rc_Claimed c r' \<and> rc_NextAttemptAt c r' \<le> now
         \<longrightarrow> rc_NextAttemptAt c r \<le> rc_NextAttemptAt c r')
    \<and> ok t' \<and> look t' = (look t)(rc_Id c r \<mapsto> rc_claim c r)"
proof -
  obtain r rs n where f: "claim_select c db (\<lambda>_. False) ctx now t = Inr (r # rs)"
    and u: "claim_update c db ctx r t = (Inr n, t')" and row: "row = rc_claim c r"
    using assms(2) by (auto simp: claim_row_def split: sum.splits list.splits prod.splits)
  from claim_select_some[OF assms(1) f] claim_update_ok[OF assms(1) u] row show ?thesis by blast
qed

lemma claim_row_none:
  assumes "ok t" "claim_row c db ctx now t = (Inr None, t')"
  shows "t' = t \<and> (\<forall>k r. look t k = Some r \<longrightarrow> rc_Claimed c r \<or> now < rc_NextAttemptAt c r)"
proof -
  have f: "claim_select c db (\<lambda>_. False) ctx now t = Inr []" and "t' = t"
    using assms(2) by (auto simp: claim_row_def split: sum.splits list.splits prod.splits)
  with find_one[OF assms(1) f[unfolded claim_select_def]] show ?thesis by fastforce
qed

lemma pgq_Dequeue_cases:
  assumes "pgq_Dequeue c db ctx now seed t = (res, t')"
  shows "case res of Inl e \<Rightarrow> t' = t
    | Inr None \<Rightarrow> claim_row c db ctx now t = (Inr None, t')
    | Inr (Some j) \<Rightarrow> \<exists>row. j = rc_job c row \<and> claim_row c db ctx now t = (Inr (Some row), t')"
  using assms transaction_error transaction_ok
  by (fastforce simp: pgq_Dequeue_def split: prod.splits sum.splits option.splits)

lemma pgq_Complete_ok:
  assumes "ok t" "pgq_Complete c db ctx k t = (None, t')"
  shows "ok t' \<and> look t k \<noteq> None \<and> look t' = (look t)(k := None)"
proof -
  obtain n where d: "t_Delete db ctx (\<lambda>r. rc_Id c r = k \<and> True) t = (Inr n, t')" "n \<noteq> 0"
    using assms(2) by (auto simp: pgq_Complete_def pgq_affected_def split: prod.splits sum.splits if_splits)
  show ?thesis using delete_at[OF assms(1) d(1)] d(2) by auto
qed

lemma pgq_Fail_ok:
  assumes "ok t" "pgq_Fail c db ctx k cause nxt t = (None, t')"
  shows "\<exists>r. ok t' \<and> look t k = Some r
    \<and> look t' = (look t)(k \<mapsto> norm (rc_row c (retry (rc_job c r) cause nxt)))"
proof -
  obtain n where d: "t_Updates db ctx (\<lambda>r. rc_Id c r = k \<and> True) (rc_updates c cause nxt) t = (Inr n, t')" "n \<noteq> 0"
    using assms(2) by (auto simp: pgq_Fail_def pgq_affected_def split: prod.splits sum.splits if_splits)
  show ?thesis using updates_at[OF assms(1) d(1) updates_id] d(2) by (auto simp: updates_row)
qed

lemma pgq_Complete_err:
  assumes "ok t" "pgq_Complete c db ctx k t = (Some e, t')"
  shows "t' = t"
proof -
  obtain res where d: "t_Delete db ctx (\<lambda>r. rc_Id c r = k \<and> True) t = (res, t')"
    using assms(2) by (auto simp: pgq_Complete_def pgq_affected_def split: prod.splits sum.splits if_splits)
  show ?thesis
  proof (cases res)
    case (Inl e')
    then show ?thesis using d delete_err by blast
  next
    case (Inr n)
    then have "n = 0" using assms(2) d
      by (auto simp: pgq_Complete_def pgq_affected_def split: if_splits)
    then show ?thesis using delete_at[OF assms(1) d[unfolded Inr]] by simp
  qed
qed

lemma pgq_Fail_err:
  assumes "ok t" "pgq_Fail c db ctx k cause nxt t = (Some e, t')"
  shows "t' = t"
proof -
  obtain res where d: "t_Updates db ctx (\<lambda>r. rc_Id c r = k \<and> True) (rc_updates c cause nxt) t = (res, t')"
    using assms(2) by (auto simp: pgq_Fail_def pgq_affected_def split: prod.splits sum.splits if_splits)
  show ?thesis
  proof (cases res)
    case (Inl e')
    then show ?thesis using d updates_err by blast
  next
    case (Inr n)
    then have "n = 0" using assms(2) d
      by (auto simp: pgq_Fail_def pgq_affected_def split: if_splits)
    then show ?thesis using updates_at[OF assms(1) d[unfolded Inr] updates_id] by simp
  qed
qed

end

definition pgq_stored :: "('j, 'r) row_codec \<Rightarrow> ('r \<Rightarrow> 'r) \<Rightarrow> 'j \<Rightarrow> 'j" where
  "pgq_stored c norm j = rc_job c (norm (rc_row c j))"

context pg_queue
begin

lemma pgq_Enqueue_ok:
  assumes "ok t" "pgq_Enqueue c jid db ctx j t = (None, t')"
  shows "ok t' \<and> look t (jid j) = None \<and> look t' = (look t)(jid j \<mapsto> norm (rc_row c j))"
proof -
  obtain row where "t_Create db ctx (rc_row c j) t = (Inr row, t')" "jid j \<noteq> []"
    using assms(2) by (auto simp: pgq_Enqueue_def split: if_splits prod.splits sum.splits)
  with create_ok[OF assms(1) this(1)] filled_given[of "rc_row c j" row] show ?thesis
    by (auto simp: row_id)
qed

lemma pgq_Enqueue_err: "pgq_Enqueue c jid db ctx j t = (Some e, t') \<Longrightarrow> t' = t"
  by (auto simp: pgq_Enqueue_def split: if_splits prod.splits sum.splits dest: create_err)

lemma pgq_Dequeue_some:
  assumes "ok t" "pgq_Dequeue c db ctx now seed t = (Inr (Some j), t')"
  shows "\<exists>r. j = rc_job c r \<and> look t (rc_Id c r) = Some r \<and> \<not> rc_Claimed c r
    \<and> rc_NextAttemptAt c r \<le> now
    \<and> (\<forall>k r'. look t k = Some r' \<and> \<not> rc_Claimed c r' \<and> rc_NextAttemptAt c r' \<le> now
         \<longrightarrow> rc_NextAttemptAt c r \<le> rc_NextAttemptAt c r')
    \<and> ok t' \<and> look t' = (look t)(rc_Id c r \<mapsto> rc_claim c r)"
proof -
  obtain row where "j = rc_job c row" "claim_row c db ctx now t = (Inr (Some row), t')"
    using pgq_Dequeue_cases[OF assms(2)] by auto
  with claim_row_some[OF assms(1) this(2)] show ?thesis by (auto simp: claim_keeps)
qed

end

sublocale pg_queue \<subseteq> pq: job_claims "pgq_ops c jid db" init jid due retry "pgq_stored c norm"
  "pgq_pending c look" "pgq_claims c look" ok
proof (unfold_locales, goal_cases)
  case 1 show ?case by (rule new_ok)
next
  case (2 k) show ?case by (simp add: view new_empty)
next
  case (3 k) show ?case by (simp add: view new_empty)
next
  case (4 s k j) then show ?case using look_id by (auto simp: view job_id)
next
  case (5 s k) then show ?case by (auto simp: view split: option.splits)
next
  case 6 show ?case by (rule keeps_retry)
next
  case (7 j) show ?case by (simp add: pgq_stored_def job_id norm_id row_id)
next
  case (8 s ctx j s')
  then have "pgq_Enqueue c jid db ctx j s = (None, s')" by (simp add: pgq_ops_def)
  from pgq_Enqueue_ok[OF 8(1) this] show ?case
    by (auto simp: view fun_eq_iff pgq_stored_def norm_claimed row_unclaimed)
next
  case (9 ctx j s e s') then show ?case using pgq_Enqueue_err by (simp add: pgq_ops_def)
next
  case (10 s ctx now seed j s')
  then have "pgq_Dequeue c db ctx now seed s = (Inr (Some j), s')" by (simp add: pgq_ops_def)
  from pgq_Dequeue_some[OF 10(1) this] obtain r where r: "j = rc_job c r" "look s (rc_Id c r) = Some r"
    "\<not> rc_Claimed c r" "rc_NextAttemptAt c r \<le> now"
    "\<forall>k r'. look s k = Some r' \<and> \<not> rc_Claimed c r' \<and> rc_NextAttemptAt c r' \<le> now
         \<longrightarrow> rc_NextAttemptAt c r \<le> rc_NextAttemptAt c r'"
    "ok s'" "look s' = (look s)(rc_Id c r \<mapsto> rc_claim c r)" by blast
  have "due j \<le> due j'" if "pgq_pending c look s k = Some j'" "\<not> pgq_claims c look s k" "due j' \<le> now" for k j'
    using that r(1,5) by (auto simp: view job_due)
  then show ?case using r(1-4,6,7) by (auto simp: view fun_eq_iff job_id job_due claim_keeps)
next
  case (11 s ctx now seed s')
  then have "claim_row c db ctx now s = (Inr None, s')"
    using pgq_Dequeue_cases[of ctx now seed s "Inr None" s'] by (simp add: pgq_ops_def)
  from claim_row_none[OF 11(1) this] show ?case by (fastforce simp: view job_due)
next
  case (12 ctx now seed s e s')
  then show ?case using pgq_Dequeue_cases[of ctx now seed s "Inl e" s'] by (simp add: pgq_ops_def)
next
  case (13 s ctx k s')
  then have "pgq_Complete c db ctx k s = (None, s')" by (simp add: pgq_ops_def)
  from pgq_Complete_ok[OF 13(1) this] show ?case by (auto simp: view fun_eq_iff)
next
  case (14 s ctx k e s') then show ?case using pgq_Complete_err[of s ctx k e s'] by (simp add: pgq_ops_def)
next
  case (15 s ctx k cause nxt s')
  then have "pgq_Fail c db ctx k cause nxt s = (None, s')" by (simp add: pgq_ops_def)
  from pgq_Fail_ok[OF 15(1) this] show ?case
    by (auto simp: view fun_eq_iff pgq_stored_def norm_claimed row_unclaimed)
next
  case (16 s ctx k cause nxt e s')
  then show ?case using pgq_Fail_err[of s ctx k cause nxt e s'] by (simp add: pgq_ops_def)
qed

subsection \<open>PostgresBackend: the queue of outbound jobs\<close>

text \<open>A \<open>time.Time\<close> in a \<open>timestamptz\<close> column: microseconds.\<close>

definition pg_time :: "time \<Rightarrow> time" where
  "pg_time t = t div 1000 * 1000"

lemma pg_time_idem [simp]: "pg_time (pg_time t) = pg_time t"
  by (simp add: pg_time_def)

lemma pg_time_le: "pg_time t \<le> t" "t < pg_time t + 1000"
  by (simp_all add: pg_time_def)

record job_row =
  jr_Id :: string
  jr_Vhost :: string
  jr_From :: string
  jr_To :: string
  jr_BodyRef :: string
  jr_Attempts :: int
  jr_NextAttemptAt :: time
  jr_LastError :: string
  jr_Claimed :: bool
  jr_CorrelationID :: string

definition job_to_row :: "job \<Rightarrow> job_row" where
  "job_to_row job = \<lparr>jr_Id = job_ID job, jr_Vhost = job_Vhost job, jr_From = job_From job,
     jr_To = job_To job, jr_BodyRef = job_BodyRef job, jr_Attempts = job_Attempts job,
     jr_NextAttemptAt = job_NextAttemptAt job, jr_LastError = job_LastError job,
     jr_Claimed = False, jr_CorrelationID = job_CorrelationID job\<rparr>"

definition job_from_row :: "job_row \<Rightarrow> job" where
  "job_from_row r = \<lparr>job_ID = jr_Id r, job_Vhost = jr_Vhost r, job_From = jr_From r,
     job_To = jr_To r, job_BodyRef = jr_BodyRef r, job_Attempts = jr_Attempts r,
     job_NextAttemptAt = jr_NextAttemptAt r, job_LastError = jr_LastError r,
     job_CorrelationID = jr_CorrelationID r\<rparr>"

definition job_fail_updates :: "string option \<Rightarrow> time \<Rightarrow> job_row \<Rightarrow> job_row" where
  "job_fail_updates cause nextAttemptAt r =
     (let r = r\<lparr>jr_Claimed := False, jr_NextAttemptAt := nextAttemptAt, jr_Attempts := jr_Attempts r + 1\<rparr>
      in case cause of None \<Rightarrow> r | Some e \<Rightarrow> r\<lparr>jr_LastError := e\<rparr>)"

definition job_codec :: "(job, job_row) row_codec" where
  "job_codec = \<lparr>rc_row = job_to_row, rc_job = job_from_row, rc_Id = jr_Id, rc_Claimed = jr_Claimed,
     rc_NextAttemptAt = jr_NextAttemptAt, rc_claim = (\<lambda>r. r\<lparr>jr_Claimed := True\<rparr>),
     rc_updates = job_fail_updates, rc_required = ''queue: job ID is required'',
     rc_enqueue = ''queue: enqueue job'', rc_dequeue = ''queue: dequeue'',
     rc_complete = ''queue: complete job'', rc_fail = ''queue: fail job'', rc_what = ''queue: job''\<rparr>"

definition PostgresBackend_Enqueue :: "(job_row, 't) sql_ops \<Rightarrow> gerr option \<Rightarrow> job \<Rightarrow> 't \<Rightarrow> gerr option \<times> 't" where
  "PostgresBackend_Enqueue db = pgq_Enqueue job_codec job_ID db"

definition PostgresBackend_Dequeue :: "(job_row, 't) sql_ops \<Rightarrow> gerr option \<Rightarrow> time \<Rightarrow> nat \<Rightarrow> 't
    \<Rightarrow> (gerr + job option) \<times> 't" where
  "PostgresBackend_Dequeue db = pgq_Dequeue job_codec db"

definition PostgresBackend_Count :: "(job_row, 't) sql_ops \<Rightarrow> gerr option \<Rightarrow> 't \<Rightarrow> gerr + nat" where
  "PostgresBackend_Count db ctx t =
     (case t_Count db ctx (\<lambda>r. True) t of Inl e \<Rightarrow> Inl (ErrWrap ''queue: count'' e) | Inr n \<Rightarrow> Inr n)"

definition PostgresBackend_Complete :: "(job_row, 't) sql_ops \<Rightarrow> gerr option \<Rightarrow> string \<Rightarrow> 't \<Rightarrow> gerr option \<times> 't" where
  "PostgresBackend_Complete db = pgq_Complete job_codec db"

definition PostgresBackend_Fail :: "(job_row, 't) sql_ops \<Rightarrow> gerr option \<Rightarrow> string \<Rightarrow> string option \<Rightarrow> time
    \<Rightarrow> 't \<Rightarrow> gerr option \<times> 't" where
  "PostgresBackend_Fail db = pgq_Fail job_codec db"

definition PostgresBackend_ops :: "(job_row, 't) sql_ops \<Rightarrow> (job, 't) queue_ops" where
  "PostgresBackend_ops db = \<lparr>q_Enqueue = PostgresBackend_Enqueue db, q_Dequeue = PostgresBackend_Dequeue db,
     q_Complete = PostgresBackend_Complete db, q_Fail = PostgresBackend_Fail db\<rparr>"

definition job_row_norm :: "job_row \<Rightarrow> job_row" where
  "job_row_norm r = r\<lparr>jr_NextAttemptAt := pg_time (jr_NextAttemptAt r)\<rparr>"

definition job_row_filled :: "job_row \<Rightarrow> job_row \<Rightarrow> bool" where
  "job_row_filled r r' \<longleftrightarrow> jr_Id r' \<noteq> [] \<and> r' = (if jr_Id r = [] then r\<lparr>jr_Id := jr_Id r'\<rparr> else r)"

text \<open>The table \<open>queue_jobs\<close>: the laws of \<open>sql_table\<close> at its row type.\<close>

definition queue_jobs_table :: "(job_row, 't) sql_ops \<Rightarrow> ('t \<Rightarrow> bool) \<Rightarrow> ('t \<Rightarrow> string \<Rightarrow> job_row option) \<Rightarrow> bool" where
  "queue_jobs_table db ok look \<longleftrightarrow> sql_table db ok look jr_Id job_row_filled (\<lambda>_ _. False) job_row_norm"

interpretation jrc: row_coding job_codec job_ID job_NextAttemptAt job_retry job_row_norm
  by unfold_locales (auto simp: job_codec_def job_from_row_def job_to_row_def job_fail_updates_def
      job_retry_def job_row_norm_def Let_def split: option.splits)

lemma PostgresBackend_ops_pgq: "PostgresBackend_ops db = pgq_ops job_codec job_ID db"
  by (simp add: PostgresBackend_ops_def pgq_ops_def PostgresBackend_Enqueue_def
      PostgresBackend_Dequeue_def PostgresBackend_Complete_def PostgresBackend_Fail_def)

lemma PostgresBackend_pg_queue:
  assumes "queue_jobs_table db ok look" "ok db0" "look db0 = Map.empty"
  shows "pg_queue job_codec job_ID job_NextAttemptAt job_retry job_row_norm db ok look
    job_row_filled (\<lambda>_ _. False) db0"
proof -
  have "sql_table db ok look (rc_Id job_codec) job_row_filled (\<lambda>_ _. False) job_row_norm"
    using assms(1) by (simp add: queue_jobs_table_def job_codec_def)
  then show ?thesis
    using assms(2,3) jrc.row_coding_axioms
    by (auto simp: pg_queue_def pg_queue_axioms_def job_row_filled_def job_codec_def)
qed

subsection \<open>Workers whose statements interleave\<close>

text \<open>
  The workers of several processes over one table, one statement at a time. A worker that runs
  \<open>Dequeue\<close> has a transaction open between its \<open>SELECT\<close> and its commit: \<open>tx w\<close> is the row it has
  locked. The \<open>SELECT\<close> of another worker passes over that row; a statement that writes the row
  waits until the transaction has ended.
\<close>

definition row_locked :: "('j, 'r) row_codec \<Rightarrow> (nat \<Rightarrow> 'r option) \<Rightarrow> string \<Rightarrow> bool" where
  "row_locked c tx k \<longleftrightarrow> (\<exists>w r. tx w = Some r \<and> rc_Id c r = k)"

inductive pg_step :: "('j, 'r) row_codec \<Rightarrow> ('j \<Rightarrow> string) \<Rightarrow> ('r, 't) sql_ops
    \<Rightarrow> 't \<times> (nat \<Rightarrow> 'r option) \<times> (nat \<Rightarrow> 'j option) \<Rightarrow> 't \<times> (nat \<Rightarrow> 'r option) \<times> (nat \<Rightarrow> 'j option) \<Rightarrow> bool"
  for c jid db where
  pg_enqueue: "pgq_Enqueue c jid db ctx j t = (e, t') \<Longrightarrow> pg_step c jid db (t, tx, held) (t', tx, held)"
| pg_select: "tx w = None \<Longrightarrow> held w = None \<Longrightarrow> t_Begin db ctx t = None
    \<Longrightarrow> claim_select c db (row_locked c tx) ctx now t = Inr (r # rs)
    \<Longrightarrow> pg_step c jid db (t, tx, held) (t, tx(w := Some r), held)"
| pg_commit: "tx w = Some r \<Longrightarrow> claim_update c db ctx r t = (Inr n, t') \<Longrightarrow> t_Commit db ctx t' = None
    \<Longrightarrow> pg_step c jid db (t, tx, held) (t', tx(w := None), held(w := Some (rc_job c (rc_claim c r))))"
| pg_rollback: "tx w = Some r \<Longrightarrow> pg_step c jid db (t, tx, held) (t, tx(w := None), held)"
| pg_complete: "held w = Some j \<Longrightarrow> \<not> row_locked c tx (jid j) \<Longrightarrow> pgq_Complete c db ctx (jid j) t = (e, t')
    \<Longrightarrow> pg_step c jid db (t, tx, held) (t', tx, held(w := None))"
| pg_fail: "held w = Some j \<Longrightarrow> \<not> row_locked c tx (jid j) \<Longrightarrow> pgq_Fail c db ctx (jid j) cause nxt t = (e, t')
    \<Longrightarrow> pg_step c jid db (t, tx, held) (t', tx, held(w := None))"
| pg_drop: "held w = Some j \<Longrightarrow> pg_step c jid db (t, tx, held) (t, tx, held(w := None))"

inductive pg_reachable :: "('j, 'r) row_codec \<Rightarrow> ('j \<Rightarrow> string) \<Rightarrow> ('r, 't) sql_ops \<Rightarrow> 't
    \<Rightarrow> 't \<times> (nat \<Rightarrow> 'r option) \<times> (nat \<Rightarrow> 'j option) \<Rightarrow> bool"
  for c jid db db0 where
  pg_start: "pg_reachable c jid db db0 (db0, \<lambda>_. None, \<lambda>_. None)"
| pg_next: "pg_reachable c jid db db0 s \<Longrightarrow> pg_step c jid db s s' \<Longrightarrow> pg_reachable c jid db db0 s'"

inductive_cases pg_stepE: "pg_step c jid db (t, tx, held) s'"

lemmas pg_step_cases = pg_stepE
  [consumes 1, case_names enqueue select commit rollback complete fail drop]

context pg_queue
begin

text \<open>
  The invariant: a locked row is live, unclaimed and locked once; a held job is claimed and held
  once.
\<close>

definition locks_ok :: "'t \<Rightarrow> (nat \<Rightarrow> 'r option) \<Rightarrow> bool" where
  "locks_ok t tx \<longleftrightarrow> (\<forall>w r. tx w = Some r \<longrightarrow> look t (rc_Id c r) = Some r \<and> \<not> rc_Claimed c r)
     \<and> (\<forall>w w' r r'. tx w = Some r \<and> tx w' = Some r' \<and> rc_Id c r = rc_Id c r' \<longrightarrow> w = w')"

definition holds_ok :: "'t \<Rightarrow> (nat \<Rightarrow> 'j option) \<Rightarrow> bool" where
  "holds_ok t held \<longleftrightarrow> (\<forall>w j. held w = Some j \<longrightarrow> pgq_claims c look t (jid j))
     \<and> (\<forall>w w' j j'. held w = Some j \<and> held w' = Some j' \<and> jid j = jid j' \<longrightarrow> w = w')"

definition pg_inv :: "'t \<times> (nat \<Rightarrow> 'r option) \<times> (nat \<Rightarrow> 'j option) \<Rightarrow> bool" where
  "pg_inv = (\<lambda>(t, tx, held). ok t \<and> locks_ok t tx \<and> holds_ok t held)"

lemma locks_frame:
  assumes "locks_ok t tx" "\<And>k. row_locked c tx k \<Longrightarrow> look t' k = look t k"
  shows "locks_ok t' tx"
  using assms unfolding locks_ok_def row_locked_def by metis

lemma locks_take:
  assumes "locks_ok t tx" "look t (rc_Id c r) = Some r" "\<not> rc_Claimed c r" "\<not> row_locked c tx (rc_Id c r)"
  shows "locks_ok t (tx(w := Some r))"
proof -
  have "rc_Id c r' \<noteq> rc_Id c r" if "tx w' = Some r'" for w' r'
    using that assms(4) by (auto simp: row_locked_def)
  then have "w1 = w2" if "(tx(w := Some r)) w1 = Some r1" "(tx(w := Some r)) w2 = Some r2"
      "rc_Id c r1 = rc_Id c r2" for w1 w2 r1 r2
    using that assms(1) unfolding locks_ok_def by (metis fun_upd_apply option.inject)
  moreover have "look t (rc_Id c r1) = Some r1 \<and> \<not> rc_Claimed c r1"
    if "(tx(w := Some r)) w1 = Some r1" for w1 r1
    using that assms(1-3) unfolding locks_ok_def by (metis fun_upd_apply option.inject)
  ultimately show ?thesis unfolding locks_ok_def by blast
qed

lemma holds_take:
  assumes "holds_ok t held" "\<And>w' j'. held w' = Some j' \<Longrightarrow> jid j' \<noteq> jid j"
    "pgq_claims c look t' = (pgq_claims c look t)(jid j := True)"
  shows "holds_ok t' (held(w := Some j))"
proof -
  have "w1 = w2" if "(held(w := Some j)) w1 = Some j1" "(held(w := Some j)) w2 = Some j2" "jid j1 = jid j2"
    for w1 w2 j1 j2
    using that assms(1,2) unfolding holds_ok_def by (metis fun_upd_apply option.inject)
  moreover have "pgq_claims c look t' (jid j1)" if "(held(w := Some j)) w1 = Some j1" for w1 j1
    using that assms(1,3) unfolding holds_ok_def by (metis fun_upd_apply option.inject)
  ultimately show ?thesis unfolding holds_ok_def by blast
qed

lemma locks_drop: "locks_ok t tx \<Longrightarrow> locks_ok t (tx(w := None))"
  unfolding locks_ok_def by (metis fun_upd_apply option.distinct(1))

lemma holds_drop:
  assumes "holds_ok t held" "held w = Some j"
    "\<And>k. k \<noteq> jid j \<Longrightarrow> pgq_claims c look t' k = pgq_claims c look t k"
  shows "holds_ok t' (held(w := None))"
  using assms unfolding holds_ok_def by (metis fun_upd_apply option.distinct(1))

lemma pg_inv_select:
  assumes "pg_inv (t, tx, held)" "claim_select c db (row_locked c tx) ctx now t = Inr (r # rs)"
  shows "pg_inv (t, tx(w := Some r), held)"
proof -
  have i: "ok t" "locks_ok t tx" using assms(1) by (auto simp: pg_inv_def)
  from claim_select_some[OF i(1) assms(2)]
  have r: "look t (rc_Id c r) = Some r" "\<not> rc_Claimed c r" "\<not> row_locked c tx (rc_Id c r)" by auto
  then have "locks_ok t (tx(w := Some r))" by (intro locks_take[OF i(2)])
  then show ?thesis using assms(1) by (simp add: pg_inv_def)
qed

lemma pg_inv_commit:
  assumes "pg_inv (t, tx, held)" "tx w = Some r" "claim_update c db ctx r t = (Inr n, t')"
  shows "pg_inv (t', tx(w := None), held(w := Some (rc_job c (rc_claim c r))))"
proof -
  have i: "ok t" "locks_ok t tx" "holds_ok t held" using assms(1) by (auto simp: pg_inv_def)
  have r: "look t (rc_Id c r) = Some r" "\<not> rc_Claimed c r" using i(2) assms(2) by (auto simp: locks_ok_def)
  note u = claim_update_ok[OF i(1) assms(3) r(1)]
  have "\<not> row_locked c (tx(w := None)) (rc_Id c r)"
    using i(2) assms(2) unfolding row_locked_def locks_ok_def by (metis fun_upd_apply option.distinct(1))
  then have "locks_ok t' (tx(w := None))"
    using locks_frame[OF locks_drop[OF i(2)], of w t'] u by (metis fun_upd_apply)
  moreover have "jid j \<noteq> rc_Id c r" if "held w' = Some j" for w' j
    using that i(3) r unfolding holds_ok_def by (auto simp: pgq_claims_def split: option.splits)
  then have "holds_ok t' (held(w := Some (rc_job c (rc_claim c r))))"
    using u by (intro holds_take[OF i(3)]) (auto simp: pgq_claims_def claim_keeps job_id fun_eq_iff)
  ultimately show ?thesis using u by (simp add: pg_inv_def)
qed

lemma pg_inv_release:
  assumes "pg_inv (t, tx, held)" "held w = Some j" "\<not> row_locked c tx (jid j)" "ok t'"
    "\<And>k. k \<noteq> jid j \<Longrightarrow> look t' k = look t k"
  shows "pg_inv (t', tx, held(w := None))"
proof -
  have i: "locks_ok t tx" "holds_ok t held" using assms(1) by (auto simp: pg_inv_def)
  have "locks_ok t' tx" using locks_frame[OF i(1)] assms(3,5) by metis
  moreover have "holds_ok t' (held(w := None))"
    using holds_drop[OF i(2) assms(2)] assms(5) by (simp add: pgq_claims_def)
  ultimately show ?thesis using assms(4) by (simp add: pg_inv_def)
qed

lemma pg_inv_step:
  assumes "pg_step c jid db (t, tx, held) s'" "pg_inv (t, tx, held)"
  shows "pg_inv s'"
  using assms(1)
proof (cases rule: pg_step_cases)
  case (enqueue ctx j e t')
  show ?thesis
  proof (cases e)
    case None
    have i: "ok t" "locks_ok t tx" "holds_ok t held" using assms(2) by (auto simp: pg_inv_def)
    note n = pgq_Enqueue_ok[OF i(1) enqueue(2)[unfolded None]]
    then have "look t' k = look t k" if "row_locked c tx k" for k
      using that i(2) unfolding row_locked_def locks_ok_def by (metis fun_upd_apply option.distinct(1))
    moreover have "pgq_claims c look t' = pgq_claims c look t"
      using n by (auto simp: pgq_claims_def fun_eq_iff norm_claimed row_unclaimed)
    ultimately show ?thesis
      using i n enqueue(1) locks_frame[OF i(2)] by (auto simp: pg_inv_def holds_ok_def)
  next
    case (Some x)
    then show ?thesis using pgq_Enqueue_err enqueue assms(2) by blast
  qed
next
  case (select w ctx now r rs)
  then show ?thesis using pg_inv_select assms(2) by blast
next
  case (commit w r ctx n t')
  then show ?thesis using pg_inv_commit assms(2) by blast
next
  case (rollback w r)
  then show ?thesis using locks_drop assms(2) by (simp add: pg_inv_def)
next
  case (complete w j ctx e t')
  have "ok t" using assms(2) by (simp add: pg_inv_def)
  then have "ok t' \<and> (\<forall>k. k \<noteq> jid j \<longrightarrow> look t' k = look t k)"
    using complete(4) pgq_Complete_ok[of t ctx "jid j" t'] pgq_Complete_err[of t ctx "jid j" _ t']
    by (cases e) auto
  then show ?thesis using pg_inv_release[OF assms(2) complete(2,3)] complete(1) by blast
next
  case (fail w j ctx cause nxt e t')
  have "ok t" using assms(2) by (simp add: pg_inv_def)
  then have "ok t' \<and> (\<forall>k. k \<noteq> jid j \<longrightarrow> look t' k = look t k)"
    using fail(4) pgq_Fail_ok[of t ctx "jid j" cause nxt t'] pgq_Fail_err[of t ctx "jid j" cause nxt _ t']
    by (cases e) auto
  then show ?thesis using pg_inv_release[OF assms(2) fail(2,3)] fail(1) by blast
next
  case (drop w j)
  then show ?thesis using holds_drop[of t held w j t] assms(2) by (auto simp: pg_inv_def)
qed

lemma pg_inv_reachable: "pg_reachable c jid db init s \<Longrightarrow> pg_inv s"
proof (induction rule: pg_reachable.induct)
  case pg_start
  show ?case by (simp add: pg_inv_def locks_ok_def holds_ok_def new_ok)
next
  case (pg_next s s')
  then show ?case using pg_inv_step by (cases s) blast
qed

lemma pg_exclusive:
  assumes "pg_reachable c jid db init (t, tx, held)" "held w = Some j" "w \<noteq> w'"
  shows "(\<forall>j'. held w' = Some j' \<longrightarrow> jid j' \<noteq> jid j) \<and> pgq_claims c look t (jid j)
    \<and> \<not> row_locked c tx (jid j)"
proof -
  have i: "locks_ok t tx" "holds_ok t held" using pg_inv_reachable[OF assms(1)] by (auto simp: pg_inv_def)
  have claimed: "pgq_claims c look t (jid j)" using i(2) assms(2) by (simp add: holds_ok_def)
  then have "\<not> row_locked c tx (jid j)"
    using i(1) unfolding row_locked_def locks_ok_def pgq_claims_def by (metis option.simps(5))
  moreover have "jid j' \<noteq> jid j" if "held w' = Some j'" for j'
    using that i(2) assms(2,3) unfolding holds_ok_def by metis
  ultimately show ?thesis using claimed by blast
qed

text \<open>A claim whose worker is gone stays: nothing but its holder releases it.\<close>

definition orphaned :: "string \<Rightarrow> 't \<times> (nat \<Rightarrow> 'r option) \<times> (nat \<Rightarrow> 'j option) \<Rightarrow> bool" where
  "orphaned k = (\<lambda>(t, tx, held). pgq_claims c look t k \<and> (\<forall>w j. held w = Some j \<longrightarrow> jid j \<noteq> k))"

lemma orphaned_step:
  assumes "pg_step c jid db (t, tx, held) s'" "pg_inv (t, tx, held)" "orphaned k (t, tx, held)"
  shows "orphaned k s'"
proof -
  have i: "ok t" "locks_ok t tx" using assms(2) by (auto simp: pg_inv_def)
  have o: "pgq_claims c look t k" "\<And>w j. held w = Some j \<Longrightarrow> jid j \<noteq> k"
    using assms(3) by (auto simp: orphaned_def)
  have keep: "pgq_claims c look t' k" if "look t' k = look t k" for t'
    using that o(1) by (simp add: pgq_claims_def)
  have drop: "(held(w := None)) w' = Some j \<Longrightarrow> jid j \<noteq> k" for w w' j
    using o(2) by (metis fun_upd_apply option.distinct(1))
  from assms(1) show ?thesis
  proof (cases rule: pg_step_cases)
    case (enqueue ctx j e t')
    have "look t k \<noteq> None" using o(1) by (auto simp: pgq_claims_def split: option.splits)
    then have "look t' k = look t k"
      using enqueue(2) pgq_Enqueue_ok[OF i(1), of ctx j t'] pgq_Enqueue_err[of ctx j t _ t'] by (cases e) auto
    then show ?thesis using keep o(2) enqueue(1) by (auto simp: orphaned_def)
  next
    case (commit w r ctx n t')
    have r: "look t (rc_Id c r) = Some r" "\<not> rc_Claimed c r" using i(2) commit(2) by (auto simp: locks_ok_def)
    then have "rc_Id c r \<noteq> k" using o(1) by (auto simp: pgq_claims_def)
    then show ?thesis using keep claim_update_ok[OF i(1) commit(3) r(1)] o(2) commit(1)
      by (auto simp: orphaned_def claim_keeps job_id)
  next
    case (complete w j ctx e t')
    have "jid j \<noteq> k" using o(2) complete(2) by blast
    then have "look t' k = look t k"
      using complete(4) pgq_Complete_ok[OF i(1), of ctx "jid j" t'] pgq_Complete_err[OF i(1), of ctx "jid j" _ t']
      by (cases e) auto
    then show ?thesis using keep drop complete(1) by (auto simp: orphaned_def)
  next
    case (fail w j ctx cause nxt e t')
    have "jid j \<noteq> k" using o(2) fail(2) by blast
    then have "look t' k = look t k"
      using fail(4) pgq_Fail_ok[OF i(1), of ctx "jid j" cause nxt t'] pgq_Fail_err[OF i(1), of ctx "jid j" cause nxt _ t']
      by (cases e) auto
    then show ?thesis using keep drop fail(1) by (auto simp: orphaned_def)
  qed (use o drop in \<open>auto simp: orphaned_def\<close>)
qed

lemma orphaned_forever:
  assumes "pg_reachable c jid db init s" "orphaned k s" "(pg_step c jid db)\<^sup>*\<^sup>* s s'"
  shows "orphaned k s'"
proof -
  from assms(3) have "pg_reachable c jid db init s' \<and> orphaned k s'"
  proof (induction rule: rtranclp_induct)
    case (step y z)
    obtain t tx held where y: "y = (t, tx, held)" by (metis prod_cases3)
    have "pg_inv y" using step.IH pg_inv_reachable by simp
    then have "orphaned k z" using orphaned_step[of t tx held z k] step y by simp
    then show ?case using step pg_next[of c jid db init y z] by simp
  qed (use assms(1,2) in simp)
  then show ?thesis by simp
qed

end

subsection \<open>PostgresEventQueue: the queue of webhook deliveries\<close>

record delivery_job_row =
  djr_Id :: string
  djr_Vhost :: string
  djr_SubscriptionID :: string
  djr_URL :: string
  djr_Secret :: string
  djr_EventID :: string
  djr_EventType :: string
  djr_Payload :: bytes
  djr_Attempts :: int
  djr_NextAttemptAt :: time
  djr_LastError :: string
  djr_Claimed :: bool
  djr_CorrelationID :: string

definition deliveryJobToRow :: "delivery_job \<Rightarrow> delivery_job_row" where
  "deliveryJobToRow job = \<lparr>djr_Id = dj_ID job, djr_Vhost = dj_Vhost job,
     djr_SubscriptionID = dj_SubscriptionID job, djr_URL = dj_URL job, djr_Secret = dj_Secret job,
     djr_EventID = dj_EventID job, djr_EventType = dj_EventType job, djr_Payload = dj_Payload job,
     djr_Attempts = dj_Attempts job, djr_NextAttemptAt = dj_NextAttemptAt job,
     djr_LastError = dj_LastError job, djr_Claimed = False, djr_CorrelationID = dj_CorrelationID job\<rparr>"

definition deliveryJobFromRow :: "delivery_job_row \<Rightarrow> delivery_job" where
  "deliveryJobFromRow r = \<lparr>dj_ID = djr_Id r, dj_Vhost = djr_Vhost r,
     dj_SubscriptionID = djr_SubscriptionID r, dj_URL = djr_URL r, dj_Secret = djr_Secret r,
     dj_EventID = djr_EventID r, dj_EventType = djr_EventType r, dj_Payload = djr_Payload r,
     dj_Attempts = djr_Attempts r, dj_NextAttemptAt = djr_NextAttemptAt r,
     dj_LastError = djr_LastError r, dj_CorrelationID = djr_CorrelationID r\<rparr>"

definition delivery_fail_updates :: "string option \<Rightarrow> time \<Rightarrow> delivery_job_row \<Rightarrow> delivery_job_row" where
  "delivery_fail_updates cause nextAttemptAt r =
     (let r = r\<lparr>djr_Claimed := False, djr_NextAttemptAt := nextAttemptAt, djr_Attempts := djr_Attempts r + 1\<rparr>
      in case cause of None \<Rightarrow> r | Some e \<Rightarrow> r\<lparr>djr_LastError := e\<rparr>)"

definition delivery_codec :: "(delivery_job, delivery_job_row) row_codec" where
  "delivery_codec = \<lparr>rc_row = deliveryJobToRow, rc_job = deliveryJobFromRow, rc_Id = djr_Id,
     rc_Claimed = djr_Claimed, rc_NextAttemptAt = djr_NextAttemptAt,
     rc_claim = (\<lambda>r. r\<lparr>djr_Claimed := True\<rparr>), rc_updates = delivery_fail_updates,
     rc_required = ''webhook: delivery job ID is required'', rc_enqueue = ''webhook: enqueue delivery'',
     rc_dequeue = ''webhook: dequeue delivery'', rc_complete = ''webhook: complete delivery'',
     rc_fail = ''webhook: fail delivery'', rc_what = ''webhook: delivery job''\<rparr>"

definition PostgresEventQueue_Enqueue ::
  "(delivery_job_row, 't) sql_ops \<Rightarrow> gerr option \<Rightarrow> delivery_job \<Rightarrow> 't \<Rightarrow> gerr option \<times> 't" where
  "PostgresEventQueue_Enqueue db = pgq_Enqueue delivery_codec dj_ID db"

definition PostgresEventQueue_Dequeue ::
  "(delivery_job_row, 't) sql_ops \<Rightarrow> gerr option \<Rightarrow> time \<Rightarrow> nat \<Rightarrow> 't \<Rightarrow> (gerr + delivery_job option) \<times> 't" where
  "PostgresEventQueue_Dequeue db = pgq_Dequeue delivery_codec db"

definition PostgresEventQueue_Complete ::
  "(delivery_job_row, 't) sql_ops \<Rightarrow> gerr option \<Rightarrow> string \<Rightarrow> 't \<Rightarrow> gerr option \<times> 't" where
  "PostgresEventQueue_Complete db = pgq_Complete delivery_codec db"

definition PostgresEventQueue_Fail ::
  "(delivery_job_row, 't) sql_ops \<Rightarrow> gerr option \<Rightarrow> string \<Rightarrow> string option \<Rightarrow> time \<Rightarrow> 't \<Rightarrow> gerr option \<times> 't" where
  "PostgresEventQueue_Fail db = pgq_Fail delivery_codec db"

definition PostgresEventQueue_ops :: "(delivery_job_row, 't) sql_ops \<Rightarrow> (delivery_job, 't) queue_ops" where
  "PostgresEventQueue_ops db = \<lparr>q_Enqueue = PostgresEventQueue_Enqueue db,
     q_Dequeue = PostgresEventQueue_Dequeue db, q_Complete = PostgresEventQueue_Complete db,
     q_Fail = PostgresEventQueue_Fail db\<rparr>"

definition delivery_row_norm :: "delivery_job_row \<Rightarrow> delivery_job_row" where
  "delivery_row_norm r = r\<lparr>djr_NextAttemptAt := pg_time (djr_NextAttemptAt r)\<rparr>"

interpretation drc: row_coding delivery_codec dj_ID dj_NextAttemptAt dj_retry delivery_row_norm
  by unfold_locales (auto simp: delivery_codec_def deliveryJobFromRow_def deliveryJobToRow_def
      delivery_fail_updates_def dj_retry_def delivery_row_norm_def Let_def split: option.splits)

subsection \<open>A Postgres queue behaves as the in-memory queue\<close>

lemma dequeue_scan_keeps:
  assumes "\<And>k x. (k, x) \<in> set xs \<Longrightarrow> \<not> gomap_bool cl k \<Longrightarrow> due x \<le> now \<Longrightarrow> due j \<le> due x"
  shows "dequeue_scan due cl now xs (Some j) = Some j"
  using assms
proof (induction xs)
  case (Cons p xs)
  obtain k x where p: "p = (k, x)" by fastforce
  have "\<not> due x < due j" if "\<not> gomap_bool cl k" "due x \<le> now"
    using Cons.prems[of k x] p that by auto
  then show ?case using Cons p by auto
qed simp

text \<open>Every least due job is what some iteration order of the in-memory queue hands out.\<close>

lemma mem_Dequeue_any_least:
  assumes "mq_inv jid m" "mq_pending m (jid j) = Some j" "\<not> mq_claims m (jid j)" "due j \<le> now"
    "\<And>k j'. mq_pending m k = Some j' \<Longrightarrow> \<not> mq_claims m k \<Longrightarrow> due j' \<le> now \<Longrightarrow> due j \<le> due j'"
  shows "\<exists>seed. mem_Dequeue jid due None now seed m
    = (Inr (Some j), m\<lparr>mq_claimed := AList.update (jid j) True (mq_claimed m)\<rparr>)"
proof -
  let ?p = "(jid j, j)"
  have "?p \<in> set (mq_jobs m)" using assms(1,2) mq_inv_entry by (metis mq_pending_def)
  then have "mset (?p # remove1 ?p (mq_jobs m)) = mset (mq_jobs m)" by simp
  then obtain seed where s: "map_range seed (mq_jobs m) = ?p # remove1 ?p (mq_jobs m)"
    using map_range_complete by blast
  have "due j \<le> due x" if "(k, x) \<in> set (remove1 ?p (mq_jobs m))" "\<not> gomap_bool (mq_claimed m) k"
      "due x \<le> now" for k x
  proof -
    have "(k, x) \<in> set (mq_jobs m)" using that(1) set_remove1_subset by fast
    then show ?thesis using assms(1,5) that mq_inv_entry by (metis mq_pending_def mq_claims_def)
  qed
  then have "dequeue_scan due (mq_claimed m) now (map_range seed (mq_jobs m)) None = Some j"
    using s assms(3,4) dequeue_scan_keeps[of "remove1 ?p (mq_jobs m)" "mq_claimed m" due now j]
    by (auto simp: mq_claims_def)
  then show ?thesis by (intro exI[of _ seed]) (simp add: mem_Dequeue_def)
qed

text \<open>A sequence of calls on a queue, each with its context and iteration order.\<close>

datatype 'j queue_call =
    CallEnqueue 'j
  | CallDequeue time
  | CallComplete string
  | CallFail string "string option" time

datatype 'j queue_result =
    ResErr "gerr option"
  | ResJob "gerr + 'j option"

fun call_queue :: "('j, 's) queue_ops \<Rightarrow> gerr option \<Rightarrow> nat \<Rightarrow> 'j queue_call \<Rightarrow> 's \<Rightarrow> 'j queue_result \<times> 's" where
  "call_queue ops ctx seed (CallEnqueue j) s = (case q_Enqueue ops ctx j s of (e, s') \<Rightarrow> (ResErr e, s'))"
| "call_queue ops ctx seed (CallDequeue now) s = (case q_Dequeue ops ctx now seed s of (r, s') \<Rightarrow> (ResJob r, s'))"
| "call_queue ops ctx seed (CallComplete k) s = (case q_Complete ops ctx k s of (e, s') \<Rightarrow> (ResErr e, s'))"
| "call_queue ops ctx seed (CallFail k cause nxt) s =
     (case q_Fail ops ctx k cause nxt s of (e, s') \<Rightarrow> (ResErr e, s'))"

fun queue_run :: "('j, 's) queue_ops \<Rightarrow> (gerr option \<times> nat \<times> 'j queue_call) list \<Rightarrow> 's
    \<Rightarrow> 'j queue_result list \<times> 's" where
  "queue_run ops [] s = ([], s)"
| "queue_run ops ((ctx, seed, x) # xs) s =
     (case call_queue ops ctx seed x s of (r, s') \<Rightarrow>
        (case queue_run ops xs s' of (rs, s'') \<Rightarrow> (r # rs, s'')))"

text \<open>
  A result the database had no part in: no failed statement is wrapped in it. And what the
  column keeps of the times in a call: microseconds.
\<close>

fun settled :: "'j queue_result \<Rightarrow> bool" where
  "settled (ResErr e) = (case e of Some (ErrWrap m e') \<Rightarrow> False | _ \<Rightarrow> True)"
| "settled (ResJob r) = (case r of Inl e \<Rightarrow> False | Inr x \<Rightarrow> True)"

fun stored_call :: "job queue_call \<Rightarrow> job queue_call" where
  "stored_call (CallEnqueue j) = CallEnqueue (j\<lparr>job_NextAttemptAt := job_NextAttemptAt j div 1000 * 1000\<rparr>)"
| "stored_call (CallDequeue now) = CallDequeue now"
| "stored_call (CallComplete k) = CallComplete k"
| "stored_call (CallFail k cause nxt) = CallFail k cause (nxt div 1000 * 1000)"

definition same_queue :: "('t \<Rightarrow> string \<Rightarrow> job_row option) \<Rightarrow> 't \<Rightarrow> memory_backend \<Rightarrow> bool" where
  "same_queue look t m \<longleftrightarrow> mq_inv job_ID m \<and> pgq_pending job_codec look t = mq_pending m
     \<and> pgq_claims job_codec look t = mq_claims m"

lemma stored_job: "pgq_stored job_codec job_row_norm j = j\<lparr>job_NextAttemptAt := job_NextAttemptAt j div 1000 * 1000\<rparr>"
  by (simp add: pgq_stored_def job_codec_def job_row_norm_def job_to_row_def job_from_row_def pg_time_def)

lemma stored_retry: "pgq_stored job_codec job_row_norm (job_retry j cause nxt) = job_retry j cause (nxt div 1000 * 1000)"
  by (simp add: stored_job job_retry_def Let_def split: option.split)

context pg_queue
begin

lemma pgq_job_claims:
  "job_claims (pgq_ops c jid db) init jid due retry (pgq_stored c norm) (pgq_pending c look) (pgq_claims c look) ok"
  by (rule pq.job_claims_axioms)

lemma pgq_not_found:
  assumes "ok t"
  shows "pgq_Complete c db ctx k t = (Some (ErrNew e), t') \<Longrightarrow>
      look t k = None \<and> t' = t \<and> e = rc_what c @ '' '' @ go_quote k @ '' not found''"
    and "pgq_Fail c db ctx k cause nxt t = (Some (ErrNew e), t') \<Longrightarrow>
      look t k = None \<and> t' = t \<and> e = rc_what c @ '' '' @ go_quote k @ '' not found''"
proof -
  assume a: "pgq_Complete c db ctx k t = (Some (ErrNew e), t')"
  then have d: "t_Delete db ctx (\<lambda>r. rc_Id c r = k \<and> True) t = (Inr 0, t')"
    and e: "e = rc_what c @ '' '' @ go_quote k @ '' not found''"
    by (auto simp: pgq_Complete_def pgq_affected_def split: prod.splits sum.splits if_splits)
  from delete_at[OF assms d] e show "look t k = None \<and> t' = t \<and> e = rc_what c @ '' '' @ go_quote k @ '' not found''"
    by auto
next
  assume a: "pgq_Fail c db ctx k cause nxt t = (Some (ErrNew e), t')"
  then have d: "t_Updates db ctx (\<lambda>r. rc_Id c r = k \<and> True) (rc_updates c cause nxt) t = (Inr 0, t')"
    and e: "e = rc_what c @ '' '' @ go_quote k @ '' not found''"
    by (auto simp: pgq_Fail_def pgq_affected_def split: prod.splits sum.splits if_splits)
  from updates_at[OF assms d updates_id] e
  show "look t k = None \<and> t' = t \<and> e = rc_what c @ '' '' @ go_quote k @ '' not found''" by auto
qed

end

text \<open>One call: what Postgres answers, the in-memory queue answers for some iteration order.\<close>

lemma sim_Enqueue:
  assumes q: "pg_queue job_codec job_ID job_NextAttemptAt job_retry job_row_norm db ok look filled conflict db0"
    and "ok t" "same_queue look t m" "pgq_Enqueue job_codec job_ID db ctx j t = (e, t')"
    "settled (ResErr e :: job queue_result)"
  shows "\<exists>m'. MemoryBackend_Enqueue None (j\<lparr>job_NextAttemptAt := job_NextAttemptAt j div 1000 * 1000\<rparr>) m = (e, m')
    \<and> ok t' \<and> same_queue look t' m'"
proof (cases e)
  case None
  note c = job_claims.enq_ok[OF pg_queue.pgq_job_claims[OF q] assms(2), of ctx j t']
  have "job_ID j \<noteq> []" using assms(4) None by (auto simp: pgq_Enqueue_def split: if_splits)
  then obtain m' where m': "MemoryBackend_Enqueue None (j\<lparr>job_NextAttemptAt := job_NextAttemptAt j div 1000 * 1000\<rparr>) m = (None, m')"
    by (simp add: MemoryBackend_Enqueue_def mem_Enqueue_def)
  with mb.enq_ok[of m None _ m'] assms(3) c None assms(4)
  show ?thesis by (simp add: same_queue_def pgq_ops_def MemoryBackend_ops_def stored_job)
next
  case (Some x)
  then have "job_ID j = [] \<and> x = ErrNew ''queue: job ID is required'' \<and> t' = t"
    using assms(4,5) by (auto simp: pgq_Enqueue_def job_codec_def split: if_splits prod.splits sum.splits)
  then show ?thesis using Some assms(2,3) by (simp add: MemoryBackend_Enqueue_def mem_Enqueue_def)
qed

lemma sim_Dequeue:
  assumes q: "pg_queue job_codec job_ID job_NextAttemptAt job_retry job_row_norm db ok look filled conflict db0"
    and "ok t" "same_queue look t m" "pgq_Dequeue job_codec db ctx now seed t = (Inr x, t')"
  shows "\<exists>seed' m'. MemoryBackend_Dequeue None now seed' m = (Inr x, m') \<and> ok t' \<and> same_queue look t' m'"
proof (cases x)
  case None
  from job_claims.deq_none[OF pg_queue.pgq_job_claims[OF q] assms(2), of ctx now seed t']
  have n: "t' = t" "\<forall>k j. mq_pending m k = Some j \<longrightarrow> mq_claims m k \<or> now < job_NextAttemptAt j"
    using assms(3,4) None by (auto simp: pgq_ops_def same_queue_def)
  have "mq_inv job_ID m" using assms(3) by (simp add: same_queue_def)
  from mb.mem_Dequeue_spec[OF this, of now 0] n(2)
  have "mem_Dequeue job_ID job_NextAttemptAt None now 0 m = (Inr None, m)"
    by (auto split: prod.splits sum.splits option.splits) fastforce
  then show ?thesis using None n(1) assms(2,3)
    by (intro exI[of _ 0] exI[of _ m]) (simp add: MemoryBackend_Dequeue_def)
next
  case (Some j)
  have inv: "mq_inv job_ID m" using assms(3) by (simp add: same_queue_def)
  from job_claims.deq_some[OF pg_queue.pgq_job_claims[OF q] assms(2), of ctx now seed j t']
  have d: "ok t'" "mq_pending m (job_ID j) = Some j" "\<not> mq_claims m (job_ID j)" "job_NextAttemptAt j \<le> now"
    "\<And>k j'. mq_pending m k = Some j' \<Longrightarrow> \<not> mq_claims m k \<Longrightarrow> job_NextAttemptAt j' \<le> now
       \<Longrightarrow> job_NextAttemptAt j \<le> job_NextAttemptAt j'"
    and s: "pgq_pending job_codec look t' = mq_pending m"
      "pgq_claims job_codec look t' = (mq_claims m)(job_ID j := True)"
    using assms(3,4) Some by (auto simp: pgq_ops_def same_queue_def)
  have "\<exists>seed'. mem_Dequeue job_ID job_NextAttemptAt None now seed' m
      = (Inr (Some j), m\<lparr>mq_claimed := AList.update (job_ID j) True (mq_claimed m)\<rparr>)"
    using mem_Dequeue_any_least[of job_ID m j job_NextAttemptAt now] inv d by blast
  then obtain seed' where m: "MemoryBackend_Dequeue None now seed' m
      = (Inr (Some j), m\<lparr>mq_claimed := AList.update (job_ID j) True (mq_claimed m)\<rparr>)"
    by (auto simp: MemoryBackend_Dequeue_def)
  have "mq_inv job_ID (m\<lparr>mq_claimed := AList.update (job_ID j) True (mq_claimed m)\<rparr>)"
    using mem_Dequeue_some(1)[OF inv m[unfolded MemoryBackend_Dequeue_def]] .
  then show ?thesis using m d(1) s Some
    by (intro exI[of _ seed'] exI conjI, simp) (simp_all add: same_queue_def mq_view fun_eq_iff)
qed

lemma sim_Complete:
  assumes q: "pg_queue job_codec job_ID job_NextAttemptAt job_retry job_row_norm db ok look filled conflict db0"
    and "ok t" "same_queue look t m" "pgq_Complete job_codec db ctx k t = (e, t')"
    "settled (ResErr e :: job queue_result)"
  shows "\<exists>m'. MemoryBackend_Complete None k m = (e, m') \<and> ok t' \<and> same_queue look t' m'"
proof (cases e)
  case None
  note c = job_claims.comp_ok[OF pg_queue.pgq_job_claims[OF q] assms(2), of ctx k t']
  have "look t k \<noteq> None" using assms(4) None pg_queue.pgq_Complete_ok[OF q assms(2)] by blast
  then have "mq_pending m k \<noteq> None" using assms(3) by (auto simp: same_queue_def pgq_pending_def fun_eq_iff) (metis option.distinct(1) option.simps(9))
  then obtain m' where m': "MemoryBackend_Complete None k m = (None, m')"
    by (auto simp: MemoryBackend_Complete_def mem_Complete_def mq_pending_def)
  with mb.comp_ok[of m None k m'] assms(3) c None assms(4)
  show ?thesis by (simp add: same_queue_def pgq_ops_def MemoryBackend_ops_def)
next
  case (Some x)
  then obtain msg where x: "x = ErrNew msg"
    using assms(4,5) by (auto simp: pgq_Complete_def pgq_affected_def split: prod.splits sum.splits if_splits)
  note n = pg_queue.pgq_not_found(1)[OF q assms(2) assms(4)[unfolded Some x]]
  then have "mq_pending m k = None" using assms(3) by (metis same_queue_def pgq_pending_def option.simps(8))
  then show ?thesis using Some x n assms(2,3)
    by (auto simp: MemoryBackend_Complete_def mem_Complete_def mq_pending_def job_codec_def)
qed

lemma sim_Fail:
  assumes q: "pg_queue job_codec job_ID job_NextAttemptAt job_retry job_row_norm db ok look filled conflict db0"
    and "ok t" "same_queue look t m" "pgq_Fail job_codec db ctx k cause nxt t = (e, t')"
    "settled (ResErr e :: job queue_result)"
  shows "\<exists>m'. MemoryBackend_Fail None k cause (nxt div 1000 * 1000) m = (e, m') \<and> ok t' \<and> same_queue look t' m'"
proof (cases e)
  case None
  from job_claims.fail_ok[OF pg_queue.pgq_job_claims[OF q] assms(2), of ctx k cause nxt t']
  obtain j where j: "ok t'" "mq_pending m k = Some j"
    "pgq_pending job_codec look t' = (mq_pending m)(k \<mapsto> job_retry j cause (nxt div 1000 * 1000))"
    "pgq_claims job_codec look t' = (mq_claims m)(k := False)"
    using assms(3,4) None by (auto simp: same_queue_def pgq_ops_def stored_retry)
  then obtain m' where m': "MemoryBackend_Fail None k cause (nxt div 1000 * 1000) m = (None, m')"
    by (auto simp: MemoryBackend_Fail_def mem_Fail_def mq_pending_def)
  with mb.fail_ok[of m None k cause _ m'] assms(3) None j
  show ?thesis by (auto simp: same_queue_def MemoryBackend_ops_def)
next
  case (Some x)
  then obtain msg where x: "x = ErrNew msg"
    using assms(4,5) by (auto simp: pgq_Fail_def pgq_affected_def split: prod.splits sum.splits if_splits)
  note n = pg_queue.pgq_not_found(2)[OF q assms(2) assms(4)[unfolded Some x]]
  then have "mq_pending m k = None" using assms(3) by (metis same_queue_def pgq_pending_def option.simps(8))
  then show ?thesis using Some x n assms(2,3)
    by (auto simp: MemoryBackend_Fail_def mem_Fail_def mq_pending_def job_codec_def)
qed

lemma sim_call:
  assumes q: "pg_queue job_codec job_ID job_NextAttemptAt job_retry job_row_norm db ok look filled conflict db0"
    and "ok t" "same_queue look t m" "call_queue (PostgresBackend_ops db) ctx seed x t = (r, t')"
    "settled r"
  shows "\<exists>seed' m'. call_queue MemoryBackend_ops None seed' (stored_call x) m = (r, m') \<and> ok t' \<and> same_queue look t' m'"
proof (cases x)
  case (CallEnqueue j)
  then show ?thesis using sim_Enqueue[OF q assms(2,3), of ctx j _ t'] assms(4,5)
    by (fastforce simp: PostgresBackend_ops_pgq pgq_ops_def MemoryBackend_ops_def split: prod.splits)
next
  case (CallDequeue now)
  obtain res where d: "pgq_Dequeue job_codec db ctx now seed t = (res, t')" "r = ResJob res"
    using assms(4) CallDequeue by (auto simp: PostgresBackend_ops_pgq pgq_ops_def split: prod.splits)
  then obtain y where "res = Inr y" using assms(5) by (cases res) auto
  with d sim_Dequeue[OF q assms(2,3), of ctx now seed y t'] obtain seed' m' where
    "MemoryBackend_Dequeue None now seed' m = (Inr y, m')" "ok t'" "same_queue look t' m'" by blast
  then show ?thesis using d(2) \<open>res = Inr y\<close> CallDequeue
    by (intro exI[of _ seed'] exI[of _ m']) (simp add: MemoryBackend_ops_def)
next
  case (CallComplete k)
  then show ?thesis using sim_Complete[OF q assms(2,3), of ctx k _ t'] assms(4,5)
    by (fastforce simp: PostgresBackend_ops_pgq pgq_ops_def MemoryBackend_ops_def split: prod.splits)
next
  case (CallFail k cause nxt)
  then show ?thesis using sim_Fail[OF q assms(2,3), of ctx k cause nxt _ t'] assms(4,5)
    by (fastforce simp: PostgresBackend_ops_pgq pgq_ops_def MemoryBackend_ops_def split: prod.splits)
qed

text \<open>A call that fails in the database leaves the queue as it was.\<close>

lemma failed_call:
  assumes q: "pg_queue job_codec job_ID job_NextAttemptAt job_retry job_row_norm db ok look filled conflict db0"
    and "ok t" "call_queue (PostgresBackend_ops db) ctx seed x t = (r, t')" "\<not> settled r"
  shows "t' = t"
proof -
  note c = pg_queue.pgq_job_claims[OF q]
  show ?thesis using assms(2-4) job_claims.enq_err[OF c] job_claims.deq_err[OF c] job_claims.comp_err[OF c assms(2)]
      job_claims.fail_err[OF c assms(2)]
    by (cases x) (auto simp: PostgresBackend_ops_pgq split: prod.splits option.splits sum.splits gerr.splits)
qed

text \<open>The calls of a run that were answered without a failure of the database.\<close>

definition answered_calls :: "job queue_result list \<Rightarrow> (gerr option \<times> nat \<times> job queue_call) list \<Rightarrow> job queue_call list" where
  "answered_calls rs xs = map (snd \<circ> snd \<circ> snd) (filter (\<lambda>(r, x). settled r) (zip rs xs))"

lemma sim_run:
  assumes q: "pg_queue job_codec job_ID job_NextAttemptAt job_retry job_row_norm db ok look filled conflict db0"
  shows "ok t \<Longrightarrow> same_queue look t m \<Longrightarrow> queue_run (PostgresBackend_ops db) xs t = (rs, t')
    \<Longrightarrow> \<exists>ys m'. queue_run MemoryBackend_ops ys m = (filter settled rs, m') \<and> same_queue look t' m'
          \<and> map (snd \<circ> snd) ys = map stored_call (answered_calls rs xs) \<and> (\<forall>y \<in> set ys. fst y = None)"
proof (induction xs arbitrary: t m rs)
  case (Cons p xs)
  obtain ctx seed x where p: "p = (ctx, seed, x)" by (metis prod_cases3)
  obtain r t1 where c: "call_queue (PostgresBackend_ops db) ctx seed x t = (r, t1)" by fastforce
  obtain rs' where run: "queue_run (PostgresBackend_ops db) xs t1 = (rs', t')" "rs = r # rs'"
    using Cons.prems(3) p c by (auto split: prod.splits)
  show ?case
  proof (cases "settled r")
    case True
    from sim_call[OF q Cons.prems(1,2) c True] obtain seed' m1 where
      s: "call_queue MemoryBackend_ops None seed' (stored_call x) m = (r, m1)" "ok t1" "same_queue look t1 m1" by blast
    from Cons.IH[OF s(2,3) run(1)] obtain ys m' where
      y: "queue_run MemoryBackend_ops ys m1 = (filter settled rs', m')" "same_queue look t' m'"
        "map (snd \<circ> snd) ys = map stored_call (answered_calls rs' xs)" "\<forall>y \<in> set ys. fst y = None" by blast
    show ?thesis using s(1) y run(2) p True
      by (intro exI[of _ "(None, seed', stored_call x) # ys"] exI[of _ m']) (simp add: comp_def answered_calls_def)
  next
    case False
    have "t1 = t" by (rule failed_call[OF q Cons.prems(1) c False])
    with Cons.IH[OF Cons.prems(1,2)] run(1) obtain ys m' where
      "queue_run MemoryBackend_ops ys m = (filter settled rs', m')" "same_queue look t' m'"
        "map (snd \<circ> snd) ys = map stored_call (answered_calls rs' xs)" "\<forall>y \<in> set ys. fst y = None" by blast
    then show ?thesis using run(2) p False by (intro exI[of _ ys] exI[of _ m']) (simp add: answered_calls_def comp_def)
  qed
qed (auto simp: answered_calls_def)

subsection \<open>A table of jobs in memory\<close>

text \<open>The laws of the table can be met, at the row type of the queue.\<close>

definition fresh_key :: "'r list_table \<Rightarrow> string" where
  "fresh_key t = concat (lt_used t) @ ''k''"

definition job_row_fill :: "job_row list_table \<Rightarrow> job_row \<Rightarrow> job_row" where
  "job_row_fill t r = (if jr_Id r = [] then r\<lparr>jr_Id := fresh_key t\<rparr> else r)"

interpretation jlt: list_table jr_Id job_row_fill job_row_filled "\<lambda>_ _. False" job_row_norm
  by unfold_locales (auto simp: job_row_norm_def job_row_filled_def job_row_fill_def fresh_key_def)

definition demo_jobs_db :: "(job_row, job_row list_table) sql_ops" where
  "demo_jobs_db = list_table_ops jr_Id job_row_fill (\<lambda>_ _. False) job_row_norm"

definition demo_jobs_ok :: "job_row list_table \<Rightarrow> bool" where
  "demo_jobs_ok = lt_ok jr_Id (\<lambda>_ _. False) job_row_norm"

lemma demo_jobs_table:
  "queue_jobs_table demo_jobs_db demo_jobs_ok (lt_look jr_Id)" "demo_jobs_ok empty_table"
  "lt_look jr_Id (empty_table :: job_row list_table) = Map.empty"
  using jlt.sql_table_axioms
  by (auto simp: queue_jobs_table_def demo_jobs_db_def demo_jobs_ok_def lt_ok_def empty_table_def lt_look_def)

interpretation jpq: pg_queue job_codec job_ID job_NextAttemptAt job_retry job_row_norm demo_jobs_db demo_jobs_ok "lt_look jr_Id"
  job_row_filled "\<lambda>_ _. False" empty_table
  by (rule PostgresBackend_pg_queue[OF demo_jobs_table])

lemmas demo_db_simps = demo_jobs_db_def list_table_ops_def lt_Create_def lt_Find_def lt_Updates_def
  lt_Delete_def lt_ok_def job_row_fill_def job_row_norm_def sort_rows_def pg_time_def

subsection \<open>Properties\<close>

text \<open>
  C6: Workers of any number of processes that share the table \<open>queue_jobs\<close> never hold the same job:
  in every interleaving of their statements, where a worker may stop between the \<open>SELECT ... FOR
  UPDATE SKIP LOCKED\<close> and the commit of its \<open>Dequeue\<close> while others select, commit, roll back,
  complete, fail or enqueue, and where any statement may fail, a job that one worker holds is held
  by no other, is marked as claimed in the table and is locked by no open transaction.
\<close>

theorem PostgresBackend_exclusive:
  assumes "queue_jobs_table db ok look" and "ok db0" and "look db0 = Map.empty"
    and "pg_reachable job_codec job_ID db db0 (t, tx, held)"
    and "held w = Some j" and "w \<noteq> w'"
  shows "(\<forall>j'. held w' = Some j' \<longrightarrow> job_ID j' \<noteq> job_ID j)
    \<and> (\<exists>r. look t (job_ID j) = Some r \<and> jr_Claimed r) \<and> \<not> row_locked job_codec tx (job_ID j)"
  using pg_queue.pg_exclusive[OF PostgresBackend_pg_queue[OF assms(1-3)] assms(4-6)]
  by (auto simp: pgq_claims_def job_codec_def split: option.splits)

text \<open>
  C12: The durable queue behaves as the in-memory one. For every sequence of calls on a
  \<open>PostgresBackend\<close> over an empty table, at any times and with any of them failing in the database,
  the calls answered without such a failure, with the times they store (the next attempt of an
  enqueued or failed job) cut to microseconds, are a run of a \<open>MemoryBackend\<close> (for some map iteration
  orders) with the same answers, error texts included, that ends with the same pending jobs and
  the same claims. The calls that failed have changed nothing.
\<close>

theorem PostgresBackend_runs_as_memory:
  assumes "queue_jobs_table db ok look" and "ok db0" and "look db0 = Map.empty"
    and "queue_run (PostgresBackend_ops db) xs db0 = (rs, t)"
  shows "\<exists>ys m. queue_run MemoryBackend_ops ys NewMemoryBackend = (filter settled rs, m)
    \<and> map (snd \<circ> snd) ys = map stored_call (answered_calls rs xs) \<and> (\<forall>y \<in> set ys. fst y = None)
    \<and> same_queue look t m"
proof -
  note q = PostgresBackend_pg_queue[OF assms(1-3)]
  have "same_queue look db0 NewMemoryBackend"
    using assms(3) mb.init_inv mb.init_empty
    by (auto simp: same_queue_def pgq_pending_def pgq_claims_def fun_eq_iff)
  from sim_run[OF q assms(2) this assms(4)] show ?thesis by blast
qed


definition demo_row :: "string \<Rightarrow> time \<Rightarrow> job_row" where
  "demo_row i t = job_to_row (demo_job i t)"

definition demo_busy :: "job_row list_table" where
  "demo_busy = \<lparr>lt_rows = [(demo_row ''a'' 5000), (demo_row ''b'' 3000)\<lparr>jr_Claimed := True\<rparr>],
     lt_used = [''b'', ''a'']\<rparr>"

lemma demo_busy_reachable:
  "pg_reachable job_codec job_ID demo_jobs_db empty_table
     (demo_busy, (\<lambda>_. None)(1 := Some (demo_row ''a'' 5000)), (\<lambda>_. None)(0 := Some (demo_job ''b'' 3000)))"
proof -
  let ?R = "pg_reachable job_codec job_ID demo_jobs_db empty_table"
  let ?a = "demo_row ''a'' 5000" and ?b = "demo_row ''b'' 3000"
  let ?t1 = "\<lparr>lt_rows = [?a], lt_used = [''a'']\<rparr>" and ?t2 = "\<lparr>lt_rows = [?a, ?b], lt_used = [''b'', ''a'']\<rparr>"
  note e = pgq_Enqueue_def job_codec_def demo_db_simps demo_row_def job_to_row_def demo_job_def
    empty_table_def claim_select_def claim_update_def row_locked_def Let_def demo_busy_def
  have 1: "?R (?t1, \<lambda>_. None, \<lambda>_. None)"
    by (rule pg_next[OF pg_start], rule pg_enqueue[of _ _ _ None "demo_job ''a'' 5000" _ None]) (simp add: e)
  have 2: "?R (?t2, \<lambda>_. None, \<lambda>_. None)"
    by (rule pg_next[OF 1], rule pg_enqueue[of _ _ _ None "demo_job ''b'' 3000" _ None]) (simp add: e)
  have 3: "?R (?t2, (\<lambda>_. None)(0 := Some ?b), \<lambda>_. None)"
    by (rule pg_next[OF 2], rule pg_select[of _ 0 _ _ None _ _ 9000 _ "[]"]) (simp_all add: e)
  have 4: "?R (?t2, (\<lambda>_. None)(0 := Some ?b, 1 := Some ?a), \<lambda>_. None)"
    by (rule pg_next[OF 3], rule pg_select[of _ 1 _ _ None _ _ 9000 _ "[]"]) (simp_all add: e)
  have "?R (demo_busy, ((\<lambda>_. None)(0 := Some ?b, 1 := Some ?a))(0 := None),
      (\<lambda>_. None)(0 := Some (rc_job job_codec (rc_claim job_codec ?b))))"
    by (rule pg_next[OF 4], rule pg_commit[of _ 0 _ _ _ None _ 1]) (simp_all add: e)
  moreover have "((\<lambda>_ :: nat. None)(0 := Some ?b, 1 := Some ?a))(0 := None) = (\<lambda>_. None)(1 := Some ?a)"
    by (auto simp: fun_eq_iff)
  moreover have "rc_job job_codec (rc_claim job_codec ?b) = demo_job ''b'' 3000"
    by (simp add: job_codec_def demo_row_def job_to_row_def job_from_row_def)
  ultimately show ?thesis by simp
qed

theorem PostgresBackend_exclusive_witness:
  "pg_reachable job_codec job_ID demo_jobs_db empty_table
     (demo_busy, (\<lambda>_. None)(1 := Some (demo_row ''a'' 5000)), (\<lambda>_. None)(0 := Some (demo_job ''b'' 3000)))
   \<and> \<not> row_locked job_codec ((\<lambda>_. None)(1 := Some (demo_row ''a'' 5000))) ''b''"
  using PostgresBackend_exclusive[OF demo_jobs_table demo_busy_reachable, of 0 "demo_job ''b'' 3000" 1]
    demo_busy_reachable by (simp add: demo_job_def)

definition demo_calls :: "(gerr option \<times> nat \<times> job queue_call) list" where
  "demo_calls = [(None, 0, CallEnqueue (demo_job ''a'' 5007)), (None, 0, CallDequeue 9000),
     (Some (ErrCtx ''context canceled''), 0, CallComplete ''a''), (None, 0, CallFail ''a'' None 20001), (None, 0, CallComplete ''zz'')]"

lemma demo_calls_run:
  "queue_run (PostgresBackend_ops demo_jobs_db) demo_calls empty_table =
     ([ResErr None, ResJob (Inr (Some (demo_job ''a'' 5000))), ResErr (Some (ErrWrap (''queue: complete job '' @ go_quote ''a'') (ErrCtx ''context canceled''))), ResErr None,
       ResErr (Some (ErrNew (''queue: job '' @ go_quote ''zz'' @ '' not found'')))],
      \<lparr>lt_rows = [(demo_row ''a'' 20000)\<lparr>jr_Attempts := 1\<rparr>], lt_used = [''a'']\<rparr>)"
  by (simp add: demo_calls_def PostgresBackend_ops_pgq pgq_ops_def pgq_Enqueue_def pgq_Dequeue_def
      pgq_Complete_def pgq_Fail_def pgq_affected_def transaction_def claim_row_def claim_select_def
      claim_update_def job_codec_def demo_db_simps demo_row_def job_to_row_def demo_job_def
      empty_table_def Let_def job_from_row_def job_fail_updates_def)

theorem PostgresBackend_runs_as_memory_witness:
  "\<exists>ys m. fst (queue_run MemoryBackend_ops ys NewMemoryBackend)
       = [ResErr None, ResJob (Inr (Some (demo_job ''a'' 5000))), ResErr None,
          ResErr (Some (ErrNew (''queue: job '' @ go_quote ''zz'' @ '' not found'')))]
     \<and> map (snd \<circ> snd) ys = [CallEnqueue (demo_job ''a'' 5000), CallDequeue 9000, CallFail ''a'' None 20000, CallComplete ''zz'']
     \<and> same_queue (lt_look jr_Id) \<lparr>lt_rows = [(demo_row ''a'' 20000)\<lparr>jr_Attempts := 1\<rparr>], lt_used = [''a'']\<rparr> m"
proof -
  let ?rs = "[ResErr None, ResJob (Inr (Some (demo_job ''a'' 5000))),
      ResErr (Some (ErrWrap (''queue: complete job '' @ go_quote ''a'') (ErrCtx ''context canceled''))), ResErr None,
      ResErr (Some (ErrNew (''queue: job '' @ go_quote ''zz'' @ '' not found'')))]"
  have f: "filter settled ?rs = [ResErr None, ResJob (Inr (Some (demo_job ''a'' 5000))), ResErr None,
      ResErr (Some (ErrNew (''queue: job '' @ go_quote ''zz'' @ '' not found'')))]" by simp
  have c: "map stored_call (answered_calls ?rs demo_calls)
      = [CallEnqueue (demo_job ''a'' 5000), CallDequeue 9000, CallFail ''a'' None 20000, CallComplete ''zz'']"
    by (simp add: answered_calls_def demo_calls_def demo_job_def)
  show ?thesis using PostgresBackend_runs_as_memory[OF demo_jobs_table demo_calls_run, unfolded f c] by (metis fst_conv)
qed

text \<open>
  C30: A claim outlives the worker that took it. Once a row of \<open>queue_jobs\<close> is claimed and no worker
  holds its job (the worker stopped, or its \<open>Fail\<close> or \<open>Complete\<close> did not reach the database), no
  later step of any worker hands the job out or releases the claim: the job is never delivered,
  failed or bounced.
\<close>

theorem PostgresBackend_orphan_stuck:
  assumes "queue_jobs_table db ok look" and "ok db0" and "look db0 = Map.empty"
    and "pg_reachable job_codec job_ID db db0 (t, tx, held)"
    and "look t k = Some r" and "jr_Claimed r" and "\<forall>w j. held w = Some j \<longrightarrow> job_ID j \<noteq> k"
    and "(pg_step job_codec job_ID db)\<^sup>*\<^sup>* (t, tx, held) (t', tx', held')"
  shows "(\<exists>r'. look t' k = Some r' \<and> jr_Claimed r') \<and> (\<forall>w j. held' w = Some j \<longrightarrow> job_ID j \<noteq> k)"
proof -
  note q = PostgresBackend_pg_queue[OF assms(1-3)]
  have "pg_queue.orphaned job_codec job_ID look k (t, tx, held)"
    unfolding pg_queue.orphaned_def[OF q] using assms(5-7) by (simp add: pgq_claims_def job_codec_def)
  from pg_queue.orphaned_forever[OF q assms(4) this assms(8)] show ?thesis
    unfolding pg_queue.orphaned_def[OF q] by (auto simp: pgq_claims_def job_codec_def split: option.splits)
qed

theorem PostgresBackend_orphan_stuck_witness:
  "pg_reachable job_codec job_ID demo_jobs_db empty_table
     (demo_busy, (\<lambda>_. None)(1 := Some (demo_row ''a'' 5000)), ((\<lambda>_. None)(0 := Some (demo_job ''b'' 3000)))(0 := None))
   \<and> (\<nexists>t' tx' held' w j. (pg_step job_codec job_ID demo_jobs_db)\<^sup>*\<^sup>*
       (demo_busy, (\<lambda>_. None)(1 := Some (demo_row ''a'' 5000)), ((\<lambda>_. None)(0 := Some (demo_job ''b'' 3000)))(0 := None))
       (t', tx', held') \<and> held' w = Some j \<and> job_ID j = ''b'')"
proof -
  have r: "pg_reachable job_codec job_ID demo_jobs_db empty_table
     (demo_busy, (\<lambda>_. None)(1 := Some (demo_row ''a'' 5000)), ((\<lambda>_. None)(0 := Some (demo_job ''b'' 3000)))(0 := None))"
    by (rule pg_next[OF demo_busy_reachable], rule pg_drop) simp
  have b: "lt_look jr_Id demo_busy ''b'' = Some ((demo_row ''b'' 3000)\<lparr>jr_Claimed := True\<rparr>)"
    by (simp add: lt_look_def demo_busy_def demo_row_def job_to_row_def demo_job_def)
  show ?thesis
    using r PostgresBackend_orphan_stuck[OF demo_jobs_table r b] by auto
qed

end
