(* ===== verification/Kms.thy ===== *)
theory Kms
  imports Env_Prelude
begin

section \<open>Encryption at rest: internal/kms, and base64\<close>

text \<open>
  \<open>encoding/base64\<close> as far as the code calls it (\<open>StdEncoding\<close> both ways, \<open>RawURLEncoding\<close> one
  way), the \<open>Encryptor\<close> interface, the AES-GCM encryptor, and the re-encryption loop that
  \<open>directory.Service.RotateDKIMKeys\<close> and \<open>webhook.PostgresStore.RotateSecrets\<close> share. The AES-GCM
  primitive is an argument: \<open>aead\<close> holds what the code calls of \<open>cipher.AEAD\<close>. Random bytes are an
  argument too, numbered by draw.
\<close>

subsection \<open>Base64\<close>

definition b64_std :: string where
  "b64_std = ''ABCDEFGHIJKLMNOPQRSTUVWXYZabcdefghijklmnopqrstuvwxyz0123456789+/''"

definition b64_url :: string where
  "b64_url = ''ABCDEFGHIJKLMNOPQRSTUVWXYZabcdefghijklmnopqrstuvwxyz0123456789-_''"

definition byte :: "char \<Rightarrow> nat" where
  "byte c = of_char c"

fun b64_encode :: "string \<Rightarrow> bool \<Rightarrow> bytes \<Rightarrow> string" where
  "b64_encode al pad [] = []"
| "b64_encode al pad [a] =
     [al ! (byte a div 4), al ! (byte a mod 4 * 16)] @ (if pad then ''=='' else [])"
| "b64_encode al pad [a, b] =
     [al ! (byte a div 4), al ! (byte a mod 4 * 16 + byte b div 16), al ! (byte b mod 16 * 4)]
       @ (if pad then ''='' else [])"
| "b64_encode al pad (a # b # c # r) =
     [al ! (byte a div 4), al ! (byte a mod 4 * 16 + byte b div 16),
      al ! (byte b mod 16 * 4 + byte c div 64), al ! (byte c mod 64)] @ b64_encode al pad r"

definition b64_index :: "string \<Rightarrow> char \<Rightarrow> nat option" where
  "b64_index al c = map_of (zip al [0..<length al]) c"

text \<open>Decoding with padding; line breaks are skipped, and bits that are left over are ignored.\<close>

fun b64_quanta :: "string \<Rightarrow> string \<Rightarrow> bytes option" where
  "b64_quanta al [] = Some []"
| "b64_quanta al (w # x # y # z # r) =
     (case (b64_index al w, b64_index al x) of
        (Some i, Some j) \<Rightarrow>
          let a = char_of (i * 4 + j div 16) in
          if y = CHR ''='' then (if z = CHR ''='' \<and> r = [] then Some [a] else None)
          else (case b64_index al y of
              None \<Rightarrow> None
            | Some k \<Rightarrow>
                let b = char_of (j mod 16 * 16 + k div 4) in
                if z = CHR ''='' then (if r = [] then Some [a, b] else None)
                else (case b64_index al z of
                    None \<Rightarrow> None
                  | Some l \<Rightarrow> map_option (\<lambda>s. [a, b, char_of (k mod 4 * 64 + l)] @ s) (b64_quanta al r)))
      | _ \<Rightarrow> None)"
| "b64_quanta al _ = None"

text \<open>The text of a \<open>CorruptInputError\<close> also names the offset, which is left out.\<close>

definition CorruptInputError :: gerr where
  "CorruptInputError = ErrSentinel ''illegal base64 data''"

definition b64_decode :: "string \<Rightarrow> gerr + bytes" where
  "b64_decode s =
     (case b64_quanta b64_std (filter (\<lambda>c. c \<noteq> CHR 0x0A \<and> c \<noteq> CHR 0x0D) s) of
        None \<Rightarrow> Inl CorruptInputError | Some b \<Rightarrow> Inr b)"

definition EncodeToString :: "bytes \<Rightarrow> string" where
  "EncodeToString = b64_encode b64_std True"

lemma byte_less [simp]: "byte c < 256"
  by (simp add: byte_def)

lemma char_of_byte [simp]: "char_of (byte c) = c"
  by (simp add: byte_def)

lemma b64_std_props: "length b64_std = 64" "distinct b64_std"
  "CHR ''='' \<notin> set b64_std" "CHR 0x0A \<notin> set b64_std" "CHR 0x0D \<notin> set b64_std"
  by (simp_all add: b64_std_def)

lemma b64_index_nth [simp]:
  assumes "i < 64"
  shows "b64_index b64_std (b64_std ! i) = Some i"
proof -
  have "map_of (zip b64_std [0..<64]) (b64_std ! i) = Some ([0..<64] ! i)"
    using assms b64_std_props(1,2) by (intro map_of_zip_nth) auto
  then show ?thesis using assms b64_std_props(1) by (simp add: b64_index_def)
qed

lemma b64_std_not_pad [simp]: "i < 64 \<Longrightarrow> b64_std ! i \<noteq> CHR ''=''"
  using b64_std_props(1,3) by (metis nth_mem)

lemma byte_high [simp]: "byte a div 4 < 64" "byte a div 16 < 16" "byte a div 64 < 4"
  using byte_less[of a] by (simp_all add: less_mult_imp_div_less)

lemma b64_parts [simp]:
  "byte a mod 4 * 16 < 64" "byte a mod 4 * 16 + byte b div 16 < 64"
  "byte b mod 16 * 4 < 64" "byte b mod 16 * 4 + byte c div 64 < 64" "byte c mod 64 < 64"
proof -
  have "byte a mod 4 \<le> 3" "byte b mod 16 \<le> 15" by (simp_all add: less_Suc_eq_le[symmetric])
  then show "byte a mod 4 * 16 < 64" "byte a mod 4 * 16 + byte b div 16 < 64"
    "byte b mod 16 * 4 < 64" "byte b mod 16 * 4 + byte c div 64 < 64"
    using byte_high(2)[of b] byte_high(3)[of c] by linarith+
qed simp

lemma byte_shift [simp]: "byte b div 16 div 16 = 0" "byte b div 64 div 4 = 0"
  "byte b div 16 mod 16 = byte b div 16" "byte b div 64 mod 4 = byte b div 64"
  using byte_high[of b] by simp_all

lemma b64_quanta_encode: "b64_quanta b64_std (b64_encode b64_std True s) = Some s"
  by (induction b64_std True s rule: b64_encode.induct) (simp_all add: Let_def)

lemma b64_encode_chars:
  "c \<in> set (b64_encode b64_std True s) \<Longrightarrow> c \<in> set b64_std \<or> c = CHR ''=''"
  by (induction b64_std True s rule: b64_encode.induct) (auto simp: b64_std_props(1))

lemma EncodeToString_chars: "c \<in> set (EncodeToString s) \<Longrightarrow> c \<in> set b64_std \<or> c = CHR ''=''"
  by (simp add: EncodeToString_def b64_encode_chars)

lemma b64_roundtrip [simp]: "b64_decode (EncodeToString s) = Inr s"
proof -
  have "filter (\<lambda>c. c \<noteq> CHR 0x0A \<and> c \<noteq> CHR 0x0D) (EncodeToString s) = EncodeToString s"
    using EncodeToString_chars b64_std_props(4,5) by (fastforce simp: filter_id_conv)
  then show ?thesis by (simp add: b64_decode_def EncodeToString_def b64_quanta_encode)
qed

subsection \<open>Encryptor and AESGCMEncryptor\<close>

text \<open>The number of a call of \<open>Encrypt\<close> selects the random bytes it draws.\<close>

record encryptor =
  en_Encrypt :: "nat \<Rightarrow> bytes \<Rightarrow> gerr + bytes"
  en_Decrypt :: "bytes \<Rightarrow> gerr + bytes"

record aead =
  ae_NonceSize :: nat
  ae_Seal :: "bytes \<Rightarrow> bytes \<Rightarrow> bytes"
  ae_Open :: "bytes \<Rightarrow> bytes \<Rightarrow> gerr + bytes"

definition KeySize :: nat where "KeySize = 32"

definition NewAESGCMEncryptor :: "(bytes \<Rightarrow> gerr + 'b) \<Rightarrow> ('b \<Rightarrow> gerr + aead) \<Rightarrow> bytes \<Rightarrow> gerr + aead" where
  "NewAESGCMEncryptor NewCipher NewGCM key =
     (if length key \<noteq> KeySize
      then Inl (ErrNew (''kms: key must be '' @ itoa (int KeySize) @ '' bytes, got '' @ itoa (int (length key))))
      else case NewCipher key of
        Inl e \<Rightarrow> Inl (ErrWrap ''kms: create cipher'' e)
      | Inr block \<Rightarrow> (case NewGCM block of
          Inl e \<Rightarrow> Inl (ErrWrap ''kms: create GCM'' e)
        | Inr gcm \<Rightarrow> Inr gcm))"

text \<open>\<open>rand n\<close> is the outcome of \<open>rand.Read\<close> into a buffer of \<open>n\<close> bytes.\<close>

definition AESGCM_Encrypt :: "(nat \<Rightarrow> gerr + bytes) \<Rightarrow> aead \<Rightarrow> bytes \<Rightarrow> gerr + bytes" where
  "AESGCM_Encrypt rand gcm plaintext =
     (case rand (ae_NonceSize gcm) of
        Inl e \<Rightarrow> Inl (ErrWrap ''kms: generate nonce'' e)
      | Inr nonce \<Rightarrow> Inr (nonce @ ae_Seal gcm nonce plaintext))"

definition AESGCM_Decrypt :: "aead \<Rightarrow> bytes \<Rightarrow> gerr + bytes" where
  "AESGCM_Decrypt gcm ciphertext =
     (let nonceSize = ae_NonceSize gcm in
      if length ciphertext < nonceSize then Inl (ErrNew ''kms: ciphertext shorter than nonce size'')
      else case ae_Open gcm (take nonceSize ciphertext) (drop nonceSize ciphertext) of
        Inl e \<Rightarrow> Inl (ErrWrap ''kms: decrypt'' e)
      | Inr plaintext \<Rightarrow> Inr plaintext)"

definition AESGCMEncryptor :: "(nat \<Rightarrow> nat \<Rightarrow> gerr + bytes) \<Rightarrow> aead \<Rightarrow> encryptor" where
  "AESGCMEncryptor rnd gcm = \<lparr>en_Encrypt = (\<lambda>n. AESGCM_Encrypt (rnd n) gcm), en_Decrypt = AESGCM_Decrypt gcm\<rparr>"

text \<open>
  What the code relies on of AES-GCM and of the random source: \<open>Open\<close> inverts \<open>Seal\<close> under one
  key, a ciphertext sealed under one key does not open under the other, and \<open>rand.Read\<close> fills the
  buffer.
\<close>

definition aead_inverts :: "aead \<Rightarrow> bool" where
  "aead_inverts gcm \<longleftrightarrow> (\<forall>n p. length n = ae_NonceSize gcm \<longrightarrow> ae_Open gcm n (ae_Seal gcm n p) = Inr p)"

definition aead_separated :: "aead \<Rightarrow> aead \<Rightarrow> bool" where
  "aead_separated old new \<longleftrightarrow> ae_NonceSize old = ae_NonceSize new
     \<and> (\<forall>n p x. length n = ae_NonceSize new \<longrightarrow> ae_Open old n (ae_Seal new n p) \<noteq> Inr x)"

definition fills_buffer :: "(nat \<Rightarrow> nat \<Rightarrow> gerr + bytes) \<Rightarrow> bool" where
  "fills_buffer rnd \<longleftrightarrow> (\<forall>i n b. rnd i n = Inr b \<longrightarrow> length b = n)"

text \<open>What a client of an \<open>Encryptor\<close> relies on, and what changing the key needs.\<close>

definition enc_inverts :: "encryptor \<Rightarrow> bool" where
  "enc_inverts enc \<longleftrightarrow> (\<forall>i p ct. en_Encrypt enc i p = Inr ct \<longrightarrow> en_Decrypt enc ct = Inr p)"

definition enc_separated :: "encryptor \<Rightarrow> encryptor \<Rightarrow> bool" where
  "enc_separated old new \<longleftrightarrow> (\<forall>i p ct x. en_Encrypt new i p = Inr ct \<longrightarrow> en_Decrypt old ct \<noteq> Inr x)"

lemma AESGCM_inverts:
  assumes "aead_inverts gcm" "fills_buffer rnd"
  shows "enc_inverts (AESGCMEncryptor rnd gcm)"
  using assms
  by (auto simp: enc_inverts_def AESGCMEncryptor_def AESGCM_Encrypt_def AESGCM_Decrypt_def aead_inverts_def
      fills_buffer_def Let_def split: sum.splits)

lemma AESGCM_separated:
  assumes "aead_separated old new" "fills_buffer rnd"
  shows "enc_separated (AESGCMEncryptor rnd' old) (AESGCMEncryptor rnd new)"
  unfolding enc_separated_def AESGCMEncryptor_def AESGCM_Encrypt_def AESGCM_Decrypt_def
  using assms by (auto simp: aead_separated_def fills_buffer_def Let_def split: sum.splits)

lemma AESGCM_Decrypt_total: "length ct < ae_NonceSize gcm \<Longrightarrow> \<exists>e. AESGCM_Decrypt gcm ct = Inl e"
  by (simp add: AESGCM_Decrypt_def Let_def)

text \<open>A sealed box whose tag is the key: the laws can be met, also by two keys at once.\<close>

definition tag_aead :: "char \<Rightarrow> aead" where
  "tag_aead k = \<lparr>ae_NonceSize = 12, ae_Seal = (\<lambda>n p. p @ [k]),
     ae_Open = (\<lambda>n ct. if ct \<noteq> [] \<and> last ct = k then Inr (butlast ct) else Inl (ErrNew ''cipher: message authentication failed''))\<rparr>"

definition zero_rand :: "nat \<Rightarrow> nat \<Rightarrow> gerr + bytes" where
  "zero_rand i n = Inr (replicate n (CHR ''0''))"

lemma tag_aead_laws:
  "aead_inverts (tag_aead k)" "k \<noteq> k' \<Longrightarrow> aead_separated (tag_aead k) (tag_aead k')" "fills_buffer zero_rand"
  by (auto simp: aead_inverts_def aead_separated_def tag_aead_def fills_buffer_def zero_rand_def)

end
