(* ===== verification/Key_Rotation.thy ===== *)
theory Key_Rotation
  imports Kms Sql_Table
begin

section \<open>Values encrypted in a column, and their re-encryption\<close>

text \<open>
  \<open>directory.Service\<close> and \<open>webhook.PostgresStore\<close> keep secrets the same way, base64 of a ciphertext
  in a text column, and rotate the master key with the same loop; \<open>secret_column\<close> holds the column
  and the error texts of each.
\<close>

record 'r secret_column =
  sc_Id :: "'r \<Rightarrow> string"
  sc_get :: "'r \<Rightarrow> string"
  sc_set :: "string \<Rightarrow> 'r \<Rightarrow> 'r"
  sc_list_text :: string
  sc_decode_text :: "string \<Rightarrow> string"
  sc_decrypt_text :: "string \<Rightarrow> string"
  sc_encrypt_text :: "string \<Rightarrow> string"
  sc_write_text :: "string \<Rightarrow> string"

fun rotate_rows :: "'r secret_column \<Rightarrow> ('r, 't) sql_ops \<Rightarrow> gerr option \<Rightarrow> encryptor \<Rightarrow> encryptor \<Rightarrow> nat
    \<Rightarrow> 'r list \<Rightarrow> 't \<Rightarrow> nat \<Rightarrow> (nat \<times> gerr option) \<times> 't" where
  "rotate_rows c db ctx oldEnc newEnc n [] t rotated = ((rotated, None), t)"
| "rotate_rows c db ctx oldEnc newEnc n (row # rows) t rotated =
     (case b64_decode (sc_get c row) of
        Inl e \<Rightarrow> ((rotated, Some (ErrWrap (sc_decode_text c (sc_Id c row)) e)), t)
      | Inr ciphertext \<Rightarrow>
          (case en_Decrypt oldEnc ciphertext of
             Inl e \<Rightarrow>
               (case en_Decrypt newEnc ciphertext of
                  Inr p \<Rightarrow> rotate_rows c db ctx oldEnc newEnc n rows t rotated
                | Inl e2 \<Rightarrow> ((rotated, Some (ErrWrap (sc_decrypt_text c (sc_Id c row)) e)), t))
           | Inr plaintext \<Rightarrow>
               (case en_Encrypt newEnc n plaintext of
                  Inl e \<Rightarrow> ((rotated, Some (ErrWrap (sc_encrypt_text c (sc_Id c row)) e)), t)
                | Inr newCiphertext \<Rightarrow>
                    (case t_Updates db ctx (\<lambda>r. sc_Id c r = sc_Id c row)
                        (sc_set c (EncodeToString newCiphertext)) t of
                       (Inl e, t') \<Rightarrow> ((rotated, Some (ErrWrap (sc_write_text c (sc_Id c row)) e)), t')
                     | (Inr k, t') \<Rightarrow>
                         rotate_rows c db ctx oldEnc newEnc (Suc n) rows t' (Suc rotated)))))"

definition rotate_column :: "'r secret_column \<Rightarrow> ('r, 't) sql_ops \<Rightarrow> gerr option \<Rightarrow> encryptor \<Rightarrow> encryptor
    \<Rightarrow> nat \<Rightarrow> 't \<Rightarrow> (nat \<times> gerr option) \<times> 't" where
  "rotate_column c db ctx oldEnc newEnc n t =
     (case t_Find db ctx (\<lambda>r. True) [] None t of
        Inl e \<Rightarrow> ((0, Some (ErrWrap (sc_list_text c) e)), t)
      | Inr rows \<Rightarrow> rotate_rows c db ctx oldEnc newEnc n rows t 0)"

text \<open>
  \<open>under enc s p\<close>: the stored text \<open>s\<close> decrypts to \<open>p\<close>. \<open>readable\<close>: under the old key, or, when the
  old key rejects it, under the new one, which is the state a run that was interrupted leaves.
\<close>

definition under :: "encryptor \<Rightarrow> string \<Rightarrow> bytes \<Rightarrow> bool" where
  "under enc s p \<longleftrightarrow> (\<exists>ct. b64_decode s = Inr ct \<and> en_Decrypt enc ct = Inr p)"

definition rejects :: "encryptor \<Rightarrow> string \<Rightarrow> bool" where
  "rejects enc s \<longleftrightarrow> (\<exists>ct e. b64_decode s = Inr ct \<and> en_Decrypt enc ct = Inl e)"

definition readable :: "encryptor \<Rightarrow> encryptor \<Rightarrow> string \<Rightarrow> bytes \<Rightarrow> bool" where
  "readable oldEnc newEnc s p \<longleftrightarrow> under oldEnc s p \<or> (rejects oldEnc s \<and> under newEnc s p)"

locale secret_table = sql_table db ok look "sc_Id c" filled conflict norm
  for c :: "'r secret_column" and db :: "('r, 't) sql_ops" and ok look filled conflict norm +
  assumes set_get: "sc_get c (sc_set c s r) = s"
    and set_id: "sc_Id c (sc_set c s r) = sc_Id c r"
    and set_set: "sc_set c s (sc_set c s' r) = sc_set c s r"
    and get_set: "sc_set c (sc_get c r) r = r"
    and norm_set: "norm (sc_set c s r) = sc_set c s (norm r)"
begin

text \<open>What a rotation may change: the column of the rows it was given.\<close>

definition recoded :: "'t \<Rightarrow> 't \<Rightarrow> bool" where
  "recoded t t' \<longleftrightarrow> (\<forall>k. rel_option (\<lambda>r r'. \<exists>s. r' = sc_set c s r) (look t k) (look t' k))"

definition all_readable :: "encryptor \<Rightarrow> encryptor \<Rightarrow> (string \<Rightarrow> bytes) \<Rightarrow> 't \<Rightarrow> bool" where
  "all_readable oldEnc newEnc plain t \<longleftrightarrow>
     (\<forall>k r. look t k = Some r \<longrightarrow> readable oldEnc newEnc (sc_get c r) (plain k))"

lemma recoded_refl: "recoded t t"
  unfolding recoded_def using get_set by (auto simp: option.rel_refl intro!: option.rel_refl) metis

lemma recoded_trans: "recoded t t' \<Longrightarrow> recoded t' t'' \<Longrightarrow> recoded t t''"
proof (unfold recoded_def, intro allI)
  fix k
  assume "\<forall>k. rel_option (\<lambda>r r'. \<exists>s. r' = sc_set c s r) (look t k) (look t' k)"
    "\<forall>k. rel_option (\<lambda>r r'. \<exists>s. r' = sc_set c s r) (look t' k) (look t'' k)"
  then have "rel_option (\<lambda>r r'. \<exists>s. r' = sc_set c s r) (look t k) (look t' k)"
    "rel_option (\<lambda>r r'. \<exists>s. r' = sc_set c s r) (look t' k) (look t'' k)" by blast+
  then show "rel_option (\<lambda>r r'. \<exists>s. r' = sc_set c s r) (look t k) (look t'' k)"
    by (auto simp: option_rel_Some1 option_rel_Some2 set_set elim!: option.rel_cases) 
qed


lemma rewrite_row:
  assumes "ok t" "look t (sc_Id c row) = Some row"
    "t_Updates db ctx (\<lambda>r. sc_Id c r = sc_Id c row) (sc_set c s) t = (Inr n, t')"
  shows "ok t' \<and> look t' = (look t)(sc_Id c row \<mapsto> sc_set c s row) \<and> recoded t t'"
proof -
  have u: "t_Updates db ctx (\<lambda>r. sc_Id c r = sc_Id c row \<and> True) (sc_set c s) t = (Inr n, t')"
    using assms(3) by simp
  have "norm (sc_set c s row) = sc_set c s row" using look_norm[OF assms(1,2)] by (simp add: norm_set)
  then have l: "ok t'" "look t' = (look t)(sc_Id c row \<mapsto> sc_set c s row)"
    using updates_at[OF assms(1) u set_id] assms(2) by auto
  have "rel_option (\<lambda>r r'. \<exists>s. r' = sc_set c s r) (look t k) (look t' k)" for k
    using recoded_refl[of t] l(2) assms(2) unfolding recoded_def by (cases "k = sc_Id c row") auto
  then show ?thesis using l by (simp add: recoded_def)
qed

lemma rotate_rows_keeps:
  assumes "enc_inverts newEnc" "enc_separated oldEnc newEnc"
  shows "ok t \<Longrightarrow> all_readable oldEnc newEnc plain t \<Longrightarrow> distinct (map (sc_Id c) rows)
    \<Longrightarrow> \<forall>row \<in> set rows. look t (sc_Id c row) = Some row
    \<Longrightarrow> rotate_rows c db ctx oldEnc newEnc n rows t m = ((m', err), t')
    \<Longrightarrow> ok t' \<and> recoded t t' \<and> all_readable oldEnc newEnc plain t'
      \<and> (\<forall>k. k \<notin> sc_Id c ` set rows \<longrightarrow> look t' k = look t k)
      \<and> (err = None \<longrightarrow> (\<forall>row \<in> set rows. \<forall>r. look t' (sc_Id c row) = Some r
            \<longrightarrow> under newEnc (sc_get c r) (plain (sc_Id c row)) \<and> rejects oldEnc (sc_get c r)))
      \<and> (err = None \<longrightarrow> m' = m + length (filter (\<lambda>row. \<not> rejects oldEnc (sc_get c row)) rows))"
proof (induction rows arbitrary: t n m)
  case Nil
  then show ?case by (auto simp: recoded_refl)
next
  case (Cons row rows)
  let ?k = "sc_Id c row"
  have row: "look t ?k = Some row" and rest: "\<forall>r \<in> set rows. look t (sc_Id c r) = Some r"
    and fresh: "?k \<notin> sc_Id c ` set rows" and dist: "distinct (map (sc_Id c) rows)"
    using Cons.prems(3,4) by auto
  have rd: "readable oldEnc newEnc (sc_get c row) (plain ?k)"
    using Cons.prems(2) row by (simp add: all_readable_def)
  then obtain ct where ct: "b64_decode (sc_get c row) = Inr ct"
    by (auto simp: readable_def under_def rejects_def)
  show ?case
  proof (cases "en_Decrypt oldEnc ct")
    case (Inl e)
    then have new: "en_Decrypt newEnc ct = Inr (plain ?k)" using rd ct by (auto simp: readable_def under_def)
    have run: "rotate_rows c db ctx oldEnc newEnc n rows t m = ((m', err), t')"
      using Cons.prems(5) ct Inl new by simp
    have fin: "under newEnc (sc_get c row) (plain ?k)" "rejects oldEnc (sc_get c row)"
      using ct Inl new by (auto simp: under_def rejects_def)
    from Cons.IH[OF Cons.prems(1,2) dist rest run] show ?thesis using fin row fresh by auto
  next
    case (Inr p)
    then have p: "p = plain ?k" "\<not> rejects oldEnc (sc_get c row)"
      using rd ct by (auto simp: readable_def under_def rejects_def)
    show ?thesis
    proof (cases "en_Encrypt newEnc n p")
      case (Inl e)
      then show ?thesis using Cons.prems ct Inr by (auto simp: recoded_refl)
    next
      case enc: (Inr ct')
      obtain res t1 where u: "t_Updates db ctx (\<lambda>r. sc_Id c r = ?k) (sc_set c (EncodeToString ct')) t = (res, t1)"
        by fastforce
      show ?thesis
      proof (cases res)
        case (Inl e)
        then have "t' = t \<and> err \<noteq> None"
          using Cons.prems(5) ct Inr enc u updates_err[OF u[unfolded Inl]] by auto
        then show ?thesis using Cons.prems(1,2) by (auto simp: recoded_refl)
      next
        case written: (Inr k)
        note w = rewrite_row[OF Cons.prems(1) row u[unfolded written]]
        let ?new = "sc_set c (EncodeToString ct') row"
        have fin: "under newEnc (sc_get c ?new) (plain ?k)" "rejects oldEnc (sc_get c ?new)"
          using assms enc p unfolding under_def rejects_def enc_inverts_def enc_separated_def set_get b64_roundtrip
          by (auto) (metis sum.exhaust)
        have "all_readable oldEnc newEnc plain t1"
          using Cons.prems(2) w fin by (auto simp: all_readable_def readable_def)
        moreover have "\<forall>r \<in> set rows. look t1 (sc_Id c r) = Some r" using rest w fresh by (auto simp: image_iff)
        moreover have "rotate_rows c db ctx oldEnc newEnc (Suc n) rows t1 (Suc m) = ((m', err), t')"
          using Cons.prems(5) ct Inr enc u written by simp
        ultimately have ih: "ok t' \<and> recoded t1 t' \<and> all_readable oldEnc newEnc plain t'
          \<and> (\<forall>k. k \<notin> sc_Id c ` set rows \<longrightarrow> look t' k = look t1 k)
          \<and> (err = None \<longrightarrow> (\<forall>row \<in> set rows. \<forall>r. look t' (sc_Id c row) = Some r
              \<longrightarrow> under newEnc (sc_get c r) (plain (sc_Id c row)) \<and> rejects oldEnc (sc_get c r)))
          \<and> (err = None \<longrightarrow> m' = Suc m + length (filter (\<lambda>row. \<not> rejects oldEnc (sc_get c row)) rows))"
          using Cons.IH[OF _ _ dist, of t1 "Suc n" "Suc m"] w by blast
        moreover have "recoded t t'" using recoded_trans w ih by blast
        moreover have "look t' ?k = Some ?new" using ih fresh w by auto
        ultimately show ?thesis using fin p(2) w by auto
      qed
    qed
  qed
qed

lemma rotate_column_keeps:
  assumes "enc_inverts newEnc" "enc_separated oldEnc newEnc" "ok t" "all_readable oldEnc newEnc plain t"
    "rotate_column c db ctx oldEnc newEnc n t = ((m, err), t')"
  shows "ok t' \<and> recoded t t' \<and> all_readable oldEnc newEnc plain t'
    \<and> (err = None \<longrightarrow> (\<forall>k r. look t' k = Some r
         \<longrightarrow> under newEnc (sc_get c r) (plain k) \<and> rejects oldEnc (sc_get c r))
       \<and> m = card {k. \<exists>r. look t k = Some r \<and> \<not> rejects oldEnc (sc_get c r)})"
proof (cases "t_Find db ctx (\<lambda>r. True) [] None t")
  case (Inl e)
  then show ?thesis using assms(3-5) by (auto simp: rotate_column_def recoded_refl)
next
  case (Inr rows)
  from find_all[OF assms(3) Inr] have rows: "distinct rows" "set rows = {r. look t (sc_Id c r) = Some r}" by auto
  have inj: "inj_on (sc_Id c) (set rows)" unfolding rows(2) by (rule inj_onI) simp
  then have d: "distinct (map (sc_Id c) rows)" using rows(1) by (simp add: distinct_map)
  have keys: "look t k = Some r \<Longrightarrow> k \<in> sc_Id c ` set rows" for k r
    using look_id[OF assms(3)] rows(2) by (metis (mono_tags, lifting) imageI mem_Collect_eq)
  have run: "rotate_rows c db ctx oldEnc newEnc n rows t 0 = ((m, err), t')"
    using assms(5) Inr by (simp add: rotate_column_def)
  note k = rotate_rows_keeps[OF assms(1-4) d _ run]
  have all: "\<forall>row \<in> set rows. look t (sc_Id c row) = Some row" using rows(2) by auto
  have dom: "look t' k = Some r \<Longrightarrow> k \<in> sc_Id c ` set rows" for k r
    using k[OF all] keys by metis
  let ?P = "\<lambda>row. \<not> rejects oldEnc (sc_get c row)"
  have "{k. \<exists>r. look t k = Some r \<and> ?P r} = sc_Id c ` set (filter ?P rows)"
    using rows(2) look_id[OF assms(3)] by (auto simp: image_iff)
  moreover have "card (sc_Id c ` set (filter ?P rows)) = length (filter ?P rows)"
  proof -
    have "inj_on (sc_Id c) (set (filter ?P rows))" using inj by (rule inj_on_subset) auto
    then show ?thesis using rows(1) by (metis card_image distinct_card distinct_filter)
  qed
  moreover have "under newEnc (sc_get c r) (plain k') \<and> rejects oldEnc (sc_get c r)"
    if "err = None" "look t' k' = Some r" for k' r
    using k[OF all] that dom[OF that(2)] by auto
  ultimately show ?thesis using k[OF all] by auto
qed

end

end
