(* ===== verification/Directory_Service.thy ===== *)
theory Directory_Service
  imports Directory Key_Rotation Paging
begin

section \<open>Directory on Postgres: internal/directory/service.go, entities.go\<close>

text \<open>
  \<open>directory.Service\<close> over its four tables: accounts, vhosts, DKIM keys and mailboxes. \<open>dir_db\<close> is
  the state of the database and \<open>dir_env\<close> holds what the service is built from: the tables, the
  transaction, the encryptor, and what it calls of \<open>crypto/rsa\<close>, \<open>crypto/x509\<close>, \<open>encoding/pem\<close> and
  bcrypt. A private key is any value \<open>'k\<close>; here a text.
  Columns the code never reads are left out of the rows.
\<close>

subsection \<open>Rows\<close>

record account_row =
  ar_Id :: string
  ar_CreatedAt :: "time option"
  ar_Name :: string

record vhost_row =
  vr_Id :: string
  vr_AccountID :: string
  vr_Domain :: string
  vr_Active :: bool
  vr_MaxMessageBytes :: int
  vr_DailyQuota :: int
  vr_SpamRejectThreshold :: real
  vr_SpamQuarantineThreshold :: real
  vr_RetentionDays :: int

record mailbox_row =
  mr_Id :: string
  mr_VhostID :: string
  mr_LocalPart :: string
  mr_PasswordHash :: string

record dkim_key_row =
  dk_Id :: string
  dk_CreatedAt :: time
  dk_VhostID :: string
  dk_Selector :: string
  dk_PrivateKeyPEM :: string
  dk_Active :: bool

record ('a, 'v, 'd, 'm) dir_db =
  db_accounts :: 'a
  db_vhosts :: 'v
  db_dkim_keys :: 'd
  db_mailboxes :: 'm

record ('a, 'v, 'd, 'm) dir_env =
  de_accounts :: "(account_row, 'a) sql_ops"
  de_vhosts :: "(vhost_row, 'v) sql_ops"
  de_dkim_keys :: "(dkim_key_row, 'd) sql_ops"
  de_mailboxes :: "(mailbox_row, 'm) sql_ops"
  de_Begin :: "gerr option \<Rightarrow> ('a, 'v, 'd, 'm) dir_db \<Rightarrow> gerr option"
  de_Commit :: "gerr option \<Rightarrow> ('a, 'v, 'd, 'm) dir_db \<Rightarrow> gerr option"
  de_enc :: encryptor
  de_GenerateKey :: "nat \<Rightarrow> gerr + string"
  de_MarshalPKCS1 :: "string \<Rightarrow> bytes"
  de_ParsePKCS1 :: "bytes \<Rightarrow> gerr + string"
  de_pem_Encode :: "bytes \<Rightarrow> string"
  de_pem_Decode :: "string \<Rightarrow> bytes option"
  de_bcrypt :: "nat \<Rightarrow> bytes \<Rightarrow> gerr + string"
  de_bcrypt_ok :: "string \<Rightarrow> bytes \<Rightarrow> bool"

definition zero_vhost_row :: vhost_row where
  "zero_vhost_row = \<lparr>vr_Id = [], vr_AccountID = [], vr_Domain = [], vr_Active = False,
     vr_MaxMessageBytes = 0, vr_DailyQuota = 0, vr_SpamRejectThreshold = 0,
     vr_SpamQuarantineThreshold = 0, vr_RetentionDays = 0\<rparr>"

subsection \<open>Keys\<close>

definition encodeRSAKeyPEM :: "('a, 'v, 'd, 'm) dir_env \<Rightarrow> string \<Rightarrow> gerr + string" where
  "encodeRSAKeyPEM env key = Inr (de_pem_Encode env (de_MarshalPKCS1 env key))"

definition decodeRSAKeyPEM :: "('a, 'v, 'd, 'm) dir_env \<Rightarrow> string \<Rightarrow> gerr + string" where
  "decodeRSAKeyPEM env s =
     (case de_pem_Decode env s of
        None \<Rightarrow> Inl (ErrNew ''directory: no PEM block found'')
      | Some b \<Rightarrow> de_ParsePKCS1 env b)"

definition encryptPEM :: "('a, 'v, 'd, 'm) dir_env \<Rightarrow> nat \<Rightarrow> string \<Rightarrow> gerr + string" where
  "encryptPEM env n keyPEM =
     (case en_Encrypt (de_enc env) n keyPEM of
        Inl e \<Rightarrow> Inl (ErrWrap ''directory: encrypt'' e)
      | Inr ciphertext \<Rightarrow> Inr (EncodeToString ciphertext))"

definition decryptPEM :: "('a, 'v, 'd, 'm) dir_env \<Rightarrow> string \<Rightarrow> gerr + string" where
  "decryptPEM env stored =
     (case b64_decode stored of
        Inl e \<Rightarrow> Inl (ErrWrap ''directory: decode stored ciphertext'' e)
      | Inr ciphertext \<Rightarrow>
          (case en_Decrypt (de_enc env) ciphertext of
             Inl e \<Rightarrow> Inl (ErrWrap ''directory: decrypt'' e)
           | Inr plaintext \<Rightarrow> Inr plaintext))"

subsection \<open>Accounts\<close>

definition accountFromRow :: "time \<Rightarrow> account_row \<Rightarrow> account" where
  "accountFromRow zero row = \<lparr>acc_ID = ar_Id row, acc_Name = ar_Name row,
     acc_CreatedAt = (case ar_CreatedAt row of None \<Rightarrow> zero | Some t \<Rightarrow> t)\<rparr>"

definition zero_instant :: time where "zero_instant = - 62135596800 * 10 ^ 9"

definition Service_CreateAccount :: "('a, 'v, 'd, 'm) dir_env \<Rightarrow> gerr option \<Rightarrow> string \<Rightarrow> ('a, 'v, 'd, 'm) dir_db
    \<Rightarrow> (gerr + account) \<times> ('a, 'v, 'd, 'm) dir_db" where
  "Service_CreateAccount env ctx name db =
     (case t_Create (de_accounts env) ctx \<lparr>ar_Id = [], ar_CreatedAt = None, ar_Name = name\<rparr> (db_accounts db) of
        (Inl e, t) \<Rightarrow> (Inl (ErrWrap (''directory: create account '' @ go_quote name) e), db\<lparr>db_accounts := t\<rparr>)
      | (Inr row, t) \<Rightarrow> (Inr (accountFromRow zero_instant row), db\<lparr>db_accounts := t\<rparr>))"

definition Service_GetAccount :: "('a, 'v, 'd, 'm) dir_env \<Rightarrow> gerr option \<Rightarrow> string \<Rightarrow> ('a, 'v, 'd, 'm) dir_db
    \<Rightarrow> gerr + account" where
  "Service_GetAccount env ctx ident db =
     (case sql_First (de_accounts env) ar_Id ctx (\<lambda>r. ar_Id r = ident) [] (db_accounts db) of
        Inl e \<Rightarrow>
          if errors_is ''record not found'' e
          then Inl (ErrWrap (''directory: account '' @ go_quote ident) directory_ErrNotFound)
          else Inl (ErrWrap (''directory: get account '' @ go_quote ident) e)
      | Inr row \<Rightarrow> Inr (accountFromRow zero_instant row))"

text \<open>The page size every listing applies to its \<open>limit\<close>.\<close>

definition page_size :: "int \<Rightarrow> nat" where
  "page_size limit =
     (let limit = (if limit \<le> 0 then 100 else limit);
          limit = (if limit > 500 then 500 else limit)
      in nat limit)"

definition page_where :: "('r \<Rightarrow> string) \<Rightarrow> string \<Rightarrow> ('r \<Rightarrow> bool) \<Rightarrow> 'r \<Rightarrow> bool" where
  "page_where rid cursor P r \<longleftrightarrow> P r \<and> (cursor \<noteq> [] \<longrightarrow> rid r > cursor)"

definition Service_ListAccounts :: "('a, 'v, 'd, 'm) dir_env \<Rightarrow> gerr option \<Rightarrow> string \<Rightarrow> int
    \<Rightarrow> ('a, 'v, 'd, 'm) dir_db \<Rightarrow> gerr + account list" where
  "Service_ListAccounts env ctx cursor limit db =
     (case t_Find (de_accounts env) ctx (page_where ar_Id cursor (\<lambda>r. True)) [TextAsc ar_Id]
        (Some (page_size limit)) (db_accounts db) of
        Inl e \<Rightarrow> Inl (ErrWrap ''directory: list accounts'' e)
      | Inr rows \<Rightarrow> Inr (map (accountFromRow zero_instant) rows))"

subsection \<open>Vhosts\<close>

definition vhostFromRow :: "vhost_row \<Rightarrow> string option \<Rightarrow> vhost" where
  "vhostFromRow row key = \<lparr>vh_ID = vr_Id row, vh_AccountID = vr_AccountID row, vh_Domain = vr_Domain row,
     vh_Active = vr_Active row, vh_DKIMSelector = DefaultDKIMSelector, vh_DKIMKey = key,
     vh_MaxMessageBytes = vr_MaxMessageBytes row, vh_DailyQuota = vr_DailyQuota row,
     vh_SpamRejectThreshold = vr_SpamRejectThreshold row,
     vh_SpamQuarantineThreshold = vr_SpamQuarantineThreshold row,
     vh_RetentionDays = vr_RetentionDays row\<rparr>"

text \<open>The two inserts of \<open>CreateVhost\<close>, run in one transaction.\<close>

definition create_vhost_rows :: "('a, 'v, 'd, 'm) dir_env \<Rightarrow> gerr option \<Rightarrow> string \<Rightarrow> string \<Rightarrow> string
    \<Rightarrow> ('a, 'v, 'd, 'm) dir_db \<Rightarrow> (gerr + vhost_row \<times> dkim_key_row) \<times> ('a, 'v, 'd, 'm) dir_db" where
  "create_vhost_rows env ctx accountID domain encryptedPEM db =
     (case t_Create (de_vhosts env) ctx
        (zero_vhost_row\<lparr>vr_AccountID := accountID, vr_Domain := domain, vr_Active := True\<rparr>) (db_vhosts db) of
        (Inl e, tv) \<Rightarrow> (Inl e, db\<lparr>db_vhosts := tv\<rparr>)
      | (Inr row, tv) \<Rightarrow>
          (case t_Create (de_dkim_keys env) ctx
             \<lparr>dk_Id = [], dk_CreatedAt = 0, dk_VhostID = vr_Id row, dk_Selector = DefaultDKIMSelector,
              dk_PrivateKeyPEM = encryptedPEM, dk_Active = True\<rparr> (db_dkim_keys db) of
             (Inl e, td) \<Rightarrow> (Inl e, db\<lparr>db_vhosts := tv, db_dkim_keys := td\<rparr>)
           | (Inr dkimRow, td) \<Rightarrow> (Inr (row, dkimRow), db\<lparr>db_vhosts := tv, db_dkim_keys := td\<rparr>)))"

definition Service_CreateVhost :: "('a, 'v, 'd, 'm) dir_env \<Rightarrow> gerr option \<Rightarrow> nat \<Rightarrow> string \<Rightarrow> string
    \<Rightarrow> ('a, 'v, 'd, 'm) dir_db \<Rightarrow> (gerr + vhost) \<times> ('a, 'v, 'd, 'm) dir_db" where
  "Service_CreateVhost env ctx n accountID domain db =
     (case de_GenerateKey env n of
        Inl e \<Rightarrow> (Inl (ErrWrap (''directory: generate DKIM key for '' @ go_quote domain) e), db)
      | Inr key \<Rightarrow>
     (case encodeRSAKeyPEM env key of
        Inl e \<Rightarrow> (Inl (ErrWrap (''directory: encode DKIM key for '' @ go_quote domain) e), db)
      | Inr keyPEM \<Rightarrow>
     (case encryptPEM env n keyPEM of
        Inl e \<Rightarrow> (Inl (ErrWrap (''directory: encrypt DKIM key for '' @ go_quote domain) e), db)
      | Inr encryptedPEM \<Rightarrow>
     (case transaction (de_Begin env ctx) (de_Commit env ctx)
        (create_vhost_rows env ctx accountID domain encryptedPEM) db of
        (Inl e, db') \<Rightarrow> (Inl (ErrWrap (''directory: create vhost '' @ go_quote domain) e), db')
      | (Inr (row, dkimRow), db') \<Rightarrow>
          (Inr (zero_vhost\<lparr>vh_ID := vr_Id row, vh_AccountID := vr_AccountID row, vh_Domain := vr_Domain row,
             vh_Active := vr_Active row, vh_DKIMSelector := dk_Selector dkimRow, vh_DKIMKey := Some key\<rparr>), db')))))"

definition Service_ListVhosts :: "('a, 'v, 'd, 'm) dir_env \<Rightarrow> gerr option \<Rightarrow> string \<Rightarrow> int
    \<Rightarrow> ('a, 'v, 'd, 'm) dir_db \<Rightarrow> gerr + vhost list" where
  "Service_ListVhosts env ctx cursor limit db =
     (case t_Find (de_vhosts env) ctx (page_where vr_Id cursor (\<lambda>r. True)) [TextAsc vr_Id]
        (Some (page_size limit)) (db_vhosts db) of
        Inl e \<Rightarrow> Inl (ErrWrap ''directory: list vhosts'' e)
      | Inr rows \<Rightarrow> Inr (map (\<lambda>r. vhostFromRow r None) rows))"

definition hydrateVhost :: "('a, 'v, 'd, 'm) dir_env \<Rightarrow> gerr option \<Rightarrow> vhost_row \<Rightarrow> ('a, 'v, 'd, 'm) dir_db
    \<Rightarrow> gerr + vhost" where
  "hydrateVhost env ctx row db =
     (case sql_First (de_dkim_keys env) dk_Id ctx (\<lambda>k. dk_VhostID k = vr_Id row \<and> dk_Active k)
        [IntDesc dk_CreatedAt] (db_dkim_keys db) of
        Inl e \<Rightarrow>
          if errors_is ''record not found'' e then Inr (vhostFromRow row None)
          else Inl (ErrWrap (''directory: load DKIM key for vhost '' @ go_quote (vr_Domain row)) e)
      | Inr dkimRow \<Rightarrow>
          if dk_Id dkimRow = [] then Inr (vhostFromRow row None)
          else (case decryptPEM env (dk_PrivateKeyPEM dkimRow) of
             Inl e \<Rightarrow> Inl (ErrWrap (''directory: decrypt DKIM key for vhost '' @ go_quote (vr_Domain row)) e)
           | Inr keyPEM \<Rightarrow> (case decodeRSAKeyPEM env keyPEM of
               Inl e \<Rightarrow> Inl (ErrWrap (''directory: decode DKIM key for vhost '' @ go_quote (vr_Domain row)) e)
             | Inr key \<Rightarrow> Inr (vhostFromRow row (Some key)))))"

definition Service_GetVhost :: "('a, 'v, 'd, 'm) dir_env \<Rightarrow> gerr option \<Rightarrow> string \<Rightarrow> ('a, 'v, 'd, 'm) dir_db
    \<Rightarrow> gerr + vhost" where
  "Service_GetVhost env ctx ident db =
     (case sql_First (de_vhosts env) vr_Id ctx (\<lambda>r. vr_Id r = ident) [] (db_vhosts db) of
        Inl e \<Rightarrow>
          if errors_is ''record not found'' e
          then Inl (ErrWrap (''directory: vhost '' @ go_quote ident) directory_ErrNotFound)
          else Inl (ErrWrap (''directory: get vhost '' @ go_quote ident) e)
      | Inr row \<Rightarrow> hydrateVhost env ctx row db)"

definition Service_Vhost :: "('a, 'v, 'd, 'm) dir_env \<Rightarrow> gerr option \<Rightarrow> string \<Rightarrow> ('a, 'v, 'd, 'm) dir_db
    \<Rightarrow> vhost option" where
  "Service_Vhost env ctx domain db =
     (case sql_First (de_vhosts env) vr_Id ctx (\<lambda>r. vr_Domain r = domain) [] (db_vhosts db) of
        Inl e \<Rightarrow> None
      | Inr row \<Rightarrow> (case hydrateVhost env ctx row db of Inl e \<Rightarrow> None | Inr v \<Rightarrow> Some v))"

definition Service_VhostActive :: "('a, 'v, 'd, 'm) dir_env \<Rightarrow> gerr option \<Rightarrow> string \<Rightarrow> ('a, 'v, 'd, 'm) dir_db
    \<Rightarrow> bool" where
  "Service_VhostActive env ctx domain db =
     (case Service_Vhost env ctx domain db of None \<Rightarrow> False | Some v \<Rightarrow> vh_Active v)"

text \<open>An update or delete whose effect is checked by the number of rows it touched.\<close>

definition affected :: "string \<Rightarrow> string \<Rightarrow> gerr \<Rightarrow> (gerr + nat) \<times> 't \<Rightarrow> gerr option \<times> 't" where
  "affected verb what notFound res =
     (case res of
        (Inl e, t) \<Rightarrow> (Some (ErrWrap verb e), t)
      | (Inr n, t) \<Rightarrow> (if n = 0 then Some (ErrWrap what notFound) else None, t))"

definition Service_DeactivateVhost :: "('a, 'v, 'd, 'm) dir_env \<Rightarrow> gerr option \<Rightarrow> string
    \<Rightarrow> ('a, 'v, 'd, 'm) dir_db \<Rightarrow> gerr option \<times> ('a, 'v, 'd, 'm) dir_db" where
  "Service_DeactivateVhost env ctx ident db =
     (case affected (''directory: deactivate vhost '' @ go_quote ident) (''directory: vhost '' @ go_quote ident)
        directory_ErrNotFound
        (t_Updates (de_vhosts env) ctx (\<lambda>r. vr_Id r = ident) (\<lambda>r. r\<lparr>vr_Active := False\<rparr>) (db_vhosts db)) of
        (e, t) \<Rightarrow> (e, db\<lparr>db_vhosts := t\<rparr>))"

definition Service_UpdateVhostPolicy :: "('a, 'v, 'd, 'm) dir_env \<Rightarrow> gerr option \<Rightarrow> string \<Rightarrow> vhost_policy
    \<Rightarrow> ('a, 'v, 'd, 'm) dir_db \<Rightarrow> gerr option \<times> ('a, 'v, 'd, 'm) dir_db" where
  "Service_UpdateVhostPolicy env ctx ident policy db =
     (case affected (''directory: update vhost policy '' @ go_quote ident) (''directory: vhost '' @ go_quote ident)
        directory_ErrNotFound
        (t_Updates (de_vhosts env) ctx (\<lambda>r. vr_Id r = ident)
          (\<lambda>r. r\<lparr>vr_MaxMessageBytes := vp_MaxMessageBytes policy, vr_DailyQuota := vp_DailyQuota policy,
                vr_SpamRejectThreshold := vp_SpamRejectThreshold policy,
                vr_SpamQuarantineThreshold := vp_SpamQuarantineThreshold policy,
                vr_RetentionDays := vp_RetentionDays policy\<rparr>) (db_vhosts db)) of
        (e, t) \<Rightarrow> (e, db\<lparr>db_vhosts := t\<rparr>))"

definition dkim_column :: "dkim_key_row secret_column" where
  "dkim_column = \<lparr>sc_Id = dk_Id, sc_get = dk_PrivateKeyPEM, sc_set = (\<lambda>s r. r\<lparr>dk_PrivateKeyPEM := s\<rparr>),
     sc_list_text = ''directory: list dkim keys for rotation'',
     sc_decode_text = (\<lambda>i. ''directory: decode stored ciphertext for dkim key '' @ go_quote i),
     sc_decrypt_text = (\<lambda>i. ''directory: decrypt dkim key '' @ go_quote i @ '' under old key''),
     sc_encrypt_text = (\<lambda>i. ''directory: re-encrypt dkim key '' @ go_quote i @ '' under new key''),
     sc_write_text = (\<lambda>i. ''directory: write rotated dkim key '' @ go_quote i)\<rparr>"

definition RotateDKIMKeys :: "('a, 'v, 'd, 'm) dir_env \<Rightarrow> gerr option \<Rightarrow> encryptor \<Rightarrow> encryptor \<Rightarrow> nat
    \<Rightarrow> ('a, 'v, 'd, 'm) dir_db \<Rightarrow> (nat \<times> gerr option) \<times> ('a, 'v, 'd, 'm) dir_db" where
  "RotateDKIMKeys env ctx oldEnc newEnc n db =
     (case rotate_column dkim_column (de_dkim_keys env) ctx oldEnc newEnc n (db_dkim_keys db) of
        (r, t) \<Rightarrow> (r, db\<lparr>db_dkim_keys := t\<rparr>))"

subsection \<open>Mailboxes\<close>

definition mailboxFromRow :: "mailbox_row \<Rightarrow> mailbox" where
  "mailboxFromRow r = \<lparr>mbx_ID = mr_Id r, mbx_VhostID = mr_VhostID r, mbx_LocalPart = mr_LocalPart r,
     mbx_PasswordHash = mr_PasswordHash r\<rparr>"

definition Service_CreateMailbox :: "('a, 'v, 'd, 'm) dir_env \<Rightarrow> gerr option \<Rightarrow> nat \<Rightarrow> string \<Rightarrow> string \<Rightarrow> string
    \<Rightarrow> ('a, 'v, 'd, 'm) dir_db \<Rightarrow> (gerr + mailbox) \<times> ('a, 'v, 'd, 'm) dir_db" where
  "Service_CreateMailbox env ctx n vhostID localPart password db =
     (case de_bcrypt env n password of
        Inl e \<Rightarrow> (Inl (ErrWrap ''directory: hash password'' e), db)
      | Inr hash \<Rightarrow>
          (case t_Create (de_mailboxes env) ctx
             \<lparr>mr_Id = [], mr_VhostID = vhostID, mr_LocalPart = localPart, mr_PasswordHash = hash\<rparr> (db_mailboxes db) of
             (Inl e, t) \<Rightarrow> (Inl (ErrWrap (''directory: create mailbox '' @ go_quote localPart) e), db\<lparr>db_mailboxes := t\<rparr>)
           | (Inr row, t) \<Rightarrow> (Inr (mailboxFromRow row), db\<lparr>db_mailboxes := t\<rparr>)))"

definition Service_ListMailboxes :: "('a, 'v, 'd, 'm) dir_env \<Rightarrow> gerr option \<Rightarrow> string \<Rightarrow> ('a, 'v, 'd, 'm) dir_db
    \<Rightarrow> gerr + mailbox list" where
  "Service_ListMailboxes env ctx vhostID db =
     (case t_Find (de_mailboxes env) ctx (\<lambda>r. mr_VhostID r = vhostID) [TextAsc mr_Id] None (db_mailboxes db) of
        Inl e \<Rightarrow> Inl (ErrWrap (''directory: list mailboxes for vhost '' @ go_quote vhostID) e)
      | Inr rows \<Rightarrow> Inr (map mailboxFromRow rows))"

definition Service_ListMailboxesPage :: "('a, 'v, 'd, 'm) dir_env \<Rightarrow> gerr option \<Rightarrow> string \<Rightarrow> string \<Rightarrow> int
    \<Rightarrow> ('a, 'v, 'd, 'm) dir_db \<Rightarrow> gerr + mailbox list" where
  "Service_ListMailboxesPage env ctx vhostID cursor limit db =
     (case t_Find (de_mailboxes env) ctx (page_where mr_Id cursor (\<lambda>r. mr_VhostID r = vhostID)) [TextAsc mr_Id]
        (Some (page_size limit)) (db_mailboxes db) of
        Inl e \<Rightarrow> Inl (ErrWrap (''directory: list mailboxes for vhost '' @ go_quote vhostID) e)
      | Inr rows \<Rightarrow> Inr (map mailboxFromRow rows))"

definition Service_GetMailbox :: "('a, 'v, 'd, 'm) dir_env \<Rightarrow> gerr option \<Rightarrow> string \<Rightarrow> string
    \<Rightarrow> ('a, 'v, 'd, 'm) dir_db \<Rightarrow> gerr + mailbox" where
  "Service_GetMailbox env ctx vhostID mailboxID db =
     (case sql_First (de_mailboxes env) mr_Id ctx (\<lambda>r. mr_VhostID r = vhostID \<and> mr_Id r = mailboxID) []
        (db_mailboxes db) of
        Inl e \<Rightarrow>
          if errors_is ''record not found'' e
          then Inl (ErrWrap (''directory: mailbox '' @ go_quote mailboxID @ '' in vhost '' @ go_quote vhostID)
                 directory_ErrNotFound)
          else Inl (ErrWrap (''directory: get mailbox '' @ go_quote mailboxID) e)
      | Inr row \<Rightarrow> Inr (mailboxFromRow row))"

definition Service_DeleteMailbox :: "('a, 'v, 'd, 'm) dir_env \<Rightarrow> gerr option \<Rightarrow> string \<Rightarrow> string
    \<Rightarrow> ('a, 'v, 'd, 'm) dir_db \<Rightarrow> gerr option \<times> ('a, 'v, 'd, 'm) dir_db" where
  "Service_DeleteMailbox env ctx vhostID mailboxID db =
     (case affected (''directory: delete mailbox '' @ go_quote mailboxID)
        (''directory: mailbox '' @ go_quote mailboxID @ '' in vhost '' @ go_quote vhostID) directory_ErrNotFound
        (t_Delete (de_mailboxes env) ctx (\<lambda>r. mr_VhostID r = vhostID \<and> mr_Id r = mailboxID) (db_mailboxes db)) of
        (e, t) \<Rightarrow> (e, db\<lparr>db_mailboxes := t\<rparr>))"

definition Service_Authenticate :: "('a, 'v, 'd, 'm) dir_env \<Rightarrow> gerr option \<Rightarrow> string \<Rightarrow> string \<Rightarrow> string
    \<Rightarrow> ('a, 'v, 'd, 'm) dir_db \<Rightarrow> bool" where
  "Service_Authenticate env ctx vhost localPart password db =
     (case sql_First (de_vhosts env) vr_Id ctx (\<lambda>r. vr_Domain r = vhost) [] (db_vhosts db) of
        Inl e \<Rightarrow> False
      | Inr vhostRow \<Rightarrow>
          (case sql_First (de_mailboxes env) mr_Id ctx
             (\<lambda>r. mr_VhostID r = vr_Id vhostRow \<and> mr_LocalPart r = localPart) [] (db_mailboxes db) of
             Inl e \<Rightarrow> False
           | Inr row \<Rightarrow> de_bcrypt_ok env (mr_PasswordHash row) password))"

definition Service_ops :: "('a, 'v, 'd, 'm) dir_env \<Rightarrow> gerr option \<Rightarrow> ('a, 'v, 'd, 'm) dir_db directory_ops" where
  "Service_ops env ctx = \<lparr>dir_Vhost = Service_Vhost env ctx, dir_VhostActive = Service_VhostActive env ctx,
     dir_Authenticate = Service_Authenticate env ctx\<rparr>"

interpretation svc: directory_contract "Service_ops env ctx"
  by unfold_locales (simp add: Service_ops_def Service_VhostActive_def split: option.splits)

subsection \<open>The tables\<close>

definition vhost_row_filled :: "vhost_row \<Rightarrow> vhost_row \<Rightarrow> bool" where
  "vhost_row_filled r r' \<longleftrightarrow> vr_Id r' \<noteq> [] \<and> r' = (if vr_Id r = [] then r\<lparr>vr_Id := vr_Id r'\<rparr> else r)"

definition vhosts_table :: "(vhost_row, 'v) sql_ops \<Rightarrow> ('v \<Rightarrow> bool) \<Rightarrow> ('v \<Rightarrow> string \<Rightarrow> vhost_row option) \<Rightarrow> bool" where
  "vhosts_table t ok look \<longleftrightarrow>
     sql_table t ok look vr_Id vhost_row_filled (\<lambda>r r'. vr_Domain r = vr_Domain r') (\<lambda>r. r)"

definition dkim_row_filled :: "dkim_key_row \<Rightarrow> dkim_key_row \<Rightarrow> bool" where
  "dkim_row_filled r r' \<longleftrightarrow> dk_Id r' \<noteq> [] \<and> (dk_Id r \<noteq> [] \<longrightarrow> dk_Id r' = dk_Id r)
     \<and> r' = r\<lparr>dk_Id := dk_Id r', dk_CreatedAt := dk_CreatedAt r'\<rparr>"

definition dkim_row_norm :: "dkim_key_row \<Rightarrow> dkim_key_row" where
  "dkim_row_norm r = r\<lparr>dk_CreatedAt := dk_CreatedAt r div 1000 * 1000\<rparr>"

definition dkim_keys_table :: "(dkim_key_row, 'd) sql_ops \<Rightarrow> ('d \<Rightarrow> bool) \<Rightarrow> ('d \<Rightarrow> string \<Rightarrow> dkim_key_row option) \<Rightarrow> bool" where
  "dkim_keys_table t ok look \<longleftrightarrow> sql_table t ok look dk_Id dkim_row_filled (\<lambda>_ _. False) dkim_row_norm"

text \<open>Every key belongs to a vhost.\<close>

definition keys_owned :: "('v \<Rightarrow> string \<Rightarrow> vhost_row option) \<Rightarrow> ('d \<Rightarrow> string \<Rightarrow> dkim_key_row option)
    \<Rightarrow> ('a, 'v, 'd, 'm) dir_db \<Rightarrow> bool" where
  "keys_owned lookv lookd db \<longleftrightarrow>
     (\<forall>k r. lookd (db_dkim_keys db) k = Some r \<longrightarrow> lookv (db_vhosts db) (dk_VhostID r) \<noteq> None)"

text \<open>What the code relies on of \<open>encoding/pem\<close> and \<open>crypto/x509\<close>: decoding inverts encoding.\<close>

definition pem_inverts :: "('a, 'v, 'd, 'm) dir_env \<Rightarrow> bool" where
  "pem_inverts env \<longleftrightarrow> (\<forall>key. de_pem_Decode env (de_pem_Encode env (de_MarshalPKCS1 env key))
     = Some (de_MarshalPKCS1 env key) \<and> de_ParsePKCS1 env (de_MarshalPKCS1 env key) = Inr key)"

lemma encryptPEM_roundtrip:
  assumes "enc_inverts (de_enc env)" "encryptPEM env n s = Inr x"
  shows "decryptPEM env x = Inr s"
  using assms by (auto simp: encryptPEM_def decryptPEM_def enc_inverts_def split: sum.splits)

lemma key_roundtrip:
  assumes "pem_inverts env" "encodeRSAKeyPEM env key = Inr s"
  shows "decodeRSAKeyPEM env s = Inr key"
  using assms by (auto simp: encodeRSAKeyPEM_def decodeRSAKeyPEM_def pem_inverts_def)

lemma create_vhost_rows_ok:
  assumes "vhosts_table (de_vhosts env) okv lookv" "dkim_keys_table (de_dkim_keys env) okd lookd"
    "okv (db_vhosts db)" "okd (db_dkim_keys db)"
    "create_vhost_rows env ctx acct domain pem db = (Inr (row, dk), db')"
  shows "okv (db_vhosts db') \<and> okd (db_dkim_keys db') \<and> vr_Id row \<noteq> [] \<and> dk_Id dk \<noteq> []
    \<and> (\<exists>i. row = zero_vhost_row\<lparr>vr_Id := i, vr_AccountID := acct, vr_Domain := domain, vr_Active := True\<rparr>)
    \<and> dk_VhostID dk = vr_Id row \<and> dk_Selector dk = DefaultDKIMSelector \<and> dk_PrivateKeyPEM dk = pem \<and> dk_Active dk
    \<and> lookv (db_vhosts db) (vr_Id row) = None \<and> lookv (db_vhosts db') = (lookv (db_vhosts db))(vr_Id row \<mapsto> row)
    \<and> lookd (db_dkim_keys db') = (lookd (db_dkim_keys db))(dk_Id dk \<mapsto> dkim_row_norm dk)
    \<and> db_accounts db' = db_accounts db \<and> db_mailboxes db' = db_mailboxes db"
proof -
  let ?v = "zero_vhost_row\<lparr>vr_AccountID := acct, vr_Domain := domain, vr_Active := True\<rparr>"
  let ?d = "\<lparr>dk_Id = [], dk_CreatedAt = 0, dk_VhostID = vr_Id row, dk_Selector = DefaultDKIMSelector,
              dk_PrivateKeyPEM = pem, dk_Active = True\<rparr>"
  obtain tv td where v: "t_Create (de_vhosts env) ctx ?v (db_vhosts db) = (Inr row, tv)"
    and d: "t_Create (de_dkim_keys env) ctx ?d (db_dkim_keys db) = (Inr dk, td)"
    and db': "db' = db\<lparr>db_vhosts := tv, db_dkim_keys := td\<rparr>"
    using assms(5) by (auto simp: create_vhost_rows_def split: prod.splits sum.splits)
  note cv = sql_table.create_ok[OF assms(1)[unfolded vhosts_table_def] assms(3) v]
  note cd = sql_table.create_ok[OF assms(2)[unfolded dkim_keys_table_def] assms(4) d]
  have r: "row = ?v\<lparr>vr_Id := vr_Id row\<rparr>" "vr_Id row \<noteq> []"
    using cv by (auto simp: vhost_row_filled_def zero_vhost_row_def)
  have "\<exists>i. row = zero_vhost_row\<lparr>vr_Id := i, vr_AccountID := acct, vr_Domain := domain, vr_Active := True\<rparr>"
    using r(1) by (intro exI[of _ "vr_Id row"]) (simp add: zero_vhost_row_def)
  moreover have "dk_Id dk \<noteq> []" "dk_VhostID dk = vr_Id row" "dk_Selector dk = DefaultDKIMSelector"
    "dk_PrivateKeyPEM dk = pem" "dk_Active dk"
    using cd unfolding dkim_row_filled_def by (auto simp: dkim_key_row.splits) (metis dkim_key_row.select_convs(3-6) dkim_key_row.update_convs(1,2))+
  ultimately show ?thesis using cv cd db' r(2) by auto
qed

text \<open>A vhost with one active key of its own: what a read that succeeds returns.\<close>

lemma hydrateVhost_one_key:
  assumes "dkim_keys_table (de_dkim_keys env) okd lookd" "okd (db_dkim_keys db)"
    "lookd (db_dkim_keys db) k = Some dk" "dk_VhostID dk = vr_Id row" "dk_Active dk"
    "\<And>k' r. lookd (db_dkim_keys db) k' = Some r \<Longrightarrow> dk_VhostID r = vr_Id row \<Longrightarrow> r = dk"
    "dk_Id dk \<noteq> []" "decryptPEM env (dk_PrivateKeyPEM dk) = Inr pem" "decodeRSAKeyPEM env pem = Inr key"
    "hydrateVhost env ctx row db = Inr v"
  shows "v = vhostFromRow row (Some key)"
proof -
  let ?P = "\<lambda>k. dk_VhostID k = vr_Id row \<and> dk_Active k"
  note tab = assms(1)[unfolded dkim_keys_table_def]
  show ?thesis
  proof (cases "sql_First (de_dkim_keys env) dk_Id ctx ?P [IntDesc dk_CreatedAt] (db_dkim_keys db)")
    case (Inl e)
    then have "errors_is ''record not found'' e" using assms(10) by (auto simp: hydrateVhost_def split: if_splits)
    with sql_table.First_none[OF tab assms(2) Inl] assms(3-5) show ?thesis by blast
  next
    case (Inr r)
    then have "r = dk" using sql_table.First_ok[OF tab assms(2) Inr] assms(6) by blast
    then show ?thesis using Inr assms(7-10) by (simp add: hydrateVhost_def)
  qed
qed

text \<open>
  C38: \<open>CreateVhost\<close> is all or nothing, and what it created is what later reads return: after an
  error the database is as it was; after a success the vhost is active under the account and the
  domain that were given, no vhost had its ID, every key still belongs to a vhost, and a \<open>GetVhost\<close>
  by its ID or a \<open>Vhost\<close> by its domain that succeeds returns the same vhost with the same private
  key, through PEM, encryption and base64 and back.
\<close>

theorem CreateVhost_roundtrip:
  assumes "vhosts_table (de_vhosts env) okv lookv" and "dkim_keys_table (de_dkim_keys env) okd lookd"
    and "okv (db_vhosts db)" and "okd (db_dkim_keys db)" and "keys_owned lookv lookd db"
    and "enc_inverts (de_enc env)" and "pem_inverts env"
    and "Service_CreateVhost env ctx n accountID domain db = (res, db')"
  shows "case res of Inl e \<Rightarrow> db' = db
    | Inr v \<Rightarrow> vh_Active v \<and> vh_Domain v = domain \<and> vh_AccountID v = accountID \<and> vh_DKIMKey v \<noteq> None
        \<and> lookv (db_vhosts db) (vh_ID v) = None \<and> keys_owned lookv lookd db'
        \<and> (\<forall>ctx' v'. Service_GetVhost env ctx' (vh_ID v) db' = Inr v' \<longrightarrow> v' = v)
        \<and> (\<forall>ctx' v'. Service_Vhost env ctx' domain db' = Some v' \<longrightarrow> v' = v)"
proof (cases res)
  case (Inl e)
  then show ?thesis using assms(8) transaction_error
    by (fastforce simp: Service_CreateVhost_def split: sum.splits prod.splits)
next
  case (Inr v)
  obtain key s pem row dk where key: "encodeRSAKeyPEM env key = Inr s" "encryptPEM env n s = Inr pem"
    and tx: "transaction (de_Begin env ctx) (de_Commit env ctx) (create_vhost_rows env ctx accountID domain pem) db
      = (Inr (row, dk), db')"
    and v: "v = zero_vhost\<lparr>vh_ID := vr_Id row, vh_AccountID := vr_AccountID row, vh_Domain := vr_Domain row,
             vh_Active := vr_Active row, vh_DKIMSelector := dk_Selector dk, vh_DKIMKey := Some key\<rparr>"
    using assms(8) Inr by (auto simp: Service_CreateVhost_def split: sum.splits prod.splits)
  note c = create_vhost_rows_ok[OF assms(1-4) transaction_ok[OF tx]]
  have okv: "okv (db_vhosts db')"
    and lookv: "lookv (db_vhosts db') = (lookv (db_vhosts db))(vr_Id row \<mapsto> row)" using c by blast+
  have row: "vr_Active row" "vr_Domain row = domain" "vr_AccountID row = accountID"
    using c by auto
  have v': "v = vhostFromRow row (Some key)"
    unfolding v vhostFromRow_def zero_vhost_def using c by (auto simp: zero_vhost_row_def)
  have dec: "decryptPEM env pem = Inr s" "decodeRSAKeyPEM env s = Inr key"
    using encryptPEM_roundtrip[OF assms(6) key(2)] key_roundtrip[OF assms(7) key(1)] by auto
  have only: "r = dkim_row_norm dk" if "lookd (db_dkim_keys db') k' = Some r" "dk_VhostID r = vr_Id row" for k' r
  proof (cases "k' = dk_Id dk")
    case False
    then have "lookv (db_vhosts db) (dk_VhostID r) \<noteq> None" using that(1) c assms(5) by (auto simp: keys_owned_def)
    then show ?thesis using that(2) c by simp
  qed (use that c in simp)
  have hyd: "x = v" if "hydrateVhost env ctx' row db' = Inr x" for ctx' x
    unfolding v' by (rule hydrateVhost_one_key[OF assms(2), of db' "dk_Id dk" "dkim_row_norm dk" row s key ctx'])
      (use c dec that only in \<open>auto simp: dkim_row_norm_def\<close>)
  have "x = v" if g: "Service_GetVhost env ctx' (vh_ID v) db' = Inr x" for ctx' x
  proof -
    obtain r where r: "sql_First (de_vhosts env) vr_Id ctx' (\<lambda>r. vr_Id r = vr_Id row) [] (db_vhosts db') = Inr r"
      "hydrateVhost env ctx' r db' = Inr x"
      using g v by (auto simp: Service_GetVhost_def split: sum.splits if_splits)
    have "lookv (db_vhosts db') (vr_Id r) = Some r" "vr_Id r = vr_Id row"
      using sql_table.First_ok[OF assms(1)[unfolded vhosts_table_def] okv r(1)] by blast+
    then have "r = row" using lookv by simp
    then show ?thesis using hyd r(2) by blast
  qed
  moreover have "x = v" if g: "Service_Vhost env ctx' domain db' = Some x" for ctx' x
  proof -
    obtain r where r: "sql_First (de_vhosts env) vr_Id ctx' (\<lambda>r. vr_Domain r = domain) [] (db_vhosts db') = Inr r"
      "hydrateVhost env ctx' r db' = Inr x"
      using g by (auto simp: Service_Vhost_def split: sum.splits)
    have l: "lookv (db_vhosts db') (vr_Id r) = Some r" "vr_Domain r = domain" "okv (db_vhosts db')"
      using sql_table.First_ok[OF assms(1)[unfolded vhosts_table_def] okv r(1)] okv by blast+
    have lr: "lookv (db_vhosts db') (vr_Id row) = Some row" using lookv by simp
    have "vr_Id r = vr_Id row"
    proof (rule ccontr)
      assume "vr_Id r \<noteq> vr_Id row"
      from sql_table.look_unique[OF assms(1)[unfolded vhosts_table_def] l(3,1) lr this]
      show False using l(2) row(2) by simp
    qed
    then have "r = row" using l(1) lr by (metis option.inject)
    then show ?thesis using hyd r(2) by blast
  qed
  moreover have "keys_owned lookv lookd db'"
    using assms(5) c unfolding keys_owned_def by (auto simp: dkim_row_norm_def)
  moreover have "lookv (db_vhosts db) (vr_Id row) = None" using c by blast
  ultimately show ?thesis using Inr v row by simp
qed

lemma dkim_secret_table:
  assumes "dkim_keys_table t ok look"
  shows "secret_table dkim_column t ok look dkim_row_filled (\<lambda>_ _. False) dkim_row_norm"
proof -
  have "sql_table t ok look (sc_Id dkim_column) dkim_row_filled (\<lambda>_ _. False) dkim_row_norm"
    using assms by (simp add: dkim_keys_table_def dkim_column_def)
  then show ?thesis
    by (simp add: secret_table_def secret_table_axioms_def dkim_column_def dkim_row_norm_def)
qed

lemma decryptPEM_under: "decryptPEM (env\<lparr>de_enc := enc\<rparr>) s = Inr p \<longleftrightarrow> under enc s p"
  by (auto simp: decryptPEM_def under_def split: sum.splits)

text \<open>
  \<open>RotateDKIMKeys\<close> loses no key, wherever it stops, and can be run again. Start from a table in
  which every row decrypts to its key under the old master key or, if an earlier run was cut short,
  under the new one. However the run ends, the same rows are there, they differ at most in the
  stored ciphertext, and each still decrypts to its key under the old key or, where the old key
  rejects it, under the new one, which is the condition to run it again. When it reports success,
  \<open>decryptPEM\<close> of a service with the new master key yields every key, the old master key yields
  none, and the count it returns is the number of rows it re-encrypted.
\<close>

theorem RotateDKIMKeys_resumable:
  assumes "dkim_keys_table (de_dkim_keys env) okd lookd" and "okd (db_dkim_keys db)"
    and "aead_inverts newKey" and "aead_separated oldKey newKey" and "fills_buffer rnd"
    and "oldEnc = AESGCMEncryptor rnd oldKey" and "newEnc = AESGCMEncryptor rnd newKey"
    and "\<forall>k r. lookd (db_dkim_keys db) k = Some r \<longrightarrow> readable oldEnc newEnc (dk_PrivateKeyPEM r) (plain k)"
    and "RotateDKIMKeys env ctx oldEnc newEnc n db = ((rotated, err), db')"
  shows "(\<forall>k. (case lookd (db_dkim_keys db) k of
        None \<Rightarrow> lookd (db_dkim_keys db') k = None
      | Some r \<Rightarrow> \<exists>s. lookd (db_dkim_keys db') k = Some (r\<lparr>dk_PrivateKeyPEM := s\<rparr>)
          \<and> readable oldEnc newEnc s (plain k)
          \<and> (err = None \<longrightarrow> decryptPEM (env\<lparr>de_enc := newEnc\<rparr>) s = Inr (plain k)
               \<and> (\<forall>p. decryptPEM (env\<lparr>de_enc := oldEnc\<rparr>) s \<noteq> Inr p))))
    \<and> (err = None \<longrightarrow> rotated = card {k. \<exists>r. lookd (db_dkim_keys db) k = Some r
         \<and> (\<exists>p. decryptPEM (env\<lparr>de_enc := oldEnc\<rparr>) (dk_PrivateKeyPEM r) = Inr p)})
    \<and> db_vhosts db' = db_vhosts db \<and> db_accounts db' = db_accounts db \<and> db_mailboxes db' = db_mailboxes db"
proof -
  note st = dkim_secret_table[OF assms(1)]
  obtain t' where rot: "rotate_column dkim_column (de_dkim_keys env) ctx oldEnc newEnc n (db_dkim_keys db)
      = ((rotated, err), t')" and db': "db' = db\<lparr>db_dkim_keys := t'\<rparr>"
    using assms(9) by (auto simp: RotateDKIMKeys_def split: prod.splits)
  have enc: "enc_inverts newEnc" "enc_separated oldEnc newEnc"
    using assms(3-7) AESGCM_inverts AESGCM_separated by auto
  have g: "sc_get dkim_column = dk_PrivateKeyPEM" by (simp add: dkim_column_def)
  have "secret_table.all_readable dkim_column lookd oldEnc newEnc plain (db_dkim_keys db)"
    unfolding secret_table.all_readable_def[OF st] g using assms(8) by blast
  note k = secret_table.rotate_column_keeps[OF st enc assms(2) this rot,
    unfolded secret_table.all_readable_def[OF st] secret_table.recoded_def[OF st] g]
  have not: "(\<exists>p. under oldEnc s p) \<longleftrightarrow> \<not> rejects oldEnc s" if "readable oldEnc newEnc s p'" for s p'
    using that by (auto simp: readable_def under_def rejects_def)
  have row: "case lookd (db_dkim_keys db) k of
        None \<Rightarrow> lookd t' k = None
      | Some r \<Rightarrow> \<exists>s. lookd t' k = Some (r\<lparr>dk_PrivateKeyPEM := s\<rparr>) \<and> readable oldEnc newEnc s (plain k)
          \<and> (err = None \<longrightarrow> under newEnc s (plain k) \<and> (\<forall>p. \<not> under oldEnc s p))" for k
  proof (cases "lookd (db_dkim_keys db) k")
    case None
    then show ?thesis using k by (auto dest: spec[of _ k])
  next
    case (Some r)
    then obtain s where s: "lookd t' k = Some (r\<lparr>dk_PrivateKeyPEM := s\<rparr>)"
      using k by (auto simp: option_rel_Some1 dkim_column_def dest!: spec[of _ k])
    then have "readable oldEnc newEnc s (plain k)" using k by fastforce
    moreover have "under newEnc s (plain k) \<and> rejects oldEnc s" if "err = None" using k s that by fastforce
    ultimately show ?thesis using Some s not by fastforce
  qed
  have "{k. \<exists>r. lookd (db_dkim_keys db) k = Some r \<and> \<not> rejects oldEnc (dk_PrivateKeyPEM r)}
    = {k. \<exists>r. lookd (db_dkim_keys db) k = Some r \<and> (\<exists>p. under oldEnc (dk_PrivateKeyPEM r) p)}"
    using not assms(8) by blast
  then have "err = None \<longrightarrow> rotated = card {k. \<exists>r. lookd (db_dkim_keys db) k = Some r
      \<and> (\<exists>p. under oldEnc (dk_PrivateKeyPEM r) p)}" using k by simp
  moreover have "db_dkim_keys db' = t'" "db_vhosts db' = db_vhosts db" "db_accounts db' = db_accounts db"
    "db_mailboxes db' = db_mailboxes db" using db' by simp_all
  ultimately show ?thesis using row unfolding decryptPEM_under by presburger
qed

subsection \<open>A directory in memory\<close>

definition vhost_row_fill :: "vhost_row list_table \<Rightarrow> vhost_row \<Rightarrow> vhost_row" where
  "vhost_row_fill t r = (if vr_Id r = [] then r\<lparr>vr_Id := concat (lt_used t) @ ''v''\<rparr> else r)"

definition dkim_row_fill :: "dkim_key_row list_table \<Rightarrow> dkim_key_row \<Rightarrow> dkim_key_row" where
  "dkim_row_fill t r = (if dk_Id r = [] then r\<lparr>dk_Id := concat (lt_used t) @ ''d''\<rparr> else r)\<lparr>dk_CreatedAt := 1700000000123456789\<rparr>"

interpretation vlt: list_table vr_Id vhost_row_fill vhost_row_filled "\<lambda>r r'. vr_Domain r = vr_Domain r'" "\<lambda>r. r"
  by unfold_locales (auto simp: vhost_row_filled_def vhost_row_fill_def)

interpretation dlt: list_table dk_Id dkim_row_fill dkim_row_filled "\<lambda>_ _. False" dkim_row_norm
  by unfold_locales (auto simp: dkim_row_filled_def dkim_row_fill_def dkim_row_norm_def)

type_synonym demo_dir_db = "(unit, vhost_row list_table, dkim_key_row list_table, unit) dir_db"

definition no_table :: "('r, unit) sql_ops" where
  "no_table = \<lparr>t_Create = (\<lambda>ctx r t. (Inl (ErrCtx ''closed''), t)), t_Find = (\<lambda>ctx P ks lim t. Inl (ErrCtx ''closed'')),
     t_Updates = (\<lambda>ctx P f t. (Inl (ErrCtx ''closed''), t)), t_Delete = (\<lambda>ctx P t. (Inl (ErrCtx ''closed''), t)),
     t_Count = (\<lambda>ctx P t. Inl (ErrCtx ''closed'')), t_Begin = (\<lambda>ctx t. None), t_Commit = (\<lambda>ctx t. None)\<rparr>"

definition demo_key :: "char \<Rightarrow> encryptor" where
  "demo_key k = AESGCMEncryptor zero_rand (tag_aead k)"

definition demo_dir_env :: "(unit, vhost_row list_table, dkim_key_row list_table, unit) dir_env" where
  "demo_dir_env = \<lparr>de_accounts = no_table,
     de_vhosts = list_table_ops vr_Id vhost_row_fill (\<lambda>r r'. vr_Domain r = vr_Domain r') (\<lambda>r. r),
     de_dkim_keys = list_table_ops dk_Id dkim_row_fill (\<lambda>_ _. False) dkim_row_norm,
     de_mailboxes = no_table, de_Begin = (\<lambda>ctx db. ctx), de_Commit = (\<lambda>ctx db. ctx),
     de_enc = demo_key (CHR ''a''), de_GenerateKey = (\<lambda>n. Inr ''secret''),
     de_MarshalPKCS1 = (\<lambda>k. k), de_ParsePKCS1 = Inr, de_pem_Encode = (\<lambda>b. ''PEM '' @ b),
     de_pem_Decode = (\<lambda>s. Some (drop 4 s)), de_bcrypt = (\<lambda>n p. Inr p), de_bcrypt_ok = (=)\<rparr>"

definition demo_dir_db :: demo_dir_db where
  "demo_dir_db = \<lparr>db_accounts = (), db_vhosts = empty_table, db_dkim_keys = empty_table, db_mailboxes = ()\<rparr>"

definition demo_vhosts_ok :: "vhost_row list_table \<Rightarrow> bool" where
  "demo_vhosts_ok = lt_ok vr_Id (\<lambda>r r'. vr_Domain r = vr_Domain r') (\<lambda>r. r)"

definition demo_dkim_ok :: "dkim_key_row list_table \<Rightarrow> bool" where
  "demo_dkim_ok = lt_ok dk_Id (\<lambda>_ _. False) dkim_row_norm"

lemma demo_dir_tables:
  "vhosts_table (de_vhosts demo_dir_env) demo_vhosts_ok (lt_look vr_Id)"
  "dkim_keys_table (de_dkim_keys demo_dir_env) demo_dkim_ok (lt_look dk_Id)"
  using vlt.sql_table_axioms dlt.sql_table_axioms
  by (simp_all add: vhosts_table_def dkim_keys_table_def demo_dir_env_def demo_vhosts_ok_def demo_dkim_ok_def)

interpretation dsc: secret_table dkim_column "de_dkim_keys demo_dir_env" demo_dkim_ok "lt_look dk_Id" dkim_row_filled "\<lambda>_ _. False" dkim_row_norm
  by (rule dkim_secret_table[OF demo_dir_tables(2)])

lemma demo_dir_crypto: "enc_inverts (de_enc demo_dir_env)" "pem_inverts demo_dir_env"
  using AESGCM_inverts tag_aead_laws(1,3)
  by (auto simp: demo_dir_env_def demo_key_def pem_inverts_def)

theorem CreateVhost_roundtrip_witness:
  "\<exists>v db'. Service_CreateVhost demo_dir_env None 0 ''acc'' ''a.test'' demo_dir_db = (Inr v, db')
     \<and> vh_Domain v = ''a.test'' \<and> vh_Active v
     \<and> (\<forall>ctx' v'. Service_GetVhost demo_dir_env ctx' (vh_ID v) db' = Inr v' \<longrightarrow> v' = v)"
proof -
  obtain res db' where c: "Service_CreateVhost demo_dir_env None 0 ''acc'' ''a.test'' demo_dir_db = (res, db')"
    by fastforce
  then obtain v where v: "res = Inr v"
    by (auto simp: Service_CreateVhost_def demo_dir_env_def encodeRSAKeyPEM_def encryptPEM_def demo_key_def
        AESGCMEncryptor_def AESGCM_Encrypt_def zero_rand_def transaction_def create_vhost_rows_def
        list_table_ops_def lt_Create_def demo_dir_db_def empty_table_def vhost_row_fill_def dkim_row_fill_def
        zero_vhost_row_def Let_def)
  have "demo_vhosts_ok (db_vhosts demo_dir_db)" "demo_dkim_ok (db_dkim_keys demo_dir_db)"
    "keys_owned (lt_look vr_Id) (lt_look dk_Id) demo_dir_db"
    by (auto simp: demo_vhosts_ok_def demo_dkim_ok_def lt_ok_def demo_dir_db_def empty_table_def
        keys_owned_def lt_look_def)
  from CreateVhost_roundtrip[OF demo_dir_tables this demo_dir_crypto c] c v show ?thesis by auto
qed

definition demo_sealed :: "char \<Rightarrow> string" where
  "demo_sealed k = EncodeToString (replicate 12 (CHR ''0'') @ ''PEM secret'' @ [k])"

definition demo_dkim_row :: "string \<Rightarrow> dkim_key_row" where
  "demo_dkim_row s = \<lparr>dk_Id = ''d'', dk_CreatedAt = 1000, dk_VhostID = ''v'', dk_Selector = ''envelope'',
     dk_PrivateKeyPEM = s, dk_Active = True\<rparr>"

definition demo_rotate_db :: demo_dir_db where
  "demo_rotate_db = demo_dir_db\<lparr>db_dkim_keys := \<lparr>lt_rows = [demo_dkim_row (demo_sealed (CHR ''a''))], lt_used = [''d'']\<rparr>\<rparr>"

theorem RotateDKIMKeys_resumable_witness:
  "\<exists>db'. RotateDKIMKeys demo_dir_env None (demo_key (CHR ''a'')) (demo_key (CHR ''b'')) 0 demo_rotate_db
       = ((1, None), db')
     \<and> (\<exists>s. lt_look dk_Id (db_dkim_keys db') ''d'' = Some (demo_dkim_row s)
        \<and> decryptPEM (demo_dir_env\<lparr>de_enc := demo_key (CHR ''b'')\<rparr>) s = Inr ''PEM secret'')"
proof -
  have ok: "demo_dkim_ok (db_dkim_keys demo_rotate_db)"
    by (auto simp: demo_dkim_ok_def lt_ok_def demo_rotate_db_def demo_dkim_row_def dkim_row_norm_def)
  have l: "lt_look dk_Id (db_dkim_keys demo_rotate_db) k
      = (if k = ''d'' then Some (demo_dkim_row (demo_sealed (CHR ''a''))) else None)" for k
    by (simp add: lt_look_def demo_rotate_db_def demo_dkim_row_def)
  have "under (demo_key (CHR ''a'')) (demo_sealed (CHR ''a'')) ''PEM secret''"
    unfolding under_def demo_sealed_def
    by (intro exI[of _ "replicate 12 (CHR ''0'') @ ''PEM secret'' @ ''a''"])
      (simp add: demo_key_def AESGCMEncryptor_def AESGCM_Decrypt_def tag_aead_def)
  then have rd: "\<forall>k r. lt_look dk_Id (db_dkim_keys demo_rotate_db) k = Some r
      \<longrightarrow> readable (demo_key (CHR ''a'')) (demo_key (CHR ''b'')) (dk_PrivateKeyPEM r) ''PEM secret''"
    using l by (auto simp: demo_dkim_row_def readable_def split: if_splits)
  obtain m err db' where run: "RotateDKIMKeys demo_dir_env None (demo_key (CHR ''a'')) (demo_key (CHR ''b'')) 0 demo_rotate_db
      = ((m, err), db')" by (metis prod.collapse)
  then have e: "m = 1 \<and> err = None"
    by (auto simp: RotateDKIMKeys_def rotate_column_def demo_dir_env_def list_table_ops_def lt_Find_def
        demo_rotate_db_def sort_rows_def dkim_column_def demo_dkim_row_def demo_sealed_def demo_key_def
        AESGCMEncryptor_def AESGCM_Decrypt_def AESGCM_Encrypt_def tag_aead_def zero_rand_def lt_Updates_def
        lt_ok_def dkim_row_norm_def Let_def)
  have sep: "aead_separated (tag_aead (CHR ''a'')) (tag_aead (CHR ''b''))" by (simp add: tag_aead_laws(2))
  note rotated = RotateDKIMKeys_resumable[where plain = "\<lambda>_. ''PEM secret''", OF demo_dir_tables(2) ok tag_aead_laws(1) sep
      tag_aead_laws(3) demo_key_def demo_key_def rd run]
  from conjunct1[OF rotated, THEN spec, of "''d''"] have "\<exists>s. lt_look dk_Id (db_dkim_keys db') ''d'' = Some (demo_dkim_row s)
      \<and> decryptPEM (demo_dir_env\<lparr>de_enc := demo_key (CHR ''b'')\<rparr>) s = Inr ''PEM secret''"
    using l e by (auto simp: demo_dkim_row_def)
  then show ?thesis using run e by blast
qed

end
