(* ===== verification/Audit_Trail.thy ===== *)
theory Audit_Trail
  imports Sql_Table Paging
begin

section \<open>Audit log: internal/audit\<close>

text \<open>
  The \<open>Store\<close> interface of the audit log as a record of operations, its in-memory and its Postgres
  implementation. Both are append only. \<open>now\<close> is \<open>time.Now()\<close> and \<open>uuid\<close> the identifier the call
  draws.
\<close>

record audit_entry =
  ae_ID :: string
  ae_Actor :: string
  ae_Action :: string
  ae_Target :: string
  ae_Detail :: string
  ae_At :: time

record 's audit_store =
  au_Record :: "gerr option \<Rightarrow> time \<Rightarrow> string \<Rightarrow> audit_entry \<Rightarrow> 's \<Rightarrow> gerr option \<times> 's"
  au_List :: "gerr option \<Rightarrow> string \<Rightarrow> 's \<Rightarrow> gerr + audit_entry list"
  au_ListPage :: "gerr option \<Rightarrow> string \<Rightarrow> string \<Rightarrow> int \<Rightarrow> 's \<Rightarrow> gerr + audit_entry list"

text \<open>The zero \<open>time.Time\<close>, for \<open>IsZero\<close>.\<close>

definition audit_zero_time :: time where "audit_zero_time = - 62135596800 * 10 ^ 9"

definition stamp_entry :: "time \<Rightarrow> audit_entry \<Rightarrow> audit_entry" where
  "stamp_entry now entry = (if ae_At entry = audit_zero_time then entry\<lparr>ae_At := now\<rparr> else entry)"

subsection \<open>In memory\<close>

type_synonym audit_memory = "audit_entry list"

definition audit_memory_Record :: "gerr option \<Rightarrow> time \<Rightarrow> string \<Rightarrow> audit_entry \<Rightarrow> audit_memory
    \<Rightarrow> gerr option \<times> audit_memory" where
  "audit_memory_Record ctx now uuid entry m =
     (if ctx \<noteq> None then (ctx, m)
      else (None, m @ [(stamp_entry now entry)\<lparr>ae_ID := uuid\<rparr>]))"

definition audit_memory_List :: "gerr option \<Rightarrow> string \<Rightarrow> audit_memory \<Rightarrow> gerr + audit_entry list" where
  "audit_memory_List ctx target m =
     (case ctx of Some e \<Rightarrow> Inl e | None \<Rightarrow> Inr (filter (\<lambda>e. ae_Target e = target) (rev m)))"

definition audit_memory_ListPage :: "gerr option \<Rightarrow> string \<Rightarrow> string \<Rightarrow> int \<Rightarrow> audit_memory
    \<Rightarrow> gerr + audit_entry list" where
  "audit_memory_ListPage ctx target cursor limit m =
     (case audit_memory_List ctx target m of
        Inl e \<Rightarrow> Inl e
      | Inr all \<Rightarrow>
          Inr (page_from ae_ID cursor (nat (if limit \<le> 0 \<or> limit > 500 then 100 else limit)) all))"

definition audit_memory_ops :: "audit_memory audit_store" where
  "audit_memory_ops = \<lparr>au_Record = audit_memory_Record, au_List = audit_memory_List,
     au_ListPage = audit_memory_ListPage\<rparr>"

subsection \<open>Postgres\<close>

record entry_row =
  er_Id :: string
  er_Actor :: string
  er_Action :: string
  er_Target :: string
  er_Detail :: string
  er_At :: time

definition entryFromRow :: "entry_row \<Rightarrow> audit_entry" where
  "entryFromRow r = \<lparr>ae_ID = er_Id r, ae_Actor = er_Actor r, ae_Action = er_Action r,
     ae_Target = er_Target r, ae_Detail = er_Detail r, ae_At = er_At r\<rparr>"

definition audit_pg_Record :: "(entry_row, 't) sql_ops \<Rightarrow> gerr option \<Rightarrow> time \<Rightarrow> string \<Rightarrow> audit_entry \<Rightarrow> 't
    \<Rightarrow> gerr option \<times> 't" where
  "audit_pg_Record db ctx now uuid entry t =
     (let entry = stamp_entry now entry in
      case t_Create db ctx \<lparr>er_Id = uuid, er_Actor = ae_Actor entry, er_Action = ae_Action entry,
        er_Target = ae_Target entry, er_Detail = ae_Detail entry, er_At = ae_At entry\<rparr> t of
        (Inl e, t') \<Rightarrow> (Some (ErrWrap ''audit: record entry'' e), t')
      | (Inr row, t') \<Rightarrow> (None, t'))"

definition newest_first :: "entry_row order_key list" where
  "newest_first = [IntDesc er_At, TextDesc er_Id]"

definition audit_pg_List :: "(entry_row, 't) sql_ops \<Rightarrow> gerr option \<Rightarrow> string \<Rightarrow> 't \<Rightarrow> gerr + audit_entry list" where
  "audit_pg_List db ctx target t =
     (case t_Find db ctx (\<lambda>r. er_Target r = target) newest_first None t of
        Inl e \<Rightarrow> Inl (ErrWrap (''audit: list entries for target '' @ go_quote target) e)
      | Inr rows \<Rightarrow> Inr (map entryFromRow rows))"

definition audit_limit :: "int \<Rightarrow> nat" where
  "audit_limit limit =
     (let limit = (if limit \<le> 0 then 100 else limit);
          limit = (if limit > 500 then 500 else limit)
      in nat limit)"

definition older_than :: "entry_row \<Rightarrow> entry_row \<Rightarrow> bool" where
  "older_than after r \<longleftrightarrow> er_At r < er_At after \<or> (er_At r = er_At after \<and> er_Id r < er_Id after)"

definition audit_pg_page :: "(entry_row, 't) sql_ops \<Rightarrow> gerr option \<Rightarrow> string \<Rightarrow> (entry_row \<Rightarrow> bool) \<Rightarrow> int \<Rightarrow> 't
    \<Rightarrow> gerr + audit_entry list" where
  "audit_pg_page db ctx target P limit t =
     (case t_Find db ctx (\<lambda>r. er_Target r = target \<and> P r) newest_first (Some (audit_limit limit)) t of
        Inl e \<Rightarrow> Inl (ErrWrap (''audit: list entries for target '' @ go_quote target) e)
      | Inr rows \<Rightarrow> Inr (map entryFromRow rows))"

definition audit_pg_ListPage :: "(entry_row, 't) sql_ops \<Rightarrow> gerr option \<Rightarrow> string \<Rightarrow> string \<Rightarrow> int \<Rightarrow> 't
    \<Rightarrow> gerr + audit_entry list" where
  "audit_pg_ListPage db ctx target cursor limit t =
     (if cursor = [] then audit_pg_page db ctx target (\<lambda>r. True) limit t
      else case sql_First db er_Id ctx (\<lambda>r. er_Id r = cursor) [] t of
        Inl e \<Rightarrow> if errors_is ''record not found'' e then Inr []
                else Inl (ErrWrap (''audit: resolve cursor '' @ go_quote cursor) e)
      | Inr after \<Rightarrow> audit_pg_page db ctx target (older_than after) limit t)"

definition audit_pg_ops :: "(entry_row, 't) sql_ops \<Rightarrow> 't audit_store" where
  "audit_pg_ops db = \<lparr>au_Record = audit_pg_Record db, au_List = audit_pg_List db,
     au_ListPage = audit_pg_ListPage db\<rparr>"

subsection \<open>The contract\<close>

text \<open>
  What every implementation promises a client: a recorded entry is on the log under its own
  identifier, nothing on the log changes, and a listing shows only entries of the target.
\<close>

locale audit_log =
  fixes ops :: "'s audit_store" and inv :: "'s \<Rightarrow> bool" and log :: "'s \<Rightarrow> audit_entry set" and kept :: "time \<Rightarrow> time"
  assumes record_ok: "inv s \<Longrightarrow> uuid \<noteq> [] \<Longrightarrow> au_Record ops ctx now uuid e s = (None, s') \<Longrightarrow> inv s'
      \<and> log s' = insert ((stamp_entry now e)\<lparr>ae_ID := uuid, ae_At := kept (ae_At (stamp_entry now e))\<rparr>) (log s)"
    and record_err: "au_Record ops ctx now uuid e s = (Some x, s') \<Longrightarrow> s' = s"
    and list_ok: "inv s \<Longrightarrow> au_List ops ctx target s = Inr es \<Longrightarrow> set es = {e \<in> log s. ae_Target e = target}"
    and page_ok: "inv s \<Longrightarrow> au_ListPage ops ctx target cursor limit s = Inr es
      \<Longrightarrow> set es \<subseteq> {e \<in> log s. ae_Target e = target}"
begin

lemma append_only: "inv s \<Longrightarrow> uuid \<noteq> [] \<Longrightarrow> au_Record ops ctx now uuid e s = (x, s') \<Longrightarrow> log s \<subseteq> log s'"
  using record_ok record_err by (cases x) blast+

end

interpretation mau: audit_log audit_memory_ops "\<lambda>_. True" set "\<lambda>t. t"
proof (unfold_locales, goal_cases)
  case (4 s ctx target cursor limit es)
  have "set (page_from ae_ID cursor n all) \<subseteq> set all" for n all
    unfolding page_from_def slice_from_take Let_def by (meson order_trans set_drop_subset set_take_subset)
  then show ?case using 4
    by (fastforce simp: audit_memory_ops_def audit_memory_ListPage_def audit_memory_List_def split: option.splits)
qed (auto simp: audit_memory_ops_def audit_memory_Record_def audit_memory_List_def split: if_splits option.splits)

definition entry_row_filled :: "entry_row \<Rightarrow> entry_row \<Rightarrow> bool" where
  "entry_row_filled r r' \<longleftrightarrow> er_Id r' \<noteq> [] \<and> r' = (if er_Id r = [] then r\<lparr>er_Id := er_Id r'\<rparr> else r)"

definition entry_row_norm :: "entry_row \<Rightarrow> entry_row" where
  "entry_row_norm r = r\<lparr>er_At := er_At r div 1000 * 1000\<rparr>"

locale audit_table = sql_table db ok look er_Id entry_row_filled "\<lambda>_ _. False" entry_row_norm
  for db :: "(entry_row, 't) sql_ops" and ok look
begin

definition pg_log :: "'t \<Rightarrow> audit_entry set" where
  "pg_log t = entryFromRow ` ran (look t)"

lemma ran_look: "ok t \<Longrightarrow> ran (look t) = {r. look t (er_Id r) = Some r}"
  using look_id by (auto simp: ran_def)

end

sublocale audit_table \<subseteq> pau: audit_log "audit_pg_ops db" ok pg_log "\<lambda>t. t div 1000 * 1000"
proof (unfold_locales, goal_cases)
  case (1 s uuid ctx now e s')
  let ?e = "stamp_entry now e"
  let ?r = "\<lparr>er_Id = uuid, er_Actor = ae_Actor ?e, er_Action = ae_Action ?e,
        er_Target = ae_Target ?e, er_Detail = ae_Detail ?e, er_At = ae_At ?e\<rparr>"
  obtain row where c: "t_Create db ctx ?r s = (Inr row, s')"
    using 1(3) by (auto simp: audit_pg_ops_def audit_pg_Record_def Let_def split: prod.splits sum.splits)
  note k = create_ok[OF 1(1) c]
  have row: "row = ?r" using k 1(2) by (auto simp: entry_row_filled_def)
  have "ran (look s') = insert (entry_row_norm ?r) (ran (look s))"
    using k row by (auto simp: ran_map_upd)
  moreover have "entryFromRow (entry_row_norm ?r) = ?e\<lparr>ae_ID := uuid, ae_At := ae_At ?e div 1000 * 1000\<rparr>"
    by (cases ?e) (simp add: entryFromRow_def entry_row_norm_def)
  ultimately show ?case using k by (simp add: pg_log_def)
next
  case (2 ctx now uuid e s x s')
  then show ?case using create_err
    by (auto simp: audit_pg_ops_def audit_pg_Record_def Let_def split: prod.splits sum.splits)
next
  case (3 s ctx target es)
  then obtain rows where f: "t_Find db ctx (\<lambda>r. er_Target r = target) newest_first None s = Inr rows"
    "es = map entryFromRow rows"
    by (auto simp: audit_pg_ops_def audit_pg_List_def split: sum.splits)
  show ?case using find_all[OF 3(1) f(1)] f(2) ran_look[OF 3(1)] by (auto simp: pg_log_def entryFromRow_def)
next
  case (4 s ctx target cursor limit es)
  have page: "set es \<subseteq> {e \<in> pg_log s. ae_Target e = target}" if p: "audit_pg_page db ctx target P limit s = Inr es" for P
  proof -
    obtain rows where f: "t_Find db ctx (\<lambda>r. er_Target r = target \<and> P r) newest_first (Some (audit_limit limit)) s = Inr rows"
      "es = map entryFromRow rows" using p by (auto simp: audit_pg_page_def split: sum.splits)
    show ?thesis using find_live[OF 4(1) f(1)] f(2) ran_look[OF 4(1)] by (auto simp: pg_log_def entryFromRow_def)
  qed
  from 4(2) show ?case
    by (auto simp: audit_pg_ops_def audit_pg_ListPage_def split: if_splits sum.splits dest!: page)
qed

definition entry_row_fill :: "entry_row list_table \<Rightarrow> entry_row \<Rightarrow> entry_row" where
  "entry_row_fill t r = (if er_Id r = [] then r\<lparr>er_Id := concat (lt_used t) @ ''e''\<rparr> else r)"

interpretation elt: list_table er_Id entry_row_fill entry_row_filled "\<lambda>_ _. False" entry_row_norm
  by unfold_locales (auto simp: entry_row_filled_def entry_row_fill_def entry_row_norm_def)

interpretation edb: audit_table "list_table_ops er_Id entry_row_fill (\<lambda>_ _. False) entry_row_norm"
  "lt_ok er_Id (\<lambda>_ _. False) entry_row_norm" "lt_look er_Id"
  by unfold_locales

end
