(* ===== verification/Apiauth.thy ===== *)
theory Apiauth
  imports Sql_Table Paging Kms
begin

section \<open>API tokens: internal/apiauth\<close>

text \<open>
  Tokens, their hashes, and the \<open>Store\<close> interface with its two implementations. SHA-256 is an
  argument; \<open>now\<close> is \<open>time.Now()\<close>, \<open>seed\<close> the iteration order of a map.
\<close>

record token =
  tok_ID :: string
  tok_AccountID :: string
  tok_Label :: string
  tok_CreatedAt :: time

definition apiauth_ErrNotFound :: gerr where
  "apiauth_ErrNotFound = ErrSentinel ''apiauth: not found''"

definition TokenPrefix :: string where "TokenPrefix = ''env_''"

definition hex_bytes :: "bytes \<Rightarrow> string" where
  "hex_bytes bs = concat (map (\<lambda>c. let n = of_char c :: nat in [hex_digit (n div 16), hex_digit (n mod 16)]) bs)"

definition HashToken :: "(bytes \<Rightarrow> bytes) \<Rightarrow> string \<Rightarrow> string" where
  "HashToken sha256 raw = hex_bytes (sha256 raw)"

text \<open>\<open>buf\<close> is the outcome of \<open>rand.Read\<close> into 32 bytes.\<close>

definition GenerateToken :: "(bytes \<Rightarrow> bytes) \<Rightarrow> gerr + bytes \<Rightarrow> gerr + (string \<times> string)" where
  "GenerateToken sha256 buf =
     (case buf of
        Inl e \<Rightarrow> Inl (ErrWrap ''apiauth: generate token'' e)
      | Inr b \<Rightarrow> (let raw = TokenPrefix @ b64_encode b64_url False b in Inr (raw, HashToken sha256 raw)))"

definition ConstantTimeEqual :: "string \<Rightarrow> string \<Rightarrow> bool" where
  "ConstantTimeEqual a b \<longleftrightarrow> a = b"

record 's token_store =
  tk_CreateToken :: "gerr option \<Rightarrow> time \<Rightarrow> string \<Rightarrow> string \<Rightarrow> string \<Rightarrow> string \<Rightarrow> 's \<Rightarrow> (gerr + token) \<times> 's"
  tk_Authenticate :: "gerr option \<Rightarrow> nat \<Rightarrow> string \<Rightarrow> 's \<Rightarrow> gerr + token option"
  tk_ListTokens :: "gerr option \<Rightarrow> nat \<Rightarrow> string \<Rightarrow> 's \<Rightarrow> gerr + token list"
  tk_ListTokensPage :: "gerr option \<Rightarrow> nat \<Rightarrow> string \<Rightarrow> string \<Rightarrow> int \<Rightarrow> 's \<Rightarrow> gerr + token list"
  tk_RevokeToken :: "gerr option \<Rightarrow> string \<Rightarrow> string \<Rightarrow> 's \<Rightarrow> gerr option \<times> 's"

subsection \<open>In memory\<close>

record token_entry =
  te_Token :: token
  te_Hash :: string

type_synonym token_memory = "token_entry gomap"

definition token_memory_CreateToken :: "gerr option \<Rightarrow> time \<Rightarrow> string \<Rightarrow> string \<Rightarrow> string \<Rightarrow> string \<Rightarrow> token_memory
    \<Rightarrow> (gerr + token) \<times> token_memory" where
  "token_memory_CreateToken ctx now ident accountID label tokenHash m =
     (case ctx of Some e \<Rightarrow> (Inl e, m)
      | None \<Rightarrow>
          if ident = [] then (Inl (ErrNew ''apiauth: token ID is required''), m)
          else let tok = \<lparr>tok_ID = ident, tok_AccountID = accountID, tok_Label = label, tok_CreatedAt = now\<rparr>
               in (Inr tok, AList.update ident \<lparr>te_Token = tok, te_Hash = tokenHash\<rparr> m))"

definition token_memory_Authenticate :: "gerr option \<Rightarrow> nat \<Rightarrow> string \<Rightarrow> token_memory \<Rightarrow> gerr + token option" where
  "token_memory_Authenticate ctx seed tokenHash m =
     (case ctx of Some e \<Rightarrow> Inl e
      | None \<Rightarrow> Inr (map_option te_Token (find (\<lambda>e. te_Hash e = tokenHash) (map snd (map_range seed m)))))"

definition token_memory_ListTokens :: "gerr option \<Rightarrow> nat \<Rightarrow> string \<Rightarrow> token_memory \<Rightarrow> gerr + token list" where
  "token_memory_ListTokens ctx seed accountID m =
     (case ctx of Some e \<Rightarrow> Inl e
      | None \<Rightarrow> Inr (sort_key tok_ID
          (filter (\<lambda>t. tok_AccountID t = accountID) (map (te_Token \<circ> snd) (map_range seed m)))))"

definition token_memory_ListTokensPage :: "gerr option \<Rightarrow> nat \<Rightarrow> string \<Rightarrow> string \<Rightarrow> int \<Rightarrow> token_memory
    \<Rightarrow> gerr + token list" where
  "token_memory_ListTokensPage ctx seed accountID cursor limit m =
     (case token_memory_ListTokens ctx seed accountID m of
        Inl e \<Rightarrow> Inl e
      | Inr all \<Rightarrow>
          Inr (page_after tok_ID cursor (nat (if limit \<le> 0 \<or> limit > 500 then 100 else limit)) all))"

definition token_memory_RevokeToken :: "gerr option \<Rightarrow> string \<Rightarrow> string \<Rightarrow> token_memory
    \<Rightarrow> gerr option \<times> token_memory" where
  "token_memory_RevokeToken ctx accountID ident m =
     (if ctx \<noteq> None then (ctx, m)
      else case map_of m ident of
        None \<Rightarrow> (Some (ErrWrap (''apiauth: token '' @ go_quote ident) apiauth_ErrNotFound), m)
      | Some e \<Rightarrow>
          if tok_AccountID (te_Token e) \<noteq> accountID
          then (Some (ErrWrap (''apiauth: token '' @ go_quote ident) apiauth_ErrNotFound), m)
          else (None, AList.delete ident m))"

definition token_memory_ops :: "token_memory token_store" where
  "token_memory_ops = \<lparr>tk_CreateToken = token_memory_CreateToken, tk_Authenticate = token_memory_Authenticate,
     tk_ListTokens = token_memory_ListTokens, tk_ListTokensPage = token_memory_ListTokensPage,
     tk_RevokeToken = token_memory_RevokeToken\<rparr>"

subsection \<open>Postgres\<close>

record token_row =
  tr_Id :: string
  tr_CreatedAt :: "time option"
  tr_AccountID :: string
  tr_Label :: string
  tr_TokenHash :: string

definition token_zero_time :: time where "token_zero_time = - 62135596800 * 10 ^ 9"

definition tokenFromRow :: "token_row \<Rightarrow> token" where
  "tokenFromRow r = \<lparr>tok_ID = tr_Id r, tok_AccountID = tr_AccountID r, tok_Label = tr_Label r,
     tok_CreatedAt = (case tr_CreatedAt r of None \<Rightarrow> token_zero_time | Some t \<Rightarrow> t)\<rparr>"

definition token_pg_CreateToken :: "(token_row, 't) sql_ops \<Rightarrow> gerr option \<Rightarrow> time \<Rightarrow> string \<Rightarrow> string \<Rightarrow> string
    \<Rightarrow> string \<Rightarrow> 't \<Rightarrow> (gerr + token) \<times> 't" where
  "token_pg_CreateToken db ctx now ident accountID label tokenHash t =
     (if ident = [] then (Inl (ErrNew ''apiauth: token ID is required''), t)
      else case t_Create db ctx \<lparr>tr_Id = ident, tr_CreatedAt = None, tr_AccountID = accountID, tr_Label = label,
             tr_TokenHash = tokenHash\<rparr> t of
        (Inl e, t') \<Rightarrow> (Inl (ErrWrap ''apiauth: create token'' e), t')
      | (Inr row, t') \<Rightarrow> (Inr (tokenFromRow row), t'))"

definition token_pg_Authenticate :: "(token_row, 't) sql_ops \<Rightarrow> gerr option \<Rightarrow> nat \<Rightarrow> string \<Rightarrow> 't
    \<Rightarrow> gerr + token option" where
  "token_pg_Authenticate db ctx seed tokenHash t =
     (case sql_First db tr_Id ctx (\<lambda>r. tr_TokenHash r = tokenHash) [] t of
        Inl e \<Rightarrow> if errors_is ''record not found'' e then Inr None else Inl (ErrWrap ''apiauth: authenticate'' e)
      | Inr row \<Rightarrow> Inr (Some (tokenFromRow row)))"

definition token_pg_ListTokens :: "(token_row, 't) sql_ops \<Rightarrow> gerr option \<Rightarrow> nat \<Rightarrow> string \<Rightarrow> 't
    \<Rightarrow> gerr + token list" where
  "token_pg_ListTokens db ctx seed accountID t =
     (case t_Find db ctx (\<lambda>r. tr_AccountID r = accountID) [TextAsc tr_Id] None t of
        Inl e \<Rightarrow> Inl (ErrWrap (''apiauth: list tokens for account '' @ go_quote accountID) e)
      | Inr rows \<Rightarrow> Inr (map tokenFromRow rows))"

definition token_limit :: "int \<Rightarrow> nat" where
  "token_limit limit =
     (let limit = (if limit \<le> 0 then 100 else limit);
          limit = (if limit > 500 then 500 else limit)
      in nat limit)"

definition token_pg_ListTokensPage :: "(token_row, 't) sql_ops \<Rightarrow> gerr option \<Rightarrow> nat \<Rightarrow> string \<Rightarrow> string \<Rightarrow> int \<Rightarrow> 't
    \<Rightarrow> gerr + token list" where
  "token_pg_ListTokensPage db ctx seed accountID cursor limit t =
     (case t_Find db ctx (\<lambda>r. tr_AccountID r = accountID \<and> (cursor \<noteq> [] \<longrightarrow> tr_Id r > cursor)) [TextAsc tr_Id]
        (Some (token_limit limit)) t of
        Inl e \<Rightarrow> Inl (ErrWrap (''apiauth: list tokens for account '' @ go_quote accountID) e)
      | Inr rows \<Rightarrow> Inr (map tokenFromRow rows))"

definition token_pg_RevokeToken :: "(token_row, 't) sql_ops \<Rightarrow> gerr option \<Rightarrow> string \<Rightarrow> string \<Rightarrow> 't
    \<Rightarrow> gerr option \<times> 't" where
  "token_pg_RevokeToken db ctx accountID ident t =
     (case t_Delete db ctx (\<lambda>r. tr_AccountID r = accountID \<and> tr_Id r = ident) t of
        (Inl e, t') \<Rightarrow> (Some (ErrWrap (''apiauth: revoke token '' @ go_quote ident) e), t')
      | (Inr n, t') \<Rightarrow>
          (if n = 0 then Some (ErrWrap (''apiauth: token '' @ go_quote ident) apiauth_ErrNotFound) else None, t'))"

definition token_pg_ops :: "(token_row, 't) sql_ops \<Rightarrow> 't token_store" where
  "token_pg_ops db = \<lparr>tk_CreateToken = token_pg_CreateToken db, tk_Authenticate = token_pg_Authenticate db,
     tk_ListTokens = token_pg_ListTokens db, tk_ListTokensPage = token_pg_ListTokensPage db,
     tk_RevokeToken = token_pg_RevokeToken db\<rparr>"

subsection \<open>The contract\<close>

text \<open>
  \<open>issued s k\<close> is the token with identifier \<open>k\<close> and its hash. Authentication by a hash finds an
  issued token with that hash, and none only when there is none; a token is revoked only under
  the account it was issued to.
\<close>

locale tokens =
  fixes ops :: "'s token_store" and inv :: "'s \<Rightarrow> bool" and issued :: "'s \<Rightarrow> string \<Rightarrow> (token \<times> string) option"
  assumes create_tok: "inv s \<Longrightarrow> tk_CreateToken ops ctx now ident acct label h s = (Inr tok, s') \<Longrightarrow>
      inv s' \<and> tok_AccountID tok = acct \<and> tok_ID tok = ident
      \<and> (\<exists>tok'. tok_AccountID tok' = acct \<and> tok_ID tok' = ident \<and> tok_Label tok' = label
           \<and> issued s' = (issued s)(ident \<mapsto> (tok', h)))"
    and create_tok_err: "tk_CreateToken ops ctx now ident acct label h s = (Inl e, s') \<Longrightarrow> s' = s"
    and auth_some: "inv s \<Longrightarrow> tk_Authenticate ops ctx seed h s = Inr (Some tok)
      \<Longrightarrow> issued s (tok_ID tok) = Some (tok, h)"
    and auth_none: "inv s \<Longrightarrow> tk_Authenticate ops ctx seed h s = Inr None \<Longrightarrow> \<forall>k tok. issued s k \<noteq> Some (tok, h)"
    and revoke_ok: "inv s \<Longrightarrow> tk_RevokeToken ops ctx acct ident s = (None, s') \<Longrightarrow>
      inv s' \<and> issued s' = (issued s)(ident := None) \<and> (\<exists>tok h. issued s ident = Some (tok, h) \<and> tok_AccountID tok = acct)"
    and revoke_err: "inv s \<Longrightarrow> tk_RevokeToken ops ctx acct ident s = (Some e, s') \<Longrightarrow> s' = s"
begin

text \<open>A token whose hash no other token has stops authenticating when it is revoked.\<close>

lemma revoked_rejected:
  assumes "inv s" "issued s k = Some (tok, h)" "\<And>k' tok'. issued s k' = Some (tok', h) \<Longrightarrow> k' = k"
    "tk_RevokeToken ops ctx acct k s = (None, s')"
  shows "tk_Authenticate ops ctx' seed h s' \<noteq> Inr (Some tok')"
proof
  assume a: "tk_Authenticate ops ctx' seed h s' = Inr (Some tok')"
  have r: "inv s'" "issued s' = (issued s)(k := None)" using revoke_ok[OF assms(1,4)] by auto
  have i: "issued s' (tok_ID tok') = Some (tok', h)" by (rule auth_some[OF r(1) a])
  then have "tok_ID tok' \<noteq> k" "issued s (tok_ID tok') = Some (tok', h)"
    using r(2) by (auto split: if_splits)
  then show False using assms(3) by blast
qed

lemma created_accepted:
  assumes "inv s" "tk_CreateToken ops ctx now ident acct label h s = (Inr tok, s')"
    "\<And>k tok'. issued s k \<noteq> Some (tok', h)"
  shows "(\<forall>seed ctx' tok'. tk_Authenticate ops ctx' seed h s' = Inr (Some tok') \<longrightarrow> tok_AccountID tok' = acct)
    \<and> (\<forall>seed ctx'. tk_Authenticate ops ctx' seed h s' \<noteq> Inr None)"
proof -
  obtain t0 where c: "inv s'" "tok_AccountID t0 = acct" "issued s' = (issued s)(ident \<mapsto> (t0, h))"
    using create_tok[OF assms(1,2)] by blast
  have "tok_AccountID tok' = acct" if "tk_Authenticate ops ctx' seed h s' = Inr (Some tok')" for seed ctx' tok'
    using auth_some[OF c(1) that] c(2,3) assms(3) by (auto split: if_splits)
  moreover have "tk_Authenticate ops ctx' seed h s' \<noteq> Inr None" for seed ctx'
    using auth_none[OF c(1)] c(3) by (metis fun_upd_same)
  ultimately show ?thesis by blast
qed

end

definition tokmem_issued :: "token_memory \<Rightarrow> string \<Rightarrow> (token \<times> string) option" where
  "tokmem_issued m k = map_option (\<lambda>e. (te_Token e, te_Hash e)) (map_of m k)"

definition tokmem_inv :: "token_memory \<Rightarrow> bool" where
  "tokmem_inv m \<longleftrightarrow> distinct (map fst m) \<and> (\<forall>(k, e) \<in> set m. tok_ID (te_Token e) = k)"

lemma tokmem_entry: "tokmem_inv m \<Longrightarrow> (k, e) \<in> set m \<Longrightarrow> map_of m k = Some e \<and> tok_ID (te_Token e) = k"
  by (auto simp: tokmem_inv_def)

lemma token_memory_Authenticate_some:
  assumes "tokmem_inv m" "token_memory_Authenticate ctx seed h m = Inr (Some tok)"
  shows "tokmem_issued m (tok_ID tok) = Some (tok, h)"
proof -
  obtain e where e: "find (\<lambda>e. te_Hash e = h) (map snd (map_range seed m)) = Some e" "tok = te_Token e"
    using assms(2) by (auto simp: token_memory_Authenticate_def split: option.splits)
  let ?xs = "map snd (map_range seed m)"
  obtain i where "i < length ?xs" "e = ?xs ! i" "te_Hash e = h" using e(1) unfolding find_Some_iff by blast
  then have "e \<in> set ?xs" "te_Hash e = h" by (metis nth_mem, simp)
  then obtain k where "(k, e) \<in> set m" by auto
  from tokmem_entry[OF assms(1) this] e(2) \<open>te_Hash e = h\<close> show ?thesis by (auto simp: tokmem_issued_def)
qed

interpretation mtk: tokens token_memory_ops tokmem_inv tokmem_issued
proof (unfold_locales, goal_cases)
  case (1 s ctx now ident acct label h tok s')
  then show ?case
    by (auto simp: token_memory_ops_def token_memory_CreateToken_def tokmem_inv_def tokmem_issued_def
        set_update_keys fun_eq_iff Let_def split: option.splits if_splits)
next
  case (2 ctx now ident acct label h s e s')
  then show ?case by (auto simp: token_memory_ops_def token_memory_CreateToken_def Let_def split: option.splits if_splits)
next
  case (3 s ctx seed h tok)
  then show ?case using token_memory_Authenticate_some by (simp add: token_memory_ops_def)
next
  case (4 s ctx seed h)
  then have "\<forall>e \<in> set (map snd (map_range seed s)). te_Hash e \<noteq> h"
    by (auto simp: token_memory_ops_def token_memory_Authenticate_def find_None_iff split: option.splits)
  then show ?case by (auto simp: tokmem_issued_def dest!: map_of_SomeD)
next
  case (5 s ctx acct ident s')
  then show ?case
    by (auto simp: token_memory_ops_def token_memory_RevokeToken_def tokmem_inv_def tokmem_issued_def fun_eq_iff
        split: option.splits if_splits)
next
  case (6 s ctx acct ident e s')
  then show ?case by (auto simp: token_memory_ops_def token_memory_RevokeToken_def split: option.splits if_splits)
qed

definition token_row_filled :: "token_row \<Rightarrow> token_row \<Rightarrow> bool" where
  "token_row_filled r r' \<longleftrightarrow> tr_Id r' \<noteq> [] \<and> (tr_Id r \<noteq> [] \<longrightarrow> tr_Id r' = tr_Id r)
     \<and> (\<exists>t. r' = r\<lparr>tr_Id := tr_Id r', tr_CreatedAt := Some t\<rparr>)"

definition token_row_norm :: "token_row \<Rightarrow> token_row" where
  "token_row_norm r = r\<lparr>tr_CreatedAt := map_option (\<lambda>t. t div 1000 * 1000) (tr_CreatedAt r)\<rparr>"

locale token_table = sql_table db ok look tr_Id token_row_filled "\<lambda>r r'. tr_TokenHash r = tr_TokenHash r'" token_row_norm
  for db :: "(token_row, 't) sql_ops" and ok look

definition token_pg_issued :: "('t \<Rightarrow> string \<Rightarrow> token_row option) \<Rightarrow> 't \<Rightarrow> string \<Rightarrow> (token \<times> string) option" where
  "token_pg_issued look t k = map_option (\<lambda>r. (tokenFromRow r, tr_TokenHash r)) (look t k)"

sublocale token_table \<subseteq> ptk: tokens "token_pg_ops db" ok "token_pg_issued look"
proof (unfold_locales, goal_cases)
  case (1 s ctx now ident acct label h tok s')
  let ?r = "\<lparr>tr_Id = ident, tr_CreatedAt = None, tr_AccountID = acct, tr_Label = label, tr_TokenHash = h\<rparr>"
  obtain row where c: "t_Create db ctx ?r s = (Inr row, s')" "tok = tokenFromRow row" "ident \<noteq> []"
    using 1(2) by (auto simp: token_pg_ops_def token_pg_CreateToken_def split: if_splits prod.splits sum.splits)
  note k = create_ok[OF 1(1) c(1)]
  obtain t where row: "row = ?r\<lparr>tr_CreatedAt := Some t\<rparr>" using k c(3) by (auto simp: token_row_filled_def)
  show ?case using k c row
    by (auto simp: token_pg_issued_def fun_eq_iff tokenFromRow_def token_row_norm_def)
next
  case (2 ctx now ident acct label h s e s')
  then show ?case using create_err
    by (auto simp: token_pg_ops_def token_pg_CreateToken_def split: if_splits prod.splits sum.splits)
next
  case (3 s ctx seed h tok)
  then obtain r where f: "sql_First db tr_Id ctx (\<lambda>r. tr_TokenHash r = h) [] s = Inr r" "tok = tokenFromRow r"
    by (auto simp: token_pg_ops_def token_pg_Authenticate_def split: sum.splits if_splits)
  from First_ok[OF 3(1) f(1)] f(2) show ?case by (auto simp: token_pg_issued_def tokenFromRow_def)
next
  case (4 s ctx seed h)
  then obtain e where f: "sql_First db tr_Id ctx (\<lambda>r. tr_TokenHash r = h) [] s = Inl e" "errors_is ''record not found'' e"
    by (auto simp: token_pg_ops_def token_pg_Authenticate_def split: sum.splits if_splits)
  from First_none[OF 4(1) f] show ?case by (auto simp: token_pg_issued_def)
next
  case (5 s ctx acct ident s')
  then obtain n where d: "t_Delete db ctx (\<lambda>r. tr_Id r = ident \<and> tr_AccountID r = acct) s = (Inr n, s')" "n \<noteq> 0"
    by (auto simp: token_pg_ops_def token_pg_RevokeToken_def conj_commute split: prod.splits sum.splits if_splits)
  from delete_at[OF 5(1) d(1)] d(2) show ?case by (auto simp: token_pg_issued_def fun_eq_iff tokenFromRow_def)
next
  case (6 s ctx acct ident e s')
  then obtain res where d: "t_Delete db ctx (\<lambda>r. tr_Id r = ident \<and> tr_AccountID r = acct) s = (res, s')"
    and n: "\<And>n. res = Inr n \<Longrightarrow> n = 0"
    by (auto simp: token_pg_ops_def token_pg_RevokeToken_def conj_commute split: prod.splits sum.splits if_splits)
  show ?case
  proof (cases res)
    case (Inl x)
    then show ?thesis using delete_err d by blast
  next
    case (Inr m)
    then show ?thesis using delete_at[OF 6(1) d[unfolded Inr]] n by simp
  qed
qed

definition token_row_fill :: "token_row list_table \<Rightarrow> token_row \<Rightarrow> token_row" where
  "token_row_fill t r = r\<lparr>tr_Id := (if tr_Id r = [] then concat (lt_used t) @ ''t'' else tr_Id r), tr_CreatedAt := Some 0\<rparr>"

interpretation tlt: list_table tr_Id token_row_fill token_row_filled "\<lambda>r r'. tr_TokenHash r = tr_TokenHash r'" token_row_norm
proof (unfold_locales, goal_cases)
  case (3 r t) show ?case by (cases r) (simp add: token_row_filled_def token_row_fill_def)
qed (auto simp: token_row_filled_def token_row_norm_def option.map_comp comp_def)

interpretation tdb: token_table "list_table_ops tr_Id token_row_fill (\<lambda>r r'. tr_TokenHash r = tr_TokenHash r') token_row_norm"
  "lt_ok tr_Id (\<lambda>r r'. tr_TokenHash r = tr_TokenHash r') token_row_norm" "lt_look tr_Id"
  by unfold_locales

end
