(* ===== verification/Mailbuild.thy ===== *)
theory Mailbuild
  imports Kms
begin

section \<open>Message composition: internal/mailbuild\<close>

text \<open>
  \<open>Build\<close> and its parts. Of \<open>mime/multipart\<close> the model has the writer: the boundary check, the
  delimiter lines, and part headers in the order of their keys. \<open>uuid\<close>s and the formatted date are
  arguments, \<open>seed\<close> is the iteration order over the custom headers.
\<close>

record attachment =
  att_Filename :: string
  att_ContentType :: string
  att_Content :: bytes

record mail_message =
  mm_From :: string
  mm_Subject :: string
  mm_Text :: string
  mm_HTML :: string
  mm_Domain :: string
  mm_To :: "string list"
  mm_Cc :: "string list"
  mm_Bcc :: "string list"
  mm_Attachments :: "attachment list"
  mm_Headers :: "string gomap"

definition reservedHeaders :: "bool gomap" where
  "reservedHeaders = map (\<lambda>n. (n, True)) [''from'', ''to'', ''subject'', ''date'', ''message-id'', ''mime-version'',
     ''content-type'', ''content-transfer-encoding'']"

definition IsReservedHeader :: "string \<Rightarrow> bool" where
  "IsReservedHeader name = gomap_bool reservedHeaders (to_lower name)"

definition sanitizeHeader :: "string \<Rightarrow> string" where
  "sanitizeHeader s = replace_all (CHR 0x0A) (CHR '' '') (replace_all (CHR 0x0D) (CHR '' '') s)"

definition writeHeader :: "string \<Rightarrow> string \<Rightarrow> string" where
  "writeHeader name value = name @ '': '' @ sanitizeHeader value @ crlf"

subsection \<open>The writer of mime/multipart\<close>

definition boundary_char :: "char \<Rightarrow> bool" where
  "boundary_char c \<longleftrightarrow> (let n = of_char c :: nat in
     (65 \<le> n \<and> n \<le> 90) \<or> (97 \<le> n \<and> n \<le> 122) \<or> (48 \<le> n \<and> n \<le> 57)) \<or> c \<in> set (CHR 0x27 # ''()+_,-./:=?'')"

definition SetBoundary :: "string \<Rightarrow> gerr option" where
  "SetBoundary b =
     (if length b < 1 \<or> length b > 70 then Some (ErrNew ''mime: invalid boundary length'')
      else if (\<forall>c \<in> set (butlast b). boundary_char c \<or> c = CHR '' '') \<and> boundary_char (last b) then None
      else Some (ErrNew ''mime: invalid boundary character''))"

text \<open>A part: whether it is the first, its header in key order, and its content.\<close>

definition CreatePart :: "string \<Rightarrow> bool \<Rightarrow> (string \<times> string) list \<Rightarrow> string" where
  "CreatePart boundary first header =
     (if first then [] else crlf) @ ''--'' @ boundary @ crlf
       @ concat (map (\<lambda>(k, v). k @ '': '' @ v @ crlf) header) @ crlf"

definition CloseMultipart :: "string \<Rightarrow> string" where
  "CloseMultipart boundary = crlf @ ''--'' @ boundary @ ''--'' @ crlf"

subsection \<open>The parts\<close>

definition buildBodyPart :: "string \<Rightarrow> string \<Rightarrow> string \<Rightarrow> gerr + (string \<times> bytes)" where
  "buildBodyPart uuid text html =
     (if text \<noteq> [] \<and> html \<noteq> [] then
        let boundary = ''ALT_'' @ uuid in
        (case SetBoundary boundary of
           Some e \<Rightarrow> Inl (ErrWrap ''set alternative boundary'' e)
         | None \<Rightarrow> Inr (''multipart/alternative; boundary='' @ go_quote boundary,
             CreatePart boundary True [(''Content-Transfer-Encoding'', ''8bit''), (''Content-Type'', ''text/plain; charset=utf-8'')]
               @ text
               @ CreatePart boundary False [(''Content-Transfer-Encoding'', ''8bit''), (''Content-Type'', ''text/html; charset=utf-8'')]
               @ html @ CloseMultipart boundary))
      else if html \<noteq> [] then Inr (''text/html; charset=utf-8'', html)
      else Inr (''text/plain; charset=utf-8'', text))"

fun wrap_lines :: "nat \<Rightarrow> string \<Rightarrow> string" where
  "wrap_lines 0 s = []"
| "wrap_lines (Suc n) s = (if s = [] then [] else take 76 s @ crlf @ wrap_lines n (drop 76 s))"

text \<open>The loop runs at most once per byte of the encoding.\<close>

definition encodeBase64Wrapped :: "bytes \<Rightarrow> string" where
  "encodeBase64Wrapped data = (let encoded = EncodeToString data in wrap_lines (length encoded) encoded)"

definition attachment_part :: "string \<Rightarrow> attachment \<Rightarrow> string" where
  "attachment_part boundary a =
     CreatePart boundary False
       [(''Content-Disposition'', ''attachment; filename='' @ go_quote (sanitizeHeader (att_Filename a))),
        (''Content-Transfer-Encoding'', ''base64''),
        (''Content-Type'', if att_ContentType a = [] then ''application/octet-stream'' else att_ContentType a)]
       @ encodeBase64Wrapped (att_Content a)"

definition buildMixed :: "string \<Rightarrow> string \<Rightarrow> bytes \<Rightarrow> attachment list \<Rightarrow> gerr + (string \<times> bytes)" where
  "buildMixed uuid bodyContentType bodyContent attachments =
     (let boundary = ''MIXED_'' @ uuid in
      case SetBoundary boundary of
        Some e \<Rightarrow> Inl (ErrWrap ''set mixed boundary'' e)
      | None \<Rightarrow> Inr (''multipart/mixed; boundary='' @ go_quote boundary,
          CreatePart boundary True
            ((if has_prefix bodyContentType ''multipart/'' then [] else [(''Content-Transfer-Encoding'', ''8bit'')])
              @ [(''Content-Type'', bodyContentType)])
          @ bodyContent @ concat (map (attachment_part boundary) attachments) @ CloseMultipart boundary))"

subsection \<open>Build\<close>

record build_draws =
  bd_alt :: string
  bd_mixed :: string
  bd_msgid :: string
  bd_date :: string
  bd_seed :: nat

text \<open>The header fields in the order \<open>Build\<close> writes them.\<close>

definition build_fields :: "build_draws \<Rightarrow> mail_message \<Rightarrow> string \<Rightarrow> (string \<times> string) list" where
  "build_fields d msg topContentType =
     [(''From'', mm_From msg)]
     @ (if mm_To msg \<noteq> [] then [(''To'', go_join '', '' (mm_To msg))] else [])
     @ (if mm_Cc msg \<noteq> [] then [(''Cc'', go_join '', '' (mm_Cc msg))] else [])
     @ [(''Subject'', mm_Subject msg), (''Date'', bd_date d),
        (''Message-Id'', ''<'' @ bd_msgid d @ ''@'' @ mm_Domain msg @ ''>''), (''MIME-Version'', ''1.0'')]
     @ map_range (bd_seed d) (mm_Headers msg)
     @ [(''Content-Type'', topContentType)]"

definition Build :: "build_draws \<Rightarrow> mail_message \<Rightarrow> gerr + bytes" where
  "Build d msg =
     (case buildBodyPart (bd_alt d) (mm_Text msg) (mm_HTML msg) of
        Inl e \<Rightarrow> Inl (ErrWrap ''mailbuild: build body part'' e)
      | Inr (bodyContentType, bodyContent) \<Rightarrow>
          (case (if mm_Attachments msg \<noteq> []
                 then buildMixed (bd_mixed d) bodyContentType bodyContent (mm_Attachments msg)
                 else Inr (bodyContentType, bodyContent)) of
             Inl e \<Rightarrow> Inl (ErrWrap ''mailbuild: build mixed envelope'' e)
           | Inr (topContentType, topBody) \<Rightarrow>
               Inr (concat (map (\<lambda>(k, v). writeHeader k v) (build_fields d msg topContentType)) @ crlf @ topBody)))"

subsection \<open>Lemmas\<close>

definition no_crlf :: "string \<Rightarrow> bool" where
  "no_crlf s \<longleftrightarrow> CHR 0x0D \<notin> set s \<and> CHR 0x0A \<notin> set s"

lemma sanitizeHeader_clean [simp]: "no_crlf (sanitizeHeader s)"
  by (auto simp: no_crlf_def sanitizeHeader_def replace_all_def)

lemma sanitizeHeader_id [simp]: "no_crlf s \<Longrightarrow> sanitizeHeader s = s"
  unfolding sanitizeHeader_def replace_all_def no_crlf_def map_map by (rule map_idI) auto

lemma go_cut_crlf:
  assumes "no_crlf l"
  shows "go_cut crlf (l @ crlf @ r) = (l, r, True)"
  using assms by (induction l) (auto simp: crlf_def no_crlf_def)

lemma go_cut_shorter: "go_cut sep s = (a, r, True) \<Longrightarrow> sep \<noteq> [] \<Longrightarrow> length r < length s"
  using go_cut_found[of sep s a r] by (cases sep) auto

text \<open>How a receiver reads a message: lines up to the first empty one, then the body.\<close>

function split_header :: "string \<Rightarrow> string list \<times> string" where
  "split_header s =
     (case go_cut crlf s of
        (line, rest, found) \<Rightarrow>
          if \<not> found then ([s], [])
          else if line = [] then ([], rest)
          else (case split_header rest of (ls, body) \<Rightarrow> (line # ls, body)))"
  by pat_completeness auto
termination
  by (relation "measure length") (auto simp: crlf_def dest: go_cut_shorter[OF sym])

declare split_header.simps [simp del]

lemma split_header_lines:
  assumes "\<forall>l \<in> set ls. no_crlf l \<and> l \<noteq> []"
  shows "split_header (concat (map (\<lambda>l. l @ crlf) ls) @ crlf @ body) = (ls, body)"
  using assms
proof (induction ls)
  case Nil
  show ?case using go_cut_crlf[of "[]" body] by (subst split_header.simps) (simp add: no_crlf_def)
next
  case (Cons l ls)
  let ?r = "concat (map (\<lambda>l. l @ crlf) ls) @ crlf @ body"
  have "go_cut crlf (l @ crlf @ ?r) = (l, ?r, True)" using Cons.prems by (intro go_cut_crlf) simp
  with Cons show ?case by (subst split_header.simps) simp
qed

lemma no_crlf_append [simp]: "no_crlf (a @ b) \<longleftrightarrow> no_crlf a \<and> no_crlf b"
  by (auto simp: no_crlf_def)

definition field_line :: "string \<times> string \<Rightarrow> string" where
  "field_line f = fst f @ '': '' @ sanitizeHeader (snd f)"

lemma writeHeader_line: "(\<lambda>(k, v). writeHeader k v) = (\<lambda>f. field_line f @ crlf)"
  by (auto simp: writeHeader_def field_line_def)

lemma Build_shape:
  "Build d msg = Inr raw \<Longrightarrow>
     \<exists>ct body. raw = concat (map (\<lambda>l. l @ crlf) (map field_line (build_fields d msg ct))) @ crlf @ body"
  by (auto simp: Build_def writeHeader_line comp_def split: sum.splits prod.splits)

text \<open>The type of the whole message, by what it consists of.\<close>

lemma Build_content:
  assumes "Build d msg = Inr raw"
  shows "\<exists>body. raw = concat (map (\<lambda>l. l @ crlf) (map field_line (build_fields d msg
      (if mm_Attachments msg \<noteq> [] then ''multipart/mixed; boundary='' @ go_quote (''MIXED_'' @ bd_mixed d)
       else if mm_Text msg \<noteq> [] \<and> mm_HTML msg \<noteq> [] then ''multipart/alternative; boundary='' @ go_quote (''ALT_'' @ bd_alt d)
       else if mm_HTML msg \<noteq> [] then ''text/html; charset=utf-8'' else ''text/plain; charset=utf-8'')))) @ crlf @ body
    \<and> (mm_Attachments msg = [] \<and> mm_HTML msg = [] \<longrightarrow> body = mm_Text msg)
    \<and> (mm_Attachments msg = [] \<and> mm_Text msg = [] \<longrightarrow> body = mm_HTML msg)"
  using assms
  by (auto simp: Build_def buildBodyPart_def buildMixed_def writeHeader_line comp_def Let_def split: sum.splits prod.splits option.splits if_splits)

lemma sanitizeHeader_map: "sanitizeHeader s = map (\<lambda>c. if c = CHR 0x0D \<or> c = CHR 0x0A then CHR '' '' else c) s"
  by (simp add: sanitizeHeader_def replace_all_def)

lemma field_line_clean: "no_crlf (fst f) \<Longrightarrow> no_crlf (field_line f) \<and> field_line f \<noteq> []"
  using sanitizeHeader_clean[of "snd f"] by (auto simp: field_line_def no_crlf_def)

lemma build_fields_clean:
  assumes "\<forall>(k, v) \<in> set (mm_Headers msg). no_crlf k"
  shows "\<forall>l \<in> set (map field_line (build_fields d msg ct)). no_crlf l \<and> l \<noteq> []"
proof -
  have "no_crlf (fst f)" if "f \<in> set (build_fields d msg ct)" for f
    using that assms by (auto simp: build_fields_def no_crlf_def split: if_splits)
  then show ?thesis using field_line_clean by auto
qed

lemma wrap_lines_filter:
  "length s \<le> n \<Longrightarrow> (\<forall>c \<in> set s. c \<noteq> CHR 0x0A \<and> c \<noteq> CHR 0x0D) \<Longrightarrow>
   filter (\<lambda>c. c \<noteq> CHR 0x0A \<and> c \<noteq> CHR 0x0D) (wrap_lines n s) = s"
proof (induction n arbitrary: s)
  case (Suc n)
  have "filter (\<lambda>c. c \<noteq> CHR 0x0A \<and> c \<noteq> CHR 0x0D) (take 76 s) = take 76 s"
    using Suc.prems(2) by (auto simp: filter_id_conv dest: in_set_takeD)
  moreover have "filter (\<lambda>c. c \<noteq> CHR 0x0A \<and> c \<noteq> CHR 0x0D) (wrap_lines n (drop 76 s)) = drop 76 s" if "s \<noteq> []"
    using Suc.prems that by (intro Suc.IH) (cases s, auto dest: in_set_dropD)
  ultimately show ?case by (simp add: crlf_def)
qed simp

lemma wrap_lines_cols:
  "length s \<le> n \<Longrightarrow> \<exists>ls. wrap_lines n s = concat (map (\<lambda>l. l @ crlf) ls) \<and> concat ls = s
     \<and> (\<forall>l \<in> set ls. l \<noteq> [] \<and> length l \<le> 76)"
proof (induction n arbitrary: s)
  case (Suc n)
  show ?case
  proof (cases "s = []")
    case False
    then have "length (drop 76 s) \<le> n" using Suc.prems by (cases s) auto
    from Suc.IH[OF this] obtain ls where "wrap_lines n (drop 76 s) = concat (map (\<lambda>l. l @ crlf) ls)"
      "concat ls = drop 76 s" "\<forall>l \<in> set ls. l \<noteq> [] \<and> length l \<le> 76" by blast
    then show ?thesis using False by (intro exI[of _ "take 76 s # ls"]) auto
  qed (auto intro: exI[of _ "[]"])
qed (auto intro: exI[of _ "[]"])

subsection \<open>Properties\<close>

text \<open>
  C40: The header of a message \<open>Build\<close> composes has exactly the fields it means to write, however
  the values look: when no custom header name contains a CR or LF, a receiver that reads the message
  line by line up to the first empty line finds \<open>From\<close>, the \<open>To\<close> and \<open>Cc\<close> addresses if there are any,
  \<open>Subject\<close>, \<open>Date\<close>, \<open>Message-Id\<close> and \<open>MIME-Version\<close>, each custom header once and the \<open>Content-Type\<close>
  that the attachments and the text and HTML bodies call for, in that order and nothing else, each
  on one line with every CR and LF in its value replaced by a space. So no value can add, end or
  split a header line and no \<open>Bcc\<close> recipient appears in one. What follows is the body: without
  attachments and with one kind of text, that text as it was given.
\<close>

theorem Build_header_exact:
  fixes d msg
  assumes "Build d msg = Inr raw" and "\<forall>(k, v) \<in> set (mm_Headers msg). CHR 0x0D \<notin> set k \<and> CHR 0x0A \<notin> set k"
  defines "line \<equiv> \<lambda>name value. name @ '': '' @ map (\<lambda>c. if c = CHR 0x0D \<or> c = CHR 0x0A then CHR '' '' else c) value"
  shows "\<exists>customs body. mset customs = mset (mm_Headers msg) \<and> split_header raw =
     ([line ''From'' (mm_From msg)]
      @ (if mm_To msg \<noteq> [] then [line ''To'' (go_join '', '' (mm_To msg))] else [])
      @ (if mm_Cc msg \<noteq> [] then [line ''Cc'' (go_join '', '' (mm_Cc msg))] else [])
      @ [line ''Subject'' (mm_Subject msg), line ''Date'' (bd_date d),
         line ''Message-Id'' (''<'' @ bd_msgid d @ ''@'' @ mm_Domain msg @ ''>''), line ''MIME-Version'' ''1.0'']
      @ map (\<lambda>(k, v). line k v) customs
      @ [line ''Content-Type''
          (if mm_Attachments msg \<noteq> [] then ''multipart/mixed; boundary='' @ go_quote (''MIXED_'' @ bd_mixed d)
           else if mm_Text msg \<noteq> [] \<and> mm_HTML msg \<noteq> [] then ''multipart/alternative; boundary='' @ go_quote (''ALT_'' @ bd_alt d)
           else if mm_HTML msg \<noteq> [] then ''text/html; charset=utf-8'' else ''text/plain; charset=utf-8'')],
      body)
    \<and> (mm_Attachments msg = [] \<and> mm_HTML msg = [] \<longrightarrow> body = mm_Text msg)
    \<and> (mm_Attachments msg = [] \<and> mm_Text msg = [] \<longrightarrow> body = mm_HTML msg)"
proof -
  let ?ct = "if mm_Attachments msg \<noteq> [] then ''multipart/mixed; boundary='' @ go_quote (''MIXED_'' @ bd_mixed d)
       else if mm_Text msg \<noteq> [] \<and> mm_HTML msg \<noteq> [] then ''multipart/alternative; boundary='' @ go_quote (''ALT_'' @ bd_alt d)
       else if mm_HTML msg \<noteq> [] then ''text/html; charset=utf-8'' else ''text/plain; charset=utf-8''"
  have names: "\<forall>(k, v) \<in> set (mm_Headers msg). no_crlf k" using assms(2) by (simp add: no_crlf_def)
  obtain body where raw: "raw = concat (map (\<lambda>l. l @ crlf) (map field_line (build_fields d msg ?ct))) @ crlf @ body"
    and body: "mm_Attachments msg = [] \<and> mm_HTML msg = [] \<longrightarrow> body = mm_Text msg"
      "mm_Attachments msg = [] \<and> mm_Text msg = [] \<longrightarrow> body = mm_HTML msg"
    using Build_content[OF assms(1)] by blast
  have split: "split_header raw = (map field_line (build_fields d msg ?ct), body)"
    unfolding raw by (rule split_header_lines[OF build_fields_clean[OF names]])
  have fl: "field_line = (\<lambda>(k, v). line k v)"
    by (simp add: fun_eq_iff field_line_def line_def sanitizeHeader_map)
  show ?thesis
    by (intro exI[of _ "map_range (bd_seed d) (mm_Headers msg)"] exI[of _ body] conjI body)
      (simp, simp only: split fl build_fields_def map_append list.map prod.case if_distrib[of "map _"])
qed

definition demo_mail :: mail_message where
  "demo_mail = \<lparr>mm_From = ''a@a.test'', mm_Subject = ''hi'' @ crlf @ ''Bcc: x'', mm_Text = ''t'', mm_HTML = [],
     mm_Domain = ''a.test'', mm_To = [''b@b.test''], mm_Cc = [], mm_Bcc = [''c@c.test''],
     mm_Attachments = [], mm_Headers = [(''X-Tag'', ''1'')]\<rparr>"

definition demo_draws :: build_draws where
  "demo_draws = \<lparr>bd_alt = ''u1'', bd_mixed = ''u2'', bd_msgid = ''u3'', bd_date = ''now'', bd_seed = 0\<rparr>"

theorem Build_header_exact_witness:
  "\<exists>raw. Build demo_draws demo_mail = Inr raw
     \<and> split_header raw = ([''From: a@a.test'', ''To: b@b.test'', ''Subject: hi  Bcc: x'', ''Date: now'',
         ''Message-Id: <u3@a.test>'', ''MIME-Version: 1.0'', ''X-Tag: 1'', ''Content-Type: text/plain; charset=utf-8''], ''t'')"
proof -
  obtain raw where b: "Build demo_draws demo_mail = Inr raw"
    by (simp add: Build_def buildBodyPart_def demo_mail_def)
  have "\<forall>(k, v) \<in> set (mm_Headers demo_mail). CHR 0x0D \<notin> set k \<and> CHR 0x0A \<notin> set k" by (simp add: demo_mail_def)
  from Build_header_exact[OF b this] obtain customs body where
    c: "mset customs = mset (mm_Headers demo_mail)" and body: "body = ''t''"
    and s: "split_header raw = ([''From: a@a.test'', ''To: b@b.test'', ''Subject: hi  Bcc: x'', ''Date: now'',
         ''Message-Id: <u3@a.test>'', ''MIME-Version: 1.0''] @ map (\<lambda>(k, v). k @ '': '' @ map (\<lambda>c. if c = CHR 0x0D \<or> c = CHR 0x0A then CHR '' '' else c) v) customs
         @ [''Content-Type: text/plain; charset=utf-8''], body)"
    by (auto simp: demo_mail_def demo_draws_def crlf_def)
  have "customs = [(''X-Tag'', ''1'')]" using c by (simp add: demo_mail_def mset_single_iff)
  with b s body show ?thesis by simp
qed

text \<open>
  A custom header name is written as it is: the check against reserved names passes every name
  that contains a line break, and the message then carries the part after the break as a header line
  of its own, any field of any name, a second \<open>Subject\<close> or \<open>From\<close> included.
\<close>

theorem Build_header_name_injects:
  assumes "Build d msg = Inr raw" and "mm_Headers msg = [(a @ crlf @ b, v)]" and "no_crlf a" and "a \<noteq> []" and "no_crlf b"
  shows "\<not> IsReservedHeader (a @ crlf @ b)
    \<and> a \<in> set (fst (split_header raw)) \<and> (b @ '': '' @ sanitizeHeader v) \<in> set (fst (split_header raw))"
proof -
  obtain ct body where raw: "raw = concat (map (\<lambda>l. l @ crlf) (map field_line (build_fields d msg ct))) @ crlf @ body"
    using Build_shape[OF assms(1)] by blast
  define pre where "pre = build_fields d (msg\<lparr>mm_Headers := []\<rparr>) ct"
  define ls where "ls = map field_line (butlast pre) @ [a, b @ '': '' @ sanitizeHeader v] @ [field_line (last pre)]"
  have mr: "map_range n [x] = [x]" for n :: nat and x :: "string \<times> string" by (simp add: Let_def)
  have f: "build_fields d msg ct = butlast pre @ [(a @ crlf @ b, v)] @ [last pre]"
    by (simp add: pre_def build_fields_def assms(2) mr butlast_append)
  have clean: "\<forall>l \<in> set (map field_line pre). no_crlf l \<and> l \<noteq> []"
    unfolding pre_def by (rule build_fields_clean) simp
  have "pre \<noteq> []" by (simp add: pre_def build_fields_def)
  then have "\<forall>l \<in> set ls. no_crlf l \<and> l \<noteq> []"
    using clean assms(3-5) sanitizeHeader_clean[of v] by (auto simp: ls_def no_crlf_def dest: in_set_butlastD)
  moreover have "raw = concat (map (\<lambda>l. l @ crlf) ls) @ crlf @ body"
    unfolding raw f ls_def by (simp add: field_line_def)
  ultimately have "fst (split_header raw) = ls" using split_header_lines by simp
  moreover have "\<not> IsReservedHeader (a @ crlf @ b)"
  proof -
    have "CHR 0x0D \<in> set (to_lower (a @ crlf @ b))" by (simp add: to_lower_def crlf_def lower_char_def)
    then have "to_lower (a @ crlf @ b) \<notin> fst ` set reservedHeaders" by (auto simp: reservedHeaders_def)
    then show ?thesis by (metis IsReservedHeader_def gomap_bool_def map_of_eq_None_iff option.distinct(1))
  qed
  ultimately show ?thesis by (simp add: ls_def)
qed

theorem Build_header_name_injects_witness:
  "\<exists>raw. Build demo_draws (demo_mail\<lparr>mm_Headers := [(''X'' @ crlf @ ''From'', ''ceo@bank.test'')]\<rparr>) = Inr raw
     \<and> \<not> IsReservedHeader (''X'' @ crlf @ ''From'')
     \<and> ''From: ceo@bank.test'' \<in> set (fst (split_header raw))"
proof -
  let ?m = "demo_mail\<lparr>mm_Headers := [(''X'' @ crlf @ ''From'', ''ceo@bank.test'')]\<rparr>"
  obtain raw where b: "Build demo_draws ?m = Inr raw"
    by (simp add: Build_def buildBodyPart_def demo_mail_def)
  have s: "sanitizeHeader ''ceo@bank.test'' = ''ceo@bank.test''" by (rule sanitizeHeader_id) (simp add: no_crlf_def)
  from Build_header_name_injects[OF b, of "''X''" "''From''" "''ceo@bank.test''"] b s show ?thesis
    by (auto simp: no_crlf_def)
qed

text \<open>
  An attachment arrives as it was sent: the body of its part decodes to its content, and its lines
  are non-empty, at most 76 characters long and end in CRLF, for every content.
\<close>

theorem encodeBase64Wrapped_roundtrip:
  "b64_decode (encodeBase64Wrapped data) = Inr data
   \<and> (\<exists>ls. encodeBase64Wrapped data = concat (map (\<lambda>l. l @ crlf) ls) \<and> concat ls = EncodeToString data
        \<and> list_all (\<lambda>l. l \<noteq> [] \<and> length l \<le> 76 \<and> no_crlf l) ls)"
proof -
  let ?e = "EncodeToString data"
  have c: "\<forall>c \<in> set ?e. c \<noteq> CHR 0x0A \<and> c \<noteq> CHR 0x0D"
    using EncodeToString_chars b64_std_props(4,5) by fastforce
  have d: "b64_decode (encodeBase64Wrapped data) = b64_decode ?e"
    unfolding b64_decode_def encodeBase64Wrapped_def Let_def wrap_lines_filter[OF order_refl c]
    using c by (simp add: filter_id_conv)
  obtain ls where ls: "wrap_lines (length ?e) ?e = concat (map (\<lambda>l. l @ crlf) ls)" "concat ls = ?e"
    "\<forall>l \<in> set ls. l \<noteq> [] \<and> length l \<le> 76" using wrap_lines_cols[OF order_refl, of ?e] by blast
  moreover have "no_crlf l" if "l \<in> set ls" for l
  proof -
    have "set l \<subseteq> set ?e" using ls(2) that by (metis UN_upper set_concat)
    then show ?thesis using c by (auto simp: no_crlf_def)
  qed
  ultimately have "\<exists>ls. encodeBase64Wrapped data = concat (map (\<lambda>l. l @ crlf) ls) \<and> concat ls = ?e
      \<and> list_all (\<lambda>l. l \<noteq> [] \<and> length l \<le> 76 \<and> no_crlf l) ls"
    by (intro exI[of _ ls]) (auto simp: encodeBase64Wrapped_def Let_def list_all_iff)
  then show ?thesis using d b64_roundtrip by simp
qed

end
