(* ===== verification/Api_Auth.thy ===== *)
theory Api_Auth
  imports Directory_Service Apiauth Audit_Trail Ratelimit Smtp_Submission Mailbuild
begin

section \<open>Authentication of the management API: internal/api/auth.go, ratelimit.go, dtos.go, views.go\<close>

text \<open>
  What every controller of the API shares: the request objects, the views it answers with, the
  responses, and the three guards. \<open>service_ops\<close> names the operations of \<open>directory.Service\<close> the
  controllers call, with \<open>Service_api\<close> the service itself. Handlers run under
  \<open>context.Background()\<close>, which is never cancelled. Both limiters share the state \<open>'l\<close>, and the
  webhook enqueuer and the redriver the state \<open>'h\<close>; both read the subscriptions of \<open>'w\<close>.
\<close>

subsection \<open>The directory the controllers call\<close>

record 'd service_ops =
  sv_CreateAccount :: "string \<Rightarrow> 'd \<Rightarrow> (gerr + account) \<times> 'd"
  sv_GetAccount :: "string \<Rightarrow> 'd \<Rightarrow> gerr + account"
  sv_ListAccounts :: "string \<Rightarrow> int \<Rightarrow> 'd \<Rightarrow> gerr + account list"
  sv_CreateVhost :: "nat \<Rightarrow> string \<Rightarrow> string \<Rightarrow> 'd \<Rightarrow> (gerr + vhost) \<times> 'd"
  sv_ListVhosts :: "string \<Rightarrow> int \<Rightarrow> 'd \<Rightarrow> gerr + vhost list"
  sv_GetVhost :: "string \<Rightarrow> 'd \<Rightarrow> gerr + vhost"
  sv_Vhost :: "string \<Rightarrow> 'd \<Rightarrow> vhost option"
  sv_DeactivateVhost :: "string \<Rightarrow> 'd \<Rightarrow> gerr option \<times> 'd"
  sv_UpdateVhostPolicy :: "string \<Rightarrow> vhost_policy \<Rightarrow> 'd \<Rightarrow> gerr option \<times> 'd"
  sv_CreateMailbox :: "nat \<Rightarrow> string \<Rightarrow> string \<Rightarrow> string \<Rightarrow> 'd \<Rightarrow> (gerr + mailbox) \<times> 'd"
  sv_ListMailboxes :: "string \<Rightarrow> 'd \<Rightarrow> gerr + mailbox list"
  sv_ListMailboxesPage :: "string \<Rightarrow> string \<Rightarrow> int \<Rightarrow> 'd \<Rightarrow> gerr + mailbox list"
  sv_GetMailbox :: "string \<Rightarrow> string \<Rightarrow> 'd \<Rightarrow> gerr + mailbox"
  sv_DeleteMailbox :: "string \<Rightarrow> string \<Rightarrow> 'd \<Rightarrow> gerr option \<times> 'd"

definition Service_api :: "('a, 'v, 'd, 'm) dir_env \<Rightarrow> ('a, 'v, 'd, 'm) dir_db service_ops" where
  "Service_api env = \<lparr>sv_CreateAccount = Service_CreateAccount env None, sv_GetAccount = Service_GetAccount env None,
     sv_ListAccounts = Service_ListAccounts env None, sv_CreateVhost = Service_CreateVhost env None,
     sv_ListVhosts = Service_ListVhosts env None, sv_GetVhost = Service_GetVhost env None,
     sv_Vhost = Service_Vhost env None, sv_DeactivateVhost = Service_DeactivateVhost env None,
     sv_UpdateVhostPolicy = Service_UpdateVhostPolicy env None, sv_CreateMailbox = Service_CreateMailbox env None,
     sv_ListMailboxes = Service_ListMailboxes env None, sv_ListMailboxesPage = Service_ListMailboxesPage env None,
     sv_GetMailbox = Service_GetMailbox env None, sv_DeleteMailbox = Service_DeleteMailbox env None\<rparr>"

subsection \<open>Requests: dtos.go\<close>

record dto =
  Authorization :: string
  ClientIP :: string

record create_vhost_dto = dto +
  cvd_AccountID :: string
  cvd_Domain :: string

record list_vhosts_dto = dto +
  lvd_Cursor :: string
  lvd_Limit :: int

record get_vhost_dto = dto +
  gvd_ID :: string

record deactivate_vhost_dto = dto +
  dvd_ID :: string

record update_vhost_policy_dto = dto +
  upd_ID :: string
  upd_MaxMessageBytes :: int
  upd_DailyQuota :: int
  upd_SpamRejectThreshold :: real
  upd_SpamQuarantineThreshold :: real
  upd_RetentionDays :: int

record create_mailbox_dto = dto +
  cmd_VhostID :: string
  cmd_LocalPart :: string
  cmd_Password :: string

record list_mailboxes_dto = dto +
  lmd_VhostID :: string
  lmd_Cursor :: string
  lmd_Limit :: int

record get_mailbox_dto = dto +
  gmd_VhostID :: string
  gmd_ID :: string

record delete_mailbox_dto = dto +
  dmd_VhostID :: string
  dmd_ID :: string

record create_webhook_subscription_dto = dto +
  cwd_VhostID :: string
  cwd_URL :: string
  cwd_Secret :: string
  cwd_EventTypes :: "string list"

record list_webhook_subscriptions_dto = dto +
  lwd_VhostID :: string
  lwd_Cursor :: string
  lwd_Limit :: int

record disable_webhook_subscription_dto = dto +
  dwd_VhostID :: string
  dwd_ID :: string

record list_webhook_attempts_dto = dto +
  lad_VhostID :: string
  lad_ID :: string
  lad_Cursor :: string
  lad_Limit :: int

record redrive_webhook_attempt_dto = dto +
  rwd_VhostID :: string
  rwd_ID :: string
  rwd_EventID :: string

record create_token_dto = dto +
  ctd_AccountID :: string
  ctd_Label :: string

record list_tokens_dto = dto +
  ltd_AccountID :: string
  ltd_Cursor :: string
  ltd_Limit :: int

record revoke_token_dto = dto +
  rtd_AccountID :: string
  rtd_ID :: string

record create_account_dto = dto +
  cad_Name :: string

record list_accounts_dto = dto +
  lacd_Cursor :: string
  lacd_Limit :: int

record get_account_dto = dto +
  gad_ID :: string

record list_account_audit_entries_dto = dto +
  laed_AccountID :: string
  laed_Cursor :: string
  laed_Limit :: int

record attachment_dto =
  atd_Filename :: string
  atd_ContentType :: string
  atd_ContentBase64 :: string

record send_message_dto = dto +
  smd_AccountID :: string
  smd_From :: string
  smd_To :: "string list"
  smd_Cc :: "string list"
  smd_Bcc :: "string list"
  smd_Subject :: string
  smd_Text :: string
  smd_HTML :: string
  smd_Attachments :: "attachment_dto list"
  smd_Headers :: "string gomap"

record list_audit_entries_dto = dto +
  laud_VhostID :: string
  laud_Cursor :: string
  laud_Limit :: int

record export_vhost_data_dto = dto +
  evd_ID :: string

record delete_vhost_data_dto = dto +
  ded_ID :: string

subsection \<open>Views: views.go\<close>

record vhost_view =
  vv_ID :: string
  vv_AccountID :: string
  vv_Domain :: string
  vv_Active :: bool
  vv_MaxMessageBytes :: int
  vv_DailyQuota :: int
  vv_SpamRejectThreshold :: real
  vv_SpamQuarantineThreshold :: real
  vv_RetentionDays :: int
  vv_DKIMSelector :: string
  vv_DKIMDNSRecord :: string

text \<open>\<open>pkix\<close> is \<open>x509.MarshalPKIXPublicKey\<close> of the public half of a private key.\<close>

definition newVhostView :: "(string \<Rightarrow> gerr + bytes) \<Rightarrow> vhost \<Rightarrow> vhost_view" where
  "newVhostView pkix v =
     (let view = \<lparr>vv_ID = vh_ID v, vv_AccountID = vh_AccountID v, vv_Domain = vh_Domain v, vv_Active = vh_Active v,
            vv_MaxMessageBytes = vh_MaxMessageBytes v, vv_DailyQuota = vh_DailyQuota v,
            vv_SpamRejectThreshold = vh_SpamRejectThreshold v,
            vv_SpamQuarantineThreshold = vh_SpamQuarantineThreshold v,
            vv_RetentionDays = vh_RetentionDays v, vv_DKIMSelector = vh_DKIMSelector v, vv_DKIMDNSRecord = []\<rparr>
      in case vh_DKIMKey v of
           None \<Rightarrow> view
         | Some key \<Rightarrow> (case pkix key of
             Inl e \<Rightarrow> view
           | Inr der \<Rightarrow> view\<lparr>vv_DKIMDNSRecord := ''v=DKIM1; k=rsa; p='' @ EncodeToString der\<rparr>))"

record mailbox_view =
  mv_ID :: string
  mv_VhostID :: string
  mv_LocalPart :: string

definition newMailboxView :: "mailbox \<Rightarrow> mailbox_view" where
  "newMailboxView m = \<lparr>mv_ID = mbx_ID m, mv_VhostID = mbx_VhostID m, mv_LocalPart = mbx_LocalPart m\<rparr>"

record webhook_subscription_view =
  wsv_ID :: string
  wsv_VhostID :: string
  wsv_URL :: string
  wsv_EventTypes :: "string list"
  wsv_Disabled :: bool

definition newWebhookSubscriptionView :: "string \<Rightarrow> subscription \<Rightarrow> webhook_subscription_view" where
  "newWebhookSubscriptionView vhostID s = \<lparr>wsv_ID = sub_ID s, wsv_VhostID = vhostID, wsv_URL = sub_URL s,
     wsv_EventTypes = sub_EventTypes s, wsv_Disabled = sub_Disabled s\<rparr>"

record webhook_attempt_view =
  wav_ID :: string
  wav_EventID :: string
  wav_Attempt :: int
  wav_StatusCode :: int
  wav_Error :: string
  wav_AttemptedAt :: time

definition newWebhookAttemptView :: "delivery_attempt \<Rightarrow> webhook_attempt_view" where
  "newWebhookAttemptView a = \<lparr>wav_ID = da_ID a, wav_EventID = da_EventID a, wav_Attempt = da_Attempt a,
     wav_StatusCode = da_StatusCode a, wav_Error = da_Error a, wav_AttemptedAt = da_AttemptedAt a\<rparr>"

record token_view =
  tv_ID :: string
  tv_AccountID :: string
  tv_Label :: string
  tv_CreatedAt :: time
  tv_Token :: string

definition newTokenView :: "token \<Rightarrow> string \<Rightarrow> token_view" where
  "newTokenView t rawToken = \<lparr>tv_ID = tok_ID t, tv_AccountID = tok_AccountID t, tv_Label = tok_Label t,
     tv_CreatedAt = tok_CreatedAt t, tv_Token = rawToken\<rparr>"

record account_view =
  av_ID :: string
  av_Name :: string
  av_CreatedAt :: time

definition newAccountView :: "account \<Rightarrow> account_view" where
  "newAccountView a = \<lparr>av_ID = acc_ID a, av_Name = acc_Name a, av_CreatedAt = acc_CreatedAt a\<rparr>"

record account_with_token_view =
  awt_Account :: account_view
  awt_Token :: token_view

definition newAccountWithTokenView :: "account \<Rightarrow> token \<Rightarrow> string \<Rightarrow> account_with_token_view" where
  "newAccountWithTokenView a t raw = \<lparr>awt_Account = newAccountView a, awt_Token = newTokenView t raw\<rparr>"

record audit_entry_view =
  aev_Actor :: string
  aev_Action :: string
  aev_Detail :: string
  aev_At :: time

definition newAuditEntryView :: "audit_entry \<Rightarrow> audit_entry_view" where
  "newAuditEntryView e = \<lparr>aev_Actor = ae_Actor e, aev_Action = ae_Action e, aev_Detail = ae_Detail e, aev_At = ae_At e\<rparr>"

record message_export_view =
  mev_Mailbox :: string
  mev_Size :: int
  mev_Flags :: "string list"
  mev_CreatedAt :: time
  mev_Body :: string

record data_export_view =
  dev_Vhost :: vhost_view
  dev_Mailboxes :: "mailbox_view list"
  dev_Messages :: "message_export_view list"
  dev_WebhookSubscriptions :: "webhook_subscription_view list"
  dev_AuditLog :: "audit_entry_view list"

definition newDataExportView :: "(string \<Rightarrow> gerr + bytes) \<Rightarrow> vhost \<Rightarrow> mailbox list \<Rightarrow> message_export_view list \<Rightarrow> string
    \<Rightarrow> subscription list \<Rightarrow> audit_entry list \<Rightarrow> data_export_view" where
  "newDataExportView pkix v mailboxes messages vhostID subs entries =
     \<lparr>dev_Vhost = newVhostView pkix v, dev_Mailboxes = map newMailboxView mailboxes, dev_Messages = messages,
      dev_WebhookSubscriptions = map (newWebhookSubscriptionView vhostID) subs,
      dev_AuditLog = map newAuditEntryView entries\<rparr>"

subsection \<open>Responses\<close>

text \<open>The data of a response, and the constructors of \<open>output\<close> the controllers use.\<close>

datatype api_data =
    NoData
  | VhostData vhost_view
  | MailboxData mailbox_view
  | SubscriptionData webhook_subscription_view
  | TokenData token_view
  | AccountData account_view
  | AccountTokenData account_with_token_view
  | VhostsData "vhost_view list"
  | MailboxesData "mailbox_view list"
  | SubscriptionsData "webhook_subscription_view list"
  | AttemptsData "webhook_attempt_view list"
  | TokensData "token_view list"
  | AccountsData "account_view list"
  | AuditData "audit_entry_view list"
  | ExportData data_export_view
  | MessagesDeleted nat
  | Queued nat string "string list"

datatype api_output =
    Unauthorized string
  | Forbidden string
  | BadRequest string
  | NotFound string
  | TooManyRequests string
  | InternalServerError string
  | ServiceUnavailable string
  | OK api_data
  | Created api_data
  | Success string api_data
  | SuccessWithMeta string api_data string

subsection \<open>The controllers' collaborators and state\<close>

record 'l rate_limit_policy =
  rl_Limiter :: "'l limiter_ops option"
  rl_Capacity :: real
  rl_RefillPerSecond :: real

text \<open>
  \<open>ae_admin\<close>, \<open>ae_rateLimit\<close>, \<open>ae_redrive\<close> and \<open>ae_quota\<close> are pointers to structs and may be nil.
  Of what is not in the repository: \<open>crypto/sha256\<close>, \<open>crypto/x509\<close>, the DKIM signer, the JSON
  encoding of an event, and \<open>net/mail\<close>'s address parser (the address of a parsed mailbox).
\<close>

record ('d, 't, 'u, 'w, 'l, 's, 'q, 'h) api_env =
  ae_dir :: "'d service_ops"
  ae_tokens :: "'t token_store"
  ae_admin :: "string option"
  ae_rateLimit :: "'l rate_limit_policy option"
  ae_audit :: "'u audit_store"
  ae_webhooks :: "'w webhook_store"
  ae_redrive :: "(string \<Rightarrow> string \<Rightarrow> string \<Rightarrow> 'w \<Rightarrow> 'h \<Rightarrow> gerr option \<times> 'h) option option"
  ae_store :: "'s store_ops"
  ae_queue :: "(job, 'q) queue_ops"
  ae_enqueuer :: "('w \<Rightarrow> 'h enqueuer) option"
  ae_quota :: "'l limiter_ops option option"
  ae_sha256 :: "bytes \<Rightarrow> bytes"
  ae_pkix :: "string \<Rightarrow> gerr + bytes"
  ae_sign :: "string \<Rightarrow> string \<Rightarrow> string \<Rightarrow> bytes \<Rightarrow> gerr + bytes"
  ae_payload :: "string \<Rightarrow> queued_data \<Rightarrow> gerr + bytes"
  ae_parse_from :: "string \<Rightarrow> gerr + string"

record ('d, 't, 'u, 'w, 'l, 's, 'q, 'h) api_state =
  as_dir :: 'd
  as_tokens :: 't
  as_audit :: 'u
  as_webhooks :: 'w
  as_limiter :: 'l
  as_store :: 's
  as_queue :: 'q
  as_hooks :: 'h

text \<open>
  What a request draws: the readings of the clock and the UUIDs, in order, the iteration order of
  the maps it ranges over, random bytes, and the position in the random stream.
\<close>

record api_draws =
  ad_now :: "nat \<Rightarrow> time"
  ad_uuid :: "nat \<Rightarrow> string"
  ad_seed :: nat
  ad_rand :: "gerr + bytes"
  ad_n :: nat
  ad_job :: "nat \<Rightarrow> string \<times> time"
  ad_build :: build_draws

record auth_context =
  ac_IsAdmin :: bool
  ac_AccountID :: string

definition Actor :: "auth_context \<Rightarrow> string" where
  "Actor ac = (if ac_IsAdmin ac then ''admin'' else ''account:'' @ ac_AccountID ac)"

subsection \<open>Authentication\<close>

definition clientIPFromHeader :: "string \<Rightarrow> string" where
  "clientIPFromHeader xff = (case go_cut '','' xff of (first, _, _) \<Rightarrow> trim_space first)"

definition DefaultAPIRateLimitCapacity :: real where "DefaultAPIRateLimitCapacity = 60"
definition DefaultAPIRateLimitRefillPerSecond :: real where "DefaultAPIRateLimitRefillPerSecond = 1"

definition checkAPIRateLimit :: "'l rate_limit_policy option \<Rightarrow> time \<Rightarrow> string \<Rightarrow> 'l \<Rightarrow> api_output option \<times> 'l" where
  "checkAPIRateLimit policy now clientIPHeader l =
     (case policy of None \<Rightarrow> (None, l) | Some p \<Rightarrow>
      case rl_Limiter p of None \<Rightarrow> (None, l) | Some limiter \<Rightarrow>
        let ip = clientIPFromHeader clientIPHeader in
        if ip = [] then (None, l)
        else let capacity = (if rl_Capacity p \<le> 0 then DefaultAPIRateLimitCapacity else rl_Capacity p);
                 refill = (if rl_RefillPerSecond p \<le> 0 then DefaultAPIRateLimitRefillPerSecond else rl_RefillPerSecond p)
             in case l_Allow limiter now (''api:'' @ ip) capacity refill l of
                  (Inl e, l') \<Rightarrow> (None, l')
                | (Inr allowed, l') \<Rightarrow>
                    (if \<not> allowed then Some (TooManyRequests ''rate limit exceeded, try again later'') else None, l'))"

text \<open>\<open>None\<close> is \<open>ok = false\<close>.\<close>

definition bearerToken :: "string \<Rightarrow> string option" where
  "bearerToken header =
     (if \<not> has_prefix header ''Bearer '' then None
      else let raw = trim_space (trim_prefix header ''Bearer '') in if raw = [] then None else Some raw)"

definition authenticate :: "('d, 't, 'u, 'w, 'l, 's, 'q, 'h) api_env \<Rightarrow> api_draws \<Rightarrow> string \<Rightarrow> string
    \<Rightarrow> ('d, 't, 'u, 'w, 'l, 's, 'q, 'h) api_state
    \<Rightarrow> (api_output + auth_context) \<times> ('d, 't, 'u, 'w, 'l, 's, 'q, 'h) api_state" where
  "authenticate env dr header clientIPHeader s =
     (case checkAPIRateLimit (ae_rateLimit env) (ad_now dr 0) clientIPHeader (as_limiter s) of
        (Some errOut, l) \<Rightarrow> (Inl errOut, s\<lparr>as_limiter := l\<rparr>)
      | (None, l) \<Rightarrow>
          (case bearerToken header of
             None \<Rightarrow> Inl (Unauthorized ''missing or malformed Authorization header (expected: Bearer <token>)'')
           | Some raw \<Rightarrow>
               if (case ae_admin env of None \<Rightarrow> False | Some value \<Rightarrow> value \<noteq> [] \<and> ConstantTimeEqual raw value)
               then Inr \<lparr>ac_IsAdmin = True, ac_AccountID = []\<rparr>
               else (case tk_Authenticate (ae_tokens env) None (ad_seed dr) (HashToken (ae_sha256 env) raw) (as_tokens s) of
                       Inl e \<Rightarrow> Inl (InternalServerError ''failed to authenticate'')
                     | Inr None \<Rightarrow> Inl (Unauthorized ''invalid or revoked token'')
                     | Inr (Some tok) \<Rightarrow> Inr \<lparr>ac_IsAdmin = False, ac_AccountID = tok_AccountID tok\<rparr>),
           s\<lparr>as_limiter := l\<rparr>))"

definition requireAdmin :: "('d, 't, 'u, 'w, 'l, 's, 'q, 'h) api_env \<Rightarrow> api_draws \<Rightarrow> string \<Rightarrow> string
    \<Rightarrow> ('d, 't, 'u, 'w, 'l, 's, 'q, 'h) api_state
    \<Rightarrow> (api_output + auth_context) \<times> ('d, 't, 'u, 'w, 'l, 's, 'q, 'h) api_state" where
  "requireAdmin env dr header clientIPHeader s =
     (case authenticate env dr header clientIPHeader s of
        (Inl errOut, s') \<Rightarrow> (Inl errOut, s')
      | (Inr ac, s') \<Rightarrow> (if \<not> ac_IsAdmin ac then Inl (Forbidden ''admin token required'') else Inr ac, s'))"

definition requireAccountAccess :: "('d, 't, 'u, 'w, 'l, 's, 'q, 'h) api_env \<Rightarrow> api_draws \<Rightarrow> string \<Rightarrow> string \<Rightarrow> string
    \<Rightarrow> ('d, 't, 'u, 'w, 'l, 's, 'q, 'h) api_state
    \<Rightarrow> (api_output + auth_context) \<times> ('d, 't, 'u, 'w, 'l, 's, 'q, 'h) api_state" where
  "requireAccountAccess env dr header clientIPHeader accountID s =
     (case authenticate env dr header clientIPHeader s of
        (Inl errOut, s') \<Rightarrow> (Inl errOut, s')
      | (Inr ac, s') \<Rightarrow>
          (if ac_IsAdmin ac \<or> ac_AccountID ac = accountID then Inr ac
           else Inl (Forbidden ''token is not authorized for this account''), s'))"

definition requireVhostAccountAccess :: "('d, 't, 'u, 'w, 'l, 's, 'q, 'h) api_env \<Rightarrow> api_draws \<Rightarrow> string \<Rightarrow> string \<Rightarrow> string
    \<Rightarrow> ('d, 't, 'u, 'w, 'l, 's, 'q, 'h) api_state
    \<Rightarrow> (api_output + auth_context) \<times> ('d, 't, 'u, 'w, 'l, 's, 'q, 'h) api_state" where
  "requireVhostAccountAccess env dr header clientIPHeader vhostID s =
     (case authenticate env dr header clientIPHeader s of
        (Inl errOut, s') \<Rightarrow> (Inl errOut, s')
      | (Inr ac, s') \<Rightarrow>
          (if ac_IsAdmin ac then Inr ac
           else (case sv_GetVhost (ae_dir env) vhostID (as_dir s') of
                   Inl e \<Rightarrow>
                     if errors_is ''directory: not found'' e
                     then Inl (Forbidden ''token is not authorized for this vhost'')
                     else Inl (InternalServerError ''failed to verify vhost'')
                 | Inr v \<Rightarrow>
                     if ac_AccountID ac = vh_AccountID v then Inr ac
                     else Inl (Forbidden ''token is not authorized for this vhost'')), s'))"

text \<open>\<open>k\<close> numbers the audit entries of a request.\<close>

definition recordAudit :: "('d, 't, 'u, 'w, 'l, 's, 'q, 'h) api_env \<Rightarrow> api_draws \<Rightarrow> nat \<Rightarrow> auth_context \<Rightarrow> string \<Rightarrow> string \<Rightarrow> string
    \<Rightarrow> ('d, 't, 'u, 'w, 'l, 's, 'q, 'h) api_state \<Rightarrow> ('d, 't, 'u, 'w, 'l, 's, 'q, 'h) api_state" where
  "recordAudit env dr k ac action target detail s =
     s\<lparr>as_audit := snd (au_Record (ae_audit env) None (ad_now dr (Suc k)) (ad_uuid dr (Suc k))
         \<lparr>ae_ID = [], ae_Actor = Actor ac, ae_Action = action, ae_Target = target, ae_Detail = detail,
          ae_At = audit_zero_time\<rparr> (as_audit s))\<rparr>"

text \<open>A handler: what follows a guard runs only when it let the request through.\<close>

definition guarded :: "(api_output + 'c) \<times> 'z \<Rightarrow> ('c \<Rightarrow> 'z \<Rightarrow> api_output \<times> 'z) \<Rightarrow> api_output \<times> 'z" where
  "guarded g k = (case g of (Inl errOut, s) \<Rightarrow> (errOut, s) | (Inr ac, s) \<Rightarrow> k ac s)"

end
