(* ===== verification/Api.thy ===== *)
theory Api
  imports Api_Auth
begin

section \<open>The management API: internal/api\<close>

text \<open>
  Every controller method, over the state \<open>api_state\<close> and the collaborators \<open>api_env\<close>, and the
  routes. A request runs as one step: what other requests do between two of its statements is not
  modelled.
\<close>

text \<open>The \<open>nextCursor\<close> every listing computes from the requested limit and the page it got.\<close>

definition next_cursor :: "('a \<Rightarrow> string) \<Rightarrow> int \<Rightarrow> 'a list \<Rightarrow> string" where
  "next_cursor ident requested page =
     (let limit = (if requested \<le> 0 \<or> requested > 500 then 100 else requested)
      in if int (length page) = limit then ident (last page) else [])"

subsection \<open>Vhosts and mailboxes: controller.go\<close>

definition VhostController_CreateVhost where
  "VhostController_CreateVhost env dr dto s =
     guarded (requireAccountAccess env dr (Authorization dto) (ClientIP dto) (cvd_AccountID dto) s) (\<lambda>ac s.
       if cvd_Domain dto = [] then (BadRequest ''domain is required'', s)
       else case sv_GetAccount (ae_dir env) (cvd_AccountID dto) (as_dir s) of
         Inl e \<Rightarrow> (if errors_is ''directory: not found'' e then NotFound ''account not found''
                   else InternalServerError ''failed to verify account'', s)
       | Inr acct \<Rightarrow>
           (case sv_CreateVhost (ae_dir env) (ad_n dr) (cvd_AccountID dto) (cvd_Domain dto) (as_dir s) of
              (Inl e, d) \<Rightarrow> (InternalServerError ''failed to create vhost'', s\<lparr>as_dir := d\<rparr>)
            | (Inr v, d) \<Rightarrow>
                (Created (VhostData (newVhostView (ae_pkix env) v)),
                 recordAudit env dr 0 ac ''vhost.create'' (vh_ID v) (cvd_Domain dto) (s\<lparr>as_dir := d\<rparr>))))"

definition VhostController_ListVhosts where
  "VhostController_ListVhosts env dr dto s =
     guarded (requireAdmin env dr (Authorization dto) (ClientIP dto) s) (\<lambda>ac s.
       case sv_ListVhosts (ae_dir env) (lvd_Cursor dto) (lvd_Limit dto) (as_dir s) of
         Inl e \<Rightarrow> (InternalServerError ''failed to list vhosts'', s)
       | Inr vhosts \<Rightarrow> (SuccessWithMeta [] (VhostsData (map (newVhostView (ae_pkix env)) vhosts))
                          (next_cursor vh_ID (lvd_Limit dto) vhosts), s))"

definition VhostController_GetVhost where
  "VhostController_GetVhost env dr dto s =
     guarded (requireVhostAccountAccess env dr (Authorization dto) (ClientIP dto) (gvd_ID dto) s) (\<lambda>ac s.
       case sv_GetVhost (ae_dir env) (gvd_ID dto) (as_dir s) of
         Inl e \<Rightarrow> (if errors_is ''directory: not found'' e then NotFound ''vhost not found''
                   else InternalServerError ''failed to fetch vhost'', s)
       | Inr v \<Rightarrow> (OK (VhostData (newVhostView (ae_pkix env) v)), s))"

definition VhostController_DeactivateVhost where
  "VhostController_DeactivateVhost env dr dto s =
     guarded (requireVhostAccountAccess env dr (Authorization dto) (ClientIP dto) (dvd_ID dto) s) (\<lambda>ac s.
       case sv_DeactivateVhost (ae_dir env) (dvd_ID dto) (as_dir s) of
         (Some e, d) \<Rightarrow> (if errors_is ''directory: not found'' e then NotFound ''vhost not found''
                   else InternalServerError ''failed to deactivate vhost'', s\<lparr>as_dir := d\<rparr>)
       | (None, d) \<Rightarrow> (Success ''vhost deactivated'' NoData,
                        recordAudit env dr 0 ac ''vhost.deactivate'' (dvd_ID dto) [] (s\<lparr>as_dir := d\<rparr>)))"

definition policy_of :: "update_vhost_policy_dto \<Rightarrow> vhost_policy" where
  "policy_of dto = \<lparr>vp_MaxMessageBytes = upd_MaxMessageBytes dto, vp_DailyQuota = upd_DailyQuota dto,
     vp_SpamRejectThreshold = upd_SpamRejectThreshold dto,
     vp_SpamQuarantineThreshold = upd_SpamQuarantineThreshold dto, vp_RetentionDays = upd_RetentionDays dto\<rparr>"

definition VhostController_UpdateVhostPolicy where
  "VhostController_UpdateVhostPolicy env dr dto s =
     guarded (requireVhostAccountAccess env dr (Authorization dto) (ClientIP dto) (upd_ID dto) s) (\<lambda>ac s.
       case sv_UpdateVhostPolicy (ae_dir env) (upd_ID dto) (policy_of dto) (as_dir s) of
         (Some e, d) \<Rightarrow> (if errors_is ''directory: not found'' e then NotFound ''vhost not found''
                   else InternalServerError ''failed to update vhost policy'', s\<lparr>as_dir := d\<rparr>)
       | (None, d) \<Rightarrow>
           (case sv_GetVhost (ae_dir env) (upd_ID dto) d of
              Inl e \<Rightarrow> (InternalServerError ''failed to fetch updated vhost'', s\<lparr>as_dir := d\<rparr>)
            | Inr v \<Rightarrow> (Success ''vhost policy updated'' (VhostData (newVhostView (ae_pkix env) v)),
                         recordAudit env dr 0 ac ''vhost.policy.update'' (upd_ID dto) [] (s\<lparr>as_dir := d\<rparr>))))"

definition VhostController_CreateMailbox where
  "VhostController_CreateMailbox env dr dto s =
     guarded (requireVhostAccountAccess env dr (Authorization dto) (ClientIP dto) (cmd_VhostID dto) s) (\<lambda>ac s.
       if cmd_LocalPart dto = [] \<or> cmd_Password dto = [] then (BadRequest ''localPart and password are required'', s)
       else case sv_GetVhost (ae_dir env) (cmd_VhostID dto) (as_dir s) of
         Inl e \<Rightarrow> (if errors_is ''directory: not found'' e then NotFound ''vhost not found''
                   else InternalServerError ''failed to verify vhost'', s)
       | Inr v \<Rightarrow>
           (case sv_CreateMailbox (ae_dir env) (ad_n dr) (cmd_VhostID dto) (cmd_LocalPart dto) (cmd_Password dto) (as_dir s) of
              (Inl e, d) \<Rightarrow> (InternalServerError ''failed to create mailbox'', s\<lparr>as_dir := d\<rparr>)
            | (Inr mb, d) \<Rightarrow>
                (Created (MailboxData (newMailboxView mb)),
                 recordAudit env dr 0 ac ''mailbox.create'' (cmd_VhostID dto) (cmd_LocalPart dto) (s\<lparr>as_dir := d\<rparr>))))"

definition VhostController_ListMailboxes where
  "VhostController_ListMailboxes env dr dto s =
     guarded (requireVhostAccountAccess env dr (Authorization dto) (ClientIP dto) (lmd_VhostID dto) s) (\<lambda>ac s.
       case sv_ListMailboxesPage (ae_dir env) (lmd_VhostID dto) (lmd_Cursor dto) (lmd_Limit dto) (as_dir s) of
         Inl e \<Rightarrow> (InternalServerError ''failed to list mailboxes'', s)
       | Inr mailboxes \<Rightarrow> (SuccessWithMeta [] (MailboxesData (map newMailboxView mailboxes))
                             (next_cursor mbx_ID (lmd_Limit dto) mailboxes), s))"

definition VhostController_GetMailbox where
  "VhostController_GetMailbox env dr dto s =
     guarded (requireVhostAccountAccess env dr (Authorization dto) (ClientIP dto) (gmd_VhostID dto) s) (\<lambda>ac s.
       case sv_GetMailbox (ae_dir env) (gmd_VhostID dto) (gmd_ID dto) (as_dir s) of
         Inl e \<Rightarrow> (if errors_is ''directory: not found'' e then NotFound ''mailbox not found''
                   else InternalServerError ''failed to fetch mailbox'', s)
       | Inr mb \<Rightarrow> (OK (MailboxData (newMailboxView mb)), s))"

definition VhostController_DeleteMailbox where
  "VhostController_DeleteMailbox env dr dto s =
     guarded (requireVhostAccountAccess env dr (Authorization dto) (ClientIP dto) (dmd_VhostID dto) s) (\<lambda>ac s.
       case sv_DeleteMailbox (ae_dir env) (dmd_VhostID dto) (dmd_ID dto) (as_dir s) of
         (Some e, d) \<Rightarrow> (if errors_is ''directory: not found'' e then NotFound ''mailbox not found''
                   else InternalServerError ''failed to delete mailbox'', s\<lparr>as_dir := d\<rparr>)
       | (None, d) \<Rightarrow> (Success ''mailbox deleted'' NoData,
                        recordAudit env dr 0 ac ''mailbox.delete'' (dmd_VhostID dto) (dmd_ID dto) (s\<lparr>as_dir := d\<rparr>)))"

subsection \<open>Tokens and accounts: token_controller.go, account_controller.go\<close>

definition mintToken where
  "mintToken env dr accountID label t =
     (case GenerateToken (ae_sha256 env) (ad_rand dr) of
        Inl e \<Rightarrow> (Inl e, t)
      | Inr (raw, hash) \<Rightarrow>
          (case tk_CreateToken (ae_tokens env) None (ad_now dr 1) (ad_uuid dr 0) accountID label hash t of
             (Inl e, t') \<Rightarrow> (Inl e, t')
           | (Inr tok, t') \<Rightarrow> (Inr (tok, raw), t')))"

definition TokenController_CreateToken where
  "TokenController_CreateToken env dr dto s =
     guarded (requireAccountAccess env dr (Authorization dto) (ClientIP dto) (ctd_AccountID dto) s) (\<lambda>ac s.
       case sv_GetAccount (ae_dir env) (ctd_AccountID dto) (as_dir s) of
         Inl e \<Rightarrow> (if errors_is ''directory: not found'' e then NotFound ''account not found''
                   else InternalServerError ''failed to verify account'', s)
       | Inr acct \<Rightarrow>
           (case mintToken env dr (ctd_AccountID dto) (ctd_Label dto) (as_tokens s) of
              (Inl e, t) \<Rightarrow> (InternalServerError ''failed to create token'', s\<lparr>as_tokens := t\<rparr>)
            | (Inr (tok, raw), t) \<Rightarrow>
                (Created (TokenData (newTokenView tok raw)),
                 recordAudit env dr 1 ac ''token.create'' (ctd_AccountID dto) (ctd_Label dto) (s\<lparr>as_tokens := t\<rparr>))))"

definition TokenController_ListTokens where
  "TokenController_ListTokens env dr dto s =
     guarded (requireAccountAccess env dr (Authorization dto) (ClientIP dto) (ltd_AccountID dto) s) (\<lambda>ac s.
       case tk_ListTokensPage (ae_tokens env) None (ad_seed dr) (ltd_AccountID dto) (ltd_Cursor dto) (ltd_Limit dto) (as_tokens s) of
         Inl e \<Rightarrow> (InternalServerError ''failed to list tokens'', s)
       | Inr toks \<Rightarrow> (SuccessWithMeta [] (TokensData (map (\<lambda>t. newTokenView t []) toks))
                          (next_cursor tok_ID (ltd_Limit dto) toks), s))"

definition TokenController_RevokeToken where
  "TokenController_RevokeToken env dr dto s =
     guarded (requireAccountAccess env dr (Authorization dto) (ClientIP dto) (rtd_AccountID dto) s) (\<lambda>ac s.
       case tk_RevokeToken (ae_tokens env) None (rtd_AccountID dto) (rtd_ID dto) (as_tokens s) of
         (Some e, t) \<Rightarrow> (if errors_is ''apiauth: not found'' e then NotFound ''token not found''
                   else InternalServerError ''failed to revoke token'', s\<lparr>as_tokens := t\<rparr>)
       | (None, t) \<Rightarrow> (Success ''token revoked'' NoData,
                        recordAudit env dr 0 ac ''token.revoke'' (rtd_AccountID dto) (rtd_ID dto) (s\<lparr>as_tokens := t\<rparr>)))"

definition AccountController_CreateAccount where
  "AccountController_CreateAccount env dr dto s =
     guarded (requireAdmin env dr (Authorization dto) (ClientIP dto) s) (\<lambda>ac s.
       if cad_Name dto = [] then (BadRequest ''name is required'', s)
       else case sv_CreateAccount (ae_dir env) (cad_Name dto) (as_dir s) of
         (Inl e, d) \<Rightarrow> (InternalServerError ''failed to create account'', s\<lparr>as_dir := d\<rparr>)
       | (Inr acct, d) \<Rightarrow>
           (case mintToken env dr (acc_ID acct) ''default'' (as_tokens s) of
              (Inl e, t) \<Rightarrow> (InternalServerError (''failed to create account'' @ [CHR 0x27] @ ''s first token''),
                            s\<lparr>as_dir := d, as_tokens := t\<rparr>)
            | (Inr (tok, raw), t) \<Rightarrow>
                (Created (AccountTokenData (newAccountWithTokenView acct tok raw)),
                 recordAudit env dr 2 ac ''token.create'' (acc_ID acct) ''default''
                   (recordAudit env dr 1 ac ''account.create'' (acc_ID acct) (cad_Name dto)
                      (s\<lparr>as_dir := d, as_tokens := t\<rparr>)))))"

definition AccountController_ListAccounts where
  "AccountController_ListAccounts env dr dto s =
     guarded (requireAdmin env dr (Authorization dto) (ClientIP dto) s) (\<lambda>ac s.
       case sv_ListAccounts (ae_dir env) (lacd_Cursor dto) (lacd_Limit dto) (as_dir s) of
         Inl e \<Rightarrow> (InternalServerError ''failed to list accounts'', s)
       | Inr accounts \<Rightarrow> (SuccessWithMeta [] (AccountsData (map newAccountView accounts))
                            (next_cursor acc_ID (lacd_Limit dto) accounts), s))"

definition AccountController_GetAccount where
  "AccountController_GetAccount env dr dto s =
     guarded (requireAccountAccess env dr (Authorization dto) (ClientIP dto) (gad_ID dto) s) (\<lambda>ac s.
       case sv_GetAccount (ae_dir env) (gad_ID dto) (as_dir s) of
         Inl e \<Rightarrow> (if errors_is ''directory: not found'' e then NotFound ''account not found''
                   else InternalServerError ''failed to fetch account'', s)
       | Inr acct \<Rightarrow> (OK (AccountData (newAccountView acct)), s))"

text \<open>Both \<open>ListEntries\<close> share what follows their guards.\<close>

definition audit_response where
  "audit_response env target cursor limit s =
     (case au_ListPage (ae_audit env) None target cursor limit (as_audit s) of
        Inl e \<Rightarrow> (InternalServerError ''failed to list audit log entries'', s)
      | Inr entries \<Rightarrow> (SuccessWithMeta [] (AuditData (map newAuditEntryView entries)) (next_cursor ae_ID limit entries), s))"

definition AccountController_ListEntries where
  "AccountController_ListEntries env dr dto s =
     guarded (requireAccountAccess env dr (Authorization dto) (ClientIP dto) (laed_AccountID dto) s) (\<lambda>ac s.
       audit_response env (laed_AccountID dto) (laed_Cursor dto) (laed_Limit dto) s)"

definition AuditController_ListEntries where
  "AuditController_ListEntries env dr dto s =
     guarded (requireVhostAccountAccess env dr (Authorization dto) (ClientIP dto) (laud_VhostID dto) s) (\<lambda>ac s.
       audit_response env (laud_VhostID dto) (laud_Cursor dto) (laud_Limit dto) s)"

subsection \<open>Webhooks: webhook_controller.go\<close>

definition vhostDomain where
  "vhostDomain env vhostID s =
     (case sv_GetVhost (ae_dir env) vhostID (as_dir s) of
        Inl e \<Rightarrow> (Inl (if errors_is ''directory: not found'' e then NotFound ''vhost not found''
                   else InternalServerError ''failed to verify vhost''), s)
      | Inr v \<Rightarrow> (Inr (vh_Domain v), s))"

definition WebhookController_CreateSubscription where
  "WebhookController_CreateSubscription env dr dto s =
     guarded (requireVhostAccountAccess env dr (Authorization dto) (ClientIP dto) (cwd_VhostID dto) s) (\<lambda>ac s.
       if cwd_URL dto = [] \<or> cwd_Secret dto = [] then (BadRequest ''url and secret are required'', s)
       else guarded (vhostDomain env (cwd_VhostID dto) s) (\<lambda>domain s.
         let sub = \<lparr>sub_ID = ad_uuid dr 0, sub_Vhost = domain, sub_URL = cwd_URL dto, sub_Secret = cwd_Secret dto,
                    sub_EventTypes = cwd_EventTypes dto, sub_Disabled = False\<rparr>
         in case w_CreateSubscription (ae_webhooks env) None sub (as_webhooks s) of
              (Some e, w) \<Rightarrow> (InternalServerError ''failed to create webhook subscription'', s\<lparr>as_webhooks := w\<rparr>)
            | (None, w) \<Rightarrow>
                (Created (SubscriptionData (newWebhookSubscriptionView (cwd_VhostID dto) sub)),
                 recordAudit env dr 0 ac ''webhook.create'' (cwd_VhostID dto) (cwd_URL dto) (s\<lparr>as_webhooks := w\<rparr>))))"

definition WebhookController_ListSubscriptions where
  "WebhookController_ListSubscriptions env dr dto s =
     guarded (requireVhostAccountAccess env dr (Authorization dto) (ClientIP dto) (lwd_VhostID dto) s) (\<lambda>ac s.
       guarded (vhostDomain env (lwd_VhostID dto) s) (\<lambda>domain s.
         case w_ListSubscriptionsPage (ae_webhooks env) None (ad_seed dr) domain (lwd_Cursor dto) (lwd_Limit dto) (as_webhooks s) of
           Inl e \<Rightarrow> (InternalServerError ''failed to list webhook subscriptions'', s)
         | Inr subs \<Rightarrow> (SuccessWithMeta [] (SubscriptionsData (map (newWebhookSubscriptionView (lwd_VhostID dto)) subs))
                          (next_cursor sub_ID (lwd_Limit dto) subs), s)))"

definition WebhookController_DisableSubscription where
  "WebhookController_DisableSubscription env dr dto s =
     guarded (requireVhostAccountAccess env dr (Authorization dto) (ClientIP dto) (dwd_VhostID dto) s) (\<lambda>ac s.
       guarded (vhostDomain env (dwd_VhostID dto) s) (\<lambda>domain s.
         case w_DisableSubscription (ae_webhooks env) None domain (dwd_ID dto) (as_webhooks s) of
           (Some e, w) \<Rightarrow> (if errors_is ''webhook: not found'' e then NotFound ''webhook subscription not found''
                     else InternalServerError ''failed to disable webhook subscription'', s\<lparr>as_webhooks := w\<rparr>)
         | (None, w) \<Rightarrow> (Success ''webhook subscription disabled'' NoData,
                          recordAudit env dr 0 ac ''webhook.disable'' (dwd_VhostID dto) (dwd_ID dto) (s\<lparr>as_webhooks := w\<rparr>))))"

definition WebhookController_ListAttempts where
  "WebhookController_ListAttempts env dr dto s =
     guarded (requireVhostAccountAccess env dr (Authorization dto) (ClientIP dto) (lad_VhostID dto) s) (\<lambda>ac s.
       guarded (vhostDomain env (lad_VhostID dto) s) (\<lambda>domain s.
         case w_ListAttemptsPage (ae_webhooks env) None domain (lad_ID dto) (lad_Cursor dto) (lad_Limit dto) (as_webhooks s) of
           Inl e \<Rightarrow> (InternalServerError ''failed to list delivery attempts'', s)
         | Inr attempts \<Rightarrow> (SuccessWithMeta [] (AttemptsData (map newWebhookAttemptView attempts))
                              (next_cursor da_ID (lad_Limit dto) attempts), s)))"

definition WebhookController_RedriveAttempt where
  "WebhookController_RedriveAttempt env dr dto s =
     guarded (requireVhostAccountAccess env dr (Authorization dto) (ClientIP dto) (rwd_VhostID dto) s) (\<lambda>ac s.
       case ae_redrive env of
         None \<Rightarrow> (ServiceUnavailable ''manual redrive is not configured on this deployment'', s)
       | Some None \<Rightarrow> (ServiceUnavailable ''manual redrive is not configured on this deployment'', s)
       | Some (Some redrive) \<Rightarrow>
           guarded (vhostDomain env (rwd_VhostID dto) s) (\<lambda>domain s.
             case redrive domain (rwd_ID dto) (rwd_EventID dto) (as_webhooks s) (as_hooks s) of
               (Some e, h) \<Rightarrow> (if errors_is ''webhook: not found'' e then NotFound ''subscription or event not found''
                         else InternalServerError ''failed to redrive webhook delivery'', s\<lparr>as_hooks := h\<rparr>)
             | (None, h) \<Rightarrow> (Success ''webhook delivery redriven'' NoData,
                              recordAudit env dr 0 ac ''webhook.redrive'' (rwd_VhostID dto) (rwd_EventID dto) (s\<lparr>as_hooks := h\<rparr>))))"

subsection \<open>Export and erasure: data_controller.go\<close>

definition export_message where
  "export_message env st m =
     (case s_Read (ae_store env) None (meta_Ref m) st of
        Inl e \<Rightarrow> None
      | Inr body \<Rightarrow> Some \<lparr>mev_Mailbox = ref_Mailbox (meta_Ref m), mev_Size = meta_Size m, mev_Flags = meta_Flags m,
          mev_CreatedAt = meta_CreatedAt m, mev_Body = EncodeToString body\<rparr>)"

definition DataController_Export where
  "DataController_Export env dr dto s =
     guarded (requireVhostAccountAccess env dr (Authorization dto) (ClientIP dto) (evd_ID dto) s) (\<lambda>ac s.
       case sv_GetVhost (ae_dir env) (evd_ID dto) (as_dir s) of
         Inl e \<Rightarrow> (if errors_is ''directory: not found'' e then NotFound ''vhost not found''
                   else InternalServerError ''failed to fetch vhost'', s)
       | Inr v \<Rightarrow>
       case sv_ListMailboxes (ae_dir env) (evd_ID dto) (as_dir s) of
         Inl e \<Rightarrow> (InternalServerError ''failed to list mailboxes'', s)
       | Inr mailboxes \<Rightarrow>
       case s_ListVhost (ae_store env) None (ad_seed dr) (vh_Domain v) (as_store s) of
         Inl e \<Rightarrow> (InternalServerError ''failed to list messages'', s)
       | Inr metas \<Rightarrow>
       case w_ListSubscriptions (ae_webhooks env) None (ad_seed dr) (vh_Domain v) (as_webhooks s) of
         Inl e \<Rightarrow> (InternalServerError ''failed to list webhook subscriptions'', s)
       | Inr subs \<Rightarrow>
       case au_List (ae_audit env) None (evd_ID dto) (as_audit s) of
         Inl e \<Rightarrow> (InternalServerError ''failed to list audit log'', s)
       | Inr entries \<Rightarrow>
           (OK (ExportData (newDataExportView (ae_pkix env) v mailboxes
                 (List.map_filter (export_message env (as_store s)) metas) (evd_ID dto) subs entries)),
            recordAudit env dr 0 ac ''vhost.data.export'' (evd_ID dto) [] s))"

fun delete_messages where
  "delete_messages store [] n st = (n, st)"
| "delete_messages store (m # ms) n st =
     (case s_Delete store None (meta_Ref m) st of
        (Some e, st') \<Rightarrow> delete_messages store ms n st'
      | (None, st') \<Rightarrow> delete_messages store ms (Suc n) st')"

definition DataController_Delete where
  "DataController_Delete env dr dto s =
     guarded (requireVhostAccountAccess env dr (Authorization dto) (ClientIP dto) (ded_ID dto) s) (\<lambda>ac s.
       case sv_GetVhost (ae_dir env) (ded_ID dto) (as_dir s) of
         Inl e \<Rightarrow> (if errors_is ''directory: not found'' e then NotFound ''vhost not found''
                   else InternalServerError ''failed to fetch vhost'', s)
       | Inr v \<Rightarrow>
       case s_ListVhost (ae_store env) None (ad_seed dr) (vh_Domain v) (as_store s) of
         Inl e \<Rightarrow> (InternalServerError ''failed to list messages'', s)
       | Inr metas \<Rightarrow>
       case delete_messages (ae_store env) metas 0 (as_store s) of
         (deleted, st) \<Rightarrow>
           (Success ''vhost data deleted'' (MessagesDeleted deleted),
            recordAudit env dr 0 ac ''vhost.data.delete'' (ded_ID dto) (itoa (int deleted) @ '' messages'') (s\<lparr>as_store := st\<rparr>)))"

subsection \<open>Sending: message_controller.go\<close>

fun unique_loop :: "string list \<Rightarrow> bool gomap \<Rightarrow> string list \<Rightarrow> string list" where
  "unique_loop [] seen out = out"
| "unique_loop (addr # rest) seen out =
     (if addr = [] \<or> gomap_bool seen addr then unique_loop rest seen out
      else unique_loop rest (AList.update addr True seen) (out @ [addr]))"

definition uniqueRecipients :: "string list list \<Rightarrow> string list" where
  "uniqueRecipients addrs = unique_loop (concat addrs) [] []"

definition api_checkQuota where
  "api_checkQuota env now v l =
     (case ae_quota env of None \<Rightarrow> (None, l) | Some None \<Rightarrow> (None, l) | Some (Some limiter) \<Rightarrow>
        if vh_DailyQuota v \<le> 0 then (None, l)
        else (case l_Allow limiter now (''quota:'' @ vh_ID v) (of_int (vh_DailyQuota v))
                     (of_int (vh_DailyQuota v) / secondsPerDay) l of
                (Inl e, l') \<Rightarrow> (None, l')
              | (Inr allowed, l') \<Rightarrow>
                  (if \<not> allowed then Some (TooManyRequests ''daily sending quota exceeded for this vhost, try again later'')
                   else None, l')))"

fun decode_attachments :: "attachment_dto list \<Rightarrow> api_output + attachment list" where
  "decode_attachments [] = Inr []"
| "decode_attachments (a # as) =
     (case b64_decode (atd_ContentBase64 a) of
        Inl e \<Rightarrow> Inl (BadRequest (''attachment '' @ go_quote (atd_Filename a) @ '': contentBase64 is not valid base64''))
      | Inr content \<Rightarrow>
          (case decode_attachments as of
             Inl errOut \<Rightarrow> Inl errOut
           | Inr rest \<Rightarrow> Inr (\<lparr>att_Filename = atd_Filename a, att_ContentType = atd_ContentType a, att_Content = content\<rparr> # rest)))"

definition sent_job :: "string \<Rightarrow> string \<Rightarrow> string \<Rightarrow> string \<Rightarrow> message_ref \<Rightarrow> string \<Rightarrow> time \<Rightarrow> job" where
  "sent_job domain sender correlationID rcpt ref newID now =
     \<lparr>job_ID = newID, job_Vhost = domain, job_From = sender, job_To = rcpt, job_BodyRef = ref_Key ref,
      job_Attempts = 0, job_NextAttemptAt = now, job_LastError = [], job_CorrelationID = correlationID\<rparr>"

text \<open>The loop over the recipients; each round draws an ID and reads the clock.\<close>

fun api_send_loop where
  "api_send_loop store queue domain sender cid signed [] (st, q) ids = (Inr ids, st, q)"
| "api_send_loop store queue domain sender cid signed ((rcpt, newID, now) # rest) (st, q) ids =
     (case s_Write store None domain OutboxMailbox signed st of
        (Inl e, st') \<Rightarrow> (Inl (InternalServerError ''temporary storage failure''), st', q)
      | (Inr ref, st') \<Rightarrow>
          (case q_Enqueue queue None (sent_job domain sender cid rcpt ref newID now) q of
             (Some e, q') \<Rightarrow> (Inl (InternalServerError ''queue unavailable''), st', q')
           | (None, q') \<Rightarrow> api_send_loop store queue domain sender cid signed rest (st', q') (ids @ [newID])))"

definition api_fireQueued where
  "api_fireQueued env domain sender to w h =
     (case ae_enqueuer env of None \<Rightarrow> h
      | Some enqueue \<Rightarrow>
          (case ae_payload env domain (QueuedData sender to) of
             Inl e \<Rightarrow> h
           | Inr payload \<Rightarrow> snd (enqueue w None domain EventMessageQueued payload h)))"

definition api_message :: "send_message_dto \<Rightarrow> vhost \<Rightarrow> attachment list \<Rightarrow> mail_message" where
  "api_message dto v attachments =
     \<lparr>mm_From = smd_From dto, mm_Subject = smd_Subject dto, mm_Text = smd_Text dto, mm_HTML = smd_HTML dto,
      mm_Domain = vh_Domain v, mm_To = smd_To dto, mm_Cc = smd_Cc dto, mm_Bcc = smd_Bcc dto,
      mm_Attachments = attachments, mm_Headers = smd_Headers dto\<rparr>"

text \<open>The checks of \<open>Send\<close> before anything is written: the vhost, the sender's address, its key and the attachments.\<close>

definition send_checks :: "('d, 't, 'u, 'w, 'l, 's, 'q, 'h) api_env \<Rightarrow> api_draws \<Rightarrow> send_message_dto \<Rightarrow> auth_context \<Rightarrow> 'd
    \<Rightarrow> api_output + (vhost \<times> string \<times> string \<times> attachment list)" where
  "send_checks env dr dto ac d =
     (case ae_parse_from env (smd_From dto) of
        Inl e \<Rightarrow> Inl (BadRequest ''from is not a valid email address'')
      | Inr sender \<Rightarrow>
     (case ParseAddress sender of
        None \<Rightarrow> Inl (BadRequest ''from is not a valid email address'')
      | Some (_, domain) \<Rightarrow>
     (case sv_Vhost (ae_dir env) domain d of
        None \<Rightarrow> Inl (NotFound ''vhost not found for from address'')
      | Some v \<Rightarrow>
     if \<not> vh_Active v then Inl (Forbidden ''vhost is not active'')
     else if \<not> ac_IsAdmin ac \<and> ac_AccountID ac \<noteq> vh_AccountID v
       then Inl (Forbidden (''from address'' @ [CHR 0x27] @ ''s vhost does not belong to this account''))
     else (case vh_DKIMKey v of
        None \<Rightarrow> Inl (ServiceUnavailable ''no DKIM key configured for sending vhost'')
      | Some key \<Rightarrow>
     if uniqueRecipients [smd_To dto, smd_Cc dto, smd_Bcc dto] = []
       then Inl (BadRequest ''at least one recipient (to, cc, or bcc) is required'')
     else if smd_Text dto = [] \<and> smd_HTML dto = [] then Inl (BadRequest ''text or html body is required'')
     else (case decode_attachments (smd_Attachments dto) of
        Inl errOut \<Rightarrow> Inl errOut
      | Inr attachments \<Rightarrow>
     (case find (\<lambda>k. IsReservedHeader k) (map fst (map_range (ad_seed dr) (smd_Headers dto))) of
        Some k \<Rightarrow> Inl (BadRequest (''cannot override reserved header '' @ go_quote k))
      | None \<Rightarrow> Inr (v, key, sender, attachments)))))))"

definition MessageController_Send where
  "MessageController_Send env dr dto s =
     guarded (requireAccountAccess env dr (Authorization dto) (ClientIP dto) (smd_AccountID dto) s) (\<lambda>ac s.
       case send_checks env dr dto ac (as_dir s) of
         Inl errOut \<Rightarrow> (errOut, s)
       | Inr (v, key, sender, attachments) \<Rightarrow>
       case api_checkQuota env (ad_now dr 1) v (as_limiter s) of
         (Some errOut, l) \<Rightarrow> (errOut, s\<lparr>as_limiter := l\<rparr>)
       | (None, l) \<Rightarrow>
       case Build (ad_build dr) (api_message dto v attachments) of
         Inl e \<Rightarrow> (InternalServerError ''failed to compose message'', s\<lparr>as_limiter := l\<rparr>)
       | Inr raw \<Rightarrow>
       case ae_sign env (vh_Domain v) (vh_DKIMSelector v) key raw of
         Inl e \<Rightarrow> (InternalServerError ''DKIM signing failed'', s\<lparr>as_limiter := l\<rparr>)
       | Inr signed \<Rightarrow>
       let recipients = uniqueRecipients [smd_To dto, smd_Cc dto, smd_Bcc dto] in
       case api_send_loop (ae_store env) (ae_queue env) (vh_Domain v) sender (ad_uuid dr 0) signed
              (zip recipients (map (ad_job dr) [0..<length recipients])) (as_store s, as_queue s) [] of
         (Inl errOut, st, q) \<Rightarrow> (errOut, s\<lparr>as_limiter := l, as_store := st, as_queue := q\<rparr>)
       | (Inr jobIDs, st, q) \<Rightarrow>
           (Created (Queued (length jobIDs) (vh_ID v) jobIDs),
            recordAudit env dr 1 ac ''message.send'' (vh_ID v) (smd_Subject dto)
              (s\<lparr>as_limiter := l, as_store := st, as_queue := q,
                as_hooks := api_fireQueued env (vh_Domain v) sender recipients (as_webhooks s) (as_hooks s)\<rparr>)))"

subsection \<open>Routes: routes.go\<close>

datatype api_request =
    PostAccounts create_account_dto
  | GetAccounts list_accounts_dto
  | GetAccountById get_account_dto
  | GetAccountAuditLog list_account_audit_entries_dto
  | PostAccountVhosts create_vhost_dto
  | GetVhosts list_vhosts_dto
  | GetVhostById get_vhost_dto
  | PatchVhostDeactivate deactivate_vhost_dto
  | PatchVhostPolicy update_vhost_policy_dto
  | PostMailboxes create_mailbox_dto
  | GetMailboxes list_mailboxes_dto
  | GetMailboxById get_mailbox_dto
  | DeleteMailboxById delete_mailbox_dto
  | PostWebhooks create_webhook_subscription_dto
  | GetWebhooks list_webhook_subscriptions_dto
  | PatchWebhookDisable disable_webhook_subscription_dto
  | GetWebhookAttempts list_webhook_attempts_dto
  | PostWebhookRedrive redrive_webhook_attempt_dto
  | PostTokens create_token_dto
  | GetTokens list_tokens_dto
  | DeleteTokenById revoke_token_dto
  | GetVhostAuditLog list_audit_entries_dto
  | GetVhostExport export_vhost_data_dto
  | DeleteVhostData delete_vhost_data_dto
  | PostMessages send_message_dto

primrec api_handle where
  "api_handle env dr (PostAccounts dto) = AccountController_CreateAccount env dr dto"
| "api_handle env dr (GetAccounts dto) = AccountController_ListAccounts env dr dto"
| "api_handle env dr (GetAccountById dto) = AccountController_GetAccount env dr dto"
| "api_handle env dr (GetAccountAuditLog dto) = AccountController_ListEntries env dr dto"
| "api_handle env dr (PostAccountVhosts dto) = VhostController_CreateVhost env dr dto"
| "api_handle env dr (GetVhosts dto) = VhostController_ListVhosts env dr dto"
| "api_handle env dr (GetVhostById dto) = VhostController_GetVhost env dr dto"
| "api_handle env dr (PatchVhostDeactivate dto) = VhostController_DeactivateVhost env dr dto"
| "api_handle env dr (PatchVhostPolicy dto) = VhostController_UpdateVhostPolicy env dr dto"
| "api_handle env dr (PostMailboxes dto) = VhostController_CreateMailbox env dr dto"
| "api_handle env dr (GetMailboxes dto) = VhostController_ListMailboxes env dr dto"
| "api_handle env dr (GetMailboxById dto) = VhostController_GetMailbox env dr dto"
| "api_handle env dr (DeleteMailboxById dto) = VhostController_DeleteMailbox env dr dto"
| "api_handle env dr (PostWebhooks dto) = WebhookController_CreateSubscription env dr dto"
| "api_handle env dr (GetWebhooks dto) = WebhookController_ListSubscriptions env dr dto"
| "api_handle env dr (PatchWebhookDisable dto) = WebhookController_DisableSubscription env dr dto"
| "api_handle env dr (GetWebhookAttempts dto) = WebhookController_ListAttempts env dr dto"
| "api_handle env dr (PostWebhookRedrive dto) = WebhookController_RedriveAttempt env dr dto"
| "api_handle env dr (PostTokens dto) = TokenController_CreateToken env dr dto"
| "api_handle env dr (GetTokens dto) = TokenController_ListTokens env dr dto"
| "api_handle env dr (DeleteTokenById dto) = TokenController_RevokeToken env dr dto"
| "api_handle env dr (GetVhostAuditLog dto) = AuditController_ListEntries env dr dto"
| "api_handle env dr (GetVhostExport dto) = DataController_Export env dr dto"
| "api_handle env dr (DeleteVhostData dto) = DataController_Delete env dr dto"
| "api_handle env dr (PostMessages dto) = MessageController_Send env dr dto"

end
