(* ===== verification/Api_Access.thy ===== *)
theory Api_Access
  imports Api
begin

section \<open>Who may do what through the API\<close>

text \<open>
  The authorisation every route asks for, as a table (\<open>request_scope\<close>), and the properties that
  hold of every route at once: a request has an effect, or sees anything, only with the admin token
  or a live token of the account the route is about.
\<close>

datatype api_scope = AdminScope | AccountScope string | VhostScope string

primrec request_scope :: "api_request \<Rightarrow> api_scope" where
  "request_scope (PostAccounts dto) = AdminScope"
| "request_scope (GetAccounts dto) = AdminScope"
| "request_scope (GetAccountById dto) = AccountScope (gad_ID dto)"
| "request_scope (GetAccountAuditLog dto) = AccountScope (laed_AccountID dto)"
| "request_scope (PostAccountVhosts dto) = AccountScope (cvd_AccountID dto)"
| "request_scope (GetVhosts dto) = AdminScope"
| "request_scope (GetVhostById dto) = VhostScope (gvd_ID dto)"
| "request_scope (PatchVhostDeactivate dto) = VhostScope (dvd_ID dto)"
| "request_scope (PatchVhostPolicy dto) = VhostScope (upd_ID dto)"
| "request_scope (PostMailboxes dto) = VhostScope (cmd_VhostID dto)"
| "request_scope (GetMailboxes dto) = VhostScope (lmd_VhostID dto)"
| "request_scope (GetMailboxById dto) = VhostScope (gmd_VhostID dto)"
| "request_scope (DeleteMailboxById dto) = VhostScope (dmd_VhostID dto)"
| "request_scope (PostWebhooks dto) = VhostScope (cwd_VhostID dto)"
| "request_scope (GetWebhooks dto) = VhostScope (lwd_VhostID dto)"
| "request_scope (PatchWebhookDisable dto) = VhostScope (dwd_VhostID dto)"
| "request_scope (GetWebhookAttempts dto) = VhostScope (lad_VhostID dto)"
| "request_scope (PostWebhookRedrive dto) = VhostScope (rwd_VhostID dto)"
| "request_scope (PostTokens dto) = AccountScope (ctd_AccountID dto)"
| "request_scope (GetTokens dto) = AccountScope (ltd_AccountID dto)"
| "request_scope (DeleteTokenById dto) = AccountScope (rtd_AccountID dto)"
| "request_scope (GetVhostAuditLog dto) = VhostScope (laud_VhostID dto)"
| "request_scope (GetVhostExport dto) = VhostScope (evd_ID dto)"
| "request_scope (DeleteVhostData dto) = VhostScope (ded_ID dto)"
| "request_scope (PostMessages dto) = AccountScope (smd_AccountID dto)"

primrec request_dto :: "api_request \<Rightarrow> dto" where
  "request_dto (PostAccounts dto) = dto.truncate dto"
| "request_dto (GetAccounts dto) = dto.truncate dto"
| "request_dto (GetAccountById dto) = dto.truncate dto"
| "request_dto (GetAccountAuditLog dto) = dto.truncate dto"
| "request_dto (PostAccountVhosts dto) = dto.truncate dto"
| "request_dto (GetVhosts dto) = dto.truncate dto"
| "request_dto (GetVhostById dto) = dto.truncate dto"
| "request_dto (PatchVhostDeactivate dto) = dto.truncate dto"
| "request_dto (PatchVhostPolicy dto) = dto.truncate dto"
| "request_dto (PostMailboxes dto) = dto.truncate dto"
| "request_dto (GetMailboxes dto) = dto.truncate dto"
| "request_dto (GetMailboxById dto) = dto.truncate dto"
| "request_dto (DeleteMailboxById dto) = dto.truncate dto"
| "request_dto (PostWebhooks dto) = dto.truncate dto"
| "request_dto (GetWebhooks dto) = dto.truncate dto"
| "request_dto (PatchWebhookDisable dto) = dto.truncate dto"
| "request_dto (GetWebhookAttempts dto) = dto.truncate dto"
| "request_dto (PostWebhookRedrive dto) = dto.truncate dto"
| "request_dto (PostTokens dto) = dto.truncate dto"
| "request_dto (GetTokens dto) = dto.truncate dto"
| "request_dto (DeleteTokenById dto) = dto.truncate dto"
| "request_dto (GetVhostAuditLog dto) = dto.truncate dto"
| "request_dto (GetVhostExport dto) = dto.truncate dto"
| "request_dto (DeleteVhostData dto) = dto.truncate dto"
| "request_dto (PostMessages dto) = dto.truncate dto"

text \<open>The guard of a scope.\<close>

fun scope_guard where
  "scope_guard env dr AdminScope dto s = requireAdmin env dr (Authorization dto) (ClientIP dto) s"
| "scope_guard env dr (AccountScope a) dto s = requireAccountAccess env dr (Authorization dto) (ClientIP dto) a s"
| "scope_guard env dr (VhostScope v) dto s = requireVhostAccountAccess env dr (Authorization dto) (ClientIP dto) v s"

named_theorems handler_defs "the definitions of the controller methods"

declare VhostController_CreateVhost_def [handler_defs] VhostController_ListVhosts_def [handler_defs]
  VhostController_GetVhost_def [handler_defs] VhostController_DeactivateVhost_def [handler_defs]
  VhostController_UpdateVhostPolicy_def [handler_defs] VhostController_CreateMailbox_def [handler_defs]
  VhostController_ListMailboxes_def [handler_defs] VhostController_GetMailbox_def [handler_defs]
  VhostController_DeleteMailbox_def [handler_defs] TokenController_CreateToken_def [handler_defs]
  TokenController_ListTokens_def [handler_defs] TokenController_RevokeToken_def [handler_defs]
  AccountController_CreateAccount_def [handler_defs] AccountController_ListAccounts_def [handler_defs]
  AccountController_GetAccount_def [handler_defs] AccountController_ListEntries_def [handler_defs]
  AuditController_ListEntries_def [handler_defs] WebhookController_CreateSubscription_def [handler_defs]
  WebhookController_ListSubscriptions_def [handler_defs] WebhookController_DisableSubscription_def [handler_defs]
  WebhookController_ListAttempts_def [handler_defs] WebhookController_RedriveAttempt_def [handler_defs]
  DataController_Export_def [handler_defs] DataController_Delete_def [handler_defs]
  MessageController_Send_def [handler_defs]

lemma truncate_dto [simp]: "Authorization (dto.truncate d) = Authorization d" "ClientIP (dto.truncate d) = ClientIP d"
  by (simp_all add: dto.defs)

lemma api_handle_guarded:
  "\<exists>k. \<forall>s. api_handle env dr req s = guarded (scope_guard env dr (request_scope req) (request_dto req) s) k"
  by (cases req) (simp_all add: handler_defs, blast+)

text \<open>The responses of a request that was turned away: 401, 403, 429 and 500.\<close>

fun refused :: "api_output \<Rightarrow> bool" where
  "refused (Unauthorized m) = True"
| "refused (Forbidden m) = True"
| "refused (TooManyRequests m) = True"
| "refused (InternalServerError m) = True"
| "refused out = False"

text \<open>The identity a header stands for: the admin token, or a token the store authenticates.\<close>

definition identity where
  "identity env dr header t ac \<longleftrightarrow> (\<exists>raw. bearerToken header = Some raw
     \<and> (if ac_IsAdmin ac then ae_admin env = Some raw
        else \<exists>tok. tk_Authenticate (ae_tokens env) None (ad_seed dr) (HashToken (ae_sha256 env) raw) t = Inr (Some tok)
               \<and> ac_AccountID ac = tok_AccountID tok))"

text \<open>What the scope asks of an identity.\<close>

fun in_scope where
  "in_scope env d AdminScope ac = ac_IsAdmin ac"
| "in_scope env d (AccountScope a) ac = (ac_IsAdmin ac \<or> ac_AccountID ac = a)"
| "in_scope env d (VhostScope v) ac =
     (ac_IsAdmin ac \<or> (\<exists>vh. sv_GetVhost (ae_dir env) v d = Inr vh \<and> vh_AccountID vh = ac_AccountID ac))"

lemma checkAPIRateLimit_refuses:
  "checkAPIRateLimit p now ip l = (Some out, l') \<Longrightarrow> refused out"
  by (auto simp: checkAPIRateLimit_def Let_def split: option.splits if_splits prod.splits sum.splits)

lemma authenticate_identity:
  assumes "authenticate env dr header ip s = (r, s1)"
  shows "(\<exists>l. s1 = s\<lparr>as_limiter := l\<rparr>) \<and> (\<forall>out. r = Inl out \<longrightarrow> refused out)
    \<and> (\<forall>ac. r = Inr ac \<longrightarrow> identity env dr header (as_tokens s) ac)"
proof -
  obtain x l where c: "checkAPIRateLimit (ae_rateLimit env) (ad_now dr 0) ip (as_limiter s) = (x, l)" by fastforce
  show ?thesis
  proof (cases x)
    case (Some out)
    then show ?thesis using assms c checkAPIRateLimit_refuses[of "ae_rateLimit env"] by (auto simp: authenticate_def)
  next
    case None
    then show ?thesis using assms c
      by (auto simp: authenticate_def identity_def ConstantTimeEqual_def split: option.splits if_splits sum.splits)
  qed
qed

lemma scope_guard_identity:
  assumes "scope_guard env dr sc dto s = (r, s1)"
  shows "(\<exists>l. s1 = s\<lparr>as_limiter := l\<rparr>) \<and> (\<forall>out. r = Inl out \<longrightarrow> refused out)
    \<and> (\<forall>ac. r = Inr ac \<longrightarrow> identity env dr (Authorization dto) (as_tokens s) ac \<and> in_scope env (as_dir s) sc ac)"
proof -
  obtain x s2 where a: "authenticate env dr (Authorization dto) (ClientIP dto) s = (x, s2)" by fastforce
  note i = authenticate_identity[OF a]
  show ?thesis
  proof (cases x)
    case (Inl out)
    then show ?thesis using assms a i
      by (cases sc) (auto simp: requireAdmin_def requireAccountAccess_def requireVhostAccountAccess_def)
  next
    case (Inr ac)
    then show ?thesis using assms a i
      by (cases sc) (auto simp: requireAdmin_def requireAccountAccess_def requireVhostAccountAccess_def
          split: if_splits sum.splits)
  qed
qed

lemma api_handle_cases:
  assumes "api_handle env dr req s = (out, s')"
  obtains l where "refused out" "s' = s\<lparr>as_limiter := l\<rparr>"
  | ac :: auth_context where "identity env dr (Authorization (request_dto req)) (as_tokens s) ac"
      "in_scope env (as_dir s) (request_scope req) ac"
proof -
  obtain k where k: "api_handle env dr req s = guarded (scope_guard env dr (request_scope req) (request_dto req) s) k"
    using api_handle_guarded by blast
  obtain r s1 where g: "scope_guard env dr (request_scope req) (request_dto req) s = (r, s1)" by fastforce
  show thesis
  proof (cases r)
    case (Inl x)
    then show thesis using that(1) scope_guard_identity[OF g] assms k g by (auto simp: guarded_def)
  next
    case (Inr ac)
    then have "identity env dr (Authorization (request_dto req)) (as_tokens s) ac \<and> in_scope env (as_dir s) (request_scope req) ac"
      using scope_guard_identity[OF g] by blast
    then show thesis by (intro that(2)[of ac]) auto
  qed
qed

text \<open>
  C20: The API does nothing and shows nothing without permission. With any token store that keeps its
  contract, a request of any of the 25 routes that changes anything but the rate limiter, or is
  answered with anything but 401, 403, 429 or 500, carried a bearer token that is the bootstrap admin
  token or the secret of a token issued and not revoked; and the latter only when the route is about
  that token's account, or about a vhost that account owns. The routes of the platform accept the
  admin token alone.
\<close>

theorem api_requires_permission:
  fixes s :: "('d, 't, 'u, 'w, 'l, 's, 'q, 'h) api_state" and live :: "'t \<Rightarrow> bool"
  assumes "tokens (ae_tokens env) live issued" and "live (as_tokens s)"
    and "api_handle env dr req s = (out, s')" and "\<not> refused out \<or> s' \<noteq> s\<lparr>as_limiter := as_limiter s'\<rparr>"
  shows "\<exists>raw. bearerToken (Authorization (request_dto req)) = Some raw
    \<and> (ae_admin env = Some raw
       \<or> (\<exists>k tok. issued (as_tokens s) k = Some (tok, HashToken (ae_sha256 env) raw)
            \<and> (case request_scope req of
                 AdminScope \<Rightarrow> False
               | AccountScope a \<Rightarrow> tok_AccountID tok = a
               | VhostScope v \<Rightarrow> \<exists>vh. sv_GetVhost (ae_dir env) v (as_dir s) = Inr vh \<and> vh_AccountID vh = tok_AccountID tok)))"
proof (rule api_handle_cases[OF assms(3)])
  fix l
  assume "refused out" "s' = s\<lparr>as_limiter := l\<rparr>"
  then show ?thesis using assms(4) by simp
next
  fix ac :: auth_context
  assume i: "identity env dr (Authorization (request_dto req)) (as_tokens s) ac"
    and sc: "in_scope env (as_dir s) (request_scope req) ac"
  show ?thesis
  proof (cases "ac_IsAdmin ac")
    case True
    then show ?thesis using i by (auto simp: identity_def)
  next
    case False
    then obtain raw tok where t: "bearerToken (Authorization (request_dto req)) = Some raw"
      "tk_Authenticate (ae_tokens env) None (ad_seed dr) (HashToken (ae_sha256 env) raw) (as_tokens s) = Inr (Some tok)"
      "ac_AccountID ac = tok_AccountID tok" using i by (auto simp: identity_def)
    from tokens.auth_some[OF assms(1,2) t(2)] t sc False show ?thesis
      by (cases "request_scope req") auto
  qed
qed

definition demo_api :: "'d service_ops \<Rightarrow> ('d, token_memory, audit_memory, memory_store, unit, maildir, memory_backend, nat) api_env" where
  "demo_api dir = \<lparr>ae_dir = dir, ae_tokens = token_memory_ops, ae_admin = Some ''root'', ae_rateLimit = None,
     ae_audit = audit_memory_ops, ae_webhooks = MemoryStore_ops, ae_redrive = None, ae_store = Maildir_ops,
     ae_queue = MemoryBackend_ops, ae_enqueuer = None, ae_quota = None, ae_sha256 = (\<lambda>b. b),
     ae_pkix = (\<lambda>k. Inr k), ae_sign = (\<lambda>d sel key b. Inr (''sig'' @ b)), ae_payload = (\<lambda>d x. Inr []),
     ae_parse_from = (\<lambda>a. Inr a)\<rparr>"

definition demo_api_state :: "(demo_dir_db, token_memory, audit_memory, memory_store, unit, maildir, memory_backend, nat) api_state" where
  "demo_api_state = \<lparr>as_dir = demo_dir_db,
     as_tokens = [(''t1'', \<lparr>te_Token = \<lparr>tok_ID = ''t1'', tok_AccountID = ''acc'', tok_Label = [], tok_CreatedAt = 0\<rparr>,
        te_Hash = hex_bytes ''key''\<rparr>)],
     as_audit = [], as_webhooks = NewMemoryStore, as_limiter = (), as_store = demo_md, as_queue = NewMemoryBackend, as_hooks = 0\<rparr>"

definition demo_api_draws :: api_draws where
  "demo_api_draws = \<lparr>ad_now = int, ad_uuid = (\<lambda>i. ''u'' @ nat_digits i), ad_seed = 0, ad_rand = Inr ''random'', ad_n = 0,
     ad_job = (\<lambda>i. (''j'' @ nat_digits i, int i)), ad_build = demo_draws\<rparr>"

lemma demo_bearer: "bearerToken ''Bearer key'' = Some ''key''"
  by (simp add: bearerToken_def has_prefix_def trim_prefix_def trim_space_def is_space_def)

theorem api_requires_permission_witness:
  "\<exists>out s'. api_handle (demo_api (Service_api demo_dir_env)) demo_api_draws
       (GetAccountAuditLog \<lparr>Authorization = ''Bearer key'', ClientIP = [], laed_AccountID = ''acc'', laed_Cursor = [], laed_Limit = 0\<rparr>)
       demo_api_state = (out, s') \<and> \<not> refused out
     \<and> (\<exists>k tok. tokmem_issued (as_tokens demo_api_state) k = Some (tok, HashToken (\<lambda>b. b) ''key'') \<and> tok_AccountID tok = ''acc'')"
proof -
  let ?req = "GetAccountAuditLog \<lparr>Authorization = ''Bearer key'', ClientIP = [], laed_AccountID = ''acc'', laed_Cursor = [], laed_Limit = 0\<rparr>"
  let ?env = "demo_api (Service_api demo_dir_env)"
  obtain out s' where h: "api_handle ?env demo_api_draws ?req demo_api_state = (out, s')" by fastforce
  have r: "\<not> refused out" using h
    by (auto simp: AccountController_ListEntries_def requireAccountAccess_def authenticate_def checkAPIRateLimit_def
        demo_bearer demo_api_def demo_api_state_def demo_api_draws_def token_memory_ops_def token_memory_Authenticate_def
        HashToken_def ConstantTimeEqual_def guarded_def audit_response_def audit_memory_ops_def audit_memory_ListPage_def
        audit_memory_List_def Let_def)
  have "tokens (ae_tokens ?env) tokmem_inv tokmem_issued" by (simp add: demo_api_def mtk.tokens_axioms)
  moreover have "tokmem_inv (as_tokens demo_api_state)" by (simp add: tokmem_inv_def demo_api_state_def)
  ultimately have "\<exists>raw. bearerToken ''Bearer key'' = Some raw \<and> (ae_admin ?env = Some raw
      \<or> (\<exists>k tok. tokmem_issued (as_tokens demo_api_state) k = Some (tok, HashToken (ae_sha256 ?env) raw) \<and> tok_AccountID tok = ''acc''))"
    using api_requires_permission[OF _ _ h, of tokmem_inv tokmem_issued] r by simp
  then show ?thesis using h r by (auto simp: demo_bearer demo_api_def)
qed

end
