(* ===== verification/Api_Send.thy ===== *)
theory Api_Send
  imports Api_Access
begin

section \<open>Sending through the API\<close>

text \<open>
  \<open>MessageController.Send\<close> against the submission path: the same staging loop as the SMTP session's
  \<open>Data\<close>, so what a job and its body promise the deliverer carries over.
\<close>

lemma unique_loop_spec:
  "distinct out \<Longrightarrow> (\<forall>a. gomap_bool seen a \<longleftrightarrow> a \<in> set out) \<Longrightarrow>
   distinct (unique_loop xs seen out) \<and> set (unique_loop xs seen out) = set out \<union> (set xs - {[]})
   \<and> (\<exists>ys. unique_loop xs seen out = out @ ys)"
proof (induction xs arbitrary: seen out)
  case (Cons x xs)
  show ?case
  proof (cases "x = [] \<or> x \<in> set out")
    case False
    then have "distinct (out @ [x])" "\<forall>a. gomap_bool (AList.update x True seen) a \<longleftrightarrow> a \<in> set (out @ [x])"
      using Cons.prems by auto
    from Cons.IH[OF this] False Cons.prems(2) show ?thesis by auto
  qed (use Cons in auto)
qed simp

lemma uniqueRecipients_spec:
  "distinct (uniqueRecipients rss) \<and> set (uniqueRecipients rss) = set (concat rss) - {[]}"
  using unique_loop_spec[of "[]" "[]" "concat rss"] by (simp add: uniqueRecipients_def)

text \<open>The session an SMTP client would have had.\<close>

definition as_session :: "string \<Rightarrow> string \<Rightarrow> string \<Rightarrow> string list \<Rightarrow> submission_session" where
  "as_session domain sender cid rcpts =
     \<lparr>ss_authLocal = [], ss_authVhost = domain, ss_from = sender, ss_rcpts = rcpts, ss_correlationID = cid\<rparr>"

lemma sent_job_submitted:
  "sent_job domain sender cid rcpt ref newID now = submitted_job (as_session domain sender cid rs) rcpt ref newID now"
  by (simp add: sent_job_def submitted_job_def as_session_def)

lemma api_send_loop_submit:
  "api_send_loop store queue domain sender cid signed zs (st, q) ids = (r, st', q') \<Longrightarrow>
   \<exists>e. submit_loop store queue (as_session domain sender cid rs) signed zs (st, q) = (e, st', q')
     \<and> (e = None \<longleftrightarrow> r = Inr (ids @ map (fst \<circ> snd) zs)) \<and> (e \<noteq> None \<longrightarrow> (\<exists>m. r = Inl (InternalServerError m)))"
proof (induction zs arbitrary: st q ids)
  case (Cons z zs)
  obtain rcpt i now where z: "z = (rcpt, i, now)" by (metis prod_cases3)
  obtain w s1 where w: "s_Write store None domain OutboxMailbox signed st = (w, s1)" by fastforce
  show ?case
  proof (cases w)
    case (Inl x)
    then show ?thesis using Cons.prems z w by (auto simp: as_session_def)
  next
    case (Inr ref)
    obtain x q1 where eq: "q_Enqueue queue None (sent_job domain sender cid rcpt ref i now) q = (x, q1)" by fastforce
    show ?thesis
    proof (cases x)
      case (Some y)
      then show ?thesis using Cons.prems z w Inr eq by (auto simp: as_session_def sent_job_submitted[of _ _ _ _ _ _ _ rs])
    next
      case None
      have "api_send_loop store queue domain sender cid signed zs (s1, q1) (ids @ [i]) = (r, st', q')"
        using Cons.prems z w Inr eq None by simp
      from Cons.IH[OF this] show ?thesis
        using z w Inr eq None by (auto simp: sent_job_submitted[of _ _ _ _ _ _ _ rs, unfolded as_session_def] as_session_def)
    qed
  qed
qed auto

lemma send_checks_ok:
  assumes "send_checks env dr dto ac d = Inr (v, key, sender, attachments)"
  shows "ae_parse_from env (smd_From dto) = Inr sender \<and> (\<exists>lp domain. ParseAddress sender = Some (lp, domain)
      \<and> sv_Vhost (ae_dir env) domain d = Some v)
    \<and> vh_Active v \<and> (ac_IsAdmin ac \<or> ac_AccountID ac = vh_AccountID v) \<and> vh_DKIMKey v = Some key
    \<and> uniqueRecipients [smd_To dto, smd_Cc dto, smd_Bcc dto] \<noteq> [] \<and> decode_attachments (smd_Attachments dto) = Inr attachments"
  using assms by (auto simp: send_checks_def split: sum.splits option.splits if_splits prod.splits)

lemma decode_attachments_err: "decode_attachments as = Inl out \<Longrightarrow> \<exists>m. out = BadRequest m"
  by (induction as) (auto split: sum.splits)

lemma send_checks_err:
  "send_checks env dr dto ac d = Inl out \<Longrightarrow> out \<noteq> Created x"
  using decode_attachments_err
  by (fastforce simp: send_checks_def split: sum.splits option.splits if_splits prod.splits)

lemma api_checkQuota_err: "api_checkQuota env now v l = (Some out, l') \<Longrightarrow> out \<noteq> Created x"
  by (auto simp: api_checkQuota_def split: option.splits if_splits sum.splits prod.splits)

text \<open>The state a request leaves when it did not get as far as the loop.\<close>

definition unsent where
  "unsent s s' \<longleftrightarrow> as_store s' = as_store s \<and> as_queue s' = as_queue s \<and> as_hooks s' = as_hooks s \<and> as_audit s' = as_audit s"

lemma Send_cases:
  assumes "MessageController_Send env dr dto s = (out, s')"
  obtains "unsent s s'" "\<And>x. out \<noteq> Created x"
  | ac v key sender attachments raw signed r where
      "identity env dr (Authorization dto) (as_tokens s) (ac :: auth_context)"
      "send_checks env dr dto ac (as_dir s) = Inr (v, key, sender, attachments)"
      "Build (ad_build dr) (api_message dto v attachments) = Inr raw"
      "ae_sign env (vh_Domain v) (vh_DKIMSelector v) key raw = Inr signed"
      "api_send_loop (ae_store env) (ae_queue env) (vh_Domain v) sender (ad_uuid dr 0) signed
         (zip (uniqueRecipients [smd_To dto, smd_Cc dto, smd_Bcc dto])
            (map (ad_job dr) [0..<length (uniqueRecipients [smd_To dto, smd_Cc dto, smd_Bcc dto])]))
         (as_store s, as_queue s) [] = (r, as_store s', as_queue s')"
      "case r of Inl errOut \<Rightarrow> out = errOut \<and> as_hooks s' = as_hooks s \<and> as_audit s' = as_audit s
         | Inr ids \<Rightarrow> out = Created (Queued (length ids) (vh_ID v) ids)
             \<and> as_hooks s' = api_fireQueued env (vh_Domain v) sender
                 (uniqueRecipients [smd_To dto, smd_Cc dto, smd_Bcc dto]) (as_webhooks s) (as_hooks s)"
proof -
  let ?rs = "uniqueRecipients [smd_To dto, smd_Cc dto, smd_Bcc dto]"
  obtain g s1 where g: "requireAccountAccess env dr (Authorization dto) (ClientIP dto) (smd_AccountID dto) s = (g, s1)" by fastforce
  have i: "(\<exists>l. s1 = s\<lparr>as_limiter := l\<rparr>) \<and> (\<forall>out. g = Inl out \<longrightarrow> refused out)
    \<and> (\<forall>ac. g = Inr ac \<longrightarrow> identity env dr (Authorization dto) (as_tokens s) ac)"
    using scope_guard_identity[of env dr "AccountScope (smd_AccountID dto)" dto s g s1] g by simp
  then obtain l0 where s1: "s1 = s\<lparr>as_limiter := l0\<rparr>" by blast
  show thesis
  proof (cases g)
    case (Inl x)
    then show thesis using that(1) assms i s1 g by (cases x) (auto simp: MessageController_Send_def guarded_def unsent_def)
  next
    case (Inr ac)
    show thesis
    proof (cases "send_checks env dr dto ac (as_dir s)")
      case (Inl x)
      then show thesis using that(1) assms Inr s1 g send_checks_err[OF Inl]
        by (auto simp: MessageController_Send_def guarded_def unsent_def)
    next
      case c: (Inr y)
      obtain v key sender attachments where y: "y = (v, key, sender, attachments)" by (metis prod_cases4)
      obtain qo l where q: "api_checkQuota env (ad_now dr 1) v l0 = (qo, l)" by fastforce
      show thesis
      proof (cases "qo = None \<and> (\<exists>raw signed. Build (ad_build dr) (api_message dto v attachments) = Inr raw
          \<and> ae_sign env (vh_Domain v) (vh_DKIMSelector v) key raw = Inr signed)")
        case True
        then obtain raw signed where b: "qo = None" "Build (ad_build dr) (api_message dto v attachments) = Inr raw"
          "ae_sign env (vh_Domain v) (vh_DKIMSelector v) key raw = Inr signed" by blast
        obtain r st q' where sl: "api_send_loop (ae_store env) (ae_queue env) (vh_Domain v) sender (ad_uuid dr 0) signed
           (zip ?rs (map (ad_job dr) [0..<length ?rs])) (as_store s, as_queue s) [] = (r, st, q')" by (metis prod_cases3)
        have "as_store s' = st \<and> as_queue s' = q' \<and> (case r of Inl errOut \<Rightarrow> out = errOut \<and> as_hooks s' = as_hooks s \<and> as_audit s' = as_audit s
         | Inr ids \<Rightarrow> out = Created (Queued (length ids) (vh_ID v) ids)
             \<and> as_hooks s' = api_fireQueued env (vh_Domain v) sender ?rs (as_webhooks s) (as_hooks s))"
          using assms g Inr s1 c y q b sl
          by (cases r) (auto simp: MessageController_Send_def guarded_def Let_def recordAudit_def)
        then show thesis using that(2)[OF _ _ b(2,3)] i Inr c y sl by auto
      next
        case False
        then show thesis using that(1) assms g Inr s1 c y q api_checkQuota_err[of env "ad_now dr 1" v l0]
          by (auto simp: MessageController_Send_def guarded_def unsent_def split: sum.splits option.splits)
      qed
    qed
  qed
qed

subsection \<open>Properties\<close>

text \<open>
  C25: What \<open>Send\<close> acknowledges is queued, and only for the sender's own vhost. On a maildir store
  and the in-memory queue, with distinct job IDs, a request answered with 201 came with an identity
  that is the admin or the account that owns the active vhost of the sender's address, and its
  message was composed by \<open>Build\<close> and signed with that vhost's DKIM key. Its recipients are the
  distinct non-empty addresses of \<open>To\<close>, \<open>Cc\<close> and \<open>Bcc\<close>; for each there is one fresh job, due at
  once, from the sender, whose body reads back as the signed message, and the answer names exactly
  these jobs. A request with any other answer fires no event, writes no audit entry, and has queued
  at most a first part of the recipients. No other job or stored message is touched.
\<close>

theorem Send_queues_each_recipient:
  fixes env :: "('d, 't, 'u, 'w, 'l, maildir, memory_backend, 'h) api_env"
  assumes "ae_store env = Maildir_ops" "ae_queue env = MemoryBackend_ops"
    and "MessageController_Send env dr dto s = (out, s')"
    and "rs = uniqueRecipients [smd_To dto, smd_Cc dto, smd_Bcc dto]"
    and "maildir_inv (as_store s)" "length rs \<le> maildir_room (as_store s)" "mq_inv job_ID (as_queue s)"
    and "distinct (map (fst \<circ> ad_job dr) [0..<length rs])"
  shows "distinct rs \<and> set rs = set (smd_To dto) \<union> set (smd_Cc dto) \<union> set (smd_Bcc dto) - {[]}
    \<and> (\<exists>n v sender signed. n \<le> length rs
        \<and> ((\<exists>x. out = Created x) \<longrightarrow> n = length rs \<and> 0 < n
             \<and> out = Created (Queued n (vh_ID v) (map (fst \<circ> ad_job dr) [0..<n]))
             \<and> (\<exists>ac lp domain key attachments raw. identity env dr (Authorization dto) (as_tokens s) (ac :: auth_context)
                  \<and> ae_parse_from env (smd_From dto) = Inr sender \<and> ParseAddress sender = Some (lp, domain)
                  \<and> sv_Vhost (ae_dir env) domain (as_dir s) = Some v \<and> vh_Active v
                  \<and> (ac_IsAdmin ac \<or> ac_AccountID ac = vh_AccountID v) \<and> vh_DKIMKey v = Some key
                  \<and> Build (ad_build dr) (api_message dto v attachments) = Inr raw
                  \<and> ae_sign env (vh_Domain v) (vh_DKIMSelector v) key raw = Inr signed))
        \<and> ((\<nexists>x. out = Created x) \<longrightarrow> as_hooks s' = as_hooks s \<and> as_audit s' = as_audit s)
        \<and> (\<forall>i < n. \<exists>j. mq_pending (as_queue s') (fst (ad_job dr i)) = Some j \<and> job_To j = rs ! i \<and> job_From j = sender
             \<and> job_Vhost j = vh_Domain v \<and> job_Attempts j = 0 \<and> job_NextAttemptAt j = snd (ad_job dr i)
             \<and> Maildir_Read None \<lparr>ref_Vhost = job_Vhost j, ref_Mailbox = OutboxMailbox, ref_Key = job_BodyRef j\<rparr> (as_store s') = Inr signed)
        \<and> (\<forall>k. k \<notin> (fst \<circ> ad_job dr) ` {..<n} \<longrightarrow> mq_pending (as_queue s') k = mq_pending (as_queue s) k)
        \<and> mq_claims (as_queue s') = mq_claims (as_queue s)
        \<and> (\<forall>ref b. maildir_holds (as_store s) ref b \<longrightarrow> Maildir_Read None ref (as_store s') = Inr b))"
    (is "?D \<and> ?S \<and> ?P")
proof (intro conjI)
  note u = uniqueRecipients_spec[of "[smd_To dto, smd_Cc dto, smd_Bcc dto]", folded assms(4)]
  show ?D using u by simp
  show ?S using u by auto
  show ?P using assms(3)
  proof (cases rule: Send_cases)
    case 1
    then show ?thesis using maildir_read unfolding unsent_def by (intro exI[of _ 0] exI) auto
  next
    case (2 ac v key sender attachments raw signed r)
    obtain e where l: "submit_loop Maildir_ops MemoryBackend_ops (as_session (vh_Domain v) sender (ad_uuid dr 0) rs) signed
        (zip rs (map (ad_job dr) [0..<length rs])) (as_store s, as_queue s) = (e, as_store s', as_queue s')"
      and e: "e = None \<longleftrightarrow> r = Inr (map (fst \<circ> snd) (zip rs (map (ad_job dr) [0..<length rs])))"
        "e \<noteq> None \<longrightarrow> (\<exists>m. r = Inl (InternalServerError m))"
      using api_send_loop_submit[OF 2(5)[folded assms(4), unfolded assms(1,2)], of rs] by auto
    have ids: "map (fst \<circ> snd) (zip rs (map (ad_job dr) [0..<length rs])) = map (fst \<circ> ad_job dr) [0..<length rs]"
      by (rule nth_equalityI) simp_all
    obtain n where n: "n \<le> length rs" "e = None \<longleftrightarrow> n = length rs"
      "\<forall>i < n. \<exists>ref. mq_pending (as_queue s') (fst (ad_job dr i)) = Some (submitted_job (as_session (vh_Domain v) sender (ad_uuid dr 0) rs)
              (rs ! i) ref (fst (ad_job dr i)) (snd (ad_job dr i)))
           \<and> maildir_holds (as_store s') (job_ref (submitted_job (as_session (vh_Domain v) sender (ad_uuid dr 0) rs)
              (rs ! i) ref (fst (ad_job dr i)) (snd (ad_job dr i)))) signed"
      "\<forall>k. k \<notin> (fst \<circ> ad_job dr) ` {..<n} \<longrightarrow> mq_pending (as_queue s') k = mq_pending (as_queue s) k"
      "mq_claims (as_queue s') = mq_claims (as_queue s)"
      "\<forall>ref b. maildir_holds (as_store s) ref b \<longrightarrow> maildir_holds (as_store s') ref b"
      using mdq.submit_loop_indexed[OF l assms(5-8)] by blast
    have jobs: "\<exists>j. mq_pending (as_queue s') (fst (ad_job dr i)) = Some j \<and> job_To j = rs ! i \<and> job_From j = sender
        \<and> job_Vhost j = vh_Domain v \<and> job_Attempts j = 0 \<and> job_NextAttemptAt j = snd (ad_job dr i)
        \<and> Maildir_Read None \<lparr>ref_Vhost = job_Vhost j, ref_Mailbox = OutboxMailbox, ref_Key = job_BodyRef j\<rparr> (as_store s') = Inr signed"
      if "i < n" for i
      using n(3) that by (fastforce simp: submitted_job_def job_ref_def as_session_def dest: maildir_read)
    have ok: "n = length rs" "0 < n" "out = Created (Queued n (vh_ID v) (map (fst \<circ> ad_job dr) [0..<n]))" if "\<exists>x. out = Created x"
    proof -
      have "e = None" using 2(6) e(2) that by (cases e) auto
      then show "n = length rs" "0 < n" "out = Created (Queued n (vh_ID v) (map (fst \<circ> ad_job dr) [0..<n]))"
        using e(1) 2(6) n(2) ids send_checks_ok[OF 2(2)] assms(4) by (auto simp: comp_def)
    qed
    have no: "as_hooks s' = as_hooks s \<and> as_audit s' = as_audit s" if "\<nexists>x. out = Created x"
      using 2(6) that by (cases r) auto
    have who: "\<exists>ac lp domain key attachments raw. identity env dr (Authorization dto) (as_tokens s) (ac :: auth_context)
        \<and> ae_parse_from env (smd_From dto) = Inr sender \<and> ParseAddress sender = Some (lp, domain)
        \<and> sv_Vhost (ae_dir env) domain (as_dir s) = Some v \<and> vh_Active v
        \<and> (ac_IsAdmin ac \<or> ac_AccountID ac = vh_AccountID v) \<and> vh_DKIMKey v = Some key
        \<and> Build (ad_build dr) (api_message dto v attachments) = Inr raw
        \<and> ae_sign env (vh_Domain v) (vh_DKIMSelector v) key raw = Inr signed"
      using 2(1,3,4) send_checks_ok[OF 2(2)] by blast
    show ?thesis
      by (intro exI[of _ n] exI[of _ v] exI[of _ sender] exI[of _ signed] conjI,
          rule n(1), intro impI conjI, erule ok(1), erule ok(2), erule ok(3), rule who, use no in blast, use jobs in blast, rule n(4), rule n(5),
          use n(6) maildir_read in blast)
  qed
qed

definition demo_send_env :: "(demo_dir_db, token_memory, audit_memory, memory_store, unit, maildir, memory_backend, nat) api_env" where
  "demo_send_env = demo_api ((Service_api demo_dir_env)\<lparr>sv_Vhost := (\<lambda>domain d.
     if domain = ''d.test'' then Some (demo_vhost\<lparr>vh_Domain := ''d.test'', vh_Active := True, vh_DKIMKey := Some ''pem''\<rparr>) else None)\<rparr>)"

definition demo_send :: send_message_dto where
  "demo_send = \<lparr>Authorization = ''Bearer root'', ClientIP = [], smd_AccountID = ''acc'', smd_From = ''u@d.test'',
     smd_To = [''v@b.test''], smd_Cc = [], smd_Bcc = [''v@b.test''], smd_Subject = ''s'', smd_Text = ''hi'', smd_HTML = [],
     smd_Attachments = [], smd_Headers = []\<rparr>"

theorem Send_queues_each_recipient_witness:
  "\<exists>out s' j signed. MessageController_Send demo_send_env demo_api_draws demo_send demo_api_state = (out, s')
     \<and> (\<exists>i. out = Created (Queued 1 i [''j0'']))
     \<and> mq_pending (as_queue s') ''j0'' = Some j \<and> job_To j = ''v@b.test''
     \<and> Maildir_Read None \<lparr>ref_Vhost = job_Vhost j, ref_Mailbox = OutboxMailbox, ref_Key = job_BodyRef j\<rparr> (as_store s') = Inr signed"
proof -
  let ?env = demo_send_env
  let ?v = "demo_vhost\<lparr>vh_Domain := ''d.test'', vh_Active := True, vh_DKIMKey := Some ''pem''\<rparr>"
  have rs: "uniqueRecipients [smd_To demo_send, smd_Cc demo_send, smd_Bcc demo_send] = [''v@b.test'']"
    by (simp add: uniqueRecipients_def demo_send_def gomap_bool_def)
  have b: "bearerToken ''Bearer root'' = Some ''root''"
    by (simp add: bearerToken_def has_prefix_def trim_prefix_def trim_space_def is_space_def)
  have g: "requireAccountAccess ?env demo_api_draws (Authorization demo_send) (ClientIP demo_send) (smd_AccountID demo_send) demo_api_state
      = (Inr \<lparr>ac_IsAdmin = True, ac_AccountID = []\<rparr>, demo_api_state)"
    by (simp add: requireAccountAccess_def authenticate_def checkAPIRateLimit_def demo_send_env_def demo_api_def demo_send_def b
        ConstantTimeEqual_def)
  have p: "ParseAddress ''u@d.test'' = Some (''u'', ''d.test'')" by (simp add: ParseAddress_Some)
  have c: "send_checks ?env demo_api_draws demo_send \<lparr>ac_IsAdmin = True, ac_AccountID = []\<rparr> (as_dir demo_api_state)
      = Inr (?v, ''pem'', ''u@d.test'', [])"
  proof -
    have "smd_From demo_send = ''u@d.test''" "smd_Text demo_send = ''hi''" "smd_Attachments demo_send = []" "smd_Headers demo_send = []"
      by (simp_all add: demo_send_def)
    then show ?thesis using rs by (simp add: send_checks_def demo_send_env_def demo_api_def p)
  qed
  obtain raw where raw: "Build demo_draws (api_message demo_send ?v []) = Inr raw"
    by (simp add: Build_def buildBodyPart_def api_message_def demo_send_def)
  let ?ref = "\<lparr>ref_Vhost = ''d.test'', ref_Mailbox = OutboxMailbox, ref_Key = fst (uniqueName demo_md)\<rparr>"
  have m: "mailboxDir demo_md ''d.test'' OutboxMailbox = [''var'', ''mail'', ''d.test'', ''Outbox'']"
    by (simp add: mailboxDir_def path_join_def demo_md_def OutboxMailbox_def)
  obtain b' where w: "Maildir_Write None ''d.test'' OutboxMailbox (''sig'' @ raw) demo_md = (Inr ?ref, b')"
    using Write_ok[of demo_md "''d.test''" OutboxMailbox "''sig'' @ raw"] unfolding m by (auto simp: demo_md_def fs_exists_def)
  obtain out s' where h: "MessageController_Send ?env demo_api_draws demo_send demo_api_state = (out, s')" by fastforce
  have q: "api_checkQuota ?env (ad_now demo_api_draws 1) ?v (as_limiter demo_api_state) = (None, as_limiter demo_api_state)"
    "Build (ad_build demo_api_draws) (api_message demo_send ?v []) = Inr raw"
    "ae_sign ?env (vh_Domain ?v) (vh_DKIMSelector ?v) ''pem'' raw = Inr (''sig'' @ raw)"
    using raw by (simp_all add: api_checkQuota_def demo_send_env_def demo_api_def demo_api_draws_def)
  have nd: "nat_digits 0 = ''0''" by (subst nat_digits.simps) code_simp
  obtain q' where l: "api_send_loop (ae_store ?env) (ae_queue ?env) (vh_Domain ?v) ''u@d.test'' (ad_uuid demo_api_draws 0) (''sig'' @ raw)
      (zip [''v@b.test''] (map (ad_job demo_api_draws) [0..<length [''v@b.test'']])) (as_store demo_api_state, as_queue demo_api_state) []
      = (Inr [''j0''], b', q')"
    using w nd by (auto simp: demo_send_env_def demo_api_def demo_api_draws_def demo_api_state_def Maildir_ops_def
        MemoryBackend_ops_def MemoryBackend_Enqueue_def mem_Enqueue_def sent_job_def)
  have ex: "\<exists>x. out = Created x" using h
    unfolding MessageController_Send_def g c guarded_def q l rs prod.case sum.case option.case Let_def by auto
  have hyp: "ae_store ?env = Maildir_ops" "ae_queue ?env = MemoryBackend_ops" "maildir_inv (as_store demo_api_state)"
    "length [''v@b.test''] \<le> maildir_room (as_store demo_api_state)" "mq_inv job_ID (as_queue demo_api_state)"
    "distinct (map (fst \<circ> ad_job demo_api_draws) [0..<length [''v@b.test'']])"
    by (simp_all add: demo_send_env_def demo_api_def demo_api_state_def maildir_inv_def maildir_room_def demo_md_def mb.init_inv)
  from conjunct2[OF conjunct2[OF Send_queues_each_recipient[OF hyp(1,2) h rs[symmetric] hyp(3-6)]]] show ?thesis
  proof (elim exE conjE, goal_cases)
    case (1 n v sender signed)
    note c = mp[OF 1(2) ex]
    have n: "n = 1" using conjunct1[OF c] by simp
    obtain j where "mq_pending (as_queue s') (fst (ad_job demo_api_draws 0)) = Some j" "job_To j = ''v@b.test''"
      "Maildir_Read None \<lparr>ref_Vhost = job_Vhost j, ref_Mailbox = OutboxMailbox, ref_Key = job_BodyRef j\<rparr> (as_store s') = Inr signed"
      using 1(4) n by auto
    moreover have "out = Created (Queued 1 (vh_ID v) [''j0''])"
      using conjunct1[OF conjunct2[OF conjunct2[OF c]]] n nd by (simp add: demo_api_draws_def)
    ultimately show ?case using h nd
      by (intro exI[of _ out] exI[of _ s'] exI[of _ j] exI[of _ signed]) (simp add: demo_api_draws_def)
  qed
qed

end
