(* ===== verification/Webhook_Postgres.thy ===== *)
theory Webhook_Postgres
  imports Webhook Key_Rotation
begin

section \<open>Webhook store on Postgres: internal/webhook/postgres.go\<close>

text \<open>
  \<open>PostgresStore\<close> over the tables \<open>webhook_subscriptions\<close> and \<open>webhook_delivery_attempts\<close>, with the
  signing secrets encrypted. \<open>webhook_subs\<close> is the contract of the subscriptions of a store, kept by
  the in-memory store and by this one. \<open>n\<close> is the position in the random stream an encryption draws
  from.
\<close>

subsection \<open>The contract of the subscriptions\<close>

text \<open>
  A created subscription is on record as it was given, up to its event types: a list with an entry
  that is empty or has a comma comes back from the comma-joined column as another list.
\<close>

locale webhook_subs =
  fixes ops :: "'s webhook_store" and inv :: "'s \<Rightarrow> bool" and subs :: "'s \<Rightarrow> string \<Rightarrow> subscription option"
  assumes create_sub: "inv s \<Longrightarrow> w_CreateSubscription ops ctx sub s = (None, s') \<Longrightarrow>
      inv s' \<and> (\<exists>ets. subs s' = (subs s)(sub_ID sub \<mapsto> sub\<lparr>sub_EventTypes := ets\<rparr>))"
    and create_sub_err: "w_CreateSubscription ops ctx sub s = (Some e, s') \<Longrightarrow> s' = s"
    and disable_sub: "inv s \<Longrightarrow> w_DisableSubscription ops ctx vhost i s = (None, s') \<Longrightarrow> inv s'
      \<and> (\<exists>x. subs s i = Some x \<and> sub_Vhost x = vhost \<and> subs s' = (subs s)(i \<mapsto> x\<lparr>sub_Disabled := True\<rparr>))"
    and disable_sub_err: "inv s \<Longrightarrow> w_DisableSubscription ops ctx vhost i s = (Some e, s') \<Longrightarrow> s' = s"
    and list_subs: "inv s \<Longrightarrow> w_ListSubscriptions ops ctx seed vhost s = Inr xs
      \<Longrightarrow> set xs = {x. subs s (sub_ID x) = Some x \<and> sub_Vhost x = vhost}"
begin

text \<open>A vhost disables its own subscriptions only, and no event goes to a disabled one.\<close>

lemma disable_isolated:
  assumes "inv s" "w_DisableSubscription ops ctx vhost i s = (e, s')" "subs s k = Some x" "sub_Vhost x \<noteq> vhost"
  shows "subs s' k = Some x"
  using disable_sub[OF assms(1), of ctx vhost i s'] disable_sub_err[OF assms(1), of ctx vhost i] assms by (cases e) auto

lemma disabled_silent:
  assumes "inv s" "w_DisableSubscription ops ctx vhost i s = (None, s')"
    "w_ListSubscriptions ops ctx' seed v s' = Inr xs" "x \<in> set xs" "sub_ID x = i"
  shows "sub_Disabled x"
proof -
  obtain y where y: "inv s'" "subs s' = (subs s)(i \<mapsto> y\<lparr>sub_Disabled := True\<rparr>)" using disable_sub[OF assms(1,2)] by blast
  have "subs s' (sub_ID x) = Some x" using list_subs[OF y(1) assms(3)] assms(4) by blast
  then have "x = y\<lparr>sub_Disabled := True\<rparr>" using y(2) assms(5) by simp
  then show ?thesis by simp
qed

end

interpretation mws: webhook_subs MemoryStore_ops ms_inv "\<lambda>m. map_of (ms_subscriptions m)"
proof (unfold_locales, goal_cases)
  case (1 s ctx sub s')
  have "ms_inv (snd (MemoryStore_CreateSubscription ctx sub s))" using 1(1) by (rule ms_inv_Create)
  then show ?case using 1
    by (auto simp: MemoryStore_ops_def MemoryStore_CreateSubscription_def fun_eq_iff split: if_splits
        intro!: exI[of _ "sub_EventTypes sub"])
next
  case (2 ctx sub s e s')
  then show ?case by (auto simp: MemoryStore_ops_def MemoryStore_CreateSubscription_def split: if_splits)
next
  case (3 s ctx vhost i s')
  have "ms_inv (snd (MemoryStore_DisableSubscription ctx vhost i s))" using 3(1) by (rule ms_inv_Disable)
  then show ?case using 3
    by (auto simp: MemoryStore_ops_def MemoryStore_DisableSubscription_def fun_eq_iff split: if_splits option.splits)
next
  case (4 s ctx vhost i e s')
  then show ?case by (auto simp: MemoryStore_ops_def MemoryStore_DisableSubscription_def split: if_splits option.splits)
next
  case (5 s ctx seed vhost xs)
  then have "set xs = {x \<in> snd ` set (ms_subscriptions s). sub_Vhost x = vhost}"
    by (auto simp: MemoryStore_ops_def MemoryStore_ListSubscriptions_def split: option.splits) (metis image_eqI snd_conv)
  moreover have "x \<in> snd ` set (ms_subscriptions s) \<longleftrightarrow> map_of (ms_subscriptions s) (sub_ID x) = Some x" for x
    using ms_inv_lookup[OF 5(1)] by (force dest: map_of_SomeD)
  ultimately show ?case by blast
qed

subsection \<open>Rows\<close>

record subscription_row =
  sr_Id :: string
  sr_Vhost :: string
  sr_URL :: string
  sr_Secret :: string
  sr_EventTypes :: string
  sr_Disabled :: bool

record delivery_attempt_row =
  dar_Id :: string
  dar_Vhost :: string
  dar_SubscriptionID :: string
  dar_EventID :: string
  dar_Attempt :: int
  dar_StatusCode :: int
  dar_Error :: string
  dar_AttemptedAt :: time
  dar_Payload :: bytes
  dar_EventType :: string

record ('s, 'a) webhook_db =
  wdb_subscriptions :: 's
  wdb_attempts :: 'a

record ('s, 'a) webhook_env =
  wp_subscriptions :: "(subscription_row, 's) sql_ops"
  wp_attempts :: "(delivery_attempt_row, 'a) sql_ops"
  wp_enc :: encryptor

definition encryptSecret :: "encryptor \<Rightarrow> nat \<Rightarrow> string \<Rightarrow> gerr + string" where
  "encryptSecret enc n secret =
     (case en_Encrypt enc n secret of Inl e \<Rightarrow> Inl e | Inr ciphertext \<Rightarrow> Inr (EncodeToString ciphertext))"

definition decryptSecret :: "encryptor \<Rightarrow> string \<Rightarrow> gerr + string" where
  "decryptSecret enc stored =
     (case b64_decode stored of
        Inl e \<Rightarrow> Inl (ErrWrap ''decode stored ciphertext'' e)
      | Inr ciphertext \<Rightarrow> (case en_Decrypt enc ciphertext of Inl e \<Rightarrow> Inl e | Inr plaintext \<Rightarrow> Inr plaintext))"

definition subscriptionFromRow :: "encryptor \<Rightarrow> subscription_row \<Rightarrow> gerr + subscription" where
  "subscriptionFromRow enc r =
     (case decryptSecret enc (sr_Secret r) of
        Inl e \<Rightarrow> Inl e
      | Inr secret \<Rightarrow> Inr \<lparr>sub_ID = sr_Id r, sub_Vhost = sr_Vhost r, sub_URL = sr_URL r, sub_Secret = secret,
          sub_EventTypes = decodeEventTypes (sr_EventTypes r), sub_Disabled = sr_Disabled r\<rparr>)"

definition deliveryAttemptFromRow :: "delivery_attempt_row \<Rightarrow> delivery_attempt" where
  "deliveryAttemptFromRow r = \<lparr>da_ID = dar_Id r, da_Vhost = dar_Vhost r, da_SubscriptionID = dar_SubscriptionID r,
     da_EventID = dar_EventID r, da_Attempt = dar_Attempt r, da_StatusCode = dar_StatusCode r, da_Error = dar_Error r,
     da_AttemptedAt = dar_AttemptedAt r, da_Payload = dar_Payload r, da_EventType = dar_EventType r\<rparr>"

subsection \<open>Operations\<close>

definition PostgresStore_CreateSubscription :: "('s, 'a) webhook_env \<Rightarrow> nat \<Rightarrow> gerr option \<Rightarrow> subscription
    \<Rightarrow> ('s, 'a) webhook_db \<Rightarrow> gerr option \<times> ('s, 'a) webhook_db" where
  "PostgresStore_CreateSubscription env n ctx sub t =
     (if sub_ID sub = [] then (Some (ErrNew ''webhook: subscription ID is required''), t)
      else case encryptSecret (wp_enc env) n (sub_Secret sub) of
        Inl e \<Rightarrow> (Some (ErrWrap (''webhook: encrypt secret for subscription '' @ go_quote (sub_ID sub)) e), t)
      | Inr encryptedSecret \<Rightarrow>
          (case t_Create (wp_subscriptions env) ctx
             \<lparr>sr_Id = sub_ID sub, sr_Vhost = sub_Vhost sub, sr_URL = sub_URL sub, sr_Secret = encryptedSecret,
              sr_EventTypes = encodeEventTypes (sub_EventTypes sub), sr_Disabled = sub_Disabled sub\<rparr> (wdb_subscriptions t) of
             (Inl e, x) \<Rightarrow> (Some (ErrWrap (''webhook: create subscription '' @ go_quote (sub_ID sub)) e), t\<lparr>wdb_subscriptions := x\<rparr>)
           | (Inr row, x) \<Rightarrow> (None, t\<lparr>wdb_subscriptions := x\<rparr>)))"

text \<open>The loop both listings run over their rows: the first secret that does not decrypt ends it.\<close>

fun decrypt_rows :: "encryptor \<Rightarrow> subscription_row list \<Rightarrow> gerr + subscription list" where
  "decrypt_rows enc [] = Inr []"
| "decrypt_rows enc (r # rs) =
     (case subscriptionFromRow enc r of
        Inl e \<Rightarrow> Inl (ErrWrap (''webhook: decrypt secret for subscription '' @ go_quote (sr_Id r)) e)
      | Inr sub \<Rightarrow> (case decrypt_rows enc rs of Inl e \<Rightarrow> Inl e | Inr subs \<Rightarrow> Inr (sub # subs)))"

definition PostgresStore_ListSubscriptions :: "('s, 'a) webhook_env \<Rightarrow> gerr option \<Rightarrow> nat \<Rightarrow> string
    \<Rightarrow> ('s, 'a) webhook_db \<Rightarrow> gerr + subscription list" where
  "PostgresStore_ListSubscriptions env ctx seed vhost t =
     (case t_Find (wp_subscriptions env) ctx (\<lambda>r. sr_Vhost r = vhost) [TextAsc sr_Id] None (wdb_subscriptions t) of
        Inl e \<Rightarrow> Inl (ErrWrap (''webhook: list subscriptions for vhost '' @ go_quote vhost) e)
      | Inr rows \<Rightarrow> decrypt_rows (wp_enc env) rows)"

definition PostgresStore_ListSubscriptionsPage :: "('s, 'a) webhook_env \<Rightarrow> gerr option \<Rightarrow> nat \<Rightarrow> string \<Rightarrow> string \<Rightarrow> int
    \<Rightarrow> ('s, 'a) webhook_db \<Rightarrow> gerr + subscription list" where
  "PostgresStore_ListSubscriptionsPage env ctx seed vhost cursor limit t =
     (case t_Find (wp_subscriptions env) ctx (\<lambda>r. sr_Vhost r = vhost \<and> (cursor \<noteq> [] \<longrightarrow> sr_Id r > cursor)) [TextAsc sr_Id]
        (Some (pageLimit limit)) (wdb_subscriptions t) of
        Inl e \<Rightarrow> Inl (ErrWrap (''webhook: list subscriptions for vhost '' @ go_quote vhost) e)
      | Inr rows \<Rightarrow> decrypt_rows (wp_enc env) rows)"

definition subscription_column :: "subscription_row secret_column" where
  "subscription_column = \<lparr>sc_Id = sr_Id, sc_get = sr_Secret, sc_set = (\<lambda>s r. r\<lparr>sr_Secret := s\<rparr>),
     sc_list_text = ''webhook: list subscriptions for rotation'',
     sc_decode_text = (\<lambda>i. ''webhook: decode stored ciphertext for subscription '' @ go_quote i),
     sc_decrypt_text = (\<lambda>i. ''webhook: decrypt secret for subscription '' @ go_quote i @ '' under old key''),
     sc_encrypt_text = (\<lambda>i. ''webhook: re-encrypt secret for subscription '' @ go_quote i @ '' under new key''),
     sc_write_text = (\<lambda>i. ''webhook: write rotated secret for subscription '' @ go_quote i)\<rparr>"

definition RotateSecrets :: "('s, 'a) webhook_env \<Rightarrow> gerr option \<Rightarrow> encryptor \<Rightarrow> encryptor \<Rightarrow> nat
    \<Rightarrow> ('s, 'a) webhook_db \<Rightarrow> (nat \<times> gerr option) \<times> ('s, 'a) webhook_db" where
  "RotateSecrets env ctx oldEnc newEnc n t =
     (case rotate_column subscription_column (wp_subscriptions env) ctx oldEnc newEnc n (wdb_subscriptions t) of
        (r, x) \<Rightarrow> (r, t\<lparr>wdb_subscriptions := x\<rparr>))"

definition PostgresStore_DisableSubscription :: "('s, 'a) webhook_env \<Rightarrow> gerr option \<Rightarrow> string \<Rightarrow> string
    \<Rightarrow> ('s, 'a) webhook_db \<Rightarrow> gerr option \<times> ('s, 'a) webhook_db" where
  "PostgresStore_DisableSubscription env ctx vhost ident t =
     (case t_Updates (wp_subscriptions env) ctx (\<lambda>r. sr_Vhost r = vhost \<and> sr_Id r = ident)
        (\<lambda>r. r\<lparr>sr_Disabled := True\<rparr>) (wdb_subscriptions t) of
        (Inl e, x) \<Rightarrow> (Some (ErrWrap (''webhook: disable subscription '' @ go_quote ident) e), t\<lparr>wdb_subscriptions := x\<rparr>)
      | (Inr n, x) \<Rightarrow> (if n = 0 then Some (ErrWrap (''webhook: subscription '' @ go_quote ident) webhook_ErrNotFound) else None,
                       t\<lparr>wdb_subscriptions := x\<rparr>))"

definition PostgresStore_RecordAttempt :: "('s, 'a) webhook_env \<Rightarrow> gerr option \<Rightarrow> string \<Rightarrow> delivery_attempt
    \<Rightarrow> ('s, 'a) webhook_db \<Rightarrow> gerr option \<times> ('s, 'a) webhook_db" where
  "PostgresStore_RecordAttempt env ctx newID attempt t =
     (if da_SubscriptionID attempt = [] then (Some (ErrNew ''webhook: attempt subscription ID is required''), t)
      else case sql_First (wp_subscriptions env) sr_Id ctx (\<lambda>r. sr_Id r = da_SubscriptionID attempt) [] (wdb_subscriptions t) of
        Inl e \<Rightarrow> (Some (ErrWrap (''webhook: record attempt for subscription '' @ go_quote (da_SubscriptionID attempt)
                    @ '': resolve vhost'') e), t)
      | Inr sub \<Rightarrow>
          (case t_Create (wp_attempts env) ctx
             \<lparr>dar_Id = [], dar_Vhost = sr_Vhost sub, dar_SubscriptionID = da_SubscriptionID attempt, dar_EventID = da_EventID attempt,
              dar_Attempt = da_Attempt attempt, dar_StatusCode = da_StatusCode attempt, dar_Error = da_Error attempt,
              dar_AttemptedAt = da_AttemptedAt attempt, dar_Payload = da_Payload attempt, dar_EventType = da_EventType attempt\<rparr>
             (wdb_attempts t) of
             (Inl e, x) \<Rightarrow> (Some (ErrWrap (''webhook: record attempt for subscription '' @ go_quote (da_SubscriptionID attempt)) e),
                           t\<lparr>wdb_attempts := x\<rparr>)
           | (Inr row, x) \<Rightarrow> (None, t\<lparr>wdb_attempts := x\<rparr>)))"

definition PostgresStore_ListAttempts :: "('s, 'a) webhook_env \<Rightarrow> gerr option \<Rightarrow> string \<Rightarrow> string
    \<Rightarrow> ('s, 'a) webhook_db \<Rightarrow> gerr + delivery_attempt list" where
  "PostgresStore_ListAttempts env ctx vhost subscriptionID t =
     (case t_Find (wp_attempts env) ctx (\<lambda>r. dar_Vhost r = vhost \<and> dar_SubscriptionID r = subscriptionID)
        [IntAsc dar_AttemptedAt, TextAsc dar_Id] None (wdb_attempts t) of
        Inl e \<Rightarrow> Inl (ErrWrap (''webhook: list attempts for subscription '' @ go_quote subscriptionID) e)
      | Inr rows \<Rightarrow> Inr (map deliveryAttemptFromRow rows))"

definition later_than :: "delivery_attempt_row \<Rightarrow> delivery_attempt_row \<Rightarrow> bool" where
  "later_than after r \<longleftrightarrow> dar_AttemptedAt r > dar_AttemptedAt after
     \<or> (dar_AttemptedAt r = dar_AttemptedAt after \<and> dar_Id r > dar_Id after)"

definition attempts_page :: "('s, 'a) webhook_env \<Rightarrow> gerr option \<Rightarrow> string \<Rightarrow> string \<Rightarrow> (delivery_attempt_row \<Rightarrow> bool) \<Rightarrow> int
    \<Rightarrow> ('s, 'a) webhook_db \<Rightarrow> gerr + delivery_attempt list" where
  "attempts_page env ctx vhost subscriptionID P limit t =
     (case t_Find (wp_attempts env) ctx (\<lambda>r. dar_Vhost r = vhost \<and> dar_SubscriptionID r = subscriptionID \<and> P r)
        [IntAsc dar_AttemptedAt, TextAsc dar_Id] (Some (pageLimit limit)) (wdb_attempts t) of
        Inl e \<Rightarrow> Inl (ErrWrap (''webhook: list attempts for subscription '' @ go_quote subscriptionID) e)
      | Inr rows \<Rightarrow> Inr (map deliveryAttemptFromRow rows))"

definition PostgresStore_ListAttemptsPage :: "('s, 'a) webhook_env \<Rightarrow> gerr option \<Rightarrow> string \<Rightarrow> string \<Rightarrow> string \<Rightarrow> int
    \<Rightarrow> ('s, 'a) webhook_db \<Rightarrow> gerr + delivery_attempt list" where
  "PostgresStore_ListAttemptsPage env ctx vhost subscriptionID cursor limit t =
     (if cursor = [] then attempts_page env ctx vhost subscriptionID (\<lambda>_. True) limit t
      else case sql_First (wp_attempts env) dar_Id ctx (\<lambda>r. dar_Id r = cursor) [] (wdb_attempts t) of
        Inl e \<Rightarrow> if errors_is ''record not found'' e then Inr []
                 else Inl (ErrWrap (''webhook: resolve attempts cursor '' @ go_quote cursor) e)
      | Inr after \<Rightarrow> attempts_page env ctx vhost subscriptionID (later_than after) limit t)"

definition PostgresStore_ops :: "('s, 'a) webhook_env \<Rightarrow> nat \<Rightarrow> ('s, 'a) webhook_db webhook_store" where
  "PostgresStore_ops env n = \<lparr>w_CreateSubscription = PostgresStore_CreateSubscription env n,
     w_ListSubscriptions = PostgresStore_ListSubscriptions env,
     w_ListSubscriptionsPage = PostgresStore_ListSubscriptionsPage env,
     w_DisableSubscription = PostgresStore_DisableSubscription env,
     w_RecordAttempt = PostgresStore_RecordAttempt env,
     w_ListAttempts = PostgresStore_ListAttempts env,
     w_ListAttemptsPage = PostgresStore_ListAttemptsPage env\<rparr>"

subsection \<open>The contract\<close>

definition subscription_row_filled :: "subscription_row \<Rightarrow> subscription_row \<Rightarrow> bool" where
  "subscription_row_filled r r' \<longleftrightarrow> sr_Id r' \<noteq> [] \<and> r' = (if sr_Id r = [] then r\<lparr>sr_Id := sr_Id r'\<rparr> else r)"

text \<open>What a row stands for; a secret that does not decrypt reads as empty.\<close>

definition row_sub :: "encryptor \<Rightarrow> subscription_row \<Rightarrow> subscription" where
  "row_sub enc r = \<lparr>sub_ID = sr_Id r, sub_Vhost = sr_Vhost r, sub_URL = sr_URL r,
     sub_Secret = (case decryptSecret enc (sr_Secret r) of Inl e \<Rightarrow> [] | Inr s \<Rightarrow> s),
     sub_EventTypes = decodeEventTypes (sr_EventTypes r), sub_Disabled = sr_Disabled r\<rparr>"

lemma encryptSecret_roundtrip:
  assumes "enc_inverts enc" "encryptSecret enc n s = Inr x"
  shows "decryptSecret enc x = Inr s"
  using assms by (auto simp: encryptSecret_def decryptSecret_def enc_inverts_def split: sum.splits)

lemma decrypt_rows_ok: "decrypt_rows enc rows = Inr xs \<Longrightarrow> xs = map (row_sub enc) rows"
  by (induction rows arbitrary: xs) (auto simp: subscriptionFromRow_def row_sub_def split: sum.splits)

locale webhook_tables =
  st: sql_table "wp_subscriptions env" oks looks sr_Id subscription_row_filled "\<lambda>_ _. False" "\<lambda>r. r"
  for env :: "('s, 'a) webhook_env" and oks looks +
  fixes n :: nat
  assumes secrets: "enc_inverts (wp_enc env)"
begin

definition pg_subs :: "('s, 'a) webhook_db \<Rightarrow> string \<Rightarrow> subscription option" where
  "pg_subs t k = map_option (row_sub (wp_enc env)) (looks (wdb_subscriptions t) k)"

lemma pg_create:
  assumes "oks (wdb_subscriptions t)" "PostgresStore_CreateSubscription env n ctx sub t = (None, t')"
  shows "oks (wdb_subscriptions t') \<and> pg_subs t (sub_ID sub) = None
    \<and> pg_subs t' = (pg_subs t)(sub_ID sub \<mapsto> sub\<lparr>sub_EventTypes := decodeEventTypes (encodeEventTypes (sub_EventTypes sub))\<rparr>)"
proof -
  let ?r = "\<lambda>x. \<lparr>sr_Id = sub_ID sub, sr_Vhost = sub_Vhost sub, sr_URL = sub_URL sub, sr_Secret = x,
              sr_EventTypes = encodeEventTypes (sub_EventTypes sub), sr_Disabled = sub_Disabled sub\<rparr>"
  obtain x row y where c: "sub_ID sub \<noteq> []" "encryptSecret (wp_enc env) n (sub_Secret sub) = Inr x"
    "t_Create (wp_subscriptions env) ctx (?r x) (wdb_subscriptions t) = (Inr row, y)" "t' = t\<lparr>wdb_subscriptions := y\<rparr>"
    using assms(2) by (auto simp: PostgresStore_CreateSubscription_def split: if_splits sum.splits prod.splits)
  note k = st.create_ok[OF assms(1) c(3)]
  have "row = ?r x" using k c(1) by (simp add: subscription_row_filled_def)
  then show ?thesis using k c encryptSecret_roundtrip[OF secrets c(2)]
    by (cases sub) (auto simp: pg_subs_def fun_eq_iff row_sub_def)
qed

lemma pg_disable:
  assumes "oks (wdb_subscriptions t)" "PostgresStore_DisableSubscription env ctx vhost i t = (e, t')"
  shows "oks (wdb_subscriptions t') \<and> (e \<noteq> None \<longrightarrow> t' = t)
    \<and> (e = None \<longrightarrow> (\<exists>x. pg_subs t i = Some x \<and> sub_Vhost x = vhost \<and> pg_subs t' = (pg_subs t)(i \<mapsto> x\<lparr>sub_Disabled := True\<rparr>)))"
proof -
  obtain res y where u: "t_Updates (wp_subscriptions env) ctx (\<lambda>r. sr_Id r = i \<and> sr_Vhost r = vhost)
      (\<lambda>r. r\<lparr>sr_Disabled := True\<rparr>) (wdb_subscriptions t) = (res, y)" by fastforce
  then have t': "t' = t\<lparr>wdb_subscriptions := y\<rparr>" and e: "e = None \<longleftrightarrow> (\<exists>m. res = Inr m \<and> m \<noteq> 0)"
    using assms(2) by (auto simp: PostgresStore_DisableSubscription_def conj_commute split: sum.splits if_splits)
  show ?thesis
  proof (cases res)
    case (Inl x)
    then show ?thesis using st.updates_err[of ctx _ _ "wdb_subscriptions t"] u t' e assms(1) by auto
  next
    case (Inr m)
    from st.updates_at[OF assms(1) u[unfolded Inr]] t' e Inr show ?thesis
      by (cases "m = 0") (auto simp: pg_subs_def fun_eq_iff row_sub_def)
  qed
qed

end

sublocale webhook_tables \<subseteq> pws: webhook_subs "PostgresStore_ops env n" "\<lambda>t. oks (wdb_subscriptions t)" pg_subs
proof (unfold_locales, goal_cases)
  case (1 s ctx sub s')
  then show ?case using pg_create[OF 1(1)] by (auto simp: PostgresStore_ops_def)
next
  case (2 ctx sub s e s')
  then show ?case using st.create_err
    by (auto simp: PostgresStore_ops_def PostgresStore_CreateSubscription_def split: if_splits sum.splits prod.splits)
next
  case (3 s ctx vhost i s')
  then show ?case using pg_disable[OF 3(1)] by (simp add: PostgresStore_ops_def)
next
  case (4 s ctx vhost i e s')
  then show ?case using pg_disable[OF 4(1)] by (simp add: PostgresStore_ops_def)
next
  case (5 s ctx seed vhost xs)
  then obtain rows where f: "t_Find (wp_subscriptions env) ctx (\<lambda>r. sr_Vhost r = vhost) [TextAsc sr_Id] None (wdb_subscriptions s) = Inr rows"
    and xs: "xs = map (row_sub (wp_enc env)) rows"
    by (auto simp: PostgresStore_ops_def PostgresStore_ListSubscriptions_def split: sum.splits dest: decrypt_rows_ok)
  have "set rows = {r. looks (wdb_subscriptions s) (sr_Id r) = Some r \<and> sr_Vhost r = vhost}"
    using st.find_all[OF 5(1) f] by simp
  then have "set xs = row_sub (wp_enc env) ` {r. looks (wdb_subscriptions s) (sr_Id r) = Some r \<and> sr_Vhost r = vhost}"
    by (simp add: xs)
  note set_xs = this
  let ?f = "row_sub (wp_enc env)" and ?t = "wdb_subscriptions s"
  have f: "sub_ID (?f r) = sr_Id r" "sub_Vhost (?f r) = sr_Vhost r" for r by (simp_all add: row_sub_def)
  show ?case unfolding set_xs
  proof (intro equalityI subsetI)
    fix x assume "x \<in> ?f ` {r. looks ?t (sr_Id r) = Some r \<and> sr_Vhost r = vhost}"
    then obtain r where "x = ?f r" "looks ?t (sr_Id r) = Some r" "sr_Vhost r = vhost" by blast
    then show "x \<in> {x. pg_subs s (sub_ID x) = Some x \<and> sub_Vhost x = vhost}" by (simp add: pg_subs_def f)
  next
    fix x assume "x \<in> {x. pg_subs s (sub_ID x) = Some x \<and> sub_Vhost x = vhost}"
    then obtain r where r: "looks ?t (sub_ID x) = Some r" "?f r = x" "sub_Vhost x = vhost"
      unfolding pg_subs_def map_option_eq_Some by blast
    have i: "sr_Id r = sub_ID x" by (rule st.look_id[OF 5(1) r(1)])
    have "sr_Vhost r = vhost" unfolding f(2)[symmetric] r(2) by (rule r(3))
    then show "x \<in> ?f ` {r. looks ?t (sr_Id r) = Some r \<and> sr_Vhost r = vhost}"
      using r(1,2) by (intro image_eqI[of _ _ r]) (simp_all add: i)
  qed
qed

lemma subscription_secret_table:
  assumes "sql_table t ok look sr_Id subscription_row_filled (\<lambda>_ _. False) (\<lambda>r. r)"
  shows "secret_table subscription_column t ok look subscription_row_filled (\<lambda>_ _. False) (\<lambda>r. r)"
  using assms by (simp add: secret_table_def secret_table_axioms_def subscription_column_def)

definition subscription_row_fill :: "subscription_row list_table \<Rightarrow> subscription_row \<Rightarrow> subscription_row" where
  "subscription_row_fill t r = (if sr_Id r = [] then r\<lparr>sr_Id := concat (lt_used t) @ ''s''\<rparr> else r)"

interpretation slt: list_table sr_Id subscription_row_fill subscription_row_filled "\<lambda>_ _. False" "\<lambda>r. r"
  by unfold_locales (auto simp: subscription_row_filled_def subscription_row_fill_def)

definition list_webhook_env :: "encryptor \<Rightarrow> (delivery_attempt_row, 'a) sql_ops \<Rightarrow> (subscription_row list_table, 'a) webhook_env" where
  "list_webhook_env enc attempts = \<lparr>wp_subscriptions = list_table_ops sr_Id subscription_row_fill (\<lambda>_ _. False) (\<lambda>r. r),
     wp_attempts = attempts, wp_enc = enc\<rparr>"

interpretation sdb: webhook_tables "list_webhook_env (AESGCMEncryptor zero_rand (tag_aead k)) attempts"
  "lt_ok sr_Id (\<lambda>_ _. False) (\<lambda>r. r)" "lt_look sr_Id" n for k attempts n
proof (rule webhook_tables.intro)
  show "sql_table (wp_subscriptions (list_webhook_env (AESGCMEncryptor zero_rand (tag_aead k)) attempts))
     (lt_ok sr_Id (\<lambda>_ _. False) (\<lambda>r. r)) (lt_look sr_Id) sr_Id subscription_row_filled (\<lambda>_ _. False) (\<lambda>r. r)"
    by (simp add: list_webhook_env_def slt.sql_table_axioms)
  show "webhook_tables_axioms (list_webhook_env (AESGCMEncryptor zero_rand (tag_aead k)) attempts)"
    by (rule webhook_tables_axioms.intro) (simp add: list_webhook_env_def AESGCM_inverts tag_aead_laws(1,3))
qed

end
