(* ===== verification/Ratelimit_Postgres.thy ===== *)
theory Ratelimit_Postgres
  imports Ratelimit Sql_Table
begin

section \<open>Rate limiter on Postgres: internal/ratelimit/postgres.go\<close>

text \<open>
  \<open>PostgresLimiter\<close> over the table \<open>rate_limit_buckets\<close>: one row per key, read by one statement and
  written by another, \<open>bucket_read\<close> and \<open>bucket_write\<close>, in one transaction, \<open>bucket_tx\<close>. The code asks
  for a lock on the row with \<open>Set("gorm:query_option", "FOR UPDATE")\<close>, an option that gorm v2 does
  not turn into SQL, so the read takes no lock and two transactions may both read before either
  writes. A run of calls (\<open>limiter_run\<close>) is one in which they do not overlap; what overlapping ones
  do is stated on the statements. \<open>rnd\<close> is the rounding of \<open>float64\<close>, as in the token bucket.
\<close>

record bucket_row =
  br_Id :: string
  br_Key :: string
  br_Tokens :: real
  br_LastRefill :: time

definition postgresUniqueViolation :: string where "postgresUniqueViolation = ''23505''"

definition gormNotFound :: "gerr \<Rightarrow> bool" where
  "gormNotFound e = errors_is ''record not found'' e"

definition isUniqueViolation :: "gerr \<Rightarrow> bool" where
  "isUniqueViolation e = (as_pg_code e = Some postgresUniqueViolation)"

text \<open>The refill and the decision on an existing row.\<close>

definition bucket_take :: "(real \<Rightarrow> real) \<Rightarrow> real \<Rightarrow> real \<Rightarrow> time \<Rightarrow> bucket_row \<Rightarrow> bool \<times> bucket_row" where
  "bucket_take rnd capacity refillPerSecond now row =
     (let elapsed = Duration_Seconds rnd (now - br_LastRefill row);
          tokens = (if elapsed > 0
                    then (let x = rnd (br_Tokens row + rnd (elapsed * refillPerSecond)) in if x > capacity then capacity else x)
                    else br_Tokens row)
      in if tokens < 1 then (False, row\<lparr>br_Tokens := tokens, br_LastRefill := now\<rparr>)
         else (True, row\<lparr>br_Tokens := rnd (tokens - 1), br_LastRefill := now\<rparr>))"

text \<open>
  The body of the transaction: the read, and what follows on its result at the clock taken then.
\<close>

definition bucket_read :: "(bucket_row, 't) sql_ops \<Rightarrow> gerr option \<Rightarrow> string \<Rightarrow> 't \<Rightarrow> gerr + bucket_row" where
  "bucket_read db ctx key t = sql_First db br_Id ctx (\<lambda>r. br_Key r = key) [] t"

definition bucket_write :: "(real \<Rightarrow> real) \<Rightarrow> (bucket_row, 't) sql_ops \<Rightarrow> gerr option \<Rightarrow> time \<Rightarrow> string \<Rightarrow> real \<Rightarrow> real
    \<Rightarrow> gerr + bucket_row \<Rightarrow> 't \<Rightarrow> (gerr + bool) \<times> 't" where
  "bucket_write rnd db ctx now key capacity refillPerSecond found t =
     (case found of
        Inr row \<Rightarrow>
          (case bucket_take rnd capacity refillPerSecond now row of (allowed, row') \<Rightarrow>
             (case t_Updates db ctx (\<lambda>r. br_Id r = br_Id row)
                 (\<lambda>r. r\<lparr>br_Tokens := br_Tokens row', br_LastRefill := br_LastRefill row'\<rparr>) t of
                (Inl e, t') \<Rightarrow> (Inl e, t')
              | (Inr n, t') \<Rightarrow> (Inr allowed, t')))
      | Inl findErr \<Rightarrow>
          if gormNotFound findErr
          then (case t_Create db ctx \<lparr>br_Id = [], br_Key = key, br_Tokens = rnd (capacity - 1), br_LastRefill = now\<rparr> t of
                  (Inl createErr, t') \<Rightarrow> (Inl createErr, t')
                | (Inr newRow, t') \<Rightarrow> (Inr True, t'))
          else (Inl findErr, t))"

definition bucket_tx :: "(real \<Rightarrow> real) \<Rightarrow> (bucket_row, 't) sql_ops \<Rightarrow> gerr option \<Rightarrow> time \<Rightarrow> string \<Rightarrow> real \<Rightarrow> real \<Rightarrow> 't
    \<Rightarrow> (gerr + bool) \<times> 't" where
  "bucket_tx rnd db ctx now key capacity refillPerSecond t =
     bucket_write rnd db ctx now key capacity refillPerSecond (bucket_read db ctx key t) t"

text \<open>\<open>(allowed, retry, err)\<close>. After an error \<open>allowed\<close> is not read.\<close>

definition tryAllow :: "(real \<Rightarrow> real) \<Rightarrow> (bucket_row, 't) sql_ops \<Rightarrow> gerr option \<Rightarrow> time \<Rightarrow> string \<Rightarrow> real \<Rightarrow> real \<Rightarrow> 't
    \<Rightarrow> (bool \<times> bool \<times> gerr option) \<times> 't" where
  "tryAllow rnd db ctx now key capacity refillPerSecond t =
     (case transaction (t_Begin db ctx) (t_Commit db ctx) (bucket_tx rnd db ctx now key capacity refillPerSecond) t of
        (Inl e, t') \<Rightarrow> ((False, isUniqueViolation e, Some e), t')
      | (Inr allowed, t') \<Rightarrow> ((allowed, False, None), t'))"

text \<open>The loop of \<open>Allow\<close>, with the attempts left; \<open>now k\<close> is the clock of the attempt with \<open>k\<close> left.\<close>

fun allow_loop :: "(real \<Rightarrow> real) \<Rightarrow> (bucket_row, 't) sql_ops \<Rightarrow> gerr option \<Rightarrow> (nat \<Rightarrow> time) \<Rightarrow> string \<Rightarrow> real \<Rightarrow> real
    \<Rightarrow> nat \<Rightarrow> gerr option \<Rightarrow> 't \<Rightarrow> (gerr + bool) \<times> 't" where
  "allow_loop rnd db ctx now key capacity rate 0 lastErr t =
     (Inl (case lastErr of
             Some e \<Rightarrow> ErrWrap (''ratelimit: too many conflicting inserts for key '' @ go_quote key) e
           | None \<Rightarrow> ErrNew (''ratelimit: too many conflicting inserts for key '' @ go_quote key)), t)"
| "allow_loop rnd db ctx now key capacity rate (Suc k) lastErr t =
     (case tryAllow rnd db ctx (now (Suc k)) key capacity rate t of
        ((allowed, retry, err), t') \<Rightarrow>
          if \<not> retry then ((case err of Some e \<Rightarrow> Inl e | None \<Rightarrow> Inr allowed), t')
          else allow_loop rnd db ctx now key capacity rate k err t')"

definition PostgresLimiter_Allow :: "(real \<Rightarrow> real) \<Rightarrow> (bucket_row, 't) sql_ops \<Rightarrow> gerr option \<Rightarrow> (nat \<Rightarrow> time) \<Rightarrow> string
    \<Rightarrow> real \<Rightarrow> real \<Rightarrow> 't \<Rightarrow> (gerr + bool) \<times> 't" where
  "PostgresLimiter_Allow rnd db ctx now key capacity refillPerSecond t =
     allow_loop rnd db ctx now key capacity refillPerSecond 3 None t"

definition PostgresLimiter_ops :: "(real \<Rightarrow> real) \<Rightarrow> (bucket_row, 't) sql_ops \<Rightarrow> 't limiter_ops" where
  "PostgresLimiter_ops rnd db = \<lparr>l_Allow = (\<lambda>now. PostgresLimiter_Allow rnd db None (\<lambda>_. now))\<rparr>"

subsection \<open>The table\<close>

definition bucket_row_filled :: "bucket_row \<Rightarrow> bucket_row \<Rightarrow> bool" where
  "bucket_row_filled r r' \<longleftrightarrow> br_Id r' \<noteq> [] \<and> (br_Id r \<noteq> [] \<longrightarrow> br_Id r' = br_Id r) \<and> (\<exists>i. r' = r\<lparr>br_Id := i\<rparr>)"

definition bucket_row_norm :: "bucket_row \<Rightarrow> bucket_row" where
  "bucket_row_norm r = r\<lparr>br_LastRefill := br_LastRefill r div 1000 * 1000\<rparr>"

locale bucket_table = sql_table db ok look br_Id bucket_row_filled "\<lambda>r r'. br_Key r = br_Key r'" bucket_row_norm
  for db :: "(bucket_row, 't) sql_ops" and ok look
begin

text \<open>The bucket of a key: its tokens and the time of its last refill.\<close>

definition bucket :: "'t \<Rightarrow> string \<Rightarrow> (real \<times> time) option" where
  "bucket t key = (if \<exists>i r. look t i = Some r \<and> br_Key r = key
     then Some (let r = (THE r. \<exists>i. look t i = Some r \<and> br_Key r = key) in (br_Tokens r, br_LastRefill r)) else None)"

lemma key_unique:
  assumes "ok t" "look t i = Some r" "br_Key r = key" "look t j = Some r'" "br_Key r' = key"
  shows "r' = r"
proof -
  have "j = i" using look_unique[OF assms(1,4,2)] assms(3,5) by auto
  then show ?thesis using assms(2,4) by simp
qed

lemma bucket_row: "ok t \<Longrightarrow> look t i = Some r \<Longrightarrow> bucket t (br_Key r) = Some (br_Tokens r, br_LastRefill r)"
  unfolding bucket_def by (subst the_equality[of _ r]) (use key_unique in \<open>auto simp: Let_def\<close>)

lemma bucket_none: "bucket t key = None \<longleftrightarrow> (\<forall>i r. look t i = Some r \<longrightarrow> br_Key r \<noteq> key)"
  by (auto simp: bucket_def)

lemma bucket_some: "ok t \<Longrightarrow> bucket t key = Some x \<Longrightarrow> \<exists>i r. look t i = Some r \<and> br_Key r = key \<and> x = (br_Tokens r, br_LastRefill r)"
  using bucket_row by (fastforce simp: bucket_def split: if_splits)

lemma bucket_write:
  assumes "ok t" "ok t'" "look t' = (look t)(i \<mapsto> r)" "\<And>r'. look t i = Some r' \<Longrightarrow> br_Key r' = br_Key r"
  shows "bucket t' = (bucket t)(br_Key r \<mapsto> (br_Tokens r, br_LastRefill r))"
proof (rule ext)
  fix key
  show "bucket t' key = ((bucket t)(br_Key r \<mapsto> (br_Tokens r, br_LastRefill r))) key"
  proof (cases "key = br_Key r")
    case True
    then show ?thesis using bucket_row[OF assms(2), of i r] assms(3) by simp
  next
    case False
    show ?thesis
    proof (cases "bucket t key")
      case None
      then have "bucket t' key = None" unfolding bucket_none assms(3) using False by auto
      then show ?thesis using None False by simp
    next
      case (Some x)
      then obtain j r' where j: "look t j = Some r'" "br_Key r' = key" "x = (br_Tokens r', br_LastRefill r')"
        using bucket_some[OF assms(1)] by blast
      then have "look t' j = Some r'" using assms(3,4) False by (cases "j = i") auto
      from bucket_row[OF assms(2) this] show ?thesis using j Some False by simp
    qed
  qed
qed

lemma bucket_tx_spec:
  assumes "ok t" "bucket_tx rnd db ctx now key capacity rate t = (Inr a, t')"
  shows "ok t' \<and> (case bucket t key of
      None \<Rightarrow> a \<and> bucket t' = (bucket t)(key \<mapsto> (rnd (capacity - 1), now div 1000 * 1000))
    | Some (tok, l) \<Rightarrow> (\<exists>row. br_Tokens row = tok \<and> br_LastRefill row = l \<and> a = fst (bucket_take rnd capacity rate now row)
        \<and> bucket t' = (bucket t)(key \<mapsto> (br_Tokens (snd (bucket_take rnd capacity rate now row)), now div 1000 * 1000))))"
proof (cases "sql_First db br_Id ctx (\<lambda>r. br_Key r = key) [] t")
  case (Inl e)
  let ?n = "\<lparr>br_Id = [], br_Key = key, br_Tokens = rnd (capacity - 1), br_LastRefill = now\<rparr>"
  obtain row where c: "gormNotFound e" "t_Create db ctx ?n t = (Inr row, t')" "a"
    using assms(2) Inl by (auto simp: bucket_tx_def bucket_read_def bucket_write_def split: if_splits prod.splits sum.splits)
  note k = create_ok[OF assms(1) c(2)]
  obtain i where row: "row = ?n\<lparr>br_Id := i\<rparr>" using k by (auto simp: bucket_row_filled_def)
  have "bucket t key = None" using First_none[OF assms(1) Inl] c(1) by (auto simp: bucket_none gormNotFound_def)
  moreover have "bucket t' = (bucket t)(br_Key (bucket_row_norm row) \<mapsto> (br_Tokens (bucket_row_norm row), br_LastRefill (bucket_row_norm row)))"
    using k by (intro bucket_write[OF assms(1)]) auto
  ultimately show ?thesis using c k row by (simp add: bucket_row_norm_def)
next
  case (Inr row)
  obtain a' row' where b: "bucket_take rnd capacity rate now row = (a', row')" by fastforce
  obtain n where u: "t_Updates db ctx (\<lambda>r. br_Id r = br_Id row \<and> True)
      (\<lambda>r. r\<lparr>br_Tokens := br_Tokens row', br_LastRefill := br_LastRefill row'\<rparr>) t = (Inr n, t')" "a = a'"
    using assms(2) Inr b by (auto simp: bucket_tx_def bucket_read_def bucket_write_def split: prod.splits sum.splits)
  have f: "look t (br_Id row) = Some row" "br_Key row = key" using First_ok[OF assms(1) Inr] by auto
  let ?r = "bucket_row_norm (row\<lparr>br_Tokens := br_Tokens row', br_LastRefill := br_LastRefill row'\<rparr>)"
  have w: "ok t'" "look t' = (look t)(br_Id row \<mapsto> ?r)" using updates_at[OF assms(1) u(1)] f by auto
  have "bucket t' = (bucket t)(br_Key ?r \<mapsto> (br_Tokens ?r, br_LastRefill ?r))"
    using w f by (intro bucket_write[OF assms(1)]) (auto simp: bucket_row_norm_def)
  moreover have "br_LastRefill row' = now" using b by (auto simp: bucket_take_def Let_def split: if_splits)
  moreover have "bucket t key = Some (br_Tokens row, br_LastRefill row)" using bucket_row[OF assms(1) f(1)] f(2) by simp
  ultimately show ?thesis using w(1) b u(2) f(2) by (auto simp: bucket_row_norm_def)
qed

text \<open>A call that answers is one transaction that committed, at the clock of one of its attempts.\<close>

lemma allow_loop_ok:
  "ok t \<Longrightarrow> allow_loop rnd db ctx now key capacity rate k e t = (Inr a, t')
   \<Longrightarrow> \<exists>i. bucket_tx rnd db ctx (now i) key capacity rate t = (Inr a, t')"
proof (induction k arbitrary: e)
  case (Suc k)
  show ?case
  proof (cases "transaction (t_Begin db ctx) (t_Commit db ctx) (bucket_tx rnd db ctx (now (Suc k)) key capacity rate) t")
    case (Pair r t1)
    show ?thesis
    proof (cases r)
      case (Inl x)
      then show ?thesis using Suc Pair transaction_error[OF Pair[unfolded Inl]] by (auto simp: tryAllow_def split: if_splits)
    next
      case (Inr b)
      then show ?thesis using Suc Pair transaction_ok[OF Pair[unfolded Inr]] by (auto simp: tryAllow_def)
    qed
  qed
qed simp

text \<open>An error leaves every bucket as it was.\<close>

lemma allow_loop_err:
  "ok t \<Longrightarrow> allow_loop rnd db ctx now key capacity rate k e t = (Inl x, t') \<Longrightarrow> t' = t"
proof (induction k arbitrary: e)
  case (Suc k)
  show ?case
  proof (cases "transaction (t_Begin db ctx) (t_Commit db ctx) (bucket_tx rnd db ctx (now (Suc k)) key capacity rate) t")
    case (Pair r t1)
    then show ?thesis using Suc transaction_error[of "t_Begin db ctx" "t_Commit db ctx" _ t]
      by (cases r) (auto simp: tryAllow_def split: if_splits)
  qed
qed simp

end

subsection \<open>A run of calls\<close>

fun limiter_run :: "'l limiter_ops \<Rightarrow> (time \<times> string \<times> real \<times> real) list \<Rightarrow> 'l \<Rightarrow> (gerr + bool) list \<times> 'l" where
  "limiter_run ops [] l = ([], l)"
| "limiter_run ops ((now, key, capacity, rate) # cs) l =
     (case l_Allow ops now key capacity rate l of (a, l') \<Rightarrow>
        case limiter_run ops cs l' of (as, l'') \<Rightarrow> (a # as, l''))"

text \<open>The calls for one key that were answered: their times, and the answers.\<close>

fun answered :: "string \<Rightarrow> (time \<times> string \<times> real \<times> real) list \<Rightarrow> (gerr + bool) list \<Rightarrow> (time \<times> bool) list" where
  "answered key ((now, k, _, _) # cs) (a # as) =
     (case a of Inr b \<Rightarrow> (if k = key then (now, b) # answered key cs as else answered key cs as)
      | Inl e \<Rightarrow> answered key cs as)"
| "answered key _ _ = []"

text \<open>
  What an answered call makes of the bucket of its key, and the answers to a list of calls for one
  key with one capacity and one rate.
\<close>

definition key_take :: "(real \<Rightarrow> real) \<Rightarrow> real \<Rightarrow> real \<Rightarrow> time \<Rightarrow> (real \<times> time) option \<Rightarrow> bool \<times> (real \<times> time)" where
  "key_take rnd capacity rate now st =
     (case st of
        None \<Rightarrow> (True, rnd (capacity - 1), now div 1000 * 1000)
      | Some (tok, l) \<Rightarrow>
          (case bucket_take rnd capacity rate now \<lparr>br_Id = [], br_Key = [], br_Tokens = tok, br_LastRefill = l\<rparr> of
             (a, row) \<Rightarrow> (a, br_Tokens row, now div 1000 * 1000)))"

fun key_run :: "(real \<Rightarrow> real) \<Rightarrow> real \<Rightarrow> real \<Rightarrow> time list \<Rightarrow> (real \<times> time) option \<Rightarrow> bool list" where
  "key_run rnd capacity rate [] st = []"
| "key_run rnd capacity rate (now # ts) st =
     (case key_take rnd capacity rate now st of (a, st') \<Rightarrow> a # key_run rnd capacity rate ts (Some st'))"

context bucket_table
begin

lemma Allow_key:
  assumes "ok t" "l_Allow (PostgresLimiter_ops rnd db) now k c r t = (x, t')"
  shows "ok t' \<and> (case x of Inl e \<Rightarrow> t' = t
    | Inr a \<Rightarrow> bucket_tx rnd db None now k c r t = (Inr a, t'))"
proof (cases x)
  case (Inl e)
  then have "t' = t" using assms(2) by (intro allow_loop_err[OF assms(1)]) (simp add: PostgresLimiter_ops_def PostgresLimiter_Allow_def)
  then show ?thesis using Inl assms(1) by simp
next
  case (Inr a)
  then have "bucket_tx rnd db None now k c r t = (Inr a, t')"
    using assms allow_loop_ok by (fastforce simp: PostgresLimiter_ops_def PostgresLimiter_Allow_def)
  with bucket_tx_spec[OF assms(1) this] Inr show ?thesis by simp
qed

lemma bucket_tx_key:
  assumes "ok t" "bucket_tx rnd db ctx now key c r t = (Inr a, t')"
  shows "key_take rnd c r now (bucket t key) = (a, the (bucket t' key)) \<and> bucket t' key \<noteq> None
    \<and> (\<forall>k. k \<noteq> key \<longrightarrow> bucket t' k = bucket t k)"
proof (cases "bucket t key")
  case None
  then show ?thesis using bucket_tx_spec[OF assms] by (auto simp: key_take_def)
next
  case (Some x)
  obtain tok l where x: "x = (tok, l)" by fastforce
  obtain row where row: "br_Tokens row = tok" "br_LastRefill row = l" "a = fst (bucket_take rnd c r now row)"
    "bucket t' = (bucket t)(key \<mapsto> (br_Tokens (snd (bucket_take rnd c r now row)), now div 1000 * 1000))"
    using bucket_tx_spec[OF assms] Some x by auto
  let ?row = "\<lparr>br_Id = [], br_Key = [], br_Tokens = tok, br_LastRefill = l\<rparr>"
  have "fst (bucket_take rnd c r now row) = fst (bucket_take rnd c r now ?row)"
    "br_Tokens (snd (bucket_take rnd c r now row)) = br_Tokens (snd (bucket_take rnd c r now ?row))"
    using row(1,2) by (simp_all add: bucket_take_def Let_def)
  then show ?thesis using row(3,4) Some x by (simp add: key_take_def split: prod.split)
qed

text \<open>The answers given for a key depend on nothing but its own answered calls.\<close>

lemma run_answers:
  "ok t \<Longrightarrow> limiter_run (PostgresLimiter_ops rnd db) cs t = (as, t')
    \<Longrightarrow> \<forall>(now, k, c, r) \<in> set cs. k = key \<longrightarrow> c = capacity \<and> r = rate
    \<Longrightarrow> map snd (answered key cs as) = key_run rnd capacity rate (map fst (answered key cs as)) (bucket t key)"
proof (induction cs arbitrary: t as)
  case (Cons call cs)
  obtain now k c r where call: "call = (now, k, c, r)" by (metis prod_cases4)
  obtain x t1 where x: "l_Allow (PostgresLimiter_ops rnd db) now k c r t = (x, t1)" by fastforce
  obtain as1 where as: "limiter_run (PostgresLimiter_ops rnd db) cs t1 = (as1, t')" "as = x # as1"
    using Cons.prems(2) call x by (auto split: prod.splits)
  note a = Allow_key[OF Cons.prems(1) x]
  have rest: "\<forall>(now, k, c, r) \<in> set cs. k = key \<longrightarrow> c = capacity \<and> r = rate" "k = key \<longrightarrow> c = capacity \<and> r = rate"
    using Cons.prems(3) call by auto
  have ih: "map snd (answered key cs as1) = key_run rnd capacity rate (map fst (answered key cs as1)) (bucket t1 key)"
    using Cons.IH[OF _ as(1) rest(1)] a by blast
  show ?case
  proof (cases x)
    case (Inl e)
    then show ?thesis using a ih as(2) call by simp
  next
    case (Inr ans)
    then have "bucket_tx rnd db None now k c r t = (Inr ans, t1)" using a by simp
    note sp = bucket_tx_key[OF Cons.prems(1) this]
    show ?thesis
    proof (cases "k = key")
      case False
      then show ?thesis using sp ih as(2) Inr call by simp
    next
      case True
      then show ?thesis using sp ih as(2) Inr call rest(2) by auto
    qed
  qed
qed simp

end

definition bucket_row_fill :: "bucket_row list_table \<Rightarrow> bucket_row \<Rightarrow> bucket_row" where
  "bucket_row_fill t r = (if br_Id r = [] then r\<lparr>br_Id := concat (lt_used t) @ ''b''\<rparr> else r)"

interpretation blt: list_table br_Id bucket_row_fill bucket_row_filled "\<lambda>r r'. br_Key r = br_Key r'" bucket_row_norm
proof (unfold_locales, goal_cases)
  case (3 r t) show ?case by (cases r) (auto simp: bucket_row_filled_def bucket_row_fill_def)
qed (auto simp: bucket_row_filled_def bucket_row_norm_def)

definition list_buckets :: "(bucket_row, bucket_row list_table) sql_ops" where
  "list_buckets = list_table_ops br_Id bucket_row_fill (\<lambda>r r'. br_Key r = br_Key r') bucket_row_norm"

interpretation bdb: bucket_table list_buckets "lt_ok br_Id (\<lambda>r r'. br_Key r = br_Key r') bucket_row_norm" "lt_look br_Id"
  unfolding list_buckets_def by unfold_locales

subsection \<open>The bucket of a key in float64\<close>

definition key_inv :: "real \<Rightarrow> real \<Rightarrow> bool" where
  "key_inv capacity tok \<longleftrightarrow> 0 \<le> tok \<and> tok \<le> capacity \<and> is_float64 tok"

definition limits_ok :: "real \<Rightarrow> real \<Rightarrow> bool" where
  "limits_ok capacity rate \<longleftrightarrow> is_float64 capacity \<and> 1 \<le> capacity \<and> capacity \<le> 2 ^ 53 \<and> 0 \<le> rate"

lemma key_inv_minus_1:
  "limits_ok c rate \<Longrightarrow> key_inv c x \<Longrightarrow> 1 \<le> x \<Longrightarrow> float64 (x - 1) = x - 1 \<and> key_inv c (x - 1)"
  using float64_minus_1[of x] is_float64_minus_1[of x] by (simp add: key_inv_def limits_ok_def)

text \<open>The tokens after the refill of a row, before one is taken.\<close>

lemma bucket_take_float64:
  assumes "limits_ok c rate" "key_inv c (br_Tokens row)" "bucket_take float64 c rate now row = (a, row')"
  shows "key_inv c (br_Tokens row')" "br_Tokens row' + (if a then 1 else 0) \<le> c"
    "br_LastRefill row \<le> now \<Longrightarrow> br_Tokens row' + (if a then 1 else 0) \<le> br_Tokens row
       + (1 + 1 / 2 ^ 51) * (rate * seconds (now - br_LastRefill row)) + c / 2 ^ 52"
proof -
  let ?d = "now - br_LastRefill row"
  let ?D = "Duration_Seconds float64 ?d"
  let ?x = "float64 (br_Tokens row + float64 (?D * rate))"
  let ?y = "if 0 < ?D then min c ?x else br_Tokens row"
  have lim: "is_float64 c" "1 \<le> c" "0 \<le> rate" using assms(1) by (simp_all add: limits_ok_def)
  have tok: "0 \<le> br_Tokens row" using assms(2) by (simp add: key_inv_def)
  have y: "key_inv c ?y"
  proof (cases "0 < ?D")
    case True
    then have "0 \<le> ?x" using tok lim(3) by (intro float64_nonneg add_nonneg_nonneg mult_nonneg_nonneg) simp_all
    then show ?thesis using True lim float64_is_float64 by (simp add: key_inv_def min_def)
  qed (use assms(2) in simp)
  have res: "a = (1 \<le> ?y)" "br_Tokens row' = ?y - (if a then 1 else 0)"
    using assms(3) key_inv_minus_1[OF assms(1) y]
    by (auto simp: bucket_take_def Let_def min_def not_le not_less split: if_splits)
  show "key_inv c (br_Tokens row')" using res y key_inv_minus_1[OF assms(1) y] by auto
  show "br_Tokens row' + (if a then 1 else 0) \<le> c" using res(2) y by (simp add: key_inv_def)
  show "br_Tokens row' + (if a then 1 else 0) \<le> br_Tokens row
       + (1 + 1 / 2 ^ 51) * (rate * seconds ?d) + c / 2 ^ 52" if "br_LastRefill row \<le> now"
  proof (cases "0 < ?D")
    case True
    then have "0 < ?d" using Duration_Seconds_nonpos[of ?d] by linarith
    from refill_tokens_le[OF tok lim(2,3) this] show ?thesis using res(2) True by simp
  next
    case False
    have "0 \<le> (1 + 1 / 2 ^ 51) * (rate * seconds ?d)" using lim(3) that by (simp add: seconds_def)
    then show ?thesis using res(2) False lim(2) by simp
  qed
qed

lemma key_take_float64:
  assumes "limits_ok c rate" "case st of None \<Rightarrow> True | Some (tok, l) \<Rightarrow> key_inv c tok"
    and "key_take float64 c rate now st = (a, tok', l')"
  shows "key_inv c tok'" "l' = now div 1000 * 1000" "tok' + (if a then 1 else 0) \<le> c"
proof -
  have "key_inv c c" using assms(1) by (simp add: limits_ok_def key_inv_def)
  then have c: "float64 (c - 1) = c - 1 \<and> key_inv c (c - 1)" using key_inv_minus_1[OF assms(1)] assms(1) by (simp add: limits_ok_def)
  have "key_inv c tok' \<and> l' = now div 1000 * 1000 \<and> tok' + (if a then 1 else 0) \<le> c"
  proof (cases st)
    case None
    then show ?thesis using c assms(3) by (auto simp: key_take_def)
  next
    case (Some x)
    obtain tok l where x: "x = (tok, l)" by fastforce
    let ?row = "\<lparr>br_Id = [], br_Key = [], br_Tokens = tok, br_LastRefill = l\<rparr>"
    obtain row' where b: "bucket_take float64 c rate now ?row = (a, row')" "br_Tokens row' = tok'" "l' = now div 1000 * 1000"
      using assms(3) Some x by (auto simp: key_take_def split: prod.splits)
    then show ?thesis using bucket_take_float64(1,2)[OF assms(1) _ b(1)] assms(2) Some x by simp
  qed
  then show "key_inv c tok'" "l' = now div 1000 * 1000" "tok' + (if a then 1 else 0) \<le> c" by blast+
qed

text \<open>
  A call that follows one at \<open>p\<close>: the stored time of that one is up to a microsecond earlier.
\<close>

lemma key_take_next:
  assumes "limits_ok c rate" "key_inv c tok" "p \<le> now"
    and "key_take float64 c rate now (Some (tok, p div 1000 * 1000)) = (a, tok', l')"
  shows "tok' + (if a then 1 else 0) \<le> tok + (1 + 1 / 2 ^ 51) * (rate * (seconds (now - p) + 1 / 10 ^ 6)) + c / 2 ^ 52"
proof -
  let ?row = "\<lparr>br_Id = [], br_Key = [], br_Tokens = tok, br_LastRefill = p div 1000 * 1000\<rparr>"
  obtain row' where b: "bucket_take float64 c rate now ?row = (a, row')" "br_Tokens row' = tok'"
    using assms(4) by (auto simp: key_take_def split: prod.splits)
  have p: "p div 1000 * 1000 \<le> now" "now - p div 1000 * 1000 \<le> now - p + 1000" using assms(3) by presburger+
  have "of_int (now - p div 1000 * 1000) \<le> (of_int (now - p + 1000) :: real)" using p(2) by (simp only: of_int_le_iff)
  then have s: "seconds (now - p div 1000 * 1000) \<le> seconds (now - p) + 1 / 10 ^ 6" by (simp add: seconds_def field_simps)
  have "(1 + 1 / 2 ^ 51) * (rate * seconds (now - p div 1000 * 1000)) \<le> (1 + 1 / 2 ^ 51) * (rate * (seconds (now - p) + 1 / 10 ^ 6))"
    using s assms(1) by (intro mult_left_mono) (simp_all add: limits_ok_def)
  moreover have "tok' + (if a then 1 else 0) \<le> tok + (1 + 1 / 2 ^ 51) * (rate * seconds (now - p div 1000 * 1000)) + c / 2 ^ 52"
    using bucket_take_float64(3)[OF assms(1) _ b(1)] assms(2) b(2) p(1) by simp
  ultimately show ?thesis by linarith
qed

lemma key_run_float64:
  assumes "limits_ok c rate" "key_inv c tok" "sorted (p # ts)"
  shows "admitted (key_run float64 c rate ts (Some (tok, p div 1000 * 1000)))
    \<le> tok + (1 + 1 / 2 ^ 51) * (rate * (seconds (last (p # ts) - p) + length ts / 10 ^ 6)) + length ts * (c / 2 ^ 52)"
  using assms(2,3)
proof (induction ts arbitrary: tok p)
  case (Cons now ts)
  obtain a tok' l' where k: "key_take float64 c rate now (Some (tok, p div 1000 * 1000)) = (a, tok', l')" by (metis prod_cases3)
  have l: "key_inv c tok'" "l' = now div 1000 * 1000" using key_take_float64[OF assms(1) _ k] Cons.prems(1) by simp_all
  have "tok' + (if a then 1 else 0) \<le> tok + (1 + 1 / 2 ^ 51) * (rate * (seconds (now - p) + 1 / 10 ^ 6)) + c / 2 ^ 52"
    using Cons.prems by (intro key_take_next[OF assms(1) _ _ k]) auto
  moreover have "admitted (key_run float64 c rate ts (Some (tok', l')))
    \<le> tok' + (1 + 1 / 2 ^ 51) * (rate * (seconds (last (now # ts) - now) + length ts / 10 ^ 6)) + length ts * (c / 2 ^ 52)"
    using Cons.IH[OF l(1)] Cons.prems(2) l(2) by simp
  moreover have "seconds (last (p # now # ts) - p) = seconds (last (now # ts) - now) + seconds (now - p)"
    using seconds_add[of "last (now # ts)" p now] by simp
  ultimately show ?case using k by (cases a) (simp_all add: algebra_simps add_divide_distrib del: last.simps)
qed (simp add: seconds_def key_inv_def)

lemma key_run_window:
  assumes "limits_ok c rate" "case st of None \<Rightarrow> True | Some (tok, l) \<Rightarrow> key_inv c tok" "sorted (t # us)"
  shows "admitted (drop (length ts) (key_run float64 c rate (ts @ t # us) st))
    \<le> c + (1 + 1 / 2 ^ 51) * (rate * (seconds (last (t # us) - t) + length us / 10 ^ 6)) + length us * (c / 2 ^ 52)"
  using assms(2)
proof (induction ts arbitrary: st)
  case Nil
  obtain a tok' l' where k: "key_take float64 c rate t st = (a, tok', l')" by (metis prod_cases3)
  note f = key_take_float64[OF assms(1) Nil k]
  show ?case using key_run_float64[OF assms(1) f(1) assms(3)] k f(2,3) by (cases a) simp_all
next
  case (Cons now ts)
  obtain a tok' l' where k: "key_take float64 c rate now st = (a, tok', l')" by (metis prod_cases3)
  show ?case using Cons.IH[of "Some (tok', l')"] key_take_float64(1)[OF assms(1) Cons.prems k] k by simp
qed

subsection \<open>Properties\<close>

text \<open>
  C39: The limit shared by the replicas holds while calls do not overlap, in \<open>float64\<close> and at the
  clock's own resolution. Take any run of calls, each ended before the next begins, for any keys
  and limits, on a table that keeps the contract of the database; calls may fail at any statement.
  Take a key whose calls all give one capacity, a \<open>float64\<close> from one to \<open>2 ^ 53\<close>, and one rate that
  is not negative, and whose row, if it has one, holds a number of tokens from zero to the capacity.
  Any window of its answered calls over which the clock does not go back lets through at most
  \<open>capacity\<close> requests plus \<open>refillPerSecond\<close> for every second from the first to the last of them, up
  to the roundings and a microsecond more of refill per call (the column keeps microseconds).
\<close>

theorem PostgresLimiter_rate_bound:
  assumes "bucket_table db ok look" and "ok t"
    and "\<forall>i r. look t i = Some r \<and> br_Key r = key
      \<longrightarrow> 0 \<le> br_Tokens r \<and> br_Tokens r \<le> capacity \<and> float64 (br_Tokens r) = br_Tokens r"
    and "float64 capacity = capacity" "1 \<le> capacity" "capacity \<le> 2 ^ 53" "0 \<le> rate"
    and "limiter_run (PostgresLimiter_ops float64 db) cs t = (as, t')"
    and "\<forall>(now, k, c, r) \<in> set cs. k = key \<longrightarrow> c = capacity \<and> r = rate"
    and "answered key cs as = earlier @ window" "window \<noteq> []" "sorted (map fst window)"
  shows "real (admitted (map snd window))
    \<le> capacity + (1 + 1 / 2 ^ 51) * (rate * (seconds (fst (last window) - fst (hd window)) + length window / 10 ^ 6))
      + length window * (capacity / 2 ^ 52)"
proof -
  let ?st = "bucket_table.bucket look t key"
  have lim: "limits_ok capacity rate" using assms(4-7) float64_is_float64[of capacity] by (simp add: limits_ok_def)
  have st: "case ?st of None \<Rightarrow> True | Some (tok, l) \<Rightarrow> key_inv capacity tok"
  proof (cases ?st)
    case (Some x)
    then obtain i r where "look t i = Some r" "br_Key r = key" "x = (br_Tokens r, br_LastRefill r)"
      using bucket_table.bucket_some[OF assms(1,2)] by blast
    then show ?thesis using Some assms(3) float64_is_float64[of "br_Tokens r"] by (auto simp: key_inv_def)
  qed simp
  obtain t0 ts where w: "map fst window = t0 # ts" using assms(11) by (cases window) auto
  have h: "fst (hd window) = t0" "fst (last window) = last (t0 # ts)" "length window = Suc (length ts)"
    using w assms(11) by (metis hd_map list.sel(1), metis last_map, metis length_map length_Cons)
  have "map snd (earlier @ window) = key_run float64 capacity rate (map fst earlier @ t0 # ts) ?st"
    using bucket_table.run_answers[OF assms(1,2,8,9)] assms(10) w by simp
  from arg_cong[where f = "drop (length earlier)", OF this]
  have "map snd window = drop (length (map fst earlier)) (key_run float64 capacity rate (map fst earlier @ t0 # ts) ?st)" by simp
  then have "admitted (map snd window) \<le> capacity
      + (1 + 1 / 2 ^ 51) * (rate * (seconds (last (t0 # ts) - t0) + length ts / 10 ^ 6)) + length ts * (capacity / 2 ^ 52)"
    using key_run_window[OF lim st, of t0 ts "map fst earlier"] assms(12) w by simp
  moreover have "(1 + 1 / 2 ^ 51) * (rate * (seconds (last (t0 # ts) - t0) + length ts / 10 ^ 6))
      \<le> (1 + 1 / 2 ^ 51) * (rate * (seconds (last (t0 # ts) - t0) + length window / 10 ^ 6))"
    using assms(7) h(3) by (intro mult_left_mono add_left_mono divide_right_mono) simp_all
  moreover have "length ts * (capacity / 2 ^ 52) \<le> length window * (capacity / 2 ^ 52)"
    using assms(5) h(3) by (intro mult_right_mono) simp_all
  ultimately show ?thesis unfolding h(1,2) by linarith
qed

lemmas limiter_eval = PostgresLimiter_ops_def PostgresLimiter_Allow_def list_buckets_def numeral_3_eq_3 tryAllow_def
  transaction_def bucket_tx_def bucket_read_def bucket_write_def sql_First_def list_table_ops_def lt_Find_def lt_Create_def
  lt_Updates_def empty_table_def sort_rows_def gormNotFound_def gorm_ErrRecordNotFound_def bucket_row_fill_def
  bucket_row_norm_def bucket_take_def lt_ok_def Let_def limit_rows_def

theorem PostgresLimiter_rate_bound_witness:
  "fst (limiter_run (PostgresLimiter_ops float64 list_buckets)
      [(7000, ''k'', 2, 1), (7000, ''x'', 5, 5), (7000, ''k'', 2, 1), (7000, ''k'', 2, 1)] empty_table) = map Inr [True, True, True, False]
   \<and> real (admitted [True, True, False]) \<le> 2 + (1 + 1 / 2 ^ 51) * (1 * (0 + 3 / 10 ^ 6)) + 3 * (2 / 2 ^ 52)"
proof -
  let ?cs = "[(7000, ''k'', 2, 1), (7000, ''x'', 5, 5), (7000, ''k'', 2, 1), (7000, ''k'', 2, 1)] :: (time \<times> string \<times> real \<times> real) list"
  have f: "float64 1 = 1" "float64 2 = 2" "float64 4 = 4"
    using float64_id[OF float64_of_int[of 1]] float64_id[OF float64_of_int[of 2]] float64_id[OF float64_of_int[of 4]] by simp_all
  obtain as t' where r: "limiter_run (PostgresLimiter_ops float64 list_buckets) ?cs empty_table = (as, t')" by fastforce
  have as: "as = map Inr [True, True, True, False]"
    using r f by (simp add: limiter_eval Duration_Seconds_def)
  have "real (admitted (map snd [(7000, True), (7000, True), (7000, False)]))
    \<le> 2 + (1 + 1 / 2 ^ 51) * (1 * (seconds (7000 - 7000) + length [(7000, True), (7000, True), (7000, False)] / 10 ^ 6))
      + length [(7000, True), (7000, True), (7000, False)] * (2 / 2 ^ 52)"
    using PostgresLimiter_rate_bound[OF bdb.bucket_table_axioms _ _ f(2) _ _ _ r, where key = "''k''" and rate = 1
      and earlier = "[]" and window = "[(7000, True), (7000, True), (7000, False)]"] f as
    by (simp add: lt_ok_def empty_table_def lt_look_def)
  then show ?thesis using r as by (simp add: seconds_def)
qed

text \<open>
  A clock that goes back mints tokens. Two replicas share a bucket of one token with a refill of
  one per second; one's clock is a second behind. A call at 10 s takes the token, a call by the
  late replica at 9 s is refused and writes its own time as the last refill, and a second call at
  10 s is let through, though no time has passed. The token bucket the limiter stands in for,
  asked at the same times, refuses it.
\<close>

theorem PostgresLimiter_skew_mints:
  "map Inr [True, False, True] = fst (limiter_run (PostgresLimiter_ops exact list_buckets)
       [(10000000000, ''k'', 1, 1), (9000000000, ''k'', 1, 1), (10000000000, ''k'', 1, 1)] empty_table)
   \<and> fst (allow_run exact [10000000000, 9000000000, 10000000000] (NewTokenBucket 1 1 10000000000)) = [True, False, False]"
proof
  show "map Inr [True, False, True] = fst (limiter_run (PostgresLimiter_ops exact list_buckets)
       [(10000000000, ''k'', 1, 1), (9000000000, ''k'', 1, 1), (10000000000, ''k'', 1, 1)] empty_table)"
    by (simp add: limiter_eval Duration_Seconds_exact) (simp add: exact_def seconds_def)
  show "fst (allow_run exact [10000000000, 9000000000, 10000000000] (NewTokenBucket 1 1 10000000000)) = [True, False, False]"
    by (simp add: TokenBucket_Allow_def refill_def NewTokenBucket_def Duration_Seconds_exact) (simp add: exact_def seconds_def Let_def)
qed

text \<open>
  Calls that overlap are not limited so. Two calls that both read a row before either has written
  it are both let through on its last token: the second write puts back what the first one wrote.
\<close>

theorem PostgresLimiter_overlap_lost:
  assumes "bucket_table db ok look" "ok t" "bucket_read db None key t = Inr row"
    and "br_Tokens row = 1" "br_LastRefill row = now" "rnd 0 = 0"
    and "bucket_write rnd db None now key capacity rate (Inr row) t = (Inr a1, t1)"
    and "bucket_write rnd db None now key capacity rate (Inr row) t1 = (Inr a2, t2)"
  shows "a1 \<and> a2 \<and> bucket_table.bucket look t2 key = Some (0, now div 1000 * 1000)"
proof -
  let ?new = "row\<lparr>br_Tokens := 0, br_LastRefill := now\<rparr>"
  note tab = bucket_table.axioms[OF assms(1)]
  have take: "bucket_take rnd capacity rate now row = (True, ?new)"
    using assms(4-6) by (simp add: bucket_take_def Duration_Seconds_def)
  have f: "look t (br_Id row) = Some row" "br_Key row = key"
    using sql_table.First_ok[OF tab assms(2)] assms(3) by (auto simp: bucket_read_def)
  obtain n1 where u1: "a1" "t_Updates db None (\<lambda>r. br_Id r = br_Id row \<and> True) (\<lambda>r. r\<lparr>br_Tokens := 0, br_LastRefill := now\<rparr>) t = (Inr n1, t1)"
    using assms(7) take by (auto simp: bucket_write_def split: prod.splits sum.splits)
  obtain n2 where u2: "a2" "t_Updates db None (\<lambda>r. br_Id r = br_Id row \<and> True) (\<lambda>r. r\<lparr>br_Tokens := 0, br_LastRefill := now\<rparr>) t1 = (Inr n2, t2)"
    using assms(8) take by (auto simp: bucket_write_def split: prod.splits sum.splits)
  have w1: "ok t1" "look t1 (br_Id row) = Some (bucket_row_norm ?new)"
    using sql_table.updates_at[OF tab assms(2) u1(2)] f by auto
  have w2: "ok t2" "look t2 (br_Id row) = Some (bucket_row_norm ?new)"
    using sql_table.updates_at[OF tab w1(1) u2(2)] w1(2) by (auto simp: bucket_row_norm_def)
  from bucket_table.bucket_row[OF assms(1) w2] show ?thesis using u1(1) u2(1) f(2) by (simp add: bucket_row_norm_def)
qed

end
