(* ===== verification/Tenancy.thy ===== *)
theory Tenancy
  imports Api_Auth
begin

section \<open>The directory service, as the API's tenants see it\<close>

text \<open>
  The interface between the API and \<open>directory.Service\<close> for the question who owns what:
  \<open>tenant_directory\<close> says which rows each operation may touch. \<open>dir_tables\<close> discharges it for
  \<open>Service\<close> over its four tables.
\<close>

text \<open>What a vhost row keeps when its policy or its state is changed.\<close>

definition same_owner :: "vhost_row option \<Rightarrow> vhost_row option \<Rightarrow> bool" where
  "same_owner r r' \<longleftrightarrow> rel_option (\<lambda>r r'. vr_AccountID r' = vr_AccountID r \<and> vr_Domain r' = vr_Domain r) r r'"

lemma same_owner_refl [simp]: "same_owner r r"
  by (cases r) (simp_all add: same_owner_def)

locale tenant_directory =
  fixes ops :: "'d service_ops" and inv :: "'d \<Rightarrow> bool"
    and vhosts :: "'d \<Rightarrow> string \<Rightarrow> vhost_row option" and boxes :: "'d \<Rightarrow> string \<Rightarrow> mailbox_row option"
    and keys :: "'d \<Rightarrow> string \<Rightarrow> dkim_key_row option" and accounts :: "'d \<Rightarrow> string \<Rightarrow> account_row option"
  assumes get_vhost: "inv d \<Longrightarrow> sv_GetVhost ops i d = Inr v \<Longrightarrow>
      vh_ID v = i \<and> (\<exists>r. vhosts d i = Some r \<and> vr_AccountID r = vh_AccountID v \<and> vr_Domain r = vh_Domain v)"
    and by_domain: "inv d \<Longrightarrow> sv_Vhost ops dn d = Some v \<Longrightarrow>
      vh_Domain v = dn \<and> (\<exists>r. vhosts d (vh_ID v) = Some r \<and> vr_AccountID r = vh_AccountID v \<and> vr_Domain r = dn)"
    and domain_unique: "inv d \<Longrightarrow> vhosts d i = Some r \<Longrightarrow> vhosts d j = Some r' \<Longrightarrow> vr_Domain r = vr_Domain r' \<Longrightarrow> i = j"
    and create_vhost_err: "sv_CreateVhost ops n a dn d = (Inl e, d') \<Longrightarrow> d' = d"
    and create_vhost_ok: "inv d \<Longrightarrow> sv_CreateVhost ops n a dn d = (Inr v, d') \<Longrightarrow> inv d'
      \<and> boxes d' = boxes d \<and> accounts d' = accounts d
      \<and> (\<exists>i r k kr. vhosts d i = None \<and> vhosts d' = (vhosts d)(i \<mapsto> r) \<and> vr_AccountID r = a \<and> vr_Domain r = dn
           \<and> keys d k = None \<and> keys d' = (keys d)(k \<mapsto> kr) \<and> dk_VhostID kr = i)"
    and deactivate: "inv d \<Longrightarrow> sv_DeactivateVhost ops i d = (x, d') \<Longrightarrow> inv d'
      \<and> boxes d' = boxes d \<and> accounts d' = accounts d \<and> keys d' = keys d
      \<and> (\<forall>j. j \<noteq> i \<longrightarrow> vhosts d' j = vhosts d j) \<and> same_owner (vhosts d i) (vhosts d' i)"
    and update_policy: "inv d \<Longrightarrow> sv_UpdateVhostPolicy ops i p d = (x, d') \<Longrightarrow> inv d'
      \<and> boxes d' = boxes d \<and> accounts d' = accounts d \<and> keys d' = keys d
      \<and> (\<forall>j. j \<noteq> i \<longrightarrow> vhosts d' j = vhosts d j) \<and> same_owner (vhosts d i) (vhosts d' i)"
    and create_box: "inv d \<Longrightarrow> sv_CreateMailbox ops n i l pw d = (y, d') \<Longrightarrow> inv d'
      \<and> vhosts d' = vhosts d \<and> accounts d' = accounts d \<and> keys d' = keys d
      \<and> (\<forall>k. boxes d' k \<noteq> boxes d k \<longrightarrow> boxes d k = None \<and> (\<exists>r. boxes d' k = Some r \<and> mr_VhostID r = i))"
    and delete_box: "inv d \<Longrightarrow> sv_DeleteMailbox ops i m d = (x, d') \<Longrightarrow> inv d'
      \<and> vhosts d' = vhosts d \<and> accounts d' = accounts d \<and> keys d' = keys d
      \<and> (\<forall>k. boxes d' k \<noteq> boxes d k \<longrightarrow> boxes d' k = None \<and> (\<exists>r. boxes d k = Some r \<and> mr_VhostID r = i))"

definition mailbox_row_filled :: "mailbox_row \<Rightarrow> mailbox_row \<Rightarrow> bool" where
  "mailbox_row_filled r r' \<longleftrightarrow> mr_Id r' \<noteq> [] \<and> r' = (if mr_Id r = [] then r\<lparr>mr_Id := mr_Id r'\<rparr> else r)"

text \<open>The unique index of the mailboxes: the local part within a vhost.\<close>

definition same_mailbox :: "mailbox_row \<Rightarrow> mailbox_row \<Rightarrow> bool" where
  "same_mailbox r r' \<longleftrightarrow> mr_VhostID r = mr_VhostID r' \<and> mr_LocalPart r = mr_LocalPart r'"

definition mailboxes_table :: "(mailbox_row, 'm) sql_ops \<Rightarrow> ('m \<Rightarrow> bool) \<Rightarrow> ('m \<Rightarrow> string \<Rightarrow> mailbox_row option) \<Rightarrow> bool" where
  "mailboxes_table t ok look \<longleftrightarrow> sql_table t ok look mr_Id mailbox_row_filled same_mailbox (\<lambda>r. r)"

locale dir_tables =
  fixes env :: "('a, 'v, 'd, 'm) dir_env"
    and okv lookv okd lookd okm lookm and looka :: "'a \<Rightarrow> string \<Rightarrow> account_row option"
  assumes vt: "vhosts_table (de_vhosts env) okv lookv"
    and dt: "dkim_keys_table (de_dkim_keys env) okd lookd"
    and mt: "mailboxes_table (de_mailboxes env) okm lookm"
begin

definition dir_ok :: "('a, 'v, 'd, 'm) dir_db \<Rightarrow> bool" where
  "dir_ok db \<longleftrightarrow> okv (db_vhosts db) \<and> okd (db_dkim_keys db) \<and> okm (db_mailboxes db)"

lemma hydrate_row: "hydrateVhost env ctx row db = Inr v \<Longrightarrow> \<exists>key. v = vhostFromRow row key"
  by (auto simp: hydrateVhost_def split: sum.splits if_splits)

lemma vhost_update:
  assumes "dir_ok db" "t_Updates (de_vhosts env) ctx (\<lambda>r. vr_Id r = i) f (db_vhosts db) = (res, t')"
    "\<And>r. vr_Id (f r) = vr_Id r \<and> vr_AccountID (f r) = vr_AccountID r \<and> vr_Domain (f r) = vr_Domain r"
  shows "okv t' \<and> (\<forall>j. j \<noteq> i \<longrightarrow> lookv t' j = lookv (db_vhosts db) j) \<and> same_owner (lookv (db_vhosts db) i) (lookv t' i)"
proof (cases res)
  case (Inl e)
  then have "t' = db_vhosts db" using sql_table.updates_err[OF vt[unfolded vhosts_table_def] assms(2)[unfolded Inl]] by simp
  then show ?thesis using assms(1) by (auto simp: dir_ok_def)
next
  case (Inr n)
  have u: "t_Updates (de_vhosts env) ctx (\<lambda>r. vr_Id r = i \<and> True) f (db_vhosts db) = (Inr n, t')" using assms(2) Inr by simp
  from sql_table.updates_at[OF vt[unfolded vhosts_table_def] _ u] assms(1,3) show ?thesis
    by (cases "n = 0") (auto simp: dir_ok_def same_owner_def)
qed

end

sublocale dir_tables \<subseteq> tds: tenant_directory "Service_api env" dir_ok "\<lambda>d. lookv (db_vhosts d)" "\<lambda>d. lookm (db_mailboxes d)"
  "\<lambda>d. lookd (db_dkim_keys d)" "\<lambda>d. looka (db_accounts d)"
proof (unfold_locales, goal_cases)
  case (1 d i v)
  then obtain row where r: "sql_First (de_vhosts env) vr_Id None (\<lambda>r. vr_Id r = i) [] (db_vhosts d) = Inr row"
    "hydrateVhost env None row d = Inr v" by (auto simp: Service_api_def Service_GetVhost_def split: sum.splits if_splits)
  have "okv (db_vhosts d)" using 1(1) by (simp add: dir_ok_def)
  from sql_table.First_ok[OF vt[unfolded vhosts_table_def] this r(1)] hydrate_row[OF r(2)]
  show ?case by (auto simp: vhostFromRow_def)
next
  case (2 d dn v)
  then obtain row where r: "sql_First (de_vhosts env) vr_Id None (\<lambda>r. vr_Domain r = dn) [] (db_vhosts d) = Inr row"
    "hydrateVhost env None row d = Inr v" by (auto simp: Service_api_def Service_Vhost_def split: sum.splits)
  have "okv (db_vhosts d)" using 2(1) by (simp add: dir_ok_def)
  from sql_table.First_ok[OF vt[unfolded vhosts_table_def] this r(1)] hydrate_row[OF r(2)]
  show ?case by (auto simp: vhostFromRow_def)
next
  case (3 d i r j r')
  then show ?case using sql_table.look_unique[OF vt[unfolded vhosts_table_def], of "db_vhosts d" i r j r'] by (auto simp: dir_ok_def)
next
  case (4 n a dn d e d')
  then show ?case
    by (auto simp: Service_api_def Service_CreateVhost_def split: sum.splits prod.splits dest: transaction_error)
next
  case (5 d n a dn v d')
  then obtain pem row dk where t: "transaction (de_Begin env None) (de_Commit env None)
      (create_vhost_rows env None a dn pem) d = (Inr (row, dk), d')"
    by (auto simp: Service_api_def Service_CreateVhost_def split: sum.splits prod.splits)
  have ok: "okv (db_vhosts d)" "okd (db_dkim_keys d)" "okm (db_mailboxes d)" using 5(1) by (auto simp: dir_ok_def)
  note c = create_vhost_rows_ok[OF vt dt ok(1,2) transaction_ok[OF t]]
  have "lookd (db_dkim_keys d) (dk_Id dk) = None"
  proof -
    obtain tv where "t_Create (de_dkim_keys env) None \<lparr>dk_Id = [], dk_CreatedAt = 0, dk_VhostID = vr_Id row, dk_Selector = DefaultDKIMSelector,
              dk_PrivateKeyPEM = pem, dk_Active = True\<rparr> (db_dkim_keys d) = (Inr dk, tv)"
      using transaction_ok[OF t] by (auto simp: create_vhost_rows_def split: prod.splits sum.splits)
    from sql_table.create_ok[OF dt[unfolded dkim_keys_table_def] ok(2) this] show ?thesis by blast
  qed
  then show ?case using c ok(3)
    by (intro conjI exI[of _ "vr_Id row"] exI[of _ row] exI[of _ "dk_Id dk"] exI[of _ "dkim_row_norm dk"])
       (auto simp: dir_ok_def dkim_row_norm_def)
next
  case (6 d i x d')
  then obtain res t where u: "t_Updates (de_vhosts env) None (\<lambda>r. vr_Id r = i) (\<lambda>r. r\<lparr>vr_Active := False\<rparr>) (db_vhosts d) = (res, t)"
    "d' = d\<lparr>db_vhosts := t\<rparr>"
    by (auto simp: Service_api_def Service_DeactivateVhost_def affected_def split: prod.splits sum.splits)
  from vhost_update[OF 6(1) u(1)] u(2) 6(1) show ?case by (auto simp: dir_ok_def)
next
  case (7 d i p x d')
  then obtain res t where u: "t_Updates (de_vhosts env) None (\<lambda>r. vr_Id r = i)
      (\<lambda>r. r\<lparr>vr_MaxMessageBytes := vp_MaxMessageBytes p, vr_DailyQuota := vp_DailyQuota p,
                vr_SpamRejectThreshold := vp_SpamRejectThreshold p,
                vr_SpamQuarantineThreshold := vp_SpamQuarantineThreshold p,
                vr_RetentionDays := vp_RetentionDays p\<rparr>) (db_vhosts d) = (res, t)"
    "d' = d\<lparr>db_vhosts := t\<rparr>"
    by (auto simp: Service_api_def Service_UpdateVhostPolicy_def affected_def split: prod.splits sum.splits)
  from vhost_update[OF 7(1) u(1)] u(2) 7(1) show ?case by (auto simp: dir_ok_def)
next
  case (8 d n i l pw y d')
  have ok: "okm (db_mailboxes d)" using 8(1) by (simp add: dir_ok_def)
  note ct = sql_table.create_ok[OF mt[unfolded mailboxes_table_def] ok] and ce = sql_table.create_err[OF mt[unfolded mailboxes_table_def]]
  show ?case using 8
    by (auto simp: Service_api_def Service_CreateMailbox_def dir_ok_def split: sum.splits prod.splits
        dest!: ct ce simp: mailbox_row_filled_def) (metis mailbox_row.select_convs(2) mailbox_row.update_convs(1))+
next
  case (9 d i m x d')
  have ok: "okm (db_mailboxes d)" using 9(1) by (simp add: dir_ok_def)
  obtain res t where u: "t_Delete (de_mailboxes env) None (\<lambda>r. mr_Id r = m \<and> mr_VhostID r = i) (db_mailboxes d) = (res, t)"
    "d' = d\<lparr>db_mailboxes := t\<rparr>"
    using 9(2) by (auto simp: Service_api_def Service_DeleteMailbox_def affected_def conj_commute split: prod.splits sum.splits)
  show ?case
  proof (cases res)
    case (Inl e)
    then have "t = db_mailboxes d" using sql_table.delete_err[OF mt[unfolded mailboxes_table_def] u(1)[unfolded Inl]] by simp
    then show ?thesis using u(2) 9(1) by (auto simp: dir_ok_def)
  next
    case (Inr n)
    from sql_table.delete_at[OF mt[unfolded mailboxes_table_def] ok u(1)[unfolded Inr]] u(2) 9(1) show ?thesis
      by (cases "n = 0") (auto simp: dir_ok_def)
  qed
qed

definition mailbox_row_fill :: "mailbox_row list_table \<Rightarrow> mailbox_row \<Rightarrow> mailbox_row" where
  "mailbox_row_fill t r = (if mr_Id r = [] then r\<lparr>mr_Id := concat (lt_used t) @ ''m''\<rparr> else r)"

interpretation mbt: list_table mr_Id mailbox_row_fill mailbox_row_filled same_mailbox "\<lambda>r. r"
  by unfold_locales (auto simp: mailbox_row_filled_def mailbox_row_fill_def)

type_synonym tenants_db = "(unit, vhost_row list_table, dkim_key_row list_table, mailbox_row list_table) dir_db"

definition tenants_env :: "(unit, vhost_row list_table, dkim_key_row list_table, mailbox_row list_table) dir_env" where
  "tenants_env = \<lparr>de_accounts = no_table, de_vhosts = de_vhosts demo_dir_env, de_dkim_keys = de_dkim_keys demo_dir_env,
     de_mailboxes = list_table_ops mr_Id mailbox_row_fill same_mailbox (\<lambda>r. r),
     de_Begin = (\<lambda>ctx db. ctx), de_Commit = (\<lambda>ctx db. ctx),
     de_enc = demo_key (CHR ''a''), de_GenerateKey = (\<lambda>n. Inr ''secret''),
     de_MarshalPKCS1 = (\<lambda>k. k), de_ParsePKCS1 = Inr, de_pem_Encode = (\<lambda>b. ''PEM '' @ b),
     de_pem_Decode = (\<lambda>s. Some (drop 4 s)), de_bcrypt = (\<lambda>n p. Inr p), de_bcrypt_ok = (=)\<rparr>"

interpretation tdir: dir_tables tenants_env demo_vhosts_ok "lt_look vr_Id" demo_dkim_ok "lt_look dk_Id"
  "lt_ok mr_Id same_mailbox (\<lambda>r. r)" "lt_look mr_Id" "\<lambda>_ _. None"
  using demo_dir_tables mbt.sql_table_axioms
  by unfold_locales (simp_all add: tenants_env_def mailboxes_table_def)

end
