(* ===== verification/Tenant_Frames.thy ===== *)
theory Tenant_Frames
  imports Tenancy Storage_Postgres Webhook_Postgres Job_Queue
begin

section \<open>What the queues keep of other vhosts\<close>

text \<open>
  The contracts the management API relies on when it writes to a queue shared by all tenants:
  enqueuing a job, firing an event and redriving one leave what is queued for every other vhost as
  it is.
\<close>

subsection \<open>The outbound queue\<close>

locale vhost_queue =
  fixes ops :: "(job, 'q) queue_ops" and inv :: "'q \<Rightarrow> bool" and pending :: "'q \<Rightarrow> string \<Rightarrow> job option"
  assumes enqueue_frame: "inv q \<Longrightarrow> q_Enqueue ops ctx j q = (x, q') \<Longrightarrow> inv q'
      \<and> (pending q' = pending q \<or> (\<exists>j'. job_Vhost j' = job_Vhost j \<and> pending q' = (pending q)(job_ID j \<mapsto> j')))"

locale outbound_claims = job_claims ops init job_ID due retry stored pending claims inv
  for ops :: "(job, 'q) queue_ops" and init due retry stored pending claims inv +
  assumes stored_vhost: "job_Vhost (stored j) = job_Vhost j"

sublocale outbound_claims \<subseteq> vq: vhost_queue ops inv pending
proof (unfold_locales, goal_cases)
  case (1 q ctx j x q')
  then show ?case using enq_ok[of q ctx j q'] enq_err[of ctx j q _ q'] stored_vhost by (cases x) (blast, simp)
qed

interpretation mvq: outbound_claims MemoryBackend_ops NewMemoryBackend job_NextAttemptAt job_retry "\<lambda>j. j"
  mq_pending mq_claims "mq_inv job_ID"
  by unfold_locales simp

subsection \<open>Events\<close>

text \<open>
  \<open>enq\<close> and \<open>red\<close> are \<open>Enqueue\<close> and \<open>Redrive\<close> of the dispatcher over the store it reads; \<open>events\<close>
  are the deliveries queued in a state.
\<close>

locale vhost_hooks =
  fixes enq :: "'w \<Rightarrow> 'h enqueuer" and red :: "string \<Rightarrow> string \<Rightarrow> string \<Rightarrow> 'w \<Rightarrow> 'h \<Rightarrow> gerr option \<times> 'h"
    and inv :: "'h \<Rightarrow> bool" and events :: "'h \<Rightarrow> string \<Rightarrow> delivery_job option"
  assumes fire_frame: "inv h \<Longrightarrow> enq w ctx vhost et payload h = (x, h') \<Longrightarrow> inv h'
      \<and> (\<forall>k. events h' k \<noteq> events h k \<longrightarrow> events h k = None \<and> (\<exists>j. events h' k = Some j \<and> dj_Vhost j = vhost))"
    and redrive_frame: "inv h \<Longrightarrow> red vhost i e w h = (x, h') \<Longrightarrow> inv h'
      \<and> (\<forall>k. events h' k \<noteq> events h k \<longrightarrow> events h k = None \<and> (\<exists>j. events h' k = Some j \<and> dj_Vhost j = vhost))"

text \<open>The dispatcher over a queue of deliveries, drawing IDs that are not in use.\<close>

locale fresh_events = job_claims ops init dj_ID due retry stored pending claims inv
  for ops :: "(delivery_job, 'q) queue_ops" and init due retry stored pending claims inv +
  fixes uuid :: "nat \<Rightarrow> string" and store :: "'w webhook_store"
  assumes stored_vhost: "dj_Vhost (stored j) = dj_Vhost j"
    and uuid_inj: "inj uuid"
begin

definition fresh_from :: "'q \<times> nat \<Rightarrow> bool" where
  "fresh_from qn \<longleftrightarrow> inv (fst qn) \<and> (\<forall>m \<ge> snd qn. pending (fst qn) (uuid m) = None)"

definition only_new :: "string \<Rightarrow> 'q \<Rightarrow> 'q \<Rightarrow> bool" where
  "only_new vhost q q' \<longleftrightarrow> (\<forall>k. pending q' k \<noteq> pending q k
     \<longrightarrow> pending q k = None \<and> (\<exists>j. pending q' k = Some j \<and> dj_Vhost j = vhost))"

lemma only_new_trans: "only_new v q q1 \<Longrightarrow> only_new v q1 q2 \<Longrightarrow> only_new v q q2"
  unfolding only_new_def by (metis option.distinct(1))

lemma enqueue_fresh:
  assumes "fresh_from (q, n)" "q_Enqueue ops ctx j q = (x, q')" "dj_ID j = uuid n" "dj_Vhost j = vhost"
  shows "fresh_from (q', Suc n) \<and> only_new vhost q q'"
proof (cases x)
  case None
  then have "inv q'" "pending q' = (pending q)(uuid n \<mapsto> stored j)"
    using enq_ok[of q ctx j q'] assms by (auto simp: fresh_from_def)
  then show ?thesis using assms stored_vhost inj_eq[OF uuid_inj] by (auto simp: fresh_from_def only_new_def)
next
  case (Some e)
  then have "q' = q" using assms(2) enq_err by blast
  then show ?thesis using assms(1) by (auto simp: fresh_from_def only_new_def)
qed

lemma enqueue_subs_fresh:
  "enqueue_subs ops uuid ctx mk et subs (q, n) = (x, q', n') \<Longrightarrow> fresh_from (q, n)
   \<Longrightarrow> (\<And>i sub. dj_ID (mk i sub) = i \<and> dj_Vhost (mk i sub) = vhost)
   \<Longrightarrow> fresh_from (q', n') \<and> only_new vhost q q'"
proof (induction subs arbitrary: q n)
  case Nil
  then show ?case by (simp add: only_new_def enqueue_subs.simps)
next
  case (Cons sub subs)
  show ?case
  proof (cases "sub_Disabled sub \<or> \<not> matchesEventType sub et")
    case True
    then have "enqueue_subs ops uuid ctx mk et subs (q, n) = (x, q', n')" using Cons.prems(1) by (auto simp: enqueue_subs.simps split: if_splits)
    then show ?thesis using Cons by blast
  next
    case False
    obtain y q1 where e: "q_Enqueue ops ctx (mk (uuid n) sub) q = (y, q1)" by fastforce
    note f = enqueue_fresh[OF Cons.prems(2) e] and mk = Cons.prems(3)[of "uuid n" sub]
    show ?thesis
    proof (cases y)
      case None
      then show ?thesis using Cons.IH[of q1 "Suc n"] Cons.prems f mk e False only_new_trans by (auto simp: enqueue_subs.simps split: prod.splits)
    next
      case (Some err)
      then show ?thesis using Cons.prems f mk e False by (auto simp: enqueue_subs.simps)
    qed
  qed
qed

end

sublocale fresh_events \<subseteq> hk: vhost_hooks
  "\<lambda>w ctx vhost et payload. Dispatcher_Enqueue store ops uuid ctx cid now seed vhost et payload w"
  "\<lambda>vhost i e w. Dispatcher_Redrive store ops uuid None cid now seed vhost i e w"
  fresh_from "\<lambda>h. pending (fst h)" for cid now seed
proof (unfold_locales, goal_cases)
  case (1 h w ctx vhost et payload x h')
  have later: "fresh_from (q, Suc n)" if "fresh_from (q, n)" for q n using that by (simp add: fresh_from_def)
  show ?case
  proof (cases "w_ListSubscriptions store ctx seed vhost w")
    case (Inl e)
    then show ?thesis using 1 by (auto simp: Dispatcher_Enqueue_def split: prod.splits)
  next
    case (Inr subs)
    then have "enqueue_subs ops uuid ctx (\<lambda>newID sub. event_job newID sub vhost (uuid (snd h)) et payload now cid) et subs
        (fst h, Suc (snd h)) = (x, fst h', snd h')" using 1(2) by (auto simp: Dispatcher_Enqueue_def split: prod.splits)
    from enqueue_subs_fresh[OF this later, of vhost] 1(1) show ?thesis by (simp add: only_new_def event_job_def)
  qed
next
  case (2 h vhost i e w x h')
  obtain q n where h: "h = (q, n)" by fastforce
  have "h' = h \<or> (\<exists>j y q'. q_Enqueue ops None j q = (y, q') \<and> h' = (q', Suc n) \<and> dj_ID j = uuid n \<and> dj_Vhost j = vhost)"
    using 2(2) unfolding h
    by (auto simp: Dispatcher_Redrive_def event_job_def split: sum.splits option.splits if_splits prod.splits)
       (metis delivery_job.select_convs(1,2))+
  then show ?case
  proof
    assume "h' = h"
    then show ?thesis using 2(1) by simp
  next
    assume "\<exists>j y q'. q_Enqueue ops None j q = (y, q') \<and> h' = (q', Suc n) \<and> dj_ID j = uuid n \<and> dj_Vhost j = vhost"
    then obtain j y q' where "q_Enqueue ops None j q = (y, q')" "h' = (q', Suc n)" "dj_ID j = uuid n" "dj_Vhost j = vhost" by blast
    then show ?thesis using enqueue_fresh[of q n None j y q' vhost] 2(1) h by (simp add: only_new_def)
  qed
qed

interpretation mvh: fresh_events MemoryEventQueue_ops NewMemoryEventQueue dj_NextAttemptAt dj_retry "\<lambda>j. j"
  mq_pending mq_claims "mq_inv dj_ID" demo_uuid MemoryStore_ops
  by unfold_locales (simp_all add: demo_uuid_ok)

end
