(* ===== verification/Api_Isolation.thy ===== *)
theory Api_Isolation
  imports Api_Access Tenant_Frames
begin

section \<open>Isolation of the tenants of the management API\<close>

text \<open>
  What an account sees of the platform is its \<open>tenant_view\<close>: its vhosts, their mailboxes and DKIM
  keys, its tokens, and the webhook subscriptions, stored messages, outbound jobs and queued events
  of its domains. \<open>api_providers\<close> collects the contracts of the collaborators the controllers call;
  under them no request that carries neither the admin token nor a token of the account changes its
  view.
\<close>

subsection \<open>Views\<close>

definition keep :: "('r \<Rightarrow> bool) \<Rightarrow> (string \<Rightarrow> 'r option) \<Rightarrow> string \<Rightarrow> 'r option" where
  "keep P m k = (case m k of None \<Rightarrow> None | Some r \<Rightarrow> if P r then Some r else None)"

lemma keep_Some [simp]: "keep P m k = Some r \<longleftrightarrow> m k = Some r \<and> P r"
  by (auto simp: keep_def split: option.splits)

lemma keep_eqI:
  assumes "\<And>k r. m' k \<noteq> m k \<Longrightarrow> m k = Some r \<Longrightarrow> \<not> P r" "\<And>k r. m' k \<noteq> m k \<Longrightarrow> m' k = Some r \<Longrightarrow> \<not> P r"
  shows "keep P m' = keep P m"
proof
  fix k
  show "keep P m' k = keep P m k"
    using assms[of k] by (cases "m' k = m k") (auto simp: keep_def split: option.splits)
qed

text \<open>How the state of every collaborator is read: its invariant and its contents.\<close>

record ('d, 't, 'u, 'w, 's, 'q, 'h) api_model =
  am_dir_ok :: "'d \<Rightarrow> bool"
  am_vhosts :: "'d \<Rightarrow> string \<Rightarrow> vhost_row option"
  am_boxes :: "'d \<Rightarrow> string \<Rightarrow> mailbox_row option"
  am_keys :: "'d \<Rightarrow> string \<Rightarrow> dkim_key_row option"
  am_accounts :: "'d \<Rightarrow> string \<Rightarrow> account_row option"
  am_tokens_ok :: "'t \<Rightarrow> bool"
  am_issued :: "'t \<Rightarrow> string \<Rightarrow> (token \<times> string) option"
  am_hooks_ok :: "'w \<Rightarrow> bool"
  am_subs :: "'w \<Rightarrow> string \<Rightarrow> subscription option"
  am_store_ok :: "'s \<Rightarrow> bool"
  am_holds :: "'s \<Rightarrow> message_ref \<Rightarrow> bytes \<Rightarrow> bool"
  am_queue_ok :: "'q \<Rightarrow> bool"
  am_pending :: "'q \<Rightarrow> string \<Rightarrow> job option"
  am_audit_ok :: "'u \<Rightarrow> bool"
  am_log :: "'u \<Rightarrow> audit_entry set"
  am_kept :: "time \<Rightarrow> time"
  am_events_ok :: "'h \<Rightarrow> bool"
  am_events :: "'h \<Rightarrow> string \<Rightarrow> delivery_job option"

record tenant =
  tn_vhosts :: "string \<Rightarrow> vhost_row option"
  tn_boxes :: "string \<Rightarrow> mailbox_row option"
  tn_keys :: "string \<Rightarrow> dkim_key_row option"
  tn_tokens :: "string \<Rightarrow> (token \<times> string) option"
  tn_subs :: "string \<Rightarrow> subscription option"
  tn_messages :: "(message_ref \<times> bytes) set"
  tn_jobs :: "string \<Rightarrow> job option"
  tn_events :: "string \<Rightarrow> delivery_job option"

definition own_vhosts where
  "own_vhosts M B d = keep (\<lambda>r. vr_AccountID r = B) (am_vhosts M d)"

definition own_domains where
  "own_domains M B d = vr_Domain ` ran (own_vhosts M B d)"

definition tenant_view :: "('d, 't, 'u, 'w, 's, 'q, 'h) api_model \<Rightarrow> string \<Rightarrow> ('d, 't, 'u, 'w, 'l, 's, 'q, 'h) api_state \<Rightarrow> tenant" where
  "tenant_view M B s =
     (let vs = dom (own_vhosts M B (as_dir s)); ds = own_domains M B (as_dir s) in
      \<lparr>tn_vhosts = own_vhosts M B (as_dir s),
       tn_boxes = keep (\<lambda>r. mr_VhostID r \<in> vs) (am_boxes M (as_dir s)),
       tn_keys = keep (\<lambda>r. dk_VhostID r \<in> vs) (am_keys M (as_dir s)),
       tn_tokens = keep (\<lambda>(tok, h). tok_AccountID tok = B) (am_issued M (as_tokens s)),
       tn_subs = keep (\<lambda>x. sub_Vhost x \<in> ds) (am_subs M (as_webhooks s)),
       tn_messages = {(ref, b). am_holds M (as_store s) ref b \<and> ref_Vhost ref \<in> ds},
       tn_jobs = keep (\<lambda>j. job_Vhost j \<in> ds) (am_pending M (as_queue s)),
       tn_events = keep (\<lambda>j. dj_Vhost j \<in> ds) (am_events M (as_hooks s))\<rparr>)"

text \<open>The invariants of the collaborators, and the IDs a request draws being unused.\<close>

definition api_ok :: "('d, 't, 'u, 'w, 's, 'q, 'h) api_model \<Rightarrow> ('d, 't, 'u, 'w, 'l, 's, 'q, 'h) api_state \<Rightarrow> bool" where
  "api_ok M s \<longleftrightarrow> am_dir_ok M (as_dir s) \<and> am_tokens_ok M (as_tokens s) \<and> am_hooks_ok M (as_webhooks s)
     \<and> am_store_ok M (as_store s) \<and> am_queue_ok M (as_queue s) \<and> am_audit_ok M (as_audit s) \<and> am_events_ok M (as_hooks s)"

definition fresh_draws :: "('d, 't, 'u, 'w, 's, 'q, 'h) api_model \<Rightarrow> api_draws \<Rightarrow> ('d, 't, 'u, 'w, 'l, 's, 'q, 'h) api_state \<Rightarrow> bool" where
  "fresh_draws M dr s \<longleftrightarrow> (\<forall>i. ad_uuid dr i \<noteq> []) \<and> am_issued M (as_tokens s) (ad_uuid dr 0) = None
     \<and> am_subs M (as_webhooks s) (ad_uuid dr 0) = None \<and> (\<forall>i. am_pending M (as_queue s) (fst (ad_job dr i)) = None)"

subsection \<open>The collaborators\<close>

locale api_providers =
  fixes env :: "('d, 't, 'u, 'w, 'l, 's, 'q, 'h) api_env" and M :: "('d, 't, 'u, 'w, 's, 'q, 'h) api_model"
  assumes dir: "tenant_directory (ae_dir env) (am_dir_ok M) (am_vhosts M) (am_boxes M) (am_keys M) (am_accounts M)"
    and tok: "tokens (ae_tokens env) (am_tokens_ok M) (am_issued M)"
    and wh: "webhook_subs (ae_webhooks env) (am_hooks_ok M) (am_subs M)"
    and st: "vhost_store (ae_store env) (am_store_ok M) (am_holds M)"
    and qu: "vhost_queue (ae_queue env) (am_queue_ok M) (am_pending M)"
    and au: "audit_log (ae_audit env) (am_audit_ok M) (am_log M) (am_kept M)"
    and hk: "\<exists>enq red. vhost_hooks enq red (am_events_ok M) (am_events M)
      \<and> (ae_enqueuer env = None \<or> ae_enqueuer env = Some enq)
      \<and> (ae_redrive env = None \<or> ae_redrive env = Some None \<or> ae_redrive env = Some (Some red))"
begin

text \<open>
  A state reached from another by an account \<open>A\<close> other than \<open>B\<close>: the invariants hold, \<open>B\<close> sees what
  it saw, and the audit log has grown by entries of \<open>A\<close> only.
\<close>

definition leaves :: "string \<Rightarrow> string \<Rightarrow> ('d, 't, 'u, 'w, 'l, 's, 'q, 'h) api_state \<Rightarrow> ('d, 't, 'u, 'w, 'l, 's, 'q, 'h) api_state \<Rightarrow> bool" where
  "leaves A B s s' \<longleftrightarrow> api_ok M s' \<and> tenant_view M B s' = tenant_view M B s \<and> am_log M (as_audit s) \<subseteq> am_log M (as_audit s')
     \<and> (\<forall>e \<in> am_log M (as_audit s') - am_log M (as_audit s). ae_Actor e = ''account:'' @ A)"

lemma leaves_refl: "api_ok M s \<Longrightarrow> leaves A B s s"
  by (simp add: leaves_def)

lemma leaves_trans: "leaves A B s s1 \<Longrightarrow> leaves A B s1 s2 \<Longrightarrow> leaves A B s s2"
  by (auto simp: leaves_def)

lemma leaves_limiter: "leaves A B s s1 \<Longrightarrow> leaves A B s (s1\<lparr>as_limiter := l\<rparr>)"
  by (auto simp: leaves_def api_ok_def tenant_view_def)

lemma leaves_audit:
  assumes "leaves A B s s1" "\<not> ac_IsAdmin ac" "ac_AccountID ac = A" "\<And>i. ad_uuid dr i \<noteq> []"
  shows "leaves A B s (recordAudit env dr k ac action target detail s1)"
proof -
  let ?e = "\<lparr>ae_ID = [], ae_Actor = Actor ac, ae_Action = action, ae_Target = target, ae_Detail = detail, ae_At = audit_zero_time\<rparr>"
  obtain x u where r: "au_Record (ae_audit env) None (ad_now dr (Suc k)) (ad_uuid dr (Suc k)) ?e (as_audit s1) = (x, u)" by fastforce
  have "am_audit_ok M u \<and> am_log M (as_audit s1) \<subseteq> am_log M u
    \<and> (\<forall>e \<in> am_log M u - am_log M (as_audit s1). ae_Actor e = ''account:'' @ A)"
  proof (cases x)
    case None
    have "am_audit_ok M (as_audit s1)" using assms(1) by (simp add: leaves_def api_ok_def)
    from audit_log.record_ok[OF au this assms(4) r[unfolded None]] assms(2,3) show ?thesis
      by (auto simp: Actor_def stamp_entry_def)
  next
    case (Some e)
    then have "u = as_audit s1" using audit_log.record_err[OF au] r by blast
    then show ?thesis using assms(1) by (auto simp: leaves_def api_ok_def)
  qed
  then show ?thesis using assms(1) r
    by (auto simp: leaves_def recordAudit_def api_ok_def tenant_view_def)
qed

text \<open>Which vhosts and domains an account that passed a guard may touch.\<close>

lemma granted_vhost:
  assumes "api_ok M s" "in_scope env (as_dir s) (VhostScope i) ac" "\<not> ac_IsAdmin ac"
  obtains r where "am_vhosts M (as_dir s) i = Some r" "vr_AccountID r = ac_AccountID ac"
proof -
  obtain v where v: "sv_GetVhost (ae_dir env) i (as_dir s) = Inr v" "vh_AccountID v = ac_AccountID ac"
    using assms(2,3) by auto
  have "am_dir_ok M (as_dir s)" using assms(1) by (simp add: api_ok_def)
  from tenant_directory.get_vhost[OF dir this v(1)] v(2) show thesis using that by auto
qed

lemma foreign_vhost:
  assumes "am_vhosts M d i = Some r" "vr_AccountID r \<noteq> B"
  shows "i \<notin> dom (own_vhosts M B d)"
  using assms by (auto simp: own_vhosts_def)

lemma foreign_domain:
  assumes "am_dir_ok M d" "am_vhosts M d i = Some r" "vr_AccountID r \<noteq> B"
  shows "vr_Domain r \<notin> own_domains M B d"
proof
  assume "vr_Domain r \<in> own_domains M B d"
  then obtain j r' where r': "am_vhosts M d j = Some r'" "vr_AccountID r' = B" "vr_Domain r = vr_Domain r'"
    by (auto simp: own_domains_def own_vhosts_def ran_def)
  then have "i = j" using tenant_directory.domain_unique[OF dir assms(1,2)] by blast
  then show False using r' assms by simp
qed

lemma fetched_domain:
  assumes "api_ok M s" "in_scope env (as_dir s) (VhostScope i) ac" "\<not> ac_IsAdmin ac" "ac_AccountID ac \<noteq> B"
    "sv_GetVhost (ae_dir env) i (as_dir s) = Inr v"
  shows "vh_Domain v \<notin> own_domains M B (as_dir s)"
proof -
  have ok: "am_dir_ok M (as_dir s)" using assms(1) by (simp add: api_ok_def)
  from tenant_directory.get_vhost[OF dir ok assms(5)] obtain r where
    r: "am_vhosts M (as_dir s) i = Some r" "vr_Domain r = vh_Domain v" by auto
  obtain r' where "am_vhosts M (as_dir s) i = Some r'" "vr_AccountID r' = ac_AccountID ac"
    using granted_vhost[OF assms(1-3)] by blast
  then show ?thesis using foreign_domain[OF ok r(1)] r assms(4) by simp
qed

text \<open>One lemma per collaborator.\<close>

lemma leaves_dir:
  assumes "leaves A B s s1" "am_dir_ok M d" "own_vhosts M B d = own_vhosts M B (as_dir s1)"
    "keep (\<lambda>r. mr_VhostID r \<in> dom (own_vhosts M B (as_dir s1))) (am_boxes M d)
      = keep (\<lambda>r. mr_VhostID r \<in> dom (own_vhosts M B (as_dir s1))) (am_boxes M (as_dir s1))"
    "keep (\<lambda>r. dk_VhostID r \<in> dom (own_vhosts M B (as_dir s1))) (am_keys M d)
      = keep (\<lambda>r. dk_VhostID r \<in> dom (own_vhosts M B (as_dir s1))) (am_keys M (as_dir s1))"
  shows "leaves A B s (s1\<lparr>as_dir := d\<rparr>)"
  using assms by (simp add: leaves_def api_ok_def tenant_view_def own_domains_def)

lemma leaves_vhost_row:
  assumes "leaves A B s s1" "am_dir_ok M d" "am_boxes M d = am_boxes M (as_dir s1)" "am_keys M d = am_keys M (as_dir s1)"
    "am_vhosts M (as_dir s1) i = Some r" "vr_AccountID r \<noteq> B"
    "\<forall>j. j \<noteq> i \<longrightarrow> am_vhosts M d j = am_vhosts M (as_dir s1) j" "same_owner (am_vhosts M (as_dir s1) i) (am_vhosts M d i)"
  shows "leaves A B s (s1\<lparr>as_dir := d\<rparr>)"
proof (rule leaves_dir[OF assms(1,2)])
  obtain r' where "am_vhosts M d i = Some r'" "vr_AccountID r' = vr_AccountID r"
    using assms(5,8) by (auto simp: same_owner_def option_rel_Some1)
  then show "own_vhosts M B d = own_vhosts M B (as_dir s1)" unfolding own_vhosts_def
    using assms(5-7) by (intro keep_eqI) (metis option.inject)+
qed (simp_all add: assms)

lemma leaves_boxes:
  assumes "leaves A B s s1" "am_dir_ok M d" "am_vhosts M d = am_vhosts M (as_dir s1)" "am_keys M d = am_keys M (as_dir s1)"
    "am_vhosts M (as_dir s1) i = Some r" "vr_AccountID r \<noteq> B"
    "\<forall>k x. am_boxes M d k \<noteq> am_boxes M (as_dir s1) k \<longrightarrow> am_boxes M d k = Some x \<or> am_boxes M (as_dir s1) k = Some x \<longrightarrow> mr_VhostID x = i"
  shows "leaves A B s (s1\<lparr>as_dir := d\<rparr>)"
proof (rule leaves_dir[OF assms(1,2)])
  show "keep (\<lambda>r. mr_VhostID r \<in> dom (own_vhosts M B (as_dir s1))) (am_boxes M d)
      = keep (\<lambda>r. mr_VhostID r \<in> dom (own_vhosts M B (as_dir s1))) (am_boxes M (as_dir s1))"
    using foreign_vhost[OF assms(5,6)] assms(7) by (intro keep_eqI) blast+
qed (simp_all add: assms own_vhosts_def)

lemma leaves_tokens:
  assumes "leaves A B s s1" "am_tokens_ok M t" "A \<noteq> B"
    "\<forall>k tok h. am_issued M t k \<noteq> am_issued M (as_tokens s1) k
       \<longrightarrow> am_issued M t k = Some (tok, h) \<or> am_issued M (as_tokens s1) k = Some (tok, h) \<longrightarrow> tok_AccountID tok = A"
  shows "leaves A B s (s1\<lparr>as_tokens := t\<rparr>)"
proof -
  have "keep (\<lambda>(tok, h). tok_AccountID tok = B) (am_issued M t) = keep (\<lambda>(tok, h). tok_AccountID tok = B) (am_issued M (as_tokens s1))"
    using assms(3,4) by (intro keep_eqI) fastforce+
  then show ?thesis using assms(1,2) by (simp add: leaves_def api_ok_def tenant_view_def)
qed

lemma leaves_subs:
  assumes "leaves A B s s1" "am_hooks_ok M w" "domain \<notin> own_domains M B (as_dir s1)"
    "\<forall>k x. am_subs M w k \<noteq> am_subs M (as_webhooks s1) k
       \<longrightarrow> am_subs M w k = Some x \<or> am_subs M (as_webhooks s1) k = Some x \<longrightarrow> sub_Vhost x = domain"
  shows "leaves A B s (s1\<lparr>as_webhooks := w\<rparr>)"
proof -
  have "keep (\<lambda>x. sub_Vhost x \<in> own_domains M B (as_dir s1)) (am_subs M w)
      = keep (\<lambda>x. sub_Vhost x \<in> own_domains M B (as_dir s1)) (am_subs M (as_webhooks s1))"
    using assms(3,4) by (intro keep_eqI) blast+
  then show ?thesis using assms(1,2) by (simp add: leaves_def api_ok_def tenant_view_def)
qed

lemma leaves_store:
  assumes "leaves A B s s1" "am_store_ok M m" "domain \<notin> own_domains M B (as_dir s1)"
    "\<forall>ref b. ref_Vhost ref \<noteq> domain \<longrightarrow> am_holds M m ref b = am_holds M (as_store s1) ref b"
  shows "leaves A B s (s1\<lparr>as_store := m\<rparr>)"
proof -
  have "{(ref, b). am_holds M m ref b \<and> ref_Vhost ref \<in> own_domains M B (as_dir s1)}
      = {(ref, b). am_holds M (as_store s1) ref b \<and> ref_Vhost ref \<in> own_domains M B (as_dir s1)}"
    using assms(3,4) by auto
  then show ?thesis using assms(1,2) by (simp add: leaves_def api_ok_def tenant_view_def)
qed

lemma leaves_queue:
  assumes "leaves A B s s1" "am_queue_ok M q" "domain \<notin> own_domains M B (as_dir s1)"
    "\<forall>k. am_pending M q k \<noteq> am_pending M (as_queue s1) k
       \<longrightarrow> am_pending M (as_queue s1) k = None \<and> (\<forall>j. am_pending M q k = Some j \<longrightarrow> job_Vhost j = domain)"
  shows "leaves A B s (s1\<lparr>as_queue := q\<rparr>)"
proof -
  have "keep (\<lambda>j. job_Vhost j \<in> own_domains M B (as_dir s1)) (am_pending M q)
      = keep (\<lambda>j. job_Vhost j \<in> own_domains M B (as_dir s1)) (am_pending M (as_queue s1))"
    using assms(3,4) by (intro keep_eqI) (metis option.distinct(1))+
  then show ?thesis using assms(1,2) by (simp add: leaves_def api_ok_def tenant_view_def)
qed

lemma leaves_events:
  assumes "leaves A B s s1" "am_events_ok M h" "domain \<notin> own_domains M B (as_dir s1)"
    "\<forall>k. am_events M h k \<noteq> am_events M (as_hooks s1) k
       \<longrightarrow> am_events M (as_hooks s1) k = None \<and> (\<exists>j. am_events M h k = Some j \<and> dj_Vhost j = domain)"
  shows "leaves A B s (s1\<lparr>as_hooks := h\<rparr>)"
proof -
  have "keep (\<lambda>j. dj_Vhost j \<in> own_domains M B (as_dir s1)) (am_events M h)
      = keep (\<lambda>j. dj_Vhost j \<in> own_domains M B (as_dir s1)) (am_events M (as_hooks s1))"
    using assms(3,4) by (intro keep_eqI) (metis option.distinct(1) option.inject)+
  then show ?thesis using assms(1,2) by (simp add: leaves_def api_ok_def tenant_view_def)
qed

subsubsection \<open>The handlers\<close>

text \<open>A request that carries neither the admin token nor a token of \<open>B\<close>.\<close>

definition stranger :: "string \<Rightarrow> api_draws \<Rightarrow> 'z dto_scheme \<Rightarrow> ('d, 't, 'u, 'w, 'l, 's, 'q, 'h) api_state \<Rightarrow> bool" where
  "stranger B dr dto s \<longleftrightarrow> (\<forall>ac :: auth_context. identity env dr (Authorization dto) (as_tokens s) ac
     \<longrightarrow> \<not> ac_IsAdmin ac \<and> ac_AccountID ac \<noteq> B)"

text \<open>What is known once the guard of a route let such a request through.\<close>

definition passed :: "string \<Rightarrow> api_draws \<Rightarrow> api_scope \<Rightarrow> auth_context \<Rightarrow> ('d, 't, 'u, 'w, 'l, 's, 'q, 'h) api_state
    \<Rightarrow> ('d, 't, 'u, 'w, 'l, 's, 'q, 'h) api_state \<Rightarrow> bool" where
  "passed B dr sc ac s s1 \<longleftrightarrow> \<not> ac_IsAdmin ac \<and> ac_AccountID ac \<noteq> B \<and> in_scope env (as_dir s1) sc ac
     \<and> leaves (ac_AccountID ac) B s s1 \<and> fresh_draws M dr s1 \<and> api_ok M s1"

lemma handled:
  assumes "guarded (scope_guard env dr sc dto s) k = (out, s')" "stranger B dr dto s" "api_ok M s" "fresh_draws M dr s"
    "\<And>ac s1. passed B dr sc ac s s1 \<Longrightarrow> k ac s1 = (out, s') \<Longrightarrow> leaves (ac_AccountID ac) B s s'"
  shows "\<exists>A. A \<noteq> B \<and> leaves A B s s'"
proof -
  obtain r s1 where g: "scope_guard env dr sc dto s = (r, s1)" by fastforce
  note i = scope_guard_identity[OF g]
  then obtain l where s1: "s1 = s\<lparr>as_limiter := l\<rparr>" by blast
  have L: "leaves A B s s1" for A unfolding s1 by (intro leaves_limiter leaves_refl assms(3))
  show ?thesis
  proof (cases r)
    case (Inl e)
    then have "s' = s1" using assms(1) g by (simp add: guarded_def)
    then show ?thesis using L by (intro exI[of _ "B @ ''x''"]) simp
  next
    case (Inr ac)
    then have a: "identity env dr (Authorization dto) (as_tokens s) ac" "in_scope env (as_dir s) sc ac" using i by auto
    then have n: "\<not> ac_IsAdmin ac" "ac_AccountID ac \<noteq> B" using assms(2) by (auto simp: stranger_def)
    have "passed B dr sc ac s s1" unfolding passed_def
      using a n L assms(3,4) s1 by (auto simp: fresh_draws_def api_ok_def)
    moreover have "k ac s1 = (out, s')" using assms(1) g Inr by (simp add: guarded_def)
    ultimately show ?thesis using assms(5) n by blast
  qed
qed

lemma passed_audit:
  assumes "passed B dr sc ac s s1" "leaves (ac_AccountID ac) B s s2"
  shows "leaves (ac_AccountID ac) B s (recordAudit env dr k ac action target detail s2)"
  using assms by (intro leaves_audit) (auto simp: passed_def fresh_draws_def)

lemma passed_vhost:
  assumes "passed B dr (VhostScope i) ac s s1"
  shows "\<exists>r. am_vhosts M (as_dir s1) i = Some r \<and> vr_AccountID r \<noteq> B"
proof -
  have p: "api_ok M s1" "in_scope env (as_dir s1) (VhostScope i) ac" "\<not> ac_IsAdmin ac" "ac_AccountID ac \<noteq> B"
    using assms unfolding passed_def by blast+
  show ?thesis by (rule granted_vhost[OF p(1-3)]) (use p(4) in simp)
qed

lemma passed_domain:
  assumes "passed B dr (VhostScope i) ac s s1" "sv_GetVhost (ae_dir env) i (as_dir s1) = Inr v"
  shows "vh_Domain v \<notin> own_domains M B (as_dir s1)"
  using assms(1) fetched_domain[OF _ _ _ _ assms(2), of ac B] unfolding passed_def by blast

lemma CreateVhost_leaves:
  assumes "passed B dr (AccountScope a) ac s s1" "sv_CreateVhost (ae_dir env) n a domain (as_dir s1) = (x, d)"
  shows "leaves (ac_AccountID ac) B s (s1\<lparr>as_dir := d\<rparr>)"
proof (cases x)
  case (Inl e)
  then have "d = as_dir s1" using assms(2) tenant_directory.create_vhost_err[OF dir] by blast
  then show ?thesis using assms(1) by (simp add: passed_def)
next
  case (Inr v)
  have p: "leaves (ac_AccountID ac) B s s1" "am_dir_ok M (as_dir s1)" "a \<noteq> B" using assms(1) by (auto simp: passed_def api_ok_def)
  from tenant_directory.create_vhost_ok[OF dir p(2) assms(2)[unfolded Inr]] obtain i r k kr where
    c: "am_dir_ok M d" "am_boxes M d = am_boxes M (as_dir s1)" "am_vhosts M (as_dir s1) i = None"
    "am_vhosts M d = (am_vhosts M (as_dir s1))(i \<mapsto> r)" "vr_AccountID r = a"
    "am_keys M (as_dir s1) k = None" "am_keys M d = (am_keys M (as_dir s1))(k \<mapsto> kr)" "dk_VhostID kr = i" by blast
  show ?thesis
  proof (rule leaves_dir[OF p(1) c(1)])
    show "own_vhosts M B d = own_vhosts M B (as_dir s1)" using c p(3)
      unfolding own_vhosts_def by (intro keep_eqI) (auto split: if_splits)
    have "i \<notin> dom (own_vhosts M B (as_dir s1))" using c(3) by (auto simp: own_vhosts_def)
    then show "keep (\<lambda>r. dk_VhostID r \<in> dom (own_vhosts M B (as_dir s1))) (am_keys M d)
      = keep (\<lambda>r. dk_VhostID r \<in> dom (own_vhosts M B (as_dir s1))) (am_keys M (as_dir s1))"
      using c by (intro keep_eqI) (auto split: if_splits)
  qed (simp add: c)
qed

lemma vhost_row_leaves:
  assumes "passed B dr (VhostScope i) ac s s1"
    "sv_DeactivateVhost (ae_dir env) i (as_dir s1) = (x, d) \<or> sv_UpdateVhostPolicy (ae_dir env) i p (as_dir s1) = (x, d)"
  shows "leaves (ac_AccountID ac) B s (s1\<lparr>as_dir := d\<rparr>)"
proof -
  have p: "leaves (ac_AccountID ac) B s s1" "am_dir_ok M (as_dir s1)" using assms(1) by (auto simp: passed_def api_ok_def)
  obtain r where r: "am_vhosts M (as_dir s1) i = Some r" "vr_AccountID r \<noteq> B"
    using passed_vhost[OF assms(1)] by blast
  have "am_dir_ok M d \<and> am_boxes M d = am_boxes M (as_dir s1) \<and> am_accounts M d = am_accounts M (as_dir s1)
      \<and> am_keys M d = am_keys M (as_dir s1) \<and> (\<forall>j. j \<noteq> i \<longrightarrow> am_vhosts M d j = am_vhosts M (as_dir s1) j)
      \<and> same_owner (am_vhosts M (as_dir s1) i) (am_vhosts M d i)"
    using assms(2) by (elim disjE) (rule tenant_directory.deactivate[OF dir p(2)] tenant_directory.update_policy[OF dir p(2)]; assumption)+
  then show ?thesis using leaves_vhost_row[OF p(1) _ _ _ r] by blast
qed

lemma mailbox_leaves:
  assumes "passed B dr (VhostScope i) ac s s1"
    "sv_CreateMailbox (ae_dir env) n i lp pw (as_dir s1) = (y, d) \<or> sv_DeleteMailbox (ae_dir env) i m (as_dir s1) = (x, d)"
  shows "leaves (ac_AccountID ac) B s (s1\<lparr>as_dir := d\<rparr>)"
proof -
  have p: "leaves (ac_AccountID ac) B s s1" "am_dir_ok M (as_dir s1)" using assms(1) by (auto simp: passed_def api_ok_def)
  obtain r where r: "am_vhosts M (as_dir s1) i = Some r" "vr_AccountID r \<noteq> B"
    using passed_vhost[OF assms(1)] by blast
  have "am_dir_ok M d \<and> am_vhosts M d = am_vhosts M (as_dir s1) \<and> am_keys M d = am_keys M (as_dir s1) \<and> (\<forall>k. am_boxes M d k \<noteq> am_boxes M (as_dir s1) k \<longrightarrow>
      am_boxes M (as_dir s1) k = None \<and> (\<exists>r. am_boxes M d k = Some r \<and> mr_VhostID r = i)
      \<or> am_boxes M d k = None \<and> (\<exists>r. am_boxes M (as_dir s1) k = Some r \<and> mr_VhostID r = i))"
    using assms(2)
  proof
    assume "sv_CreateMailbox (ae_dir env) n i lp pw (as_dir s1) = (y, d)"
    from tenant_directory.create_box[OF dir p(2) this] show ?thesis by blast
  next
    assume "sv_DeleteMailbox (ae_dir env) i m (as_dir s1) = (x, d)"
    from tenant_directory.delete_box[OF dir p(2) this] show ?thesis by blast
  qed
  then show ?thesis by (intro leaves_boxes[OF p(1) _ _ _ r]) (simp_all, metis option.distinct(1) option.inject)
qed

lemma mint_leaves:
  assumes "passed B dr (AccountScope a) ac s s1" "mintToken env dr a label (as_tokens s1) = (x, t)"
  shows "leaves (ac_AccountID ac) B s (s1\<lparr>as_tokens := t\<rparr>)"
proof -
  have p: "leaves (ac_AccountID ac) B s s1" "am_tokens_ok M (as_tokens s1)" "ac_AccountID ac = a" "ac_AccountID ac \<noteq> B"
    "am_issued M (as_tokens s1) (ad_uuid dr 0) = None"
    using assms(1) by (auto simp: passed_def api_ok_def fresh_draws_def)
  have "t = as_tokens s1 \<or> (\<exists>h tok. tk_CreateToken (ae_tokens env) None (ad_now dr 1) (ad_uuid dr 0) a label h (as_tokens s1) = (Inr tok, t))"
    using assms(2) tokens.create_tok_err[OF tok] by (fastforce simp: mintToken_def split: sum.splits prod.splits)
  then show ?thesis
  proof (elim disjE exE)
    fix h z
    assume "tk_CreateToken (ae_tokens env) None (ad_now dr 1) (ad_uuid dr 0) a label h (as_tokens s1) = (Inr z, t)"
    from tokens.create_tok[OF tok p(2) this] obtain tok' where "am_tokens_ok M t" "tok_AccountID tok' = a"
      "am_issued M t = (am_issued M (as_tokens s1))(ad_uuid dr 0 \<mapsto> (tok', h))" by blast
    then show ?thesis using p by (intro leaves_tokens[OF p(1)]) (auto split: if_splits)
  qed (use p in simp)
qed

lemma revoke_leaves:
  assumes "passed B dr (AccountScope a) ac s s1" "tk_RevokeToken (ae_tokens env) None a i (as_tokens s1) = (x, t)"
  shows "leaves (ac_AccountID ac) B s (s1\<lparr>as_tokens := t\<rparr>)"
proof -
  have p: "leaves (ac_AccountID ac) B s s1" "am_tokens_ok M (as_tokens s1)" "ac_AccountID ac = a" "ac_AccountID ac \<noteq> B"
    using assms(1) by (auto simp: passed_def api_ok_def)
  show ?thesis
  proof (cases x)
    case None
    from tokens.revoke_ok[OF tok p(2) assms(2)[unfolded None]] obtain z h where "am_tokens_ok M t"
      "am_issued M t = (am_issued M (as_tokens s1))(i := None)" "am_issued M (as_tokens s1) i = Some (z, h)" "tok_AccountID z = a" by blast
    then show ?thesis using p by (intro leaves_tokens[OF p(1)]) (auto split: if_splits)
  next
    case (Some e)
    then have "t = as_tokens s1" using tokens.revoke_err[OF tok p(2)] assms(2) by blast
    then show ?thesis using p by simp
  qed
qed

lemma subscription_leaves:
  assumes "passed B dr (VhostScope i) ac s s1" "sv_GetVhost (ae_dir env) i (as_dir s1) = Inr v"
    "(\<exists>sub. w_CreateSubscription (ae_webhooks env) None sub (as_webhooks s1) = (x, w) \<and> sub_ID sub = ad_uuid dr 0 \<and> sub_Vhost sub = vh_Domain v)
     \<or> w_DisableSubscription (ae_webhooks env) None (vh_Domain v) k (as_webhooks s1) = (x, w)"
  shows "leaves (ac_AccountID ac) B s (s1\<lparr>as_webhooks := w\<rparr>)"
proof -
  have p: "leaves (ac_AccountID ac) B s s1" "am_hooks_ok M (as_webhooks s1)" "am_subs M (as_webhooks s1) (ad_uuid dr 0) = None"
    using assms(1) by (auto simp: passed_def api_ok_def fresh_draws_def)
  note d = passed_domain[OF assms(1,2)]
  show ?thesis
  proof (cases x)
    case None
    from assms(3) show ?thesis
    proof (elim disjE exE conjE)
      fix sub
      assume "w_CreateSubscription (ae_webhooks env) None sub (as_webhooks s1) = (x, w)"
        and sub: "sub_ID sub = ad_uuid dr 0" "sub_Vhost sub = vh_Domain v"
      from webhook_subs.create_sub[OF wh p(2) this(1)[unfolded None]] sub p(3) show ?thesis
        by (intro leaves_subs[OF p(1) _ d]) (auto split: if_splits)
    next
      assume "w_DisableSubscription (ae_webhooks env) None (vh_Domain v) k (as_webhooks s1) = (x, w)"
      from webhook_subs.disable_sub[OF wh p(2) this[unfolded None]] show ?thesis
        by (intro leaves_subs[OF p(1) _ d]) (auto split: if_splits)
    qed
  next
    case (Some e)
    then have "w = as_webhooks s1" using assms(3) webhook_subs.create_sub_err[OF wh] webhook_subs.disable_sub_err[OF wh p(2)] by blast
    then show ?thesis using p by simp
  qed
qed

lemma redrive_leaves:
  assumes "passed B dr (VhostScope i) ac s s1" "sv_GetVhost (ae_dir env) i (as_dir s1) = Inr v"
    "ae_redrive env = Some (Some red)" "red (vh_Domain v) k e (as_webhooks s1) (as_hooks s1) = (x, h)"
  shows "leaves (ac_AccountID ac) B s (s1\<lparr>as_hooks := h\<rparr>)"
proof -
  have p: "leaves (ac_AccountID ac) B s s1" "am_events_ok M (as_hooks s1)" using assms(1) by (auto simp: passed_def api_ok_def)
  obtain enq where "vhost_hooks enq red (am_events_ok M) (am_events M)" using hk assms(3) by auto
  from vhost_hooks.redrive_frame[OF this p(2) assms(4)] show ?thesis
    by (intro leaves_events[OF p(1) _ passed_domain[OF assms(1,2)]]) blast+
qed

lemma delete_messages_frame:
  assumes "am_store_ok M m" "\<forall>x \<in> set ms. ref_Vhost (meta_Ref x) = domain" "delete_messages (ae_store env) ms n m = (n', m')"
  shows "am_store_ok M m' \<and> (\<forall>ref b. ref_Vhost ref \<noteq> domain \<longrightarrow> am_holds M m' ref b = am_holds M m ref b)"
  using assms
proof (induction ms arbitrary: n m)
  case (Cons x ms)
  obtain e m1 where d: "s_Delete (ae_store env) None (meta_Ref x) m = (e, m1)" by fastforce
  then obtain n1 where "delete_messages (ae_store env) ms n1 m1 = (n', m')" using Cons.prems(3) by (cases e) auto
  from Cons.IH[OF _ _ this] vhost_store.delete_frame[OF st Cons.prems(1) d] Cons.prems(2) show ?case by auto metis+
qed simp

lemma erase_leaves:
  assumes "passed B dr (VhostScope i) ac s s1" "sv_GetVhost (ae_dir env) i (as_dir s1) = Inr v"
    "s_ListVhost (ae_store env) None seed (vh_Domain v) (as_store s1) = Inr metas"
    "delete_messages (ae_store env) metas 0 (as_store s1) = (n, m)"
  shows "leaves (ac_AccountID ac) B s (s1\<lparr>as_store := m\<rparr>)"
proof -
  have p: "leaves (ac_AccountID ac) B s s1" "am_store_ok M (as_store s1)" using assms(1) by (auto simp: passed_def api_ok_def)
  have "\<forall>x \<in> set metas. ref_Vhost (meta_Ref x) = vh_Domain v" using vhost_store.list_vhost[OF st p(2) assms(3)] by blast
  from delete_messages_frame[OF p(2) this assms(4)] show ?thesis
    by (intro leaves_store[OF p(1) _ passed_domain[OF assms(1,2)]]) blast+
qed

text \<open>Sending writes the copies and the jobs of the sending domain only.\<close>

lemma send_loop_frame:
  assumes "am_store_ok M m" "am_queue_ok M q"
    "api_send_loop (ae_store env) (ae_queue env) domain sender cid signed rs (m, q) ids = (x, m', q')"
    "\<forall>(rcpt, i, now) \<in> set rs. fresh i"
    "\<forall>k. am_pending M q k \<noteq> p k \<longrightarrow> fresh k \<and> (\<forall>j. am_pending M q k = Some j \<longrightarrow> job_Vhost j = domain)"
  shows "am_store_ok M m' \<and> (\<forall>ref b. ref_Vhost ref \<noteq> domain \<longrightarrow> am_holds M m' ref b = am_holds M m ref b)
    \<and> am_queue_ok M q'
    \<and> (\<forall>k. am_pending M q' k \<noteq> p k \<longrightarrow> fresh k \<and> (\<forall>j. am_pending M q' k = Some j \<longrightarrow> job_Vhost j = domain))"
  using assms
proof (induction rs arbitrary: m q ids)
  case (Cons r rs)
  obtain rcpt i now where r: "r = (rcpt, i, now)" by (cases r) auto
  obtain y m1 where w: "s_Write (ae_store env) None domain OutboxMailbox signed m = (y, m1)" by fastforce
  have m1: "am_store_ok M m1" "\<forall>ref b. ref_Vhost ref \<noteq> domain \<longrightarrow> am_holds M m1 ref b = am_holds M m ref b"
    using vhost_store.write_inv[OF st Cons.prems(1) w] vhost_store.write_frame[OF st Cons.prems(1) w] by auto
  show ?case
  proof (cases y)
    case (Inl e)
    then show ?thesis using Cons.prems w r m1 by auto
  next
    case (Inr ref)
    obtain z q1 where e: "q_Enqueue (ae_queue env) None (sent_job domain sender cid rcpt ref i now) q = (z, q1)" by fastforce
    have f: "am_queue_ok M q1 \<and> (am_pending M q1 = am_pending M q
        \<or> (\<exists>j'. job_Vhost j' = domain \<and> am_pending M q1 = (am_pending M q)(i \<mapsto> j')))"
      using vhost_queue.enqueue_frame[OF qu Cons.prems(2) e] by (simp add: sent_job_def)
    moreover have "fresh i" using Cons.prems(4) r by simp
    ultimately have q1: "\<forall>k. am_pending M q1 k \<noteq> p k \<longrightarrow> fresh k \<and> (\<forall>j. am_pending M q1 k = Some j \<longrightarrow> job_Vhost j = domain)"
      using Cons.prems(5) by (metis fun_upd_apply option.inject)
    show ?thesis
    proof (cases z)
      case None
      then have "api_send_loop (ae_store env) (ae_queue env) domain sender cid signed rs (m1, q1) (ids @ [i]) = (x, m', q')"
        using Cons.prems(3) w r Inr e by simp
      from Cons.IH[OF m1(1) _ this _ q1] f Cons.prems(4) m1(2) show ?thesis by auto
    next
      case (Some err)
      then show ?thesis using Cons.prems(3) w r Inr e m1 f q1 by auto
    qed
  qed
qed auto

lemma fire_leaves:
  assumes "leaves A B s s1" "domain \<notin> own_domains M B (as_dir s1)"
  shows "leaves A B s (s1\<lparr>as_hooks := api_fireQueued env domain sender to w (as_hooks s1)\<rparr>)"
proof (cases "ae_enqueuer env")
  case None
  then show ?thesis using assms(1) by (simp add: api_fireQueued_def)
next
  case (Some enq)
  then obtain red where v: "vhost_hooks enq red (am_events_ok M) (am_events M)" using hk by auto
  show ?thesis
  proof (cases "ae_payload env domain (QueuedData sender to)")
    case (Inr payload)
    obtain x h where f: "enq w None domain EventMessageQueued payload (as_hooks s1) = (x, h)" by fastforce
    have "am_events_ok M (as_hooks s1)" using assms(1) by (simp add: leaves_def api_ok_def)
    from vhost_hooks.fire_frame[OF v this f] have "leaves A B s (s1\<lparr>as_hooks := h\<rparr>)"
      by (intro leaves_events[OF assms(1) _ assms(2)]) blast+
    then show ?thesis using Some Inr f by (simp add: api_fireQueued_def)
  qed (use assms(1) Some in \<open>simp add: api_fireQueued_def\<close>)
qed

lemma send_domain:
  assumes "passed B dr (AccountScope a) ac s s1" "send_checks env dr dto ac (as_dir s1) = Inr (v, key, sender, attachments)"
  shows "vh_Domain v \<notin> own_domains M B (as_dir s1)"
proof -
  obtain domain where d: "sv_Vhost (ae_dir env) domain (as_dir s1) = Some v" "ac_AccountID ac = vh_AccountID v \<or> ac_IsAdmin ac"
    using assms(2) by (auto simp: send_checks_def split: sum.splits option.splits if_splits prod.splits)
  have p: "am_dir_ok M (as_dir s1)" "\<not> ac_IsAdmin ac" "ac_AccountID ac \<noteq> B" using assms(1) by (auto simp: passed_def api_ok_def)
  from tenant_directory.by_domain[OF dir p(1) d(1)] obtain r where "am_vhosts M (as_dir s1) (vh_ID v) = Some r"
    "vr_AccountID r = vh_AccountID v" "vr_Domain r = vh_Domain v" by auto
  then show ?thesis using foreign_domain[OF p(1), of "vh_ID v" r B] d(2) p by auto
qed

lemma send_leaves:
  assumes "passed B dr (AccountScope a) ac s s1" "send_checks env dr dto ac (as_dir s1) = Inr (v, key, sender, attachments)"
    "api_send_loop (ae_store env) (ae_queue env) (vh_Domain v) sender cid signed
       (zip rs (map (ad_job dr) [0..<length rs])) (as_store s1, as_queue s1) [] = (x, m, q)"
  shows "leaves (ac_AccountID ac) B s (s1\<lparr>as_limiter := l, as_store := m, as_queue := q\<rparr>)"
proof -
  have p: "leaves (ac_AccountID ac) B s s1" "am_store_ok M (as_store s1)" "am_queue_ok M (as_queue s1)"
    "\<forall>i. am_pending M (as_queue s1) (fst (ad_job dr i)) = None"
    using assms(1) by (auto simp: passed_def api_ok_def fresh_draws_def)
  note d = send_domain[OF assms(1,2)]
  have "\<forall>(rcpt, i, now) \<in> set (zip rs (map (ad_job dr) [0..<length rs])). am_pending M (as_queue s1) i = None"
    using p(4) by (auto simp: set_zip) (metis fst_conv)
  from send_loop_frame[OF p(2,3) assms(3) this, of "am_pending M (as_queue s1)"]
  have "am_store_ok M m" "\<forall>ref b. ref_Vhost ref \<noteq> vh_Domain v \<longrightarrow> am_holds M m ref b = am_holds M (as_store s1) ref b"
    "am_queue_ok M q" "\<forall>k. am_pending M q k \<noteq> am_pending M (as_queue s1) k
       \<longrightarrow> am_pending M (as_queue s1) k = None \<and> (\<forall>j. am_pending M q k = Some j \<longrightarrow> job_Vhost j = vh_Domain v)" by auto
  then have "leaves (ac_AccountID ac) B s (s1\<lparr>as_limiter := l\<rparr>\<lparr>as_store := m\<rparr>\<lparr>as_queue := q\<rparr>)" using d
    by (intro leaves_queue[where domain = "vh_Domain v"] leaves_store[where domain = "vh_Domain v"] leaves_limiter p(1)) simp_all
  then show ?thesis by simp
qed

lemma send_fires:
  assumes "passed B dr (AccountScope a) ac s s1" "send_checks env dr dto ac (as_dir s1) = Inr (v, key, sender, attachments)"
    "api_send_loop (ae_store env) (ae_queue env) (vh_Domain v) sender cid signed
       (zip rs (map (ad_job dr) [0..<length rs])) (as_store s1, as_queue s1) [] = (x, m, q)"
  shows "leaves (ac_AccountID ac) B s (s1\<lparr>as_limiter := l, as_store := m, as_queue := q,
      as_hooks := api_fireQueued env (vh_Domain v) sender rs (as_webhooks s1) (as_hooks s1)\<rparr>)"
  using fire_leaves[OF send_leaves[OF assms], where domain = "vh_Domain v"] send_domain[OF assms(1,2)] by simp

subsubsection \<open>All routes\<close>

text \<open>A guard that failed does nothing further.\<close>

lemma guarded_domain:
  assumes "guarded (vhostDomain env i s1) k = (out, s')"
  obtains "s' = s1" | v where "sv_GetVhost (ae_dir env) i (as_dir s1) = Inr v" "k (vh_Domain v) s1 = (out, s')"
  using assms by (auto simp: guarded_def vhostDomain_def split: sum.splits)

lemma leaves_passed: "passed B dr sc ac s s1 \<Longrightarrow> leaves (ac_AccountID ac) B s s1"
  by (simp add: passed_def)

lemma CreateVhost_isolated:
  assumes "VhostController_CreateVhost env dr dto s = (out, s')" "stranger B dr dto s" "api_ok M s" "fresh_draws M dr s"
  shows "\<exists>A. A \<noteq> B \<and> leaves A B s s'"
  by (rule handled[OF assms(1)[unfolded VhostController_CreateVhost_def scope_guard.simps(2)[symmetric]] assms(2-4)])
     (auto split: prod.splits option.splits sum.splits if_splits intro: leaves_passed passed_audit CreateVhost_leaves)

lemma DeactivateVhost_isolated:
  assumes "VhostController_DeactivateVhost env dr dto s = (out, s')" "stranger B dr dto s" "api_ok M s" "fresh_draws M dr s"
  shows "\<exists>A. A \<noteq> B \<and> leaves A B s s'"
  by (rule handled[OF assms(1)[unfolded VhostController_DeactivateVhost_def scope_guard.simps(3)[symmetric]] assms(2-4)])
     (auto split: prod.splits option.splits sum.splits if_splits intro: leaves_passed passed_audit vhost_row_leaves)

lemma UpdateVhostPolicy_isolated:
  assumes "VhostController_UpdateVhostPolicy env dr dto s = (out, s')" "stranger B dr dto s" "api_ok M s" "fresh_draws M dr s"
  shows "\<exists>A. A \<noteq> B \<and> leaves A B s s'"
  by (rule handled[OF assms(1)[unfolded VhostController_UpdateVhostPolicy_def scope_guard.simps(3)[symmetric]] assms(2-4)])
     (auto split: prod.splits option.splits sum.splits if_splits intro: leaves_passed passed_audit vhost_row_leaves)

lemma CreateMailbox_isolated:
  assumes "VhostController_CreateMailbox env dr dto s = (out, s')" "stranger B dr dto s" "api_ok M s" "fresh_draws M dr s"
  shows "\<exists>A. A \<noteq> B \<and> leaves A B s s'"
  by (rule handled[OF assms(1)[unfolded VhostController_CreateMailbox_def scope_guard.simps(3)[symmetric]] assms(2-4)])
     (auto split: prod.splits option.splits sum.splits if_splits intro: leaves_passed passed_audit mailbox_leaves)

lemma DeleteMailbox_isolated:
  assumes "VhostController_DeleteMailbox env dr dto s = (out, s')" "stranger B dr dto s" "api_ok M s" "fresh_draws M dr s"
  shows "\<exists>A. A \<noteq> B \<and> leaves A B s s'"
  by (rule handled[OF assms(1)[unfolded VhostController_DeleteMailbox_def scope_guard.simps(3)[symmetric]] assms(2-4)])
     (auto split: prod.splits option.splits sum.splits if_splits intro: leaves_passed passed_audit mailbox_leaves)

lemma CreateToken_isolated:
  assumes "TokenController_CreateToken env dr dto s = (out, s')" "stranger B dr dto s" "api_ok M s" "fresh_draws M dr s"
  shows "\<exists>A. A \<noteq> B \<and> leaves A B s s'"
  by (rule handled[OF assms(1)[unfolded TokenController_CreateToken_def scope_guard.simps(2)[symmetric]] assms(2-4)])
     (auto split: prod.splits option.splits sum.splits if_splits intro: leaves_passed passed_audit mint_leaves)

lemma RevokeToken_isolated:
  assumes "TokenController_RevokeToken env dr dto s = (out, s')" "stranger B dr dto s" "api_ok M s" "fresh_draws M dr s"
  shows "\<exists>A. A \<noteq> B \<and> leaves A B s s'"
  by (rule handled[OF assms(1)[unfolded TokenController_RevokeToken_def scope_guard.simps(2)[symmetric]] assms(2-4)])
     (auto split: prod.splits option.splits sum.splits if_splits intro: leaves_passed passed_audit revoke_leaves)

lemma CreateSubscription_isolated:
  assumes "WebhookController_CreateSubscription env dr dto s = (out, s')" "stranger B dr dto s" "api_ok M s" "fresh_draws M dr s"
  shows "\<exists>A. A \<noteq> B \<and> leaves A B s s'"
  by (rule handled[OF assms(1)[unfolded WebhookController_CreateSubscription_def scope_guard.simps(3)[symmetric]] assms(2-4)])
     (auto simp: Let_def elim!: guarded_domain split: prod.splits option.splits if_splits intro!: passed_audit,
      auto intro: leaves_passed intro!: subscription_leaves exI)

lemma DisableSubscription_isolated:
  assumes "WebhookController_DisableSubscription env dr dto s = (out, s')" "stranger B dr dto s" "api_ok M s" "fresh_draws M dr s"
  shows "\<exists>A. A \<noteq> B \<and> leaves A B s s'"
  by (rule handled[OF assms(1)[unfolded WebhookController_DisableSubscription_def scope_guard.simps(3)[symmetric]] assms(2-4)])
     (auto elim!: guarded_domain split: prod.splits option.splits if_splits intro: leaves_passed,
      (rule passed_audit, assumption | erule (1) subscription_leaves, blast)+)

lemma RedriveAttempt_isolated:
  assumes "WebhookController_RedriveAttempt env dr dto s = (out, s')" "stranger B dr dto s" "api_ok M s" "fresh_draws M dr s"
  shows "\<exists>A. A \<noteq> B \<and> leaves A B s s'"
  by (rule handled[OF assms(1)[unfolded WebhookController_RedriveAttempt_def scope_guard.simps(3)[symmetric]] assms(2-4)])
     (auto elim!: guarded_domain split: prod.splits option.splits if_splits intro: leaves_passed,
      (rule passed_audit, assumption | erule (3) redrive_leaves)+)

lemma Erase_isolated:
  assumes "DataController_Delete env dr dto s = (out, s')" "stranger B dr dto s" "api_ok M s" "fresh_draws M dr s"
  shows "\<exists>A. A \<noteq> B \<and> leaves A B s s'"
  by (rule handled[OF assms(1)[unfolded DataController_Delete_def scope_guard.simps(3)[symmetric]] assms(2-4)])
     (auto split: prod.splits option.splits sum.splits if_splits intro: leaves_passed passed_audit erase_leaves)

lemma Send_isolated:
  assumes "MessageController_Send env dr dto s = (out, s')" "stranger B dr dto s" "api_ok M s" "fresh_draws M dr s"
  shows "\<exists>A. A \<noteq> B \<and> leaves A B s s'"
  by (rule handled[OF assms(1)[unfolded MessageController_Send_def scope_guard.simps(2)[symmetric]] assms(2-4)])
     (auto simp: Let_def split: prod.splits option.splits sum.splits intro: leaves_passed leaves_limiter passed_audit send_leaves send_fires)

lemma CreateAccount_isolated:
  assumes "AccountController_CreateAccount env dr dto s = (out, s')" "stranger B dr dto s" "api_ok M s" "fresh_draws M dr s"
  shows "\<exists>A. A \<noteq> B \<and> leaves A B s s'"
  by (rule handled[OF assms(1)[unfolded AccountController_CreateAccount_def scope_guard.simps(1)[symmetric]] assms(2-4)])
     (auto simp: passed_def)

lemma ListAccounts_isolated:
  assumes "AccountController_ListAccounts env dr dto s = (out, s')" "stranger B dr dto s" "api_ok M s" "fresh_draws M dr s"
  shows "\<exists>A. A \<noteq> B \<and> leaves A B s s'"
  by (rule handled[OF assms(1)[unfolded AccountController_ListAccounts_def scope_guard.simps(1)[symmetric]] assms(2-4)])
     (auto simp: passed_def)

lemma ListVhosts_isolated:
  assumes "VhostController_ListVhosts env dr dto s = (out, s')" "stranger B dr dto s" "api_ok M s" "fresh_draws M dr s"
  shows "\<exists>A. A \<noteq> B \<and> leaves A B s s'"
  by (rule handled[OF assms(1)[unfolded VhostController_ListVhosts_def scope_guard.simps(1)[symmetric]] assms(2-4)])
     (auto simp: passed_def)

lemma GetAccount_isolated:
  assumes "AccountController_GetAccount env dr dto s = (out, s')" "stranger B dr dto s" "api_ok M s" "fresh_draws M dr s"
  shows "\<exists>A. A \<noteq> B \<and> leaves A B s s'"
  by (rule handled[OF assms(1)[unfolded AccountController_GetAccount_def scope_guard.simps(2)[symmetric]] assms(2-4)])
     (auto split: prod.splits option.splits sum.splits if_splits intro: leaves_passed passed_audit)

lemma AccountEntries_isolated:
  assumes "AccountController_ListEntries env dr dto s = (out, s')" "stranger B dr dto s" "api_ok M s" "fresh_draws M dr s"
  shows "\<exists>A. A \<noteq> B \<and> leaves A B s s'"
  by (rule handled[OF assms(1)[unfolded AccountController_ListEntries_def scope_guard.simps(2)[symmetric]] assms(2-4)])
     (auto simp: audit_response_def split: sum.splits intro: leaves_passed)

lemma VhostEntries_isolated:
  assumes "AuditController_ListEntries env dr dto s = (out, s')" "stranger B dr dto s" "api_ok M s" "fresh_draws M dr s"
  shows "\<exists>A. A \<noteq> B \<and> leaves A B s s'"
  by (rule handled[OF assms(1)[unfolded AuditController_ListEntries_def scope_guard.simps(3)[symmetric]] assms(2-4)])
     (auto simp: audit_response_def split: sum.splits intro: leaves_passed)

lemma GetVhost_isolated:
  assumes "VhostController_GetVhost env dr dto s = (out, s')" "stranger B dr dto s" "api_ok M s" "fresh_draws M dr s"
  shows "\<exists>A. A \<noteq> B \<and> leaves A B s s'"
  by (rule handled[OF assms(1)[unfolded VhostController_GetVhost_def scope_guard.simps(3)[symmetric]] assms(2-4)])
     (auto split: prod.splits option.splits sum.splits if_splits intro: leaves_passed passed_audit)

lemma ListMailboxes_isolated:
  assumes "VhostController_ListMailboxes env dr dto s = (out, s')" "stranger B dr dto s" "api_ok M s" "fresh_draws M dr s"
  shows "\<exists>A. A \<noteq> B \<and> leaves A B s s'"
  by (rule handled[OF assms(1)[unfolded VhostController_ListMailboxes_def scope_guard.simps(3)[symmetric]] assms(2-4)])
     (auto split: prod.splits option.splits sum.splits if_splits intro: leaves_passed passed_audit)

lemma GetMailbox_isolated:
  assumes "VhostController_GetMailbox env dr dto s = (out, s')" "stranger B dr dto s" "api_ok M s" "fresh_draws M dr s"
  shows "\<exists>A. A \<noteq> B \<and> leaves A B s s'"
  by (rule handled[OF assms(1)[unfolded VhostController_GetMailbox_def scope_guard.simps(3)[symmetric]] assms(2-4)])
     (auto split: prod.splits option.splits sum.splits if_splits intro: leaves_passed passed_audit)

lemma ListTokens_isolated:
  assumes "TokenController_ListTokens env dr dto s = (out, s')" "stranger B dr dto s" "api_ok M s" "fresh_draws M dr s"
  shows "\<exists>A. A \<noteq> B \<and> leaves A B s s'"
  by (rule handled[OF assms(1)[unfolded TokenController_ListTokens_def scope_guard.simps(2)[symmetric]] assms(2-4)])
     (auto split: prod.splits option.splits sum.splits if_splits intro: leaves_passed passed_audit)

lemma ListSubscriptions_isolated:
  assumes "WebhookController_ListSubscriptions env dr dto s = (out, s')" "stranger B dr dto s" "api_ok M s" "fresh_draws M dr s"
  shows "\<exists>A. A \<noteq> B \<and> leaves A B s s'"
  by (rule handled[OF assms(1)[unfolded WebhookController_ListSubscriptions_def scope_guard.simps(3)[symmetric]] assms(2-4)])
     (auto elim!: guarded_domain split: sum.splits intro: leaves_passed)

lemma ListAttempts_isolated:
  assumes "WebhookController_ListAttempts env dr dto s = (out, s')" "stranger B dr dto s" "api_ok M s" "fresh_draws M dr s"
  shows "\<exists>A. A \<noteq> B \<and> leaves A B s s'"
  by (rule handled[OF assms(1)[unfolded WebhookController_ListAttempts_def scope_guard.simps(3)[symmetric]] assms(2-4)])
     (auto elim!: guarded_domain split: sum.splits intro: leaves_passed)

lemma Export_isolated:
  assumes "DataController_Export env dr dto s = (out, s')" "stranger B dr dto s" "api_ok M s" "fresh_draws M dr s"
  shows "\<exists>A. A \<noteq> B \<and> leaves A B s s'"
  by (rule handled[OF assms(1)[unfolded DataController_Export_def scope_guard.simps(3)[symmetric]] assms(2-4)])
     (auto split: prod.splits option.splits sum.splits if_splits intro: leaves_passed passed_audit)

lemmas handlers_isolated = CreateAccount_isolated ListAccounts_isolated GetAccount_isolated AccountEntries_isolated CreateVhost_isolated
  ListVhosts_isolated GetVhost_isolated DeactivateVhost_isolated UpdateVhostPolicy_isolated CreateMailbox_isolated
  ListMailboxes_isolated GetMailbox_isolated DeleteMailbox_isolated CreateSubscription_isolated ListSubscriptions_isolated
  DisableSubscription_isolated ListAttempts_isolated RedriveAttempt_isolated CreateToken_isolated ListTokens_isolated
  RevokeToken_isolated VhostEntries_isolated Export_isolated Erase_isolated Send_isolated

lemma stranger_truncate [simp]: "stranger B dr (dto.truncate d) s = stranger B dr d s"
  by (simp add: stranger_def)

lemma route_leaves:
  assumes "api_handle env dr req s = (out, s')" "stranger B dr (request_dto req) s" "api_ok M s" "fresh_draws M dr s"
  shows "\<exists>A. A \<noteq> B \<and> leaves A B s s'"
  using assms(1,2) by (cases req) (simp_all, (erule (1) handlers_isolated[OF _ _ assms(3,4)])+)

lemma stranger_token:
  assumes "am_tokens_ok M (as_tokens s)"
    "\<And>raw. bearerToken (Authorization dto) = Some raw \<Longrightarrow> ae_admin env \<noteq> Some raw
       \<and> (\<forall>k tok. am_issued M (as_tokens s) k = Some (tok, HashToken (ae_sha256 env) raw) \<longrightarrow> tok_AccountID tok \<noteq> B)"
  shows "stranger B dr dto s"
  unfolding stranger_def
proof (intro allI impI)
  fix ac :: auth_context
  assume "identity env dr (Authorization dto) (as_tokens s) ac"
  then obtain raw where r: "bearerToken (Authorization dto) = Some raw"
    "if ac_IsAdmin ac then ae_admin env = Some raw
     else \<exists>tok. tk_Authenticate (ae_tokens env) None (ad_seed dr) (HashToken (ae_sha256 env) raw) (as_tokens s) = Inr (Some tok)
            \<and> ac_AccountID ac = tok_AccountID tok" unfolding identity_def by blast
  then have n: "\<not> ac_IsAdmin ac" using assms(2) by auto
  then obtain t where t: "tk_Authenticate (ae_tokens env) None (ad_seed dr) (HashToken (ae_sha256 env) raw) (as_tokens s) = Inr (Some t)"
    "ac_AccountID ac = tok_AccountID t" using r(2) by auto
  show "\<not> ac_IsAdmin ac \<and> ac_AccountID ac \<noteq> B"
    using n t(2) tokens.auth_some[OF tok assms(1) t(1)] assms(2)[OF r(1)] by simp
qed

end

text \<open>
  C3: Tenant isolation. Whatever a request of any of the 25 routes says, if it carries neither the
  bootstrap admin token nor a token issued to account \<open>B\<close>, then \<open>B\<close> sees exactly what it saw: its vhosts
  with their policies, their mailboxes and DKIM keys, its tokens, and the webhook subscriptions,
  stored messages, outbound jobs and queued events of its domains are unchanged, none is added and
  none removed. The invariants of all stores hold afterwards, the audit log has only grown, and what
  was added names another account as the actor.
\<close>

theorem api_tenant_isolation:
  fixes env :: "('d, 't, 'u, 'w, 'l, 's, 'q, 'h) api_env" and M :: "('d, 't, 'u, 'w, 's, 'q, 'h) api_model"
  assumes "api_providers env M" and "api_ok M s" and "fresh_draws M dr s"
    and "\<And>raw. bearerToken (Authorization (request_dto req)) = Some raw \<Longrightarrow> ae_admin env \<noteq> Some raw
       \<and> (\<forall>k tok. am_issued M (as_tokens s) k = Some (tok, HashToken (ae_sha256 env) raw) \<longrightarrow> tok_AccountID tok \<noteq> B)"
    and "api_handle env dr req s = (out, s')"
  shows "tenant_view M B s' = tenant_view M B s \<and> api_ok M s' \<and> am_log M (as_audit s) \<subseteq> am_log M (as_audit s')
    \<and> (\<forall>e \<in> am_log M (as_audit s') - am_log M (as_audit s). \<exists>A. A \<noteq> B \<and> ae_Actor e = ''account:'' @ A)"
proof -
  have "am_tokens_ok M (as_tokens s)" using assms(2) by (simp add: api_ok_def)
  from api_providers.stranger_token[OF assms(1) this assms(4)] obtain A where "A \<noteq> B" "api_providers.leaves M A B s s'"
    using api_providers.route_leaves[OF assms(1,5) _ assms(2,3)] by blast
  then show ?thesis unfolding api_providers.leaves_def[OF assms(1)] by blast
qed

subsection \<open>Two tenants\<close>

definition two_vhosts :: "vhost_row list" where
  "two_vhosts = [zero_vhost_row\<lparr>vr_Id := ''va'', vr_AccountID := ''acc'', vr_Domain := ''a.test'', vr_Active := True\<rparr>,
     zero_vhost_row\<lparr>vr_Id := ''vb'', vr_AccountID := ''bob'', vr_Domain := ''b.test'', vr_Active := True\<rparr>]"

definition two_boxes :: "mailbox_row list" where
  "two_boxes = [\<lparr>mr_Id = ''m1'', mr_VhostID = ''va'', mr_LocalPart = ''alice'', mr_PasswordHash = []\<rparr>,
     \<lparr>mr_Id = ''m2'', mr_VhostID = ''vb'', mr_LocalPart = ''carol'', mr_PasswordHash = []\<rparr>]"

definition two_tenants :: "(tenants_db, token_memory, audit_memory, memory_store, unit, message_row list_table,
    memory_backend, memory_event_queue \<times> nat) api_state" where
  "two_tenants = \<lparr>as_dir = \<lparr>db_accounts = (), db_vhosts = \<lparr>lt_rows = two_vhosts, lt_used = [''va'', ''vb'']\<rparr>,
       db_dkim_keys = empty_table, db_mailboxes = \<lparr>lt_rows = two_boxes, lt_used = [''m1'', ''m2'']\<rparr>\<rparr>,
     as_tokens = as_tokens demo_api_state, as_audit = [], as_webhooks = NewMemoryStore, as_limiter = (),
     as_store = empty_table, as_queue = NewMemoryBackend, as_hooks = (NewMemoryEventQueue, 0)\<rparr>"

definition tenants_api :: "(tenants_db, token_memory, audit_memory, memory_store, unit, message_row list_table,
    memory_backend, memory_event_queue \<times> nat) api_env" where
  "tenants_api = \<lparr>ae_dir = Service_api tenants_env, ae_tokens = token_memory_ops, ae_admin = Some ''root'', ae_rateLimit = None,
     ae_audit = audit_memory_ops, ae_webhooks = MemoryStore_ops,
     ae_redrive = Some (Some (\<lambda>vhost i e w. Dispatcher_Redrive MemoryStore_ops MemoryEventQueue_ops demo_uuid None [] 0 0 vhost i e w)),
     ae_store = Backend_ops (list_table_ops msr_Id message_row_fill (\<lambda>_ _. False) message_row_norm),
     ae_queue = MemoryBackend_ops,
     ae_enqueuer = Some (\<lambda>w ctx vhost et payload. Dispatcher_Enqueue MemoryStore_ops MemoryEventQueue_ops demo_uuid ctx [] 0 0 vhost et payload w),
     ae_quota = None, ae_sha256 = (\<lambda>b. b), ae_pkix = (\<lambda>k. Inr k), ae_sign = (\<lambda>d sel key b. Inr (''sig'' @ b)),
     ae_payload = (\<lambda>d x. Inr []), ae_parse_from = (\<lambda>a. Inr a)\<rparr>"

definition tenants_model :: "(tenants_db, token_memory, audit_memory, memory_store, message_row list_table,
    memory_backend, memory_event_queue \<times> nat) api_model" where
  "tenants_model = \<lparr>am_dir_ok = tdir.dir_ok, am_vhosts = (\<lambda>d. lt_look vr_Id (db_vhosts d)),
     am_boxes = (\<lambda>d. lt_look mr_Id (db_mailboxes d)), am_keys = (\<lambda>d. lt_look dk_Id (db_dkim_keys d)), am_accounts = (\<lambda>_ _. None),
     am_tokens_ok = tokmem_inv, am_issued = tokmem_issued, am_hooks_ok = ms_inv, am_subs = (\<lambda>m. map_of (ms_subscriptions m)),
     am_store_ok = lt_ok msr_Id (\<lambda>_ _. False) message_row_norm, am_holds = pg_holds (lt_look msr_Id),
     am_queue_ok = mq_inv job_ID, am_pending = mq_pending, am_audit_ok = (\<lambda>_. True), am_log = set, am_kept = (\<lambda>t. t),
     am_events_ok = mvh.fresh_from, am_events = (\<lambda>h. mq_pending (fst h))\<rparr>"

interpretation tapi: api_providers tenants_api tenants_model
proof (rule api_providers.intro, goal_cases)
  case 1 show ?case using tdir.tds.tenant_directory_axioms by (simp add: tenants_api_def tenants_model_def)
next
  case 2 show ?case using mtk.tokens_axioms by (simp add: tenants_api_def tenants_model_def)
next
  case 3 show ?case using mws.webhook_subs_axioms by (simp add: tenants_api_def tenants_model_def)
next
  case 4 show ?case using mdb.pgs.vhost_store_axioms by (simp add: tenants_api_def tenants_model_def)
next
  case 5 show ?case using mvq.vq.vhost_queue_axioms by (simp add: tenants_api_def tenants_model_def)
next
  case 6 show ?case using mau.audit_log_axioms by (simp add: tenants_api_def tenants_model_def)
next
  case 7 show ?case using mvh.hk.vhost_hooks_axioms[of "[]" 0 0] by (auto simp: tenants_api_def tenants_model_def)
qed

definition drop_own :: api_request where
  "drop_own = DeleteMailboxById \<lparr>Authorization = ''Bearer key'', ClientIP = [], dmd_VhostID = ''va'', dmd_ID = ''m1''\<rparr>"

lemma drop_own_done:
  "fst (api_handle tenants_api demo_api_draws drop_own two_tenants) = Success ''mailbox deleted'' NoData"
  "lt_look mr_Id (db_mailboxes (as_dir (snd (api_handle tenants_api demo_api_draws drop_own two_tenants)))) ''m1'' = None"
  by code_simp+

lemma two_tenants_ok: "api_ok tenants_model two_tenants" "fresh_draws tenants_model demo_api_draws two_tenants"
proof -
  have "tdir.dir_ok (as_dir two_tenants)"
    unfolding tdir.dir_ok_def
    by (auto simp: two_tenants_def demo_vhosts_ok_def demo_dkim_ok_def lt_ok_def empty_table_def two_vhosts_def
        two_boxes_def same_mailbox_def)
  then show "api_ok tenants_model two_tenants"
    by (simp add: api_ok_def tenants_model_def two_tenants_def tokmem_inv_def demo_api_state_def ms_inv_def NewMemoryStore_def
        lt_ok_def empty_table_def mb.init_inv mvh.fresh_from_def meq.init_inv meq.init_empty)
  show "fresh_draws tenants_model demo_api_draws two_tenants"
    by (simp add: fresh_draws_def tenants_model_def two_tenants_def demo_api_draws_def demo_api_state_def tokmem_issued_def
        NewMemoryStore_def mb.init_empty)
qed

theorem api_tenant_isolation_witness:
  "\<exists>s'. api_handle tenants_api demo_api_draws drop_own two_tenants = (Success ''mailbox deleted'' NoData, s')
     \<and> lt_look mr_Id (db_mailboxes (as_dir s')) ''m1'' = None
     \<and> tenant_view tenants_model ''bob'' s' = tenant_view tenants_model ''bob'' two_tenants
     \<and> tn_boxes (tenant_view tenants_model ''bob'' s') ''m2'' \<noteq> None"
proof -
  obtain out s' where h: "api_handle tenants_api demo_api_draws drop_own two_tenants = (out, s')" by fastforce
  have "tenant_view tenants_model ''bob'' s' = tenant_view tenants_model ''bob'' two_tenants"
  proof (rule api_tenant_isolation[OF tapi.api_providers_axioms two_tenants_ok _ h, THEN conjunct1], goal_cases)
    case (1 raw)
    then have "raw = ''key''" by (simp add: drop_own_def demo_bearer)
    then show ?case
      by (auto simp: tenants_api_def tenants_model_def tokmem_issued_def two_tenants_def demo_api_state_def HashToken_def split: if_splits)
  qed
  moreover have "tn_boxes (tenant_view tenants_model ''bob'' two_tenants) ''m2'' \<noteq> None"
    by (auto simp: tenant_view_def Let_def keep_def own_vhosts_def tenants_model_def two_tenants_def two_vhosts_def two_boxes_def lt_look_def
        zero_vhost_row_def)
  ultimately show ?thesis using h drop_own_done by auto
qed

end
