(* ===== verification/Deliverer_Drain.thy ===== *)
theory Deliverer_Drain
  imports Deliverer
begin

section \<open>The outbound queue drains\<close>

text \<open>
  Progress of \<open>Deliverer.Run\<close>. \<open>work_step\<close> are the steps of the workers while nothing is cancelled:
  a goroutine takes a due job, gets a slot of the domain, or finishes \<open>handle\<close>, whatever the
  network answers. Every step uses up part of \<open>work\<close>, and while a job is queued some step is
  possible, so every run that does not stop while it can move empties the queue.
\<close>

inductive work_step :: "(job, 'q) queue_ops \<Rightarrow> 'd directory_ops \<Rightarrow> 'd \<Rightarrow> 's store_ops \<Rightarrow> deliver_config
    \<Rightarrow> ('q, 's, 'h) run_state \<Rightarrow> ('q, 's, 'h) run_state \<Rightarrow> bool"
  for ops dirops dir store cfg where
  work_spawn: "rs_go r g = GIdle \<Longrightarrow>
    q_Dequeue ops None now seed (ds_queue (rs_state r)) = (Inr (Some j), q') \<Longrightarrow>
    work_step ops dirops dir store cfg r
      (r\<lparr>rs_state := (rs_state r)\<lparr>ds_queue := q'\<rparr>, rs_go := (rs_go r)(g := GWait j)\<rparr>)"
| work_acquire: "rs_go r g = GWait j \<Longrightarrow> acquire (destinationDomain (job_To j)) (rs_sem r) = Some s' \<Longrightarrow>
    work_step ops dirops dir store cfg r (r\<lparr>rs_sem := s', rs_go := (rs_go r)(g := GSend j)\<rparr>)"
| work_handle: "rs_go r g = GSend j \<Longrightarrow> de_ctx env = None \<Longrightarrow> rand_ok (de_rand env) \<Longrightarrow>
    handle ops dirops dir store cfg env j (rs_state r) = Some d' \<Longrightarrow>
    work_step ops dirops dir store cfg r
      (r\<lparr>rs_state := d', rs_sem := release (destinationDomain (job_To j)) (rs_sem r),
         rs_go := (rs_go r)(g := GIdle)\<rparr>)"

lemma work_run_step: "work_step ops dirops dir store cfg r r' \<Longrightarrow> run_step ops dirops dir store cfg pending r r'"
  by (induction rule: work_step.induct) (auto intro: run_step.intros)

text \<open>The states such workers reach while jobs arrive.\<close>

inductive live_reachable :: "(job, 'q) queue_ops \<Rightarrow> 'd directory_ops \<Rightarrow> 'd \<Rightarrow> 's store_ops \<Rightarrow> deliver_config
    \<Rightarrow> ('q \<Rightarrow> string \<Rightarrow> job option) \<Rightarrow> ('q, 's, 'h) deliver_state \<Rightarrow> ('q, 's, 'h) run_state \<Rightarrow> bool"
  for ops dirops dir store cfg pending d0 where
  live_init: "live_reachable ops dirops dir store cfg pending d0
    \<lparr>rs_state = d0, rs_sem = newDomainSemaphores (dc_PerDomainConcurrency cfg), rs_go = (\<lambda>_. GIdle)\<rparr>"
| live_enqueue: "live_reachable ops dirops dir store cfg pending d0 r \<Longrightarrow> job_Attempts j = 0 \<Longrightarrow>
    pending (ds_queue (rs_state r)) (job_ID j) = None \<Longrightarrow>
    q_Enqueue ops ctx j (ds_queue (rs_state r)) = (e, q') \<Longrightarrow>
    live_reachable ops dirops dir store cfg pending d0 (r\<lparr>rs_state := (rs_state r)\<lparr>ds_queue := q'\<rparr>\<rparr>)"
| live_work: "live_reachable ops dirops dir store cfg pending d0 r \<Longrightarrow> work_step ops dirops dir store cfg r r' \<Longrightarrow>
    live_reachable ops dirops dir store cfg pending d0 r'"

lemma live_run_reachable:
  "live_reachable ops dirops dir store cfg pending d0 r \<Longrightarrow> run_reachable ops dirops dir store cfg pending d0 r"
proof (induction rule: live_reachable.induct)
  case live_init
  show ?case by (rule run_init)
next
  case (live_enqueue r j ctx e q')
  show ?case by (rule run_next[OF live_enqueue.IH], rule run_enqueue) (use live_enqueue in auto)
next
  case (live_work r r')
  show ?case by (rule run_next[OF live_work.IH work_run_step[OF live_work(2)]])
qed

subsection \<open>The work left\<close>

definition remaining :: "deliver_config \<Rightarrow> job \<Rightarrow> nat" where
  "remaining cfg j = nat (max 1 (dc_MaxAttempts cfg - job_Attempts j))"

definition stage :: "(nat \<Rightarrow> goroutine) \<Rightarrow> string \<Rightarrow> nat" where
  "stage go k = (if \<exists>g j. go g = GSend j \<and> job_ID j = k then 2 else if \<exists>g j. go g = GWait j \<and> job_ID j = k then 1 else 0)"

definition job_work :: "deliver_config \<Rightarrow> (nat \<Rightarrow> goroutine) \<Rightarrow> (string \<Rightarrow> job option) \<Rightarrow> string \<Rightarrow> nat" where
  "job_work cfg go p k = (case p k of None \<Rightarrow> 0 | Some j \<Rightarrow> 3 * remaining cfg j - stage go k)"

definition work :: "deliver_config \<Rightarrow> ('q \<Rightarrow> string \<Rightarrow> job option) \<Rightarrow> ('q, 's, 'h) run_state \<Rightarrow> nat" where
  "work cfg pending r = (\<Sum>k \<in> dom (pending (ds_queue (rs_state r))). job_work cfg (rs_go r) (pending (ds_queue (rs_state r))) k)"

lemma remaining_pos: "0 < remaining cfg j"
  by (simp add: remaining_def)

lemma stage_le: "stage go k \<le> 2"
  by (simp add: stage_def)

lemma sum_drop:
  fixes f :: "'a \<Rightarrow> nat"
  assumes "finite D" "k \<in> D" "D' \<subseteq> D" "\<And>x. x \<in> D' \<Longrightarrow> x \<noteq> k \<Longrightarrow> f' x \<le> f x" "k \<in> D' \<Longrightarrow> f' k < f k" "0 < f k"
  shows "sum f' D' < sum f D"
proof -
  have "sum f' D' \<le> sum f' (D' - {k}) + (if k \<in> D' then f' k else 0)"
    using assms(1,3) by (auto simp: sum.remove finite_subset)
  also have "\<dots> < sum f' (D' - {k}) + f k" using assms(5,6) by auto
  also have "\<dots> \<le> sum f (D' - {k}) + f k" using assms(4) by (intro add_right_mono sum_mono) auto
  also have "\<dots> \<le> sum f (D - {k}) + f k" using assms(1,3) by (intro add_right_mono sum_mono2) auto
  also have "\<dots> = sum f D" using assms(1,2) by (simp add: sum.remove add.commute)
  finally show ?thesis .
qed

lemma stage_other:
  assumes "\<And>j. go g \<noteq> GIdle \<Longrightarrow> held_of go g = Some j \<Longrightarrow> job_ID j \<noteq> k" "\<And>j. held_of (go(g := x)) g = Some j \<Longrightarrow> job_ID j \<noteq> k"
  shows "stage (go(g := x)) k = stage go k"
proof -
  have 1: "job_ID j \<noteq> k" if "go g = GSend j \<or> go g = GWait j" for j using assms(1)[of j] that by (auto simp: held_of_def)
  have 2: "job_ID j \<noteq> k" if "x = GSend j \<or> x = GWait j" for j using assms(2)[of j] that by (auto simp: held_of_def)
  have "(\<exists>h j. (go(g := x)) h = GSend j \<and> job_ID j = k) \<longleftrightarrow> (\<exists>h j. go h = GSend j \<and> job_ID j = k)"
    using 1 2 by (metis fun_upd_apply)
  moreover have "(\<exists>h j. (go(g := x)) h = GWait j \<and> job_ID j = k) \<longleftrightarrow> (\<exists>h j. go h = GWait j \<and> job_ID j = k)"
    using 1 2 by (metis fun_upd_apply)
  ultimately show ?thesis unfolding stage_def by presburger
qed

subsection \<open>Progress\<close>

locale finite_queue = outbound_queue ops init pending claims inv
  for ops :: "(job, 'q) queue_ops" and init pending claims inv +
  assumes fin_pending: "inv q \<Longrightarrow> finite (dom (pending q))"
begin

text \<open>While nothing is cancelled every claimed job is in the hands of a goroutine.\<close>

definition no_orphans :: "('q, 's, 'h) run_state \<Rightarrow> bool" where
  "no_orphans r \<longleftrightarrow> (\<forall>k. claims (ds_queue (rs_state r)) k \<longrightarrow> (\<exists>g j. held_of (rs_go r) g = Some j \<and> job_ID j = k))"

definition live_ok :: "deliver_config \<Rightarrow> ('q, 's, 'h) run_state \<Rightarrow> bool" where
  "live_ok cfg r \<longleftrightarrow> retry_ok job_Attempts (dc_MaxAttempts cfg) (ds_queue (rs_state r), held_of (rs_go r))
     \<and> sem_inv cfg r \<and> no_orphans r"

lemma held_cases:
  assumes "live_ok cfg r" "rs_go r g = GWait j \<or> rs_go r g = GSend j"
  shows "pending (ds_queue (rs_state r)) (job_ID j) = Some j" "inv (ds_queue (rs_state r))"
    "claims (ds_queue (rs_state r)) (job_ID j)"
    "\<And>h i. held_of (rs_go r) h = Some i \<Longrightarrow> job_ID i = job_ID j \<Longrightarrow> h = g"
proof -
  have h: "held_of (rs_go r) g = Some j" using assms(2) by (auto simp: held_of_def)
  show "pending (ds_queue (rs_state r)) (job_ID j) = Some j" "inv (ds_queue (rs_state r))"
    "claims (ds_queue (rs_state r)) (job_ID j)" using assms(1) h by (auto simp: live_ok_def retry_ok_def excl_def)
  show "\<And>h i. held_of (rs_go r) h = Some i \<Longrightarrow> job_ID i = job_ID j \<Longrightarrow> h = g"
    using assms(1) h unfolding live_ok_def retry_ok_def excl_def by (metis fst_conv snd_conv)
qed

text \<open>What a finished \<open>handle\<close> did to the queue.\<close>

lemma handle_done:
  assumes "live_ok cfg r" "rs_go r g = GSend j" "de_ctx env = None"
    "handle ops dirops dir store cfg env j (rs_state r) = Some d'"
  shows "claims (ds_queue d') = (claims (ds_queue (rs_state r)))(job_ID j := False)"
    "pending (ds_queue d') = (pending (ds_queue (rs_state r)))(job_ID j := None)
      \<or> (\<exists>j'. pending (ds_queue d') = (pending (ds_queue (rs_state r)))(job_ID j \<mapsto> j') \<and> remaining cfg j' < remaining cfg j)"
proof -
  let ?q = "ds_queue (rs_state r)"
  note h = held_cases[OF assms(1) disjI2[OF assms(2)]]
  have "claims (ds_queue d') = (claims ?q)(job_ID j := False)
    \<and> (pending (ds_queue d') = (pending ?q)(job_ID j := None)
       \<or> (\<exists>j'. pending (ds_queue d') = (pending ?q)(job_ID j \<mapsto> j') \<and> remaining cfg j' < remaining cfg j))"
    using handle_queue[OF assms(4)]
  proof (elim disjE conjE exE)
    assume c: "ds_queue d' = snd (q_Complete ops (de_ctx env) (job_ID j) ?q)"
    have "fst (q_Complete ops None (job_ID j) ?q) = None" using comp_accepts h(1) by simp
    then have "q_Complete ops None (job_ID j) ?q = (None, ds_queue d')" using c assms(3) by (metis prod.collapse)
    from comp_ok[OF h(2) this] show ?thesis by simp
  next
    fix cause "next"
    assume f: "ds_queue d' = snd (q_Fail ops (de_ctx env) (job_ID j) cause next ?q)" and m: "job_Attempts j + 1 < dc_MaxAttempts cfg"
    have "fst (q_Fail ops None (job_ID j) cause next ?q) = None" using fail_accepts h(1) by simp
    then have "q_Fail ops None (job_ID j) cause next ?q = (None, ds_queue d')" using f assms(3) by (metis prod.collapse)
    from fail_ok[OF h(2) this] h(1) have "claims (ds_queue d') = (claims ?q)(job_ID j := False)"
      "pending (ds_queue d') = (pending ?q)(job_ID j \<mapsto> job_retry j cause next)" by auto
    moreover have "remaining cfg (job_retry j cause next) < remaining cfg j" using m by (simp add: remaining_def)
    ultimately show ?thesis by blast
  qed
  then show "claims (ds_queue d') = (claims ?q)(job_ID j := False)"
    "pending (ds_queue d') = (pending ?q)(job_ID j := None)
      \<or> (\<exists>j'. pending (ds_queue d') = (pending ?q)(job_ID j \<mapsto> j') \<and> remaining cfg j' < remaining cfg j)" by blast+
qed

lemma retry_ok_run:
  assumes "run_step ops dirops dir store cfg pending r r'"
    "retry_ok job_Attempts (dc_MaxAttempts cfg) (ds_queue (rs_state r), held_of (rs_go r))"
  shows "retry_ok job_Attempts (dc_MaxAttempts cfg) (ds_queue (rs_state r'), held_of (rs_go r'))"
  using run_retry_step[OF assms(1)] retry_ok_step[OF _ assms(2)] assms(2) by auto

lemma no_orphans_work:
  assumes "work_step ops dirops dir store cfg r r'" "live_ok cfg r"
  shows "no_orphans r'"
  using assms(1)
proof (cases rule: work_step.cases)
  case (work_spawn g now seed j q')
  have "inv (ds_queue (rs_state r))" using assms(2) by (simp add: live_ok_def retry_ok_def excl_def)
  from deq_some[OF this work_spawn(3)] have c: "claims q' = (claims (ds_queue (rs_state r)))(job_ID j := True)" by blast
  have "\<exists>h i. held_of ((rs_go r)(g := GWait j)) h = Some i \<and> job_ID i = k" if k: "claims q' k" for k
  proof (cases "k = job_ID j")
    case False
    then obtain h i where "held_of (rs_go r) h = Some i" "job_ID i = k" "h \<noteq> g"
      using k c assms(2) work_spawn(2) by (fastforce simp: live_ok_def no_orphans_def held_of_def)
    then show ?thesis by (intro exI[of _ h] exI[of _ i]) (simp add: held_of_def)
  qed (auto intro!: exI[of _ g])
  then show ?thesis using work_spawn(1) by (simp add: no_orphans_def)
next
  case (work_acquire g j s')
  then have "held_of ((rs_go r)(g := GSend j)) = held_of (rs_go r)" by (auto simp: held_of_def fun_eq_iff)
  then show ?thesis using assms(2) work_acquire(1) by (simp add: live_ok_def no_orphans_def)
next
  case (work_handle g j env d')
  note h = held_cases[OF assms(2) disjI2[OF work_handle(2)]] and d = handle_done[OF assms(2) work_handle(2,3,5)]
  have "\<exists>h i. held_of ((rs_go r)(g := GIdle)) h = Some i \<and> job_ID i = k" if k: "claims (ds_queue d') k" for k
  proof -
    have "claims (ds_queue (rs_state r)) k" "k \<noteq> job_ID j" using k d(1) by (auto split: if_splits)
    then obtain h i where "held_of (rs_go r) h = Some i" "job_ID i = k" "h \<noteq> g"
      using assms(2) work_handle(2) unfolding live_ok_def no_orphans_def by (fastforce simp: held_of_def)
    then show ?thesis by (intro exI[of _ h] exI[of _ i]) (simp add: held_of_def)
  qed
  then show ?thesis using work_handle(1) by (simp add: no_orphans_def)
qed

lemma live_ok_work:
  assumes "work_step ops dirops dir store cfg r r'" "live_ok cfg r"
  shows "live_ok cfg r'"
  using retry_ok_run[OF work_run_step[OF assms(1)]] sem_inv_step[OF work_run_step[OF assms(1), of pending]] no_orphans_work[OF assms] assms(2)
  by (simp add: live_ok_def)

lemma live_ok_reachable:
  assumes "live_reachable ops dirops dir store cfg pending d0 r" "ds_queue d0 = init"
  shows "live_ok cfg r"
  using assms(1)
proof (induction rule: live_reachable.induct)
  case live_init
  have "held_of (\<lambda>_. GIdle) = (\<lambda>_. None)" by (auto simp: held_of_def)
  then have "retry_ok job_Attempts (dc_MaxAttempts cfg) (ds_queue d0, held_of (\<lambda>_. GIdle))"
    using assms(2) by (simp add: retry_ok_def excl_init init_empty)
  moreover have "sem_inv cfg \<lparr>rs_state = d0, rs_sem = newDomainSemaphores (dc_PerDomainConcurrency cfg), rs_go = (\<lambda>_. GIdle)\<rparr>"
    by (rule sem_inv_reachable[OF run_init])
  ultimately show ?case using assms(2) init_empty by (simp add: live_ok_def no_orphans_def)
next
  case (live_enqueue r j ctx e q')
  have s: "run_step ops dirops dir store cfg pending r (r\<lparr>rs_state := (rs_state r)\<lparr>ds_queue := q'\<rparr>\<rparr>)"
    by (rule run_enqueue) (use live_enqueue in auto)
  have "inv (ds_queue (rs_state r))" using live_enqueue.IH by (simp add: live_ok_def retry_ok_def excl_def)
  then have "claims q' = claims (ds_queue (rs_state r))"
    using enq_ok[of "ds_queue (rs_state r)" ctx j q'] enq_err[of ctx j "ds_queue (rs_state r)" _ q'] live_enqueue(4) by (cases e) auto
  then show ?case using retry_ok_run[OF s] sem_inv_step[OF s] live_enqueue.IH by (simp add: live_ok_def no_orphans_def)
next
  case (live_work r r')
  show ?case by (rule live_ok_work[OF live_work(2) live_work.IH])
qed

lemma job_work_pos: "p k = Some j \<Longrightarrow> 0 < job_work cfg go p k"
  using remaining_pos[of cfg j] stage_le[of go k] by (simp add: job_work_def)

text \<open>Every step of the workers uses up work.\<close>

lemma work_decreases:
  assumes "work_step ops dirops dir store cfg r r'" "live_ok cfg r"
  shows "work cfg pending r' < work cfg pending r"
proof -
  let ?p = "pending (ds_queue (rs_state r))"
  have inv: "inv (ds_queue (rs_state r))" using assms(2) by (simp add: live_ok_def retry_ok_def excl_def)
  note fin = fin_pending[OF inv]
  from assms(1) show ?thesis
  proof (cases rule: work_step.cases)
    case (work_spawn g now seed j q')
    note d = deq_some[OF inv work_spawn(3)]
    have free: "\<not> (rs_go r h = GSend i \<and> job_ID i = job_ID j)" "\<not> (rs_go r h = GWait i \<and> job_ID i = job_ID j)" for h i
      using held_cases(3)[OF assms(2), of h i] d by auto
    then have s0: "stage (rs_go r) (job_ID j) = 0" by (simp add: stage_def)
    have "stage ((rs_go r)(g := GWait j)) (job_ID j) = 1"
      using free unfolding stage_def by (auto intro: exI[of _ g])
    then have "job_work cfg ((rs_go r)(g := GWait j)) ?p (job_ID j) < job_work cfg (rs_go r) ?p (job_ID j)"
      using d s0 remaining_pos[of cfg j] by (simp add: job_work_def)
    moreover have "stage ((rs_go r)(g := GWait j)) k = stage (rs_go r) k" if "k \<noteq> job_ID j" for k
      by (rule stage_other) (use that work_spawn(2) in \<open>auto simp: held_of_def\<close>)
    ultimately show ?thesis using d work_spawn(1) job_work_pos[of ?p "job_ID j" j]
      by (auto simp: work_def job_work_def intro!: sum_drop[OF fin, of "job_ID j"])
  next
    case (work_acquire g j s')
    note h = held_cases[OF assms(2) disjI1[OF work_acquire(2)]]
    have "\<not> (rs_go r k = GSend i \<and> job_ID i = job_ID j)" for k i
      using h(4)[of k i] work_acquire(2) by (auto simp: held_of_def)
    then have "stage (rs_go r) (job_ID j) = 1" using work_acquire(2) by (auto simp: stage_def)
    moreover have "stage ((rs_go r)(g := GSend j)) (job_ID j) = 2" by (auto simp: stage_def)
    ultimately have "job_work cfg ((rs_go r)(g := GSend j)) ?p (job_ID j) < job_work cfg (rs_go r) ?p (job_ID j)"
      using h(1) remaining_pos[of cfg j] by (simp add: job_work_def)
    moreover have "stage ((rs_go r)(g := GSend j)) k = stage (rs_go r) k" if "k \<noteq> job_ID j" for k
      by (rule stage_other) (use that work_acquire(2) in \<open>auto simp: held_of_def\<close>)
    ultimately show ?thesis using h(1) work_acquire(1) job_work_pos[of ?p "job_ID j" j]
      by (auto simp: work_def job_work_def intro!: sum_drop[OF fin, of "job_ID j"])
  next
    case (work_handle g j env d')
    note h = held_cases[OF assms(2) disjI2[OF work_handle(2)]] and d = handle_done(2)[OF assms(2) work_handle(2,3,5)]
    have o: "stage ((rs_go r)(g := GIdle)) k = stage (rs_go r) k" if "k \<noteq> job_ID j" for k
      by (rule stage_other) (use that work_handle(2) in \<open>auto simp: held_of_def\<close>)
    have "job_work cfg ((rs_go r)(g := GIdle)) (pending (ds_queue d')) (job_ID j) < job_work cfg (rs_go r) ?p (job_ID j)"
      using d h(1) stage_le[of "rs_go r" "job_ID j"] remaining_pos[of cfg j]
      by (auto simp: job_work_def)
    moreover have "dom (pending (ds_queue d')) \<subseteq> dom ?p" using d h(1) by (auto split: if_splits)
    moreover have "job_work cfg ((rs_go r)(g := GIdle)) (pending (ds_queue d')) k = job_work cfg (rs_go r) ?p k" if "k \<noteq> job_ID j" for k
      using o[OF that] that d by (cases "?p k") (auto simp: job_work_def)
    ultimately show ?thesis using h(1) work_handle(1) job_work_pos[of ?p "job_ID j" j]
      unfolding work_def by (auto intro!: sum_drop[OF fin, of "job_ID j"])
  qed
qed

text \<open>While a job is queued, some step is possible: \<open>handle\<close> never panics with delays in range.\<close>

definition delays_ok :: "deliver_config \<Rightarrow> bool" where
  "delays_ok cfg \<longleftrightarrow> 0 < dc_BackoffBase cfg \<and> dc_BackoffBase cfg < 2 ^ 53 \<and> 0 < dc_BackoffMax cfg \<and> dc_BackoffMax cfg < 2 ^ 53"

lemma handle_returns:
  assumes "delays_ok cfg" "rand_ok (de_rand env)"
  shows "\<exists>d'. handle ops dirops dir store cfg env j d = Some d'"
  using FullJitter_exact[of "dc_BackoffBase cfg" "dc_BackoffMax cfg" "de_rand env" "job_Attempts j"] assms
  by (auto simp: handle_def Deliverer_nextBackoff_def delays_ok_def Let_def split: option.splits)

lemma work_progress:
  fixes r :: "('q, 's, 'h) run_state"
  assumes "live_ok cfg r" "delays_ok cfg" "pending (ds_queue (rs_state r)) k \<noteq> None"
  shows "\<exists>r'. work_step ops dirops dir store cfg r r'"
proof (cases "\<exists>g j. rs_go r g = GSend j")
  case True
  then obtain g j where g: "rs_go r g = GSend j" by blast
  define env :: "'h deliver_env" where "env = undefined\<lparr>de_ctx := None, de_rand := \<lambda>_. 0\<rparr>"
  have e: "de_ctx env = None" "rand_ok (de_rand env)" by (simp_all add: env_def rand_ok_def)
  obtain d' where "handle ops dirops dir store cfg env j (rs_state r) = Some d'" using handle_returns[OF assms(2) e(2), of dirops dir store j "rs_state r"] by blast
  from work_handle[where dirops = dirops, OF g e this] show ?thesis by blast
next
  case ns: False
  show ?thesis
  proof (cases "\<exists>g j. rs_go r g = GWait j")
    case True
    then obtain g j where g: "rs_go r g = GWait j" by blast
    have "senders (rs_go r) (destinationDomain (job_To j)) = {}" using ns by (auto simp: senders_def)
    then have "acquire (destinationDomain (job_To j)) (rs_sem r) \<noteq> None"
      using assms(1) by (auto simp: live_ok_def sem_inv_def acquire_def sem_bound_def)
    then show ?thesis using work_acquire[OF g] by fastforce
  next
    case False
    have idle: "rs_go r g = GIdle" for g using False ns by (cases "rs_go r g") auto
    then have n: "\<not> claims (ds_queue (rs_state r)) k" using assms(1) by (auto simp: live_ok_def no_orphans_def held_of_def)
    obtain j where j: "pending (ds_queue (rs_state r)) k = Some j" using assms(3) by blast
    have "inv (ds_queue (rs_state r))" using assms(1) by (simp add: live_ok_def retry_ok_def excl_def)
    from deq_progress[OF this j n order_refl] obtain j' q' where
      "q_Dequeue ops None (job_NextAttemptAt j) 0 (ds_queue (rs_state r)) = (Inr (Some j'), q')" by blast
    from work_spawn[where dirops = dirops, OF idle[of 0] this] show ?thesis by blast
  qed
qed

text \<open>A run that moves whenever it can.\<close>

lemma drains:
  assumes "live_ok cfg (\<sigma> 0)" "delays_ok cfg"
    "\<And>i. work_step ops dirops dir store cfg (\<sigma> i) (\<sigma> (Suc i))
        \<or> (\<nexists>r'. work_step ops dirops dir store cfg (\<sigma> i) r')"
  shows "\<exists>n \<le> work cfg pending (\<sigma> 0). \<forall>k. pending (ds_queue (rs_state (\<sigma> n))) k = None"
  using assms
proof (induction "work cfg pending (\<sigma> 0)" arbitrary: \<sigma> rule: less_induct)
  case less
  show ?case
  proof (cases "\<forall>k. pending (ds_queue (rs_state (\<sigma> 0))) k = None")
    case False
    then have step: "work_step ops dirops dir store cfg (\<sigma> 0) (\<sigma> (Suc 0))"
      using work_progress[OF less.prems(1,2), of _ dirops dir store] less.prems(3)[of 0] by blast
    note w = work_decreases[OF step less.prems(1)]
    from less.hyps[of "\<lambda>i. \<sigma> (Suc i)"] w live_ok_work[OF step less.prems(1)] less.prems(2,3)
    obtain n where "n \<le> work cfg pending (\<sigma> (Suc 0))" "\<forall>k. pending (ds_queue (rs_state (\<sigma> (Suc n)))) k = None" by blast
    then show ?thesis using w by (intro exI[of _ "Suc n"]) auto
  qed auto
qed

lemma work_bound:
  assumes "live_ok cfg r"
  shows "work cfg pending r \<le> 3 * nat (max 1 (dc_MaxAttempts cfg)) * card (dom (pending (ds_queue (rs_state r))))"
proof -
  have "job_work cfg (rs_go r) (pending (ds_queue (rs_state r))) k \<le> 3 * nat (max 1 (dc_MaxAttempts cfg))" for k
  proof (cases "pending (ds_queue (rs_state r)) k")
    case (Some j)
    then have "0 \<le> job_Attempts j" using assms by (auto simp: live_ok_def retry_ok_def att_ok_def)
    then have "remaining cfg j \<le> nat (max 1 (dc_MaxAttempts cfg))" unfolding remaining_def by (intro nat_mono) auto
    then show ?thesis using Some by (simp add: job_work_def)
  qed (simp add: job_work_def)
  then show ?thesis unfolding work_def by (metis sum_bounded_above mult.commute of_nat_id)
qed

end

lemma mq_pending_finite: "finite (dom (mq_pending q))"
proof -
  have "mq_pending q = map_of (mq_jobs q)" by (simp add: fun_eq_iff mq_view)
  then show ?thesis by (simp add: finite_dom_map_of)
qed

interpretation mfq: finite_queue MemoryBackend_ops NewMemoryBackend mq_pending mq_claims "mq_inv job_ID"
  by unfold_locales (rule mq_pending_finite)

text \<open>
  C17: The outbound queue drains. Start \<open>Run\<close> on an empty queue, let jobs arrive and workers run in any
  interleaving without cancellation, and then let no more jobs arrive. Whatever the remote hosts
  answer from then on, every schedule of the goroutines that takes a step while one is possible
  empties the queue: after at most three steps per attempt a queued job may still have, every job
  has been delivered or bounced and removed, and no goroutine holds one.
\<close>

theorem Deliverer_Run_drains:
  fixes \<sigma> :: "nat \<Rightarrow> (job memory_queue, 's, 'h) run_state"
  assumes "live_reachable MemoryBackend_ops dirops dir store cfg mq_pending d0 (\<sigma> 0)" and "ds_queue d0 = NewMemoryBackend"
    and "0 < dc_BackoffBase cfg" "dc_BackoffBase cfg < 2 ^ 53" "0 < dc_BackoffMax cfg" "dc_BackoffMax cfg < 2 ^ 53"
    and "\<And>i. work_step MemoryBackend_ops dirops dir store cfg (\<sigma> i) (\<sigma> (Suc i))
        \<or> (\<nexists>r'. work_step MemoryBackend_ops dirops dir store cfg (\<sigma> i) r') \<and> \<sigma> (Suc i) = \<sigma> i"
  shows "\<exists>n \<le> 3 * nat (max 1 (dc_MaxAttempts cfg)) * card (dom (mq_pending (ds_queue (rs_state (\<sigma> 0))))).
    \<forall>m \<ge> n. (\<forall>k. mq_pending (ds_queue (rs_state (\<sigma> m))) k = None) \<and> (\<forall>g. rs_go (\<sigma> m) g = GIdle)"
proof -
  have ok: "mfq.live_ok cfg (\<sigma> i)" for i
  proof (induction i)
    case 0
    show ?case by (rule mfq.live_ok_reachable[OF assms(1,2)])
  next
    case (Suc i)
    then show ?case using mfq.live_ok_work[of dirops dir store cfg "\<sigma> i"] assms(7)[of i] by auto
  qed
  have stuck: "\<not> work_step MemoryBackend_ops dirops dir store cfg r r'"
    if "mfq.live_ok cfg r" "\<forall>k. mq_pending (ds_queue (rs_state r)) k = None" for r r'
    using mfq.work_decreases[OF _ that(1)] that(2) by (fastforce simp: work_def dom_def)
  have idle: "rs_go r g = GIdle" if "mfq.live_ok cfg r" "\<forall>k. mq_pending (ds_queue (rs_state r)) k = None" for r g
    using mfq.held_cases(1)[OF that(1), of g] that(2) by (cases "rs_go r g") auto
  have "mfq.delays_ok cfg" using assms(3-6) by (simp add: mfq.delays_ok_def)
  with mfq.drains[of cfg \<sigma> dirops dir store, OF ok] assms(7) obtain n where
    n: "n \<le> work cfg mq_pending (\<sigma> 0)" "\<forall>k. mq_pending (ds_queue (rs_state (\<sigma> n))) k = None" by blast
  have same: "\<sigma> m = \<sigma> n" if "m \<ge> n" for m
    using that
  proof (induction rule: dec_induct)
    case (step i)
    then show ?case using assms(7)[of i] stuck[OF ok n(2)] by auto
  qed simp
  have "n \<le> 3 * nat (max 1 (dc_MaxAttempts cfg)) * card (dom (mq_pending (ds_queue (rs_state (\<sigma> 0)))))"
    by (rule order_trans[OF n(1) mfq.work_bound[OF ok]])
  moreover have "(\<forall>k. mq_pending (ds_queue (rs_state (\<sigma> m))) k = None) \<and> (\<forall>g. rs_go (\<sigma> m) g = GIdle)" if "m \<ge> n" for m
    unfolding same[OF that] using n(2) idle[OF ok n(2)] by blast
  ultimately show ?thesis by blast
qed

definition demo_queued :: "(memory_backend, (message_ref \<times> bytes) list, unit) run_state" where
  "demo_queued = \<lparr>rs_state = demo_ds\<lparr>ds_queue := \<lparr>mq_jobs = [(''a'', demo_job ''a'' 5)], mq_claimed = []\<rparr>\<rparr>,
     rs_sem = newDomainSemaphores (dc_PerDomainConcurrency demo_cfg), rs_go = (\<lambda>_. GIdle)\<rparr>"

lemma demo_queued_live:
  "live_reachable MemoryBackend_ops memory_directory_ops memory_New demo_store_ops demo_cfg mq_pending
     (demo_ds\<lparr>ds_queue := NewMemoryBackend\<rparr>) demo_queued"
proof -
  let ?r0 = "\<lparr>rs_state = demo_ds\<lparr>ds_queue := NewMemoryBackend\<rparr>,
    rs_sem = newDomainSemaphores (dc_PerDomainConcurrency demo_cfg), rs_go = (\<lambda>_. GIdle)\<rparr>"
  have eq: "demo_queued = ?r0\<lparr>rs_state := (rs_state ?r0)\<lparr>ds_queue := \<lparr>mq_jobs = [(''a'', demo_job ''a'' 5)], mq_claimed = []\<rparr>\<rparr>\<rparr>"
    by (simp add: demo_queued_def)
  show ?thesis unfolding eq
    by (rule live_enqueue[OF live_init, where j = "demo_job ''a'' 5" and ctx = None and e = None])
      (simp_all add: demo_job_def MemoryBackend_ops_def MemoryBackend_defs mem_Enqueue_def mem_new_def mq_view)
qed

theorem Deliverer_Run_drains_witness:
  "\<exists>\<sigma> n. \<sigma> 0 = demo_queued \<and> mq_pending (ds_queue (rs_state (\<sigma> 0))) ''a'' \<noteq> None
     \<and> n \<le> 3 * nat (dc_MaxAttempts demo_cfg) \<and> mq_pending (ds_queue (rs_state (\<sigma> n))) ''a'' = None"
proof -
  let ?step = "work_step MemoryBackend_ops memory_directory_ops memory_New demo_store_ops demo_cfg"
  define \<sigma> where "\<sigma> = rec_nat demo_queued (\<lambda>_ r. if \<exists>r'. ?step r r' then SOME r'. ?step r r' else r)"
  have 0: "\<sigma> 0 = demo_queued" by (simp add: \<sigma>_def)
  have steps: "?step (\<sigma> i) (\<sigma> (Suc i)) \<or> (\<nexists>r'. ?step (\<sigma> i) r') \<and> \<sigma> (Suc i) = \<sigma> i" for i
  proof (cases "\<exists>r'. ?step (\<sigma> i) r'")
    case True
    then have "\<sigma> (Suc i) = (SOME r'. ?step (\<sigma> i) r')" unfolding \<sigma>_def nat.rec by (rule if_P)
    then show ?thesis using someI_ex[OF True] by argo
  next
    case False
    then have "\<sigma> (Suc i) = \<sigma> i" unfolding \<sigma>_def nat.rec by (rule if_not_P)
    then show ?thesis using False by blast
  qed
  have cfg: "0 < dc_BackoffBase demo_cfg" "dc_BackoffBase demo_cfg < 2 ^ 53" "0 < dc_BackoffMax demo_cfg" "dc_BackoffMax demo_cfg < 2 ^ 53"
    "max 1 (dc_MaxAttempts demo_cfg) = dc_MaxAttempts demo_cfg"
    by (simp_all add: demo_cfg_def withDefaults_def)
  have p: "mq_pending (ds_queue (rs_state demo_queued)) = [''a'' \<mapsto> demo_job ''a'' 5]"
    by (simp add: demo_queued_def mq_view fun_eq_iff)
  have "live_reachable MemoryBackend_ops memory_directory_ops memory_New demo_store_ops demo_cfg mq_pending
     (demo_ds\<lparr>ds_queue := NewMemoryBackend\<rparr>) (\<sigma> 0)" unfolding 0 by (rule demo_queued_live)
  from Deliverer_Run_drains[OF this _ cfg(1-4) steps] obtain n where
    n: "n \<le> 3 * nat (dc_MaxAttempts demo_cfg) * card (dom (mq_pending (ds_queue (rs_state (\<sigma> 0)))))"
    "\<forall>k. mq_pending (ds_queue (rs_state (\<sigma> n))) k = None" by (auto simp: cfg(5))
  then show ?thesis using 0 p by (intro exI[of _ \<sigma>] exI[of _ n]) simp
qed

end
