(* ===== verification/Wire_Text.thy ===== *)
theory Wire_Text
  imports Env_Prelude
begin

section \<open>Strings on the wire\<close>

text \<open>
  What the internal API uses of Go's standard library to move a string: \<open>encoding/json\<close>, which
  replaces every byte that is not part of a well-formed UTF-8 sequence by U+FFFD, and
  \<open>url.QueryEscape\<close> with its inverse, which keep every byte. \<open>utf8\<close> are the strings JSON keeps.
\<close>

subsection \<open>UTF-8\<close>

definition byte_in :: "nat \<Rightarrow> nat \<Rightarrow> char \<Rightarrow> bool" where
  "byte_in lo hi c \<longleftrightarrow> lo \<le> of_char c \<and> of_char c \<le> hi"

text \<open>The length of the well-formed sequence a string starts with, 0 when there is none.\<close>

fun rune_len :: "string \<Rightarrow> nat" where
  "rune_len [] = 0"
| "rune_len (a # rest) =
     (if byte_in 0 0x7F a then 1
      else case rest of [] \<Rightarrow> 0 | b # rest2 \<Rightarrow>
        if byte_in 0xC2 0xDF a \<and> byte_in 0x80 0xBF b then 2
        else case rest2 of [] \<Rightarrow> 0 | c # rest3 \<Rightarrow>
          if byte_in 0x80 0xBF c
             \<and> (byte_in 0xE0 0xE0 a \<and> byte_in 0xA0 0xBF b \<or> byte_in 0xE1 0xEC a \<and> byte_in 0x80 0xBF b
                \<or> byte_in 0xED 0xED a \<and> byte_in 0x80 0x9F b \<or> byte_in 0xEE 0xEF a \<and> byte_in 0x80 0xBF b) then 3
          else case rest3 of [] \<Rightarrow> 0 | d # rest4 \<Rightarrow>
            if byte_in 0x80 0xBF c \<and> byte_in 0x80 0xBF d
               \<and> (byte_in 0xF0 0xF0 a \<and> byte_in 0x90 0xBF b \<or> byte_in 0xF1 0xF3 a \<and> byte_in 0x80 0xBF b
                  \<or> byte_in 0xF4 0xF4 a \<and> byte_in 0x80 0x8F b) then 4
            else 0)"

definition replacement :: string where
  "replacement = [CHR 0xEF, CHR 0xBF, CHR 0xBD]"

text \<open>A string after \<open>json.Marshal\<close> and \<open>json.Unmarshal\<close>.\<close>

function json_text :: "string \<Rightarrow> string" where
  "json_text [] = []"
| "json_text (a # rest) =
     (case rune_len (a # rest) of
        0 \<Rightarrow> replacement @ json_text rest
      | Suc n \<Rightarrow> a # take n rest @ json_text (drop n rest))"
  by pat_completeness auto
termination by (relation "measure length") auto

definition utf8 :: "string \<Rightarrow> bool" where
  "utf8 s \<longleftrightarrow> json_text s = s"

lemma utf8_simps [simp]: "utf8 []" "utf8 s \<Longrightarrow> json_text s = s"
  by (simp_all add: utf8_def)

lemma json_text_ascii: "(\<forall>c \<in> set s. of_char c < (128 :: nat)) \<Longrightarrow> json_text s = s"
proof (induction s)
  case (Cons a s)
  then have "rune_len (a # s) = 1" by (simp add: byte_in_def)
  then show ?case using Cons by simp
qed simp

lemma utf8_ascii: "(\<forall>c \<in> set s. of_char c < (128 :: nat)) \<Longrightarrow> utf8 s"
  by (simp add: utf8_def json_text_ascii)

text \<open>JSON is not injective on bytes: it merges what is not UTF-8.\<close>

lemma json_text_merges: "json_text [CHR 0xFF] = json_text [CHR 0xFE]"
  by (simp add: byte_in_def)

declare json_text.simps [simp del] rune_len.simps [simp del]

lemma json_text_Nil [simp]: "json_text [] = []"
  by (simp add: json_text.simps)

subsection \<open>Query parameters\<close>

definition unreserved :: "char \<Rightarrow> bool" where
  "unreserved c \<longleftrightarrow> byte_in 0x61 0x7A c \<or> byte_in 0x41 0x5A c \<or> byte_in 0x30 0x39 c
     \<or> c \<in> {CHR ''-'', CHR ''_'', CHR ''.'', CHR ''~''}"

definition upper_hex :: "nat \<Rightarrow> char" where
  "upper_hex n = (if n < 10 then char_of (48 + n) else char_of (55 + n))"

definition escape_char :: "char \<Rightarrow> string" where
  "escape_char c = (if unreserved c then [c] else if c = CHR '' '' then ''+''
     else [CHR ''%'', upper_hex (of_char c div 16), upper_hex (of_char c mod 16)])"

definition QueryEscape :: "string \<Rightarrow> string" where
  "QueryEscape s = concat (map escape_char s)"

definition unhex :: "char \<Rightarrow> nat option" where
  "unhex c = (if byte_in 0x30 0x39 c then Some (of_char c - 48) else if byte_in 0x61 0x66 c then Some (of_char c - 87)
     else if byte_in 0x41 0x46 c then Some (of_char c - 55) else None)"

text \<open>\<open>None\<close> is the error of a malformed escape.\<close>

fun QueryUnescape :: "string \<Rightarrow> string option" where
  "QueryUnescape [] = Some []"
| "QueryUnescape (c # cs) =
     (if c = CHR ''%'' then
        (case cs of
           h # l # rest \<Rightarrow>
             (case (unhex h, unhex l) of
                (Some x, Some y) \<Rightarrow> map_option (\<lambda>r. char_of (16 * x + y) # r) (QueryUnescape rest)
              | _ \<Rightarrow> None)
         | _ \<Rightarrow> None)
      else map_option (\<lambda>r. (if c = CHR ''+'' then CHR '' '' else c) # r) (QueryUnescape cs))"

lemma of_char_upper_hex: "n < 16 \<Longrightarrow> of_char (upper_hex n) = (if n < 10 then 48 + n else 55 + n)"
  by (simp add: upper_hex_def)

lemma unhex_upper_hex: "n < 16 \<Longrightarrow> unhex (upper_hex n) = Some n"
  by (simp add: unhex_def byte_in_def of_char_upper_hex)

lemma unescape_escape_char: "QueryUnescape (escape_char c @ cs) = map_option (\<lambda>r. c # r) (QueryUnescape cs)"
proof -
  have b: "of_char c < (256 :: nat)" using nat_of_char_less_256 by simp
  have "of_char c div 16 < (16 :: nat)" "of_char c mod 16 < (16 :: nat)" using b by (simp_all add: less_mult_imp_div_less)
  then have h: "unhex (upper_hex (of_char c div 16)) = Some (of_char c div 16)"
    "unhex (upper_hex (of_char c mod 16)) = Some (of_char c mod 16)" by (simp_all add: unhex_upper_hex)
  have e: "char_of (16 * (of_char c div 16) + of_char c mod 16 :: nat) = c" by simp
  have u: "unreserved c \<Longrightarrow> c \<noteq> CHR ''%'' \<and> c \<noteq> CHR ''+''" by (auto simp: unreserved_def byte_in_def)
  show ?thesis
  proof (cases "unreserved c \<or> c = CHR '' ''")
    case True
    then show ?thesis using u by (auto simp: escape_char_def unreserved_def byte_in_def)
  next
    case False
    then show ?thesis unfolding escape_char_def by (simp only: if_False append.simps QueryUnescape.simps if_True list.case h option.case prod.case e de_Morgan_disj simp_thms)
  qed
qed

lemma QueryUnescape_QueryEscape: "QueryUnescape (QueryEscape s) = Some s"
  by (induction s) (simp_all add: QueryEscape_def unescape_escape_char)

end
