(* ===== verification/Internal_Api.thy ===== *)
theory Internal_Api
  imports Wire_Text Directory Storage Ratelimit Job_Queue Smtp_Inbound Apiauth
begin

section \<open>The internal API: internal/internalapi\<close>

text \<open>
  The protocol the SMTP-facing roles speak to the api role instead of holding a database credential:
  the wire objects (\<open>wire.go\<close>), the server with its table of roles (\<open>server.go\<close>), and the clients
  that stand in for the directory, the store, the queue, the limiter and the webhook enqueuer
  (\<open>client.go\<close>). A call goes through JSON or a query string (\<open>Wire_Text\<close>) and a network that may lose
  the request or the answer. A private key travels as its PEM text, which is how a key is modelled.
\<close>

subsection \<open>wire.go\<close>

definition ScopeDirectoryVhost :: string where "ScopeDirectoryVhost = ''directory.vhost''"
definition ScopeDirectoryAuthenticate :: string where "ScopeDirectoryAuthenticate = ''directory.authenticate''"
definition ScopeStoreWrite :: string where "ScopeStoreWrite = ''store.write''"
definition ScopeStoreRead :: string where "ScopeStoreRead = ''store.read''"
definition ScopeStoreList :: string where "ScopeStoreList = ''store.list''"
definition ScopeStoreUpdateFlags :: string where "ScopeStoreUpdateFlags = ''store.updateflags''"
definition ScopeQueueEnqueue :: string where "ScopeQueueEnqueue = ''queue.enqueue''"
definition ScopeRateLimitAllow :: string where "ScopeRateLimitAllow = ''ratelimit.allow''"
definition ScopeWebhookEnqueue :: string where "ScopeWebhookEnqueue = ''webhook.enqueue''"

lemmas scope_defs = ScopeDirectoryVhost_def ScopeDirectoryAuthenticate_def ScopeStoreWrite_def ScopeStoreRead_def
  ScopeStoreList_def ScopeStoreUpdateFlags_def ScopeQueueEnqueue_def ScopeRateLimitAllow_def ScopeWebhookEnqueue_def

definition RoleSMTPInbound :: string where "RoleSMTPInbound = ''smtp-inbound''"
definition RoleSMTPSubmission :: string where "RoleSMTPSubmission = ''smtp-submission''"
definition RoleIMAP :: string where "RoleIMAP = ''imap''"

lemmas role_defs = RoleSMTPInbound_def RoleSMTPSubmission_def RoleIMAP_def

record vhost_dto =
  vd_ID :: string
  vd_Domain :: string
  vd_Active :: bool
  vd_DKIMSelector :: string
  vd_DKIMKeyPEM :: string
  vd_MaxMessageBytes :: int
  vd_DailyQuota :: int
  vd_SpamRejectThreshold :: real
  vd_SpamQuarantineThreshold :: real
  vd_RetentionDays :: int

record authenticate_request =
  ar_Vhost :: string
  ar_LocalPart :: string
  ar_Password :: string

record list_request =
  lr_Vhost :: string
  lr_Mailbox :: string

record message_meta_dto =
  md_Vhost :: string
  md_Mailbox :: string
  md_Key :: string
  md_Size :: int
  md_Flags :: "string list"
  md_CreatedAt :: time

record update_flags_request =
  uf_Vhost :: string
  uf_Mailbox :: string
  uf_Key :: string
  uf_Flags :: "string list"

record enqueue_job_request =
  ej_ID :: string
  ej_Vhost :: string
  ej_From :: string
  ej_To :: string
  ej_BodyRef :: string
  ej_NextAttemptAt :: time
  ej_CorrelationID :: string

record rate_limit_allow_request =
  ra_Key :: string
  ra_Capacity :: real
  ra_RefillPerSecond :: real

record webhook_enqueue_request =
  we_Vhost :: string
  we_EventType :: string
  we_Payload :: bytes

text \<open>
  A request as the server reads it: a JSON body that decoded or did not, or query parameters. The
  answers are those the handlers write, with the status of an error.
\<close>

datatype wire_request =
    DirectoryVhost "gerr + string"
  | DirectoryAuthenticate "gerr + authenticate_request"
  | StoreWrite string string bytes
  | StoreRead string string string
  | StoreList "gerr + list_request"
  | StoreUpdateFlags "gerr + update_flags_request"
  | QueueEnqueue "gerr + enqueue_job_request"
  | RateLimitAllow "gerr + rate_limit_allow_request"
  | WebhookEnqueue "gerr + webhook_enqueue_request"

datatype wire_response =
    ErrorResponse nat string
  | VhostResponse "vhost_dto option"
  | AuthenticateResponse bool
  | WriteResponse message_ref
  | ReadBody bytes
  | ListResponse "message_meta_dto list"
  | EmptyBody
  | RateLimitAllowResponse bool

text \<open>
  The objects after \<open>json.Marshal\<close> and \<open>json.Unmarshal\<close>: strings lose what is not UTF-8, byte slices
  travel in base64, numbers and booleans are kept. A time is kept, but one outside the years 0 to
  9999 (of UTC, in nanoseconds of the Unix epoch) is refused by \<open>Marshal\<close>.
\<close>

definition json_time_ok :: "time \<Rightarrow> bool" where
  "json_time_ok t \<longleftrightarrow> - 62167219200 * 10 ^ 9 \<le> t \<and> t < 253402300800 * 10 ^ 9"

definition json_vhost :: "vhost_dto \<Rightarrow> vhost_dto" where
  "json_vhost d = d\<lparr>vd_ID := json_text (vd_ID d), vd_Domain := json_text (vd_Domain d),
     vd_DKIMSelector := json_text (vd_DKIMSelector d), vd_DKIMKeyPEM := json_text (vd_DKIMKeyPEM d)\<rparr>"

definition json_authenticate :: "authenticate_request \<Rightarrow> authenticate_request" where
  "json_authenticate r = \<lparr>ar_Vhost = json_text (ar_Vhost r), ar_LocalPart = json_text (ar_LocalPart r),
     ar_Password = json_text (ar_Password r)\<rparr>"

definition json_list :: "list_request \<Rightarrow> list_request" where
  "json_list r = \<lparr>lr_Vhost = json_text (lr_Vhost r), lr_Mailbox = json_text (lr_Mailbox r)\<rparr>"

definition json_ref :: "message_ref \<Rightarrow> message_ref" where
  "json_ref r = \<lparr>ref_Vhost = json_text (ref_Vhost r), ref_Mailbox = json_text (ref_Mailbox r), ref_Key = json_text (ref_Key r)\<rparr>"

definition json_meta :: "message_meta_dto \<Rightarrow> message_meta_dto" where
  "json_meta d = d\<lparr>md_Vhost := json_text (md_Vhost d), md_Mailbox := json_text (md_Mailbox d), md_Key := json_text (md_Key d),
     md_Flags := map json_text (md_Flags d)\<rparr>"

definition json_update_flags :: "update_flags_request \<Rightarrow> update_flags_request" where
  "json_update_flags r = \<lparr>uf_Vhost = json_text (uf_Vhost r), uf_Mailbox = json_text (uf_Mailbox r), uf_Key = json_text (uf_Key r),
     uf_Flags = map json_text (uf_Flags r)\<rparr>"

definition json_enqueue_job :: "enqueue_job_request \<Rightarrow> gerr + enqueue_job_request" where
  "json_enqueue_job r =
     (if json_time_ok (ej_NextAttemptAt r)
      then Inr \<lparr>ej_ID = json_text (ej_ID r), ej_Vhost = json_text (ej_Vhost r), ej_From = json_text (ej_From r),
        ej_To = json_text (ej_To r), ej_BodyRef = json_text (ej_BodyRef r), ej_NextAttemptAt = ej_NextAttemptAt r,
        ej_CorrelationID = json_text (ej_CorrelationID r)\<rparr>
      else Inl (ErrNew ''Time.MarshalJSON: year outside of range [0,9999]''))"

definition json_allow :: "rate_limit_allow_request \<Rightarrow> rate_limit_allow_request" where
  "json_allow r = r\<lparr>ra_Key := json_text (ra_Key r)\<rparr>"

definition json_webhook :: "webhook_enqueue_request \<Rightarrow> gerr + webhook_enqueue_request" where
  "json_webhook r = (case b64_decode (EncodeToString (we_Payload r)) of
       Inl e \<Rightarrow> Inl e
     | Inr payload \<Rightarrow> Inr \<lparr>we_Vhost = json_text (we_Vhost r), we_EventType = json_text (we_EventType r), we_Payload = payload\<rparr>)"

text \<open>\<open>pem\<close> is the coding of a private key: \<open>rsaKeyToPEM\<close> and \<open>pemToRSAKey\<close> over the \<open>crypto/x509\<close> and \<open>encoding/pem\<close> codings.\<close>

record pem_codec =
  pc_Marshal :: "string \<Rightarrow> bytes"
  pc_Parse :: "bytes \<Rightarrow> gerr + string"
  pc_Encode :: "bytes \<Rightarrow> string"
  pc_Decode :: "string \<Rightarrow> bytes option"

definition rsaKeyToPEM :: "pem_codec \<Rightarrow> string \<Rightarrow> string" where
  "rsaKeyToPEM pem key = pc_Encode pem (pc_Marshal pem key)"

definition pemToRSAKey :: "pem_codec \<Rightarrow> string \<Rightarrow> gerr + string" where
  "pemToRSAKey pem s =
     (case pc_Decode pem s of
        None \<Rightarrow> Inl (ErrNew ''internalapi: no PEM block found in DKIM key material'')
      | Some der \<Rightarrow> pc_Parse pem der)"

subsection \<open>server.go\<close>

definition roleScopes :: "bool gomap gomap" where
  "roleScopes =
     [(RoleSMTPInbound, map (\<lambda>sc. (sc, True)) [ScopeDirectoryVhost, ScopeStoreWrite, ScopeRateLimitAllow, ScopeWebhookEnqueue]),
      (RoleSMTPSubmission, map (\<lambda>sc. (sc, True))
         [ScopeDirectoryVhost, ScopeDirectoryAuthenticate, ScopeStoreWrite, ScopeQueueEnqueue, ScopeRateLimitAllow]),
      (RoleIMAP, map (\<lambda>sc. (sc, True)) [ScopeDirectoryAuthenticate, ScopeStoreRead, ScopeStoreList, ScopeStoreUpdateFlags])]"

definition role_granted :: "string \<Rightarrow> string \<Rightarrow> bool" where
  "role_granted role scope = (case map_of roleScopes role of None \<Rightarrow> False | Some scopes \<Rightarrow> gomap_bool scopes scope)"

record ('d, 's, 'q, 'l, 'h) internal_server =
  isv_dir :: "'d directory_ops"
  isv_store :: "'s store_ops"
  isv_queue :: "(job, 'q) queue_ops"
  isv_limiter :: "'l limiter_ops"
  isv_webhooks :: "'h enqueuer"
  isv_tokens :: "string gomap"
  isv_pem :: pem_codec
  isv_lib :: gosmtp_lib

record ('d, 's, 'q, 'l, 'h) internal_state =
  ia_dir :: 'd
  ia_store :: 's
  ia_queue :: 'q
  ia_limiter :: 'l
  ia_hooks :: 'h

text \<open>The clock and the iteration order of maps during a call.\<close>

record call_draws =
  cd_now :: time
  cd_seed :: nat

primrec route_scope :: "wire_request \<Rightarrow> string" where
  "route_scope (DirectoryVhost b) = ScopeDirectoryVhost"
| "route_scope (DirectoryAuthenticate b) = ScopeDirectoryAuthenticate"
| "route_scope (StoreWrite v m b) = ScopeStoreWrite"
| "route_scope (StoreRead v m k) = ScopeStoreRead"
| "route_scope (StoreList b) = ScopeStoreList"
| "route_scope (StoreUpdateFlags b) = ScopeStoreUpdateFlags"
| "route_scope (QueueEnqueue b) = ScopeQueueEnqueue"
| "route_scope (RateLimitAllow b) = ScopeRateLimitAllow"
| "route_scope (WebhookEnqueue b) = ScopeWebhookEnqueue"

definition writeError :: "gosmtp_lib \<Rightarrow> nat \<Rightarrow> gerr \<Rightarrow> wire_response" where
  "writeError lib code e = ErrorResponse code (json_text (err_text lib e))"

definition authorize :: "('d, 's, 'q, 'l, 'h) internal_server \<Rightarrow> call_draws \<Rightarrow> string \<Rightarrow> string
    \<Rightarrow> (('d, 's, 'q, 'l, 'h) internal_state \<Rightarrow> wire_response \<times> ('d, 's, 'q, 'l, 'h) internal_state)
    \<Rightarrow> ('d, 's, 'q, 'l, 'h) internal_state \<Rightarrow> wire_response \<times> ('d, 's, 'q, 'l, 'h) internal_state" where
  "authorize srv dr token requiredScope next st =
     (if token = [] then (writeError (isv_lib srv) 401 (ErrNew ''internalapi: missing X-Envelope-Internal-Token''), st)
      else let role = (case find (\<lambda>(candidate, _). ConstantTimeEqual candidate token) (map_range (cd_seed dr) (isv_tokens srv)) of
                         None \<Rightarrow> [] | Some (_, roleForToken) \<Rightarrow> roleForToken)
           in if role = [] then (writeError (isv_lib srv) 401 (ErrNew ''internalapi: token not recognized''), st)
              else if \<not> role_granted role requiredScope
                then (writeError (isv_lib srv) 403 (ErrNew (''internalapi: role '' @ role @ '' is not granted '' @ requiredScope)), st)
              else next st)"

definition vhost_to_dto :: "pem_codec \<Rightarrow> vhost \<Rightarrow> vhost_dto" where
  "vhost_to_dto pem v =
     \<lparr>vd_ID = vh_ID v, vd_Domain = vh_Domain v, vd_Active = vh_Active v, vd_DKIMSelector = vh_DKIMSelector v,
      vd_DKIMKeyPEM = (case vh_DKIMKey v of None \<Rightarrow> [] | Some key \<Rightarrow> rsaKeyToPEM pem key),
      vd_MaxMessageBytes = vh_MaxMessageBytes v, vd_DailyQuota = vh_DailyQuota v,
      vd_SpamRejectThreshold = vh_SpamRejectThreshold v, vd_SpamQuarantineThreshold = vh_SpamQuarantineThreshold v,
      vd_RetentionDays = vh_RetentionDays v\<rparr>"

definition handleVhost where
  "handleVhost srv body st =
     (case body of
        Inl e \<Rightarrow> (writeError (isv_lib srv) 400 e, st)
      | Inr domain \<Rightarrow>
          (case dir_Vhost (isv_dir srv) domain (ia_dir st) of
             None \<Rightarrow> (VhostResponse None, st)
           | Some v \<Rightarrow> (VhostResponse (Some (json_vhost (vhost_to_dto (isv_pem srv) v))), st)))"

definition handleAuthenticate where
  "handleAuthenticate srv body st =
     (case body of
        Inl e \<Rightarrow> (writeError (isv_lib srv) 400 e, st)
      | Inr req \<Rightarrow> (AuthenticateResponse
          (dir_Authenticate (isv_dir srv) (ar_Vhost req) (ar_LocalPart req) (ar_Password req) (ia_dir st)), st))"

definition handleStoreWrite where
  "handleStoreWrite srv ctx vhost mailbox body st =
     (if vhost = [] \<or> mailbox = []
      then (writeError (isv_lib srv) 400 (ErrNew ''internalapi: vhost and mailbox query params are required''), st)
      else case s_Write (isv_store srv) ctx vhost mailbox body (ia_store st) of
        (Inl e, m) \<Rightarrow> (writeError (isv_lib srv) 500 e, st\<lparr>ia_store := m\<rparr>)
      | (Inr ref, m) \<Rightarrow> (WriteResponse (json_ref ref), st\<lparr>ia_store := m\<rparr>))"

definition handleStoreRead where
  "handleStoreRead srv ctx vhost mailbox key st =
     (if vhost = [] \<or> mailbox = [] \<or> key = []
      then (writeError (isv_lib srv) 400 (ErrNew ''internalapi: vhost, mailbox, and key query params are required''), st)
      else case s_Read (isv_store srv) ctx \<lparr>ref_Vhost = vhost, ref_Mailbox = mailbox, ref_Key = key\<rparr> (ia_store st) of
        Inl e \<Rightarrow> (writeError (isv_lib srv) 404 e, st)
      | Inr body \<Rightarrow> (ReadBody body, st))"

definition meta_to_dto :: "message_meta \<Rightarrow> message_meta_dto" where
  "meta_to_dto m = \<lparr>md_Vhost = ref_Vhost (meta_Ref m), md_Mailbox = ref_Mailbox (meta_Ref m), md_Key = ref_Key (meta_Ref m),
     md_Size = meta_Size m, md_Flags = meta_Flags m, md_CreatedAt = meta_CreatedAt m\<rparr>"

text \<open>\<open>Encode\<close> ignores its error: a listing with a time it cannot write is answered with an empty body, which no client decodes.\<close>

definition handleStoreList where
  "handleStoreList srv dr ctx body st =
     (case body of
        Inl e \<Rightarrow> (writeError (isv_lib srv) 400 e, st)
      | Inr req \<Rightarrow>
          (case s_List (isv_store srv) ctx (cd_seed dr) (lr_Vhost req) (lr_Mailbox req) (ia_store st) of
             Inl e \<Rightarrow> (writeError (isv_lib srv) 500 e, st)
           | Inr metas \<Rightarrow>
               (if list_all (\<lambda>m. json_time_ok (meta_CreatedAt m)) metas
                then ListResponse (map (\<lambda>m. json_meta (meta_to_dto m)) metas) else EmptyBody, st)))"

definition handleStoreUpdateFlags where
  "handleStoreUpdateFlags srv ctx body st =
     (case body of
        Inl e \<Rightarrow> (writeError (isv_lib srv) 400 e, st)
      | Inr req \<Rightarrow>
          (case s_UpdateFlags (isv_store srv) ctx \<lparr>ref_Vhost = uf_Vhost req, ref_Mailbox = uf_Mailbox req, ref_Key = uf_Key req\<rparr>
                  (uf_Flags req) (ia_store st) of
             (Some e, m) \<Rightarrow> (writeError (isv_lib srv) 500 e, st\<lparr>ia_store := m\<rparr>)
           | (None, m) \<Rightarrow> (EmptyBody, st\<lparr>ia_store := m\<rparr>)))"

definition job_of_request :: "enqueue_job_request \<Rightarrow> job" where
  "job_of_request req = \<lparr>job_ID = ej_ID req, job_Vhost = ej_Vhost req, job_From = ej_From req, job_To = ej_To req,
     job_BodyRef = ej_BodyRef req, job_Attempts = 0, job_NextAttemptAt = ej_NextAttemptAt req, job_LastError = [],
     job_CorrelationID = ej_CorrelationID req\<rparr>"

definition handleQueueEnqueue where
  "handleQueueEnqueue srv ctx body st =
     (case body of
        Inl e \<Rightarrow> (writeError (isv_lib srv) 400 e, st)
      | Inr req \<Rightarrow>
          (case q_Enqueue (isv_queue srv) ctx (job_of_request req) (ia_queue st) of
             (Some e, q) \<Rightarrow> (writeError (isv_lib srv) 500 e, st\<lparr>ia_queue := q\<rparr>)
           | (None, q) \<Rightarrow> (EmptyBody, st\<lparr>ia_queue := q\<rparr>)))"

definition handleRateLimitAllow where
  "handleRateLimitAllow srv dr body st =
     (case body of
        Inl e \<Rightarrow> (writeError (isv_lib srv) 400 e, st)
      | Inr req \<Rightarrow>
          (case l_Allow (isv_limiter srv) (cd_now dr) (ra_Key req) (ra_Capacity req) (ra_RefillPerSecond req) (ia_limiter st) of
             (Inl e, l) \<Rightarrow> (writeError (isv_lib srv) 500 e, st\<lparr>ia_limiter := l\<rparr>)
           | (Inr allowed, l) \<Rightarrow> (RateLimitAllowResponse allowed, st\<lparr>ia_limiter := l\<rparr>)))"

definition handleWebhookEnqueue where
  "handleWebhookEnqueue srv ctx body st =
     (case body of
        Inl e \<Rightarrow> (writeError (isv_lib srv) 400 e, st)
      | Inr req \<Rightarrow>
          (case isv_webhooks srv ctx (we_Vhost req) (we_EventType req) (we_Payload req) (ia_hooks st) of
             (Some e, h) \<Rightarrow> (writeError (isv_lib srv) 500 e, st\<lparr>ia_hooks := h\<rparr>)
           | (None, h) \<Rightarrow> (EmptyBody, st\<lparr>ia_hooks := h\<rparr>)))"

primrec route_handler where
  "route_handler srv dr ctx (DirectoryVhost b) = handleVhost srv b"
| "route_handler srv dr ctx (DirectoryAuthenticate b) = handleAuthenticate srv b"
| "route_handler srv dr ctx (StoreWrite v m b) = handleStoreWrite srv ctx v m b"
| "route_handler srv dr ctx (StoreRead v m k) = handleStoreRead srv ctx v m k"
| "route_handler srv dr ctx (StoreList b) = handleStoreList srv dr ctx b"
| "route_handler srv dr ctx (StoreUpdateFlags b) = handleStoreUpdateFlags srv ctx b"
| "route_handler srv dr ctx (QueueEnqueue b) = handleQueueEnqueue srv ctx b"
| "route_handler srv dr ctx (RateLimitAllow b) = handleRateLimitAllow srv dr b"
| "route_handler srv dr ctx (WebhookEnqueue b) = handleWebhookEnqueue srv ctx b"

definition Server_Handler where
  "Server_Handler srv dr ctx token req st = authorize srv dr token (route_scope req) (route_handler srv dr ctx req) st"

lemmas internal_handlers = handleVhost_def handleAuthenticate_def handleStoreWrite_def handleStoreRead_def handleStoreList_def
  handleStoreUpdateFlags_def handleQueueEnqueue_def handleRateLimitAllow_def handleWebhookEnqueue_def

subsection \<open>client.go\<close>

text \<open>
  What becomes of a call on the network: it arrives and is answered, it is never sent, or the server
  runs it and the answer is lost.
\<close>

datatype network = Answered | NotSent gerr | AnswerLost gerr

text \<open>
  A header value as it arrives: \<open>net/http\<close> refuses control characters and strips spaces and tabs at
  both ends.
\<close>

definition header_value :: "string \<Rightarrow> string option" where
  "header_value t =
     (if list_all (\<lambda>c. \<not> (of_char c < (32 :: nat) \<or> of_char c = (127 :: nat)) \<or> c = CHR 0x09) t
      then Some (rev (dropWhile (\<lambda>c. c = CHR '' '' \<or> c = CHR 0x09) (rev (dropWhile (\<lambda>c. c = CHR '' '' \<or> c = CHR 0x09) t))))
      else None)"

record ('d, 's, 'q, 'l, 'h) http_client =
  hc_server :: "('d, 's, 'q, 'l, 'h) internal_server"
  hc_token :: string
  hc_net :: network
  hc_draws :: call_draws

definition hc_Do where
  "hc_Do c ctx req st =
     (case ctx of Some e \<Rightarrow> (Inl e, st) | None \<Rightarrow>
      case header_value (hc_token c) of
        None \<Rightarrow> (Inl (ErrNew ''net/http: invalid header field value for X-Envelope-Internal-Token''), st)
      | Some token \<Rightarrow>
          (case hc_net c of
             NotSent e \<Rightarrow> (Inl e, st)
           | AnswerLost e \<Rightarrow> (Inl e, snd (Server_Handler (hc_server c) (hc_draws c) None token req st))
           | Answered \<Rightarrow> (case Server_Handler (hc_server c) (hc_draws c) None token req st of (resp, st') \<Rightarrow> (Inr resp, st'))))"

definition status_text :: "nat \<Rightarrow> string" where
  "status_text code = nat_digits code @ '' '' @
     (if code = 400 then ''Bad Request'' else if code = 401 then ''Unauthorized'' else if code = 403 then ''Forbidden''
      else if code = 404 then ''Not Found'' else ''Internal Server Error'')"

definition responseError :: "string \<Rightarrow> string \<Rightarrow> nat \<Rightarrow> string \<Rightarrow> gerr" where
  "responseError verb path code msg =
     ErrNew (''internalapi: '' @ verb @ '' '' @ path @ '': '' @ nat_digits code @ '' '' @ (if msg = [] then status_text code else msg))"

text \<open>\<open>want\<close> reads the answer, \<open>None\<close> when it is not the object the caller decodes.\<close>

definition doJSON where
  "doJSON c ctx path req want st =
     (case req of
        Inl e \<Rightarrow> (Inl (ErrWrap ''internalapi: encode request'' e), st)
      | Inr r \<Rightarrow>
          (case hc_Do c ctx r st of
             (Inl e, st') \<Rightarrow> (Inl (ErrWrap (''internalapi: POST '' @ path) e), st')
           | (Inr (ErrorResponse code msg), st') \<Rightarrow> (Inl (responseError ''POST'' path code msg), st')
           | (Inr resp, st') \<Rightarrow>
               (case want resp of
                  None \<Rightarrow> (Inl (ErrWrap ''internalapi: decode response'' (ErrNew ''EOF'')), st')
                | Some x \<Rightarrow> (Inr x, st'))))"

definition internalapi_unsupported :: "string \<Rightarrow> gerr" where
  "internalapi_unsupported verb = ErrNew (''internalapi: '' @ verb @ '' is not exposed to SMTP-facing roles over the internal API (least-privilege by design, mirroring deploy/postgres/roles.sql''
     @ [CHR 0x27] @ ''s SQL-level grants)'')"

definition vhost_of_dto :: "pem_codec \<Rightarrow> vhost_dto \<Rightarrow> vhost" where
  "vhost_of_dto pem d =
     zero_vhost\<lparr>vh_ID := vd_ID d, vh_Domain := vd_Domain d, vh_Active := vd_Active d, vh_DKIMSelector := vd_DKIMSelector d,
       vh_MaxMessageBytes := vd_MaxMessageBytes d, vh_DailyQuota := vd_DailyQuota d,
       vh_SpamRejectThreshold := vd_SpamRejectThreshold d, vh_SpamQuarantineThreshold := vd_SpamQuarantineThreshold d,
       vh_RetentionDays := vd_RetentionDays d,
       vh_DKIMKey := (if vd_DKIMKeyPEM d = [] then None
         else case pemToRSAKey pem (vd_DKIMKeyPEM d) of Inl e \<Rightarrow> None | Inr key \<Rightarrow> Some key)\<rparr>"

definition DirectoryClient_Vhost where
  "DirectoryClient_Vhost c domain st =
     (case fst (doJSON c None ''/internal/v1/directory/vhost'' (Inr (DirectoryVhost (Inr (json_text domain))))
              (\<lambda>resp. case resp of VhostResponse d \<Rightarrow> Some d | _ \<Rightarrow> None) st) of
        Inl e \<Rightarrow> None
      | Inr None \<Rightarrow> None
      | Inr (Some d) \<Rightarrow> Some (vhost_of_dto (isv_pem (hc_server c)) d))"

definition DirectoryClient_VhostActive where
  "DirectoryClient_VhostActive c domain st =
     (case DirectoryClient_Vhost c domain st of None \<Rightarrow> False | Some v \<Rightarrow> vh_Active v)"

definition DirectoryClient_Authenticate where
  "DirectoryClient_Authenticate c vhost localPart password st =
     (case fst (doJSON c None ''/internal/v1/directory/authenticate''
              (Inr (DirectoryAuthenticate (Inr (json_authenticate \<lparr>ar_Vhost = vhost, ar_LocalPart = localPart, ar_Password = password\<rparr>))))
              (\<lambda>resp. case resp of AuthenticateResponse ok \<Rightarrow> Some ok | _ \<Rightarrow> None) st) of
        Inl e \<Rightarrow> False
      | Inr ok \<Rightarrow> ok)"

text \<open>A query parameter as \<open>r.URL.Query().Get\<close> finds it.\<close>

definition query_get :: "string \<Rightarrow> string" where
  "query_get v = (case QueryUnescape (QueryEscape v) of None \<Rightarrow> [] | Some x \<Rightarrow> x)"

lemma query_get [simp]: "query_get v = v"
  by (simp add: query_get_def QueryUnescape_QueryEscape)

definition write_path :: "string \<Rightarrow> string \<Rightarrow> string" where
  "write_path vhost mailbox = ''/internal/v1/store/write?vhost='' @ QueryEscape vhost @ ''&mailbox='' @ QueryEscape mailbox"

definition StoreClient_Write where
  "StoreClient_Write c ctx vhost mailbox body st =
     (case hc_Do c ctx (StoreWrite (query_get vhost) (query_get mailbox) body) st of
        (Inl e, st') \<Rightarrow> (Inl (ErrWrap ''internalapi: store write'' e), st')
      | (Inr (ErrorResponse code msg), st') \<Rightarrow> (Inl (responseError ''POST'' (write_path vhost mailbox) code msg), st')
      | (Inr (WriteResponse ref), st') \<Rightarrow> (Inr ref, st')
      | (Inr resp, st') \<Rightarrow> (Inl (ErrWrap ''internalapi: decode write response'' (ErrNew ''EOF'')), st'))"

definition read_path :: "message_ref \<Rightarrow> string" where
  "read_path ref = ''/internal/v1/store/read?vhost='' @ QueryEscape (ref_Vhost ref) @ ''&mailbox='' @ QueryEscape (ref_Mailbox ref)
     @ ''&key='' @ QueryEscape (ref_Key ref)"

definition StoreClient_Read where
  "StoreClient_Read c ctx ref st =
     (case fst (hc_Do c ctx (StoreRead (query_get (ref_Vhost ref)) (query_get (ref_Mailbox ref)) (query_get (ref_Key ref))) st) of
        Inl e \<Rightarrow> Inl (ErrWrap ''internalapi: store read'' e)
      | Inr (ErrorResponse code msg) \<Rightarrow> Inl (responseError ''GET'' (read_path ref) code msg)
      | Inr (ReadBody body) \<Rightarrow> Inr body
      | Inr resp \<Rightarrow> Inr [])"

definition meta_of_dto :: "message_meta_dto \<Rightarrow> message_meta" where
  "meta_of_dto d = \<lparr>meta_Ref = \<lparr>ref_Vhost = md_Vhost d, ref_Mailbox = md_Mailbox d, ref_Key = md_Key d\<rparr>,
     meta_Size = md_Size d, meta_Flags = md_Flags d, meta_CreatedAt = md_CreatedAt d\<rparr>"

definition StoreClient_List where
  "StoreClient_List c ctx vhost mailbox st =
     map_sum id (map meta_of_dto) (fst (doJSON c ctx ''/internal/v1/store/list''
       (Inr (StoreList (Inr (json_list \<lparr>lr_Vhost = vhost, lr_Mailbox = mailbox\<rparr>))))
       (\<lambda>resp. case resp of ListResponse ds \<Rightarrow> Some ds | _ \<Rightarrow> None) st))"

definition no_result :: "(gerr + unit) \<times> 'z \<Rightarrow> gerr option \<times> 'z" where
  "no_result r = (case r of (Inl e, st) \<Rightarrow> (Some e, st) | (Inr _, st) \<Rightarrow> (None, st))"

definition StoreClient_UpdateFlags where
  "StoreClient_UpdateFlags c ctx ref flags st =
     no_result (doJSON c ctx ''/internal/v1/store/updateflags''
       (Inr (StoreUpdateFlags (Inr (json_update_flags
          \<lparr>uf_Vhost = ref_Vhost ref, uf_Mailbox = ref_Mailbox ref, uf_Key = ref_Key ref, uf_Flags = flags\<rparr>)))) (\<lambda>resp. Some ()) st)"

definition StoreClient_ListVhost :: "gerr + message_meta list" where
  "StoreClient_ListVhost = Inl (internalapi_unsupported ''Store.ListVhost'')"

definition StoreClient_Delete :: "gerr option" where
  "StoreClient_Delete = Some (internalapi_unsupported ''Store.Delete'')"

definition job_to_request :: "job \<Rightarrow> enqueue_job_request" where
  "job_to_request j = \<lparr>ej_ID = job_ID j, ej_Vhost = job_Vhost j, ej_From = job_From j, ej_To = job_To j, ej_BodyRef = job_BodyRef j,
     ej_NextAttemptAt = job_NextAttemptAt j, ej_CorrelationID = job_CorrelationID j\<rparr>"

definition QueueClient_Enqueue where
  "QueueClient_Enqueue c ctx job st =
     no_result (doJSON c ctx ''/internal/v1/queue/enqueue''
       (map_sum id (\<lambda>r. QueueEnqueue (Inr r)) (json_enqueue_job (job_to_request job))) (\<lambda>resp. Some ()) st)"

definition QueueClient_Dequeue :: "gerr + job option" where "QueueClient_Dequeue = Inl (internalapi_unsupported ''Queue.Dequeue'')"
definition QueueClient_Complete :: "gerr option" where "QueueClient_Complete = Some (internalapi_unsupported ''Queue.Complete'')"
definition QueueClient_Fail :: "gerr option" where "QueueClient_Fail = Some (internalapi_unsupported ''Queue.Fail'')"
definition QueueClient_Count :: "gerr + nat" where "QueueClient_Count = Inl (internalapi_unsupported ''Queue.Count'')"

definition RateLimiterClient_Allow where
  "RateLimiterClient_Allow c key capacity refillPerSecond st =
     doJSON c None ''/internal/v1/ratelimit/allow''
       (Inr (RateLimitAllow (Inr (json_allow \<lparr>ra_Key = key, ra_Capacity = capacity, ra_RefillPerSecond = refillPerSecond\<rparr>))))
       (\<lambda>resp. case resp of RateLimitAllowResponse allowed \<Rightarrow> Some allowed | _ \<Rightarrow> None) st"

definition WebhookClient_Enqueue where
  "WebhookClient_Enqueue c ctx vhost eventType payload st =
     no_result (doJSON c ctx ''/internal/v1/webhook/enqueue''
       (map_sum id (\<lambda>r. WebhookEnqueue (Inr r)) (json_webhook \<lparr>we_Vhost = vhost, we_EventType = eventType, we_Payload = payload\<rparr>))
       (\<lambda>resp. Some ()) st)"

text \<open>The clients as the interfaces the sessions take, over the part of the server's state they reach.\<close>

definition DirectoryClient_ops where
  "DirectoryClient_ops c base = \<lparr>dir_Vhost = (\<lambda>domain d. DirectoryClient_Vhost c domain (base\<lparr>ia_dir := d\<rparr>)),
     dir_VhostActive = (\<lambda>domain d. DirectoryClient_VhostActive c domain (base\<lparr>ia_dir := d\<rparr>)),
     dir_Authenticate = (\<lambda>vhost lp pw d. DirectoryClient_Authenticate c vhost lp pw (base\<lparr>ia_dir := d\<rparr>))\<rparr>"

definition StoreClient_ops where
  "StoreClient_ops c base =
     \<lparr>s_Write = (\<lambda>ctx v m b s. map_prod id ia_store (StoreClient_Write c ctx v m b (base\<lparr>ia_store := s\<rparr>))),
      s_Read = (\<lambda>ctx ref s. StoreClient_Read c ctx ref (base\<lparr>ia_store := s\<rparr>)),
      s_List = (\<lambda>ctx seed v m s. StoreClient_List (c\<lparr>hc_draws := (hc_draws c)\<lparr>cd_seed := seed\<rparr>\<rparr>) ctx v m (base\<lparr>ia_store := s\<rparr>)),
      s_ListVhost = (\<lambda>ctx seed v s. StoreClient_ListVhost),
      s_UpdateFlags = (\<lambda>ctx ref fl s. map_prod id ia_store (StoreClient_UpdateFlags c ctx ref fl (base\<lparr>ia_store := s\<rparr>))),
      s_Delete = (\<lambda>ctx ref s. (StoreClient_Delete, s))\<rparr>"

definition QueueClient_ops where
  "QueueClient_ops c base =
     \<lparr>q_Enqueue = (\<lambda>ctx j q. map_prod id ia_queue (QueueClient_Enqueue c ctx j (base\<lparr>ia_queue := q\<rparr>))),
      q_Dequeue = (\<lambda>ctx now seed q. (QueueClient_Dequeue, q)), q_Complete = (\<lambda>ctx k q. (QueueClient_Complete, q)),
      q_Fail = (\<lambda>ctx k cause next q. (QueueClient_Fail, q))\<rparr>"

definition RateLimiterClient_ops where
  "RateLimiterClient_ops c base =
     \<lparr>l_Allow = (\<lambda>now key cap refill l. map_prod id ia_limiter
        (RateLimiterClient_Allow (c\<lparr>hc_draws := (hc_draws c)\<lparr>cd_now := now\<rparr>\<rparr>) key cap refill (base\<lparr>ia_limiter := l\<rparr>)))\<rparr>"

definition WebhookClient_enqueuer where
  "WebhookClient_enqueuer c base ctx vhost eventType payload h =
     map_prod id ia_hooks (WebhookClient_Enqueue c ctx vhost eventType payload (base\<lparr>ia_hooks := h\<rparr>))"

end
