(* ===== verification/Boot.thy ===== *)
theory Boot
  imports Internal_Api Retention Deliverer Api_Auth "HOL-Library.Word"
begin

section \<open>Starting a process: cmd/envelope/main.go, internal/db\<close>

text \<open>
  How the command line and the environment decide what a process runs and what it holds: the roles,
  the database credential, the master key, and for every role whether its directory, store, queue,
  limiter and event sink are backed by the process's own connection or by the internal API. The
  environment is a function; an unset variable is the empty string, as \<open>os.Getenv\<close> has it.
\<close>

type_synonym os_env = "string \<Rightarrow> string"

subsection \<open>Reading the environment\<close>

definition addrFromEnv :: "os_env \<Rightarrow> string \<Rightarrow> string \<Rightarrow> string" where
  "addrFromEnv env key def = (if env key \<noteq> [] then env key else def)"

text \<open>\<open>strconv.Atoi\<close>, \<open>None\<close> for a syntax error or a value outside an \<open>int\<close>.\<close>

definition Atoi :: "string \<Rightarrow> int option" where
  "Atoi s =
     (let ds = (if has_prefix s ''-'' \<or> has_prefix s ''+'' then tl s else s);
          n = foldl (\<lambda>a c. 10 * a + (of_char c - 48)) 0 ds;
          v = (if has_prefix s ''-'' then - n else n)
      in if ds = [] \<or> \<not> list_all (\<lambda>c. 48 \<le> (of_char c :: nat) \<and> (of_char c :: nat) \<le> 57) ds then None
         else if - (2 ^ 63) \<le> v \<and> v < 2 ^ 63 then Some v else None)"

definition intEnv :: "os_env \<Rightarrow> string \<Rightarrow> int \<Rightarrow> int" where
  "intEnv env key def = (if env key = [] then def else case Atoi (env key) of None \<Rightarrow> def | Some n \<Rightarrow> n)"

text \<open>\<open>parse\<close> is \<open>strconv.ParseFloat\<close>.\<close>

definition floatEnv :: "(string \<Rightarrow> gerr + real) \<Rightarrow> os_env \<Rightarrow> string \<Rightarrow> real \<Rightarrow> real" where
  "floatEnv parse env key def = (if env key = [] then def else case parse (env key) of Inl e \<Rightarrow> def | Inr f \<Rightarrow> f)"

subsection \<open>db.go\<close>

definition envOrDefault :: "os_env \<Rightarrow> string \<Rightarrow> string \<Rightarrow> string" where
  "envOrDefault env key def = (if env key \<noteq> [] then env key else def)"

definition db_buildDSN :: "os_env \<Rightarrow> string \<Rightarrow> string \<Rightarrow> string" where
  "db_buildDSN env user password =
     ''host='' @ envOrDefault env ''ENVELOPE_DB_HOST'' ''127.0.0.1'' @ '' port='' @ envOrDefault env ''ENVELOPE_DB_PORT'' ''5432''
     @ '' user='' @ user @ '' password='' @ password @ '' dbname='' @ envOrDefault env ''ENVELOPE_DB_NAME'' ''envelope''
     @ '' sslmode='' @ envOrDefault env ''ENVELOPE_DB_SSLMODE'' ''disable''"

definition DSNFromEnv :: "os_env \<Rightarrow> string" where
  "DSNFromEnv env =
     (if env ''ENVELOPE_DB_DSN'' \<noteq> [] then env ''ENVELOPE_DB_DSN''
      else db_buildDSN env (envOrDefault env ''ENVELOPE_DB_USER'' ''envelope'') (envOrDefault env ''ENVELOPE_DB_PASSWORD'' ''envelope''))"

definition DSNForRole :: "os_env \<Rightarrow> string \<Rightarrow> string" where
  "DSNForRole env role =
     (if env ''ENVELOPE_DB_DSN'' \<noteq> [] then env ''ENVELOPE_DB_DSN''
      else let envKey = to_upper (replace_all (CHR ''-'') (CHR ''_'') role);
               user = env (''ENVELOPE_DB_USER_'' @ envKey);
               password = env (''ENVELOPE_DB_PASSWORD_'' @ envKey)
           in if user = [] \<or> password = [] then DSNFromEnv env else db_buildDSN env user password)"

definition db_Open :: "(string \<Rightarrow> gerr + 'c) \<Rightarrow> string \<Rightarrow> gerr + 'c" where
  "db_Open gorm_Open dsn = (case gorm_Open dsn of Inl e \<Rightarrow> Inl (ErrWrap ''db: open'' e) | Inr db \<Rightarrow> Inr db)"

subsection \<open>Roles\<close>

definition roleAPI :: string where "roleAPI = ''api''"
definition roleSMTPInbound :: string where "roleSMTPInbound = ''smtp-inbound''"
definition roleSMTPSubmission :: string where "roleSMTPSubmission = ''smtp-submission''"
definition roleIMAP :: string where "roleIMAP = ''imap''"
definition roleDeliverer :: string where "roleDeliverer = ''deliverer''"

lemmas main_roles = roleAPI_def roleSMTPInbound_def roleSMTPSubmission_def roleIMAP_def roleDeliverer_def

definition allRoles :: "string list" where
  "allRoles = [roleAPI, roleSMTPInbound, roleSMTPSubmission, roleIMAP, roleDeliverer]"

definition isKnownRole :: "string \<Rightarrow> bool" where
  "isKnownRole r = list_ex (\<lambda>known. r = known) allRoles"

fun parse_roles :: "string list \<Rightarrow> bool gomap \<Rightarrow> gerr + bool gomap" where
  "parse_roles [] selected = Inr selected"
| "parse_roles (w # ws) selected =
     (let r = trim_space w in
      if r = [] then parse_roles ws selected
      else if \<not> isKnownRole r
        then Inl (ErrNew (''unknown role '' @ go_quote r @ '' (valid: '' @ go_join '', '' allRoles @ '')''))
      else parse_roles ws (AList.update r True selected))"

definition parseRoles :: "string \<Rightarrow> gerr + bool gomap" where
  "parseRoles csv =
     (case parse_roles (go_split (CHR '','') csv) [] of
        Inl e \<Rightarrow> Inl e
      | Inr selected \<Rightarrow> if selected = [] then Inl (ErrNew ''--roles selected no roles'') else Inr selected)"

definition dbRoleForProcess :: "bool gomap \<Rightarrow> string" where
  "dbRoleForProcess selected = (if length selected \<noteq> 1 then [] else fst (hd selected))"

definition internalAPITokenEnvVar :: "string \<Rightarrow> string" where
  "internalAPITokenEnvVar role = ''ENVELOPE_INTERNAL_TOKEN_'' @ to_upper (replace_all (CHR ''-'') (CHR ''_'') role)"

definition internalAPITokenFor :: "os_env \<Rightarrow> string \<Rightarrow> string" where
  "internalAPITokenFor env role = env (internalAPITokenEnvVar role)"

definition internalAPIActivated :: "os_env \<Rightarrow> bool gomap \<Rightarrow> string \<Rightarrow> bool" where
  "internalAPIActivated env selected role \<longleftrightarrow> dbRoleForProcess selected = role \<and> internalAPITokenFor env role \<noteq> []"

fun tokens_loop :: "os_env \<Rightarrow> string list \<Rightarrow> string gomap \<Rightarrow> string gomap" where
  "tokens_loop env [] toks = toks"
| "tokens_loop env (role # roles) toks =
     (let t = internalAPITokenFor env role
      in tokens_loop env roles (if t \<noteq> [] then AList.update t role toks else toks))"

definition internalAPITokens :: "os_env \<Rightarrow> string gomap" where
  "internalAPITokens env = tokens_loop env [roleSMTPInbound, roleSMTPSubmission, roleIMAP] []"

definition internalAPIURL :: "os_env \<Rightarrow> string" where
  "internalAPIURL env = addrFromEnv env ''ENVELOPE_INTERNAL_API_URL'' ''http://127.0.0.1:8081''"

definition internalAPIAddr :: "os_env \<Rightarrow> string" where
  "internalAPIAddr env = addrFromEnv env ''ENVELOPE_INTERNAL_API_ADDR'' '':8081''"

definition rspamdURLFromEnv :: "os_env \<Rightarrow> string" where
  "rspamdURLFromEnv env = addrFromEnv env ''ENVELOPE_RSPAMD_URL'' ''http://localhost:11333''"

definition needsDirectDB :: "os_env \<Rightarrow> bool gomap \<Rightarrow> bool" where
  "needsDirectDB env selected \<longleftrightarrow> \<not> (internalAPIActivated env selected roleSMTPInbound
     \<or> internalAPIActivated env selected roleSMTPSubmission \<or> internalAPIActivated env selected roleIMAP)"

subsection \<open>Certificates: internal/platform/selfsigned.go, internal/acme\<close>

record cert_template =
  ct_SerialNumber :: nat
  ct_CommonName :: string
  ct_DNSNames :: "string list"
  ct_NotBefore :: time
  ct_NotAfter :: time
  ct_IsCA :: bool

record tls_config =
  tc_Certificate :: bytes
  tc_PrivateKey :: string
  tc_MinVersion :: nat

text \<open>The outcomes of the cryptographic calls and the two readings of the clock.\<close>

record tls_lib =
  tl_GenerateKey :: "gerr + string"
  tl_Int :: "nat \<Rightarrow> gerr + nat"
  tl_now :: "time \<times> time"
  tl_CreateCertificate :: "cert_template \<Rightarrow> string \<Rightarrow> gerr + bytes"

definition hour :: duration where "hour = 3600 * 10 ^ 9"

definition VersionTLS12 :: nat where "VersionTLS12 = 0x0303"

definition SelfSignedTLSConfig :: "tls_lib \<Rightarrow> string list \<Rightarrow> gerr + tls_config" where
  "SelfSignedTLSConfig lib hostnames =
     (case tl_GenerateKey lib of
        Inl e \<Rightarrow> Inl (ErrWrap ''platform: generate TLS key'' e)
      | Inr key \<Rightarrow>
     case tl_Int lib (2 ^ 128) of
        Inl e \<Rightarrow> Inl (ErrWrap ''platform: generate certificate serial'' e)
      | Inr serial \<Rightarrow>
     case tl_CreateCertificate lib
            \<lparr>ct_SerialNumber = serial, ct_CommonName = ''envelope-dev'', ct_DNSNames = hostnames,
             ct_NotBefore = fst (tl_now lib) - hour, ct_NotAfter = snd (tl_now lib) + 24 * hour, ct_IsCA = True\<rparr> key of
        Inl e \<Rightarrow> Inl (ErrWrap ''platform: create certificate'' e)
      | Inr der \<Rightarrow> Inr \<lparr>tc_Certificate = der, tc_PrivateKey = key, tc_MinVersion = VersionTLS12\<rparr>)"

text \<open>The hook that decides whether a certificate may be issued for a name a client asked for.\<close>

definition DecisionFunc :: "'d directory_ops \<Rightarrow> string \<Rightarrow> 'd \<Rightarrow> gerr option" where
  "DecisionFunc dir name d =
     (if \<not> dir_VhostActive dir name d
      then Some (ErrNew (''acme: '' @ go_quote name @ '' is not a registered, active vhost'')) else None)"

subsection \<open>The instances of a process\<close>

text \<open>
  A dependency of a role: built over the process's own connection (which may be nil) and, for the
  directory and the webhook store, the master key; or a client of the internal API.
\<close>

datatype 'c provider = Direct "'c option" "aead option" | InternalClient string string

definition NewClient :: "string \<Rightarrow> string \<Rightarrow> 'c provider" where
  "NewClient baseURL token = InternalClient (rev (dropWhile (\<lambda>c. c = CHR ''/'') (rev baseURL))) token"

datatype 'c tls_plan = NoTLS | AcmeTLS "'c provider" string bool | SelfSignedTLS tls_config

record 'c inbound_role =
  inr_Addr :: string
  inr_Domain :: string
  inr_TLS :: "'c tls_plan"
  inr_Directory :: "'c provider"
  inr_Store :: "'c provider"
  inr_Queue :: "'c provider"
  inr_Rspamd :: string
  inr_Webhooks :: "'c provider"
  inr_RateLimiter :: "'c provider"
  inr_limits :: "real \<times> real \<times> real \<times> real"

record 'c submission_role =
  sur_Addr :: string
  sur_Domain :: string
  sur_TLS :: "'c tls_plan"
  sur_Directory :: "'c provider"
  sur_Store :: "'c provider"
  sur_Queue :: "'c provider"
  sur_Quota :: "'c provider"
  sur_Webhooks :: "'c provider"

record 'c imap_role =
  imr_Addr :: string
  imr_TLS :: "'c tls_plan"
  imr_Directory :: "'c provider"
  imr_Store :: "'c provider"

record 'c api_role =
  apr_Directory :: "'c provider"
  apr_Store :: "'c provider"
  apr_WebhookStore :: "'c provider"
  apr_Tokens :: "'c provider"
  apr_Audit :: "'c provider"
  apr_Queue :: "'c provider"
  apr_Limiter :: "'c provider"
  apr_Admin :: string
  apr_Capacity :: real
  apr_RefillPerSecond :: real

record 'c internal_role =
  itr_Addr :: string
  itr_Tokens :: "string gomap"
  itr_Directory :: "'c provider"
  itr_Store :: "'c provider"
  itr_Queue :: "'c provider"
  itr_Limiter :: "'c provider"
  itr_Webhooks :: "'c provider"

datatype 'c role_instance =
    MetricsI string
  | ApiI "'c api_role"
  | WebhookDispatcherI "'c provider"
  | InternalApiI "'c internal_role"
  | RetentionPurgerI purger "'c provider" "'c provider"
  | SmtpInboundI "'c inbound_role"
  | SmtpSubmissionI "'c submission_role"
  | ImapI "'c imap_role"
  | DelivererI "'c provider" "'c provider" "'c provider" "'c provider" string int int

text \<open>
  What is not under the source: the database driver, the migrations it runs (\<open>AutoMigrate\<close>), the block
  cipher, the hash and random bytes of a token, and the parser of floating-point numbers.
\<close>

record ('c, 'b) boot_lib =
  bl_gorm_Open :: "string \<Rightarrow> gerr + 'c"
  bl_migrations :: "'c \<Rightarrow> gerr option"
  bl_NewCipher :: "bytes \<Rightarrow> gerr + 'b"
  bl_NewGCM :: "'b \<Rightarrow> gerr + aead"
  bl_sha256 :: "bytes \<Rightarrow> bytes"
  bl_token_bytes :: "gerr + bytes"
  bl_ParseFloat :: "string \<Rightarrow> gerr + real"
  bl_tls :: tls_lib

definition masterKeyFromEnv :: "('c, 'b) boot_lib \<Rightarrow> os_env \<Rightarrow> gerr + aead" where
  "masterKeyFromEnv lib env =
     (if env ''ENVELOPE_MASTER_KEY'' = []
      then Inl (ErrNew (''ENVELOPE_MASTER_KEY is required (TRD R1/NFR-SEC-3: encrypts DKIM keys and webhook secrets at rest) ''
        @ [CHR 0xE2, CHR 0x80, CHR 0x94] @ '' generate one with: openssl rand -base64 32''))
      else case b64_decode (env ''ENVELOPE_MASTER_KEY'') of
        Inl e \<Rightarrow> Inl (ErrWrap ''ENVELOPE_MASTER_KEY must be base64-encoded'' e)
      | Inr key \<Rightarrow>
          (case NewAESGCMEncryptor (bl_NewCipher lib) (bl_NewGCM lib) key of
             Inl e \<Rightarrow> Inl (ErrWrap ''ENVELOPE_MASTER_KEY'' e)
           | Inr enc \<Rightarrow> Inr enc))"

definition adminTokenFromEnv :: "('c, 'b) boot_lib \<Rightarrow> os_env \<Rightarrow> gerr + string" where
  "adminTokenFromEnv lib env =
     (if env ''ENVELOPE_API_ADMIN_TOKEN'' \<noteq> [] then Inr (env ''ENVELOPE_API_ADMIN_TOKEN'')
      else case GenerateToken (bl_sha256 lib) (bl_token_bytes lib) of
        Inl e \<Rightarrow> Inl e
      | Inr (raw, _) \<Rightarrow> Inr raw)"

text \<open>\<open>time.Duration(n) * time.Hour\<close> wraps at 64 bits.\<close>

definition hours :: "int \<Rightarrow> duration" where
  "hours n = sint (word_of_int n * word_of_int hour :: 64 word)"

definition metricsPlatform :: "os_env \<Rightarrow> 'c role_instance" where
  "metricsPlatform env = MetricsI (addrFromEnv env ''ENVELOPE_METRICS_ADDR'' '':9090'')"

definition api_instances :: "('c, 'b) boot_lib \<Rightarrow> os_env \<Rightarrow> 'c option \<Rightarrow> aead option \<Rightarrow> gerr + 'c role_instance list" where
  "api_instances lib env conn enc =
     (case adminTokenFromEnv lib env of
        Inl e \<Rightarrow> Inl e
      | Inr admin \<Rightarrow>
          Inr [ApiI \<lparr>apr_Directory = Direct conn enc, apr_Store = Direct conn None, apr_WebhookStore = Direct conn enc,
                 apr_Tokens = Direct conn None, apr_Audit = Direct conn None, apr_Queue = Direct conn None,
                 apr_Limiter = Direct conn None, apr_Admin = admin,
                 apr_Capacity = floatEnv (bl_ParseFloat lib) env ''ENVELOPE_RATELIMIT_API_CAPACITY'' DefaultAPIRateLimitCapacity,
                 apr_RefillPerSecond = floatEnv (bl_ParseFloat lib) env ''ENVELOPE_RATELIMIT_API_REFILL_PER_SECOND''
                   DefaultAPIRateLimitRefillPerSecond\<rparr>,
               WebhookDispatcherI (Direct conn enc),
               InternalApiI \<lparr>itr_Addr = internalAPIAddr env, itr_Tokens = internalAPITokens env, itr_Directory = Direct conn enc,
                 itr_Store = Direct conn None, itr_Queue = Direct conn None, itr_Limiter = Direct conn None,
                 itr_Webhooks = Direct conn enc\<rparr>,
               RetentionPurgerI
                 \<lparr>pu_DefaultRetentionDays = intEnv env ''ENVELOPE_RETENTION_DEFAULT_DAYS'' DefaultRetentionDays,
                  pu_SweepInterval = hours (intEnv env ''ENVELOPE_RETENTION_SWEEP_INTERVAL_HOURS'' (DefaultSweepInterval div hour))\<rparr>
                 (Direct conn enc) (Direct conn None)])"

definition tls_for :: "('c, 'b) boot_lib \<Rightarrow> os_env \<Rightarrow> bool gomap \<Rightarrow> 'c option \<Rightarrow> aead option \<Rightarrow> gerr + 'c tls_plan" where
  "tls_for lib env selected conn enc =
     (if \<not> (gomap_bool selected roleSMTPInbound \<or> gomap_bool selected roleSMTPSubmission \<or> gomap_bool selected roleIMAP)
      then Inr NoTLS
      else if env ''ENVELOPE_ACME_EMAIL'' \<noteq> []
        then let tlsDir = (if conn = None
                   then NewClient (internalAPIURL env) (internalAPITokenFor env (dbRoleForProcess selected)) else Direct conn enc)
             in Inr (AcmeTLS tlsDir (env ''ENVELOPE_ACME_EMAIL'') (env ''ENVELOPE_ACME_STAGING'' \<noteq> []))
      else case SelfSignedTLSConfig (bl_tls lib) [''localhost''] of
             Inl e \<Rightarrow> Inl (ErrWrap ''generate dev TLS cert'' e)
           | Inr cfg \<Rightarrow> Inr (SelfSignedTLS cfg))"

text \<open>The dependency a role gets: a client when the internal API is activated for it.\<close>

definition role_provider :: "os_env \<Rightarrow> bool gomap \<Rightarrow> string \<Rightarrow> 'c provider \<Rightarrow> 'c provider" where
  "role_provider env selected role direct =
     (if internalAPIActivated env selected role
      then NewClient (internalAPIURL env) (internalAPITokenFor env role) else direct)"

definition inbound_instance :: "('c, 'b) boot_lib \<Rightarrow> os_env \<Rightarrow> bool gomap \<Rightarrow> 'c option \<Rightarrow> aead option \<Rightarrow> 'c tls_plan \<Rightarrow> 'c role_instance" where
  "inbound_instance lib env selected conn enc tls =
     (let via = role_provider env selected roleSMTPInbound; fe = floatEnv (bl_ParseFloat lib) env in
      SmtpInboundI \<lparr>inr_Addr = addrFromEnv env ''ENVELOPE_SMTP_INBOUND_ADDR'' '':25'',
        inr_Domain = addrFromEnv env ''ENVELOPE_DOMAIN'' ''localhost'', inr_TLS = tls, inr_Directory = via (Direct conn enc),
        inr_Store = via (Direct conn None), inr_Queue = Direct conn None, inr_Rspamd = rspamdURLFromEnv env,
        inr_Webhooks = via (Direct conn enc), inr_RateLimiter = via (Direct conn None),
        inr_limits = (fe ''ENVELOPE_RATELIMIT_IP_CAPACITY'' 20, fe ''ENVELOPE_RATELIMIT_IP_REFILL_PER_SECOND'' 1,
          fe ''ENVELOPE_RATELIMIT_SENDER_CAPACITY'' 10, fe ''ENVELOPE_RATELIMIT_SENDER_REFILL_PER_SECOND'' (1 / 2))\<rparr>)"

definition submission_instance :: "os_env \<Rightarrow> bool gomap \<Rightarrow> 'c option \<Rightarrow> aead option \<Rightarrow> 'c tls_plan \<Rightarrow> 'c role_instance" where
  "submission_instance env selected conn enc tls =
     (let via = role_provider env selected roleSMTPSubmission in
      SmtpSubmissionI \<lparr>sur_Addr = addrFromEnv env ''ENVELOPE_SMTP_SUBMISSION_ADDR'' '':587'',
        sur_Domain = addrFromEnv env ''ENVELOPE_DOMAIN'' ''localhost'', sur_TLS = tls, sur_Directory = via (Direct conn enc),
        sur_Store = via (Direct conn None), sur_Queue = via (Direct conn None), sur_Quota = via (Direct conn None),
        sur_Webhooks = via (Direct conn enc)\<rparr>)"

definition imap_instance :: "os_env \<Rightarrow> bool gomap \<Rightarrow> 'c option \<Rightarrow> aead option \<Rightarrow> 'c tls_plan \<Rightarrow> 'c role_instance" where
  "imap_instance env selected conn enc tls =
     (let via = role_provider env selected roleIMAP in
      ImapI \<lparr>imr_Addr = addrFromEnv env ''ENVELOPE_IMAP_ADDR'' '':993'', imr_TLS = tls,
        imr_Directory = via (Direct conn enc), imr_Store = via (Direct conn None)\<rparr>)"

definition deliverer_instance :: "os_env \<Rightarrow> 'c option \<Rightarrow> aead option \<Rightarrow> 'c role_instance" where
  "deliverer_instance env conn enc =
     DelivererI (Direct conn None) (Direct conn None) (Direct conn enc) (Direct conn enc)
       (addrFromEnv env ''ENVELOPE_DOMAIN'' ''localhost'') (intEnv env ''ENVELOPE_DELIVERER_SMTP_PORT'' 25)
       (intEnv env ''ENVELOPE_DELIVERER_PER_DOMAIN_CONCURRENCY'' 5)"

definition buildInstances :: "('c, 'b) boot_lib \<Rightarrow> os_env \<Rightarrow> bool gomap \<Rightarrow> 'c option \<Rightarrow> gerr + 'c role_instance list" where
  "buildInstances lib env selected conn =
     (case (if conn = None then Inr None else map_sum id Some (masterKeyFromEnv lib env)) of
        Inl e \<Rightarrow> Inl e
      | Inr enc \<Rightarrow>
     case (if gomap_bool selected roleAPI then api_instances lib env conn enc else Inr []) of
        Inl e \<Rightarrow> Inl e
      | Inr apis \<Rightarrow>
     case tls_for lib env selected conn enc of
        Inl e \<Rightarrow> Inl e
      | Inr tls \<Rightarrow>
          Inr ([metricsPlatform env] @ apis
            @ (if gomap_bool selected roleSMTPInbound then [inbound_instance lib env selected conn enc tls] else [])
            @ (if gomap_bool selected roleSMTPSubmission then [submission_instance env selected conn enc tls] else [])
            @ (if gomap_bool selected roleIMAP then [imap_instance env selected conn enc tls] else [])
            @ (if gomap_bool selected roleDeliverer then [deliverer_instance env conn enc] else [])))"

text \<open>What a starting process does to the database.\<close>

datatype boot_event = OpenDB string | RunMigrations | CloseDB

definition main_start :: "('c, 'b) boot_lib \<Rightarrow> os_env \<Rightarrow> string \<Rightarrow> boot_event list \<times> (gerr + 'c role_instance list)" where
  "main_start lib env csv =
     (case parseRoles csv of
        Inl e \<Rightarrow> ([], Inl e)
      | Inr selected \<Rightarrow>
          if needsDirectDB env selected
          then let mdsn = DSNForRole env ''migrator''; dsn = DSNForRole env (dbRoleForProcess selected) in
            (case db_Open (bl_gorm_Open lib) mdsn of
               Inl e \<Rightarrow> ([OpenDB mdsn], Inl e)
             | Inr migratorConn \<Rightarrow>
            case bl_migrations lib migratorConn of
               Some e \<Rightarrow> ([OpenDB mdsn, RunMigrations], Inl e)
             | None \<Rightarrow>
            case db_Open (bl_gorm_Open lib) dsn of
               Inl e \<Rightarrow> ([OpenDB mdsn, RunMigrations, CloseDB, OpenDB dsn], Inl e)
             | Inr conn \<Rightarrow> ([OpenDB mdsn, RunMigrations, CloseDB, OpenDB dsn], buildInstances lib env selected (Some conn)))
          else ([], buildInstances lib env selected None))"

end
