(* ===== verification/Internal_Access.thy ===== *)
theory Internal_Access
  imports Internal_Api Smtp_Submission
begin

section \<open>What the internal API grants\<close>

text \<open>
  Least privilege on the server (what a token can read and change), and transparency of the clients:
  a role that holds the scope, over a network that answers, gets what a direct call would give.
\<close>

subsection \<open>The server\<close>

lemma find_SomeD: "find P xs = Some x \<Longrightarrow> P x \<and> x \<in> set xs"
  by (metis find_Some_iff nth_mem)

lemma find_token:
  assumes "distinct (map fst toks)"
  shows "find (\<lambda>(candidate, _). ConstantTimeEqual candidate token) (map_range n toks) = map_option (Pair token) (map_of toks token)"
proof (cases "map_of toks token")
  case None
  then have "(token, r) \<notin> set toks" for r using weak_map_of_SomeI by fastforce
  then have "find (\<lambda>(candidate, _). ConstantTimeEqual candidate token) (map_range n toks) = None"
    by (auto simp: find_None_iff ConstantTimeEqual_def)
  then show ?thesis using None by simp
next
  case (Some role)
  then have m: "(token, role) \<in> set (map_range n toks)" by (simp add: map_of_SomeD)
  have u: "r = role" if "(token, r) \<in> set (map_range n toks)" for r
    using that Some assms by simp
  have "find (\<lambda>(candidate, _). ConstantTimeEqual candidate token) (map_range n toks) \<noteq> None"
    using m by (auto simp: find_None_iff ConstantTimeEqual_def)
  then obtain x where x: "find (\<lambda>(candidate, _). ConstantTimeEqual candidate token) (map_range n toks) = Some x" by blast
  then have "x \<in> set (map_range n toks)" "fst x = token" by (auto dest!: find_SomeD simp: ConstantTimeEqual_def)
  then have "x = (token, role)" using u by (metis prod.collapse)
  then show ?thesis using x Some by simp
qed

lemma granted_roles:
  "role_granted role ScopeStoreWrite \<longleftrightarrow> role \<in> {RoleSMTPInbound, RoleSMTPSubmission}"
  "role_granted role ScopeStoreUpdateFlags \<longleftrightarrow> role = RoleIMAP"
  "role_granted role ScopeStoreRead \<longleftrightarrow> role = RoleIMAP"
  "role_granted role ScopeStoreList \<longleftrightarrow> role = RoleIMAP"
  "role_granted role ScopeQueueEnqueue \<longleftrightarrow> role = RoleSMTPSubmission"
  "role_granted role ScopeRateLimitAllow \<longleftrightarrow> role \<in> {RoleSMTPInbound, RoleSMTPSubmission}"
  "role_granted role ScopeWebhookEnqueue \<longleftrightarrow> role = RoleSMTPInbound"
  "role_granted role ScopeDirectoryVhost \<longleftrightarrow> role \<in> {RoleSMTPInbound, RoleSMTPSubmission}"
  "role_granted role ScopeDirectoryAuthenticate \<longleftrightarrow> role \<in> {RoleSMTPSubmission, RoleIMAP}"
  by (auto simp: role_granted_def roleScopes_def gomap_bool_def scope_defs role_defs)

lemma authorize_cases:
  assumes "authorize srv dr token scope next st = (resp, st')"
  obtains code msg where "resp = ErrorResponse code msg" "code = 401 \<or> code = 403" "st' = st"
  | role where "(token, role) \<in> set (isv_tokens srv)" "role_granted role scope" "next st = (resp, st')"
proof -
  let ?f = "find (\<lambda>(candidate, _). ConstantTimeEqual candidate token) (map_range (cd_seed dr) (isv_tokens srv))"
  have f: "(token, role) \<in> set (isv_tokens srv)" if "?f = Some (t, role)" for t role
    using that by (auto dest!: find_SomeD simp: ConstantTimeEqual_def)
  show thesis
  proof (cases "token = [] \<or> ?f = None")
    case True
    then have "\<exists>msg. resp = ErrorResponse 401 msg \<and> st' = st" using assms by (auto simp: authorize_def writeError_def Let_def split: if_splits)
    then show thesis using that(1) by blast
  next
    case False
    then obtain t role where r: "?f = Some (t, role)" by auto
    show thesis
    proof (cases "role = [] \<or> \<not> role_granted role scope")
      case True
      then have "\<exists>code msg. resp = ErrorResponse code msg \<and> (code = 401 \<or> code = 403) \<and> st' = st"
        using assms False r by (auto simp: authorize_def writeError_def Let_def split: if_splits)
      then show thesis using that(1) by blast
    next
      case ok: False
      then have "next st = (resp, st')" using assms False r by (simp add: authorize_def Let_def)
      then show thesis using that(2)[OF f[OF r]] ok by blast
    qed
  qed
qed

text \<open>What the handler behind a route may change and answer.\<close>

lemma route_effect:
  assumes "route_handler srv dr ctx req st = (resp, st')"
  shows "ia_dir st' = ia_dir st"
    "ia_queue st' \<noteq> ia_queue st \<Longrightarrow> \<exists>b. req = QueueEnqueue b"
    "ia_hooks st' \<noteq> ia_hooks st \<Longrightarrow> \<exists>b. req = WebhookEnqueue b"
    "ia_limiter st' \<noteq> ia_limiter st \<Longrightarrow> \<exists>b. req = RateLimitAllow b"
    "ia_store st' \<noteq> ia_store st \<Longrightarrow> (\<exists>b. req = StoreUpdateFlags b) \<or> (\<exists>v m b. req = StoreWrite v m b)"
    "resp = ReadBody body \<Longrightarrow> \<exists>v m k. req = StoreRead v m k"
    "resp = ListResponse ds \<Longrightarrow> \<exists>b. req = StoreList b"
    "resp = VhostResponse d \<Longrightarrow> \<exists>b. req = DirectoryVhost b"
  using assms
  by (cases req; force simp: internal_handlers writeError_def split: sum.splits option.splits prod.splits if_splits)+

lemma hooks_need_inbound:
  assumes "Server_Handler srv dr ctx token req st = (resp, st')" "ia_hooks st' \<noteq> ia_hooks st"
  shows "(token, RoleSMTPInbound) \<in> set (isv_tokens srv)"
  using assms(1)[unfolded Server_Handler_def]
proof (cases rule: authorize_cases)
  case (2 role)
  then show ?thesis using route_effect(3)[OF 2(3) assms(2)] by (auto simp: granted_roles)
qed (use assms(2) in simp)

lemma Do_hooks:
  assumes "\<And>tok. header_value (hc_token c) = Some tok \<Longrightarrow> (tok, RoleSMTPInbound) \<notin> set (isv_tokens (hc_server c))"
  shows "ia_hooks (snd (hc_Do c ctx req st)) = ia_hooks st"
proof (cases "ctx = None \<and> header_value (hc_token c) \<noteq> None")
  case True
  then obtain tok where t: "header_value (hc_token c) = Some tok" by blast
  obtain resp st' where h: "Server_Handler (hc_server c) (hc_draws c) None tok req st = (resp, st')" by fastforce
  then have "ia_hooks st' = ia_hooks st" using hooks_need_inbound assms[OF t] by blast
  then show ?thesis using True t h by (simp add: hc_Do_def split: network.splits)
qed (auto simp: hc_Do_def split: option.splits)

text \<open>
  C10: Least privilege of the internal API. A request that is answered with anything but 401 or 403, or
  changes anything, carries a configured token whose role is granted the scope of the route. So no
  token can change the directory; only smtp-submission's can queue a job; only smtp-inbound's can fire
  an event; imap's cannot write a message but may change flags, and the SMTP roles the reverse; only
  imap's can read or list mail, and no imap token learns a vhost or its DKIM key.
\<close>

theorem internal_api_least_privilege:
  assumes "Server_Handler srv dr ctx token req st = (resp, st')"
    and "st' \<noteq> st \<or> (\<forall>code msg. resp = ErrorResponse code msg \<longrightarrow> code \<noteq> 401 \<and> code \<noteq> 403)"
  shows "\<exists>role. (token, role) \<in> set (isv_tokens srv) \<and> role_granted role (route_scope req)
    \<and> ia_dir st' = ia_dir st
    \<and> (ia_queue st' \<noteq> ia_queue st \<longrightarrow> role = RoleSMTPSubmission)
    \<and> (ia_hooks st' \<noteq> ia_hooks st \<longrightarrow> role = RoleSMTPInbound)
    \<and> (ia_limiter st' \<noteq> ia_limiter st \<longrightarrow> role \<in> {RoleSMTPInbound, RoleSMTPSubmission})
    \<and> (ia_store st' \<noteq> ia_store st \<longrightarrow> (if role = RoleIMAP then \<exists>b. req = StoreUpdateFlags b else \<exists>v m b. req = StoreWrite v m b))
    \<and> ((\<exists>b. resp = ReadBody b) \<or> (\<exists>ds. resp = ListResponse ds) \<longrightarrow> role = RoleIMAP)
    \<and> ((\<exists>d. resp = VhostResponse d) \<longrightarrow> role \<noteq> RoleIMAP)"
  using assms(1)[unfolded Server_Handler_def]
proof (cases rule: authorize_cases)
  case (1 code msg)
  then show ?thesis using assms(2) by auto
next
  case (2 role)
  note e = route_effect[OF 2(3)]
  show ?thesis
  proof (intro exI[of _ role] conjI)
    show "ia_queue st' \<noteq> ia_queue st \<longrightarrow> role = RoleSMTPSubmission" using e(2) 2(2) by (auto simp: granted_roles)
    show "ia_hooks st' \<noteq> ia_hooks st \<longrightarrow> role = RoleSMTPInbound" using e(3) 2(2) by (auto simp: granted_roles)
    show "ia_limiter st' \<noteq> ia_limiter st \<longrightarrow> role \<in> {RoleSMTPInbound, RoleSMTPSubmission}" using e(4) 2(2) by (auto simp: granted_roles)
    show "ia_store st' \<noteq> ia_store st \<longrightarrow> (if role = RoleIMAP then \<exists>b. req = StoreUpdateFlags b else \<exists>v m b. req = StoreWrite v m b)"
      using e(5) 2(2) by (auto simp: granted_roles role_defs)
    show "(\<exists>b. resp = ReadBody b) \<or> (\<exists>ds. resp = ListResponse ds) \<longrightarrow> role = RoleIMAP" using e(6,7) 2(2) by (auto simp: granted_roles)
    show "(\<exists>d. resp = VhostResponse d) \<longrightarrow> role \<noteq> RoleIMAP" using e(8) 2(2) by (auto simp: granted_roles role_defs)
  qed (use 2(1,2) e(1) in auto)
qed

subsection \<open>The clients\<close>

text \<open>A client whose token arrives and is configured on the server, over a network that answers.\<close>

definition link_up :: "('d, 's, 'q, 'l, 'h) http_client \<Rightarrow> string \<Rightarrow> bool" where
  "link_up c role \<longleftrightarrow> hc_net c = Answered \<and> distinct (map fst (isv_tokens (hc_server c))) \<and> role \<noteq> []
     \<and> (\<exists>tok. header_value (hc_token c) = Some tok \<and> tok \<noteq> [] \<and> map_of (isv_tokens (hc_server c)) tok = Some role)"

text \<open>The outcomes of a call and of the call it stands for agree but for the text of an error.\<close>

definition same_outcome :: "gerr + 'a \<Rightarrow> gerr + 'a \<Rightarrow> bool" where
  "same_outcome = rel_sum (\<lambda>_ _. True) (=)"

lemma same_outcome_simps [simp]:
  "same_outcome (Inl e) (Inl e')" "same_outcome (Inr x) (Inr y) \<longleftrightarrow> x = y" "\<not> same_outcome (Inl e) (Inr x)" "\<not> same_outcome (Inr x) (Inl e)"
  by (simp_all add: same_outcome_def)

text \<open>
  What travels unchanged: metadata, jobs and vhosts whose texts are UTF-8 and whose times JSON can
  write, a fresh job, and a key whose coding inverts.
\<close>

definition plain_meta :: "message_meta \<Rightarrow> bool" where
  "plain_meta m \<longleftrightarrow> utf8 (ref_Vhost (meta_Ref m)) \<and> utf8 (ref_Mailbox (meta_Ref m)) \<and> utf8 (ref_Key (meta_Ref m))
     \<and> list_all utf8 (meta_Flags m) \<and> json_time_ok (meta_CreatedAt m)"

definition plain_job :: "job \<Rightarrow> bool" where
  "plain_job j \<longleftrightarrow> utf8 (job_ID j) \<and> utf8 (job_Vhost j) \<and> utf8 (job_From j) \<and> utf8 (job_To j) \<and> utf8 (job_BodyRef j)
     \<and> utf8 (job_CorrelationID j) \<and> job_Attempts j = 0 \<and> job_LastError j = [] \<and> json_time_ok (job_NextAttemptAt j)"

definition plain_vhost :: "pem_codec \<Rightarrow> vhost \<Rightarrow> bool" where
  "plain_vhost pem v \<longleftrightarrow> utf8 (vh_ID v) \<and> utf8 (vh_Domain v) \<and> utf8 (vh_DKIMSelector v)
     \<and> (\<forall>key. vh_DKIMKey v = Some key \<longrightarrow>
          (let text = rsaKeyToPEM pem key in text \<noteq> [] \<and> utf8 text \<and> pemToRSAKey pem text = Inr key))"

locale live_link =
  fixes c :: "('d, 's, 'q, 'l, 'h) http_client" and role :: string
  assumes up: "link_up c role"
begin

lemma do_granted:
  assumes "role_granted role (route_scope req)"
  shows "hc_Do c None req st = (case route_handler (hc_server c) (hc_draws c) None req st of (resp, st') \<Rightarrow> (Inr resp, st'))"
proof -
  obtain tok where t: "header_value (hc_token c) = Some tok" "tok \<noteq> []" "map_of (isv_tokens (hc_server c)) tok = Some role"
    "hc_net c = Answered" "distinct (map fst (isv_tokens (hc_server c)))" "role \<noteq> []" using up by (auto simp: link_up_def)
  then have "Server_Handler (hc_server c) (hc_draws c) None tok req st = route_handler (hc_server c) (hc_draws c) None req st"
    using assms by (simp add: Server_Handler_def authorize_def find_token)
  then show ?thesis using t by (simp add: hc_Do_def)
qed

lemma do_refused:
  assumes "\<not> role_granted role (route_scope req)"
  shows "\<exists>msg. hc_Do c None req st = (Inr (ErrorResponse 403 msg), st)"
proof -
  obtain tok where t: "header_value (hc_token c) = Some tok" "tok \<noteq> []" "map_of (isv_tokens (hc_server c)) tok = Some role"
    "hc_net c = Answered" "distinct (map fst (isv_tokens (hc_server c)))" "role \<noteq> []" using up by (auto simp: link_up_def)
  then obtain msg where "Server_Handler (hc_server c) (hc_draws c) None tok req st = (ErrorResponse 403 msg, st)"
    using assms by (simp add: Server_Handler_def authorize_def find_token writeError_def)
  then show ?thesis using t by (simp add: hc_Do_def)
qed

lemma ref_eta [simp]: "\<lparr>ref_Vhost = ref_Vhost r, ref_Mailbox = ref_Mailbox r, ref_Key = ref_Key r\<rparr> = r"
  by (cases r) simp

lemma write_transparent:
  assumes "role_granted role ScopeStoreWrite" "v \<noteq> []" "m \<noteq> []" "s_Write (isv_store (hc_server c)) None v m body (ia_store st) = (x, s')"
  shows "\<exists>y. StoreClient_Write c None v m body st = (y, st\<lparr>ia_store := s'\<rparr>) \<and> same_outcome y (map_sum id json_ref x)"
  using assms by (cases x) (auto simp: StoreClient_Write_def do_granted handleStoreWrite_def writeError_def)

lemma read_transparent:
  assumes "role_granted role ScopeStoreRead" "ref_Vhost ref \<noteq> []" "ref_Mailbox ref \<noteq> []" "ref_Key ref \<noteq> []"
  shows "same_outcome (StoreClient_Read c None ref st) (s_Read (isv_store (hc_server c)) None ref (ia_store st))"
  using assms by (cases "s_Read (isv_store (hc_server c)) None ref (ia_store st)")
    (auto simp: StoreClient_Read_def do_granted handleStoreRead_def writeError_def)

lemma meta_roundtrip: "plain_meta m \<Longrightarrow> meta_of_dto (json_meta (meta_to_dto m)) = m"
  by (cases m) (auto simp: meta_of_dto_def json_meta_def meta_to_dto_def plain_meta_def list_all_iff intro!: map_idI)

lemma list_transparent:
  assumes "role_granted role ScopeStoreList" "utf8 v" "utf8 m"
    "\<And>ms. s_List (isv_store (hc_server c)) None (cd_seed (hc_draws c)) v m (ia_store st) = Inr ms \<Longrightarrow> list_all plain_meta ms"
  shows "same_outcome (StoreClient_List c None v m st) (s_List (isv_store (hc_server c)) None (cd_seed (hc_draws c)) v m (ia_store st))"
proof (cases "s_List (isv_store (hc_server c)) None (cd_seed (hc_draws c)) v m (ia_store st)")
  case (Inl e)
  then show ?thesis using assms(1-3)
    by (simp add: StoreClient_List_def doJSON_def do_granted handleStoreList_def json_list_def writeError_def)
next
  case (Inr ms)
  have p: "list_all plain_meta ms" using assms(4)[OF Inr] .
  then have "list_all (\<lambda>m. json_time_ok (meta_CreatedAt m)) ms" by (auto simp: list_all_iff plain_meta_def)
  moreover have "map (meta_of_dto \<circ> (\<lambda>m. json_meta (meta_to_dto m))) ms = ms"
    using p by (intro map_idI) (simp add: list_all_iff meta_roundtrip)
  ultimately show ?thesis using assms(1-3) Inr
    by (simp add: StoreClient_List_def doJSON_def do_granted handleStoreList_def json_list_def)
qed

lemma flags_transparent:
  assumes "role_granted role ScopeStoreUpdateFlags" "utf8 (ref_Vhost ref)" "utf8 (ref_Mailbox ref)" "utf8 (ref_Key ref)" "list_all utf8 fl"
    "s_UpdateFlags (isv_store (hc_server c)) None ref fl (ia_store st) = (x, s')"
  shows "\<exists>y. StoreClient_UpdateFlags c None ref fl st = (y, st\<lparr>ia_store := s'\<rparr>) \<and> (y = None \<longleftrightarrow> x = None)"
proof -
  have f: "map json_text fl = fl" using assms(5) by (intro map_idI) (simp add: list_all_iff)
  show ?thesis using assms f
    by (cases x) (auto simp: StoreClient_UpdateFlags_def doJSON_def do_granted handleStoreUpdateFlags_def json_update_flags_def
        no_result_def writeError_def)
qed

lemma enqueue_transparent:
  assumes "role_granted role ScopeQueueEnqueue" "plain_job j" "q_Enqueue (isv_queue (hc_server c)) None j (ia_queue st) = (x, q')"
  shows "\<exists>y. QueueClient_Enqueue c None j st = (y, st\<lparr>ia_queue := q'\<rparr>) \<and> (y = None \<longleftrightarrow> x = None)"
proof -
  have "json_enqueue_job (job_to_request j) = Inr (job_to_request j)" "job_of_request (job_to_request j) = j"
    using assms(2) by (cases j; simp add: json_enqueue_job_def job_to_request_def job_of_request_def plain_job_def)+
  then show ?thesis using assms(1,3)
    by (cases x) (auto simp: QueueClient_Enqueue_def doJSON_def do_granted handleQueueEnqueue_def no_result_def writeError_def)
qed

lemma allow_transparent:
  assumes "role_granted role ScopeRateLimitAllow" "utf8 key"
    "l_Allow (isv_limiter (hc_server c)) (cd_now (hc_draws c)) key cap rps (ia_limiter st) = (x, l')"
  shows "\<exists>y. RateLimiterClient_Allow c key cap rps st = (y, st\<lparr>ia_limiter := l'\<rparr>) \<and> same_outcome y x"
  using assms by (cases x) (auto simp: RateLimiterClient_Allow_def doJSON_def do_granted handleRateLimitAllow_def json_allow_def writeError_def)

lemma webhook_transparent:
  assumes "role_granted role ScopeWebhookEnqueue" "utf8 v" "utf8 et" "isv_webhooks (hc_server c) None v et payload (ia_hooks st) = (x, h')"
  shows "\<exists>y. WebhookClient_Enqueue c None v et payload st = (y, st\<lparr>ia_hooks := h'\<rparr>) \<and> (y = None \<longleftrightarrow> x = None)"
  using assms by (cases x) (auto simp: WebhookClient_Enqueue_def doJSON_def do_granted handleWebhookEnqueue_def json_webhook_def
      no_result_def writeError_def)

lemma authenticate_transparent:
  assumes "role_granted role ScopeDirectoryAuthenticate" "utf8 v" "utf8 lp" "utf8 pw"
  shows "DirectoryClient_Authenticate c v lp pw st = dir_Authenticate (isv_dir (hc_server c)) v lp pw (ia_dir st)"
  using assms by (simp add: DirectoryClient_Authenticate_def doJSON_def do_granted handleAuthenticate_def json_authenticate_def)

lemma vhost_roundtrip:
  assumes "plain_vhost (isv_pem (hc_server c)) v"
  shows "vhost_of_dto (isv_pem (hc_server c)) (json_vhost (vhost_to_dto (isv_pem (hc_server c)) v)) = v\<lparr>vh_AccountID := []\<rparr>"
  using assms by (cases v; cases "vh_DKIMKey v")
    (auto simp: vhost_of_dto_def json_vhost_def vhost_to_dto_def plain_vhost_def zero_vhost_def Let_def)

lemma vhost_transparent:
  assumes "role_granted role ScopeDirectoryVhost" "utf8 domain"
    "\<And>v. dir_Vhost (isv_dir (hc_server c)) domain (ia_dir st) = Some v \<Longrightarrow> plain_vhost (isv_pem (hc_server c)) v"
  shows "DirectoryClient_Vhost c domain st
    = map_option (\<lambda>v. v\<lparr>vh_AccountID := []\<rparr>) (dir_Vhost (isv_dir (hc_server c)) domain (ia_dir st))"
  using assms by (cases "dir_Vhost (isv_dir (hc_server c)) domain (ia_dir st)")
    (auto simp: DirectoryClient_Vhost_def doJSON_def do_granted handleVhost_def vhost_roundtrip)

end

text \<open>
  C13: The clients of the internal API are transparent. For a role whose token is configured, over a
  network that answers, every operation the role holds the scope of has the outcome and the effect of
  the direct call, the text of errors apart: writing, reading, listing and flagging messages, queueing
  a fresh job, the rate limiter, firing an event, authenticating, and looking up a vhost, which only
  loses its account ID. The inputs are those JSON keeps: UTF-8 texts and times it can write.
\<close>

theorem internal_clients_transparent:
  fixes c :: "('d, 's, 'q, 'l, 'h) http_client"
  assumes "link_up c role" and srv: "srv = hc_server c"
  shows "(role_granted role ScopeStoreWrite \<and> v \<noteq> [] \<and> m \<noteq> [] \<longrightarrow>
      (\<exists>y. StoreClient_Write c None v m body st = (y, st\<lparr>ia_store := snd (s_Write (isv_store srv) None v m body (ia_store st))\<rparr>)
        \<and> same_outcome y (map_sum id json_ref (fst (s_Write (isv_store srv) None v m body (ia_store st))))))
    \<and> (role_granted role ScopeStoreRead \<and> ref_Vhost ref \<noteq> [] \<and> ref_Mailbox ref \<noteq> [] \<and> ref_Key ref \<noteq> [] \<longrightarrow>
      same_outcome (StoreClient_Read c None ref st) (s_Read (isv_store srv) None ref (ia_store st)))
    \<and> (role_granted role ScopeStoreList \<and> utf8 v \<and> utf8 m
        \<and> (\<forall>ms. s_List (isv_store srv) None (cd_seed (hc_draws c)) v m (ia_store st) = Inr ms \<longrightarrow> list_all plain_meta ms) \<longrightarrow>
      same_outcome (StoreClient_List c None v m st) (s_List (isv_store srv) None (cd_seed (hc_draws c)) v m (ia_store st)))
    \<and> (role_granted role ScopeStoreUpdateFlags \<and> utf8 (ref_Vhost ref) \<and> utf8 (ref_Mailbox ref) \<and> utf8 (ref_Key ref) \<and> list_all utf8 fl \<longrightarrow>
      (\<exists>y. StoreClient_UpdateFlags c None ref fl st = (y, st\<lparr>ia_store := snd (s_UpdateFlags (isv_store srv) None ref fl (ia_store st))\<rparr>)
        \<and> (y = None \<longleftrightarrow> fst (s_UpdateFlags (isv_store srv) None ref fl (ia_store st)) = None)))
    \<and> (role_granted role ScopeQueueEnqueue \<and> plain_job j \<longrightarrow>
      (\<exists>y. QueueClient_Enqueue c None j st = (y, st\<lparr>ia_queue := snd (q_Enqueue (isv_queue srv) None j (ia_queue st))\<rparr>)
        \<and> (y = None \<longleftrightarrow> fst (q_Enqueue (isv_queue srv) None j (ia_queue st)) = None)))
    \<and> (role_granted role ScopeRateLimitAllow \<and> utf8 key \<longrightarrow>
      (\<exists>y. RateLimiterClient_Allow c key cap rps st
          = (y, st\<lparr>ia_limiter := snd (l_Allow (isv_limiter srv) (cd_now (hc_draws c)) key cap rps (ia_limiter st))\<rparr>)
        \<and> same_outcome y (fst (l_Allow (isv_limiter srv) (cd_now (hc_draws c)) key cap rps (ia_limiter st)))))
    \<and> (role_granted role ScopeWebhookEnqueue \<and> utf8 v \<and> utf8 et \<longrightarrow>
      (\<exists>y. WebhookClient_Enqueue c None v et payload st = (y, st\<lparr>ia_hooks := snd (isv_webhooks srv None v et payload (ia_hooks st))\<rparr>)
        \<and> (y = None \<longleftrightarrow> fst (isv_webhooks srv None v et payload (ia_hooks st)) = None)))
    \<and> (role_granted role ScopeDirectoryAuthenticate \<and> utf8 v \<and> utf8 lp \<and> utf8 pw \<longrightarrow>
      DirectoryClient_Authenticate c v lp pw st = dir_Authenticate (isv_dir srv) v lp pw (ia_dir st))
    \<and> (role_granted role ScopeDirectoryVhost \<and> utf8 v
        \<and> (\<forall>vh. dir_Vhost (isv_dir srv) v (ia_dir st) = Some vh \<longrightarrow> plain_vhost (isv_pem srv) vh) \<longrightarrow>
      DirectoryClient_Vhost c v st = map_option (\<lambda>vh. vh\<lparr>vh_AccountID := []\<rparr>) (dir_Vhost (isv_dir srv) v (ia_dir st)))"
proof -
  note l = live_link.intro[OF assms(1)]
  show ?thesis unfolding srv
    using live_link.write_transparent[OF l] live_link.read_transparent[OF l] live_link.list_transparent[OF l]
      live_link.flags_transparent[OF l] live_link.enqueue_transparent[OF l] live_link.allow_transparent[OF l]
      live_link.webhook_transparent[OF l] live_link.authenticate_transparent[OF l] live_link.vhost_transparent[OF l]
    by (intro conjI impI; elim conjE; (simp add: prod.collapse)?)
qed

subsection \<open>A deployment\<close>

text \<open>A server over the in-memory directory, a maildir and the in-memory queue, with the tokens of three roles.\<close>

definition demo_server :: "(memory_directory, maildir, memory_backend, unit, nat) internal_server" where
  "demo_server = \<lparr>isv_dir = memory_directory_ops, isv_store = Maildir_ops, isv_queue = MemoryBackend_ops,
     isv_limiter = \<lparr>l_Allow = (\<lambda>now key cap rps l. (Inr True, l))\<rparr>, isv_webhooks = (\<lambda>ctx v et p n. (None, Suc n)),
     isv_tokens = [(''in'', RoleSMTPInbound), (''sub'', RoleSMTPSubmission), (''im'', RoleIMAP)],
     isv_pem = \<lparr>pc_Marshal = id, pc_Parse = Inr, pc_Encode = id, pc_Decode = Some\<rparr>, isv_lib = \<lparr>smtp_temporary = (\<lambda>s. 400 \<le> se_code s \<and> se_code s < 500), smtp_error_text = se_message\<rparr>\<rparr>"

definition demo_internal :: "(memory_directory, maildir, memory_backend, unit, nat) internal_state" where
  "demo_internal = \<lparr>ia_dir = demo_sub_dir, ia_store = demo_md, ia_queue = NewMemoryBackend, ia_limiter = (), ia_hooks = 0\<rparr>"

definition demo_client :: "string \<Rightarrow> (memory_directory, maildir, memory_backend, unit, nat) http_client" where
  "demo_client tok = \<lparr>hc_server = demo_server, hc_token = tok, hc_net = Answered, hc_draws = \<lparr>cd_now = 0, cd_seed = 0\<rparr>\<rparr>"

lemma demo_link: "link_up (demo_client ''sub'') RoleSMTPSubmission"
  by (simp add: link_up_def demo_client_def demo_server_def header_value_def role_defs)

lemma demo_plain_job: "plain_job (demo_job ''a'' 5)"
  by (simp add: plain_job_def demo_job_def utf8_ascii json_time_ok_def)

interpretation dlk: live_link "demo_client ''sub''" RoleSMTPSubmission
  by (rule live_link.intro) (rule demo_link)

theorem internal_api_least_privilege_witness:
  "\<exists>st'. Server_Handler demo_server \<lparr>cd_now = 0, cd_seed = 0\<rparr> None ''sub'' (QueueEnqueue (Inr (job_to_request (demo_job ''a'' 5)))) demo_internal
       = (EmptyBody, st')
     \<and> (\<exists>role. (''sub'', role) \<in> set (isv_tokens demo_server) \<and> role_granted role ScopeQueueEnqueue)"
proof -
  let ?req = "QueueEnqueue (Inr (job_to_request (demo_job ''a'' 5)))"
  have h: "\<exists>st'. Server_Handler demo_server \<lparr>cd_now = 0, cd_seed = 0\<rparr> None ''sub'' ?req demo_internal = (EmptyBody, st')"
    using dlk.do_granted[of ?req demo_internal]
    by (auto simp: hc_Do_def demo_client_def header_value_def granted_roles handleQueueEnqueue_def demo_server_def demo_internal_def
        MemoryBackend_ops_def MemoryBackend_Enqueue_def mem_Enqueue_def job_of_request_def job_to_request_def demo_job_def
        split: prod.splits)
  then obtain st' where s: "Server_Handler demo_server \<lparr>cd_now = 0, cd_seed = 0\<rparr> None ''sub'' ?req demo_internal = (EmptyBody, st')" by blast
  show ?thesis using internal_api_least_privilege[OF s] s by auto
qed

theorem internal_clients_transparent_witness:
  "\<exists>y q. QueueClient_Enqueue (demo_client ''sub'') None (demo_job ''a'' 5) demo_internal = (y, demo_internal\<lparr>ia_queue := q\<rparr>)
     \<and> y = None \<and> MemoryBackend_Enqueue None (demo_job ''a'' 5) NewMemoryBackend = (None, q)"
proof -
  have q: "isv_queue (hc_server (demo_client ''sub'')) = MemoryBackend_ops" "ia_queue demo_internal = NewMemoryBackend"
    by (simp_all add: demo_client_def demo_server_def demo_internal_def)
  have e: "fst (MemoryBackend_Enqueue None (demo_job ''a'' 5) NewMemoryBackend) = None"
    by (simp add: MemoryBackend_Enqueue_def mem_Enqueue_def demo_job_def)
  have g: "role_granted RoleSMTPSubmission ScopeQueueEnqueue" by (simp add: granted_roles)
  obtain y where "QueueClient_Enqueue (demo_client ''sub'') None (demo_job ''a'' 5) demo_internal
      = (y, demo_internal\<lparr>ia_queue := snd (MemoryBackend_Enqueue None (demo_job ''a'' 5) NewMemoryBackend)\<rparr>)" "y = None"
    using internal_clients_transparent[OF demo_link refl, where j = "demo_job ''a'' 5" and st = demo_internal] g demo_plain_job e
    by (auto simp: q MemoryBackend_ops_def)
  then show ?thesis using e by (metis prod.collapse)
qed

text \<open>
  C34: A submission role that reaches the api role over the internal API loses its events. Its token is
  not granted the scope of the webhook route, so whatever the network does, no \<open>DATA\<close> changes the
  webhook state, although the role's dispatcher is the client of that route.
\<close>

theorem submission_events_refused:
  fixes env :: "('l, 'd, 's, 'q, 'h) submission_env"
  assumes "se_Webhooks env = Some (WebhookClient_enqueuer c base)" "submission_Data env d now draws r s st = (e, st')"
    and "\<forall>tok. header_value (hc_token c) = Some tok \<longrightarrow> (tok, RoleSMTPInbound) \<notin> set (isv_tokens (hc_server c))"
  shows "sst_hooks st' = sst_hooks st"
proof -
  have "snd (WebhookClient_enqueuer c base ctx v et p h) = h" for ctx v et p h
    using Do_hooks[of c ctx _ "base\<lparr>ia_hooks := h\<rparr>"] assms(3)
    by (auto simp: WebhookClient_enqueuer_def WebhookClient_Enqueue_def doJSON_def no_result_def
        split: sum.splits prod.splits wire_response.splits) (metis snd_conv)+
  then have "fireQueued (se_Webhooks env) (se_payload env) s h = h" for h
    by (simp add: fireQueued_def assms(1) split: sum.splits)
  then show ?thesis using submission_Data_cases[OF assms(2)] by auto
qed

theorem submission_events_refused_witness:
  "sst_hooks (snd (submission_Data (demo_submission\<lparr>se_Webhooks := Some (WebhookClient_enqueuer (demo_client ''sub'') demo_internal)\<rparr>)
      demo_sub_dir 5 (\<lambda>i. (''j'', 5)) (Inr ''hi'') demo_sub_session demo_sub_state)) = 0"
proof -
  let ?r = "submission_Data (demo_submission\<lparr>se_Webhooks := Some (WebhookClient_enqueuer (demo_client ''sub'') demo_internal)\<rparr>)
      demo_sub_dir 5 (\<lambda>i. (''j'', 5)) (Inr ''hi'') demo_sub_session demo_sub_state"
  have "sst_hooks (snd ?r) = sst_hooks demo_sub_state"
    by (rule submission_events_refused[where e = "fst ?r" and c = "demo_client ''sub''"])
      (simp_all add: demo_client_def demo_server_def header_value_def role_defs)
  then show ?thesis by (simp add: demo_sub_state_def)
qed

end
