(* ===== verification/Boot_Wiring.thy ===== *)
theory Boot_Wiring
  imports Boot Internal_Access
begin

section \<open>What a process runs and what it holds\<close>

text \<open>
  The roles a command line starts, that an activated role depends on no database credential and no key
  but its own token, that no role is ever handed a store without a connection behind it, and that the
  tokens the api role and an activated role read from the environment make the internal API work.
\<close>

subsection \<open>Roles\<close>

definition role_words :: "string \<Rightarrow> string list" where
  "role_words csv = filter (\<lambda>r. r \<noteq> []) (map trim_space (go_split (CHR '','') csv))"

lemma isKnownRole_set: "isKnownRole r \<longleftrightarrow> r \<in> set allRoles"
  by (simp add: isKnownRole_def list_ex_iff)

lemma parse_roles_spec:
  "parse_roles ws sel =
    (case find (\<lambda>r. r \<notin> set allRoles) (filter (\<lambda>r. r \<noteq> []) (map trim_space ws)) of
       Some r \<Rightarrow> Inl (ErrNew (''unknown role '' @ go_quote r @ '' (valid: '' @ go_join '', '' allRoles @ '')''))
     | None \<Rightarrow> Inr (fold (\<lambda>r. AList.update r True) (filter (\<lambda>r. r \<noteq> []) (map trim_space ws)) sel))"
proof (induction ws arbitrary: sel)
  case (Cons w ws)
  then show ?case by (auto simp: isKnownRole_set Let_def split: option.splits)
qed simp

lemma selected_fold:
  "gomap_bool (fold (\<lambda>r. AList.update r True) ws sel) r \<longleftrightarrow> r \<in> set ws \<or> gomap_bool sel r"
  "fst ` set (fold (\<lambda>r. AList.update r True) ws sel) = set ws \<union> fst ` set sel"
  "distinct (map fst sel) \<Longrightarrow> distinct (map fst (fold (\<lambda>r. AList.update r True) ws sel))"
  by (induction ws arbitrary: sel) (auto simp: dom_update distinct_update)

lemma parseRoles_spec:
  "parseRoles csv =
    (case find (\<lambda>r. r \<notin> set allRoles) (role_words csv) of
       Some r \<Rightarrow> Inl (ErrNew (''unknown role '' @ go_quote r @ '' (valid: '' @ go_join '', '' allRoles @ '')''))
     | None \<Rightarrow> if role_words csv = [] then Inl (ErrNew ''--roles selected no roles'')
         else Inr (fold (\<lambda>r. AList.update r True) (role_words csv) []))"
proof -
  have "fold (\<lambda>r. AList.update r True) ws [] = [] \<longleftrightarrow> ws = []" for ws :: "string list"
    by (cases ws rule: rev_cases) simp_all
  note e = this
  show ?thesis unfolding parseRoles_def parse_roles_spec role_words_def[symmetric]
    by (cases "find (\<lambda>r. r \<notin> set allRoles) (role_words csv)") (simp_all only: option.case sum.case e)
qed

lemma parseRoles_Inr:
  assumes "parseRoles csv = Inr selected"
  shows "role_words csv \<noteq> []" "set (role_words csv) \<subseteq> set allRoles" "gomap_bool selected r \<longleftrightarrow> r \<in> set (role_words csv)"
    "dbRoleForProcess selected = r \<and> r \<noteq> [] \<longleftrightarrow> set (role_words csv) = {r}"
proof -
  have n: "find (\<lambda>r. r \<notin> set allRoles) (role_words csv) = None" and
    ne: "role_words csv \<noteq> []" and sel: "selected = fold (\<lambda>r. AList.update r True) (role_words csv) []"
    using assms by (auto simp: parseRoles_spec split: option.splits if_splits)
  show "role_words csv \<noteq> []" by fact
  show k: "set (role_words csv) \<subseteq> set allRoles" using n by (auto simp: find_None_iff)
  show "gomap_bool selected r \<longleftrightarrow> r \<in> set (role_words csv)" unfolding sel selected_fold(1) by simp
  have d: "distinct (map fst selected)" unfolding sel by (intro selected_fold(3)) simp
  have keys: "fst ` set selected = set (role_words csv)" unfolding sel selected_fold(2) by simp
  have "card (set (role_words csv)) = length selected" using d keys by (metis distinct_card length_map set_map)
  moreover have "[] \<notin> set (role_words csv)" by (simp add: role_words_def)
  ultimately show "dbRoleForProcess selected = r \<and> r \<noteq> [] \<longleftrightarrow> set (role_words csv) = {r}"
    using keys by (cases selected; cases "tl selected") (auto simp: dbRoleForProcess_def)
qed

subsection \<open>Instances\<close>

definition tls_providers :: "'c tls_plan \<Rightarrow> 'c provider list" where
  "tls_providers t = (case t of AcmeTLS p email staging \<Rightarrow> [p] | _ \<Rightarrow> [])"

text \<open>The dependencies of an instance, by the field of its configuration that holds them.\<close>

fun providers :: "'c role_instance \<Rightarrow> (string \<times> 'c provider) list" where
  "providers (MetricsI addr) = []"
| "providers (ApiI a) = [(''Directory'', apr_Directory a), (''Store'', apr_Store a), (''WebhookStore'', apr_WebhookStore a),
     (''Tokens'', apr_Tokens a), (''Audit'', apr_Audit a), (''Queue'', apr_Queue a), (''Limiter'', apr_Limiter a)]"
| "providers (WebhookDispatcherI p) = [(''Webhooks'', p)]"
| "providers (InternalApiI i) = [(''Directory'', itr_Directory i), (''Store'', itr_Store i), (''Queue'', itr_Queue i),
     (''Limiter'', itr_Limiter i), (''Webhooks'', itr_Webhooks i)]"
| "providers (RetentionPurgerI pu d s) = [(''Directory'', d), (''Store'', s)]"
| "providers (SmtpInboundI i) = [(''Directory'', inr_Directory i), (''Store'', inr_Store i), (''Queue'', inr_Queue i),
     (''Webhooks'', inr_Webhooks i), (''RateLimiter'', inr_RateLimiter i)] @ map (Pair ''TLS'') (tls_providers (inr_TLS i))"
| "providers (SmtpSubmissionI i) = [(''Directory'', sur_Directory i), (''Store'', sur_Store i), (''Queue'', sur_Queue i),
     (''Quota'', sur_Quota i), (''Webhooks'', sur_Webhooks i)] @ map (Pair ''TLS'') (tls_providers (sur_TLS i))"
| "providers (ImapI i) = [(''Directory'', imr_Directory i), (''Store'', imr_Store i)] @ map (Pair ''TLS'') (tls_providers (imr_TLS i))"
| "providers (DelivererI q s d w helo port conc) = [(''Queue'', q), (''Store'', s), (''Directory'', d), (''Webhooks'', w)]"

text \<open>The queue of an inbound instance, a field that no inbound session reads.\<close>

definition inbound_queue :: "'c role_instance \<Rightarrow> string \<Rightarrow> bool" where
  "inbound_queue i n \<longleftrightarrow> n = ''Queue'' \<and> (\<exists>inb. i = SmtpInboundI inb)"

fun instance_name :: "'c role_instance \<Rightarrow> string" where
  "instance_name (MetricsI addr) = ''metrics''"
| "instance_name (ApiI a) = ''envelope-api''"
| "instance_name (WebhookDispatcherI p) = ''webhook-dispatcher''"
| "instance_name (InternalApiI i) = ''internal-api''"
| "instance_name (RetentionPurgerI pu d s) = ''retention-purger''"
| "instance_name (SmtpInboundI i) = roleSMTPInbound"
| "instance_name (SmtpSubmissionI i) = roleSMTPSubmission"
| "instance_name (ImapI i) = roleIMAP"
| "instance_name (DelivererI q s d w helo port conc) = roleDeliverer"

definition instances_of :: "string \<Rightarrow> string list" where
  "instances_of role = (if role = roleAPI then [''envelope-api'', ''webhook-dispatcher'', ''internal-api'', ''retention-purger''] else [role])"

lemma buildInstances_parts:
  assumes "buildInstances lib env selected conn = Inr is"
  obtains enc apis tls where "(if conn = None then Inr None else map_sum id Some (masterKeyFromEnv lib env)) = Inr enc"
    "(if gomap_bool selected roleAPI then api_instances lib env conn enc else Inr []) = Inr apis"
    "tls_for lib env selected conn enc = Inr tls"
    "is = [metricsPlatform env] @ apis
            @ (if gomap_bool selected roleSMTPInbound then [inbound_instance lib env selected conn enc tls] else [])
            @ (if gomap_bool selected roleSMTPSubmission then [submission_instance env selected conn enc tls] else [])
            @ (if gomap_bool selected roleIMAP then [imap_instance env selected conn enc tls] else [])
            @ (if gomap_bool selected roleDeliverer then [deliverer_instance env conn enc] else [])"
proof -
  let ?k = "if conn = None then Inr None else map_sum id Some (masterKeyFromEnv lib env)"
  note b = assms[unfolded buildInstances_def]
  obtain enc where k: "?k = Inr enc" using b by (cases ?k) (simp_all only: sum.case sum.distinct)
  let ?a = "if gomap_bool selected roleAPI then api_instances lib env conn enc else Inr []"
  obtain apis where a: "?a = Inr apis" using b[unfolded k sum.case] by (cases ?a) (simp_all only: sum.case sum.distinct)
  obtain tls where t: "tls_for lib env selected conn enc = Inr tls"
    using b[unfolded k a sum.case] by (cases "tls_for lib env selected conn enc") (simp_all only: sum.case sum.distinct)
  show thesis using that[OF k a t] b[unfolded k a t sum.case sum.inject] by blast
qed

lemma built_names:
  "instance_name (metricsPlatform env) = ''metrics''" "instance_name (inbound_instance lib env selected conn enc tls) = roleSMTPInbound"
  "instance_name (submission_instance env selected conn enc tls) = roleSMTPSubmission"
  "instance_name (imap_instance env selected conn enc tls) = roleIMAP" "instance_name (deliverer_instance env conn enc) = roleDeliverer"
  "api_instances lib env conn enc = Inr apis \<Longrightarrow> map instance_name apis = instances_of roleAPI"
  by (auto simp: metricsPlatform_def inbound_instance_def submission_instance_def imap_instance_def deliverer_instance_def
      api_instances_def instances_of_def Let_def split: sum.splits)

lemma instances_of_role:
  "instances_of roleSMTPInbound = [roleSMTPInbound]" "instances_of roleSMTPSubmission = [roleSMTPSubmission]"
  "instances_of roleIMAP = [roleIMAP]" "instances_of roleDeliverer = [roleDeliverer]"
  by (simp_all add: instances_of_def main_roles)

lemma buildInstances_names:
  assumes "buildInstances lib env selected conn = Inr is"
  shows "map instance_name is = ''metrics'' # concat (map instances_of (filter (gomap_bool selected) allRoles))"
  using assms
proof (rule buildInstances_parts)
  fix enc apis tls
  assume a: "(if gomap_bool selected roleAPI then api_instances lib env conn enc else Inr []) = Inr apis"
    and p: "is = [metricsPlatform env] @ apis
            @ (if gomap_bool selected roleSMTPInbound then [inbound_instance lib env selected conn enc tls] else [])
            @ (if gomap_bool selected roleSMTPSubmission then [submission_instance env selected conn enc tls] else [])
            @ (if gomap_bool selected roleIMAP then [imap_instance env selected conn enc tls] else [])
            @ (if gomap_bool selected roleDeliverer then [deliverer_instance env conn enc] else [])"
  have n: "map instance_name apis = (if gomap_bool selected roleAPI then instances_of roleAPI else [])"
    using a built_names(6) by (cases "gomap_bool selected roleAPI") simp_all
  show ?thesis unfolding p allRoles_def by (simp add: built_names(1-5) n instances_of_role)
qed

lemma direct_providers:
  assumes "buildInstances lib env selected (Some conn) = Inr is" "needsDirectDB env selected"
  shows "\<exists>enc. masterKeyFromEnv lib env = Inr enc
    \<and> (\<forall>i \<in> set is. \<forall>(n, p) \<in> set (providers i). p = Direct (Some conn) None \<or> p = Direct (Some conn) (Some enc))"
proof -
  obtain e apis tls where p: "(if Some conn = None then Inr None else map_sum id Some (masterKeyFromEnv lib env)) = Inr e"
    "(if gomap_bool selected roleAPI then api_instances lib env (Some conn) e else Inr []) = Inr apis"
    "tls_for lib env selected (Some conn) e = Inr tls"
    "is = [metricsPlatform env] @ apis
            @ (if gomap_bool selected roleSMTPInbound then [inbound_instance lib env selected (Some conn) e tls] else [])
            @ (if gomap_bool selected roleSMTPSubmission then [submission_instance env selected (Some conn) e tls] else [])
            @ (if gomap_bool selected roleIMAP then [imap_instance env selected (Some conn) e tls] else [])
            @ (if gomap_bool selected roleDeliverer then [deliverer_instance env (Some conn) e] else [])"
    using assms(1) by (rule buildInstances_parts)
  obtain enc where e: "masterKeyFromEnv lib env = Inr enc" "e = Some enc" using p(1) by (cases "masterKeyFromEnv lib env") auto
  note b = p(2,3)[unfolded e]
  have sub: "set is \<subseteq> {metricsPlatform env, inbound_instance lib env selected (Some conn) (Some enc) tls,
      submission_instance env selected (Some conn) (Some enc) tls, imap_instance env selected (Some conn) (Some enc) tls,
      deliverer_instance env (Some conn) (Some enc)} \<union> set apis"
    unfolding p(4) e by auto
  have "\<forall>i \<in> set apis. \<forall>(n, p) \<in> set (providers i). p = Direct (Some conn) None \<or> p = Direct (Some conn) (Some enc)"
    using b(1) by (auto simp: api_instances_def split: if_splits sum.splits)
  moreover have "set (tls_providers tls) \<subseteq> {Direct (Some conn) (Some enc)}"
    using b(2) by (auto simp: tls_for_def tls_providers_def Let_def split: if_splits sum.splits)
  ultimately show ?thesis using sub e(1) assms(2)
    by (fastforce simp: metricsPlatform_def inbound_instance_def submission_instance_def imap_instance_def deliverer_instance_def
        role_provider_def needsDirectDB_def Let_def)
qed

lemma activated_providers:
  fixes tls :: "'c tls_plan"
  assumes "internalAPIActivated env selected role"
    "set (tls_providers tls) \<subseteq> {NewClient (internalAPIURL env) (internalAPITokenFor env role)}"
  defines "good \<equiv> \<lambda>i :: 'c role_instance. \<forall>(n, p) \<in> set (providers i). p = (if inbound_queue i n then Direct None None
      else NewClient (internalAPIURL env) (internalAPITokenFor env role))"
  shows "role = roleSMTPInbound \<Longrightarrow> good (inbound_instance lib env selected None None tls)"
    "role = roleSMTPSubmission \<Longrightarrow> good (submission_instance env selected None None tls)"
    "role = roleIMAP \<Longrightarrow> good (imap_instance env selected None None tls)"
  using assms(1,2)
  by (auto simp: good_def inbound_instance_def submission_instance_def imap_instance_def role_provider_def inbound_queue_def Let_def)

lemma client_providers:
  assumes "buildInstances lib env selected None = Inr is" "internalAPIActivated env selected role"
    "role \<in> {roleSMTPInbound, roleSMTPSubmission, roleIMAP}" "\<And>r. gomap_bool selected r \<longleftrightarrow> r = role"
  shows "\<forall>i \<in> set is. \<forall>(n, p) \<in> set (providers i). p = (if inbound_queue i n then Direct None None else NewClient (internalAPIURL env) (internalAPITokenFor env role))"
proof -
  have no: "\<not> gomap_bool selected roleAPI" "\<not> gomap_bool selected roleDeliverer" using assms(3,4) by (auto simp: main_roles)
  obtain e apis tls where b: "tls_for lib env selected None None = Inr tls"
    "is = [metricsPlatform env]
            @ (if gomap_bool selected roleSMTPInbound then [inbound_instance lib env selected None None tls] else [])
            @ (if gomap_bool selected roleSMTPSubmission then [submission_instance env selected None None tls] else [])
            @ (if gomap_bool selected roleIMAP then [imap_instance env selected None None tls] else [])"
    by (rule buildInstances_parts[OF assms(1)]) (simp add: no)
  have "dbRoleForProcess selected = role" using assms(2) by (simp add: internalAPIActivated_def)
  then have "set (tls_providers tls) \<subseteq> {NewClient (internalAPIURL env) (internalAPITokenFor env role)}"
    using b(1) by (auto simp: tls_for_def tls_providers_def Let_def split: if_splits sum.splits)
  note c = activated_providers[OF assms(2) this]
  show ?thesis using assms(3)
  proof (elim insertE emptyE)
    assume "role = roleSMTPInbound"
    then show ?thesis using b(2) c(1) assms(4) by (auto simp: main_roles metricsPlatform_def)
  next
    assume "role = roleSMTPSubmission"
    then show ?thesis using b(2) c(2) assms(4) by (auto simp: main_roles metricsPlatform_def)
  next
    assume "role = roleIMAP"
    then show ?thesis using b(2) c(3) assms(4) by (auto simp: main_roles metricsPlatform_def)
  qed
qed

lemma start_activated:
  assumes "main_start lib env csv = (evs, Inr is)" "parseRoles csv = Inr selected" "\<not> needsDirectDB env selected"
  shows "evs = [] \<and> buildInstances lib env selected None = Inr is
    \<and> (\<exists>role \<in> {roleSMTPInbound, roleSMTPSubmission, roleIMAP}. set (role_words csv) = {role} \<and> internalAPITokenFor env role \<noteq> []
      \<and> (\<forall>i \<in> set is. \<forall>(n, p) \<in> set (providers i). p = (if inbound_queue i n then Direct None None else NewClient (internalAPIURL env) (internalAPITokenFor env role))))"
proof -
  note w = parseRoles_Inr[OF assms(2)]
  obtain role where r: "role \<in> {roleSMTPInbound, roleSMTPSubmission, roleIMAP}" "internalAPIActivated env selected role"
    using assms(3) by (auto simp: needsDirectDB_def)
  then have one: "set (role_words csv) = {role}" using w(4)[of role] by (auto simp: internalAPIActivated_def main_roles)
  have b: "buildInstances lib env selected None = Inr is" "evs = []" using assms by (simp_all add: main_start_def)
  have "\<forall>i \<in> set is. \<forall>(n, p) \<in> set (providers i). p = (if inbound_queue i n then Direct None None else NewClient (internalAPIURL env) (internalAPITokenFor env role))"
    by (rule client_providers[OF b(1) r(2,1)]) (simp add: w(3) one)
  then show ?thesis using b one r by (auto simp: internalAPIActivated_def)
qed

lemma start_direct:
  assumes "main_start lib env csv = (evs, Inr is)" "parseRoles csv = Inr selected" "needsDirectDB env selected"
  obtains conn where "bl_gorm_Open lib (DSNForRole env (dbRoleForProcess selected)) = Inr conn"
    "buildInstances lib env selected (Some conn) = Inr is" "evs \<noteq> []" "last evs = OpenDB (DSNForRole env (dbRoleForProcess selected))"
  using assms by (auto simp: main_start_def db_Open_def Let_def split: sum.splits option.splits)

text \<open>
  C14: A started process runs what its command line names and nothing it cannot back. The roles are the
  non-empty words of the list, all of them known and at least one; the instances are those of these
  roles, once each and in a fixed order, whatever repetitions the list has. Either the process opened
  the database with the credential of its single role, or of none when it runs several, read a valid
  master key, and every dependency of every instance is built on that connection; or it touched no
  database, it runs one activated role, and every dependency is a client with that role's token,
  but for one: the \<open>Queue\<close> field of an activated inbound instance is the Postgres queue on a nil
  connection. No other dependency of any instance has a nil connection, and no inbound session
  reads that field (\<open>inbound_env\<close>, all that a session is given, has no queue).
\<close>

theorem boot_runs_selected_roles:
  assumes "main_start lib env csv = (evs, Inr is)"
  shows "role_words csv \<noteq> [] \<and> set (role_words csv) \<subseteq> set allRoles
    \<and> map instance_name is = ''metrics'' # concat (map instances_of (filter (\<lambda>r. r \<in> set (role_words csv)) allRoles))
    \<and> (case evs of
         [] \<Rightarrow> \<exists>role. set (role_words csv) = {role} \<and> internalAPITokenFor env role \<noteq> []
           \<and> (\<forall>i \<in> set is. \<forall>(n, p) \<in> set (providers i). p = (if inbound_queue i n then Direct None None else NewClient (internalAPIURL env) (internalAPITokenFor env role)))
       | _ \<Rightarrow> \<exists>role conn enc. (set (role_words csv) = {role} \<or> card (set (role_words csv)) \<noteq> 1 \<and> role = [])
           \<and> last evs = OpenDB (DSNForRole env role) \<and> bl_gorm_Open lib (DSNForRole env role) = Inr conn
           \<and> masterKeyFromEnv lib env = Inr enc
           \<and> (\<forall>i \<in> set is. \<forall>(n, p) \<in> set (providers i). p = Direct (Some conn) None \<or> p = Direct (Some conn) (Some enc)))"
proof -
  obtain selected where sel: "parseRoles csv = Inr selected" using assms by (auto simp: main_start_def split: sum.splits)
  note w = parseRoles_Inr[OF sel]
  have dbr: "set (role_words csv) = {dbRoleForProcess selected} \<or> card (set (role_words csv)) \<noteq> 1 \<and> dbRoleForProcess selected = []"
    using w(4)[of "dbRoleForProcess selected"] w(4) by (metis card_1_singletonE is_singletonI is_singleton_altdef)
  have flt: "filter (gomap_bool selected) allRoles = filter (\<lambda>r. r \<in> set (role_words csv)) allRoles"
    by (rule filter_cong) (simp_all add: w(3))
  show ?thesis
  proof (cases "needsDirectDB env selected")
    case True
    obtain conn where c: "bl_gorm_Open lib (DSNForRole env (dbRoleForProcess selected)) = Inr conn"
      "buildInstances lib env selected (Some conn) = Inr is" "evs \<noteq> []" "last evs = OpenDB (DSNForRole env (dbRoleForProcess selected))"
      using assms sel True by (rule start_direct)
    then show ?thesis using w(1,2) dbr buildInstances_names[OF c(2)] direct_providers[OF c(2) True] flt
      by (cases evs) auto
  next
    case False
    note a = start_activated[OF assms sel False]
    then show ?thesis using w(1,2) buildInstances_names[of lib env selected None "is"] flt by auto
  qed
qed

subsection \<open>What an activated role cannot know\<close>

text \<open>The variables an activated role has no use for: the database, the master key, the admin token and the other roles' tokens.\<close>

definition withheld :: "string \<Rightarrow> string \<Rightarrow> bool" where
  "withheld role k \<longleftrightarrow> k = ''ENVELOPE_MASTER_KEY'' \<or> k = ''ENVELOPE_API_ADMIN_TOKEN'' \<or> has_prefix k ''ENVELOPE_DB_''
     \<or> has_prefix k ''ENVELOPE_INTERNAL_TOKEN_'' \<and> k \<noteq> internalAPITokenEnvVar role"

lemma kept_variables:
  assumes "\<forall>k. \<not> withheld role k \<longrightarrow> env' k = env k"
  shows "internalAPITokenFor env' role = internalAPITokenFor env role" "internalAPIURL env' = internalAPIURL env"
    "metricsPlatform env' = metricsPlatform env" "rspamdURLFromEnv env' = rspamdURLFromEnv env"
    "env' ''ENVELOPE_ACME_EMAIL'' = env ''ENVELOPE_ACME_EMAIL''"
    "env' ''ENVELOPE_ACME_STAGING'' = env ''ENVELOPE_ACME_STAGING''"
    "env' ''ENVELOPE_SMTP_INBOUND_ADDR'' = env ''ENVELOPE_SMTP_INBOUND_ADDR''"
    "env' ''ENVELOPE_DOMAIN'' = env ''ENVELOPE_DOMAIN''"
    "env' ''ENVELOPE_RATELIMIT_IP_CAPACITY'' = env ''ENVELOPE_RATELIMIT_IP_CAPACITY''"
    "env' ''ENVELOPE_RATELIMIT_IP_REFILL_PER_SECOND'' = env ''ENVELOPE_RATELIMIT_IP_REFILL_PER_SECOND''"
    "env' ''ENVELOPE_RATELIMIT_SENDER_CAPACITY'' = env ''ENVELOPE_RATELIMIT_SENDER_CAPACITY''"
    "env' ''ENVELOPE_RATELIMIT_SENDER_REFILL_PER_SECOND'' = env ''ENVELOPE_RATELIMIT_SENDER_REFILL_PER_SECOND''"
    "env' ''ENVELOPE_SMTP_SUBMISSION_ADDR'' = env ''ENVELOPE_SMTP_SUBMISSION_ADDR''"
    "env' ''ENVELOPE_IMAP_ADDR'' = env ''ENVELOPE_IMAP_ADDR''"
  using assms by (simp_all add: internalAPITokenFor_def internalAPIURL_def metricsPlatform_def rspamdURLFromEnv_def addrFromEnv_def
      internalAPITokenEnvVar_def withheld_def has_prefix_def)

lemma kept_instances:
  assumes "\<forall>k. \<not> withheld role k \<longrightarrow> env' k = env k" "dbRoleForProcess selected = role"
  shows "internalAPIActivated env' selected r = internalAPIActivated env selected r"
    "tls_for lib env' selected None enc = tls_for lib env selected None enc"
    "inbound_instance lib env' selected conn enc tls = inbound_instance lib env selected conn enc tls"
    "submission_instance env' selected conn enc tls = submission_instance env selected conn enc tls"
    "imap_instance env' selected conn enc tls = imap_instance env selected conn enc tls"
proof -
  note k = kept_variables[OF assms(1)]
  show a: "internalAPIActivated env' selected r = internalAPIActivated env selected r" for r
    using k(1) assms(2) by (auto simp: internalAPIActivated_def)
  show "tls_for lib env' selected None enc = tls_for lib env selected None enc"
    by (simp only: tls_for_def k assms(2) Let_def)
  have p: "role_provider env' selected r d = role_provider env selected r d" for r and d :: "'x provider"
    using a[of r] k(1,2) assms(2) by (auto simp: role_provider_def internalAPIActivated_def)
  show "inbound_instance lib env' selected conn enc tls = inbound_instance lib env selected conn enc tls"
    "submission_instance env' selected conn enc tls = submission_instance env selected conn enc tls"
    "imap_instance env' selected conn enc tls = imap_instance env selected conn enc tls"
    by (simp_all only: inbound_instance_def submission_instance_def imap_instance_def p k addrFromEnv_def floatEnv_def Let_def)
qed

text \<open>
  C11: A role that uses the internal API is started without the database. Its process opens no
  connection and runs no migration, and what it runs is the same whatever the environment says about
  the database, the master key, the admin token and the tokens of the other roles: none of these
  secrets need be, or can be, part of what it holds.
\<close>

theorem activated_role_holds_no_secret:
  assumes "set (role_words csv) = {role}" "role \<in> {roleSMTPInbound, roleSMTPSubmission, roleIMAP}"
    and "internalAPITokenFor env role \<noteq> []" and "\<forall>k. \<not> withheld role k \<longrightarrow> env' k = env k"
  shows "main_start lib env' csv = main_start lib env csv \<and> fst (main_start lib env csv) = []"
proof -
  have kn: "set (role_words csv) \<subseteq> set allRoles" using assms(1,2) by (auto simp: allRoles_def)
  then have "find (\<lambda>r. r \<notin> set allRoles) (role_words csv) = None" by (auto simp: find_None_iff)
  moreover have "role_words csv \<noteq> []" using assms(1) by (metis insert_not_empty set_empty)
  ultimately have "\<exists>selected. parseRoles csv = Inr selected" unfolding parseRoles_spec by (simp only: option.case if_False) blast
  then obtain selected where sel: "parseRoles csv = Inr selected" by blast
  have db: "dbRoleForProcess selected = role" using parseRoles_Inr(4)[OF sel, of role] assms(1) by blast
  note k = kept_instances[OF assms(4) db]
  have act: "internalAPIActivated env selected role" using db assms(3) by (simp add: internalAPIActivated_def)
  then have d: "\<not> needsDirectDB env selected" "\<not> needsDirectDB env' selected" using assms(2) k(1) by (auto simp: needsDirectDB_def)
  have no: "\<not> gomap_bool selected roleAPI" "\<not> gomap_bool selected roleDeliverer"
    using parseRoles_Inr(3)[OF sel] assms(1,2) by (auto simp: main_roles)
  have "buildInstances lib env' selected None = buildInstances lib env selected None"
    by (cases "tls_for lib env selected None None") (simp_all add: buildInstances_def no k kept_variables(3)[OF assms(4)])
  then show ?thesis using sel d by (simp add: main_start_def)
qed

subsection \<open>Tokens on both sides\<close>

lemma roles_agree: "roleSMTPInbound = RoleSMTPInbound" "roleSMTPSubmission = RoleSMTPSubmission" "roleIMAP = RoleIMAP"
  by (simp_all add: main_roles role_defs)

lemma tokens_loop_distinct: "distinct (map fst toks) \<Longrightarrow> distinct (map fst (tokens_loop env roles toks))"
  by (induction roles arbitrary: toks) (simp_all add: Let_def distinct_update)

lemma tokens_loop_map:
  "map_of (tokens_loop env roles toks) t =
     (case find (\<lambda>r. internalAPITokenFor env r = t \<and> t \<noteq> []) (rev roles) of Some r \<Rightarrow> Some r | None \<Rightarrow> map_of toks t)"
  by (induction roles arbitrary: toks) (auto simp: Let_def update_conv' find_append split: option.splits)

lemma internalAPITokens_map:
  assumes "\<And>r r'. r \<in> {roleSMTPInbound, roleSMTPSubmission, roleIMAP} \<Longrightarrow> r' \<in> {roleSMTPInbound, roleSMTPSubmission, roleIMAP}
      \<Longrightarrow> internalAPITokenFor env r = internalAPITokenFor env r' \<Longrightarrow> internalAPITokenFor env r \<noteq> [] \<Longrightarrow> r = r'"
    "role \<in> {roleSMTPInbound, roleSMTPSubmission, roleIMAP}" "internalAPITokenFor env role \<noteq> []"
  shows "map_of (internalAPITokens env) (internalAPITokenFor env role) = Some role"
proof -
  let ?t = "internalAPITokenFor env role" and ?rs = "[roleIMAP, roleSMTPSubmission, roleSMTPInbound]"
  have "find (\<lambda>r. internalAPITokenFor env r = ?t \<and> ?t \<noteq> []) ?rs = Some role"
  proof (cases "find (\<lambda>r. internalAPITokenFor env r = ?t \<and> ?t \<noteq> []) ?rs")
    case None
    then show ?thesis using assms(2,3) unfolding find_None_iff by auto
  next
    case (Some r)
    have r: "internalAPITokenFor env r = ?t" "r \<in> {roleSMTPInbound, roleSMTPSubmission, roleIMAP}" using find_SomeD[OF Some] by auto
    have "r = role" by (rule assms(1)[OF r(2) assms(2) r(1)]) (simp add: r(1) assms(3))
    then show ?thesis using Some by blast
  qed
  moreover have "rev [roleSMTPInbound, roleSMTPSubmission, roleIMAP] = ?rs" by simp
  ultimately show ?thesis unfolding internalAPITokens_def tokens_loop_map by (simp only: option.case)
qed

lemma internal_server_tokens:
  assumes "main_start lib env csv = (evs, Inr is)" "InternalApiI srv \<in> set is"
  shows "itr_Tokens srv = internalAPITokens env"
proof -
  obtain selected conn where "buildInstances lib env selected conn = Inr is"
    using assms(1) by (auto simp: main_start_def Let_def split: sum.splits option.splits if_splits)
  then show ?thesis
  proof (rule buildInstances_parts)
    fix enc apis tls
    assume "(if gomap_bool selected roleAPI then api_instances lib env conn enc else Inr []) = Inr apis"
      "is = [metricsPlatform env] @ apis
            @ (if gomap_bool selected roleSMTPInbound then [inbound_instance lib env selected conn enc tls] else [])
            @ (if gomap_bool selected roleSMTPSubmission then [submission_instance env selected conn enc tls] else [])
            @ (if gomap_bool selected roleIMAP then [imap_instance env selected conn enc tls] else [])
            @ (if gomap_bool selected roleDeliverer then [deliverer_instance env conn enc] else [])"
    then show ?thesis using assms(2)
      by (auto simp: metricsPlatform_def inbound_instance_def submission_instance_def imap_instance_def deliverer_instance_def
          api_instances_def Let_def split: if_splits sum.splits)
  qed
qed

text \<open>
  C22: The processes find each other. Start the api role in one environment and an activated role in
  another that need have nothing in common with it but that role's own token; let the tokens that the
  api role's environment has for the three roles differ, and let the token be one an HTTP header can
  carry. Then every dependency of the role that is a client of the internal API is recognised by the
  server the api role runs, as exactly that role.
\<close>

theorem booted_roles_connect:
  fixes c :: "('d, 's, 'q, 'l, 'h) http_client"
  assumes "main_start lib env csv = (evs, Inr is)" "InternalApiI srv \<in> set is"
    and "main_start lib' env' csv' = ([], Inr is')" "i \<in> set is'" "(n, InternalClient base tok) \<in> set (providers i)"
    and "\<forall>r. set (role_words csv') = {r} \<longrightarrow> internalAPITokenFor env' r = internalAPITokenFor env r"
    and "\<forall>r \<in> {roleSMTPInbound, roleSMTPSubmission, roleIMAP}. \<forall>r' \<in> {roleSMTPInbound, roleSMTPSubmission, roleIMAP}.
      internalAPITokenFor env r = internalAPITokenFor env r' \<and> internalAPITokenFor env r \<noteq> [] \<longrightarrow> r = r'"
    and "header_value tok = Some tok"
    and "isv_tokens (hc_server c) = itr_Tokens srv" "hc_token c = tok" "hc_net c = Answered"
  shows "\<exists>role. set (role_words csv') = {role} \<and> link_up c role"
proof -
  obtain selected where sel: "parseRoles csv' = Inr selected" using assms(3) by (auto simp: main_start_def split: sum.splits)
  have "\<not> needsDirectDB env' selected" using start_direct[OF assms(3) sel] by blast
  then obtain role where r: "role \<in> {roleSMTPInbound, roleSMTPSubmission, roleIMAP}" "set (role_words csv') = {role}"
    "internalAPITokenFor env' role \<noteq> []" "\<forall>i \<in> set is'. \<forall>(n, p) \<in> set (providers i). p = (if inbound_queue i n then Direct None None else NewClient (internalAPIURL env') (internalAPITokenFor env' role))"
    using start_activated[OF assms(3) sel] by blast
  from bspec[OF bspec[OF r(4) assms(4)] assms(5)] have t: "tok = internalAPITokenFor env role" "tok \<noteq> []"
    using r(2,3) assms(6) by (auto simp: NewClient_def split: if_splits)
  have "map_of (isv_tokens (hc_server c)) tok = Some role"
    unfolding assms(9) internal_server_tokens[OF assms(1,2)] t(1)
    using assms(7) r(1) t by (intro internalAPITokens_map) blast+
  moreover have "distinct (map fst (isv_tokens (hc_server c)))"
    unfolding assms(9) internal_server_tokens[OF assms(1,2)] internalAPITokens_def by (rule tokens_loop_distinct) simp
  moreover have "role \<noteq> []" using r(1) by (auto simp: main_roles)
  ultimately show ?thesis using r(2) assms(8,10,11) t by (auto simp: link_up_def)
qed

subsection \<open>A deployment of two processes\<close>

definition boot_demo :: "(nat, bytes) boot_lib" where
  "boot_demo = \<lparr>bl_gorm_Open = (\<lambda>dsn. Inr (length dsn)), bl_migrations = (\<lambda>c. None), bl_NewCipher = Inr,
     bl_NewGCM = (\<lambda>b. Inr (tag_aead (hd b))), bl_sha256 = (\<lambda>b. b), bl_token_bytes = Inr ''0123'',
     bl_ParseFloat = (\<lambda>s. Inl (ErrNew ''syntax'')),
     bl_tls = \<lparr>tl_GenerateKey = Inr ''k'', tl_Int = (\<lambda>n. Inr 1), tl_now = (0, 0), tl_CreateCertificate = (\<lambda>t k. Inr ''der'')\<rparr>\<rparr>"

definition demo_os :: os_env where
  "demo_os = (\<lambda>k. if k = internalAPITokenEnvVar roleIMAP then ''t1'' else if k = internalAPITokenEnvVar roleSMTPInbound then ''t2''
     else if k = ''ENVELOPE_MASTER_KEY'' then EncodeToString (replicate 32 (CHR ''a'')) else [])"

lemma demo_words: "role_words ''imap'' = [roleIMAP]" "role_words ''api'' = [roleAPI]"
  by (simp_all add: role_words_def trim_space_def is_space_def main_roles)

lemma demo_tokens: "internalAPITokenFor demo_os roleIMAP = ''t1''" "internalAPITokenFor demo_os roleSMTPInbound = ''t2''"
  "internalAPITokenFor demo_os roleSMTPSubmission = []"
  by (simp_all add: internalAPITokenFor_def demo_os_def internalAPITokenEnvVar_def main_roles to_upper_def replace_all_def upper_char_def Let_def)

lemma demo_vars: "demo_os ''ENVELOPE_ACME_EMAIL'' = []" "demo_os ''ENVELOPE_IMAP_ADDR'' = []"
  "demo_os ''ENVELOPE_MASTER_KEY'' = EncodeToString (replicate 32 (CHR ''a''))"
  by (simp_all add: demo_os_def internalAPITokenEnvVar_def)

lemma demo_parse: "parseRoles ''imap'' = Inr [(roleIMAP, True)]" "parseRoles ''api'' = Inr [(roleAPI, True)]"
  unfolding parseRoles_spec demo_words by (simp_all add: allRoles_def)

lemma demo_gomap: "gomap_bool [(roleIMAP, True)] r \<longleftrightarrow> r = roleIMAP" "gomap_bool [(roleAPI, True)] r \<longleftrightarrow> r = roleAPI"
  by (simp_all add: gomap_bool_def)

lemma demo_distinct_roles: "roleAPI \<noteq> roleIMAP" "roleSMTPInbound \<noteq> roleIMAP" "roleSMTPSubmission \<noteq> roleIMAP" "roleDeliverer \<noteq> roleIMAP"
  "roleSMTPInbound \<noteq> roleAPI" "roleSMTPSubmission \<noteq> roleAPI" "roleIMAP \<noteq> roleAPI" "roleDeliverer \<noteq> roleAPI"
  by (simp_all add: main_roles)

text \<open>The environment of the imap process: its own token and nothing else.\<close>

definition demo_os_imap :: os_env where
  "demo_os_imap = (\<lambda>k. if k = internalAPITokenEnvVar roleIMAP then ''t1'' else [])"

lemma demo_imap_vars: "internalAPITokenFor demo_os_imap roleIMAP = ''t1''" "demo_os_imap ''ENVELOPE_ACME_EMAIL'' = []"
  "demo_os_imap ''ENVELOPE_IMAP_ADDR'' = []"
  by (simp_all add: internalAPITokenFor_def demo_os_imap_def internalAPITokenEnvVar_def)

lemma demo_imap_start:
  "\<exists>i. main_start boot_demo demo_os_imap ''imap'' = ([], Inr [metricsPlatform demo_os_imap, ImapI i])
     \<and> imr_Directory i = NewClient (internalAPIURL demo_os_imap) ''t1'' \<and> imr_Store i = NewClient (internalAPIURL demo_os_imap) ''t1''"
proof -
  have a: "internalAPIActivated demo_os_imap [(roleIMAP, True)] roleIMAP"
    by (simp add: internalAPIActivated_def dbRoleForProcess_def demo_imap_vars)
  then have d: "\<not> needsDirectDB demo_os_imap [(roleIMAP, True)]" by (simp add: needsDirectDB_def)
  have "\<exists>tls. tls_for boot_demo demo_os_imap [(roleIMAP, True)] None None = Inr tls"
    by (simp add: tls_for_def demo_imap_vars SelfSignedTLSConfig_def boot_demo_def)
  then show ?thesis using a d
    by (auto simp: main_start_def demo_parse buildInstances_def demo_gomap demo_distinct_roles imap_instance_def role_provider_def
        demo_imap_vars Let_def)
qed

lemma demo_master_key: "masterKeyFromEnv boot_demo demo_os = Inr (tag_aead (CHR ''a''))"
proof -
  let ?k = "replicate 32 (CHR ''a'')"
  have g: "NewAESGCMEncryptor (bl_NewCipher boot_demo) (bl_NewGCM boot_demo) ?k = Inr (tag_aead (CHR ''a''))"
    by (simp add: NewAESGCMEncryptor_def boot_demo_def KeySize_def)
  have "EncodeToString ?k \<noteq> EncodeToString []"
    using b64_roundtrip[of ?k] b64_roundtrip[of "[]"] by (metis Inr_inject length_replicate list.size(3) zero_neq_numeral)
  then have "EncodeToString ?k \<noteq> []" by (simp add: EncodeToString_def)
  then show ?thesis
    unfolding masterKeyFromEnv_def demo_vars by (simp only: if_False b64_roundtrip sum.case g)
qed

lemma demo_api_start:
  "\<exists>evs is srv. main_start boot_demo demo_os ''api'' = (evs, Inr is) \<and> InternalApiI srv \<in> set is \<and> evs \<noteq> []"
proof -
  have d: "needsDirectDB demo_os [(roleAPI, True)]"
    by (simp add: needsDirectDB_def internalAPIActivated_def dbRoleForProcess_def demo_distinct_roles[symmetric])
  have "bl_token_bytes boot_demo = Inr ''0123''" by (simp add: boot_demo_def)
  then have "\<exists>admin. adminTokenFromEnv boot_demo demo_os = Inr admin"
    unfolding adminTokenFromEnv_def GenerateToken_def Let_def by (simp only: sum.case prod.case) simp
  then obtain admin where "adminTokenFromEnv boot_demo demo_os = Inr admin" by blast
  moreover have "bl_gorm_Open boot_demo dsn = Inr (length dsn)" "bl_migrations boot_demo m = None" for dsn m by (simp_all add: boot_demo_def)
  ultimately show ?thesis using d demo_master_key
    by (simp add: main_start_def demo_parse db_Open_def buildInstances_def demo_gomap demo_distinct_roles tls_for_def
        api_instances_def Let_def) blast
qed

theorem boot_runs_selected_roles_witness:
  "\<exists>evs is role conn. main_start boot_demo demo_os ''api'' = (evs, Inr is) \<and> last evs = OpenDB (DSNForRole demo_os role) \<and> role = roleAPI
     \<and> map instance_name is = [''metrics'', ''envelope-api'', ''webhook-dispatcher'', ''internal-api'', ''retention-purger'']"
proof -
  obtain evs "is" srv where s: "main_start boot_demo demo_os ''api'' = (evs, Inr is)" "evs \<noteq> []" using demo_api_start by blast
  have "[r\<leftarrow>allRoles . r \<in> set (role_words ''api'')] = [roleAPI]" by (simp add: allRoles_def demo_words demo_distinct_roles)
  then show ?thesis using boot_runs_selected_roles[OF s(1)] s(2) by (cases evs) (auto simp: s(1) demo_words instances_of_def)
qed

theorem activated_role_holds_no_secret_witness:
  "main_start boot_demo (demo_os(''ENVELOPE_MASTER_KEY'' := ''other'')) ''imap'' = main_start boot_demo demo_os ''imap''
     \<and> fst (main_start boot_demo demo_os ''imap'') = []"
  by (rule activated_role_holds_no_secret[where role = roleIMAP]) (simp_all add: demo_words demo_tokens withheld_def)

theorem booted_roles_connect_witness:
  "\<exists>evs is srv is'. main_start boot_demo demo_os ''api'' = (evs, Inr is) \<and> InternalApiI srv \<in> set is
     \<and> main_start boot_demo demo_os_imap ''imap'' = ([], Inr is')
     \<and> link_up (demo_client ''t1''\<lparr>hc_server := demo_server\<lparr>isv_tokens := itr_Tokens srv\<rparr>\<rparr>) roleIMAP"
proof -
  obtain evs "is" srv where s: "main_start boot_demo demo_os ''api'' = (evs, Inr is)" "InternalApiI srv \<in> set is" using demo_api_start by blast
  obtain i where i: "main_start boot_demo demo_os_imap ''imap'' = ([], Inr [metricsPlatform demo_os_imap, ImapI i])"
    "imr_Store i = NewClient (internalAPIURL demo_os_imap) ''t1''" using demo_imap_start by blast
  obtain base where b: "NewClient (internalAPIURL demo_os_imap) ''t1'' = (InternalClient base ''t1'' :: nat provider)" by (simp add: NewClient_def)
  have "\<exists>role. set (role_words ''imap'') = {role} \<and> link_up (demo_client ''t1''\<lparr>hc_server := demo_server\<lparr>isv_tokens := itr_Tokens srv\<rparr>\<rparr>) role"
    by (rule booted_roles_connect[OF s i(1), of "ImapI i" "''Store''" base "''t1''"])
      (auto simp: i(2) b demo_tokens demo_imap_vars demo_words header_value_def demo_client_def)
  then show ?thesis using s i by (auto simp: demo_words)
qed

end
