(* ===== verification/Rotation.thy ===== *)
theory Rotation
  imports Boot Directory_Service Webhook_Postgres
begin

section \<open>Changing the master key: main.go --rotate-master-key\<close>

text \<open>
  The tool re-encrypts the DKIM keys, then the webhook secrets, one row at a time and in no
  transaction. \<open>denv\<close> and \<open>wenv\<close> are the tables behind the connection, and \<open>n\<close>, \<open>n'\<close> select the random
  bytes of the two passes.
\<close>

definition rotateMasterKey :: "('c, 'b) boot_lib \<Rightarrow> (nat \<Rightarrow> nat \<Rightarrow> gerr + bytes) \<Rightarrow> os_env \<Rightarrow> ('a, 'v, 'd, 'm) dir_env
    \<Rightarrow> ('s, 't) webhook_env \<Rightarrow> nat \<Rightarrow> nat \<Rightarrow> string \<Rightarrow> ('a, 'v, 'd, 'm) dir_db \<times> ('s, 't) webhook_db
    \<Rightarrow> gerr option \<times> ('a, 'v, 'd, 'm) dir_db \<times> ('s, 't) webhook_db" where
  "rotateMasterKey lib rnd env denv wenv n n' newKeyB64 db =
     (case masterKeyFromEnv lib env of
        Inl e \<Rightarrow> (Some e, db)
      | Inr oldKey \<Rightarrow>
     case b64_decode newKeyB64 of
        Inl e \<Rightarrow> (Some (ErrWrap ''--rotate-master-key must be base64-encoded'' e), db)
      | Inr key \<Rightarrow>
     case NewAESGCMEncryptor (bl_NewCipher lib) (bl_NewGCM lib) key of
        Inl e \<Rightarrow> (Some (ErrWrap ''--rotate-master-key'' e), db)
      | Inr newKey \<Rightarrow>
     case db_Open (bl_gorm_Open lib) (DSNForRole env ''migrator'') of
        Inl e \<Rightarrow> (Some e, db)
      | Inr conn \<Rightarrow>
     case bl_migrations lib conn of
        Some e \<Rightarrow> (Some (ErrWrap ''migrate before rotation'' e), db)
      | None \<Rightarrow>
     let oldEnc = AESGCMEncryptor rnd oldKey; newEnc = AESGCMEncryptor rnd newKey in
     case RotateDKIMKeys (denv\<lparr>de_enc := oldEnc\<rparr>) None oldEnc newEnc n (fst db) of
        ((dkimRotated, Some e), ddb) \<Rightarrow> (Some (ErrWrap ''rotate dkim keys'' e), ddb, snd db)
      | ((dkimRotated, None), ddb) \<Rightarrow>
     case RotateSecrets (wenv\<lparr>wp_enc := oldEnc\<rparr>) None oldEnc newEnc n' (snd db) of
        ((secretsRotated, Some e), wdb) \<Rightarrow> (Some (ErrWrap ''rotate webhook secrets'' e), ddb, wdb)
      | ((secretsRotated, None), wdb) \<Rightarrow> (None, ddb, wdb))"

text \<open>
  A table of secrets, by the ID of the row: the same rows, changed at most in the ciphertext, and every
  secret still readable under the old key or, where that one rejects it, under the new; and all of them
  readable under the new key and none under the old.
\<close>

definition kept_secrets :: "(string \<Rightarrow> 'r \<Rightarrow> 'r) \<Rightarrow> encryptor \<Rightarrow> encryptor \<Rightarrow> (string \<Rightarrow> bytes)
    \<Rightarrow> (string \<Rightarrow> 'r option) \<Rightarrow> (string \<Rightarrow> 'r option) \<Rightarrow> bool" where
  "kept_secrets put oldEnc newEnc secret rows rows' \<longleftrightarrow>
     (\<forall>k. rel_option (\<lambda>r r'. \<exists>s. r' = put s r \<and> readable oldEnc newEnc s (secret k)) (rows k) (rows' k))"

definition moved_secrets :: "('r \<Rightarrow> string) \<Rightarrow> encryptor \<Rightarrow> encryptor \<Rightarrow> (string \<Rightarrow> bytes) \<Rightarrow> (string \<Rightarrow> 'r option) \<Rightarrow> bool" where
  "moved_secrets get oldEnc newEnc secret rows \<longleftrightarrow>
     (\<forall>k r. rows k = Some r \<longrightarrow> decryptSecret newEnc (get r) = Inr (secret k) \<and> (\<forall>p. decryptSecret oldEnc (get r) \<noteq> Inr p))"

lemma decryptSecret_under: "decryptSecret enc s = Inr p \<longleftrightarrow> under enc s p"
  by (auto simp: decryptSecret_def under_def split: sum.splits)

lemma rotate_column_secrets:
  assumes st: "secret_table c db ok look filled conflict nrm" and enc: "enc_inverts newEnc" "enc_separated oldEnc newEnc"
    and "ok t" "\<forall>k r. look t k = Some r \<longrightarrow> readable oldEnc newEnc (sc_get c r) (secret k)"
    and "rotate_column c db ctx oldEnc newEnc n t = ((m, err), t')"
  shows "ok t' \<and> kept_secrets (sc_set c) oldEnc newEnc secret (look t) (look t')
    \<and> (\<forall>k r. look t' k = Some r \<longrightarrow> readable oldEnc newEnc (sc_get c r) (secret k))
    \<and> (err = None \<longrightarrow> moved_secrets (sc_get c) oldEnc newEnc secret (look t'))"
proof -
  have "secret_table.all_readable c look oldEnc newEnc secret t" using assms(5) by (simp add: secret_table.all_readable_def[OF st])
  note k = secret_table.rotate_column_keeps[OF st enc assms(4) this assms(6),
      unfolded secret_table.all_readable_def[OF st] secret_table.recoded_def[OF st]]
  have "rel_option (\<lambda>r r'. \<exists>s. r' = sc_set c s r \<and> readable oldEnc newEnc s (secret i)) (look t i) (look t' i)" for i
  proof -
    have "rel_option (\<lambda>r r'. \<exists>s. r' = sc_set c s r) (look t i) (look t' i)" using k by blast
    moreover have "readable oldEnc newEnc s (secret i)" if "look t' i = Some (sc_set c s r)" for s r
      using k that by (metis secret_table.set_get[OF st])
    ultimately show ?thesis by (cases "look t i"; cases "look t' i") auto
  qed
  moreover have "\<not> under oldEnc s p" if "rejects oldEnc s" for s p using that by (auto simp: under_def rejects_def)
  ultimately show ?thesis using k by (auto simp: kept_secrets_def moved_secrets_def decryptSecret_under)
qed

lemma secret_columns: "sc_get dkim_column = dk_PrivateKeyPEM" "sc_set dkim_column = (\<lambda>s r. r\<lparr>dk_PrivateKeyPEM := s\<rparr>)"
  "sc_get subscription_column = sr_Secret" "sc_set subscription_column = (\<lambda>s r. r\<lparr>sr_Secret := s\<rparr>)"
  by (simp_all add: dkim_column_def subscription_column_def)

lemma kept_secrets_refl:
  assumes "\<forall>k r. rows k = Some r \<longrightarrow> readable oldEnc newEnc (sc_get c r) (secret k)" "\<And>r. sc_set c (sc_get c r) r = r"
  shows "kept_secrets (sc_set c) oldEnc newEnc secret rows rows"
  unfolding kept_secrets_def
proof
  fix k
  show "rel_option (\<lambda>r r'. \<exists>s. r' = sc_set c s r \<and> readable oldEnc newEnc s (secret k)) (rows k) (rows k)"
    using assms by (cases "rows k") (auto intro!: exI[of _ "sc_get c (the (rows k))"])
qed

text \<open>
  C31: A change of the master key loses no secret, wherever it stops, and can be run again. Start from
  DKIM keys and webhook secrets that decrypt under the old master key or, after a run that was cut
  short, under the new one. However the tool ends, with a wrong key, a database that fails at any
  statement, or success, the same rows are there, they differ at most in the ciphertext, and every
  secret is still readable under one of the two keys, which is the condition to run the tool again.
  When it reports success, every DKIM key and every webhook secret decrypts under the new key and none
  under the old.
\<close>

theorem rotateMasterKey_resumable:
  assumes "dkim_keys_table (de_dkim_keys denv) okd lookd" "okd (db_dkim_keys ddb)"
    and "sql_table (wp_subscriptions wenv) oks looks sr_Id subscription_row_filled (\<lambda>_ _. False) (\<lambda>r. r)" "oks (wdb_subscriptions wdb)"
    and "masterKeyFromEnv lib env = Inr oldKey" "b64_decode newKeyB64 = Inr key"
    and "NewAESGCMEncryptor (bl_NewCipher lib) (bl_NewGCM lib) key = Inr newKey"
    and "aead_inverts newKey" "aead_separated oldKey newKey" "fills_buffer rnd"
    and "oldEnc = AESGCMEncryptor rnd oldKey" "newEnc = AESGCMEncryptor rnd newKey"
    and "\<forall>k r. lookd (db_dkim_keys ddb) k = Some r \<longrightarrow> readable oldEnc newEnc (dk_PrivateKeyPEM r) (dkim k)"
    and "\<forall>k r. looks (wdb_subscriptions wdb) k = Some r \<longrightarrow> readable oldEnc newEnc (sr_Secret r) (secret k)"
    and "rotateMasterKey lib rnd env denv wenv n n' newKeyB64 (ddb, wdb) = (err, ddb', wdb')"
  shows "kept_secrets (\<lambda>s r. r\<lparr>dk_PrivateKeyPEM := s\<rparr>) oldEnc newEnc dkim (lookd (db_dkim_keys ddb)) (lookd (db_dkim_keys ddb'))
    \<and> kept_secrets (\<lambda>s r. r\<lparr>sr_Secret := s\<rparr>) oldEnc newEnc secret (looks (wdb_subscriptions wdb)) (looks (wdb_subscriptions wdb'))
    \<and> okd (db_dkim_keys ddb') \<and> oks (wdb_subscriptions wdb')
    \<and> (err = None \<longrightarrow> moved_secrets dk_PrivateKeyPEM oldEnc newEnc dkim (lookd (db_dkim_keys ddb'))
         \<and> moved_secrets sr_Secret oldEnc newEnc secret (looks (wdb_subscriptions wdb')))"
proof -
  have enc: "enc_inverts newEnc" "enc_separated oldEnc newEnc" using assms(8-12) AESGCM_inverts AESGCM_separated by auto
  note dt = dkim_secret_table[OF assms(1)] and stt = subscription_secret_table[OF assms(3)]
  have r0: "kept_secrets (sc_set dkim_column) oldEnc newEnc dkim (lookd (db_dkim_keys ddb)) (lookd (db_dkim_keys ddb))"
    "kept_secrets (sc_set subscription_column) oldEnc newEnc secret (looks (wdb_subscriptions wdb)) (looks (wdb_subscriptions wdb))"
    using assms(13,14) by (intro kept_secrets_refl; simp add: secret_columns)+
  show ?thesis
  proof (cases "\<exists>conn. db_Open (bl_gorm_Open lib) (DSNForRole env ''migrator'') = Inr conn \<and> bl_migrations lib conn = None")
    case False
    then have "err \<noteq> None \<and> ddb' = ddb \<and> wdb' = wdb"
      using assms(5-7,15) by (auto simp: rotateMasterKey_def split: sum.splits option.splits)
    then show ?thesis using r0 assms(2,4) by (auto simp: secret_columns)
  next
    case True
    obtain m e ddb1 where d: "RotateDKIMKeys (denv\<lparr>de_enc := oldEnc\<rparr>) None oldEnc newEnc n ddb = ((m, e), ddb1)" by (metis prod.collapse)
    then have dr: "rotate_column dkim_column (de_dkim_keys denv) None oldEnc newEnc n (db_dkim_keys ddb) = ((m, e), db_dkim_keys ddb1)"
      by (auto simp: RotateDKIMKeys_def split: prod.splits)
    note dk = rotate_column_secrets[OF dt enc assms(2) _ dr, unfolded secret_columns, OF assms(13)]
    obtain m2 e2 wdb1 where w: "RotateSecrets (wenv\<lparr>wp_enc := oldEnc\<rparr>) None oldEnc newEnc n' wdb = ((m2, e2), wdb1)" by (metis prod.collapse)
    then have wr: "rotate_column subscription_column (wp_subscriptions wenv) None oldEnc newEnc n' (wdb_subscriptions wdb) = ((m2, e2), wdb_subscriptions wdb1)"
      by (auto simp: RotateSecrets_def split: prod.splits)
    note wk = rotate_column_secrets[OF stt enc assms(4) _ wr, unfolded secret_columns, OF assms(14)]
    have "(err, ddb', wdb') = (case e of Some x \<Rightarrow> (Some (ErrWrap ''rotate dkim keys'' x), ddb1, wdb)
        | None \<Rightarrow> (case e2 of Some x \<Rightarrow> (Some (ErrWrap ''rotate webhook secrets'' x), ddb1, wdb1) | None \<Rightarrow> (None, ddb1, wdb1)))"
      using assms(5-7,11,12,15) True d w by (auto simp: rotateMasterKey_def Let_def split: option.splits)
    then show ?thesis using dk wk r0[unfolded secret_columns] assms(2,4) by (cases e; cases e2) auto
  qed
qed

subsection \<open>A rotation\<close>

definition rotation_lib :: "(unit, bytes) boot_lib" where
  "rotation_lib = \<lparr>bl_gorm_Open = (\<lambda>dsn. Inr ()), bl_migrations = (\<lambda>c. None), bl_NewCipher = Inr,
     bl_NewGCM = (\<lambda>b. Inr (tag_aead (hd b))), bl_sha256 = (\<lambda>b. b), bl_token_bytes = Inr [],
     bl_ParseFloat = (\<lambda>s. Inr 0),
     bl_tls = \<lparr>tl_GenerateKey = Inr [], tl_Int = (\<lambda>n. Inr 1), tl_now = (0, 0), tl_CreateCertificate = (\<lambda>t k. Inr [])\<rparr>\<rparr>"

definition demo_key_b64 :: "char \<Rightarrow> string" where
  "demo_key_b64 c = EncodeToString (replicate 32 c)"

definition rotation_env :: os_env where
  "rotation_env = (\<lambda>k. if k = ''ENVELOPE_MASTER_KEY'' then demo_key_b64 (CHR ''a'') else [])"

definition rotation_hooks :: "(subscription_row list_table, unit) webhook_env" where
  "rotation_hooks = list_webhook_env (demo_key (CHR ''a'')) no_table"

definition rotation_sub :: "string \<Rightarrow> subscription_row" where
  "rotation_sub s = \<lparr>sr_Id = ''s'', sr_Vhost = ''v'', sr_URL = ''u'', sr_Secret = s, sr_EventTypes = ''*'', sr_Disabled = False\<rparr>"

definition rotation_wdb :: "(subscription_row list_table, unit) webhook_db" where
  "rotation_wdb = \<lparr>wdb_subscriptions = \<lparr>lt_rows = [rotation_sub (demo_sealed (CHR ''a''))], lt_used = [''s'']\<rparr>, wdb_attempts = ()\<rparr>"

lemma rotation_keys:
  "masterKeyFromEnv rotation_lib rotation_env = Inr (tag_aead (CHR ''a''))"
  "b64_decode (demo_key_b64 c) = Inr (replicate 32 c)"
  "NewAESGCMEncryptor (bl_NewCipher rotation_lib) (bl_NewGCM rotation_lib) (replicate 32 c) = Inr (tag_aead c)"
proof -
  show g: "NewAESGCMEncryptor (bl_NewCipher rotation_lib) (bl_NewGCM rotation_lib) (replicate 32 c) = Inr (tag_aead c)" for c
    by (simp add: NewAESGCMEncryptor_def rotation_lib_def KeySize_def)
  show d: "b64_decode (demo_key_b64 c) = Inr (replicate 32 c)" for c by (simp add: demo_key_b64_def)
  have "b64_decode [] = Inr []" using b64_roundtrip[of "[]"] by (simp add: EncodeToString_def)
  then have "demo_key_b64 (CHR ''a'') \<noteq> []" using d[of "CHR ''a''"] by (metis Inr_inject length_replicate list.size(3) zero_neq_numeral)
  moreover have e: "rotation_env ''ENVELOPE_MASTER_KEY'' = demo_key_b64 (CHR ''a'')" by (simp add: rotation_env_def)
  ultimately show "masterKeyFromEnv rotation_lib rotation_env = Inr (tag_aead (CHR ''a''))"
    unfolding masterKeyFromEnv_def by (simp only: e if_False d sum.case g)
qed

lemma demo_sealed_under: "under (demo_key c) (demo_sealed c) ''PEM secret''"
  unfolding under_def demo_sealed_def
  by (intro exI[of _ "replicate 12 (CHR ''0'') @ ''PEM secret'' @ [c]"])
    (simp add: demo_key_def AESGCMEncryptor_def AESGCM_Decrypt_def tag_aead_def)

lemma rotation_secrets_run:
  "\<exists>wdb'. RotateSecrets rotation_hooks None (demo_key (CHR ''a'')) (demo_key (CHR ''b'')) 0 rotation_wdb = ((1, None), wdb')"
  by (simp add: RotateSecrets_def rotate_column_def rotation_hooks_def list_webhook_env_def list_table_ops_def lt_Find_def
      rotation_wdb_def sort_rows_def subscription_column_def rotation_sub_def demo_sealed_def demo_key_def
      AESGCMEncryptor_def AESGCM_Decrypt_def AESGCM_Encrypt_def tag_aead_def zero_rand_def lt_Updates_def lt_ok_def Let_def)

lemma rotation_dkim_run:
  "\<exists>ddb'. RotateDKIMKeys demo_dir_env None (demo_key (CHR ''a'')) (demo_key (CHR ''b'')) 0 demo_rotate_db = ((1, None), ddb')"
  by (simp add: RotateDKIMKeys_def rotate_column_def demo_dir_env_def list_table_ops_def lt_Find_def
      demo_rotate_db_def sort_rows_def dkim_column_def demo_dkim_row_def demo_sealed_def demo_key_def
      AESGCMEncryptor_def AESGCM_Decrypt_def AESGCM_Encrypt_def tag_aead_def zero_rand_def lt_Updates_def
      lt_ok_def dkim_row_norm_def Let_def)

theorem rotateMasterKey_resumable_witness:
  "\<exists>ddb' wdb'. rotateMasterKey rotation_lib zero_rand rotation_env demo_dir_env rotation_hooks 0 0 (demo_key_b64 (CHR ''b''))
        (demo_rotate_db, rotation_wdb) = (None, ddb', wdb')
     \<and> moved_secrets dk_PrivateKeyPEM (demo_key (CHR ''a'')) (demo_key (CHR ''b'')) (\<lambda>_. ''PEM secret'') (lt_look dk_Id (db_dkim_keys ddb'))
     \<and> moved_secrets sr_Secret (demo_key (CHR ''a'')) (demo_key (CHR ''b'')) (\<lambda>_. ''PEM secret'') (lt_look sr_Id (wdb_subscriptions wdb'))"
proof -
  let ?a = "demo_key (CHR ''a'')" and ?b = "demo_key (CHR ''b'')"
  have ok: "demo_dkim_ok (db_dkim_keys demo_rotate_db)" "lt_ok sr_Id (\<lambda>_ _. False) (\<lambda>r. r) (wdb_subscriptions rotation_wdb)"
    by (auto simp: demo_dkim_ok_def lt_ok_def demo_rotate_db_def demo_dkim_row_def dkim_row_norm_def rotation_wdb_def rotation_sub_def)
  have st: "sql_table (wp_subscriptions rotation_hooks) (lt_ok sr_Id (\<lambda>_ _. False) (\<lambda>r. r)) (lt_look sr_Id) sr_Id subscription_row_filled
      (\<lambda>_ _. False) (\<lambda>r. r)" by (simp add: rotation_hooks_def list_webhook_env_def slt.sql_table_axioms)
  have rd: "\<forall>k r. lt_look dk_Id (db_dkim_keys demo_rotate_db) k = Some r \<longrightarrow> readable ?a ?b (dk_PrivateKeyPEM r) ''PEM secret''"
    "\<forall>k r. lt_look sr_Id (wdb_subscriptions rotation_wdb) k = Some r \<longrightarrow> readable ?a ?b (sr_Secret r) ''PEM secret''"
    using demo_sealed_under by (auto simp: lt_look_def demo_rotate_db_def demo_dkim_row_def rotation_wdb_def rotation_sub_def readable_def)
  have sep: "aead_separated (tag_aead (CHR ''a'')) (tag_aead (CHR ''b''))" by (simp add: tag_aead_laws(2))
  obtain ddb' wdb' where d: "RotateDKIMKeys demo_dir_env None ?a ?b 0 demo_rotate_db = ((1, None), ddb')"
    "RotateSecrets rotation_hooks None ?a ?b 0 rotation_wdb = ((1, None), wdb')"
    using rotation_dkim_run rotation_secrets_run by blast
  have same: "demo_dir_env\<lparr>de_enc := AESGCMEncryptor zero_rand (tag_aead (CHR ''a''))\<rparr> = demo_dir_env"
    "rotation_hooks\<lparr>wp_enc := AESGCMEncryptor zero_rand (tag_aead (CHR ''a''))\<rparr> = rotation_hooks"
    by (simp_all add: demo_dir_env_def rotation_hooks_def list_webhook_env_def demo_key_def)
  have "bl_gorm_Open rotation_lib dsn = Inr ()" "bl_migrations rotation_lib c = None" for dsn c by (simp_all add: rotation_lib_def)
  then have run: "rotateMasterKey rotation_lib zero_rand rotation_env demo_dir_env rotation_hooks 0 0 (demo_key_b64 (CHR ''b''))
        (demo_rotate_db, rotation_wdb) = (None, ddb', wdb')"
    using d by (simp add: rotateMasterKey_def rotation_keys db_Open_def same Let_def demo_key_def)
  from rotateMasterKey_resumable[where dkim = "\<lambda>_. ''PEM secret''" and secret = "\<lambda>_. ''PEM secret''", OF demo_dir_tables(2) ok(1) st ok(2)
      rotation_keys tag_aead_laws(1) sep tag_aead_laws(3) demo_key_def demo_key_def rd run]
  show ?thesis using run by blast
qed

end
