(* ===== verification/Migrations.thy ===== *)
theory Migrations
  imports Directory_Service Apiauth
begin

section \<open>Migrations: internal/storage/migrations, directory/migrate.go, apiauth/postgres.go\<close>

text \<open>
  What runs before every start: \<open>AutoMigrate\<close> of each table, which is the database library's, and the two
  backfills, which give every vhost from before accounts an account of its own and every token of such
  a vhost that account. \<open>alter\<close> is the outcome of the statement that then forbids null accounts.
\<close>

record legacy_token_row = token_row +
  tr_VhostID :: string

subsection \<open>directory/migrate.go\<close>

definition legacy_account :: "('a, 'v, 'd, 'm) dir_env \<Rightarrow> vhost_row \<Rightarrow> ('a, 'v, 'd, 'm) dir_db
    \<Rightarrow> (gerr + unit) \<times> ('a, 'v, 'd, 'm) dir_db" where
  "legacy_account env v db =
     (case t_Create (de_accounts env) None \<lparr>ar_Id = [], ar_CreatedAt = None, ar_Name = ''Legacy: '' @ vr_Domain v\<rparr> (db_accounts db) of
        (Inl e, ta) \<Rightarrow> (Inl e, db\<lparr>db_accounts := ta\<rparr>)
      | (Inr acct, ta) \<Rightarrow>
          (case t_Updates (de_vhosts env) None (\<lambda>r. vr_Id r = vr_Id v) (\<lambda>r. r\<lparr>vr_AccountID := ar_Id acct\<rparr>) (db_vhosts db) of
             (Inl e, tv) \<Rightarrow> (Inl e, db\<lparr>db_accounts := ta, db_vhosts := tv\<rparr>)
           | (Inr n, tv) \<Rightarrow> (Inr (), db\<lparr>db_accounts := ta, db_vhosts := tv\<rparr>)))"

fun backfill_loop :: "('a, 'v, 'd, 'm) dir_env \<Rightarrow> vhost_row list \<Rightarrow> ('a, 'v, 'd, 'm) dir_db \<Rightarrow> gerr option \<times> ('a, 'v, 'd, 'm) dir_db" where
  "backfill_loop env [] db = (None, db)"
| "backfill_loop env (v # vs) db =
     (case transaction (de_Begin env None) (de_Commit env None) (legacy_account env v) db of
        (Inl e, db') \<Rightarrow> (Some (ErrWrap (''directory: backfill legacy account for vhost '' @ go_quote (vr_Domain v)) e), db')
      | (Inr _, db') \<Rightarrow> backfill_loop env vs db')"

definition backfillLegacyAccounts :: "('a, 'v, 'd, 'm) dir_env \<Rightarrow> gerr option \<Rightarrow> ('a, 'v, 'd, 'm) dir_db
    \<Rightarrow> gerr option \<times> ('a, 'v, 'd, 'm) dir_db" where
  "backfillLegacyAccounts env alter db =
     (case t_Find (de_vhosts env) None (\<lambda>r. vr_AccountID r = []) [] None (db_vhosts db) of
        Inl e \<Rightarrow> (Some (ErrWrap ''directory: find vhosts needing legacy account backfill'' e), db)
      | Inr rows \<Rightarrow>
          (case backfill_loop env rows db of
             (Some e, db') \<Rightarrow> (Some e, db')
           | (None, db') \<Rightarrow>
               (case alter of
                  Some e \<Rightarrow> (Some (ErrWrap ''directory: tighten vhosts.account_id to NOT NULL'' e), db')
                | None \<Rightarrow> (None, db'))))"

definition directory_Migrate :: "('a, 'v, 'd, 'm) dir_env \<Rightarrow> gerr option \<Rightarrow> gerr option \<Rightarrow> ('a, 'v, 'd, 'm) dir_db
    \<Rightarrow> gerr option \<times> ('a, 'v, 'd, 'm) dir_db" where
  "directory_Migrate env auto alter db = (case auto of Some e \<Rightarrow> (Some e, db) | None \<Rightarrow> backfillLegacyAccounts env alter db)"

subsection \<open>apiauth/postgres.go\<close>

text \<open>The join of the \<open>UPDATE\<close> reads the vhosts; \<open>vr_Id\<close> is their primary key.\<close>

definition backfillTokenAccountIDs :: "(vhost_row, 'v) sql_ops \<Rightarrow> (legacy_token_row, 't) sql_ops \<Rightarrow> gerr option \<Rightarrow> 'v \<Rightarrow> 't \<Rightarrow> gerr option \<times> 't" where
  "backfillTokenAccountIDs vdb tdb alter v t =
     (case t_Find vdb None (\<lambda>r. True) [] None v of
        Inl e \<Rightarrow> (Some (ErrWrap ''apiauth: backfill token account_id'' e), t)
      | Inr vhosts \<Rightarrow>
          (case t_Updates tdb None (\<lambda>r. list_ex (\<lambda>x. vr_Id x = tr_VhostID r) vhosts \<and> tr_AccountID r = [])
              (\<lambda>r. case find (\<lambda>x. vr_Id x = tr_VhostID r) vhosts of None \<Rightarrow> r | Some x \<Rightarrow> r\<lparr>tr_AccountID := vr_AccountID x\<rparr>) t of
             (Inl e, t') \<Rightarrow> (Some (ErrWrap ''apiauth: backfill token account_id'' e), t')
           | (Inr n, t') \<Rightarrow>
               (case alter of
                  Some e \<Rightarrow> (Some (ErrWrap ''apiauth: tighten api_tokens.account_id to NOT NULL'' e), t')
                | None \<Rightarrow> (None, t'))))"

definition apiauth_MigratePostgres :: "(vhost_row, 'v) sql_ops \<Rightarrow> (legacy_token_row, 't) sql_ops \<Rightarrow> gerr option \<Rightarrow> gerr option
    \<Rightarrow> 'v \<Rightarrow> 't \<Rightarrow> gerr option \<times> 't" where
  "apiauth_MigratePostgres vdb tdb auto alter v t = (case auto of Some e \<Rightarrow> (Some e, t) | None \<Rightarrow> backfillTokenAccountIDs vdb tdb alter v t)"

subsection \<open>migrations.go\<close>

fun run_steps :: "(string \<times> ('db \<Rightarrow> gerr option \<times> 'db)) list \<Rightarrow> 'db \<Rightarrow> gerr option \<times> 'db" where
  "run_steps [] db = (None, db)"
| "run_steps ((name, fn) # steps) db =
     (case fn db of
        (Some e, db') \<Rightarrow> (Some (ErrWrap (''migrations: '' @ name) e), db')
      | (None, db') \<Rightarrow> run_steps steps db')"

text \<open>The outcomes of \<open>AutoMigrate\<close> by step, and of the two \<open>ALTER\<close> statements.\<close>

record migration_outcomes =
  mo_auto :: "string \<Rightarrow> gerr option"
  mo_alter_vhosts :: "gerr option"
  mo_alter_tokens :: "gerr option"

definition migrations_All :: "('a, 'v, 'd, 'm) dir_env \<Rightarrow> (legacy_token_row, 't) sql_ops \<Rightarrow> migration_outcomes
    \<Rightarrow> ('a, 'v, 'd, 'm) dir_db \<times> 't \<Rightarrow> gerr option \<times> ('a, 'v, 'd, 'm) dir_db \<times> 't" where
  "migrations_All env tdb mo =
     (let auto = (\<lambda>name. (name, \<lambda>db. (mo_auto mo name, db))) in
      run_steps
        [(''directory'', \<lambda>(d, t). case directory_Migrate env (mo_auto mo ''directory'') (mo_alter_vhosts mo) d of (e, d') \<Rightarrow> (e, d', t)),
         auto ''queue'', auto ''webhook'', auto ''storage'', auto ''ratelimit'',
         (''apiauth'', \<lambda>(d, t). case apiauth_MigratePostgres (de_vhosts env) tdb (mo_auto mo ''apiauth'') (mo_alter_tokens mo) (db_vhosts d) t of
            (e, t') \<Rightarrow> (e, d, t')),
         auto ''audit''])"

subsection \<open>What the tables promise\<close>

definition account_row_filled :: "account_row \<Rightarrow> account_row \<Rightarrow> bool" where
  "account_row_filled r r' \<longleftrightarrow> ar_Id r' \<noteq> [] \<and> (ar_Id r \<noteq> [] \<longrightarrow> ar_Id r' = ar_Id r) \<and> ar_Name r' = ar_Name r"

definition account_row_norm :: "account_row \<Rightarrow> account_row" where
  "account_row_norm r = r\<lparr>ar_CreatedAt := map_option (\<lambda>t. t div 1000 * 1000) (ar_CreatedAt r)\<rparr>"

definition legacy_token_filled :: "legacy_token_row \<Rightarrow> legacy_token_row \<Rightarrow> bool" where
  "legacy_token_filled r r' \<longleftrightarrow> tr_Id r' \<noteq> [] \<and> (tr_Id r \<noteq> [] \<longrightarrow> tr_Id r' = tr_Id r)"

definition legacy_token_norm :: "legacy_token_row \<Rightarrow> legacy_token_row" where
  "legacy_token_norm r = r\<lparr>tr_CreatedAt := map_option (\<lambda>t. t div 1000 * 1000) (tr_CreatedAt r)\<rparr>"

text \<open>The tables a migration works on, each under the contract of \<open>sql_table\<close>.\<close>

locale legacy_tables =
  ac: sql_table "de_accounts env" oka looka ar_Id account_row_filled "\<lambda>_ _. False" account_row_norm +
  vh: sql_table "de_vhosts env" okv lookv vr_Id vhost_row_filled "\<lambda>r r'. vr_Domain r = vr_Domain r'" "\<lambda>r. r" +
  tk: sql_table tdb okt lookt tr_Id legacy_token_filled "\<lambda>r r'. tr_TokenHash r = tr_TokenHash r'" legacy_token_norm
  for env :: "('a, 'v, 'd, 'm) dir_env" and oka looka okv lookv and tdb :: "(legacy_token_row, 't) sql_ops" and okt lookt
begin

definition dir_ok :: "('a, 'v, 'd, 'm) dir_db \<Rightarrow> bool" where
  "dir_ok d \<longleftrightarrow> oka (db_accounts d) \<and> okv (db_vhosts d)"

text \<open>The accounts handed out: \<open>given\<close> maps the vhosts that got one to it.\<close>

definition backfilled :: "(string \<Rightarrow> string option) \<Rightarrow> ('a, 'v, 'd, 'm) dir_db \<Rightarrow> ('a, 'v, 'd, 'm) dir_db \<Rightarrow> bool" where
  "backfilled given d d' \<longleftrightarrow>
     lookv (db_vhosts d') = (\<lambda>k. map_option (\<lambda>r. case given k of None \<Rightarrow> r | Some a \<Rightarrow> r\<lparr>vr_AccountID := a\<rparr>) (lookv (db_vhosts d) k))
     \<and> (\<forall>k a. given k = Some a \<longrightarrow> (\<exists>v. lookv (db_vhosts d) k = Some v \<and> vr_AccountID v = []) \<and> a \<noteq> []
          \<and> looka (db_accounts d) a = None \<and> looka (db_accounts d') a \<noteq> None)
     \<and> (\<forall>k k' a. given k = Some a \<and> given k' = Some a \<longrightarrow> k = k')
     \<and> (\<forall>a x. looka (db_accounts d) a = Some x \<longrightarrow> looka (db_accounts d') a = Some x)"

lemma backfilled_refl: "backfilled (\<lambda>_. None) d d"
  by (simp add: backfilled_def option.map_ident)

lemma legacy_account_step:
  assumes "dir_ok d" "lookv (db_vhosts d) (vr_Id v) = Some v" "vr_AccountID v = []" "legacy_account env v d = (Inr u, d')"
  shows "\<exists>a. dir_ok d' \<and> backfilled [vr_Id v \<mapsto> a] d d'"
proof -
  obtain acct ta where c: "t_Create (de_accounts env) None \<lparr>ar_Id = [], ar_CreatedAt = None, ar_Name = ''Legacy: '' @ vr_Domain v\<rparr>
      (db_accounts d) = (Inr acct, ta)" using assms(4) by (auto simp: legacy_account_def split: prod.splits sum.splits)
  then obtain n tv where u: "t_Updates (de_vhosts env) None (\<lambda>r. vr_Id r = vr_Id v) (\<lambda>r. r\<lparr>vr_AccountID := ar_Id acct\<rparr>) (db_vhosts d)
      = (Inr n, tv)" and d': "d' = d\<lparr>db_accounts := ta, db_vhosts := tv\<rparr>"
    using assms(4) by (auto simp: legacy_account_def split: prod.splits sum.splits)
  have a: "oka ta" "looka (db_accounts d) (ar_Id acct) = None" "looka ta = (looka (db_accounts d))(ar_Id acct \<mapsto> account_row_norm acct)"
    "ar_Id acct \<noteq> []"
    using ac.create_ok[OF _ c] assms(1) by (auto simp: dir_ok_def account_row_filled_def)
  have w: "okv tv" "lookv tv = (\<lambda>k. map_option (\<lambda>r. if vr_Id r = vr_Id v then r\<lparr>vr_AccountID := ar_Id acct\<rparr> else r) (lookv (db_vhosts d) k))"
    using vh.updates_ok[OF _ u] assms(1) by (auto simp: dir_ok_def)
  have "map_option (\<lambda>r. if vr_Id r = vr_Id v then r\<lparr>vr_AccountID := ar_Id acct\<rparr> else r) (lookv (db_vhosts d) k)
      = map_option (\<lambda>r. case [vr_Id v \<mapsto> ar_Id acct] k of None \<Rightarrow> r | Some a \<Rightarrow> r\<lparr>vr_AccountID := a\<rparr>) (lookv (db_vhosts d) k)" for k
    using vh.look_id[of "db_vhosts d" k] assms(1) by (cases "lookv (db_vhosts d) k") (auto simp: dir_ok_def)
  then show ?thesis using a w assms(2,3) d' by (intro exI[of _ "ar_Id acct"]) (auto simp: dir_ok_def backfilled_def split: if_splits)
qed

lemma backfilled_keeps: "backfilled g d d' \<Longrightarrow> g k = None \<Longrightarrow> lookv (db_vhosts d') k = lookv (db_vhosts d) k"
  unfolding backfilled_def by (elim conjE) (simp only: option.case option.map_ident)

lemma backfilled_trans:
  assumes "backfilled g d d1" "backfilled g' d1 d2"
  shows "backfilled (g ++ g') d d2"
proof -
  note g = assms(1)[unfolded backfilled_def] and g' = assms(2)[unfolded backfilled_def]
  have dis: "g' k = None" if gk: "g k = Some a" for k a
  proof (rule ccontr)
    assume "g' k \<noteq> None"
    then obtain v where "lookv (db_vhosts d1) k = Some v" "vr_AccountID v = []" using g' by blast
    moreover obtain v0 where "lookv (db_vhosts d) k = Some v0" "a \<noteq> []" using g gk by blast
    ultimately show False using g gk by auto
  qed
  have old: "lookv (db_vhosts d1) k = lookv (db_vhosts d) k" if "g k = None" for k
    using g that by (simp add: option.map_ident)
  have vhosts: "lookv (db_vhosts d2) = (\<lambda>k. map_option (\<lambda>r. case (g ++ g') k of None \<Rightarrow> r | Some a \<Rightarrow> r\<lparr>vr_AccountID := a\<rparr>) (lookv (db_vhosts d) k))"
  proof
    fix k
    show "lookv (db_vhosts d2) k = map_option (\<lambda>r. case (g ++ g') k of None \<Rightarrow> r | Some a \<Rightarrow> r\<lparr>vr_AccountID := a\<rparr>) (lookv (db_vhosts d) k)"
      using g g' dis[of k] old[of k] by (cases "g k"; cases "g' k"; cases "lookv (db_vhosts d) k") (auto simp: map_add_def)
  qed
  have acc: "looka (db_accounts d2) a = Some x" if "looka (db_accounts d) a = Some x" for a x using g g' that by blast
  have one: "(\<exists>v. lookv (db_vhosts d) k = Some v \<and> vr_AccountID v = []) \<and> a \<noteq> [] \<and> looka (db_accounts d) a = None \<and> looka (db_accounts d2) a \<noteq> None"
    if "(g ++ g') k = Some a" for k a
  proof (cases "g' k")
    case None
    then have k: "g k = Some a" using that by (simp add: map_add_def)
    then have "looka (db_accounts d2) a \<noteq> None" using g g' by fastforce
    then show ?thesis using g k by blast
  next
    case (Some b)
    then have "b = a" "g k = None" using that dis[of k] by (cases "g k"; simp add: map_add_def)+
    moreover have "looka (db_accounts d) a = None" using g g' Some \<open>b = a\<close> by (metis option.exhaust option.simps(3))
    ultimately show ?thesis using g' Some old by metis
  qed
  have inj: "k = k'" if h: "(g ++ g') k = Some a" "(g ++ g') k' = Some a" for k k' a
  proof (cases "g' k"; cases "g' k'")
    assume "g' k = None" "g' k' = None"
    then show ?thesis using h g by (simp add: map_add_def; blast)
  next
    fix b c assume "g' k = Some b" "g' k' = Some c"
    then show ?thesis using h g' by (simp add: map_add_def; blast)
  next
    fix b assume "g' k = None" "g' k' = Some b"
    then show ?thesis using h g g' by (simp add: map_add_def; metis)
  next
    fix b assume "g' k = Some b" "g' k' = None"
    then show ?thesis using h g g' by (simp add: map_add_def; metis)
  qed
  show ?thesis unfolding backfilled_def
  proof (intro conjI allI impI)
    fix k k' a assume "(g ++ g') k = Some a \<and> (g ++ g') k' = Some a"
    then show "k = k'" by (elim conjE) (rule inj)
  qed (fact vhosts | drule one, elim conjE, assumption | erule acc)+
qed

lemma backfilled_legacy:
  assumes "backfilled g d d'" "dom g = {k. \<exists>v. lookv (db_vhosts d) k = Some v \<and> vr_AccountID v = []}"
    "lookv (db_vhosts d') k = Some v"
  shows "vr_AccountID v \<noteq> []"
proof (cases "g k")
  case None
  then have "lookv (db_vhosts d) k = Some v" using assms(1,3) by (simp add: backfilled_def option.map_ident)
  then show ?thesis using assms(2) None by (metis (mono_tags, lifting) domIff mem_Collect_eq)
next
  case (Some a)
  then have "a \<noteq> []" "\<exists>r. v = r\<lparr>vr_AccountID := a\<rparr>" using assms(1,3) by (auto simp: backfilled_def)
  then show ?thesis by auto
qed

lemma backfill_loop_spec:
  "dir_ok d \<Longrightarrow> distinct (map vr_Id rows) \<Longrightarrow> \<forall>v \<in> set rows. lookv (db_vhosts d) (vr_Id v) = Some v \<and> vr_AccountID v = []
    \<Longrightarrow> backfill_loop env rows d = (e, d')
    \<Longrightarrow> \<exists>g. dir_ok d' \<and> backfilled g d d' \<and> (e = None \<longrightarrow> vr_Id ` set rows \<subseteq> dom g)"
proof (induction rows arbitrary: d)
  case Nil
  then show ?case using backfilled_refl by auto
next
  case (Cons v rows)
  obtain x d1 where t: "transaction (de_Begin env None) (de_Commit env None) (legacy_account env v) d = (x, d1)" by fastforce
  show ?case
  proof (cases x)
    case (Inl err)
    then have "d1 = d" using transaction_error[OF t[unfolded Inl]] by blast
    then show ?thesis using Cons.prems t Inl backfilled_refl by (intro exI[of _ "\<lambda>_. None"]) auto
  next
    case (Inr u)
    obtain a where a: "dir_ok d1" "backfilled [vr_Id v \<mapsto> a] d d1"
      using legacy_account_step[OF Cons.prems(1) _ _ transaction_ok[OF t[unfolded Inr]]] Cons.prems(3) by auto
    have keep: "lookv (db_vhosts d1) k = lookv (db_vhosts d) k" if "k \<noteq> vr_Id v" for k
      using backfilled_keeps[OF a(2)] that by simp
    have rest: "\<forall>w \<in> set rows. lookv (db_vhosts d1) (vr_Id w) = Some w \<and> vr_AccountID w = []"
    proof
      fix w assume w: "w \<in> set rows"
      then have "vr_Id w \<in> vr_Id ` set rows" by (rule imageI)
      then have "vr_Id w \<noteq> vr_Id v" using Cons.prems(2) by (metis distinct.simps(2) list.map(2) set_map)
      then show "lookv (db_vhosts d1) (vr_Id w) = Some w \<and> vr_AccountID w = []" using keep Cons.prems(3) w by simp
    qed
    have l: "backfill_loop env rows d1 = (e, d')" using Cons.prems(4) t Inr by simp
    obtain g where g: "dir_ok d'" "backfilled g d1 d'" "e = None \<longrightarrow> vr_Id ` set rows \<subseteq> dom g"
      using Cons.IH[OF a(1) _ rest l] Cons.prems(2) by auto
    show ?thesis using g backfilled_trans[OF a(2) g(2)] by (intro exI[of _ "[vr_Id v \<mapsto> a] ++ g"]) auto
  qed
qed

lemma directory_Migrate_spec:
  assumes "dir_ok d" "directory_Migrate env auto alter d = (e, d')"
  shows "\<exists>g. dir_ok d' \<and> backfilled g d d' \<and> (e = None \<longrightarrow> dom g = {k. \<exists>v. lookv (db_vhosts d) k = Some v \<and> vr_AccountID v = []})"
proof (cases "auto = None \<and> (\<exists>rows. t_Find (de_vhosts env) None (\<lambda>r. vr_AccountID r = []) [] None (db_vhosts d) = Inr rows)")
  case False
  then have "d' = d \<and> e \<noteq> None" using assms(2)
    by (auto simp: directory_Migrate_def backfillLegacyAccounts_def split: option.splits sum.splits)
  then show ?thesis using assms(1) backfilled_refl by blast
next
  case True
  then obtain rows where r: "auto = None" "t_Find (de_vhosts env) None (\<lambda>r. vr_AccountID r = []) [] None (db_vhosts d) = Inr rows" by blast
  obtain x d1 where l: "backfill_loop env rows d = (x, d1)" by fastforce
  then have d1: "d' = d1" "e = None \<Longrightarrow> x = None"
    using assms(2) r by (auto simp: directory_Migrate_def backfillLegacyAccounts_def split: option.splits)
  have ok: "okv (db_vhosts d)" using assms(1) by (simp add: dir_ok_def)
  have rows: "distinct rows" "set rows = {v. lookv (db_vhosts d) (vr_Id v) = Some v \<and> vr_AccountID v = []}"
    using vh.find_all[OF ok r(2)] by auto
  have "inj_on vr_Id (set rows)" unfolding rows(2) by (rule inj_onI) simp
  then have "distinct (map vr_Id rows)" using rows(1) by (simp add: distinct_map)
  then obtain g where g: "dir_ok d1" "backfilled g d d1" "x = None \<longrightarrow> vr_Id ` set rows \<subseteq> dom g"
    using backfill_loop_spec[OF assms(1) _ _ l] rows(2) by auto
  have "dom g \<subseteq> {k. \<exists>v. lookv (db_vhosts d) k = Some v \<and> vr_AccountID v = []}" using g(2) by (auto simp: backfilled_def)
  moreover have "{k. \<exists>v. lookv (db_vhosts d) k = Some v \<and> vr_AccountID v = []} = vr_Id ` set rows"
    unfolding rows(2) using vh.look_id[OF ok] by (auto simp: image_iff)
  ultimately show ?thesis using g d1 by (intro exI[of _ g]) auto
qed

lemma tokens_spec:
  assumes "okv v" "okt t" "apiauth_MigratePostgres (de_vhosts env) tdb auto alter v t = (e, t')" "lookt t k = Some r"
  shows "\<exists>a. lookt t' k = Some (r\<lparr>tr_AccountID := a\<rparr>) \<and> (tr_AccountID r \<noteq> [] \<longrightarrow> a = tr_AccountID r)
    \<and> (e = None \<longrightarrow> tr_AccountID r = [] \<longrightarrow> (\<forall>x. lookv v (tr_VhostID r) = Some x \<longrightarrow> a = vr_AccountID x))"
proof -
  have same: "r\<lparr>tr_AccountID := tr_AccountID r\<rparr> = r" by simp
  consider (err) "t' = t" "e \<noteq> None" | (run) vs n where "t_Find (de_vhosts env) None (\<lambda>r. True) [] None v = Inr vs"
    "t_Updates tdb None (\<lambda>r. list_ex (\<lambda>x. vr_Id x = tr_VhostID r) vs \<and> tr_AccountID r = [])
      (\<lambda>r. case find (\<lambda>x. vr_Id x = tr_VhostID r) vs of None \<Rightarrow> r | Some x \<Rightarrow> r\<lparr>tr_AccountID := vr_AccountID x\<rparr>) t = (Inr n, t')"
    using assms(3) by (auto simp: apiauth_MigratePostgres_def backfillTokenAccountIDs_def split: option.splits sum.splits prod.splits
        dest: tk.updates_err)
  then show ?thesis
  proof cases
    case err
    then show ?thesis using assms(4) same by (intro exI[of _ "tr_AccountID r"]) auto
  next
    case run
    have vs: "set vs = {x. lookv v (vr_Id x) = Some x}" using vh.find_all[OF assms(1) run(1)] by simp
    have rid: "tr_Id (case find (\<lambda>x. vr_Id x = tr_VhostID r) vs of None \<Rightarrow> r | Some x \<Rightarrow> r\<lparr>tr_AccountID := vr_AccountID x\<rparr>) = tr_Id r" for r
      by (cases "find (\<lambda>x. vr_Id x = tr_VhostID r) vs") simp_all
    note u = tk.updates_ok[OF assms(2) run(2) rid]
    have nr: "legacy_token_norm (r\<lparr>tr_AccountID := a\<rparr>) = r\<lparr>tr_AccountID := a\<rparr>" for a
      using tk.look_norm[OF assms(2,4)] by (cases r) (simp add: legacy_token_norm_def)
    show ?thesis
    proof (cases "tr_AccountID r = []")
      case False
      then show ?thesis using u assms(4) same by (intro exI[of _ "tr_AccountID r"]) simp
    next
      case True
      show ?thesis
      proof (cases "find (\<lambda>x. vr_Id x = tr_VhostID r) vs")
        case None
        then have no: "\<not> list_ex (\<lambda>x. vr_Id x = tr_VhostID r) vs" by (simp add: find_None_iff list_ex_iff)
        have "lookv v (tr_VhostID r) = None"
        proof (rule ccontr)
          assume "lookv v (tr_VhostID r) \<noteq> None"
          then obtain x where x: "lookv v (tr_VhostID r) = Some x" by blast
          then have i: "vr_Id x = tr_VhostID r" by (rule vh.look_id[OF assms(1)])
          then have "x \<in> set vs" using x vs by simp
          then show False using no i by (auto simp: list_ex_iff)
        qed
        moreover have "r\<lparr>tr_AccountID := []\<rparr> = r" using True by (cases r) simp
        ultimately show ?thesis using u assms(4) no True by (intro exI[of _ "[]"]) simp
      next
        case (Some x)
        then have x: "x \<in> set vs" "vr_Id x = tr_VhostID r" by (auto simp: find_Some_iff)
        then have "list_ex (\<lambda>x. vr_Id x = tr_VhostID r) vs" by (auto simp: list_ex_iff)
        moreover have "lookv v (tr_VhostID r) = Some x" using x vs by auto
        ultimately show ?thesis using u assms(4) True Some nr by (intro exI[of _ "vr_AccountID x"]) auto
      qed
    qed
  qed
qed

end

lemma All_parts:
  assumes "migrations_All env tdb mo (d, t) = (e, d', t')"
  obtains e1 where "directory_Migrate env (mo_auto mo ''directory'') (mo_alter_vhosts mo) d = (e1, d')" "t' = t" "e \<noteq> None"
  | e1 e2 where "directory_Migrate env (mo_auto mo ''directory'') (mo_alter_vhosts mo) d = (e1, d')"
    "apiauth_MigratePostgres (de_vhosts env) tdb (mo_auto mo ''apiauth'') (mo_alter_tokens mo) (db_vhosts d') t = (e2, t')"
    "e = None \<longrightarrow> e1 = None \<and> e2 = None"
  using assms by (auto simp: migrations_All_def Let_def split: option.splits prod.splits)

text \<open>
  C16: Migrations keep every tenant and every token in their place. However a run of all migrations ends,
  vhosts and tokens that have an account keep it and nothing else of a row changes, so a run can be
  repeated at every start. When it succeeds, every vhost has an account that exists, and a token from
  before accounts, of a vhost from before accounts, is in the account of exactly one vhost: the one it
  was issued for. No tenant gains access to another.
\<close>

theorem migrations_keep_access:
  assumes "legacy_tables env oka looka okv lookv tdb okt lookt"
    and "oka (db_accounts d)" "okv (db_vhosts d)" "okt t"
    and "\<forall>k v. lookv (db_vhosts d) k = Some v \<and> vr_AccountID v \<noteq> [] \<longrightarrow> looka (db_accounts d) (vr_AccountID v) \<noteq> None"
    and "migrations_All env tdb mo (d, t) = (err, d', t')"
  shows "(\<forall>k v. lookv (db_vhosts d) k = Some v \<longrightarrow> (\<exists>a. lookv (db_vhosts d') k = Some (v\<lparr>vr_AccountID := a\<rparr>)
        \<and> (vr_AccountID v \<noteq> [] \<longrightarrow> a = vr_AccountID v) \<and> (err = None \<longrightarrow> a \<noteq> [] \<and> looka (db_accounts d') a \<noteq> None)))
    \<and> (\<forall>k r. lookt t k = Some r \<longrightarrow> (\<exists>a. lookt t' k = Some (r\<lparr>tr_AccountID := a\<rparr>) \<and> (tr_AccountID r \<noteq> [] \<longrightarrow> a = tr_AccountID r)))
    \<and> (err = None \<longrightarrow> (\<forall>i r v k v'. lookt t i = Some r \<and> tr_AccountID r = [] \<and> lookv (db_vhosts d) (tr_VhostID r) = Some v
         \<and> vr_AccountID v = [] \<and> lookv (db_vhosts d) k = Some v' \<longrightarrow>
        (tr_AccountID (the (lookt t' i)) = vr_AccountID (the (lookv (db_vhosts d') k)) \<longleftrightarrow> k = tr_VhostID r)))"
proof -
  note L = assms(1)
  have ok: "legacy_tables.dir_ok oka okv d" using assms(2,3) by (simp add: legacy_tables.dir_ok_def[OF L])
  obtain e1 where m: "directory_Migrate env (mo_auto mo ''directory'') (mo_alter_vhosts mo) d = (e1, d')" "err = None \<Longrightarrow> e1 = None"
    using assms(6) by (rule All_parts) auto
  obtain g where g: "legacy_tables.dir_ok oka okv d'" "legacy_tables.backfilled looka lookv g d d'"
    "e1 = None \<Longrightarrow> dom g = {k. \<exists>v. lookv (db_vhosts d) k = Some v \<and> vr_AccountID v = []}"
    using legacy_tables.directory_Migrate_spec[OF L ok m(1)] by blast
  note b = g(2)[unfolded legacy_tables.backfilled_def[OF L]]
  let ?acc = "\<lambda>k v. case g k of None \<Rightarrow> vr_AccountID v | Some a \<Rightarrow> a"
  have vh: "lookv (db_vhosts d') k = Some (v\<lparr>vr_AccountID := ?acc k v\<rparr>)" if "lookv (db_vhosts d) k = Some v" for k v
    using b that by (cases "g k") auto
  have kept: "?acc k v = vr_AccountID v" if h: "lookv (db_vhosts d) k = Some v" "vr_AccountID v \<noteq> []" for k v
  proof -
    have "g k = None" using b h by (metis option.exhaust option.inject)
    then show ?thesis by simp
  qed
  have given: "\<exists>a. g k = Some a" if "err = None" "lookv (db_vhosts d) k = Some v" "vr_AccountID v = []" for k v
    using g(3) m(2) that by auto
  have live: "?acc k v \<noteq> [] \<and> looka (db_accounts d') (?acc k v) \<noteq> None" if h: "err = None" "lookv (db_vhosts d) k = Some v" for k v
  proof (cases "vr_AccountID v = []")
    case True
    then show ?thesis using given[OF h] b by auto
  next
    case False
    then show ?thesis using kept[OF h(2)] assms(5) b h(2) by fastforce
  qed
  have okv': "okv (db_vhosts d')" using g(1) by (simp add: legacy_tables.dir_ok_def[OF L])
  have tok: "\<exists>a. lookt t' i = Some (r\<lparr>tr_AccountID := a\<rparr>) \<and> (tr_AccountID r \<noteq> [] \<longrightarrow> a = tr_AccountID r)
      \<and> (err = None \<longrightarrow> tr_AccountID r = [] \<longrightarrow> (\<forall>x. lookv (db_vhosts d') (tr_VhostID r) = Some x \<longrightarrow> a = vr_AccountID x))"
    if "lookt t i = Some r" for i r
    using assms(6)
  proof (cases rule: All_parts)
    case 1
    then show ?thesis using that by (intro exI[of _ "tr_AccountID r"]) auto
  next
    case (2 e1 e2)
    then show ?thesis using legacy_tables.tokens_spec[OF L okv' assms(4) 2(2) that] by blast
  qed
  have exact: "tr_AccountID (the (lookt t' i)) = vr_AccountID (the (lookv (db_vhosts d') k)) \<longleftrightarrow> k = tr_VhostID r"
    if h: "err = None" "lookt t i = Some r" "tr_AccountID r = []" "lookv (db_vhosts d) (tr_VhostID r) = Some v" "vr_AccountID v = []"
      "lookv (db_vhosts d) k = Some v'" for i r v k v'
  proof -
    obtain a where a: "g (tr_VhostID r) = Some a" using given[OF h(1,4,5)] by blast
    then have ta: "tr_AccountID (the (lookt t' i)) = a" using tok[OF h(2)] h(1,3) vh[OF h(4)] by auto
    have "?acc k v' = a \<longleftrightarrow> k = tr_VhostID r"
    proof (cases "g k")
      case None
      then have "vr_AccountID v' \<noteq> []" using given[OF h(1,6)] by auto
      then have "looka (db_accounts d) (vr_AccountID v') \<noteq> None" using assms(5) h(6) by blast
      moreover have "looka (db_accounts d) a = None" using b a by blast
      ultimately show ?thesis using None a by auto
    next
      case (Some c)
      then show ?thesis using b a by (auto dest: spec)
    qed
    then show ?thesis using ta vh[OF h(6)] by auto
  qed
  show ?thesis
  proof (intro conjI allI impI)
    fix k v assume "lookv (db_vhosts d) k = Some v"
    then show "\<exists>a. lookv (db_vhosts d') k = Some (v\<lparr>vr_AccountID := a\<rparr>) \<and> (vr_AccountID v \<noteq> [] \<longrightarrow> a = vr_AccountID v)
        \<and> (err = None \<longrightarrow> a \<noteq> [] \<and> looka (db_accounts d') a \<noteq> None)" using vh kept live by blast
  next
    fix i r assume "lookt t i = Some r"
    from tok[OF this] obtain a where "lookt t' i = Some (r\<lparr>tr_AccountID := a\<rparr>)" "tr_AccountID r \<noteq> [] \<longrightarrow> a = tr_AccountID r" by blast
    then show "\<exists>a. lookt t' i = Some (r\<lparr>tr_AccountID := a\<rparr>) \<and> (tr_AccountID r \<noteq> [] \<longrightarrow> a = tr_AccountID r)" by blast
  next
    fix i r v k v'
    assume "err = None" "lookt t i = Some r \<and> tr_AccountID r = [] \<and> lookv (db_vhosts d) (tr_VhostID r) = Some v
         \<and> vr_AccountID v = [] \<and> lookv (db_vhosts d) k = Some v'"
    then show "tr_AccountID (the (lookt t' i)) = vr_AccountID (the (lookv (db_vhosts d') k)) \<longleftrightarrow> k = tr_VhostID r" using exact by blast
  qed
qed

subsection \<open>A database from before accounts\<close>

definition account_row_fill :: "account_row list_table \<Rightarrow> account_row \<Rightarrow> account_row" where
  "account_row_fill t r = (if ar_Id r = [] then r\<lparr>ar_Id := concat (lt_used t) @ ''a''\<rparr> else r)"

definition legacy_token_fill :: "legacy_token_row list_table \<Rightarrow> legacy_token_row \<Rightarrow> legacy_token_row" where
  "legacy_token_fill t r = (if tr_Id r = [] then r\<lparr>tr_Id := concat (lt_used t) @ ''t''\<rparr> else r)"

interpretation alt: list_table ar_Id account_row_fill account_row_filled "\<lambda>_ _. False" account_row_norm
  by unfold_locales (auto simp: account_row_filled_def account_row_fill_def account_row_norm_def option.map_comp comp_def)

interpretation llt: list_table tr_Id legacy_token_fill legacy_token_filled "\<lambda>r r'. tr_TokenHash r = tr_TokenHash r'" legacy_token_norm
  by unfold_locales (auto simp: legacy_token_filled_def legacy_token_fill_def legacy_token_norm_def option.map_comp comp_def)

definition legacy_env :: "(account_row list_table, vhost_row list_table, dkim_key_row list_table, unit) dir_env" where
  "legacy_env = \<lparr>de_accounts = list_table_ops ar_Id account_row_fill (\<lambda>_ _. False) account_row_norm,
     de_vhosts = list_table_ops vr_Id vhost_row_fill (\<lambda>r r'. vr_Domain r = vr_Domain r') (\<lambda>r. r),
     de_dkim_keys = de_dkim_keys demo_dir_env, de_mailboxes = no_table, de_Begin = (\<lambda>ctx db. ctx), de_Commit = (\<lambda>ctx db. ctx),
     de_enc = de_enc demo_dir_env, de_GenerateKey = de_GenerateKey demo_dir_env, de_MarshalPKCS1 = de_MarshalPKCS1 demo_dir_env,
     de_ParsePKCS1 = de_ParsePKCS1 demo_dir_env, de_pem_Encode = de_pem_Encode demo_dir_env, de_pem_Decode = de_pem_Decode demo_dir_env,
     de_bcrypt = de_bcrypt demo_dir_env, de_bcrypt_ok = de_bcrypt_ok demo_dir_env\<rparr>"

definition legacy_tokens :: "(legacy_token_row, legacy_token_row list_table) sql_ops" where
  "legacy_tokens = list_table_ops tr_Id legacy_token_fill (\<lambda>r r'. tr_TokenHash r = tr_TokenHash r') legacy_token_norm"

interpretation lgt: legacy_tables legacy_env "lt_ok ar_Id (\<lambda>_ _. False) account_row_norm" "lt_look ar_Id" demo_vhosts_ok "lt_look vr_Id"
  legacy_tokens "lt_ok tr_Id (\<lambda>r r'. tr_TokenHash r = tr_TokenHash r') legacy_token_norm" "lt_look tr_Id"
proof (rule legacy_tables.intro)
  show "sql_table (de_accounts legacy_env) (lt_ok ar_Id (\<lambda>_ _. False) account_row_norm) (lt_look ar_Id) ar_Id account_row_filled
      (\<lambda>_ _. False) account_row_norm" by (simp add: legacy_env_def alt.sql_table_axioms)
  show "sql_table (de_vhosts legacy_env) demo_vhosts_ok (lt_look vr_Id) vr_Id vhost_row_filled (\<lambda>r r'. vr_Domain r = vr_Domain r') (\<lambda>r. r)"
    by (simp add: legacy_env_def demo_vhosts_ok_def vlt.sql_table_axioms)
  show "sql_table legacy_tokens (lt_ok tr_Id (\<lambda>r r'. tr_TokenHash r = tr_TokenHash r') legacy_token_norm) (lt_look tr_Id) tr_Id
      legacy_token_filled (\<lambda>r r'. tr_TokenHash r = tr_TokenHash r') legacy_token_norm"
    by (simp add: legacy_tokens_def llt.sql_table_axioms)
qed

definition legacy_vhost :: "string \<Rightarrow> string \<Rightarrow> string \<Rightarrow> vhost_row" where
  "legacy_vhost i domain acct = zero_vhost_row\<lparr>vr_Id := i, vr_Domain := domain, vr_AccountID := acct, vr_Active := True\<rparr>"

definition legacy_db :: "(account_row list_table, vhost_row list_table, dkim_key_row list_table, unit) dir_db" where
  "legacy_db = \<lparr>db_accounts = \<lparr>lt_rows = [\<lparr>ar_Id = ''acc'', ar_CreatedAt = None, ar_Name = ''Acme''\<rparr>], lt_used = [''acc'']\<rparr>,
     db_vhosts = \<lparr>lt_rows = [legacy_vhost ''v1'' ''a.test'' [], legacy_vhost ''v2'' ''b.test'' ''acc''], lt_used = [''v1'', ''v2'']\<rparr>,
     db_dkim_keys = empty_table, db_mailboxes = ()\<rparr>"

definition legacy_token :: "legacy_token_row" where
  "legacy_token = \<lparr>tr_Id = ''t1'', tr_CreatedAt = None, tr_AccountID = [], tr_Label = ''ci'', tr_TokenHash = ''h'', tr_VhostID = ''v1''\<rparr>"

definition legacy_token_db :: "legacy_token_row list_table" where
  "legacy_token_db = \<lparr>lt_rows = [legacy_token], lt_used = [''t1'']\<rparr>"

definition clean_run :: migration_outcomes where
  "clean_run = \<lparr>mo_auto = (\<lambda>_. None), mo_alter_vhosts = None, mo_alter_tokens = None\<rparr>"

theorem migrations_keep_access_witness:
  "\<exists>d' t'. migrations_All legacy_env legacy_tokens clean_run (legacy_db, legacy_token_db) = (None, d', t')
     \<and> tr_AccountID (the (lt_look tr_Id t' ''t1'')) = vr_AccountID (the (lt_look vr_Id (db_vhosts d') ''v1''))
     \<and> tr_AccountID (the (lt_look tr_Id t' ''t1'')) \<noteq> vr_AccountID (the (lt_look vr_Id (db_vhosts d') ''v2''))"
proof -
  obtain e d' t' where run: "migrations_All legacy_env legacy_tokens clean_run (legacy_db, legacy_token_db) = (e, d', t')" by (metis prod_cases3)
  then have e: "e = None"
    by (auto simp: migrations_All_def directory_Migrate_def backfillLegacyAccounts_def apiauth_MigratePostgres_def backfillTokenAccountIDs_def
        clean_run_def legacy_env_def legacy_tokens_def list_table_ops_def lt_Find_def lt_Create_def lt_Updates_def sort_rows_def
        legacy_db_def legacy_token_db_def legacy_vhost_def legacy_token_def transaction_def legacy_account_def account_row_fill_def
        account_row_norm_def legacy_token_norm_def zero_vhost_row_def lt_ok_def Let_def)
  have ok: "lt_ok ar_Id (\<lambda>_ _. False) account_row_norm (db_accounts legacy_db)" "demo_vhosts_ok (db_vhosts legacy_db)"
    "lt_ok tr_Id (\<lambda>r r'. tr_TokenHash r = tr_TokenHash r') legacy_token_norm legacy_token_db"
    by (auto simp: lt_ok_def legacy_db_def legacy_token_db_def demo_vhosts_ok_def account_row_norm_def legacy_token_norm_def
        legacy_vhost_def legacy_token_def zero_vhost_row_def)
  have l: "lt_look vr_Id (db_vhosts legacy_db) ''v1'' = Some (legacy_vhost ''v1'' ''a.test'' [])"
    "lt_look vr_Id (db_vhosts legacy_db) ''v2'' = Some (legacy_vhost ''v2'' ''b.test'' ''acc'')" "lt_look tr_Id legacy_token_db ''t1'' = Some legacy_token"
    by (simp_all add: lt_look_def legacy_db_def legacy_vhost_def zero_vhost_row_def legacy_token_db_def legacy_token_def)
  have own: "\<forall>k v. lt_look vr_Id (db_vhosts legacy_db) k = Some v \<and> vr_AccountID v \<noteq> []
      \<longrightarrow> lt_look ar_Id (db_accounts legacy_db) (vr_AccountID v) \<noteq> None"
    by (auto simp: lt_look_def legacy_db_def legacy_vhost_def zero_vhost_row_def split: if_splits)
  note m = migrations_keep_access[OF lgt.legacy_tables_axioms ok own run]
  have f: "tr_AccountID legacy_token = []" "tr_VhostID legacy_token = ''v1''" "vr_AccountID (legacy_vhost ''v1'' ''a.test'' []) = []"
    by (simp_all add: legacy_token_def legacy_vhost_def)
  have x: "tr_AccountID (the (lt_look tr_Id t' ''t1'')) = vr_AccountID (the (lt_look vr_Id (db_vhosts d') k)) \<longleftrightarrow> k = ''v1''"
    if "lt_look vr_Id (db_vhosts legacy_db) k = Some v'" for k v'
    using m e that l(1,3) f by (metis (no_types, lifting))
  show ?thesis using run e x[OF l(1)] x[OF l(2)] by auto
qed

end
