(* ===== verification/Lifecycle.thy ===== *)
theory Lifecycle
  imports Boot_Wiring
begin

section \<open>Running and stopping an instance: internal/platform\<close>

text \<open>
  How the instances of a started process become servers (\<open>smtp/platform.go\<close>, \<open>imap/platform.go\<close>), what their
  \<open>App\<close> does on shutdown (\<open>app.go\<close>), and the background loops, whose \<open>Run\<close> and \<open>Shutdown\<close> are two goroutines
  that share the fields of a \<open>HeadlessApp\<close> without a lock (\<open>headless.go\<close>).
\<close>

subsection \<open>smtp/platform.go and imap/platform.go\<close>

datatype smtp_mode = ModeInbound | ModeSubmission

primrec smtp_mode_String :: "smtp_mode \<Rightarrow> string" where
  "smtp_mode_String ModeSubmission = ''smtp-submission''"
| "smtp_mode_String ModeInbound = ''smtp-inbound''"

record 'c smtp_platform =
  sp_Mode :: smtp_mode
  sp_Name :: string
  sp_Addr :: string
  sp_Domain :: string
  sp_TLS :: "'c tls_plan"
  sp_AllowInsecureAuth :: bool
  sp_MaxMessageBytes :: int

record 'c smtp_server =
  ssv_backend :: smtp_mode
  ssv_Addr :: string
  ssv_Domain :: string
  ssv_TLS :: "'c tls_plan"
  ssv_AllowInsecureAuth :: bool
  ssv_ReadTimeout :: duration
  ssv_WriteTimeout :: duration
  ssv_MaxMessageBytes :: int

definition smtp_defaultTimeout :: duration where "smtp_defaultTimeout = 30 * 10 ^ 9"

text \<open>\<open>listen\<close> is the outcome of binding the address; a server with its listener is an \<open>App\<close>.\<close>

definition smtp_Boot :: "(string \<Rightarrow> gerr + 'l) \<Rightarrow> 'c smtp_platform \<Rightarrow> gerr + ('l \<times> 'c smtp_server)" where
  "smtp_Boot listen cfg =
     (let server = \<lparr>ssv_backend = (case sp_Mode cfg of ModeSubmission \<Rightarrow> ModeSubmission | _ \<Rightarrow> ModeInbound), ssv_Addr = sp_Addr cfg,
            ssv_Domain = sp_Domain cfg, ssv_TLS = sp_TLS cfg, ssv_AllowInsecureAuth = sp_AllowInsecureAuth cfg,
            ssv_ReadTimeout = smtp_defaultTimeout, ssv_WriteTimeout = smtp_defaultTimeout,
            ssv_MaxMessageBytes = (if sp_MaxMessageBytes cfg \<le> 0 then defaultMaxMessageBytes else sp_MaxMessageBytes cfg)\<rparr>
      in case listen (sp_Addr cfg) of
           Inl e \<Rightarrow> Inl (ErrWrap (''smtp: listen on '' @ sp_Addr cfg) e)
         | Inr lsn \<Rightarrow> Inr (lsn, server))"

record imap_server =
  isv_InsecureAuth :: bool

text \<open>\<open>tls_listen\<close> wraps the listener in TLS: whatever is accepted on it has completed a handshake.\<close>

definition imap_Boot :: "(string \<Rightarrow> 'c tls_plan \<Rightarrow> gerr + 'l) \<Rightarrow> 'c imap_role \<Rightarrow> gerr + ('l \<times> imap_server)" where
  "imap_Boot tls_listen cfg =
     (let server = \<lparr>isv_InsecureAuth = True\<rparr> in
      if imr_TLS cfg = NoTLS then Inl (ErrNew ''imap: TLSConfig is required (FR-7.1: implicit TLS)'')
      else case tls_listen (imr_Addr cfg) (imr_TLS cfg) of
             Inl e \<Rightarrow> Inl (ErrWrap (''imap: listen on '' @ imr_Addr cfg) e)
           | Inr lsn \<Rightarrow> Inr (lsn, server))"

text \<open>
  The platforms the roles configure: \<open>main.go\<close> sets neither \<open>AllowInsecureAuth\<close> nor \<open>MaxMessageBytes\<close>.
\<close>

definition inbound_platform :: "'c inbound_role \<Rightarrow> 'c smtp_platform" where
  "inbound_platform i = \<lparr>sp_Mode = ModeInbound, sp_Name = roleSMTPInbound, sp_Addr = inr_Addr i, sp_Domain = inr_Domain i,
     sp_TLS = inr_TLS i, sp_AllowInsecureAuth = False, sp_MaxMessageBytes = 0\<rparr>"

definition submission_platform :: "'c submission_role \<Rightarrow> 'c smtp_platform" where
  "submission_platform i = \<lparr>sp_Mode = ModeSubmission, sp_Name = roleSMTPSubmission, sp_Addr = sur_Addr i, sp_Domain = sur_Domain i,
     sp_TLS = sur_TLS i, sp_AllowInsecureAuth = False, sp_MaxMessageBytes = 0\<rparr>"

subsection \<open>app.go and the HTTP instances\<close>

definition ShutdownTimeout :: duration where "ShutdownTimeout = 30 * 10 ^ 9"

text \<open>\<open>graceful\<close> is the outcome of draining within a time, \<open>None\<close> for a server that cannot drain; \<open>close\<close> the outcome of closing.\<close>

definition App_Shutdown :: "(duration \<Rightarrow> gerr option) option \<Rightarrow> gerr option \<Rightarrow> gerr option" where
  "App_Shutdown graceful close = (case graceful of Some drain \<Rightarrow> drain ShutdownTimeout | None \<Rightarrow> close)"

text \<open>Which case of the \<open>select\<close> an HTTP instance takes: the context is cancelled, or the server fails.\<close>

datatype http_event = CtxDone | ServeFailed gerr

definition httpHeadlessPlatform_Loop :: "(duration \<Rightarrow> gerr option) \<Rightarrow> http_event \<Rightarrow> gerr option" where
  "httpHeadlessPlatform_Loop shutdown ev = (case ev of CtxDone \<Rightarrow> shutdown (10 * 10 ^ 9) | ServeFailed e \<Rightarrow> Some e)"

subsection \<open>retention.Purger.Run\<close>

text \<open>The cases the \<open>select\<close> of the loop takes, in order; \<open>None\<close> when it is still waiting for the next.\<close>

datatype purger_event = TickerFired | PurgerCancelled

fun purger_loop :: "('s \<Rightarrow> 's) \<Rightarrow> purger_event list \<Rightarrow> 's \<Rightarrow> 's option" where
  "purger_loop sweep [] s = None"
| "purger_loop sweep (PurgerCancelled # evs) s = Some s"
| "purger_loop sweep (TickerFired # evs) s = purger_loop sweep evs (sweep s)"

definition Purger_Run :: "('s \<Rightarrow> 's) \<Rightarrow> purger_event list \<Rightarrow> 's \<Rightarrow> 's option" where
  "Purger_Run sweep evs s = purger_loop sweep evs (sweep s)"

lemma Purger_Run_sweeps: "Purger_Run sweep (replicate n TickerFired @ [PurgerCancelled]) s = Some ((sweep ^^ Suc n) s)"
proof -
  have "purger_loop sweep (replicate n TickerFired @ [PurgerCancelled]) s = Some ((sweep ^^ n) s)" for s
    by (induction n arbitrary: s) (simp_all add: funpow_swap1)
  then show ?thesis by (simp add: Purger_Run_def funpow_swap1)
qed

subsection \<open>headless.go\<close>

text \<open>
  The positions of \<open>Run\<close> and of \<open>Shutdown\<close>. \<open>Run\<close> sets \<open>cancel\<close>, then \<open>done\<close>, then runs the loop, then closes
  \<open>done\<close>; \<open>Shutdown\<close> cancels if \<open>cancel\<close> is set, then waits for \<open>done\<close> if that is set. The loop returns once its
  context is cancelled, which is what \<open>HeadlessApp\<close> asks of it; \<open>own\<close> says whether it may also stop on its own
  before that. The loops of the deliverer, the dispatcher and the purger do not.
\<close>

datatype run_pc = RunIdle | RunCancelSet | RunLooping | RunLoopDone | RunReturned
datatype shutdown_pc = ShutIdle | ShutAsked | ShutWaiting | ShutReturned
datatype done_chan = NilChan | OpenChan | ClosedChan

record headless_app =
  ha_run :: run_pc
  ha_shut :: shutdown_pc
  ha_cancel :: bool
  ha_cancelled :: bool
  ha_done :: done_chan

definition new_headless :: headless_app where
  "new_headless = \<lparr>ha_run = RunIdle, ha_shut = ShutIdle, ha_cancel = False, ha_cancelled = False, ha_done = NilChan\<rparr>"

inductive headless_step :: "bool \<Rightarrow> headless_app \<Rightarrow> headless_app \<Rightarrow> bool" for own where
  run_cancel: "ha_run s = RunIdle \<Longrightarrow> headless_step own s (s\<lparr>ha_run := RunCancelSet, ha_cancel := True\<rparr>)"
| run_done: "ha_run s = RunCancelSet \<Longrightarrow> headless_step own s (s\<lparr>ha_run := RunLooping, ha_done := OpenChan\<rparr>)"
| run_loop: "ha_run s = RunLooping \<Longrightarrow> ha_cancelled s \<or> own \<Longrightarrow> headless_step own s (s\<lparr>ha_run := RunLoopDone\<rparr>)"
| run_close: "ha_run s = RunLoopDone \<Longrightarrow> headless_step own s (s\<lparr>ha_run := RunReturned, ha_done := ClosedChan\<rparr>)"
| shut_cancel: "ha_shut s = ShutIdle \<Longrightarrow> headless_step own s (s\<lparr>ha_shut := ShutAsked, ha_cancelled := ha_cancelled s \<or> ha_cancel s\<rparr>)"
| shut_wait: "ha_shut s = ShutAsked \<Longrightarrow> headless_step own s (s\<lparr>ha_shut := (if ha_done s = NilChan then ShutReturned else ShutWaiting)\<rparr>)"
| shut_return: "ha_shut s = ShutWaiting \<Longrightarrow> ha_done s = ClosedChan \<Longrightarrow> headless_step own s (s\<lparr>ha_shut := ShutReturned\<rparr>)"

inductive_cases headless_stepE: "headless_step own s s'"


text \<open>What is left for the two goroutines to do once the loop runs.\<close>

fun headless_work :: "headless_app \<Rightarrow> nat" where
  "headless_work s =
     (case ha_run s of RunIdle \<Rightarrow> 4 | RunCancelSet \<Rightarrow> 3 | RunLooping \<Rightarrow> 2 | RunLoopDone \<Rightarrow> 1 | RunReturned \<Rightarrow> 0)
     + (case ha_shut s of ShutIdle \<Rightarrow> 3 | ShutAsked \<Rightarrow> 2 | ShutWaiting \<Rightarrow> 1 | ShutReturned \<Rightarrow> 0)"

text \<open>The states of an instance whose loop had started when it was asked to stop.\<close>

definition headless_started :: "bool \<Rightarrow> headless_app \<Rightarrow> bool" where
  "headless_started own s \<longleftrightarrow> ha_cancel s
     \<and> (ha_run s = RunReturned \<and> ha_done s = ClosedChan \<or> ha_run s \<in> {RunLooping, RunLoopDone} \<and> ha_done s = OpenChan)
     \<and> (ha_shut s \<noteq> ShutIdle \<longrightarrow> ha_cancelled s) \<and> (ha_shut s = ShutReturned \<longrightarrow> ha_run s = RunReturned)
     \<and> (own \<or> ha_run s = RunLooping \<or> ha_cancelled s)"

lemma headless_started_step:
  assumes "headless_step own s t" "headless_started own s"
  shows "headless_started own t" "headless_work s = Suc (headless_work t)"
proof -
  from assms(1) have "headless_started own t \<and> headless_work s = Suc (headless_work t)"
    by cases (use assms(2) in \<open>auto simp: headless_started_def\<close>)
  then show "headless_started own t" "headless_work s = Suc (headless_work t)" by blast+
qed

lemma headless_started_run:
  assumes "(headless_step own ^^ n) s t" "headless_started own s"
  shows "headless_started own t" "headless_work s = n + headless_work t"
  using assms by (induction n arbitrary: t) (fastforce dest: headless_started_step)+

lemma headless_started_progress:
  assumes "headless_started own s"
  shows "(\<exists>t. headless_step own s t) \<longleftrightarrow> headless_work s \<noteq> 0"
proof
  assume "headless_work s \<noteq> 0"
  then show "\<exists>t. headless_step own s t"
    by (cases "ha_run s"; cases "ha_shut s")
      (use assms in \<open>auto simp: headless_started_def intro: headless_step.intros\<close>)
qed (use assms headless_started_step(2) in fastforce)

text \<open>
  C26: A background instance that is asked to stop while its loop runs is drained, also when the loop never
  stops on its own but only once its context is cancelled. However its \<open>Run\<close> and its \<open>Shutdown\<close> interleave, a
  run has five steps at most; it can always go on until both have returned, and no sooner does it stop. A loop
  that does not stop on its own goes on until \<open>Shutdown\<close> has cancelled it. And \<open>Shutdown\<close> returns only after the
  context was cancelled and \<open>Run\<close> has returned, so that an attempt in progress is never abandoned.
\<close>

theorem headless_shutdown_drains:
  assumes "ha_run s = RunLooping" "ha_shut s = ShutIdle" "ha_cancel s" "ha_done s = OpenChan" "(headless_step own ^^ n) s t"
  shows "n \<le> 5 \<and> ((\<exists>u. headless_step own t u) \<longleftrightarrow> n < 5) \<and> (n = 5 \<longleftrightarrow> ha_run t = RunReturned \<and> ha_shut t = ShutReturned)
    \<and> (own \<or> ha_run t = RunLooping \<or> ha_cancelled t)
    \<and> (ha_shut t = ShutReturned \<longrightarrow> ha_run t = RunReturned \<and> ha_cancelled t)"
proof -
  have s: "headless_started own s" "headless_work s = 5" using assms(1-4) by (simp_all add: headless_started_def)
  note t = headless_started_run[OF assms(5) s(1)]
  have "headless_work t = 0 \<longleftrightarrow> ha_run t = RunReturned \<and> ha_shut t = ShutReturned"
    by (cases "ha_run t"; cases "ha_shut t") auto
  moreover have "(\<exists>u. headless_step own t u) \<longleftrightarrow> n < 5" unfolding headless_started_progress[OF t(1)] using t(2) s(2) by linarith
  ultimately show ?thesis using t s(2) unfolding headless_started_def by auto
qed

text \<open>\<open>Shutdown\<close> cancels at most once: after it has looked at \<open>cancel\<close>, nothing cancels the loop any more.\<close>

lemma headless_no_late_cancel:
  assumes "(headless_step own)\<^sup>*\<^sup>* s t" "ha_shut s = ShutReturned" "\<not> ha_cancelled s"
  shows "ha_shut t = ShutReturned \<and> \<not> ha_cancelled t"
  using assms by (induction rule: rtranclp_induct) (auto elim!: headless_stepE)

text \<open>
  A \<open>Shutdown\<close> that comes before \<open>Run\<close> has set its fields is lost. From a new instance there is a run in which
  \<open>Shutdown\<close> returns, without an error, while \<open>Run\<close> then starts the loop with a context that was not cancelled and
  that no further step cancels.
\<close>

theorem headless_shutdown_race:
  "\<exists>s. (headless_step own)\<^sup>*\<^sup>* new_headless s \<and> ha_shut s = ShutReturned \<and> ha_run s = RunLooping \<and> \<not> ha_cancelled s
     \<and> \<not> (\<exists>t. (headless_step own)\<^sup>*\<^sup>* s t \<and> ha_cancelled t)"
proof -
  let ?s1 = "new_headless\<lparr>ha_shut := ShutAsked\<rparr>" and ?s2 = "new_headless\<lparr>ha_shut := ShutReturned\<rparr>"
  let ?s3 = "?s2\<lparr>ha_run := RunCancelSet, ha_cancel := True\<rparr>" and ?s4 = "?s2\<lparr>ha_run := RunLooping, ha_cancel := True, ha_done := OpenChan\<rparr>"
  have "headless_step own new_headless ?s1" using shut_cancel[of new_headless] by (simp add: new_headless_def)
  moreover have "headless_step own ?s1 ?s2" using shut_wait[of ?s1] by (simp add: new_headless_def)
  moreover have "headless_step own ?s2 ?s3" using run_cancel[of ?s2] by (simp add: new_headless_def)
  moreover have "headless_step own ?s3 ?s4" using run_done[of ?s3] by (simp add: new_headless_def)
  ultimately have r: "(headless_step own)\<^sup>*\<^sup>* new_headless ?s4" by (meson converse_rtranclp_into_rtranclp rtranclp.rtrancl_refl)
  have q: "ha_shut ?s4 = ShutReturned" "ha_run ?s4 = RunLooping" "\<not> ha_cancelled ?s4" by (simp_all add: new_headless_def)
  then show ?thesis using r headless_no_late_cancel[of own ?s4] by blast
qed

theorem headless_shutdown_drains_witness:
  "\<exists>t. (headless_step False ^^ 5) (new_headless\<lparr>ha_run := RunLooping, ha_cancel := True, ha_done := OpenChan\<rparr>) t
     \<and> ha_run t = RunReturned \<and> ha_shut t = ShutReturned \<and> ha_cancelled t"
proof -
  let ?s = "new_headless\<lparr>ha_run := RunLooping, ha_cancel := True, ha_done := OpenChan\<rparr>"
  let ?s1 = "?s\<lparr>ha_shut := ShutAsked, ha_cancelled := True\<rparr>" and ?s2 = "?s\<lparr>ha_shut := ShutWaiting, ha_cancelled := True\<rparr>"
  let ?s3 = "?s2\<lparr>ha_run := RunLoopDone\<rparr>" and ?s4 = "?s2\<lparr>ha_run := RunReturned, ha_done := ClosedChan\<rparr>"
  let ?s5 = "?s4\<lparr>ha_shut := ShutReturned\<rparr>"
  have "headless_step False ?s ?s1" using shut_cancel[of ?s] by (simp add: new_headless_def)
  moreover have "headless_step False ?s1 ?s2" using shut_wait[of ?s1] by (simp add: new_headless_def)
  moreover have "headless_step False ?s2 ?s3" using run_loop[of ?s2] by (simp add: new_headless_def)
  moreover have "headless_step False ?s3 ?s4" using run_close[of ?s3] by (simp add: new_headless_def)
  moreover have "headless_step False ?s4 ?s5" using shut_return[of ?s4] by (simp add: new_headless_def)
  ultimately have "(headless_step False ^^ Suc (Suc (Suc (Suc (Suc 0))))) ?s ?s5" by (meson relpowp_Suc_I2 relpowp_0_I)
  moreover have "Suc (Suc (Suc (Suc (Suc 0)))) = 5" by simp
  ultimately have r: "(headless_step False ^^ 5) ?s ?s5" by (rule back_subst[of "\<lambda>n. (headless_step False ^^ n) ?s ?s5"])
  from headless_shutdown_drains[OF _ _ _ _ r] r show ?thesis by (auto simp: new_headless_def)
qed

subsection \<open>The mail servers protect credentials\<close>

fun tls_strong :: "'c tls_plan \<Rightarrow> bool" where
  "tls_strong NoTLS = False"
| "tls_strong (AcmeTLS dir email staging) = True"
| "tls_strong (SelfSignedTLS cfg) = (VersionTLS12 \<le> tc_MinVersion cfg)"

lemma tls_for_strong:
  assumes "tls_for lib env selected conn enc = Inr tls"
    and "gomap_bool selected roleSMTPInbound \<or> gomap_bool selected roleSMTPSubmission \<or> gomap_bool selected roleIMAP"
  shows "tls_strong tls"
  using assms by (auto simp: tls_for_def SelfSignedTLSConfig_def Let_def split: if_splits sum.splits)

lemma started_tls:
  assumes "main_start lib env csv = (evs, Inr is)"
  shows "SmtpInboundI i \<in> set is \<Longrightarrow> tls_strong (inr_TLS i)" "SmtpSubmissionI j \<in> set is \<Longrightarrow> tls_strong (sur_TLS j)"
    "ImapI k \<in> set is \<Longrightarrow> tls_strong (imr_TLS k)"
proof -
  obtain selected conn where b: "buildInstances lib env selected conn = Inr is"
    using assms by (auto simp: main_start_def Let_def split: sum.splits option.splits if_splits)
  obtain enc apis tls where p: "(if gomap_bool selected roleAPI then api_instances lib env conn enc else Inr []) = Inr apis"
    "tls_for lib env selected conn enc = Inr tls"
    "is = [metricsPlatform env] @ apis
            @ (if gomap_bool selected roleSMTPInbound then [inbound_instance lib env selected conn enc tls] else [])
            @ (if gomap_bool selected roleSMTPSubmission then [submission_instance env selected conn enc tls] else [])
            @ (if gomap_bool selected roleIMAP then [imap_instance env selected conn enc tls] else [])
            @ (if gomap_bool selected roleDeliverer then [deliverer_instance env conn enc] else [])"
    using b by (rule buildInstances_parts)
  have a: "SmtpInboundI i \<notin> set apis" "SmtpSubmissionI j \<notin> set apis" "ImapI k \<notin> set apis"
    using p(1) by (auto simp: api_instances_def Let_def split: if_splits sum.splits)
  note s = tls_for_strong[OF p(2)]
  show "SmtpInboundI i \<in> set is \<Longrightarrow> tls_strong (inr_TLS i)" "SmtpSubmissionI j \<in> set is \<Longrightarrow> tls_strong (sur_TLS j)"
    "ImapI k \<in> set is \<Longrightarrow> tls_strong (imr_TLS k)"
    using a s unfolding p(3) by (auto simp: metricsPlatform_def inbound_instance_def submission_instance_def imap_instance_def
        deliverer_instance_def Let_def split: if_splits)
qed

lemma smtp_Boot_server:
  assumes "smtp_Boot listen p = Inr (l, srv)"
  shows "listen (sp_Addr p) = Inr l" "ssv_backend srv = sp_Mode p" "ssv_TLS srv = sp_TLS p"
    "ssv_AllowInsecureAuth srv = sp_AllowInsecureAuth p" "0 < ssv_MaxMessageBytes srv"
  using assms by (auto simp: smtp_Boot_def Let_def defaultMaxMessageBytes_def split: sum.splits smtp_mode.splits)

text \<open>
  C18: The mail servers of a started process take no password in the clear. The servers booted for the SMTP roles
  have a TLS configuration (of TLS 1.2 or later when it is the self-signed one), refuse AUTH on a connection without
  TLS, and bound the size of a message; the server booted for the IMAP role, which lets a client log in at once,
  listens behind TLS: booting it fails only when that listener cannot be bound. The HTTP servers of the api role
  (management API, internal API and metrics) are not meant here: they listen without TLS.
\<close>

theorem mail_servers_protect_credentials:
  assumes "main_start lib env csv = (evs, Inr is)"
  shows "(\<forall>p \<in> inbound_platform ` {i. SmtpInboundI i \<in> set is} \<union> submission_platform ` {i. SmtpSubmissionI i \<in> set is}.
        case smtp_Boot listen p of
          Inl e \<Rightarrow> \<exists>e'. listen (sp_Addr p) = Inl e'
        | Inr (l, srv) \<Rightarrow> listen (sp_Addr p) = Inr l \<and> ssv_backend srv = sp_Mode p \<and> tls_strong (ssv_TLS srv)
            \<and> \<not> ssv_AllowInsecureAuth srv \<and> 0 < ssv_MaxMessageBytes srv)
    \<and> (\<forall>i. ImapI i \<in> set is \<longrightarrow> tls_strong (imr_TLS i)
        \<and> imap_Boot tls_listen i = map_sum (ErrWrap (''imap: listen on '' @ imr_Addr i))
            (\<lambda>lsn. (lsn, \<lparr>isv_InsecureAuth = True\<rparr>)) (tls_listen (imr_Addr i) (imr_TLS i)))"
proof (intro conjI ballI allI impI)
  fix p assume p: "p \<in> inbound_platform ` {i. SmtpInboundI i \<in> set is} \<union> submission_platform ` {i. SmtpSubmissionI i \<in> set is}"
  have t: "tls_strong (sp_TLS p)" "\<not> sp_AllowInsecureAuth p"
    using p started_tls(1,2)[OF assms] by (auto simp: inbound_platform_def submission_platform_def)
  show "case smtp_Boot listen p of Inl e \<Rightarrow> \<exists>e'. listen (sp_Addr p) = Inl e'
        | Inr (l, srv) \<Rightarrow> listen (sp_Addr p) = Inr l \<and> ssv_backend srv = sp_Mode p \<and> tls_strong (ssv_TLS srv)
            \<and> \<not> ssv_AllowInsecureAuth srv \<and> 0 < ssv_MaxMessageBytes srv"
  proof (cases "smtp_Boot listen p")
    case (Inl e)
    then show ?thesis by (auto simp: smtp_Boot_def Let_def split: sum.splits)
  next
    case (Inr r)
    then show ?thesis using smtp_Boot_server[of listen p "fst r" "snd r"] t by (auto split: prod.splits)
  qed
next
  fix i assume i: "ImapI i \<in> set is"
  show t: "tls_strong (imr_TLS i)" using started_tls(3)[OF assms i] .
  then have "imr_TLS i \<noteq> NoTLS" by auto
  then show "imap_Boot tls_listen i = map_sum (ErrWrap (''imap: listen on '' @ imr_Addr i))
      (\<lambda>lsn. (lsn, \<lparr>isv_InsecureAuth = True\<rparr>)) (tls_listen (imr_Addr i) (imr_TLS i))"
    by (simp add: imap_Boot_def split: sum.splits)
qed

lemma demo_mail_parse: "parseRoles ''imap,smtp-inbound'' = Inr [(roleIMAP, True), (roleSMTPInbound, True)]"
  unfolding parseRoles_spec by (simp add: role_words_def trim_space_def is_space_def allRoles_def main_roles)

lemma demo_mail_start:
  "\<exists>evs i j. main_start boot_demo demo_os ''imap,smtp-inbound'' = (evs, Inr [metricsPlatform demo_os, SmtpInboundI j, ImapI i])"
proof -
  let ?sel = "[(roleIMAP, True), (roleSMTPInbound, True)]"
  have "gomap_bool ?sel r \<longleftrightarrow> r = roleIMAP \<or> r = roleSMTPInbound" for r by (simp add: gomap_bool_def)
  then have g: "gomap_bool ?sel roleIMAP" "gomap_bool ?sel roleSMTPInbound" "\<not> gomap_bool ?sel roleAPI"
    "\<not> gomap_bool ?sel roleSMTPSubmission" "\<not> gomap_bool ?sel roleDeliverer" by (simp_all add: main_roles)
  have d: "needsDirectDB demo_os ?sel"
    by (simp add: needsDirectDB_def internalAPIActivated_def dbRoleForProcess_def main_roles)
  have t: "\<exists>tls. tls_for boot_demo demo_os ?sel conn enc = Inr tls" for conn enc
    by (simp add: tls_for_def demo_vars SelfSignedTLSConfig_def boot_demo_def)
  have l: "bl_gorm_Open boot_demo dsn = Inr (length dsn)" "bl_migrations boot_demo m = None" for dsn m by (simp_all add: boot_demo_def)
  have "\<exists>i j. buildInstances boot_demo demo_os ?sel (Some c) = Inr [metricsPlatform demo_os, SmtpInboundI j, ImapI i]" for c
    using t[of "Some c" "Some (tag_aead (CHR ''a''))"]
    by (auto simp: buildInstances_def demo_master_key g inbound_instance_def imap_instance_def Let_def)
  then show ?thesis using d l by (simp add: main_start_def demo_mail_parse db_Open_def Let_def)
qed

theorem mail_servers_protect_credentials_witness:
  "\<exists>evs i j srv. main_start boot_demo demo_os ''imap,smtp-inbound'' = (evs, Inr [metricsPlatform demo_os, SmtpInboundI j, ImapI i])
     \<and> smtp_Boot Inr (inbound_platform j) = Inr (inr_Addr j, srv) \<and> \<not> ssv_AllowInsecureAuth srv \<and> tls_strong (ssv_TLS srv)
     \<and> imap_Boot (\<lambda>a t. Inr (a, t)) i = Inr ((imr_Addr i, imr_TLS i), \<lparr>isv_InsecureAuth = True\<rparr>)"
proof -
  obtain evs i j where s: "main_start boot_demo demo_os ''imap,smtp-inbound'' = (evs, Inr [metricsPlatform demo_os, SmtpInboundI j, ImapI i])"
    using demo_mail_start by blast
  note b = mail_servers_protect_credentials[OF s, where listen = Inr and tls_listen = "\<lambda>a t. Inr (a, t)"]
  have "\<exists>srv. smtp_Boot Inr (inbound_platform j) = Inr (inr_Addr j, srv)" by (simp add: smtp_Boot_def inbound_platform_def Let_def)
  then obtain srv where srv: "smtp_Boot Inr (inbound_platform j) = Inr (inr_Addr j, srv)" by blast
  have "inbound_platform j \<in> inbound_platform ` {x. SmtpInboundI x \<in> set [metricsPlatform demo_os, SmtpInboundI j, ImapI i]}" by simp
  from bspec[OF conjunct1[OF b] UnI1[OF this]] have "\<not> ssv_AllowInsecureAuth srv \<and> tls_strong (ssv_TLS srv)" by (simp add: srv)
  moreover have "imap_Boot (\<lambda>a t. Inr (a, t)) i = Inr ((imr_Addr i, imr_TLS i), \<lparr>isv_InsecureAuth = True\<rparr>)" using b by simp
  ultimately show ?thesis using s srv by blast
qed

end
