(* ===== verification/Logging.thy ===== *)
theory Logging
  imports Deliverer Smtp_Submission Postgres_Queue Webhook
begin

section \<open>Correlated logs: internal/logging\<close>

text \<open>
  The correlation ID of a context, the handler that adds it to every record, and the ID's way through the program:
  from a submission, over the rows of the outbound queue and its retries, into the log of the deliverer and the webhook
  jobs that the outcome fires. A level name is taken to be ASCII text.
\<close>

subsection \<open>Contexts\<close>

text \<open>The values of a \<open>context.Context\<close>, innermost first; the key of the package is a type of its own.\<close>

datatype ctx_key = CorrelationIDKey | OtherKey string

type_synonym go_context = "(ctx_key \<times> string) list"

definition NewCorrelationID :: "(nat \<Rightarrow> string) \<Rightarrow> nat \<Rightarrow> string \<times> nat" where
  "NewCorrelationID NewString n = (NewString n, Suc n)"

definition WithCorrelationID :: "go_context \<Rightarrow> string \<Rightarrow> go_context" where
  "WithCorrelationID ctx i = (if i = [] then ctx else (CorrelationIDKey, i) # ctx)"

definition CorrelationID :: "go_context \<Rightarrow> string" where
  "CorrelationID ctx = (case map_of ctx CorrelationIDKey of Some i \<Rightarrow> i | None \<Rightarrow> [])"

subsection \<open>The handler\<close>

type_synonym level = int

definition LevelDebug :: level where "LevelDebug = - 4"
definition LevelInfo :: level where "LevelInfo = 0"
definition LevelWarn :: level where "LevelWarn = 4"
definition LevelError :: level where "LevelError = 8"

definition LevelFromEnv :: "string \<Rightarrow> level" where
  "LevelFromEnv v =
     (let w = to_lower (trim_space v) in
      if w = ''debug'' then LevelDebug else if w = ''warn'' \<or> w = ''warning'' then LevelWarn
      else if w = ''error'' then LevelError else LevelInfo)"

text \<open>
  A record, and slog's JSON handler: its level, the attributes bound by \<open>WithAttrs\<close> with the groups that were open
  then, and the groups open now. A line of output is the message with its attributes, each under its groups.
\<close>

record slog_record =
  sr_Level :: level
  sr_Message :: string
  sr_Attrs :: "(string \<times> string) list"

record json_handler =
  jh_Level :: level
  jh_Bound :: "(string list \<times> string \<times> string) list"
  jh_Groups :: "string list"

record log_line =
  ll_Level :: level
  ll_Message :: string
  ll_Attrs :: "(string list \<times> string \<times> string) list"

definition json_line :: "json_handler \<Rightarrow> slog_record \<Rightarrow> log_line" where
  "json_line h r = \<lparr>ll_Level = sr_Level r, ll_Message = sr_Message r,
     ll_Attrs = jh_Bound h @ map (\<lambda>(k, v). (jh_Groups h, k, v)) (sr_Attrs r)\<rparr>"

definition AddAttrs :: "slog_record \<Rightarrow> (string \<times> string) list \<Rightarrow> slog_record" where
  "AddAttrs r attrs = r\<lparr>sr_Attrs := sr_Attrs r @ attrs\<rparr>"

datatype context_handler = ContextHandler json_handler

fun contextHandler_Handle :: "context_handler \<Rightarrow> go_context \<Rightarrow> slog_record \<Rightarrow> log_line" where
  "contextHandler_Handle (ContextHandler h) ctx r =
     json_line h (if CorrelationID ctx \<noteq> [] then AddAttrs r [(''correlation_id'', CorrelationID ctx)] else r)"

fun contextHandler_WithAttrs :: "(string \<times> string) list \<Rightarrow> context_handler \<Rightarrow> context_handler" where
  "contextHandler_WithAttrs attrs (ContextHandler h) =
     ContextHandler (h\<lparr>jh_Bound := jh_Bound h @ map (\<lambda>(k, v). (jh_Groups h, k, v)) attrs\<rparr>)"

fun contextHandler_WithGroup :: "string \<Rightarrow> context_handler \<Rightarrow> context_handler" where
  "contextHandler_WithGroup name (ContextHandler h) =
     ContextHandler (if name = [] then h else h\<lparr>jh_Groups := jh_Groups h @ [name]\<rparr>)"

definition NewJSONLogger :: "level \<Rightarrow> context_handler" where
  "NewJSONLogger lev = ContextHandler \<lparr>jh_Level = lev, jh_Bound = [], jh_Groups = []\<rparr>"

text \<open>\<open>slog.InfoContext\<close> and \<open>slog.WarnContext\<close>: what a call writes; \<open>Enabled\<close> is that of the embedded handler.\<close>

fun log_call :: "context_handler \<Rightarrow> go_context \<Rightarrow> slog_record \<Rightarrow> log_line list" where
  "log_call (ContextHandler h) ctx r =
     (if jh_Level h \<le> sr_Level r then [contextHandler_Handle (ContextHandler h) ctx r] else [])"

subsection \<open>What the deliverer logs\<close>

text \<open>
  The record of one attempt, by its outcome; \<open>took\<close> and \<open>show_time\<close> print the duration and the time of the next attempt.
  \<open>None\<close> is the panic of the backoff.
\<close>

definition handle_record :: "string \<Rightarrow> (time \<Rightarrow> string) \<Rightarrow> deliver_config \<Rightarrow> 'h deliver_env \<Rightarrow> job \<Rightarrow> gerr option \<Rightarrow> slog_record option" where
  "handle_record took show_time cfg env job outcome =
     (let attempt = itoa (job_Attempts job + 1); who = [(''vhost'', job_Vhost job), (''to'', job_To job)] in
      case outcome of
        None \<Rightarrow> Some \<lparr>sr_Level = LevelInfo, sr_Message = ''message delivered'',
                  sr_Attrs = who @ [(''attempt'', attempt), (''duration'', took)]\<rparr>
      | Some err \<Rightarrow>
          let cause = err_text (de_lib env) err in
          if isPermanent (de_lib env) err
          then Some \<lparr>sr_Level = LevelWarn, sr_Message = ''message bounced: permanent failure'',
                 sr_Attrs = who @ [(''attempt'', attempt), (''error'', cause)]\<rparr>
          else if job_Attempts job + 1 \<ge> dc_MaxAttempts cfg
          then Some \<lparr>sr_Level = LevelWarn, sr_Message = ''message bounced: attempts exhausted'',
                 sr_Attrs = who @ [(''attempts'', attempt), (''error'', cause)]\<rparr>
          else case Deliverer_nextBackoff cfg (de_rand env) (job_Attempts job) of
                 None \<Rightarrow> None
               | Some delay \<Rightarrow> Some \<lparr>sr_Level = LevelInfo, sr_Message = ''message delivery deferred'',
                   sr_Attrs = who @ [(''attempt'', attempt), (''error'', cause), (''next_attempt_at'', show_time (de_now env + delay))]\<rparr>)"

definition handle_context :: "go_context \<Rightarrow> job \<Rightarrow> go_context" where
  "handle_context ctx job = WithCorrelationID ctx (job_CorrelationID job)"

text \<open>The dispatcher as the deliverer's enqueuer: \<open>Enqueue\<close> reads the correlation ID from the context it is given.\<close>

definition dispatcher_hook :: "'w webhook_store \<Rightarrow> 'w \<Rightarrow> (nat \<Rightarrow> string) \<Rightarrow> time \<Rightarrow> nat \<Rightarrow> go_context
    \<Rightarrow> gerr option \<Rightarrow> string \<Rightarrow> string \<Rightarrow> bytes \<Rightarrow> memory_event_queue \<times> nat \<Rightarrow> gerr option \<times> memory_event_queue \<times> nat" where
  "dispatcher_hook store wst uuid now seed ctx err vhost eventType payload qn =
     Dispatcher_Enqueue store MemoryEventQueue_ops uuid err (CorrelationID ctx) now seed vhost eventType payload wst qn"

subsection \<open>The ID is not lost\<close>

lemma CorrelationID_With [simp]:
  "CorrelationID (WithCorrelationID ctx i) = (if i = [] then CorrelationID ctx else i)"
  by (simp add: CorrelationID_def WithCorrelationID_def)

lemma log_call_correlated:
  assumes "l \<in> set (log_call (ContextHandler h) (WithCorrelationID ctx i) r)" "i \<noteq> []"
  shows "(jh_Groups h, ''correlation_id'', i) \<in> set (ll_Attrs l)"
  using assms by (auto simp: json_line_def AddAttrs_def split: if_splits)

text \<open>Every job stored under \<open>k\<close> carries the ID \<open>c\<close>.\<close>

definition correlated :: "('j \<Rightarrow> string) \<Rightarrow> string \<Rightarrow> string \<Rightarrow> 'j memory_queue \<Rightarrow> bool" where
  "correlated cid k c q \<longleftrightarrow> (\<forall>j. mq_pending q k = Some j \<longrightarrow> cid j = c)"

lemma correlated_Enqueue:
  assumes "correlated cid k c q" "jid j = k \<longrightarrow> cid j = c"
  shows "correlated cid k c (snd (mem_Enqueue jid w ctx j q))"
  using assms by (auto simp: correlated_def mem_Enqueue_def mq_view map_of_update split: if_splits)

lemma correlated_frame:
  assumes "correlated cid k c q" "mq_pending q' k = mq_pending q k \<or> mq_pending q' k = None"
  shows "correlated cid k c q'"
  using assms by (auto simp: correlated_def)

lemma correlated_call:
  assumes "mq_inv job_ID q" "correlated job_CorrelationID k c q" "\<forall>j. x = CallEnqueue j \<longrightarrow> job_ID j \<noteq> k"
    and "call_queue MemoryBackend_ops ctx seed x q = (r, q')"
  shows "mq_inv job_ID q' \<and> correlated job_CorrelationID k c q'
    \<and> (\<forall>j. r = ResJob (Inr (Some j)) \<longrightarrow> job_ID j = k \<longrightarrow> job_CorrelationID j = c)"
proof (cases x)
  case (CallEnqueue j)
  then have q': "q' = snd (mem_Enqueue job_ID ''queue: job ID is required'' ctx j q)" "\<exists>e. r = ResErr e"
    using assms(4) by (auto simp: MemoryBackend_ops_def MemoryBackend_Enqueue_def split: prod.splits)
  have "correlated job_CorrelationID k c q'"
    using assms(3) CallEnqueue unfolding q'(1) by (intro correlated_Enqueue[OF assms(2)]) simp
  then show ?thesis using q'(2) mq_inv_Enqueue[OF assms(1)] unfolding q'(1) by auto
next
  case (CallDequeue now)
  show ?thesis
  proof (cases ctx)
    case None
    obtain res where d: "mem_Dequeue job_ID job_NextAttemptAt None now seed q = (res, q')" "r = ResJob res"
      using assms(4) CallDequeue None by (auto simp: MemoryBackend_ops_def MemoryBackend_Dequeue_def split: prod.splits)
    consider "res = Inr None" "q' = q" | j where "res = Inr (Some j)" "mq_inv job_ID q'" "mq_jobs q' = mq_jobs q" "mq_pending q (job_ID j) = Some j"
      using mb.mem_Dequeue_spec[OF assms(1), of now seed] unfolding d(1) by (cases res; cases "projr res") auto
    then show ?thesis using assms(1,2) d(2) by cases (auto simp: correlated_def mq_view)
  next
    case (Some e)
    then show ?thesis using assms CallDequeue
      by (auto simp: MemoryBackend_ops_def MemoryBackend_Dequeue_def mem_Dequeue_def)
  qed
next
  case (CallComplete i)
  then show ?thesis using assms(4) mq_inv_Complete[OF assms(1)] correlated_frame[OF assms(2), of q']
    by (force simp: MemoryBackend_ops_def MemoryBackend_Complete_def mem_Complete_def mq_view delete_conv' split: prod.splits if_splits)
next
  case (CallFail i cause nxt)
  have q': "q' = snd (mem_Fail job_retry ''queue: job'' ctx i cause nxt q)" "\<exists>e. r = ResErr e"
    using assms(4) CallFail by (auto simp: MemoryBackend_ops_def MemoryBackend_Fail_def split: prod.splits)
  have retry: "job_ID (job_retry j ca t) = job_ID j" "job_CorrelationID (job_retry j ca t) = job_CorrelationID j" for j ca t
    by (cases ca; simp add: job_retry_def)+
  have "mq_pending q' k = mq_pending q k \<or> (\<exists>j. mq_pending q k = Some j \<and> mq_pending q' k = Some (job_retry j cause nxt))"
    unfolding q'(1) by (auto simp: mem_Fail_def mq_view update_conv' split: option.split)
  then have "correlated job_CorrelationID k c q'" using assms(2) retry(2) unfolding correlated_def by force
  then show ?thesis using q'(2) mq_inv_Fail[OF assms(1), of job_retry] retry(1) unfolding q'(1) by auto
qed

lemma correlated_run:
  assumes "mq_inv job_ID q" "correlated job_CorrelationID k c q" "\<forall>(ctx, seed, x) \<in> set xs. \<forall>j. x = CallEnqueue j \<longrightarrow> job_ID j \<noteq> k"
    and "queue_run MemoryBackend_ops xs q = (rs, q')" "ResJob (Inr (Some j)) \<in> set rs" "job_ID j = k"
  shows "job_CorrelationID j = c"
  using assms
proof (induction xs arbitrary: q rs)
  case (Cons y xs)
  obtain ctx seed x r q1 rs' where y: "y = (ctx, seed, x)" and c: "call_queue MemoryBackend_ops ctx seed x q = (r, q1)"
    "queue_run MemoryBackend_ops xs q1 = (rs', q')" "rs = r # rs'"
    using Cons.prems(4) by (cases y) (auto split: prod.splits)
  have "\<forall>j. x = CallEnqueue j \<longrightarrow> job_ID j \<noteq> k" using Cons.prems(3) y by auto
  note s = correlated_call[OF Cons.prems(1,2) this c(1)]
  show ?case
  proof (cases "r = ResJob (Inr (Some j))")
    case False
    then have "ResJob (Inr (Some j)) \<in> set rs'" using Cons.prems(5) c(3) by simp
    moreover have "\<forall>(ctx, seed, x) \<in> set xs. \<forall>j. x = CallEnqueue j \<longrightarrow> job_ID j \<noteq> k" using Cons.prems(3) by simp
    ultimately show ?thesis using Cons.IH s c(2) assms(6) by blast
  qed (use s assms(6) in blast)
qed simp

lemma submit_loop_correlated:
  assumes "submit_loop store MemoryBackend_ops s signed rows (x, q) = (None, x', q')" "mq_inv job_ID q"
    and "correlated job_CorrelationID k (ss_correlationID s) q \<or> k \<in> (fst \<circ> snd) ` set rows"
  shows "mq_inv job_ID q' \<and> correlated job_CorrelationID k (ss_correlationID s) q'"
  using assms
proof (induction rows arbitrary: x q)
  case (Cons row rows)
  obtain rcpt newID now where r: "row = (rcpt, newID, now)" by (cases row)
  obtain ref x1 q1 where c: "q_Enqueue MemoryBackend_ops None (submitted_job s rcpt ref newID now) q = (None, q1)"
    "submit_loop store MemoryBackend_ops s signed rows (x1, q1) = (None, x', q')"
    using Cons.prems(1) r by (auto split: prod.splits sum.splits option.splits)
  let ?j = "submitted_job s rcpt ref newID now"
  have q1: "q1 = snd (mem_Enqueue job_ID ''queue: job ID is required'' None ?j q)" "mq_pending q1 = (mq_pending q)(newID \<mapsto> ?j)"
    using c(1) by (auto simp: MemoryBackend_ops_def MemoryBackend_Enqueue_def mem_Enqueue_def mq_view update_conv' submitted_job_def
        split: if_splits)
  have "correlated job_CorrelationID k (ss_correlationID s) q1 \<or> k \<in> (fst \<circ> snd) ` set rows"
    using Cons.prems(3) q1(2) r by (auto simp: correlated_def submitted_job_def)
  then show ?case using Cons.IH[OF c(2)] mq_inv_Enqueue[OF Cons.prems(2)] q1(1) by simp
qed auto

lemma submission_correlated:
  assumes "se_Queue env = MemoryBackend_ops" "submission_Data env d now draws r s st = (None, st')"
    and "mq_inv job_ID (sst_queue st)" "i < length (ss_rcpts s)"
  shows "mq_inv job_ID (sst_queue st') \<and> correlated job_CorrelationID (fst (draws i)) (ss_correlationID s) (sst_queue st')"
proof -
  let ?rows = "zip (ss_rcpts s) (map draws [0..<length (ss_rcpts s)])"
  obtain signed where l: "submit_loop (se_Store env) MemoryBackend_ops s signed ?rows (sst_store st, sst_queue st) = (None, sst_store st', sst_queue st')"
    using submission_Data_cases[OF assms(2)] assms(1) by auto
  have "(ss_rcpts s ! i, draws i) \<in> set ?rows" using assms(4) by (auto simp: set_zip)
  then have "fst (draws i) \<in> (fst \<circ> snd) ` set ?rows" by force
  then show ?thesis using submit_loop_correlated[OF l assms(3)] by blast
qed

lemma enqueue_subs_correlated:
  assumes "\<And>u sub. dj_CorrelationID (mk u sub) = c" "enqueue_subs MemoryEventQueue_ops uuid ctx mk eventType subs (q, n) = (e, q', n')"
    and "mq_pending q' k = Some j"
  shows "mq_pending q k = Some j \<or> dj_CorrelationID j = c"
  using assms(2,3)
proof (induction subs arbitrary: q n)
  case (Cons sub subs)
  obtain e1 q1 where c: "q_Enqueue MemoryEventQueue_ops ctx (mk (uuid n) sub) q = (e1, q1)" by fastforce
  have "mq_pending q1 k = mq_pending q k \<or> mq_pending q1 k = Some (mk (uuid n) sub)"
    using c by (auto simp: MemoryEventQueue_ops_def MemoryEventQueue_Enqueue_def mem_Enqueue_def mq_view update_conv' split: if_splits)
  then have q1: "mq_pending q1 k = Some j \<Longrightarrow> mq_pending q k = Some j \<or> dj_CorrelationID j = c" using assms(1) by auto
  show ?case
  proof (cases "sub_Disabled sub \<or> \<not> matchesEventType sub eventType")
    case True
    then have "enqueue_subs MemoryEventQueue_ops uuid ctx mk eventType subs (q, n) = (e, q', n')" using Cons.prems(1) by (auto simp: enqueue_subs.simps(2) split: if_splits)
    from Cons.IH[OF this Cons.prems(2)] show ?thesis .
  next
    case False
    show ?thesis
    proof (cases e1)
      case None
      then have "enqueue_subs MemoryEventQueue_ops uuid ctx mk eventType subs (q1, Suc n) = (e, q', n')" using Cons.prems(1) False c by (simp add: enqueue_subs.simps(2))
      from Cons.IH[OF this Cons.prems(2)] show ?thesis using q1 by blast
    next
      case (Some e2)
      then have "q1 = q'" using Cons.prems(1) False c by (simp add: enqueue_subs.simps(2))
      then show ?thesis using q1 Cons.prems(2) by blast
    qed
  qed
qed simp

lemma Dispatcher_Enqueue_correlated:
  assumes "mq_pending (fst (snd (Dispatcher_Enqueue store MemoryEventQueue_ops uuid ctx c now seed vhost eventType payload st qn))) k = Some j"
  shows "mq_pending (fst qn) k = Some j \<or> dj_CorrelationID j = c"
proof (cases "w_ListSubscriptions store ctx seed vhost st")
  case (Inl e)
  then show ?thesis using assms by (simp add: Dispatcher_Enqueue_def split: prod.splits)
next
  case (Inr subs)
  let ?mk = "\<lambda>newID sub. event_job newID sub vhost (uuid (snd qn)) eventType payload now c"
  obtain e q' n' where r: "enqueue_subs MemoryEventQueue_ops uuid ctx ?mk eventType subs (fst qn, Suc (snd qn)) = (e, q', n')"
    by (metis prod.exhaust_sel)
  then have "mq_pending q' k = Some j" using assms Inr by (simp add: Dispatcher_Enqueue_def split: prod.splits)
  then show ?thesis using enqueue_subs_correlated[OF _ r] by (simp add: event_job_def)
qed

lemma handle_hooks:
  assumes "handle ops dirops dir store cfg env j d = Some d'" "de_webhooks env = Some enq"
  obtains "ds_hooks d' = ds_hooks d"
  | eventType payload where "ds_hooks d' = snd (enq (de_ctx env) (job_Vhost j) eventType payload (ds_hooks d))"
proof -
  obtain eventType data where "ds_hooks d' = Deliverer_fire env j eventType data (ds_hooks d)"
    using assms(1) by (auto simp: handle_def Let_def fireDelivered_def fireBounced_def fireDeferred_def split: option.splits if_splits)
  then show thesis using that assms(2) by (auto simp: Deliverer_fire_def split: sum.splits)
qed

text \<open>
  C29: One correlation ID follows a message across the processes. Let a submission with a correlation ID be
  acknowledged into the outbound queue, and let the queue then serve any sequence of calls that enqueues no other job
  under the same ID, retries included. When a worker is handed the job of one of the recipients, the job carries the ID of the
  submission; every line the deliverer logs about the attempt has it as its \<open>correlation_id\<close>, whatever handler was derived
  from the logger; and every webhook job that the outcome adds to the event queue carries it too.
\<close>

theorem submission_traceable:
  assumes "se_Queue env = MemoryBackend_ops" "submission_Data env d now draws r s st = (None, st')"
    and "mq_inv job_ID (sst_queue st)" "i < length (ss_rcpts s)" "ss_correlationID s \<noteq> []"
    and "queue_run MemoryBackend_ops xs (sst_queue st') = (rs, q)"
    and "\<forall>(ctx, seed, x) \<in> set xs. \<forall>j. x = CallEnqueue j \<longrightarrow> job_ID j \<noteq> fst (draws i)"
    and "ResJob (Inr (Some j)) \<in> set rs" "job_ID j = fst (draws i)"
    and "de_webhooks denv = Some (dispatcher_hook store wst uuid tm seed (handle_context ctx j))"
    and "handle ops dirops dir bodies cfg denv j ds = Some ds'"
    and "handle_record took show_time cfg denv j (fst (Deliverer_attempt bodies cfg denv j (ds_store ds))) = Some rec"
  shows "job_CorrelationID j = ss_correlationID s
    \<and> log_call (ContextHandler h) (handle_context ctx j) rec =
        (if jh_Level h \<le> sr_Level rec
         then [json_line h (rec\<lparr>sr_Attrs := sr_Attrs rec @ [(''correlation_id'', ss_correlationID s)]\<rparr>)] else [])
    \<and> (\<forall>k e. mq_pending (fst (ds_hooks ds')) k = Some e \<longrightarrow>
         mq_pending (fst (ds_hooks ds)) k = Some e \<or> dj_CorrelationID e = ss_correlationID s)"
proof -
  have c: "job_CorrelationID j = ss_correlationID s"
    using submission_correlated[OF assms(1-4)] correlated_run[OF _ _ assms(7,6,8,9)] by blast
  have "mq_pending (fst (ds_hooks ds)) k = Some e \<or> dj_CorrelationID e = ss_correlationID s"
    if k: "mq_pending (fst (ds_hooks ds')) k = Some e" for k e
    using assms(11,10)
  proof (cases rule: handle_hooks)
    case 1
    then show ?thesis using k by simp
  next
    case (2 eventType payload)
    then show ?thesis using Dispatcher_Enqueue_correlated[of store uuid "de_ctx denv" _ tm seed "job_Vhost j" eventType payload wst "ds_hooks ds" k e] k
      by (auto simp: dispatcher_hook_def handle_context_def c assms(5))
  qed
  then show ?thesis using c assms(5) by (auto simp: handle_context_def AddAttrs_def)
qed

text \<open>A submission of one recipient, and a deliverer whose resolver knows no host for it: the message bounces.\<close>

definition demo_trace_submission :: "(unit, memory_directory, (message_ref \<times> bytes) list, memory_backend, nat) submission_env" where
  "demo_trace_submission = \<lparr>se_Directory = memory_directory_ops, se_Store = demo_store_ops, se_Queue = MemoryBackend_ops,
     se_Quota = None, se_Webhooks = None, se_payload = (\<lambda>d x. Inr []), se_sign = (\<lambda>d sel key b. Inr (''sig'' @ b))\<rparr>"

definition demo_trace_state :: "(unit, (message_ref \<times> bytes) list, memory_backend, nat) submission_state" where
  "demo_trace_state = \<lparr>sst_quota = (), sst_store = [], sst_queue = NewMemoryBackend, sst_hooks = 0\<rparr>"

definition demo_trace_env :: "go_context \<Rightarrow> (memory_event_queue \<times> nat) deliver_env" where
  "demo_trace_env ctx = \<lparr>de_ctx = None, de_lib = demo_lib, de_resolver = (\<lambda>d. Inr []),
     de_seed = 0, de_net = demo_net, de_rand = (\<lambda>n. 0), de_now = 100, de_uuid_boundary = ''b'',
     de_uuid_msgid = ''m'', de_uuid_event = ''e'', de_date = ''d'', de_marshal_data = (\<lambda>_. Inr []),
     de_marshal_env = (\<lambda>_. Inr []), de_webhooks = Some (dispatcher_hook MemoryStore_ops demo_store demo_uuid 100 0 ctx)\<rparr>"

lemma demo_trace_queued:
  "\<exists>st'. submission_Data demo_trace_submission demo_sub_dir 5 (\<lambda>i. (''j'', 5)) (Inr ''hi'') demo_sub_session demo_trace_state = (None, st')
     \<and> (\<exists>q. queue_run MemoryBackend_ops [(None, 0, CallDequeue 9)] (sst_queue st')
          = ([ResJob (Inr (Some (submitted_job demo_sub_session ''v@b.test'' \<lparr>ref_Vhost = ''d.test'', ref_Mailbox = OutboxMailbox, ref_Key = ''k''\<rparr> ''j'' 5)))], q))"
proof -
  have "dir_Vhost memory_directory_ops ''d.test'' demo_sub_dir = Some (demo_vhost\<lparr>vh_DKIMKey := Some ''pem''\<rparr>)"
    by (simp add: memory_directory_ops_def memory_Vhost_def demo_sub_dir_def)
  then show ?thesis
    by (simp add: submission_Data_def demo_trace_submission_def checkQuota_def demo_sub_session_def demo_trace_state_def demo_store_ops_def
        MemoryBackend_ops_def MemoryBackend_Enqueue_def mem_Enqueue_def submitted_job_def NewMemoryBackend_def mem_new_def
        MemoryBackend_Dequeue_def mem_Dequeue_def gomap_bool_def Let_def)
qed

theorem submission_traceable_witness:
  "\<exists>st' q j ds' rec. submission_Data demo_trace_submission demo_sub_dir 5 (\<lambda>i. (''j'', 5)) (Inr ''hi'') demo_sub_session demo_trace_state = (None, st')
     \<and> queue_run MemoryBackend_ops [(None, 0, CallDequeue 9)] (sst_queue st') = ([ResJob (Inr (Some j))], q)
     \<and> handle MemoryBackend_ops memory_directory_ops demo_sub_dir demo_store_ops demo_cfg (demo_trace_env (handle_context [] j)) j
         \<lparr>ds_queue = q, ds_store = [], ds_hooks = (NewMemoryEventQueue, 0), ds_bounces = 0\<rparr> = Some ds'
     \<and> sr_Message rec = ''message bounced: permanent failure''
     \<and> log_call (NewJSONLogger LevelInfo) (handle_context [] j) rec
         = [json_line \<lparr>jh_Level = LevelInfo, jh_Bound = [], jh_Groups = []\<rparr> (rec\<lparr>sr_Attrs := sr_Attrs rec @ [(''correlation_id'', ''i'')]\<rparr>)]"
proof -
  let ?j = "submitted_job demo_sub_session ''v@b.test'' \<lparr>ref_Vhost = ''d.test'', ref_Mailbox = OutboxMailbox, ref_Key = ''k''\<rparr> ''j'' 5"
  let ?env = "demo_trace_env (handle_context [] ?j)"
  obtain st' q where d: "submission_Data demo_trace_submission demo_sub_dir 5 (\<lambda>i. (''j'', 5)) (Inr ''hi'') demo_sub_session demo_trace_state = (None, st')"
    and r: "queue_run MemoryBackend_ops [(None, 0, CallDequeue 9)] (sst_queue st') = ([ResJob (Inr (Some ?j))], q)"
    using demo_trace_queued by blast
  let ?ds = "\<lparr>ds_queue = q, ds_store = [], ds_hooks = (NewMemoryEventQueue, 0), ds_bounces = 0\<rparr> :: (memory_backend, (message_ref \<times> bytes) list, memory_event_queue \<times> nat) deliver_state"
  have e: "fst (Deliverer_attempt demo_store_ops demo_cfg ?env ?j (ds_store ?ds)) = Some (permanentErr (ErrNew (''deliverer: no MX records for '' @ go_quote (destinationDomain (job_To ?j)))))"
    by (simp add: Deliverer_attempt_def lookupMX_def demo_trace_env_def submitted_job_def destinationDomain_def ParseAddress_def)
  have p: "isPermanent (de_lib ?env) (permanentErr x)" for x by (simp add: isPermanent_def permanentErr_def)
  obtain ds' where h: "handle MemoryBackend_ops memory_directory_ops demo_sub_dir demo_store_ops demo_cfg ?env ?j ?ds = Some ds'"
    by (simp add: handle_def e p del: deliver_state.simps)
  obtain rec where rec: "handle_record [] (\<lambda>t. []) demo_cfg ?env ?j (fst (Deliverer_attempt demo_store_ops demo_cfg ?env ?j (ds_store ?ds))) = Some rec"
    "sr_Message rec = ''message bounced: permanent failure''" "sr_Level rec = LevelWarn"
    unfolding e by (simp add: handle_record_def p)
  have w: "de_webhooks ?env = Some (dispatcher_hook MemoryStore_ops demo_store demo_uuid 100 0 (handle_context [] ?j))"
    by (simp add: demo_trace_env_def)
  have c: "ss_correlationID demo_sub_session = ''i''" by (simp add: demo_sub_session_def)
  have "log_call (NewJSONLogger LevelInfo) (handle_context [] ?j) rec
         = [json_line \<lparr>jh_Level = LevelInfo, jh_Bound = [], jh_Groups = []\<rparr> (rec\<lparr>sr_Attrs := sr_Attrs rec @ [(''correlation_id'', ''i'')]\<rparr>)]"
    using submission_traceable[OF _ d _ _ _ r _ _ _ w h rec(1), of 0 "\<lparr>jh_Level = LevelInfo, jh_Bound = [], jh_Groups = []\<rparr>"] rec(3)
    by (simp add: NewJSONLogger_def LevelInfo_def LevelWarn_def demo_trace_submission_def demo_trace_state_def demo_sub_session_def submitted_job_def
        mb.init_inv)
  then show ?thesis using d r h rec(2) by blast
qed

end
