(* ===== verification/Api_Paging.thy ===== *)
theory Api_Paging
  imports Api Directory_Service Paging
begin

section \<open>Reading a listing of the API to its end\<close>

text \<open>
  A client of the management API that lists the vhosts page by page, as its documentation says: it sends the
  \<open>nextCursor\<close> of each answer with the next request until an answer has none. The page size is chosen in two places, by
  \<open>Service.ListVhosts\<close> for the query and by \<open>VhostController.ListVhosts\<close> for the cursor.
\<close>

fun list_walk :: "(string \<Rightarrow> gerr + 'a list) \<Rightarrow> ('a \<Rightarrow> string) \<Rightarrow> int \<Rightarrow> nat \<Rightarrow> string \<Rightarrow> gerr + 'a list" where
  "list_walk page ident requested 0 cursor = Inr []"
| "list_walk page ident requested (Suc n) cursor =
     (case page cursor of
        Inl e \<Rightarrow> Inl e
      | Inr p \<Rightarrow>
          let c = next_cursor ident requested p in
          if c = [] then Inr p
          else (case list_walk page ident requested n c of Inl e \<Rightarrow> Inl e | Inr rest \<Rightarrow> Inr (p @ rest)))"

text \<open>The size the controller assumes for a page.\<close>

definition cursor_size :: "int \<Rightarrow> nat" where
  "cursor_size requested = nat (if requested \<le> 0 \<or> requested > 500 then 100 else requested)"

lemma page_sizes: "0 < cursor_size l" "l \<le> 500 \<Longrightarrow> page_size l = cursor_size l" "500 < l \<Longrightarrow> page_size l = 500" "500 < l \<Longrightarrow> cursor_size l = 100"
  by (auto simp: cursor_size_def page_size_def Let_def)

lemma next_cursor_empty:
  assumes "\<forall>x \<in> set p. ident x \<noteq> []"
  shows "next_cursor ident l p = (if length p = cursor_size l then ident (last p) else [])" "next_cursor ident l p = [] \<longleftrightarrow> length p \<noteq> cursor_size l"
proof -
  have c: "int (length p) = (if l \<le> 0 \<or> l > 500 then 100 else l) \<longleftrightarrow> length p = cursor_size l"
    by (auto simp: cursor_size_def)
  show n: "next_cursor ident l p = (if length p = cursor_size l then ident (last p) else [])"
    unfolding next_cursor_def Let_def c ..
  have "length p = cursor_size l \<Longrightarrow> p \<noteq> []" using page_sizes(1)[of l] by auto
  then show "next_cursor ident l p = [] \<longleftrightarrow> length p \<noteq> cursor_size l" unfolding n using assms last_in_set by fastforce
qed

text \<open>While the two sizes agree, the client is the one of the locale \<open>pager\<close>.\<close>

lemma list_walk_pages:
  assumes "\<And>cursor p. page cursor = Inr p \<Longrightarrow> p = pg cursor" "\<And>cursor. length (pg cursor) \<le> cursor_size l"
    and "\<And>cursor. \<forall>x \<in> set (pg cursor). ident x \<noteq> []" and "list_walk page ident l fuel cursor = Inr xs"
  shows "xs = walk_pages pg ident (cursor_size l) fuel cursor"
  using assms(4)
proof (induction fuel arbitrary: cursor xs)
  case (Suc fuel)
  obtain p where "page cursor = Inr p" using Suc.prems by (auto split: sum.splits)
  then have p: "page cursor = Inr (pg cursor)" using assms(1) by simp
  note c = next_cursor_empty[OF assms(3)[of cursor], where l = l]
  show ?case
  proof (cases "length (pg cursor) = cursor_size l")
    case True
    then obtain rest where "list_walk page ident l fuel (ident (last (pg cursor))) = Inr rest" "xs = pg cursor @ rest"
      using Suc.prems p c by (auto simp: Let_def split: sum.splits if_splits)
    then show ?thesis using Suc.IH True by (simp add: Let_def)
  next
    case False
    then have "length (pg cursor) < cursor_size l" using assms(2)[of cursor] by simp
    moreover have "xs = pg cursor" using Suc.prems p c False by (simp add: Let_def)
    ultimately show ?thesis by (simp add: Let_def)
  qed
qed simp

lemma list_walk_total: "(\<And>cursor. \<exists>p. page cursor = Inr p) \<Longrightarrow> \<exists>xs. list_walk page ident l fuel cursor = Inr xs"
proof (induction fuel arbitrary: cursor)
  case (Suc fuel)
  obtain p where "page cursor = Inr p" using Suc.prems by blast
  moreover obtain rest where "list_walk page ident l fuel (next_cursor ident l p) = Inr rest" using Suc by blast
  ultimately show ?case by (simp add: Let_def)
qed simp

text \<open>A query with a cursor is a page of the rows by ID.\<close>

lemma rows_by_id_sorted:
  assumes "finite (dom m)" "\<And>k r. m k = Some r \<Longrightarrow> rid r = k"
  shows "map rid (rows_by_id m (\<lambda>r. True)) = sorted_list_of_set (dom m)" "\<forall>r \<in> set (rows_by_id m (\<lambda>r. True)). m (rid r) = Some r"
proof -
  have d: "matching m (\<lambda>r. True) = dom m" by (auto simp: matching_def)
  have "map rid (rows_by_id m (\<lambda>r. True)) = map (\<lambda>k. k) (sorted_list_of_set (dom m))"
    unfolding rows_by_id_def d map_map by (rule map_cong) (use assms in auto)
  then show "map rid (rows_by_id m (\<lambda>r. True)) = sorted_list_of_set (dom m)" by simp
  show "\<forall>r \<in> set (rows_by_id m (\<lambda>r. True)). m (rid r) = Some r" using assms by (auto simp: rows_by_id_def d)
qed

lemma rows_by_id_filter:
  assumes "finite (dom m)"
  shows "rows_by_id m P = filter P (rows_by_id m (\<lambda>r. True))"
proof -
  have d: "matching m (\<lambda>r. True) = dom m" by (auto simp: matching_def)
  have "sorted_list_of_set (matching m P) = filter (P \<circ> (the \<circ> m)) (sorted_list_of_set (dom m))"
  proof (rule sorted_distinct_set_unique)
    show "set (sorted_list_of_set (matching m P)) = set (filter (P \<circ> (the \<circ> m)) (sorted_list_of_set (dom m)))"
    proof -
      have m: "matching m P \<subseteq> dom m" by (auto simp: matching_def)
      show ?thesis using assms finite_subset[OF m assms] by (auto simp: matching_def)
    qed
  qed (simp_all add: sorted_wrt_filter)
  then show ?thesis by (simp add: rows_by_id_def d filter_map)
qed

lemma filter_gt_sorted:
  fixes key :: "'a \<Rightarrow> string"
  assumes "sorted_wrt (<) (map key xs)"
  shows "filter (\<lambda>x. key x > c) xs = drop (length (takeWhile (\<lambda>x. \<not> key x > c) xs)) xs"
  using assms
proof (induction xs)
  case (Cons a xs)
  have "\<forall>x \<in> set xs. key a < key x" using Cons.prems by simp
  then have "c < key a \<Longrightarrow> filter (\<lambda>x. key x > c) xs = xs" by (intro filter_True) auto
  then show ?case using Cons by auto
qed simp

lemma find_page:
  assumes "sql_table ops ok look rid filled conflict nrm" "ok t" "t_Find ops ctx (page_where rid cursor (\<lambda>r. True)) [TextAsc rid] (Some n) t = Inr xs"
  shows "xs = page_after rid cursor n (rows_by_id (look t) (\<lambda>r. True))"
proof -
  let ?all = "rows_by_id (look t) (\<lambda>r. True)"
  note l = sql_table.look_id[OF assms(1,2)] sql_table.look_finite[OF assms(1,2)]
  have s: "sorted_wrt (<) (map rid ?all)" using rows_by_id_sorted(1)[OF l(2,1)] by simp
  have "xs = take n (filter (page_where rid cursor (\<lambda>r. True)) ?all)"
    using sql_table.find_by_id[OF assms] unfolding rows_by_id_filter[OF l(2), of "page_where rid cursor (\<lambda>r. True)"] limit_rows_simps .
  moreover have "page_where rid cursor (\<lambda>r. True) = (\<lambda>r. cursor \<noteq> [] \<longrightarrow> rid r > cursor)" by (simp add: fun_eq_iff page_where_def)
  ultimately show ?thesis using filter_gt_sorted[OF s, of cursor] by (simp add: page_after_def slice_from_take Let_def)
qed

lemma map_take_self: "map f (take k ys) = take (length (take k ys)) (map f ys)"
  by (cases "k \<le> length ys") (simp_all add: take_map)

lemma page_after_length: "length (page_after key cursor n xs) \<le> n"
  by (simp add: page_after_def slice_from_take Let_def)

lemma page_after_subset: "set (page_after key cursor n xs) \<subseteq> set xs"
  by (auto simp: page_after_def slice_from_take Let_def dest: in_set_takeD in_set_dropD)

lemma page_after_beyond:
  assumes "sorted_wrt (<) (map key xs)" "xs \<noteq> []" "key (last xs) \<noteq> []"
  shows "page_after key (key (last xs)) n xs = []"
  using page_after_next[OF assms(1), of "length xs - 1" n] assms(2,3) by (simp add: last_conv_nth)

lemma page_after_map: "page_after key cursor n (map f xs) = map f (page_after (key \<circ> f) cursor n xs)"
  by (simp add: page_after_def slice_from_take takeWhile_map comp_def Let_def take_map drop_map)

text \<open>The listing of vhosts as the API reads it.\<close>

lemma ListVhosts_page:
  assumes "vhosts_table (de_vhosts env) ok look" "ok (db_vhosts db)" "Service_ListVhosts env ctx cursor l db = Inr p"
  shows "p = page_after vh_ID cursor (page_size l) (map (\<lambda>r. vhostFromRow r None) (rows_by_id (look (db_vhosts db)) (\<lambda>r. True)))"
proof -
  obtain rows where r: "t_Find (de_vhosts env) ctx (page_where vr_Id cursor (\<lambda>r. True)) [TextAsc vr_Id] (Some (page_size l)) (db_vhosts db) = Inr rows"
    "p = map (\<lambda>r. vhostFromRow r None) rows"
    using assms(3) by (auto simp: Service_ListVhosts_def split: sum.splits)
  have "vh_ID \<circ> (\<lambda>r. vhostFromRow r None) = vr_Id" by (simp add: fun_eq_iff vhostFromRow_def)
  then show ?thesis using find_page[OF assms(1)[unfolded vhosts_table_def] assms(2) r(1)] r(2) by (simp add: page_after_map)
qed

text \<open>
  C33: A client that follows \<open>nextCursor\<close> reads every vhost of the database exactly once, in the order of
  their IDs, whenever the limit it asks for is at most 500 (or is left out); with a greater limit it reads the first 500
  and is told that there are no more. The bound on the number of requests is one more than the number of vhosts.
\<close>

theorem api_listing_walk:
  assumes "vhosts_table (de_vhosts env) ok look" "ok (db_vhosts db)" "look (db_vhosts db) [] = None"
    and "card (dom (look (db_vhosts db))) < fuel"
    and "list_walk (\<lambda>cursor. Service_ListVhosts env ctx cursor l db) vh_ID l fuel [] = Inr xs"
  shows "xs = take (if l \<le> 500 then card (dom (look (db_vhosts db))) else 500)
           (map (\<lambda>r. vhostFromRow r None) (rows_by_id (look (db_vhosts db)) (\<lambda>r. True)))
    \<and> map vh_ID xs = take (length xs) (sorted_list_of_set (dom (look (db_vhosts db))))"
proof -
  let ?rows = "rows_by_id (look (db_vhosts db)) (\<lambda>r. True)" and ?v = "\<lambda>r. vhostFromRow r None"
  let ?all = "map ?v ?rows"
  note t = assms(1)[unfolded vhosts_table_def]
  note l = sql_table.look_id[OF t assms(2)] sql_table.look_finite[OF t assms(2)]
  note a = rows_by_id_sorted[OF l(2,1)]
  have v: "vh_ID (?v r) = vr_Id r" for r by (simp add: vhostFromRow_def)
  have ids: "map vh_ID ?all = sorted_list_of_set (dom (look (db_vhosts db)))" using a(1) by (simp add: v comp_def)
  then have s: "sorted_wrt (<) (map vh_ID ?all)" by simp
  have ne: "\<forall>x \<in> set ?all. vh_ID x \<noteq> []" using a(2) assms(3) v by fastforce
  have len: "length ?all = card (dom (look (db_vhosts db)))" using arg_cong[OF a(1), where f = length] by simp
  let ?pg = "\<lambda>cursor. page_after vh_ID cursor (page_size l) ?all"
  note pg = ListVhosts_page[OF assms(1,2), of ctx _ l]
  have "xs = take (if l \<le> 500 then length ?all else 500) ?all"
  proof (cases "l \<le> 500")
    case True
    have "pager (\<lambda>_. True) (\<lambda>_. ?all) (\<lambda>_ n cursor. page_after vh_ID cursor n ?all) vh_ID"
      by unfold_locales (use page_after_first page_after_next[OF s] ne in auto)
    from pager.full_walk[OF this _ page_sizes(1)] have "walk_pages ?pg vh_ID (cursor_size l) fuel [] = ?all"
      using assms(4) unfolding page_sizes(2)[OF True] len[symmetric] by simp
    moreover have "xs = walk_pages ?pg vh_ID (cursor_size l) fuel []"
      by (rule list_walk_pages[OF pg _ _ assms(5)]) (use page_after_length page_after_subset ne page_sizes(2)[OF True] in fastforce)+
    ultimately show ?thesis using True by simp
  next
    case False
    note big = page_sizes(3,4)[of l] and c = next_cursor_empty[where ident = vh_ID and l = l]
    obtain f where f: "fuel = Suc f" using assms(4) by (cases fuel) auto
    let ?p = "take 500 ?all"
    have p: "Service_ListVhosts env ctx [] l db = Inr ?p"
      using assms(5) pg[of "[]"] False big by (auto simp: f page_after_first split: sum.splits)
    have ep: "\<forall>x \<in> set ?p. vh_ID x \<noteq> []" using ne by (meson in_set_takeD)
    show ?thesis
    proof (cases "length ?p = 100")
      case True
      then have "?p = ?all" "?all \<noteq> []" by auto
      have "page_after vh_ID (vh_ID (last ?all)) (page_size l) ?all = []"
        using page_after_beyond[OF s \<open>?all \<noteq> []\<close>] ne \<open>?all \<noteq> []\<close> last_in_set by blast
      then have e: "q = []" if "Service_ListVhosts env ctx (vh_ID (last ?all)) l db = Inr q" for q using pg[OF that] by simp
      obtain rest where r: "list_walk (\<lambda>cursor. Service_ListVhosts env ctx cursor l db) vh_ID l f (vh_ID (last ?all)) = Inr rest" "xs = ?p @ rest"
        using assms(5) p c(1)[OF ep] c(2)[OF ep] True False big \<open>?p = ?all\<close> by (auto simp: f Let_def split: sum.splits if_splits)
      have n: "next_cursor vh_ID l ([] :: vhost list) = []" using c(2)[of "[]"] False big by simp
      have "rest = []"
      proof (cases f)
        case (Suc g)
        then show ?thesis using r(1) e n by (cases "Service_ListVhosts env ctx (vh_ID (last ?all)) l db") (auto simp: Let_def)
      qed (use r(1) in simp)
      then show ?thesis using r(2) False by simp
    next
      case no: False
      then show ?thesis using assms(5) p c(2)[OF ep] False big by (simp add: f Let_def)
    qed
  qed
  then have x: "xs = take (if l \<le> 500 then card (dom (look (db_vhosts db))) else 500) ?all" unfolding len .
  then have "map vh_ID xs = take (length xs) (map vh_ID ?all)" by (simp only: map_take_self)
  then show ?thesis using x ids by (simp only:)
qed

definition demo_list_row :: "string \<Rightarrow> vhost_row" where
  "demo_list_row i = zero_vhost_row\<lparr>vr_Id := i, vr_Domain := i @ ''.test''\<rparr>"

definition demo_list_db :: demo_dir_db where
  "demo_list_db = demo_dir_db\<lparr>db_vhosts := \<lparr>lt_rows = [demo_list_row ''b'', demo_list_row ''a''], lt_used = [''a'', ''b'']\<rparr>\<rparr>"

lemma demo_list_ok: "demo_vhosts_ok (db_vhosts demo_list_db)" "lt_look vr_Id (db_vhosts demo_list_db) [] = None"
  "dom (lt_look vr_Id (db_vhosts demo_list_db)) = {''a'', ''b''}"
  by (auto simp: demo_vhosts_ok_def lt_ok_def demo_list_db_def demo_list_row_def lt_look_def dom_def)

theorem api_listing_walk_witness:
  "\<exists>xs. list_walk (\<lambda>cursor. Service_ListVhosts demo_dir_env None cursor 1 demo_list_db) vh_ID 1 3 [] = Inr xs \<and> map vh_ID xs = [''a'', ''b'']"
proof -
  have "\<exists>p. Service_ListVhosts demo_dir_env None cursor 1 demo_list_db = Inr p" for cursor
    by (simp add: Service_ListVhosts_def demo_dir_env_def list_table_ops_def lt_Find_def)
  from list_walk_total[of "\<lambda>cursor. Service_ListVhosts demo_dir_env None cursor 1 demo_list_db" vh_ID 1 3 "[]", OF this]
  obtain xs where xs: "list_walk (\<lambda>cursor. Service_ListVhosts demo_dir_env None cursor 1 demo_list_db) vh_ID 1 3 [] = Inr xs" by blast
  have c: "card (dom (lt_look vr_Id (db_vhosts demo_list_db))) = 2" unfolding demo_list_ok(3) by simp
  have "sorted_list_of_set {''a'', ''b''} = [''a'', ''b'']" by simp
  moreover have "length (rows_by_id (lt_look vr_Id (db_vhosts demo_list_db)) (\<lambda>r. True)) = 2" using c by (simp add: rows_by_id_def matching_def dom_def)
  ultimately show ?thesis using api_listing_walk[OF demo_dir_tables(1) demo_list_ok(1,2) _ xs] xs c unfolding demo_list_ok(3) by auto
qed

end
