(* ===== verification/Mail_Path.thy ===== *)
theory Mail_Path
  imports Deliverer_Drain Smtp_Submission
begin

section \<open>From a submission to the remote host\<close>

text \<open>
  The submission session and the deliverer over one queue and one message store. The locale \<open>mail_path\<close> joins their
  contracts: a job keeps its envelope through every retry, its staged body stays readable while bounces are written
  beside it, and it leaves the queue in exactly one way, by an attempt that delivered it or gave it up.
\<close>

text \<open>Two jobs for the same mail: what a retry does not change.\<close>

definition same_mail :: "job \<Rightarrow> job \<Rightarrow> bool" where
  "same_mail i j \<longleftrightarrow> job_ID j = job_ID i \<and> job_Vhost j = job_Vhost i \<and> job_From j = job_From i \<and> job_To j = job_To i
     \<and> job_BodyRef j = job_BodyRef i"

lemma same_mail_retry [simp]: "same_mail i (job_retry j cause nxt) = same_mail i j"
  by (cases cause) (simp_all add: same_mail_def job_retry_def Let_def)

lemma same_mail_ref: "same_mail i j \<Longrightarrow> job_ref j = job_ref i"
  by (simp add: same_mail_def job_ref_def)

text \<open>The ways \<open>handle\<close> can end.\<close>

lemma handle_ends:
  assumes "handle ops dirops dir store cfg env j d = Some d'"
  obtains (delivered) "fst (Deliverer_attempt store cfg env j (ds_store d)) = None"
      "ds_queue d' = snd (q_Complete ops (de_ctx env) (job_ID j) (ds_queue d))" "ds_store d' = ds_store d" "ds_bounces d' = ds_bounces d"
  | (bounced) e cause where "fst (Deliverer_attempt store cfg env j (ds_store d)) = Some e"
      "isPermanent (de_lib env) e \<or> dc_MaxAttempts cfg \<le> job_Attempts j + 1"
      "ds_queue d' = snd (q_Complete ops (de_ctx env) (job_ID j) (ds_queue d))"
      "ds_store d' = deliverBounce dirops dir store cfg env j cause (ds_store d)" "ds_bounces d' = Suc (ds_bounces d)"
  | (deferred) cause nxt where "ds_queue d' = snd (q_Fail ops (de_ctx env) (job_ID j) cause nxt (ds_queue d))" "ds_store d' = ds_store d"
proof (cases "fst (Deliverer_attempt store cfg env j (ds_store d))")
  case None
  then show ?thesis using assms by (intro delivered) (auto simp: handle_def)
next
  case (Some e)
  show ?thesis
  proof (cases "isPermanent (de_lib env) e \<or> dc_MaxAttempts cfg \<le> job_Attempts j + 1")
    case True
    then show ?thesis using assms Some bounced by (auto simp: handle_def Let_def split: if_splits)
  next
    case False
    then show ?thesis using assms Some deferred by (auto simp: handle_def Let_def split: option.splits)
  qed
qed

lemma deliverBounce_write:
  obtains "deliverBounce dirops dir store cfg env j cause st = st"
  | v m b r where "s_Write store (de_ctx env) v m b st = (r, deliverBounce dirops dir store cfg env j cause st)"
proof (cases "\<exists>v m b. deliverBounce dirops dir store cfg env j cause st = snd (s_Write store (de_ctx env) v m b st)")
  case True
  then obtain v m b where w: "deliverBounce dirops dir store cfg env j cause st = snd (s_Write store (de_ctx env) v m b st)" by blast
  show ?thesis by (rule that(2)[of v m b "fst (s_Write store (de_ctx env) v m b st)"]) (simp add: w)
next
  case False
  then show ?thesis using that(1) by (auto simp: deliverBounce_def split: option.splits prod.splits if_splits sum.splits)
qed

locale mail_path =
  finite_queue qops init pending claims qinv + submission_path sops sinv holds room qops init pending claims qinv
  for sops :: "'s store_ops" and sinv holds room and qops :: "(job, 'q) queue_ops" and init pending claims qinv
begin

definition intact :: "job \<Rightarrow> bytes \<Rightarrow> ('q, 's, 'h) run_state \<Rightarrow> bool" where
  "intact i body r \<longleftrightarrow> sinv (ds_store (rs_state r)) \<and> card (dom (pending (ds_queue (rs_state r)))) \<le> room (ds_store (rs_state r))
     \<and> (\<forall>j. pending (ds_queue (rs_state r)) (job_ID i) = Some j \<longrightarrow> same_mail i j) \<and> holds (ds_store (rs_state r)) (job_ref i) body"

definition settled :: "'d directory_ops \<Rightarrow> 'd \<Rightarrow> deliver_config \<Rightarrow> job \<Rightarrow> ('q, 's, 'h) run_state \<Rightarrow> ('q, 's, 'h) run_state \<Rightarrow> bool" where
  "settled dirops dir cfg i r r' \<longleftrightarrow> (\<exists>g env j. rs_go r g = GSend j \<and> same_mail i j \<and> de_ctx env = None
     \<and> handle qops dirops dir sops cfg env j (rs_state r) = Some (rs_state r')
     \<and> (case fst (Deliverer_attempt sops cfg env j (ds_store (rs_state r))) of
          None \<Rightarrow> ds_bounces (rs_state r') = ds_bounces (rs_state r)
        | Some e \<Rightarrow> (isPermanent (de_lib env) e \<or> dc_MaxAttempts cfg \<le> job_Attempts j + 1)
            \<and> ds_bounces (rs_state r') = Suc (ds_bounces (rs_state r))))"

lemma live_inv: "live_ok cfg r \<Longrightarrow> qinv (ds_queue (rs_state r))"
  by (simp add: live_ok_def retry_ok_def excl_def)

lemma live_ok_enqueue:
  fixes r :: "('q, 's, 'h) run_state"
  assumes "live_ok cfg r" "job_Attempts j = 0" "pending (ds_queue (rs_state r)) (job_ID j) = None"
    and "q_Enqueue qops ctx j (ds_queue (rs_state r)) = (e, q')"
  shows "live_ok cfg (r\<lparr>rs_state := (rs_state r)\<lparr>ds_queue := q'\<rparr>\<rparr>)"
proof -
  have s: "run_step qops dirops dir sops cfg pending r (r\<lparr>rs_state := (rs_state r)\<lparr>ds_queue := q'\<rparr>\<rparr>)" for dirops :: "'x directory_ops" and dir
    by (rule run_enqueue) (use assms in auto)
  have "claims q' = claims (ds_queue (rs_state r))"
    using enq_ok[OF live_inv[OF assms(1)], of ctx j q'] enq_err[of ctx j "ds_queue (rs_state r)" _ q'] assms(4) by (cases e) auto
  then show ?thesis using retry_ok_run[OF s] sem_inv_step[OF s] assms(1) by (simp add: live_ok_def no_orphans_def)
qed

text \<open>A submission hands its jobs to a running deliverer.\<close>

lemma live_ok_submit:
  assumes "submit_loop sops qops s signed zs (x, ds_queue (rs_state r)) = (e, x', q')" "live_ok cfg r"
    and "distinct (map (fst \<circ> snd) zs)" "\<forall>z \<in> set zs. pending (ds_queue (rs_state r)) (fst (snd z)) = None"
  shows "live_ok cfg (r\<lparr>rs_state := (rs_state r)\<lparr>ds_queue := q', ds_store := x'\<rparr>\<rparr>)"
  using assms
proof (induction zs arbitrary: x r)
  case Nil
  then show ?case by (simp add: live_ok_def sem_inv_def no_orphans_def)
next
  case (Cons z zs)
  obtain rcpt newID now where z: "z = (rcpt, newID, now)" by (metis prod_cases3)
  let ?q = "ds_queue (rs_state r)"
  have same: "live_ok cfg (r\<lparr>rs_state := (rs_state r)\<lparr>ds_queue := ?q, ds_store := y\<rparr>\<rparr>)" for y
    using Cons.prems(2) by (simp add: live_ok_def sem_inv_def no_orphans_def)
  obtain w x1 where w: "s_Write sops None (ss_authVhost s) OutboxMailbox signed x = (w, x1)" by fastforce
  show ?case
  proof (cases w)
    case (Inl err)
    then show ?thesis using Cons.prems(1) z w same by auto
  next
    case (Inr ref)
    let ?j = "submitted_job s rcpt ref newID now"
    obtain y q1 where q1: "q_Enqueue qops None ?j ?q = (y, q1)" by fastforce
    let ?r1 = "r\<lparr>rs_state := (rs_state r)\<lparr>ds_queue := q1\<rparr>\<rparr>"
    have j: "job_ID ?j = newID" "job_Attempts ?j = 0" by (simp_all add: submitted_job_def)
    have ok: "live_ok cfg ?r1" by (rule live_ok_enqueue[OF Cons.prems(2) j(2) _ q1]) (use Cons.prems(4) z j in simp)
    show ?thesis
    proof (cases y)
      case None
      have p: "pending q1 = (pending ?q)(newID \<mapsto> ?j)" using enq_ok[OF live_inv[OF Cons.prems(2)] q1[unfolded None]] j by auto
      have l: "submit_loop sops qops s signed zs (x1, ds_queue (rs_state ?r1)) = (e, x', q')" using Cons.prems(1) z w Inr q1 None by simp
      have "\<forall>z \<in> set zs. pending (ds_queue (rs_state ?r1)) (fst (snd z)) = None"
        using Cons.prems(3,4) z p by auto
      then show ?thesis using Cons.IH[OF l ok] Cons.prems(3) by simp
    next
      case (Some err)
      then have "q' = q1" using Cons.prems(1) z w Inr q1 by simp
      then show ?thesis using ok by (simp add: live_ok_def sem_inv_def no_orphans_def)
    qed
  qed
qed

text \<open>A step of the workers keeps a queued mail intact, or settles it.\<close>

lemma pending_other:
  assumes "card (dom p) \<le> Suc n" "finite (dom p)" "p k \<noteq> None"
  shows "card (dom (p(k := None))) \<le> n"
proof -
  have "k \<in> dom p" using assms(3) by auto
  then have "card (dom p - {k}) = card (dom p) - 1" using assms(2) by simp
  then show ?thesis using assms(1) by simp
qed

lemma intact_work:
  fixes r :: "('q, 's, 'h) run_state"
  assumes "work_step qops dirops dir sops cfg r r'" "live_ok cfg r" "intact i body r" "pending (ds_queue (rs_state r)) (job_ID i) \<noteq> None"
  shows "intact i body r'" "pending (ds_queue (rs_state r')) (job_ID i) = None \<Longrightarrow> settled dirops dir cfg i r r'"
proof -
  let ?q = "ds_queue (rs_state r)"
  note inv = live_inv[OF assms(2)]
  note fin = fin_pending[OF inv]
  have "intact i body r' \<and> (pending (ds_queue (rs_state r')) (job_ID i) = None \<longrightarrow> settled dirops dir cfg i r r')"
    using assms(1)
  proof (cases rule: work_step.cases)
    case (work_spawn g now seed j q')
    then have "pending q' = pending ?q" using deq_some[OF inv work_spawn(3)] by blast
    then show ?thesis using assms(3,4) work_spawn(1) by (auto simp: intact_def)
  next
    case (work_acquire g j s')
    then show ?thesis using assms(3,4) by (auto simp: intact_def)
  next
    case (work_handle g j env d')
    note h = held_cases[OF assms(2) disjI2[OF work_handle(2)]]
    have st: "rs_state r' = d'" using work_handle(1) by simp
    have complete: "pending q' = (pending ?q)(job_ID j := None)" if "q' = snd (q_Complete qops (de_ctx env) (job_ID j) ?q)" for q'
    proof -
      have "fst (q_Complete qops None (job_ID j) ?q) = None" using comp_accepts h(1) by simp
      then have "q_Complete qops None (job_ID j) ?q = (None, q')" using that work_handle(3) by (metis prod.collapse)
      from comp_ok[OF h(2) this] show ?thesis by simp
    qed
    have mail: "same_mail i j" if "job_ID j = job_ID i" using assms(3) h(1) that by (simp add: intact_def)
    have left: "card (dom (pending ?q)) \<le> Suc n \<Longrightarrow> card (dom ((pending ?q)(job_ID j := None))) \<le> n" for n
      by (rule pending_other[OF _ fin]) (simp_all add: h(1))
    show ?thesis using work_handle(5)
    proof (cases rule: handle_ends)
      case delivered
      have "intact i body r'" using assms(3) complete[OF delivered(2)] left[of "room (ds_store d')"] delivered(3) st
        by (auto simp: intact_def split: if_splits)
      moreover have "settled dirops dir cfg i r r'" if "pending (ds_queue d') (job_ID i) = None"
      proof -
        have "job_ID j = job_ID i" using that complete[OF delivered(2)] assms(4) by (auto split: if_splits)
        then show ?thesis unfolding settled_def st using work_handle(2,3,5) mail delivered(1,4)
          by (intro exI[of _ g] exI[of _ env] exI[of _ j]) simp
      qed
      ultimately show ?thesis using st by simp
    next
      case (bounced e cause)
      have "card (dom (pending ?q)) \<noteq> 0" using fin h(1) by auto
      then have pos: "0 < room (ds_store (rs_state r))" using assms(3) by (auto simp: intact_def)
      have "sinv (ds_store d') \<and> room (ds_store (rs_state r)) \<le> Suc (room (ds_store d')) \<and> (\<forall>ref b. holds (ds_store (rs_state r)) ref b \<longrightarrow> holds (ds_store d') ref b)"
      proof (cases rule: deliverBounce_write[of dirops dir sops cfg env j cause "ds_store (rs_state r)"])
        case 1
        then show ?thesis using bounced(4) assms(3) by (simp add: intact_def)
      next
        case (2 v m b x)
        then show ?thesis using st.write_keeps[OF _ pos 2] assms(3) bounced(4) by (simp add: intact_def)
      qed
      then have "intact i body r'" using assms(3) complete[OF bounced(3)] left[of "room (ds_store d')"] st
        by (auto simp: intact_def split: if_splits)
      moreover have "settled dirops dir cfg i r r'" if "pending (ds_queue d') (job_ID i) = None"
      proof -
        have "job_ID j = job_ID i" using that complete[OF bounced(3)] assms(4) by (auto split: if_splits)
        then show ?thesis unfolding settled_def st using work_handle(2,3,5) mail bounced(1,2,5)
          by (intro exI[of _ g] exI[of _ env] exI[of _ j]) simp
      qed
      ultimately show ?thesis using st by simp
    next
      case (deferred cause nxt)
      have "fst (q_Fail qops None (job_ID j) cause nxt ?q) = None" using fail_accepts h(1) by simp
      then have "q_Fail qops None (job_ID j) cause nxt ?q = (None, ds_queue d')" using deferred(1) work_handle(3) by (metis prod.collapse)
      from fail_ok[OF h(2) this] h(1) have p: "pending (ds_queue d') = (pending ?q)(job_ID j \<mapsto> job_retry j cause nxt)" by auto
      then have "dom (pending (ds_queue d')) = dom (pending ?q)" using h(1) by auto
      then show ?thesis using assms(3,4) p deferred(2) st mail by (auto simp: intact_def)
    qed
  qed
  then show "intact i body r'" "pending (ds_queue (rs_state r')) (job_ID i) = None \<Longrightarrow> settled dirops dir cfg i r r'" by blast+
qed

text \<open>Every queued mail is settled within the work left.\<close>

lemma settles:
  fixes \<sigma> :: "nat \<Rightarrow> ('q, 's, 'h) run_state"
  assumes "live_ok cfg (\<sigma> 0)" "delays_ok cfg" "intact i body (\<sigma> 0)" "pending (ds_queue (rs_state (\<sigma> 0))) (job_ID i) \<noteq> None"
    and run: "\<And>n. work_step qops dirops dir sops cfg (\<sigma> n) (\<sigma> (Suc n)) \<or> (\<nexists>r'. work_step qops dirops dir sops cfg (\<sigma> n) r') \<and> \<sigma> (Suc n) = \<sigma> n"
  shows "\<exists>m < 3 * nat (max 1 (dc_MaxAttempts cfg)) * card (dom (pending (ds_queue (rs_state (\<sigma> 0))))).
    settled dirops dir cfg i (\<sigma> m) (\<sigma> (Suc m)) \<and> holds (ds_store (rs_state (\<sigma> m))) (job_ref i) body
    \<and> pending (ds_queue (rs_state (\<sigma> (Suc m)))) (job_ID i) = None"
proof -
  let ?P = "\<lambda>n. pending (ds_queue (rs_state (\<sigma> n))) (job_ID i) = None"
  obtain n where n: "n \<le> work cfg pending (\<sigma> 0)" "?P n"
    using drains[of cfg \<sigma> dirops dir sops, OF assms(1,2)] run by blast
  then obtain k where k: "k \<le> n" "\<forall>l < k. \<not> ?P l" "?P k" using ex_least_nat_le[of ?P n] by blast
  obtain m where m: "k = Suc m" using k(3) assms(4) by (cases k) auto
  have ok: "live_ok cfg (\<sigma> l)" for l
  proof (induction l)
    case (Suc l)
    then show ?case using live_ok_work[of dirops dir sops cfg "\<sigma> l"] run[of l] by auto
  qed (rule assms(1))
  have step: "work_step qops dirops dir sops cfg (\<sigma> l) (\<sigma> (Suc l))" if "l < k" for l
    using work_progress[OF ok assms(2), of l "job_ID i" dirops dir sops] run[of l] k(2) that by blast
  have "l \<le> m \<Longrightarrow> intact i body (\<sigma> l)" for l
  proof (induction l)
    case (Suc l)
    then show ?case using intact_work(1)[OF step ok, of l i body] k(2) m by simp
  qed (rule assms(3))
  then have im: "intact i body (\<sigma> m)" by simp
  have "m < work cfg pending (\<sigma> 0)" using n(1) k(1) m by simp
  then have "m < 3 * nat (max 1 (dc_MaxAttempts cfg)) * card (dom (pending (ds_queue (rs_state (\<sigma> 0)))))"
    using work_bound[OF assms(1)] by linarith
  moreover have "settled dirops dir cfg i (\<sigma> m) (\<sigma> (Suc m))" using intact_work(2)[OF step ok im] k(2,3) m by simp
  ultimately show ?thesis using im k(3) m by (intro exI[of _ m]) (simp add: intact_def)
qed

end

interpretation mmp: mail_path Maildir_ops maildir_inv maildir_holds maildir_room MemoryBackend_ops NewMemoryBackend mq_pending mq_claims "mq_inv job_ID"
  by unfold_locales

lemma attempt_sends:
  assumes "fst (Deliverer_attempt store cfg env j st) = None" "de_ctx env = None" "s_Read store None (job_ref j) st = Inr body"
  shows "\<exists>mxs. lookupMX (de_resolver env) (de_seed env) (destinationDomain (job_To j)) = Inr mxs
    \<and> fst (send (de_lib env) cfg (de_net env) j body mxs) = None"
  using assms by (auto simp: Deliverer_attempt_def job_ref_def Let_def split: sum.splits if_splits)

text \<open>A settled mail on the maildir store and the in-memory queue, with the body its attempt had.\<close>

lemma settled_attempt:
  assumes "mmp.settled dirops dir cfg i r r'" "maildir_holds (ds_store (rs_state r)) (job_ref i) body" "mq_pending (ds_queue (rs_state r')) (job_ID i) = None"
  shows "\<exists>g env j. rs_go r g = GSend j \<and> job_ID j = job_ID i \<and> job_From j = job_From i \<and> job_To j = job_To i \<and> job_Vhost j = job_Vhost i
    \<and> Maildir_Read None (job_ref j) (ds_store (rs_state r)) = Inr body
    \<and> handle MemoryBackend_ops dirops dir Maildir_ops cfg env j (rs_state r) = Some (rs_state r')
    \<and> mq_pending (ds_queue (rs_state r')) (job_ID i) = None
    \<and> (case fst (Deliverer_attempt Maildir_ops cfg env j (ds_store (rs_state r))) of
         None \<Rightarrow> \<exists>mxs. lookupMX (de_resolver env) (de_seed env) (destinationDomain (job_To j)) = Inr mxs
           \<and> fst (send (de_lib env) cfg (de_net env) j body mxs) = None
       | Some e \<Rightarrow> (isPermanent (de_lib env) e \<or> dc_MaxAttempts cfg \<le> job_Attempts j + 1)
           \<and> ds_bounces (rs_state r') = Suc (ds_bounces (rs_state r)))"
proof -
  obtain g env j where h: "rs_go r g = GSend j" "same_mail i j" "de_ctx env = None"
    "handle MemoryBackend_ops dirops dir Maildir_ops cfg env j (rs_state r) = Some (rs_state r')"
    and out: "case fst (Deliverer_attempt Maildir_ops cfg env j (ds_store (rs_state r))) of
          None \<Rightarrow> ds_bounces (rs_state r') = ds_bounces (rs_state r)
        | Some e \<Rightarrow> (isPermanent (de_lib env) e \<or> dc_MaxAttempts cfg \<le> job_Attempts j + 1)
            \<and> ds_bounces (rs_state r') = Suc (ds_bounces (rs_state r))"
    using assms(1) unfolding mmp.settled_def by blast
  have rd: "Maildir_Read None (job_ref j) (ds_store (rs_state r)) = Inr body"
    using maildir_read[OF assms(2)] same_mail_ref[OF h(2)] by simp
  then have "s_Read Maildir_ops None (job_ref j) (ds_store (rs_state r)) = Inr body" by (simp add: Maildir_ops_def)
  with out attempt_sends[of Maildir_ops cfg env j "ds_store (rs_state r)" body] h(3)
  have "case fst (Deliverer_attempt Maildir_ops cfg env j (ds_store (rs_state r))) of
         None \<Rightarrow> \<exists>mxs. lookupMX (de_resolver env) (de_seed env) (destinationDomain (job_To j)) = Inr mxs
           \<and> fst (send (de_lib env) cfg (de_net env) j body mxs) = None
       | Some e \<Rightarrow> (isPermanent (de_lib env) e \<or> dc_MaxAttempts cfg \<le> job_Attempts j + 1)
           \<and> ds_bounces (rs_state r') = Suc (ds_bounces (rs_state r))" by (auto split: option.splits)
  moreover have "job_ID j = job_ID i" "job_From j = job_From i" "job_To j = job_To i" "job_Vhost j = job_Vhost i"
    using h(2) by (simp_all add: same_mail_def)
  ultimately show ?thesis using h(1,4) rd assms(3) by blast
qed

end
