(* ===== verification/Spec2Isabelle.thy ===== *)
theory Spec2Isabelle
  imports Backoff Job_Queue Webhook Directory Maildir_Store Deliverer Smtp_Submission Imap Retention Postgres_Queue Directory_Service Audit_Trail Api_Send Storage_Postgres Webhook_Postgres Ratelimit_Postgres Api_Isolation Deliverer_Drain Boot_Wiring Rotation Migrations Lifecycle Logging Api_Paging Mail_Path
begin

text \<open>
  \<^bold>\<open>Envelope: a verification of a multi-tenant mail server.\<close>

  \<^bold>\<open>The program.\<close> Envelope is one Go binary (\<open>cmd/envelope/main.go\<close>) that runs any selection of five roles. \<open>smtp-inbound\<close> takes
  mail from other servers, filters it and stores it; \<open>smtp-submission\<close> takes mail from authenticated users, signs it and queues one
  job per recipient; \<open>imap\<close> lets a user read a mailbox; \<open>deliverer\<close> takes jobs from the queue and speaks SMTP to the mail hosts of their
  recipients; \<open>api\<close> is the management API, with the webhook dispatcher, the retention purger and the internal API beside it. The
  roles share no memory: they meet in the directory (who exists), the message store, the outbound queue, the webhook queue and the
  rate limiters, each behind a Go interface with an in-memory or file implementation and one on Postgres. A role that runs alone may
  hold no database credential and reach these through the internal API of the api role instead.

  \<^bold>\<open>How the code is modelled.\<close> A struct is a record, an interface a record of operations over a state, a method a function that takes
  and returns the state; \<open>gerr\<close> is a Go error with its \<open>Unwrap\<close> chain, and a fallible call returns \<open>gerr option\<close> or \<open>gerr + 'a\<close>. A loop is a
  recursive function over the data it ranges over; the one that need not end (the pages of a sweep) is a partial function into
  \<open>option\<close>. A panic is \<open>None\<close>. Goroutines are a step relation over the state they share. Bytes and strings are lists of
  characters, times are nanoseconds; integers are unbounded except where their width shows (the retry delay in \<open>int64\<close> and \<open>float64\<close>,
  the token buckets in \<open>float64\<close>, the IMAP numbers in \<open>uint32\<close>, the maildir sequence in 64 bits). What the code calls and the repository does not contain is an argument of the
  definitions: gorm and Postgres as the tables \<open>sql_ops\<close>, go-smtp, go-imap and the network as the outcomes of each step, AES-GCM, bcrypt, RSA, SHA-256,
  SPF, DKIM and DMARC, the resolver, the clock, random draws, UUIDs, and \<open>seed\<close>s for the orders Go leaves open (maps, unstable sorts).
  What is relied on of them is a locale or a named hypothesis, and each is shown to hold of a concrete instance.

  \<^bold>\<open>Foundations.\<close> \<open>Env_Prelude\<close>: Go strings, maps and errors. \<open>Sql_Table\<close>: the contract \<open>sql_table\<close> of a database table and the instance
  \<open>list_table\<close>. \<open>Paging\<close>: the contract \<open>pager\<close> of a listing, and that walking it reads every row once. \<open>Claim_Queue\<close>: the contracts \<open>job_claims\<close> and
  \<open>claim_queue\<close> of a queue whose jobs are claimed, the system of workers that share one, and the in-memory implementation. \<open>Key_Rotation\<close> and \<open>Kms\<close>:
  base64, AES-GCM encryption and the loop that re-encrypts a column (\<open>internal/kms\<close>). \<open>Float64\<close>: the rounding of \<open>float64\<close> arithmetic and its error.

  \<^bold>\<open>Queues and delivery.\<close> \<open>Backoff\<close>, \<open>Job_Queue\<close>, \<open>Postgres_Queue\<close> (\<open>internal/queue\<close>): two workers never hold one job, in memory or on Postgres with
  open transactions; \<open>Dequeue\<close> returns an earliest due job; in every run of the Postgres queue the calls that did not fail in the database
  are a run of the in-memory one, with stored times cut to microseconds; and a claim whose worker is gone is never released. \<open>Deliverer\<close>, \<open>Deliverer_Drain\<close> (\<open>internal/deliverer\<close>): the outcome of each attempt, the bound on connections per domain,
  and that the queue drains. \<open>Mail_Path\<close>: a queued mail keeps its envelope and its body until the attempt that settles it. \<open>Webhook_Queue\<close>, \<open>Webhook\<close>, \<open>Webhook_Postgres\<close>
  (\<open>internal/webhook\<close>): an event reaches exactly the subscriptions that want it, each delivery is recorded, retries are bounded.

  \<^bold>\<open>Mail in and out of the mailboxes.\<close> \<open>Directory\<close>, \<open>Directory_Service\<close> (\<open>internal/directory\<close>): addresses, accounts, vhosts, mailboxes and DKIM keys, in memory and
  on Postgres. \<open>Storage\<close>, \<open>Maildir\<close>, \<open>Maildir_Store\<close>, \<open>Storage_Postgres\<close> (\<open>internal/storage\<close>): the contract \<open>message_store\<close> and its two implementations, the
  maildir over a file system in which every call may fail. \<open>Filter_Pipeline\<close> (\<open>internal/filter\<close>) and \<open>Ratelimit\<close>, \<open>Ratelimit_Postgres\<close> (\<open>internal/ratelimit\<close>):
  the verdict on a message, from the answers of the scorer, SPF, DKIM and DMARC; the rate a bucket lets through in \<open>float64\<close> arithmetic, in one process at any
  capacity up to \<open>2 ^ 53\<close>, and shared on Postgres as long as calls do not overlap (the row lock the code asks for is never taken, and overlapping calls can share a token). \<open>Smtp_Inbound\<close>, \<open>Smtp_Submission\<close> (\<open>internal/platform/smtp\<close>): no relaying, acknowledged mail is stored or queued,
  nothing without authentication. \<open>Imap\<close> (\<open>internal/platform/imap\<close>): what a \<open>FETCH\<close> answers; on the Postgres store a session keeps to the accounts
  it logged in as, while on a maildir a mailbox name with \<open>..\<close> reaches another account. \<open>Retention\<close> (\<open>internal/retention\<close>): a sweep
  ends and deletes exactly the expired messages.

  \<^bold>\<open>The APIs.\<close> \<open>Apiauth\<close>, \<open>Audit_Trail\<close>, \<open>Mailbuild\<close> (\<open>internal/apiauth\<close>, \<open>audit\<close>, \<open>mailbuild\<close>); \<open>Api_Auth\<close>, \<open>Api\<close> (\<open>internal/api\<close>): the guards, every controller method and the
  routes. \<open>Api_Access\<close>: every route asks for the permission its table says. \<open>Tenancy\<close>, \<open>Tenant_Frames\<close>, \<open>Api_Isolation\<close>: no request without a token of an account changes
  what that account sees. \<open>Api_Send\<close>: what the send endpoint acknowledges is queued. \<open>Api_Paging\<close>: following \<open>nextCursor\<close>. \<open>Wire_Text\<close>, \<open>Internal_Api\<close>, \<open>Internal_Access\<close>
  (\<open>internal/internalapi\<close>): each role's token reaches only its own scopes, and a call over the wire is the direct call.

  \<^bold>\<open>The process.\<close> \<open>Migrations\<close> (\<open>internal/storage/migrations\<close>, \<open>directory/migrate.go\<close>): no tenant changes hands. \<open>Boot\<close>, \<open>Boot_Wiring\<close> (\<open>main.go\<close>, \<open>internal/db\<close>): which
  instances a command line starts and what each holds. \<open>Rotation\<close> (\<open>main.go --rotate-master-key\<close>): a rotation can be interrupted and repeated. \<open>Lifecycle\<close>
  (\<open>internal/platform\<close>): the SMTP and IMAP servers that are booted have TLS (the HTTP servers of the api role have none); how background instances stop, and a shutdown that is lost. \<open>Logging\<close>
  (\<open>internal/logging\<close>): one correlation ID from the submission to the webhook.

  \<^bold>\<open>Locales.\<close> Each interface is a locale that is interpreted on the definitions of the theory that provides it, and the theorems outside rest on those
  interpretations: \<open>claim_queue\<close> on the in-memory and, as \<open>job_claims\<close>, the Postgres queues; \<open>message_store\<close> on both stores; \<open>submission_path\<close> and \<open>mail_path\<close> on the maildir and the queue;
  \<open>pager\<close> on the stores of the webhooks; \<open>sql_table\<close> on \<open>list_table\<close>, a table in memory, through which the locales over a database
  (\<open>pg_queue\<close>, \<open>secret_table\<close>, \<open>token_table\<close>, \<open>dir_tables\<close> and the like) are interpreted on the code's definitions. The properties of the Postgres implementations hold for every
  table that keeps the laws.

  \<^bold>\<open>Bounds.\<close> The retry delays are proved in range for a base and a maximum below \<open>2 ^ 53\<close> ns (104 days); the defaults are minutes. The walk over a listing of \<open>n\<close> rows
  is given more than \<open>n\<close> rounds, of which it needs one per page. A maildir has room for \<open>2 ^ 64 - 1\<close> names of one process. The drain takes at most three steps per
  attempt a queued job may have; a background instance that is stopped takes five. A token bucket spends its tokens exactly up to \<open>2 ^ 53\<close>; from \<open>2 ^ 54\<close> on none is spent.

  \<^bold>\<open>Not modelled.\<close> The Goose framework that runs the instances and injects the controllers (\<open>internal/app\<close>, \<open>api/module.go\<close>: registration only); the declarations of
  Prometheus collectors (\<open>internal/metrics\<close>); the JSON and MIME text of messages beyond what the code itself writes; \<open>AutoMigrate\<close>; SMTP and IMAP as protocols, which
  go-smtp and go-imap implement; \<open>internal/dbtest\<close>, a test helper; \<open>internal/storage/s3\<close>, which is empty. A request to the API is one step: what other requests do
  between two of its statements is not modelled. A connection to the database that is lost after a commit and before its acknowledgement is outside the contract
  \<open>sql_table\<close>: a failed commit is a rollback.

  \<^bold>\<open>Simplifications.\<close> An attempt of the deliverer (\<open>handle\<close>) is one step under one context, and the values a context carries (correlation IDs) are passed beside it (\<open>Logging\<close>);
  a mail host answers an attempt in one way for each name (\<open>sendToHost\<close>). The queues' \<open>SELECT\<close> is that of Postgres, with its lock clause; the branch without it for SQLite, the
  database of the tests, is left out. In a maildir the calls that write, list and rename may fail; \<open>os.Stat\<close> and \<open>os.Open\<close> of a read fail only when the file is not there, and the
  three directories of a mailbox are made or not made together. \<open>recordAudit\<close> is modelled with a store, which \<open>main.go\<close> always gives it, and not its branch for none. The limiter's
  \<open>float64\<close> operations round one by one (Go may fuse a product and a sum on some processors), and a duration does not saturate (at 292 years).
\<close>

section \<open>The whole way of a message\<close>

lemma submission_staged:
  assumes "se_Store env = Maildir_ops" "se_Queue env = MemoryBackend_ops" "submission_Data env d now draws rd s st = (None, st')"
    and "maildir_inv (sst_store st)" "length (ss_rcpts s) \<le> maildir_room (sst_store st)" "mq_inv job_ID (sst_queue st)"
    and "distinct (map (fst \<circ> draws) [0..<length (ss_rcpts s)])"
  obtains body v key signed where "rd = Inr body" "dir_Vhost (se_Directory env) (ss_authVhost s) d = Some v" "vh_DKIMKey v = Some key"
    "se_sign env (vh_Domain v) (vh_DKIMSelector v) key body = Inr signed"
    "submit_loop Maildir_ops MemoryBackend_ops s signed (zip (ss_rcpts s) (map draws [0..<length (ss_rcpts s)])) (sst_store st, sst_queue st)
       = (None, sst_store st', sst_queue st')"
    "maildir_inv (sst_store st')"
    "\<And>i. i < length (ss_rcpts s) \<Longrightarrow> \<exists>ref. mq_pending (sst_queue st') (fst (draws i)) = Some (submitted_job s (ss_rcpts s ! i) ref (fst (draws i)) (snd (draws i)))
       \<and> maildir_holds (sst_store st') (job_ref (submitted_job s (ss_rcpts s ! i) ref (fst (draws i)) (snd (draws i)))) signed"
proof -
  let ?zs = "zip (ss_rcpts s) (map draws [0..<length (ss_rcpts s)])"
  obtain body v key signed where d: "rd = Inr body" "dir_Vhost (se_Directory env) (ss_authVhost s) d = Some v" "vh_DKIMKey v = Some key"
    "se_sign env (vh_Domain v) (vh_DKIMSelector v) key body = Inr signed"
    and l: "submit_loop Maildir_ops MemoryBackend_ops s signed ?zs (sst_store st, sst_queue st) = (None, sst_store st', sst_queue st')"
    using submission_Data_cases[OF assms(3)] assms(1,2) by auto
  have ids: "map (fst \<circ> snd) ?zs = map (fst \<circ> draws) [0..<length (ss_rcpts s)]" by (rule nth_equalityI) simp_all
  have "maildir_inv (sst_store st')" using mdq.submit_loop_spec[OF l assms(4) _ assms(6)] assms(5,7) ids by auto
  moreover have "\<exists>ref. mq_pending (sst_queue st') (fst (draws i)) = Some (submitted_job s (ss_rcpts s ! i) ref (fst (draws i)) (snd (draws i)))
       \<and> maildir_holds (sst_store st') (job_ref (submitted_job s (ss_rcpts s ! i) ref (fst (draws i)) (snd (draws i)))) signed"
    if "i < length (ss_rcpts s)" for i
    using mdq.submit_loop_indexed[OF l assms(4-7)] that by auto
  ultimately show thesis using that[OF d l] by blast
qed

text \<open>
  C2: Mail that is accepted is settled. Let a deliverer run on a queue that was empty at its start,
  and let an authenticated session submit a message, with fresh job IDs, that is acknowledged. Whatever the remote hosts answer, in
  every schedule of the workers that moves while it can, each recipient's job is settled within three steps per attempt of the queued jobs:
  in an attempt for that sender and that recipient, with the message signed by the vhost's DKIM key still in the outbox, in which either
  one of the recipient's mail hosts accepted the signed message, or the failure was permanent or the last attempt allowed and
  a bounce was counted. With that attempt, and no sooner, the job leaves the queue.
\<close>

theorem submitted_mail_settles:
  fixes \<sigma> :: "nat \<Rightarrow> (memory_backend, maildir, 'h) run_state"
  assumes "se_Store env = Maildir_ops" "se_Queue env = MemoryBackend_ops"
    and "live_reachable MemoryBackend_ops dirops dir Maildir_ops cfg mq_pending d0 r" "ds_queue d0 = NewMemoryBackend"
    and "sst_store st = ds_store (rs_state r)" "sst_queue st = ds_queue (rs_state r)"
    and "submission_Data env d now draws rd s st = (None, st')"
    and "\<sigma> 0 = r\<lparr>rs_state := (rs_state r)\<lparr>ds_queue := sst_queue st', ds_store := sst_store st'\<rparr>\<rparr>"
    and "maildir_inv (sst_store st)" "length (ss_rcpts s) \<le> maildir_room (sst_store st)"
    and "card (dom (mq_pending (sst_queue st'))) \<le> maildir_room (sst_store st')"
    and "distinct (map (fst \<circ> draws) [0..<length (ss_rcpts s)])" "\<forall>i < length (ss_rcpts s). mq_pending (sst_queue st) (fst (draws i)) = None"
    and "0 < dc_BackoffBase cfg" "dc_BackoffBase cfg < 2 ^ 53" "0 < dc_BackoffMax cfg" "dc_BackoffMax cfg < 2 ^ 53"
    and "\<And>n. work_step MemoryBackend_ops dirops dir Maildir_ops cfg (\<sigma> n) (\<sigma> (Suc n))
        \<or> (\<nexists>r'. work_step MemoryBackend_ops dirops dir Maildir_ops cfg (\<sigma> n) r') \<and> \<sigma> (Suc n) = \<sigma> n"
  shows "\<exists>body v key signed. rd = Inr body \<and> dir_Vhost (se_Directory env) (ss_authVhost s) d = Some v \<and> vh_DKIMKey v = Some key
    \<and> se_sign env (vh_Domain v) (vh_DKIMSelector v) key body = Inr signed
    \<and> (\<forall>i < length (ss_rcpts s). \<exists>m < 3 * nat (max 1 (dc_MaxAttempts cfg)) * card (dom (mq_pending (sst_queue st'))). \<exists>g denv j.
         rs_go (\<sigma> m) g = GSend j \<and> job_ID j = fst (draws i) \<and> job_From j = ss_from s \<and> job_To j = ss_rcpts s ! i \<and> job_Vhost j = ss_authVhost s
         \<and> Maildir_Read None (job_ref j) (ds_store (rs_state (\<sigma> m))) = Inr signed
         \<and> handle MemoryBackend_ops dirops dir Maildir_ops cfg denv j (rs_state (\<sigma> m)) = Some (rs_state (\<sigma> (Suc m)))
         \<and> mq_pending (ds_queue (rs_state (\<sigma> (Suc m)))) (fst (draws i)) = None
         \<and> (case fst (Deliverer_attempt Maildir_ops cfg denv j (ds_store (rs_state (\<sigma> m)))) of
              None \<Rightarrow> \<exists>mxs. lookupMX (de_resolver denv) (de_seed denv) (destinationDomain (job_To j)) = Inr mxs
                \<and> fst (send (de_lib denv) cfg (de_net denv) j signed mxs) = None
            | Some e \<Rightarrow> (isPermanent (de_lib denv) e \<or> dc_MaxAttempts cfg \<le> job_Attempts j + 1)
                \<and> ds_bounces (rs_state (\<sigma> (Suc m))) = Suc (ds_bounces (rs_state (\<sigma> m)))))"
proof -
  have live: "mfq.live_ok cfg r" by (rule mfq.live_ok_reachable[OF assms(3,4)])
  then have "mq_inv job_ID (sst_queue st)" using mmp.live_inv assms(6) by simp
  then obtain body v key signed where b: "rd = Inr body" "dir_Vhost (se_Directory env) (ss_authVhost s) d = Some v" "vh_DKIMKey v = Some key"
    "se_sign env (vh_Domain v) (vh_DKIMSelector v) key body = Inr signed"
    and l: "submit_loop Maildir_ops MemoryBackend_ops s signed (zip (ss_rcpts s) (map draws [0..<length (ss_rcpts s)])) (sst_store st, sst_queue st)
       = (None, sst_store st', sst_queue st')" and minv: "maildir_inv (sst_store st')"
    and jobs: "\<And>i. i < length (ss_rcpts s) \<Longrightarrow> \<exists>ref. mq_pending (sst_queue st') (fst (draws i)) = Some (submitted_job s (ss_rcpts s ! i) ref (fst (draws i)) (snd (draws i)))
       \<and> maildir_holds (sst_store st') (job_ref (submitted_job s (ss_rcpts s ! i) ref (fst (draws i)) (snd (draws i)))) signed"
    using submission_staged[OF assms(1,2,7,9,10) _ assms(12)] by blast
  let ?zs = "zip (ss_rcpts s) (map draws [0..<length (ss_rcpts s)])"
  have ids: "map (fst \<circ> snd) ?zs = map (fst \<circ> draws) [0..<length (ss_rcpts s)]" by (rule nth_equalityI) simp_all
  have fresh: "\<forall>z \<in> set ?zs. mq_pending (ds_queue (rs_state r)) (fst (snd z)) = None"
  proof
    fix z assume "z \<in> set ?zs"
    then obtain i where "i < length (ss_rcpts s)" "z = (ss_rcpts s ! i, draws i)" by (auto simp: set_zip)
    then show "mq_pending (ds_queue (rs_state r)) (fst (snd z)) = None" using assms(6,13) by simp
  qed
  have live0: "mfq.live_ok cfg (\<sigma> 0)" unfolding assms(8)
    by (rule mmp.live_ok_submit[OF l[unfolded assms(6)] live _ fresh]) (simp only: ids assms(12))
  have delays: "mfq.delays_ok cfg" using assms(14-17) by (simp add: mfq.delays_ok_def)
  have "\<exists>m < 3 * nat (max 1 (dc_MaxAttempts cfg)) * card (dom (mq_pending (sst_queue st'))). \<exists>k.
      job_ID k = fst (draws i) \<and> job_From k = ss_from s \<and> job_To k = ss_rcpts s ! i \<and> job_Vhost k = ss_authVhost s
      \<and> mmp.settled dirops dir cfg k (\<sigma> m) (\<sigma> (Suc m)) \<and> maildir_holds (ds_store (rs_state (\<sigma> m))) (job_ref k) signed
      \<and> mq_pending (ds_queue (rs_state (\<sigma> (Suc m)))) (fst (draws i)) = None" if i: "i < length (ss_rcpts s)" for i
  proof -
    from jobs[OF i] obtain ref where j: "mq_pending (sst_queue st') (fst (draws i)) = Some (submitted_job s (ss_rcpts s ! i) ref (fst (draws i)) (snd (draws i)))"
      "maildir_holds (sst_store st') (job_ref (submitted_job s (ss_rcpts s ! i) ref (fst (draws i)) (snd (draws i)))) signed" by blast
    let ?j = "submitted_job s (ss_rcpts s ! i) ref (fst (draws i)) (snd (draws i))"
    have k: "job_ID ?j = fst (draws i)" "job_From ?j = ss_from s" "job_To ?j = ss_rcpts s ! i" "job_Vhost ?j = ss_authVhost s"
      by (simp_all add: submitted_job_def)
    have "mmp.intact ?j signed (\<sigma> 0)" using minv assms(11) j k(1) by (simp add: mmp.intact_def assms(8) same_mail_def)
    from mmp.settles[OF live0 delays this _ assms(18)] show ?thesis using j(1) k by (fastforce simp: assms(8))
  qed
  note each = this
  show ?thesis
    apply (rule exI[of _ body], rule exI[of _ v], rule exI[of _ key], rule exI[of _ signed], intro conjI b allI impI)
    subgoal premises p for i
    proof -
      obtain m k where m: "m < 3 * nat (max 1 (dc_MaxAttempts cfg)) * card (dom (mq_pending (sst_queue st')))"
        and k: "job_ID k = fst (draws i)" "job_From k = ss_from s" "job_To k = ss_rcpts s ! i" "job_Vhost k = ss_authVhost s"
        and e: "mmp.settled dirops dir cfg k (\<sigma> m) (\<sigma> (Suc m))" "maildir_holds (ds_store (rs_state (\<sigma> m))) (job_ref k) signed"
          "mq_pending (ds_queue (rs_state (\<sigma> (Suc m)))) (fst (draws i)) = None" using each[OF p] by blast
      show ?thesis using settled_attempt[OF e(1,2) e(3)[folded k(1)], unfolded k] m by blast
    qed
    done
qed

definition demo_start :: "(memory_backend, maildir, unit) deliver_state" where
  "demo_start = \<lparr>ds_queue = NewMemoryBackend, ds_store = demo_md, ds_hooks = (), ds_bounces = 0\<rparr>"

lemma demo_accepted:
  "\<exists>st' j. submission_Data demo_submission demo_sub_dir 5 (\<lambda>i. (''j'', 5)) (Inr ''hi'') demo_sub_session demo_sub_state = (None, st')
     \<and> mq_pending (sst_queue st') = [''j'' \<mapsto> j] \<and> 1 \<le> maildir_room (sst_store st')"
proof -
  let ?ref = "\<lparr>ref_Vhost = ''d.test'', ref_Mailbox = OutboxMailbox, ref_Key = fst (uniqueName demo_md)\<rparr>"
  have m: "mailboxDir demo_md ''d.test'' OutboxMailbox = [''var'', ''mail'', ''d.test'', ''Outbox'']"
    by (simp add: mailboxDir_def path_join_def demo_md_def OutboxMailbox_def)
  obtain b' where w: "Maildir_Write None ''d.test'' OutboxMailbox ''sighi'' demo_md = (Inr ?ref, b')"
    using Write_ok[of demo_md "''d.test''" OutboxMailbox "''sighi''"] unfolding m by (auto simp: demo_md_def fs_exists_def)
  have ok: "maildir_inv demo_md" "1 < maildir_room demo_md" by (simp_all add: maildir_inv_def maildir_room_def demo_md_def)
  have "maildir_room demo_md \<le> Suc (maildir_room b')"
    using mds.write_keeps[OF ok(1), of None "''d.test''" OutboxMailbox "''sighi''" "Inr ?ref" b'] w ok(2) by (simp add: Maildir_ops_def)
  then have "1 \<le> maildir_room b'" using ok(2) by linarith
  moreover have "dir_Vhost (se_Directory demo_submission) ''d.test'' demo_sub_dir = Some (demo_vhost\<lparr>vh_DKIMKey := Some ''pem''\<rparr>)"
    by (simp add: demo_submission_def memory_directory_ops_def memory_Vhost_def demo_sub_dir_def)
  ultimately show ?thesis using w
    by (simp add: submission_Data_def demo_submission_def checkQuota_def demo_sub_session_def demo_sub_state_def Maildir_ops_def
        MemoryBackend_ops_def MemoryBackend_Enqueue_def mem_Enqueue_def submitted_job_def NewMemoryBackend_def mem_new_def mq_view fun_eq_iff)
qed

theorem submitted_mail_settles_witness:
  "\<exists>(\<sigma> :: nat \<Rightarrow> (memory_backend, maildir, unit) run_state) m g denv j. mq_pending (ds_queue (rs_state (\<sigma> 0))) ''j'' \<noteq> None \<and> m < 3 * nat (max 1 (dc_MaxAttempts demo_cfg))
     \<and> rs_go (\<sigma> m) g = GSend j \<and> job_To j = ''v@b.test'' \<and> Maildir_Read None (job_ref j) (ds_store (rs_state (\<sigma> m))) = Inr ''sighi''
     \<and> handle MemoryBackend_ops memory_directory_ops memory_New Maildir_ops demo_cfg denv j (rs_state (\<sigma> m)) = Some (rs_state (\<sigma> (Suc m)))
     \<and> mq_pending (ds_queue (rs_state (\<sigma> (Suc m)))) ''j'' = None"
proof -
  let ?step = "work_step MemoryBackend_ops memory_directory_ops memory_New Maildir_ops demo_cfg"
  let ?r = "\<lparr>rs_state = demo_start, rs_sem = newDomainSemaphores (dc_PerDomainConcurrency demo_cfg), rs_go = (\<lambda>_. GIdle)\<rparr>"
  obtain st' j where d: "submission_Data demo_submission demo_sub_dir 5 (\<lambda>i. (''j'', 5)) (Inr ''hi'') demo_sub_session demo_sub_state = (None, st')"
    and p: "mq_pending (sst_queue st') = [''j'' \<mapsto> j]" and room: "1 \<le> maildir_room (sst_store st')" using demo_accepted by blast
  define r0 where "r0 = ?r\<lparr>rs_state := (rs_state ?r)\<lparr>ds_queue := sst_queue st', ds_store := sst_store st'\<rparr>\<rparr>"
  define \<sigma> where "\<sigma> = rec_nat r0 (\<lambda>_ r. if \<exists>r'. ?step r r' then SOME r'. ?step r r' else r)"
  have 0: "\<sigma> 0 = r0" by (simp add: \<sigma>_def)
  have steps: "?step (\<sigma> i) (\<sigma> (Suc i)) \<or> (\<nexists>r'. ?step (\<sigma> i) r') \<and> \<sigma> (Suc i) = \<sigma> i" for i
  proof (cases "\<exists>r'. ?step (\<sigma> i) r'")
    case True
    then have "\<sigma> (Suc i) = (SOME r'. ?step (\<sigma> i) r')" unfolding \<sigma>_def nat.rec by (rule if_P)
    then show ?thesis using someI_ex[OF True] by argo
  next
    case False
    then have "\<sigma> (Suc i) = \<sigma> i" unfolding \<sigma>_def nat.rec by (rule if_not_P)
    then show ?thesis using False by blast
  qed
  have cfg: "0 < dc_BackoffBase demo_cfg" "dc_BackoffBase demo_cfg < 2 ^ 53" "0 < dc_BackoffMax demo_cfg" "dc_BackoffMax demo_cfg < 2 ^ 53"
    by (simp_all add: demo_cfg_def withDefaults_def)
  have env: "se_Store demo_submission = Maildir_ops" "se_Queue demo_submission = MemoryBackend_ops" by (simp_all add: demo_submission_def)
  have start: "ds_queue demo_start = NewMemoryBackend" "sst_store demo_sub_state = ds_store (rs_state ?r)" "sst_queue demo_sub_state = ds_queue (rs_state ?r)"
    by (simp_all add: demo_start_def demo_sub_state_def)
  have md: "maildir_inv (sst_store demo_sub_state)" "length (ss_rcpts demo_sub_session) \<le> maildir_room (sst_store demo_sub_state)"
    "card (dom (mq_pending (sst_queue st'))) \<le> maildir_room (sst_store st')"
    "distinct (map (fst \<circ> (\<lambda>i. (''j'', 5 :: time))) [0..<length (ss_rcpts demo_sub_session)])"
    "\<forall>i < length (ss_rcpts demo_sub_session). mq_pending (sst_queue demo_sub_state) (fst (''j'', 5 :: time)) = None"
    using p room by (simp_all add: demo_sub_state_def maildir_inv_def maildir_room_def demo_md_def demo_sub_session_def NewMemoryBackend_def mem_new_def mq_view)
  have live: "live_reachable MemoryBackend_ops memory_directory_ops memory_New Maildir_ops demo_cfg mq_pending demo_start ?r" by (rule live_init)
  note settles = submitted_mail_settles[OF env live start d 0[unfolded r0_def] md cfg steps]
  have sign: "se_sign demo_submission dom sel key b = Inr (''sig'' @ b)" for dom sel key b by (simp add: demo_submission_def)
  have one: "length (ss_rcpts demo_sub_session) = 1" "ss_rcpts demo_sub_session ! 0 = ''v@b.test''" by (simp_all add: demo_sub_session_def)
  have "card (dom (mq_pending (sst_queue st'))) = 1" using p by simp
  then obtain m g denv k where "m < 3 * nat (max 1 (dc_MaxAttempts demo_cfg))" "rs_go (\<sigma> m) g = GSend k" "job_To k = ''v@b.test''"
    "Maildir_Read None (job_ref k) (ds_store (rs_state (\<sigma> m))) = Inr ''sighi''"
    "handle MemoryBackend_ops memory_directory_ops memory_New Maildir_ops demo_cfg denv k (rs_state (\<sigma> m)) = Some (rs_state (\<sigma> (Suc m)))"
    "mq_pending (ds_queue (rs_state (\<sigma> (Suc m)))) ''j'' = None"
    using settles one by (auto simp: sign)
  moreover have "mq_pending (ds_queue (rs_state (\<sigma> 0))) ''j'' \<noteq> None" using p by (simp add: 0 r0_def)
  ultimately show ?thesis
    by blast
qed

end
